(* ===== verification/Prelude.thy ===== *)
theory Prelude
  imports Complex_Main
begin

text \<open>
  Shared vocabulary of the development: the scalar types of the model, the HTTP errors the
  services throw, the shape of a handler's result, and the five Prisma query shapes the services
  use on a table (\<open>findUnique\<close>/\<open>findFirst\<close>, \<open>findMany\<close> with \<open>take\<close>, \<open>count\<close>,
  \<open>update\<close>/\<open>updateMany\<close>, \<open>create\<close>) over a table held as a list of rows.  The locale
  \<open>repository\<close> states what a service may rely on when it goes through the delegate of one table
  (\<open>prisma.order\<close>, \<open>prisma.rider\<close>, ...); \<open>Schema\<close> interprets it for every table.
\<close>

section \<open>Scalars\<close>

type_synonym uuid = string
type_synonym time = int   \<comment> \<open>milliseconds since the epoch, as \<open>Date.getTime()\<close>\<close>
type_synonym xaf = int    \<comment> \<open>FCFA, integers in the whole code base\<close>

text \<open>A JavaScript string value is falsy when it is null, undefined or empty.\<close>

fun falsy :: "string option \<Rightarrow> bool" where
  "falsy None = True"
| "falsy (Some s) = (s = [])"

text \<open>\<open>Math.round\<close> rounds halves towards plus infinity.\<close>

definition js_round :: "rat \<Rightarrow> int" where
  "js_round x = \<lfloor>x + 1 / 2\<rfloor>"

text \<open>The decimal notation a template literal gives an integer.\<close>

fun show_nat :: "nat \<Rightarrow> string" where
  "show_nat n = (if n < 10 then [char_of (48 + n)]
                 else show_nat (n div 10) @ [char_of (48 + n mod 10)])"

declare show_nat.simps [simp del]

definition show_int :: "int \<Rightarrow> string" where
  "show_int i = (if i < 0 then CHR ''-'' # show_nat (nat (- i)) else show_nat (nat i))"

named_theorems handler_simps \<open>unfolding the thin layers between a handler and the tables\<close>
named_theorems frame_simps \<open>which tables an operation leaves alone\<close>

section \<open>Errors and results\<close>

text \<open>
  The NestJS exceptions, with the stable \<open>code\<close> of the body.  \<open>PrismaError\<close> is a query that
  fails at the database (\<open>P2002\<close> unique violation, \<open>P2025\<close> record to update not found);
  \<open>UpstreamError\<close> is an error thrown by an external client (Campay, Twilio, ...).
\<close>

datatype http_error =
    BadRequest string
  | Unauthorized string
  | Forbidden string
  | NotFound string
  | Conflict string
  | PrismaError string
  | UpstreamError string
  | TooManyRequests string

text \<open>
  A handler takes the world and returns its result together with the world it leaves behind: an
  exception thrown after a committed write keeps the write, one thrown inside \<open>$transaction\<close>
  or before any write does not.
\<close>

type_synonym ('a, 'w) outcome = "(http_error + 'a) \<times> 'w"

definition failed :: "('a, 'w) outcome \<Rightarrow> bool" where
  "failed r = (case fst r of Inl _ \<Rightarrow> True | Inr _ \<Rightarrow> False)"

lemma failed_simps [simp]: "failed (Inl e, w)" "\<not> failed (Inr a, w)"
  by (simp_all add: failed_def)

lemma not_failedE:
  assumes "\<not> failed r"
  obtains a where "r = (Inr a, snd r)"
  using assms by (cases r; cases "fst r") (auto simp: failed_def)

text \<open>The world a handler leaves when it succeeded, \<open>None\<close> when it threw.\<close>

definition won :: "('a, 'w) outcome \<Rightarrow> 'w option" where
  "won r = (case fst r of Inl _ \<Rightarrow> None | Inr _ \<Rightarrow> Some (snd r))"

lemma won_simps [simp]: "won (Inl e, w) = None" "won (Inr a, w) = Some w"
  by (simp_all add: won_def)

lemma won_failed: "won r = None \<longleftrightarrow> failed r"
  by (auto simp: won_def failed_def split: sum.splits)

section \<open>Tables as lists of rows\<close>

definition upd_where :: "('r \<Rightarrow> bool) \<Rightarrow> ('r \<Rightarrow> 'r) \<Rightarrow> 'r list \<Rightarrow> 'r list" where
  "upd_where p f rs = map (\<lambda>r. if p r then f r else r) rs"

definition count_where :: "('r \<Rightarrow> bool) \<Rightarrow> 'r list \<Rightarrow> nat" where
  "count_where p rs = length (filter p rs)"

definition find_row :: "('r \<Rightarrow> bool) \<Rightarrow> 'r list \<Rightarrow> 'r option" where
  "find_row p rs = List.find p rs"

text \<open>\<open>findMany\<close> with \<open>take\<close>, in table order.\<close>

definition find_many :: "nat \<Rightarrow> ('r \<Rightarrow> bool) \<Rightarrow> 'r list \<Rightarrow> 'r list" where
  "find_many n p rs = take n (filter p rs)"

text \<open>A value that would break a unique column, read over the other rows.\<close>

definition clashes :: "('r \<Rightarrow> 'v) \<Rightarrow> 'v \<Rightarrow> ('r \<Rightarrow> bool) \<Rightarrow> 'r list \<Rightarrow> bool" where
  "clashes col v other rs = (\<exists>r \<in> set rs. other r \<and> col r = v)"

lemma find_row_Nil [simp]: "find_row p [] = None"
  by (simp add: find_row_def)

lemma find_row_Cons [simp]: "find_row p (r # rs) = (if p r then Some r else find_row p rs)"
  by (simp add: find_row_def)

lemma upd_where_Nil [simp]: "upd_where p f [] = []"
  by (simp add: upd_where_def)

lemma upd_where_Cons [simp]:
  "upd_where p f (r # rs) = (if p r then f r else r) # upd_where p f rs"
  by (simp add: upd_where_def)

lemma count_where_Nil [simp]: "count_where p [] = 0"
  by (simp add: count_where_def)

lemma count_where_Cons [simp]:
  "count_where p (r # rs) = (if p r then Suc (count_where p rs) else count_where p rs)"
  by (simp add: count_where_def)

lemma count_where_0: "count_where p rs = 0 \<longleftrightarrow> (\<forall>r \<in> set rs. \<not> p r)"
  by (induction rs) auto

lemma count_where_append [simp]: "count_where p (xs @ ys) = count_where p xs + count_where p ys"
  by (simp add: count_where_def)

lemma count_where_mono: "(\<And>x. x \<in> set xs \<Longrightarrow> p x \<Longrightarrow> q x) \<Longrightarrow> count_where p xs \<le> count_where q xs"
  by (induction xs) (auto intro: le_SucI)

lemma count_where_filter: "count_where p (filter q xs) \<le> count_where p xs"
  by (induction xs) auto

lemma count_where_map: "count_where p (map f xs) = count_where (\<lambda>x. p (f x)) xs"
  by (induction xs) auto

lemma count_where_le: "count_where p xs \<le> length xs"
  by (simp add: count_where_def)

lemma upd_where_none: "\<forall>r \<in> set rs. \<not> p r \<Longrightarrow> upd_where p f rs = rs"
  by (induction rs) auto

lemma length_upd_where [simp]: "length (upd_where p f rs) = length rs"
  by (simp add: upd_where_def)

lemma set_upd_where: "set (upd_where p f rs) = (\<lambda>r. if p r then f r else r) ` set rs"
  by (simp add: upd_where_def)

lemma map_key_upd_where: "(\<And>r. k (f r) = k r) \<Longrightarrow> map k (upd_where p f rs) = map k rs"
  by (induction rs) auto

lemma upd_where_twice:
  "upd_where p f (upd_where q g rs) =
     map (\<lambda>r. if p (if q r then g r else r) then f (if q r then g r else r)
              else (if q r then g r else r)) rs"
  by (induction rs) auto

lemma find_row_Some: "find_row p rs = Some r \<Longrightarrow> r \<in> set rs \<and> p r"
  by (induction rs) (auto split: if_splits)

lemma find_row_None: "find_row p rs = None \<longleftrightarrow> (\<forall>r \<in> set rs. \<not> p r)"
  by (induction rs) auto

lemma find_row_map:
  assumes "\<And>x. p (f x) = p x"
  shows "find_row p (map f xs) = map_option f (find_row p xs)"
  using assms by (induction xs) auto

lemma filter_upd_where:
  "(\<And>x. p (f x) = p x) \<Longrightarrow> filter p (upd_where q f xs) = upd_where q f (filter p xs)"
  by (induction xs) auto

lemma find_row_append:
  "find_row p (xs @ ys) = (case find_row p xs of Some r \<Rightarrow> Some r | None \<Rightarrow> find_row p ys)"
  by (induction xs) auto

lemma find_row_key_upd:
  assumes "\<And>r. k (f r) = k r"
  shows "find_row (\<lambda>r. k r = i) (upd_where p f rs) =
         map_option (\<lambda>r. if p r then f r else r) (find_row (\<lambda>r. k r = i) rs)"
  using assms by (induction rs) auto

lemma find_row_cong_upd:
  assumes "\<And>r. q (f r) = q r"
  shows "find_row q (upd_where p f rs) =
         map_option (\<lambda>r. if p r then f r else r) (find_row q rs)"
  using assms by (induction rs) auto

text \<open>On distinct keys a query by key sees exactly one row.\<close>

lemma find_row_key_unique:
  "distinct (map k rs) \<Longrightarrow> r \<in> set rs \<Longrightarrow> find_row (\<lambda>x. k x = k r) rs = Some r"
  by (induction rs) auto

lemma distinct_key_Cons: "distinct (map k (x # xs)) \<Longrightarrow> y \<in> set xs \<Longrightarrow> k y \<noteq> k x"
  by (metis distinct.simps(2) image_eqI list.set_map list.simps(9))

lemma filter_key_single:
  assumes "distinct (map k xs)" and "x \<in> set xs"
  shows "filter (\<lambda>y. k y = k x) xs = [x]"
  using assms
proof (induction xs)
  case (Cons a xs)
  show ?case
  proof (cases "a = x")
    case True
    then have "\<forall>y \<in> set xs. k y \<noteq> k x" using distinct_key_Cons [OF Cons.prems(1)] by blast
    then show ?thesis using True by (simp add: filter_False)
  next
    case False
    then have x: "x \<in> set xs" using Cons.prems(2) by simp
    then have "k a \<noteq> k x" using distinct_key_Cons [OF Cons.prems(1)] by metis
    then show ?thesis using Cons.IH Cons.prems(1) x by simp
  qed
qed simp

lemma count_where_key:
  assumes "distinct (map k rs)"
  shows "count_where (\<lambda>r. k r = i \<and> q r) rs =
         (case find_row (\<lambda>r. k r = i) rs of None \<Rightarrow> 0 | Some r \<Rightarrow> if q r then 1 else 0)"
  using assms
proof (induction rs)
  case Nil
  then show ?case by simp
next
  case (Cons x xs)
  have "\<forall>r \<in> set xs. k r \<noteq> k x" using distinct_key_Cons [OF Cons.prems] by blast
  then have "count_where (\<lambda>r. k r = k x \<and> q r) xs = 0"
    unfolding count_where_0 by blast
  with Cons show ?case by (cases "k x = i") auto
qed

lemma count_where_key_pos:
  assumes "find_row (\<lambda>r. k r = i) rs = Some r" and "q r"
  shows "count_where (\<lambda>r. k r = i \<and> q r) rs \<noteq> 0"
  using find_row_Some [OF assms(1)] assms(2) by (auto simp: count_where_0)

lemma find_many_subset: "set (find_many n p rs) \<subseteq> {r \<in> set rs. p r}"
  by (auto simp: find_many_def dest: in_set_takeD)

lemma sum_list_upd_where_neutral:
  fixes g :: "'r \<Rightarrow> int"
  assumes "\<And>r. g (f r) = g r"
  shows "sum_list (map g (upd_where p f rs)) = sum_list (map g rs)"
  using assms by (simp add: map_key_upd_where)

text \<open>
  \<open>findFirst\<close> with \<open>orderBy: { key: 'desc' }\<close>: the first row with the greatest key.
\<close>

fun latest :: "('r \<Rightarrow> int) \<Rightarrow> 'r list \<Rightarrow> 'r option" where
  "latest key [] = None"
| "latest key (r # rs) =
     (case latest key rs of
        None \<Rightarrow> Some r
      | Some r' \<Rightarrow> if key r \<ge> key r' then Some r else Some r')"

lemma latest_None [simp]: "latest key rs = None \<longleftrightarrow> rs = []"
  by (cases rs) (auto split: option.splits if_splits)

lemma latest_Some: "latest key rs = Some r \<Longrightarrow> r \<in> set rs \<and> (\<forall>x \<in> set rs. key x \<le> key r)"
proof (induction rs arbitrary: r)
  case (Cons a rs)
  then show ?case
    by (cases "latest key rs") (fastforce split: if_splits)+
qed simp

lemma latest_is_max:
  assumes "latest key rs = Some r" and "x \<in> set rs"
  shows "key x \<le> key r"
  using latest_Some [OF assms(1)] assms(2) by blast

section \<open>The interface of one table\<close>

text \<open>
  A service reaches a table through its Prisma delegate: it reads the rows and maps an update
  over them.  The laws are those of a well-behaved record field; every table of \<open>Schema\<close> is an
  instance.  The lemmas are what the handlers' proofs use.
\<close>

locale repository =
  fixes rows :: "'w \<Rightarrow> 'r list"
    and modify :: "('r list \<Rightarrow> 'r list) \<Rightarrow> 'w \<Rightarrow> 'w"
    and key :: "'r \<Rightarrow> 'k"
  assumes rows_modify: "rows (modify f w) = f (rows w)"
begin

lemma find_after_updateMany:
  assumes "\<And>r. key (f r) = key r"
  shows "find_row (\<lambda>r. key r = i) (rows (modify (upd_where p f) w)) =
         map_option (\<lambda>r. if p r then f r else r) (find_row (\<lambda>r. key r = i) (rows w))"
  by (simp add: rows_modify find_row_key_upd [of key f, OF assms])

lemma keys_after_updateMany:
  assumes "\<And>r. key (f r) = key r"
  shows "map key (rows (modify (upd_where p f) w)) = map key (rows w)"
  by (simp add: rows_modify map_key_upd_where [of key f, OF assms])

lemma find_after_create:
  "find_row (\<lambda>r. key r = i) (rows (modify (\<lambda>rs. rs @ [r]) w)) =
   (case find_row (\<lambda>r. key r = i) (rows w) of
      Some x \<Rightarrow> Some x | None \<Rightarrow> if key r = i then Some r else None)"
  by (auto simp: rows_modify find_row_append split: option.splits)

lemma untouched_after_updateMany:
  assumes "\<And>r. key (f r) = key r" and "\<And>r. p r \<Longrightarrow> key r = j" and "i \<noteq> j"
  shows "find_row (\<lambda>r. key r = i) (rows (modify (upd_where p f) w)) =
         find_row (\<lambda>r. key r = i) (rows w)"
proof -
  have "map_option (\<lambda>r. if p r then f r else r) (find_row (\<lambda>r. key r = i) (rows w)) =
        find_row (\<lambda>r. key r = i) (rows w)"
    using assms(2,3) by (cases "find_row (\<lambda>r. key r = i) (rows w)")
      (auto dest: find_row_Some)
  then show ?thesis by (simp add: find_after_updateMany [OF assms(1)])
qed

end

end
