(* ===== verification/Campay.thy ===== *)
theory Campay
  imports Prelude
begin

text \<open>
  The Campay client: \<open>infra/campay/campay-circuit-breaker.service.ts\<close> and
  \<open>infra/campay/campay.service.ts\<close>.  Both keep their state in memory, one instance per process;
  \<open>campay_client\<close> is that state.  Campay itself is the parameter \<open>server\<close>, a function from a
  request to a reply or to a network error; a reply carries the fields of the JSON body the client
  reads.  A wrapped call takes the instants at which it starts and ends, since the breaker stamps
  the end of a failed call.
\<close>

section \<open>The circuit breaker\<close>

definition THRESHOLD_FAILURES :: nat where "THRESHOLD_FAILURES = 5"
definition OPEN_DURATION_MS :: int where "OPEN_DURATION_MS = 60000"

datatype CircuitState = CLOSED | OPEN | HALF_OPEN

record breaker =
  b_state :: CircuitState
  b_consecutiveFailures :: nat
  b_openedAt :: time

definition breaker_init :: breaker where
  "breaker_init = \<lparr>b_state = CLOSED, b_consecutiveFailures = 0, b_openedAt = 0\<rparr>"

text \<open>The test before the call: \<open>None\<close> is the fail-fast \<open>CampayCircuitOpenError\<close>.\<close>

definition breaker_enter :: "time \<Rightarrow> breaker \<Rightarrow> breaker option" where
  "breaker_enter now b =
     (if b_state b = OPEN
      then if now - b_openedAt b < OPEN_DURATION_MS then None else Some (b\<lparr>b_state := HALF_OPEN\<rparr>)
      else Some b)"

definition onSuccess :: "breaker \<Rightarrow> breaker" where
  "onSuccess b = b\<lparr>b_state := CLOSED, b_consecutiveFailures := 0, b_openedAt := 0\<rparr>"

definition onFailure :: "time \<Rightarrow> breaker \<Rightarrow> breaker" where
  "onFailure now b =
     (if b_state b = HALF_OPEN then b\<lparr>b_state := OPEN, b_openedAt := now\<rparr>
      else (let n = b_consecutiveFailures b + 1
            in if n \<ge> THRESHOLD_FAILURES
               then b\<lparr>b_state := OPEN, b_consecutiveFailures := n, b_openedAt := now\<rparr>
               else b\<lparr>b_consecutiveFailures := n\<rparr>))"

section \<open>The client\<close>

record campay_client =
  cc_breaker :: breaker
  cc_token :: "string option"
  cc_tokenExpiresAt :: time
  cc_balanceXAF :: "xaf option"
  cc_balanceFetchedAt :: time

definition client_init :: campay_client where
  "client_init = \<lparr>cc_breaker = breaker_init, cc_token = None, cc_tokenExpiresAt = 0,
                  cc_balanceXAF = None, cc_balanceFetchedAt = 0\<rparr>"

definition BALANCE_TTL_MS :: int where "BALANCE_TTL_MS = 60000"

record money_request =
  mq_amountXAF :: xaf
  mq_phone :: string
  mq_description :: string
  mq_externalReference :: string
  mq_webhookUrl :: "string option"

text \<open>The three endpoints that move or count money and the token endpoint.\<close>

datatype endpoint =
    Collect string string string string "string option"
  | Withdraw string string string string "string option"
  | Balance
  | Token

text \<open>A JSON amount: a number, or a text with the value \<open>Number\<close> gives it (\<open>None\<close> is NaN).\<close>

datatype raw_amount = JNumber rat | JText "rat option"

record campay_reply =
  rp_ok :: bool
  rp_httpStatus :: nat
  rp_status :: "string option"
  rp_message :: "string option"
  rp_reference :: "string option"
  rp_total_balance :: "raw_amount option"
  rp_balance :: "raw_amount option"
  rp_amount :: "raw_amount option"
  rp_token :: "string option"
  rp_expires_in :: "int option"
  rp_text :: string

record money_reply =
  mr_reference :: string
  mr_status :: string

type_synonym campay_server = "endpoint \<Rightarrow> string option \<Rightarrow> http_error + campay_reply"

definition reply_error :: "campay_reply \<Rightarrow> http_error" where
  "reply_error r =
     UpstreamError (case rp_message r of Some m \<Rightarrow> m | None \<Rightarrow> ''campay_http_'' @ show_nat (rp_httpStatus r))"

text \<open>
  \<open>getToken\<close>: the cached token until five minutes before its end (never less than one minute of
  use), otherwise a new one.  \<open>configured\<close> says whether the four CAMPAY variables are set.
\<close>

definition getToken ::
  "bool \<Rightarrow> campay_server \<Rightarrow> time \<Rightarrow> campay_client \<Rightarrow> (http_error + string) \<times> campay_client" where
  "getToken configured server now c =
     (if \<not> falsy (cc_token c) \<and> now < cc_tokenExpiresAt c then (Inr (the (cc_token c)), c)
      else if \<not> configured
      then (Inl (UpstreamError ''Campay is not configured''), c)
      else case server Token None of
             Inl e \<Rightarrow> (Inl e, c)
           | Inr r \<Rightarrow>
               if \<not> rp_ok r
               then (Inl (UpstreamError (''Campay auth failed ('' @ show_nat (rp_httpStatus r) @ ''): '' @ rp_text r)), c)
               else if falsy (rp_token r) then (Inl (UpstreamError ''Campay returned no token''), c)
               else (let lifetimeSec = (case rp_expires_in r of Some n \<Rightarrow> n | None \<Rightarrow> 3600)
                     in (Inr (the (rp_token r)),
                         c\<lparr>cc_token := rp_token r,
                           cc_tokenExpiresAt := now + max 60 (lifetimeSec - 300) * 1000\<rparr>)))"

definition money_call ::
  "(string \<Rightarrow> string \<Rightarrow> string \<Rightarrow> string \<Rightarrow> string option \<Rightarrow> endpoint) \<Rightarrow> bool \<Rightarrow> campay_server
     \<Rightarrow> money_request \<Rightarrow> time \<Rightarrow> campay_client \<Rightarrow> (http_error + money_reply) \<times> campay_client" where
  "money_call to_endpoint configured server req now c =
     (if \<not> configured then (Inl (UpstreamError ''Campay is not configured''), c)
      else case getToken configured server now c of
        (Inl e, c1) \<Rightarrow> (Inl e, c1)
      | (Inr token, c1) \<Rightarrow>
          (case server (to_endpoint (show_int (mq_amountXAF req)) (mq_phone req) (mq_description req)
                  (mq_externalReference req)
                  (if falsy (mq_webhookUrl req) then None else mq_webhookUrl req)) (Some token) of
             Inl e \<Rightarrow> (Inl e, c1)
           | Inr r \<Rightarrow>
               if \<not> rp_ok r \<or> rp_status r = Some ''FAILED'' then (Inl (reply_error r), c1)
               else if falsy (rp_reference r) then (Inl (UpstreamError ''campay_missing_reference''), c1)
               else (Inr \<lparr>mr_reference = the (rp_reference r),
                          mr_status = (case rp_status r of Some s \<Rightarrow> s | None \<Rightarrow> ''PENDING'')\<rparr>, c1)))"

definition initiateCollectImpl ::
  "bool \<Rightarrow> campay_server \<Rightarrow> money_request \<Rightarrow> time \<Rightarrow> campay_client \<Rightarrow> (http_error + money_reply) \<times> campay_client" where
  "initiateCollectImpl = money_call Collect"

definition initiateTransferImpl ::
  "bool \<Rightarrow> campay_server \<Rightarrow> money_request \<Rightarrow> time \<Rightarrow> campay_client \<Rightarrow> (http_error + money_reply) \<times> campay_client" where
  "initiateTransferImpl = money_call Withdraw"

definition initiateRefundImpl ::
  "bool \<Rightarrow> campay_server \<Rightarrow> money_request \<Rightarrow> time \<Rightarrow> campay_client \<Rightarrow> (http_error + money_reply) \<times> campay_client" where
  "initiateRefundImpl = money_call Withdraw"

definition raw_balance :: "campay_reply \<Rightarrow> raw_amount" where
  "raw_balance r =
     (case rp_total_balance r of Some a \<Rightarrow> a
      | None \<Rightarrow> (case rp_balance r of Some a \<Rightarrow> a
          | None \<Rightarrow> (case rp_amount r of Some a \<Rightarrow> a | None \<Rightarrow> JNumber 0)))"

fun amount_value :: "raw_amount \<Rightarrow> rat option" where
  "amount_value (JNumber x) = Some x"
| "amount_value (JText v) = v"

definition getBalanceImpl ::
  "bool \<Rightarrow> campay_server \<Rightarrow> bool \<Rightarrow> time \<Rightarrow> campay_client \<Rightarrow> (http_error + xaf) \<times> campay_client" where
  "getBalanceImpl configured server forceRefresh now c =
     (if \<not> forceRefresh \<and> cc_balanceXAF c \<noteq> None \<and> now - cc_balanceFetchedAt c < BALANCE_TTL_MS
      then (Inr (the (cc_balanceXAF c)), c)
      else if \<not> configured then (Inl (UpstreamError ''Campay is not configured''), c)
      else case getToken configured server now c of
        (Inl e, c1) \<Rightarrow> (Inl e, c1)
      | (Inr token, c1) \<Rightarrow>
          (case server Balance (Some token) of
             Inl e \<Rightarrow> (Inl e, c1)
           | Inr r \<Rightarrow>
               if \<not> rp_ok r then (Inl (reply_error r), c1)
               else (case amount_value (raw_balance r) of
                       None \<Rightarrow> (Inl (UpstreamError ''campay_balance_invalid''), c1)
                     | Some x \<Rightarrow>
                         (Inr (js_round x),
                          c1\<lparr>cc_balanceXAF := Some (js_round x), cc_balanceFetchedAt := now\<rparr>))))"

text \<open>\<open>breaker.wrap\<close> around one of the implementations.\<close>

definition wrap ::
  "(time \<Rightarrow> campay_client \<Rightarrow> (http_error + 'a) \<times> campay_client) \<Rightarrow> time \<Rightarrow> time \<Rightarrow> campay_client
     \<Rightarrow> (http_error + 'a) \<times> campay_client" where
  "wrap impl started ended c =
     (case breaker_enter started (cc_breaker c) of
        None \<Rightarrow> (Inl (UpstreamError ''campay_circuit_open''), c)
      | Some b \<Rightarrow>
          (case impl started (c\<lparr>cc_breaker := b\<rparr>) of
             (Inl e, c1) \<Rightarrow> (Inl e, c1\<lparr>cc_breaker := onFailure ended (cc_breaker c1)\<rparr>)
           | (Inr a, c1) \<Rightarrow> (Inr a, c1\<lparr>cc_breaker := onSuccess (cc_breaker c1)\<rparr>)))"

definition initiateCollect ::
  "bool \<Rightarrow> campay_server \<Rightarrow> money_request \<Rightarrow> time \<Rightarrow> time \<Rightarrow> campay_client \<Rightarrow> (http_error + money_reply) \<times> campay_client" where
  "initiateCollect configured server req = wrap (initiateCollectImpl configured server req)"

definition initiateTransfer ::
  "bool \<Rightarrow> campay_server \<Rightarrow> money_request \<Rightarrow> time \<Rightarrow> time \<Rightarrow> campay_client \<Rightarrow> (http_error + money_reply) \<times> campay_client" where
  "initiateTransfer configured server req = wrap (initiateTransferImpl configured server req)"

definition initiateRefund ::
  "bool \<Rightarrow> campay_server \<Rightarrow> money_request \<Rightarrow> time \<Rightarrow> time \<Rightarrow> campay_client \<Rightarrow> (http_error + money_reply) \<times> campay_client" where
  "initiateRefund configured server req = wrap (initiateRefundImpl configured server req)"

definition getBalance ::
  "bool \<Rightarrow> campay_server \<Rightarrow> bool \<Rightarrow> time \<Rightarrow> time \<Rightarrow> campay_client \<Rightarrow> (http_error + xaf) \<times> campay_client" where
  "getBalance configured server forceRefresh = wrap (getBalanceImpl configured server forceRefresh)"

section \<open>The breaker as a state machine\<close>

text \<open>
  Calls overlap, so the entry test, the success and the failure are separate steps; the state
  carries the clock and the number of calls in flight.
\<close>

inductive breaker_reach :: "time \<Rightarrow> nat \<Rightarrow> breaker \<Rightarrow> bool" where
  boot: "0 \<le> t \<Longrightarrow> breaker_reach t 0 breaker_init"
| tick: "breaker_reach t n b \<Longrightarrow> t \<le> t' \<Longrightarrow> breaker_reach t' n b"
| start: "breaker_reach t n b \<Longrightarrow> breaker_enter t b = Some b' \<Longrightarrow> breaker_reach t (Suc n) b'"
| ok: "breaker_reach t (Suc n) b \<Longrightarrow> breaker_reach t n (onSuccess b)"
| fail: "breaker_reach t (Suc n) b \<Longrightarrow> breaker_reach t n (onFailure t b)"

lemma breaker_enter_cases:
  "breaker_enter now b = Some b' \<longleftrightarrow>
   (b_state b \<noteq> OPEN \<and> b' = b) \<or>
   (b_state b = OPEN \<and> now - b_openedAt b \<ge> OPEN_DURATION_MS \<and> b' = b\<lparr>b_state := HALF_OPEN\<rparr>)"
  by (auto simp: breaker_enter_def)

lemma breaker_clock: "breaker_reach t n b \<Longrightarrow> 0 \<le> t"
  by (induction rule: breaker_reach.induct) auto

text \<open>
  In every reachable state the breaker is closed exactly while fewer than five calls have failed
  in a row, and a breaker that is not closed was last opened in the past.
\<close>

theorem breaker_invariant:
  assumes "breaker_reach t n b"
  shows "(b_state b = CLOSED \<longleftrightarrow> b_consecutiveFailures b < THRESHOLD_FAILURES) \<and> b_openedAt b \<le> t"
  using assms
proof (induction rule: breaker_reach.induct)
  case (start t n b b')
  then show ?case
    by (cases "b_state b") (auto simp: breaker_enter_cases OPEN_DURATION_MS_def)
next
  case (ok t n b)
  then show ?case using breaker_clock [of t] by (auto simp: onSuccess_def THRESHOLD_FAILURES_def)
next
  case (fail t n b)
  then show ?case by (cases "b_state b") (auto simp: onFailure_def Let_def)
qed (auto simp: breaker_init_def THRESHOLD_FAILURES_def)

theorem breaker_invariant_witness:
  "b_state (onSuccess breaker_init) = CLOSED \<and> b_openedAt (onSuccess breaker_init) \<le> 7"
proof -
  have "breaker_reach 7 1 breaker_init"
    using breaker_reach.start [OF breaker_reach.boot, of 7 breaker_init]
    by (simp add: breaker_enter_def breaker_init_def)
  then have "breaker_reach 7 0 (onSuccess breaker_init)" using breaker_reach.ok [of 7 0] by simp
  from breaker_invariant [OF this] show ?thesis by (simp add: onSuccess_def)
qed

datatype breaker_event = Start | Succeed | Fail

text \<open>The answers the starts get (true: the call goes out) and the final state.\<close>

fun breaker_run :: "(time \<times> breaker_event) list \<Rightarrow> breaker \<Rightarrow> bool list \<times> breaker" where
  "breaker_run [] b = ([], b)"
| "breaker_run ((t, Start) # es) b =
     (case breaker_enter t b of
        None \<Rightarrow> (let (as, b') = breaker_run es b in (False # as, b'))
      | Some b1 \<Rightarrow> (let (as, b') = breaker_run es b1 in (True # as, b')))"
| "breaker_run ((t, Succeed) # es) b = breaker_run es (onSuccess b)"
| "breaker_run ((t, Fail) # es) b = breaker_run es (onFailure t b)"

lemma onFailure_open:
  "b_state b = OPEN \<Longrightarrow> b_state (onFailure t b) = OPEN \<and> b_openedAt (onFailure t b) \<in> {b_openedAt b, t}"
  by (auto simp: onFailure_def Let_def)

text \<open>
  For the minute after it opened the breaker lets no call out, however the calls that were in
  flight fail, and it is still open at the end of that minute.
\<close>

theorem breaker_fails_fast:
  assumes "b_state b = OPEN" and "\<forall>(t, e) \<in> set es. b_openedAt b \<le> t \<and> t < b_openedAt b + OPEN_DURATION_MS \<and> e \<noteq> Succeed"
  shows "True \<notin> set (fst (breaker_run es b)) \<and> b_state (snd (breaker_run es b)) = OPEN"
proof -
  have "\<forall>(t, e) \<in> set es. t0 \<le> t \<and> t < t0 + OPEN_DURATION_MS \<and> e \<noteq> Succeed \<Longrightarrow>
        b_state b = OPEN \<Longrightarrow> t0 \<le> b_openedAt b \<Longrightarrow>
        True \<notin> set (fst (breaker_run es b)) \<and> b_state (snd (breaker_run es b)) = OPEN" for t0
  proof (induction es b rule: breaker_run.induct)
    case (2 t es b)
    then have "breaker_enter t b = None" by (auto simp: breaker_enter_def)
    with 2 show ?case by (auto split: prod.splits)
  next
    case (4 t es b)
    then have "b_state (onFailure t b) = OPEN" "t0 \<le> b_openedAt (onFailure t b)"
      using onFailure_open [of b t] by auto
    with 4 show ?case by auto
  qed auto
  then show ?thesis using assms by auto
qed

theorem breaker_fails_fast_witness:
  "fst (breaker_run [(1000, Start), (2000, Fail), (60500, Start)]
         \<lparr>b_state = OPEN, b_consecutiveFailures = 5, b_openedAt = 1000\<rparr>) = [False, False]"
proof -
  let ?b = "\<lparr>b_state = OPEN, b_consecutiveFailures = 5, b_openedAt = 1000\<rparr>"
  have "True \<notin> set (fst (breaker_run [(1000, Start), (2000, Fail), (60500, Start)] ?b))"
    using breaker_fails_fast [of ?b "[(1000, Start), (2000, Fail), (60500, Start)]"]
    by (simp add: OPEN_DURATION_MS_def)
  moreover have "length (fst (breaker_run [(1000, Start), (2000, Fail), (60500, Start)] ?b)) = 2"
    by (auto split: option.splits prod.splits)
  ultimately show ?thesis
    by (cases "fst (breaker_run [(1000, Start), (2000, Fail), (60500, Start)] ?b)" rule: remdups_adj.cases) auto
qed

text \<open>
  The probe is not alone: the state machine has no count of trial calls, so every call that starts
  while the first probe is still out goes through as well.
\<close>

lemma half_open_lets_all_through:
  assumes "breaker_enter t b = Some b'" and "b_state b = OPEN"
  shows "breaker_enter t' b' = Some b'"
  using assms by (auto simp: breaker_enter_cases)

section \<open>What the callers rely on\<close>

lemma getToken_breaker: "getToken cfg server now c = (r, c') \<Longrightarrow> cc_breaker c' = cc_breaker c"
  by (auto simp: getToken_def Let_def split: if_splits sum.splits)

lemma getToken_balance:
  "getToken cfg server now c = (r, c') \<Longrightarrow>
   cc_balanceXAF c' = cc_balanceXAF c \<and> cc_balanceFetchedAt c' = cc_balanceFetchedAt c"
  by (auto simp: getToken_def Let_def split: if_splits sum.splits)

text \<open>A token from the cache is unexpired, and a fresh one is kept for at least a minute.\<close>

lemma getToken_fresh:
  assumes "getToken cfg server now c = (Inr tok, c')"
  shows "cc_token c' = Some tok \<and> tok \<noteq> [] \<and> now < cc_tokenExpiresAt c'"
  using assms by (auto simp: getToken_def Let_def elim!: falsy.elims split: if_splits sum.splits option.splits)

text \<open>
  A money call that returns a reference reached Campay once with the amount in plain digits, and
  Campay accepted it under that reference.
\<close>

lemma money_call_accepted:
  assumes "money_call ep cfg server req now c = (Inr reply, c')"
  obtains tok r where "server (ep (show_int (mq_amountXAF req)) (mq_phone req) (mq_description req)
        (mq_externalReference req) (if falsy (mq_webhookUrl req) then None else mq_webhookUrl req)) (Some tok) = Inr r"
    and "rp_ok r" and "rp_status r \<noteq> Some ''FAILED''" and "rp_reference r = Some (mr_reference reply)"
    and "mr_reference reply \<noteq> []"
proof -
  from assms obtain tok c1 r where r: "server (ep (show_int (mq_amountXAF req)) (mq_phone req) (mq_description req)
        (mq_externalReference req) (if falsy (mq_webhookUrl req) then None else mq_webhookUrl req)) (Some tok) = Inr r"
      "rp_ok r" "rp_status r \<noteq> Some ''FAILED''" "\<not> falsy (rp_reference r)"
      "mr_reference reply = the (rp_reference r)"
    by (auto simp: money_call_def split: if_splits sum.splits prod.splits)
  show thesis using that [OF r(1-3)] r(4,5) by (cases "rp_reference r") auto
qed

lemma getBalanceImpl_state:
  assumes "getBalanceImpl cfg server f now c = (Inr x, c')"
  shows "cc_balanceXAF c' = Some x \<and> cc_breaker c' = cc_breaker c"
  using assms getToken_breaker
  by (fastforce simp: getBalanceImpl_def split: if_splits sum.splits option.splits prod.splits)

text \<open>
  A balance that was fetched is served from the cache for one minute: a second call asks Campay
  nothing, gets the same amount and changes nothing.
\<close>

theorem balance_cached:
  assumes "getBalance cfg server f started ended c = (Inr x, c')"
    and "now < cc_balanceFetchedAt c' + BALANCE_TTL_MS"
  shows "getBalance cfg' server' False now ended' c' = (Inr x, c')"
proof -
  obtain b c1 where "getBalanceImpl cfg server f started (c\<lparr>cc_breaker := b\<rparr>) = (Inr x, c1)"
      and c': "c' = c1\<lparr>cc_breaker := onSuccess (cc_breaker c1)\<rparr>"
    using assms(1) by (auto simp: getBalance_def wrap_def split: option.splits prod.splits sum.splits)
  then have "cc_balanceXAF c' = Some x" using getBalanceImpl_state by fastforce
  moreover have "b_state (cc_breaker c') = CLOSED" "onSuccess (cc_breaker c') = cc_breaker c'"
    by (simp_all add: c' onSuccess_def)
  ultimately show ?thesis
    using assms(2) by (simp add: getBalance_def wrap_def breaker_enter_def getBalanceImpl_def)
qed

definition demo_reply :: campay_reply where
  "demo_reply = \<lparr>rp_ok = True, rp_httpStatus = 200, rp_status = Some ''PENDING'', rp_message = None,
     rp_reference = Some ''R1'', rp_total_balance = Some (JText (Some 80000)), rp_balance = None,
     rp_amount = None, rp_token = Some ''tok'', rp_expires_in = Some 3600, rp_text = []\<rparr>"

theorem balance_cached_witness:
  "\<exists>c'. getBalance True (\<lambda>_ _. Inr demo_reply) False 0 5 client_init = (Inr 80000, c')
        \<and> getBalance True (\<lambda>_ _. Inl (UpstreamError ''down'')) False 59999 60000 c' = (Inr 80000, c')"
proof -
  obtain c' where c: "getBalance True (\<lambda>_ _. Inr demo_reply) False 0 5 client_init = (Inr 80000, c')"
      and "cc_balanceFetchedAt c' = 0"
    by (simp add: getBalance_def wrap_def breaker_enter_def client_init_def breaker_init_def
        getBalanceImpl_def getToken_def demo_reply_def raw_balance_def js_round_def floor_eq_iff)
  then show ?thesis using balance_cached [OF c, of 59999] by (auto simp: BALANCE_TTL_MS_def)
qed

end
