(* ===== verification/Pricing.thy ===== *)
theory Pricing
  imports Prelude
begin

text \<open>
  The pure money, time and phone arithmetic of the services: delivery fee
  (\<open>shared/pricing/delivery-fee.util.ts\<close>), the finance snapshot taken when a payment succeeds
  (\<open>order-payment-lifecycle.service.ts\<close>), the pre-order penalty, durations, phone numbers and
  the next-payout estimators of \<open>finance.service.ts\<close>.  JavaScript numbers are read as exact
  rationals; the amounts are integers below \<open>2^31\<close> and the rates have four decimals.
\<close>

section \<open>Delivery fee\<close>

definition DELIVERY_BASE_FEE_XAF :: rat where "DELIVERY_BASE_FEE_XAF = 250"
definition DELIVERY_PER_KM_XAF :: rat where "DELIVERY_PER_KM_XAF = 100"
definition DELIVERY_FEE_FLOOR_XAF :: rat where "DELIVERY_FEE_FLOOR_XAF = 500"
definition DELIVERY_FEE_CAP_XAF :: rat where "DELIVERY_FEE_CAP_XAF = 1500"
definition ROUND_TO_XAF :: int where "ROUND_TO_XAF = 50"

lemmas delivery_consts = DELIVERY_BASE_FEE_XAF_def DELIVERY_PER_KM_XAF_def
  DELIVERY_FEE_FLOOR_XAF_def DELIVERY_FEE_CAP_XAF_def ROUND_TO_XAF_def

definition computeDeliveryFeeXAF :: "rat \<Rightarrow> xaf" where
  "computeDeliveryFeeXAF distanceKm =
     (let raw = DELIVERY_BASE_FEE_XAF + distanceKm * DELIVERY_PER_KM_XAF;
          clamped = min DELIVERY_FEE_CAP_XAF (max DELIVERY_FEE_FLOOR_XAF raw)
      in \<lceil>clamped / of_int ROUND_TO_XAF\<rceil> * ROUND_TO_XAF)"

text \<open>
  The delivery fee is always a multiple of 50 FCFA between the floor of 500 and the cap of
  1500, whatever the distance.
\<close>

theorem delivery_fee_bounds:
  "computeDeliveryFeeXAF km mod 50 = 0 \<and>
   500 \<le> computeDeliveryFeeXAF km \<and> computeDeliveryFeeXAF km \<le> 1500"
proof -
  define c where "c = min (1500::rat) (max 500 (250 + km * 100))"
  have c: "500 \<le> c" "c \<le> 1500" by (auto simp: c_def)
  have "(10::rat) \<le> c / 50" "c / 50 \<le> 30" using c by auto
  then have "10 \<le> \<lceil>c / 50\<rceil>" "\<lceil>c / 50\<rceil> \<le> 30"
    by (auto simp: le_ceiling_iff ceiling_le_iff)
  then show ?thesis
    by (simp add: computeDeliveryFeeXAF_def delivery_consts Let_def c_def [symmetric])
qed

text \<open>
  The fee never decreases with the distance, and rounding is in the platform's favour: the
  fee is at least the clamped raw price and exceeds it by less than 50 FCFA.
\<close>

theorem delivery_fee_rounds_up:
  "of_int (computeDeliveryFeeXAF km) \<ge> min 1500 (max 500 (250 + km * 100)) \<and>
   of_int (computeDeliveryFeeXAF km) < min 1500 (max 500 (250 + km * 100)) + 50"
proof -
  define c where "c = min (1500::rat) (max 500 (250 + km * 100))"
  have "c / 50 \<le> of_int \<lceil>c / 50\<rceil>" by (rule le_of_int_ceiling)
  moreover have "of_int \<lceil>c / 50\<rceil> < c / 50 + 1" by linarith
  ultimately have "c \<le> of_int \<lceil>c / 50\<rceil> * 50" "of_int \<lceil>c / 50\<rceil> * 50 < c + 50" by linarith+
  then show ?thesis
    by (simp add: computeDeliveryFeeXAF_def delivery_consts Let_def c_def [symmetric])
qed

lemma delivery_fee_floor: "500 \<le> computeDeliveryFeeXAF km"
proof -
  have "(10::rat) \<le> min 1500 (max 500 (250 + km * 100)) / 50" by simp
  then have "10 \<le> \<lceil>min (1500::rat) (max 500 (250 + km * 100)) / 50\<rceil>" by (simp add: le_ceiling_iff)
  then show ?thesis by (simp add: computeDeliveryFeeXAF_def delivery_consts Let_def)
qed

lemma delivery_fee_mono: "a \<le> b \<Longrightarrow> computeDeliveryFeeXAF a \<le> computeDeliveryFeeXAF b"
proof -
  assume "a \<le> b"
  then have "\<lceil>min (1500::rat) (max 500 (250 + a * 100)) / 50\<rceil>
           \<le> \<lceil>min (1500::rat) (max 500 (250 + b * 100)) / 50\<rceil>"
    by (intro ceiling_mono divide_right_mono) auto
  then show ?thesis by (simp add: computeDeliveryFeeXAF_def delivery_consts Let_def)
qed

section \<open>The finance snapshot of a paid order\<close>

definition RIDER_DELIVERY_SHARE :: rat where "RIDER_DELIVERY_SHARE = 65 / 100"

record money_snapshot =
  ms_commissionXAF :: xaf
  ms_riderShareXAF :: xaf
  ms_platformFeeXAF :: xaf

definition money_snapshots :: "xaf \<Rightarrow> xaf \<Rightarrow> rat \<Rightarrow> money_snapshot" where
  "money_snapshots subtotalXAF deliveryFeeXAF commissionRate =
     (let commissionXAF = js_round (of_int subtotalXAF * commissionRate);
          riderShareXAF = js_round (of_int deliveryFeeXAF * RIDER_DELIVERY_SHARE);
          deliveryMarginXAF = deliveryFeeXAF - riderShareXAF
      in \<lparr>ms_commissionXAF = commissionXAF, ms_riderShareXAF = riderShareXAF,
          ms_platformFeeXAF = commissionXAF + deliveryMarginXAF\<rparr>)"

lemma js_round_bounds:
  assumes "0 \<le> n" and "0 \<le> r" and "r \<le> 1"
  shows "0 \<le> js_round (of_int n * r)" and "js_round (of_int n * r) \<le> n"
proof -
  have "0 \<le> of_int n * r" using assms by simp
  then show "0 \<le> js_round (of_int n * r)" by (simp add: js_round_def)
  have "of_int n * r \<le> of_int n * 1"
    using assms by (intro mult_left_mono) auto
  then have "of_int n * r + 1/2 < of_int n + 1" by simp
  then have "of_int n * r + 1/2 < of_int (n + 1)" by simp
  then have "\<lfloor>of_int n * r + 1 / 2\<rfloor> < n + 1" by (simp only: floor_less_iff)
  then show "js_round (of_int n * r) \<le> n" by (simp add: js_round_def)
qed

text \<open>
  The split of a payment loses no franc: the vendor's net, the rider's share and the platform
  fee add up to subtotal plus delivery fee, for any rate and whatever the two roundings do; with
  a rate between 0 and 1 every share is non-negative.
\<close>

theorem money_split_exact:
  assumes "s = money_snapshots sub fee rate" and "0 \<le> sub" and "0 \<le> fee"
    and "0 \<le> rate" and "rate \<le> 1"
  shows "(sub - ms_commissionXAF s) + ms_riderShareXAF s + ms_platformFeeXAF s = sub + fee
    \<and> 0 \<le> ms_commissionXAF s \<and> ms_commissionXAF s \<le> sub
    \<and> 0 \<le> ms_riderShareXAF s \<and> ms_riderShareXAF s \<le> fee \<and> 0 \<le> ms_platformFeeXAF s"
proof -
  have c: "0 \<le> js_round (of_int sub * rate)" "js_round (of_int sub * rate) \<le> sub"
    using js_round_bounds [of sub rate] assms by auto
  have r: "0 \<le> js_round (of_int fee * (65/100))" "js_round (of_int fee * (65/100)) \<le> fee"
    using js_round_bounds [of fee "65/100"] assms by auto
  show ?thesis
    using c r by (simp add: assms(1) money_snapshots_def Let_def RIDER_DELIVERY_SHARE_def)
qed

theorem money_split_exact_witness:
  "(2500 - ms_commissionXAF (money_snapshots 2500 650 (6/100)))
     + ms_riderShareXAF (money_snapshots 2500 650 (6/100))
     + ms_platformFeeXAF (money_snapshots 2500 650 (6/100)) = 3150"
  using money_split_exact [OF refl, of 2500 650 "6/100"] by simp

lemma money_split_sum:
  "(sub - ms_commissionXAF (money_snapshots sub fee rate))
     + ms_riderShareXAF (money_snapshots sub fee rate)
     + ms_platformFeeXAF (money_snapshots sub fee rate) = sub + fee"
  by (simp add: money_snapshots_def Let_def)

section \<open>Pre-order cancellation penalty\<close>

definition PRE_ORDER_PENALTY_RATE :: rat where "PRE_ORDER_PENALTY_RATE = 1 / 10"
definition PRE_ORDER_PENALTY_ROUND_TO_XAF :: int where "PRE_ORDER_PENALTY_ROUND_TO_XAF = 50"

definition preorder_penalty :: "xaf \<Rightarrow> xaf" where
  "preorder_penalty totalXAF =
     \<lfloor>of_int totalXAF * PRE_ORDER_PENALTY_RATE / of_int PRE_ORDER_PENALTY_ROUND_TO_XAF\<rfloor>
       * PRE_ORDER_PENALTY_ROUND_TO_XAF"

lemma preorder_penalty_div: "preorder_penalty t = (t div 500) * 50"
proof -
  have "of_int t * (1 / 10) / 50 = (of_int t / of_int 500 :: rat)" by simp
  then have "\<lfloor>of_int t * (1 / 10) / (50::rat)\<rfloor> = t div 500"
    by (simp only: floor_divide_of_int_eq)
  then show ?thesis
    by (simp add: preorder_penalty_def PRE_ORDER_PENALTY_RATE_def
        PRE_ORDER_PENALTY_ROUND_TO_XAF_def)
qed

lemma preorder_penalty_bounds:
  assumes "0 \<le> t"
  shows "0 \<le> preorder_penalty t" and "10 * preorder_penalty t \<le> t"
    and "t < 10 * preorder_penalty t + 500"
  using assms by (auto simp: preorder_penalty_div)

lemma preorder_penalty_zero: "0 \<le> t \<Longrightarrow> preorder_penalty t = 0 \<longleftrightarrow> t < 500"
  by (auto simp: preorder_penalty_div)

end
