(* ===== verification/Schema.thy ===== *)
theory Schema
  imports Prelude
begin

text \<open>
  The data model of \<open>prisma/schema.prisma\<close>: its enums as datatypes, the models the services
  read and write as records, the world they share (the tables, the events emitted on the event
  bus and the delayed jobs queued in BullMQ), and one \<open>repository\<close> interpretation per table.
  The delivery address snapshot of an order is one sub-record; a rider's last
  position is reduced to whether there is one, and \<open>updatedAt\<close> columns are left out.
\<close>

section \<open>Enums\<close>

datatype UserRole = CONSUMER | VENDOR | RIDER | ADMIN | SUPER_ADMIN | OPERATOR | VIEWER

datatype VendorType = INFORMAL | SEMI_FORMAL | RESTAURANT

datatype StockLevel = IN_STOCK | LOW_STOCK | OUT_OF_STOCK

datatype ItemKind = FOOD | DRINK

datatype VendorStatus =
  VS_PENDING_REVIEW | VS_CORRECTION_REQUESTED | VS_ACTIVE | VS_SUSPENDED | VS_REJECTED

datatype RiderVehicleType = MOTO | BICYCLE | CAR | ON_FOOT

datatype RiderStatus =
  RS_PENDING_REVIEW | RS_CORRECTION_REQUESTED | RS_ACTIVE | RS_SUSPENDED | RS_REJECTED

datatype OrderStatus =
    OS_PENDING | OS_CONFIRMED | OS_ACCEPTED | OS_IN_PREP | OS_READY_PICKUP
  | OS_PICKED_UP | OS_DELIVERED | OS_CANCELLED | OS_REFUSED | OS_EXPIRED

datatype PaymentMethod = MTN_MOMO | ORANGE_MONEY

datatype PaymentStatus =
  PS_PENDING | PS_PROCESSING | PS_PAID | PS_FAILED | PS_REFUND_PENDING | PS_REFUNDED

datatype CouponType = FREE_DELIVERY | FIXED_AMOUNT_OFF

datatype CouponStatus = CS_ACTIVE | CS_DISABLED

datatype LedgerAccount =
    CUSTOMER_ESCROW | VENDOR_PAYABLE | RIDER_PAYABLE | PLATFORM_REVENUE
  | PLATFORM_RESERVE | CAMPAY_FLOAT | REFUND_PAYABLE

datatype LedgerEventType =
    PAYMENT_RECEIVED | ORDER_DELIVERED | REFUND_ISSUED | VENDOR_PAYOUT | RIDER_PAYOUT
  | PENALTY_APPLIED | ADJUSTMENT

datatype PayoutStatus = PO_PENDING | PO_IN_FLIGHT | PO_PAID | PO_FAILED | PO_CANCELLED

datatype CampayWebhookEventType = COLLECT | TRANSFER | REFUND

datatype CashoutRequestStatus = CR_PENDING_APPROVAL | CR_APPROVED | CR_REJECTED | CR_CANCELLED

datatype DispatchOutcome = ASSIGNED | NO_CANDIDATE | RACE_LOST

section \<open>Rows\<close>

record vendor =
  v_id :: uuid
  v_userId :: uuid
  v_name :: string
  v_type :: VendorType
  v_status :: VendorStatus
  v_whatsappPhone :: string
  v_momoPhone :: string
  v_isOpen :: bool
  v_commissionRate :: rat
  v_acceptsPreOrders :: bool
  v_createdAt :: time
  v_ownerName :: "string option"
  v_description :: "string option"
  v_quartier :: string
  v_pointOfReference :: "string option"
  v_location :: "rat \<times> rat"
  v_badge :: "string option"
  v_hours :: "(string \<times> string \<times> string) list option"
  v_declaredCapacity :: "nat option"
  v_profilePhotoUrl :: "string option"
  v_coverPhotoUrl :: "string option"
  v_rccmNumber :: "string option"
  v_niuNumber :: "string option"
  v_enseignePhotoUrl :: "string option"
  v_submittedAt :: time
  v_validatedAt :: "time option"
  v_rejectedAt :: "time option"
  v_rejectionReason :: "string option"

record item =
  i_id :: uuid
  i_vendorId :: uuid
  i_name :: string
  i_priceXAF :: xaf
  i_isAvailable :: bool
  i_isInStock :: bool
  i_categoryId :: "uuid option"
  i_description :: "string option"
  i_photoUrl :: "string option"
  i_stockLevel :: StockLevel
  i_kind :: ItemKind
  i_preparationMinutes :: "nat option"
  i_sortOrder :: int
  i_createdAt :: time

record menu_category =
  mc_id :: uuid
  mc_vendorId :: uuid
  mc_name :: string
  mc_sortOrder :: int
  mc_isActive :: bool
  mc_createdAt :: time

record delivery_address =
  da_lat :: rat
  da_lng :: rat
  da_quartier :: string
  da_landmark :: "string option"
  da_description :: "string option"
  da_phone :: string

record order =
  o_id :: uuid
  o_code :: string
  o_userId :: uuid
  o_vendorId :: uuid
  o_status :: OrderStatus
  o_subtotalXAF :: xaf
  o_deliveryFeeXAF :: xaf
  o_discountXAF :: xaf
  o_couponCode :: "string option"
  o_totalXAF :: xaf
  o_noteForVendor :: "string option"
  o_commissionRate :: rat
  o_commissionXAF :: "xaf option"
  o_riderShareXAF :: "xaf option"
  o_platformFeeXAF :: "xaf option"
  o_payoutId :: "uuid option"
  o_paymentMethod :: PaymentMethod
  o_paymentStatus :: PaymentStatus
  o_paymentReference :: "string option"
  o_payerPhone :: "string option"
  o_delivery :: delivery_address
  o_pickupCode :: string
  o_deliveryCode :: string
  o_refusalReason :: "string option"
  o_riderId :: "uuid option"
  o_placedAt :: time
  o_paidAt :: "time option"
  o_acceptedAt :: "time option"
  o_refusedAt :: "time option"
  o_preparedAt :: "time option"
  o_assignedAt :: "time option"
  o_pickedUpAt :: "time option"
  o_deliveredAt :: "time option"
  o_cancelledAt :: "time option"
  o_refundInitiatedAt :: "time option"
  o_refundCampayRef :: "string option"
  o_refundedAt :: "time option"
  o_refundFailureReason :: "string option"
  o_acceptanceDeadlineAt :: "time option"
  o_scheduledFor :: "time option"
  o_idempotencyKey :: "string option"

record order_item =
  oi_id :: uuid
  oi_orderId :: uuid
  oi_itemId :: "uuid option"
  oi_nameSnapshot :: string
  oi_priceXAFSnapshot :: xaf
  oi_quantity :: int
  oi_lineXAF :: xaf
  oi_preparedAt :: "time option"

record vendor_penalty =
  vp_id :: uuid
  vp_vendorId :: uuid
  vp_orderId :: uuid
  vp_amountXAF :: xaf

record order_rating =
  or_orderId :: uuid
  or_userId :: uuid
  or_vendorId :: uuid
  or_vendorScore :: int
  or_riderScore :: int
  or_comment :: "string option"

record rider =
  r_id :: uuid
  r_userId :: uuid
  r_vehicleType :: RiderVehicleType
  r_status :: RiderStatus
  r_idCardPhotoUrl :: "string option"
  r_selfiePhotoUrl :: "string option"
  r_momoPhone :: string
  r_reliabilityScore :: int
  r_isOnline :: bool
  r_hasLocation :: bool
  r_lastSeenAt :: "time option"
  r_lastAssignedAt :: "time option"
  r_createdAt :: time
  r_preferredZone :: "string option"
  r_vehiclePhotoUrl :: "string option"
  r_licensePlate :: "string option"
  r_submittedAt :: time
  r_validatedAt :: "time option"
  r_rejectedAt :: "time option"
  r_rejectionReason :: "string option"

record dispatch_event =
  de_orderId :: uuid
  de_vendorId :: uuid
  de_attempt :: nat
  de_outcome :: DispatchOutcome
  de_riderId :: "uuid option"

record ledger_entry =
  l_eventId :: string
  l_eventType :: LedgerEventType
  l_account :: LedgerAccount
  l_amountXAF :: xaf
  l_orderId :: "uuid option"
  l_vendorId :: "uuid option"
  l_riderId :: "uuid option"
  l_payoutId :: "uuid option"
  l_refundId :: "uuid option"
  l_description :: "string option"
  l_createdAt :: time

text \<open>
  \<open>VendorPayout\<close> and \<open>RiderPayout\<close> have the same life cycle; \<open>p_ownerId\<close> is the vendor id in
  one table and the rider id in the other (whose commission and penalty columns are absent and
  read as 0).
\<close>

record payout =
  p_id :: uuid
  p_ownerId :: uuid
  p_periodStart :: time
  p_periodEnd :: time
  p_grossXAF :: xaf
  p_commissionXAF :: xaf
  p_penaltyXAF :: xaf
  p_adjustmentsXAF :: xaf
  p_netXAF :: xaf
  p_momoPhone :: string
  p_campayRef :: "string option"
  p_status :: PayoutStatus
  p_failureReason :: "string option"
  p_scheduledFor :: time
  p_sentAt :: "time option"
  p_paidAt :: "time option"

record cashout_request =
  cr_id :: uuid
  cr_vendorId :: uuid
  cr_requestedXAF :: xaf
  cr_status :: CashoutRequestStatus
  cr_approvedAt :: "time option"
  cr_approvedByUserId :: "uuid option"
  cr_rejectedAt :: "time option"
  cr_rejectionReason :: "string option"
  cr_payoutId :: "uuid option"
  cr_createdAt :: time

record webhook_event =
  we_eventType :: CampayWebhookEventType
  we_reference :: string
  we_result :: "string option"

record coupon =
  c_id :: uuid
  c_code :: string
  c_type :: CouponType
  c_valueXAF :: xaf
  c_status :: CouponStatus
  c_validFrom :: "time option"
  c_validUntil :: "time option"
  c_minSubtotalXAF :: "xaf option"
  c_firstOrderOnly :: bool
  c_maxRedemptions :: "int option"
  c_redemptionCount :: int

record coupon_redemption =
  cred_couponId :: uuid
  cred_userId :: uuid
  cred_orderId :: uuid
  cred_appliedDiscountXAF :: xaf
  cred_originalDeliveryFeeXAF :: xaf

section \<open>Events and jobs\<close>

text \<open>The payloads keep the fields the listeners and the claims read.\<close>

datatype domain_event =
    ORDER_CREATED uuid
  | ORDER_PAID uuid
  | ORDER_ACCEPTED uuid uuid
  | ORDER_REFUSED uuid string
  | ORDER_CANCELLED uuid string
  | ORDER_READY uuid
  | PAYMENT_SUCCEEDED uuid string "string option"
  | PAYMENT_FAILED uuid string

datatype job =
    EXPIRE_VENDOR_DECISION_JOB uuid
  | PROMOTE_PRE_ORDER_JOB uuid
  | DISPATCH_RETRY_JOB uuid uuid nat

record queued_job =
  q_jobId :: string
  q_job :: job
  q_fireAt :: time

section \<open>The world\<close>

record world =
  w_vendors :: "vendor list"
  w_items :: "item list"
  w_categories :: "menu_category list"
  w_orders :: "order list"
  w_orderItems :: "order_item list"
  w_penalties :: "vendor_penalty list"
  w_ratings :: "order_rating list"
  w_riders :: "rider list"
  w_dispatchEvents :: "dispatch_event list"
  w_ledger :: "ledger_entry list"
  w_vendorPayouts :: "payout list"
  w_riderPayouts :: "payout list"
  w_cashouts :: "cashout_request list"
  w_webhooks :: "webhook_event list"
  w_coupons :: "coupon list"
  w_redemptions :: "coupon_redemption list"
  w_redis :: "(string \<times> string \<times> time option) list"
  w_events :: "domain_event list"
  w_jobs :: "queued_job list"

definition emit :: "domain_event \<Rightarrow> world \<Rightarrow> world" where
  "emit e w = w\<lparr>w_events := w_events w @ [e]\<rparr>"

definition order_by_id :: "uuid \<Rightarrow> world \<Rightarrow> order option" where
  "order_by_id i w = find_row (\<lambda>r. o_id r = i) (w_orders w)"

definition orders_updateMany :: "(order \<Rightarrow> bool) \<Rightarrow> (order \<Rightarrow> order) \<Rightarrow> world \<Rightarrow> world" where
  "orders_updateMany p f w = w_orders_update (upd_where p f) w"

definition orders_count :: "(order \<Rightarrow> bool) \<Rightarrow> world \<Rightarrow> nat" where
  "orders_count p w = count_where p (w_orders w)"

interpretation orders: repository w_orders w_orders_update o_id
  by unfold_locales simp

interpretation vendors: repository w_vendors w_vendors_update v_id
  by unfold_locales simp

interpretation riders: repository w_riders w_riders_update r_id
  by unfold_locales simp

interpretation vendorPayouts: repository w_vendorPayouts w_vendorPayouts_update p_id
  by unfold_locales simp

interpretation riderPayouts: repository w_riderPayouts w_riderPayouts_update p_id
  by unfold_locales simp

interpretation cashouts: repository w_cashouts w_cashouts_update cr_id
  by unfold_locales simp

interpretation orderItems: repository w_orderItems w_orderItems_update oi_id
  by unfold_locales simp

interpretation coupons: repository w_coupons w_coupons_update c_id
  by unfold_locales simp

end
