(* ===== verification/Guarded_Updates.thy ===== *)
theory Guarded_Updates
  imports Schema
begin

text \<open>
  The write pattern every order handler shares: \<open>order.updateMany\<close> with a \<open>where\<close> that names one
  row by id and repeats the status guard, followed by a look at \<open>count\<close>.  \<open>guarded_updateMany\<close> is
  that pattern (\<open>None\<close> is \<open>count === 0\<close>).  The locale \<open>guarded_transition\<close> states the contract
  that makes it a lock (the patch keeps the id and leaves the guard), \<open>status_move\<close> the form in
  which the services use it (from a list of source statuses to one target status).
\<close>

definition orders_distinct :: "world \<Rightarrow> bool" where
  "orders_distinct w = distinct (map o_id (w_orders w))"

definition guarded_updateMany ::
  "uuid \<Rightarrow> (order \<Rightarrow> bool) \<Rightarrow> (order \<Rightarrow> order) \<Rightarrow> world \<Rightarrow> world option" where
  "guarded_updateMany i g f w =
     (if orders_count (\<lambda>r. o_id r = i \<and> g r) w = 0 then None
      else Some (orders_updateMany (\<lambda>r. o_id r = i \<and> g r) f w))"

text \<open>\<open>order.update({ where: { id } })\<close>: unguarded, P2025 when the row is missing.\<close>

definition order_update :: "uuid \<Rightarrow> (order \<Rightarrow> order) \<Rightarrow> world \<Rightarrow> world option" where
  "order_update i f w =
     (case order_by_id i w of None \<Rightarrow> None | Some _ \<Rightarrow> Some (orders_updateMany (\<lambda>r. o_id r = i) f w))"

section \<open>Reading back\<close>

lemma order_by_id_id: "order_by_id i w = Some r \<Longrightarrow> o_id r = i"
  by (auto simp: order_by_id_def dest: find_row_Some)

lemma order_by_id_cong [frame_simps]: "w_orders w' = w_orders w \<Longrightarrow> order_by_id i w' = order_by_id i w"
  by (simp add: order_by_id_def)

lemma order_by_id_emit [simp]: "order_by_id i (emit e w) = order_by_id i w"
  by (simp add: order_by_id_def emit_def)

lemma emit_frame [simp]:
  "w_orders (emit e w) = w_orders w" "w_ledger (emit e w) = w_ledger w"
  "w_orderItems (emit e w) = w_orderItems w" "w_jobs (emit e w) = w_jobs w"
  "w_penalties (emit e w) = w_penalties w" "w_riders (emit e w) = w_riders w"
  "w_vendors (emit e w) = w_vendors w" "w_redis (emit e w) = w_redis w"
  "w_webhooks (emit e w) = w_webhooks w" "w_redemptions (emit e w) = w_redemptions w"
  "w_events (emit e w) = w_events w @ [e]"
  by (simp_all add: emit_def)

lemma orders_updateMany_frame [simp]:
  "w_ledger (orders_updateMany p f w) = w_ledger w"
  "w_events (orders_updateMany p f w) = w_events w"
  "w_jobs (orders_updateMany p f w) = w_jobs w"
  "w_orderItems (orders_updateMany p f w) = w_orderItems w"
  "w_penalties (orders_updateMany p f w) = w_penalties w"
  "w_riders (orders_updateMany p f w) = w_riders w"
  "w_vendors (orders_updateMany p f w) = w_vendors w"
  "w_redis (orders_updateMany p f w) = w_redis w"
  "w_webhooks (orders_updateMany p f w) = w_webhooks w"
  "w_redemptions (orders_updateMany p f w) = w_redemptions w"
  "w_orders (orders_updateMany p f w) = upd_where p f (w_orders w)"
  by (simp_all add: orders_updateMany_def)

lemma order_by_id_updateMany:
  assumes "\<And>r. o_id (f r) = o_id r"
  shows "order_by_id i (orders_updateMany p f w) =
         map_option (\<lambda>r. if p r then f r else r) (order_by_id i w)"
  unfolding order_by_id_def orders_updateMany_def
  by (rule orders.find_after_updateMany [OF assms])

lemma orders_distinct_cong [frame_simps]:
  "w_orders w' = w_orders w \<Longrightarrow> orders_distinct w' = orders_distinct w"
  by (simp add: orders_distinct_def)

lemma orders_distinct_emit [simp]: "orders_distinct (emit e w) = orders_distinct w"
  by (simp add: orders_distinct_def)

lemma orders_distinct_updateMany [simp]:
  assumes "\<And>r. o_id (f r) = o_id r"
  shows "orders_distinct (orders_updateMany p f w) = orders_distinct w"
  by (simp add: orders_distinct_def map_key_upd_where [of o_id f, OF assms])

lemma order_in_by_id:
  "orders_distinct w \<Longrightarrow> r \<in> set (w_orders w) \<Longrightarrow> order_by_id (o_id r) w = Some r"
  by (simp add: orders_distinct_def order_by_id_def find_row_key_unique)

lemma order_by_id_in: "order_by_id i w = Some r \<Longrightarrow> r \<in> set (w_orders w)"
  by (auto simp: order_by_id_def dest: find_row_Some)

section \<open>The guarded update\<close>

lemma guarded_None:
  assumes "orders_distinct w"
  shows "guarded_updateMany i g f w = None \<longleftrightarrow>
         (case order_by_id i w of None \<Rightarrow> True | Some r \<Rightarrow> \<not> g r)"
  using assms
  by (auto simp: guarded_updateMany_def orders_count_def orders_distinct_def order_by_id_def
      count_where_key [of o_id] split: option.splits)

lemma guarded_Some:
  assumes "guarded_updateMany i g f w = Some w'"
  shows "w' = orders_updateMany (\<lambda>r. o_id r = i \<and> g r) f w"
  using assms by (auto simp: guarded_updateMany_def split: if_splits)

lemma guarded_wins:
  assumes "order_by_id i w = Some r" and "g r"
  shows "guarded_updateMany i g f w = Some (orders_updateMany (\<lambda>r. o_id r = i \<and> g r) f w)"
  using count_where_key_pos [of o_id i "w_orders w" r g] assms
  by (simp add: guarded_updateMany_def orders_count_def order_by_id_def)

lemma guarded_row:
  assumes "orders_distinct w" and "guarded_updateMany i g f w = Some w'"
    and "\<And>r. o_id (f r) = o_id r"
  obtains r where "order_by_id i w = Some r" and "g r" and "order_by_id i w' = Some (f r)"
proof -
  from assms(1,2) obtain r where r: "order_by_id i w = Some r" "g r"
    using guarded_None [of w i g f] by (auto split: option.splits)
  moreover have "order_by_id i w' = Some (f r)"
    using r guarded_Some [OF assms(2)] order_by_id_id [OF r(1)]
    by (simp add: order_by_id_updateMany [of f, OF assms(3)])
  ultimately show thesis by (rule that)
qed

lemma guarded_other:
  assumes "guarded_updateMany i g f w = Some w'" and "\<And>r. o_id (f r) = o_id r" and "j \<noteq> i"
  shows "order_by_id j w' = order_by_id j w"
proof -
  have "map_option (\<lambda>r. if o_id r = i \<and> g r then f r else r) (order_by_id j w) = order_by_id j w"
    using assms(3) by (cases "order_by_id j w") (auto dest: order_by_id_id)
  then show ?thesis
    using guarded_Some [OF assms(1)] by (simp add: order_by_id_updateMany [of f, OF assms(2)])
qed

lemma guarded_frame:
  assumes "guarded_updateMany i g f w = Some w'"
  shows "w_ledger w' = w_ledger w" "w_events w' = w_events w" "w_jobs w' = w_jobs w"
    "w_orderItems w' = w_orderItems w" "w_penalties w' = w_penalties w"
    "w_riders w' = w_riders w" "w_vendors w' = w_vendors w" "w_redis w' = w_redis w"
    "w_webhooks w' = w_webhooks w" "w_redemptions w' = w_redemptions w"
  using guarded_Some [OF assms] by simp_all

section \<open>The contract: a guard that is also a lock\<close>

locale guarded_transition =
  fixes guard :: "order \<Rightarrow> bool" and patch :: "order \<Rightarrow> order"
  assumes keeps_id: "o_id (patch r) = o_id r"
    and leaves_guard: "\<not> guard (patch r)"
begin

lemma wins_iff:
  "orders_distinct w \<Longrightarrow>
   (\<exists>w'. guarded_updateMany i guard patch w = Some w') \<longleftrightarrow>
   (\<exists>r. order_by_id i w = Some r \<and> guard r)"
  using guarded_None [of w i guard patch] by (auto split: option.splits)

text \<open>After one winner every competitor that checks the same guard loses, whatever it writes.\<close>

lemma second_loses:
  assumes "orders_distinct w" and "guarded_updateMany i guard patch w = Some w'"
  shows "guarded_updateMany i guard patch' w' = None"
proof -
  obtain r where "order_by_id i w' = Some (patch r)"
    using guarded_row [OF assms keeps_id] by blast
  moreover have "orders_distinct w'"
    using assms guarded_Some [OF assms(2)] by (simp add: keeps_id)
  ultimately show ?thesis
    by (simp add: guarded_None leaves_guard)
qed

lemma distinct_kept:
  "orders_distinct w \<Longrightarrow> guarded_updateMany i guard patch w = Some w' \<Longrightarrow> orders_distinct w'"
  using guarded_Some [of i guard patch w w'] by (simp add: keeps_id)

end

locale status_move =
  fixes sources :: "OrderStatus list" and target :: OrderStatus and patch :: "order \<Rightarrow> order"
  assumes patch_id: "o_id (patch r) = o_id r"
    and patch_status: "o_status (patch r) = target"
    and leaves: "target \<notin> set sources"

sublocale status_move \<subseteq> guarded_transition "\<lambda>r. o_status r \<in> set sources" patch
  by unfold_locales (simp_all add: patch_id patch_status leaves)

context status_move
begin

text \<open>The only status change a guarded move can make is from a source to the target.\<close>

lemma moves:
  assumes "orders_distinct w" and "guarded_updateMany i (\<lambda>r. o_status r \<in> set sources) patch w = Some w'"
    and "order_by_id j w = Some r" and "order_by_id j w' = Some r'"
  shows "o_status r' = o_status r \<or> (j = i \<and> o_status r \<in> set sources \<and> o_status r' = target)"
proof (cases "j = i")
  case True
  obtain x where "order_by_id i w = Some x" "o_status x \<in> set sources"
      "order_by_id i w' = Some (patch x)"
    using guarded_row [OF assms(1,2) keeps_id] by blast
  with True assms(3,4) have "r' = patch r" "o_status r \<in> set sources" by auto
  then show ?thesis using True by (simp add: patch_status)
next
  case False
  then show ?thesis
    using guarded_other [OF assms(2) keeps_id] assms(3,4) by auto
qed

end

end
