(* ===== verification/Evolution.thy ===== *)
theory Evolution
  imports Guarded_Updates
begin

text \<open>
  What may happen to an order row between two worlds.  \<open>rows_evolve R\<close> says that no row was
  deleted or reordered, every old row is related to its new version by \<open>R\<close>, and new rows are
  only appended; the locale \<open>row_evolution\<close> collects its laws for a reflexive and transitive
  \<open>R\<close>.  The relation used by the component theories is \<open>lawful\<close>: the columns written at
  creation are frozen and the status moved along the life cycle of \<open>status_succs\<close>;
  \<open>orders_lawful\<close> relates the rows of two worlds one by one (only \<open>createOrder\<close> adds rows).
\<close>

section \<open>Evolution of a table\<close>

definition rows_evolve :: "('r \<Rightarrow> 'r \<Rightarrow> bool) \<Rightarrow> 'r list \<Rightarrow> 'r list \<Rightarrow> bool" where
  "rows_evolve R rs rs' = (\<exists>olds news. rs' = olds @ news \<and> list_all2 R rs olds)"

locale row_evolution =
  fixes R :: "'r \<Rightarrow> 'r \<Rightarrow> bool"
  assumes R_refl: "R r r"
    and R_trans: "R a b \<Longrightarrow> R b c \<Longrightarrow> R a c"
begin

lemma evolve_refl: "rows_evolve R rs rs"
  unfolding rows_evolve_def
  by (rule exI [of _ rs], rule exI [of _ "[]"]) (simp add: list_all2_same R_refl)

lemma evolve_append: "rows_evolve R rs (rs @ news)"
  unfolding rows_evolve_def
  by (rule exI [of _ rs], rule exI [of _ news]) (simp add: list_all2_same R_refl)

lemma all2_refl: "list_all2 R rs rs"
  by (simp add: list_all2_same R_refl)

lemma all2_upd:
  assumes "\<And>r. r \<in> set rs \<Longrightarrow> p r \<Longrightarrow> R r (f r)"
  shows "list_all2 R rs (upd_where p f rs)"
  using assms by (induction rs) (auto simp: R_refl)

lemma all2_trans:
  assumes "list_all2 R a b" and "list_all2 R b c"
  shows "list_all2 R a c"
  by (rule list_all2_trans [OF _ assms]) (rule R_trans)

lemma all2_evolve: "list_all2 R rs rs' \<Longrightarrow> rows_evolve R rs rs'"
  unfolding rows_evolve_def by (intro exI [of _ rs'] exI [of _ "[]"]) simp

lemma all2_keys:
  assumes "list_all2 R rs rs'" and "\<And>a b. R a b \<Longrightarrow> key b = key a"
  shows "map key rs' = map key rs"
  using assms(1) by (induction rule: list_all2_induct) (simp_all add: assms(2))

lemma evolve_trans:
  assumes "rows_evolve R a b" and "rows_evolve R b c"
  shows "rows_evolve R a c"
proof -
  obtain os ns where b: "b = os @ ns" "list_all2 R a os"
    using assms(1) by (auto simp: rows_evolve_def)
  obtain ps ms where c: "c = ps @ ms" "list_all2 R b ps"
    using assms(2) by (auto simp: rows_evolve_def)
  obtain ps1 ps2 where ps: "ps = ps1 @ ps2" "list_all2 R os ps1" "list_all2 R ns ps2"
    using c(2) b(1) by (auto simp: list_all2_append1)
  have "list_all2 R a ps1"
    by (rule list_all2_trans [OF _ b(2) ps(2)]) (blast intro: R_trans)
  then show ?thesis
    unfolding rows_evolve_def using c(1) ps(1)
    by (intro exI [of _ ps1] exI [of _ "ps2 @ ms"]) simp
qed

lemma evolve_row:
  assumes "rows_evolve R rs rs'" and "\<And>a b. R a b \<Longrightarrow> key b = key a"
    and "find_row (\<lambda>r. key r = i) rs = Some r"
  obtains r' where "find_row (\<lambda>r. key r = i) rs' = Some r'" and "R r r'"
proof -
  obtain olds news where rs': "rs' = olds @ news" "list_all2 R rs olds"
    using assms(1) by (auto simp: rows_evolve_def)
  have "\<exists>r'. find_row (\<lambda>r. key r = i) olds = Some r' \<and> R r r'"
    using rs'(2) assms(2,3)
    by (induction rs olds rule: list_all2_induct) (auto split: if_splits)
  then show thesis using that rs'(1) by (auto simp: find_row_append)
qed

end

section \<open>The life cycle of an order\<close>

fun status_succs :: "OrderStatus \<Rightarrow> OrderStatus list" where
  "status_succs OS_PENDING = [OS_CONFIRMED, OS_ACCEPTED, OS_REFUSED, OS_CANCELLED]"
| "status_succs OS_CONFIRMED = [OS_ACCEPTED, OS_REFUSED, OS_CANCELLED]"
| "status_succs OS_ACCEPTED =
     [OS_IN_PREP, OS_READY_PICKUP, OS_PICKED_UP, OS_CANCELLED, OS_EXPIRED]"
| "status_succs OS_IN_PREP =
     [OS_ACCEPTED, OS_READY_PICKUP, OS_PICKED_UP, OS_CANCELLED, OS_EXPIRED]"
| "status_succs OS_READY_PICKUP = [OS_PICKED_UP, OS_EXPIRED]"
| "status_succs OS_PICKED_UP = [OS_DELIVERED, OS_CANCELLED]"
| "status_succs OS_DELIVERED = []"
| "status_succs OS_CANCELLED = []"
| "status_succs OS_REFUSED = []"
| "status_succs OS_EXPIRED = []"

text \<open>\<open>reach s t\<close>: status \<open>t\<close> can be reached from \<open>s\<close> along the life cycle.\<close>

inductive reach :: "OrderStatus \<Rightarrow> OrderStatus \<Rightarrow> bool" where
  reach_refl: "reach s s"
| reach_step: "t \<in> set (status_succs s) \<Longrightarrow> reach t u \<Longrightarrow> reach s u"

inductive_cases reach_DELIVERED: "reach OS_DELIVERED t"
inductive_cases reach_CANCELLED: "reach OS_CANCELLED t"
inductive_cases reach_REFUSED: "reach OS_REFUSED t"
inductive_cases reach_EXPIRED: "reach OS_EXPIRED t"

lemma reach_trans: "reach a b \<Longrightarrow> reach b c \<Longrightarrow> reach a c"
  by (induction rule: reach.induct) (auto intro: reach.intros)

lemma reach_edge: "t \<in> set (status_succs s) \<Longrightarrow> reach s t"
  by (blast intro: reach.intros)

definition settled_status :: "OrderStatus \<Rightarrow> bool" where
  "settled_status s = (status_succs s = [])"

lemma settled_status_iff:
  "settled_status s \<longleftrightarrow> s = OS_DELIVERED \<or> s = OS_CANCELLED \<or> s = OS_REFUSED \<or> s = OS_EXPIRED"
  by (cases s) (simp_all add: settled_status_def)

lemma reach_settled: "reach s t \<Longrightarrow> settled_status s \<Longrightarrow> t = s"
  by (auto simp: settled_status_iff elim!: reach_DELIVERED reach_CANCELLED reach_REFUSED reach_EXPIRED)

section \<open>Frozen columns\<close>

text \<open>What \<open>createOrder\<close> writes and no later write touches.\<close>

definition frozen :: "order \<Rightarrow>
    (uuid \<times> string \<times> uuid \<times> uuid) \<times> (xaf \<times> xaf \<times> xaf \<times> xaf \<times> string option)
    \<times> (string option \<times> rat \<times> PaymentMethod \<times> delivery_address)
    \<times> (string \<times> string \<times> time \<times> time option \<times> string option)" where
  "frozen r = ((o_id r, o_code r, o_userId r, o_vendorId r),
     (o_subtotalXAF r, o_deliveryFeeXAF r, o_discountXAF r, o_totalXAF r, o_couponCode r),
     (o_noteForVendor r, o_commissionRate r, o_paymentMethod r, o_delivery r),
     (o_pickupCode r, o_deliveryCode r, o_placedAt r, o_scheduledFor r, o_idempotencyKey r))"

definition lawful :: "order \<Rightarrow> order \<Rightarrow> bool" where
  "lawful r r' = (frozen r' = frozen r \<and> reach (o_status r) (o_status r'))"

interpretation lawful: row_evolution lawful
  by unfold_locales (auto simp: lawful_def reach_refl intro: reach_trans)

text \<open>The weaker relation of the operations that may move the status anywhere.\<close>

definition same_deal :: "order \<Rightarrow> order \<Rightarrow> bool" where
  "same_deal r r' = (frozen r' = frozen r)"

interpretation same_deal: row_evolution same_deal
  by unfold_locales (auto simp: same_deal_def)

definition orders_lawful :: "world \<Rightarrow> world \<Rightarrow> bool" where
  "orders_lawful w w' = list_all2 lawful (w_orders w) (w_orders w')"

named_theorems lawful_intros \<open>operations that move orders along the life cycle\<close>

lemma orders_lawful_same [lawful_intros]: "w_orders w' = w_orders w \<Longrightarrow> orders_lawful w w'"
  by (simp add: orders_lawful_def lawful.all2_refl)

lemma orders_lawful_refl [simp]: "orders_lawful w w"
  by (simp add: orders_lawful_same)

lemma orders_lawful_trans [trans]: "orders_lawful a b \<Longrightarrow> orders_lawful b c \<Longrightarrow> orders_lawful a c"
  unfolding orders_lawful_def by (rule lawful.all2_trans)

lemma orders_lawful_cong:
  "orders_lawful w w' \<Longrightarrow> w_orders v = w_orders w \<Longrightarrow> w_orders v' = w_orders w' \<Longrightarrow> orders_lawful v v'"
  by (simp add: orders_lawful_def)

lemma orders_lawful_emit [simp]: "orders_lawful w (emit e w') = orders_lawful w w'"
  by (simp add: orders_lawful_def)

lemma orders_lawful_updateMany:
  assumes "\<And>r. p r \<Longrightarrow> lawful r (f r)"
  shows "orders_lawful w (orders_updateMany p f w)"
  using assms by (simp add: orders_lawful_def lawful.all2_upd)

lemma orders_lawful_guarded:
  assumes "guarded_updateMany i g f w = Some w'" and "\<And>r. g r \<Longrightarrow> lawful r (f r)"
  shows "orders_lawful w w'"
  using guarded_Some [OF assms(1)] assms(2) by (auto intro: orders_lawful_updateMany)

lemma orders_lawful_update:
  assumes "order_update i f w = Some w'" and "orders_distinct w" and "order_by_id i w = Some r"
    and "lawful r (f r)"
  shows "orders_lawful w w'"
proof -
  have w': "w' = orders_updateMany (\<lambda>r. o_id r = i) f w"
    using assms(1) by (auto simp: order_update_def split: option.splits)
  have "list_all2 lawful (w_orders w) (upd_where (\<lambda>r. o_id r = i) f (w_orders w))"
  proof (rule lawful.all2_upd)
    fix x assume "x \<in> set (w_orders w)" "o_id x = i"
    then have "order_by_id i w = Some x" using order_in_by_id [OF assms(2)] by auto
    then show "lawful x (f x)" using assms(3,4) by simp
  qed
  then show ?thesis by (simp add: orders_lawful_def w')
qed

text \<open>The same rows under the same ids.\<close>

lemma orders_lawful_ids: "orders_lawful w w' \<Longrightarrow> map o_id (w_orders w') = map o_id (w_orders w)"
  unfolding orders_lawful_def by (erule lawful.all2_keys) (simp add: lawful_def frozen_def)

lemma orders_lawful_distinct: "orders_lawful w w' \<Longrightarrow> orders_distinct w' = orders_distinct w"
  by (simp add: orders_distinct_def orders_lawful_ids)

lemma orders_lawful_row:
  assumes "orders_lawful w w'" and "order_by_id i w = Some r"
  obtains r' where "order_by_id i w' = Some r'" and "lawful r r'"
proof -
  have keep: "\<And>a b. lawful a b \<Longrightarrow> o_id b = o_id a" by (simp add: lawful_def frozen_def)
  have "rows_evolve lawful (w_orders w) (w_orders w')"
    using assms(1) by (simp add: orders_lawful_def lawful.all2_evolve)
  then show thesis
    by (rule lawful.evolve_row [where key = o_id and i = i and r = r])
      (use assms(2) that keep in \<open>auto simp: order_by_id_def\<close>)
qed

end
