(* ===== verification/Ledger.thy ===== *)
theory Ledger
  imports Schema
begin

text \<open>
  \<open>modules/finance/ledger.service.ts\<close>: the append-only double-entry ledger.  \<open>validate\<close> follows
  the source check by check (the loop returns at the first bad entry; an amount is an \<open>int\<close>
  here, so the \<open>Number.isInteger\<close> check always passes), \<open>recordTransaction\<close> appends one row per
  entry.  The locale \<open>books\<close> is what the services that move money rely on: a successful
  write only appends, what it appends sums to zero, and it touches no other table.
\<close>

record entry_input =
  e_account :: LedgerAccount
  e_amountXAF :: xaf
  e_orderId :: "uuid option"
  e_vendorId :: "uuid option"
  e_riderId :: "uuid option"
  e_payoutId :: "uuid option"
  e_refundId :: "uuid option"
  e_description :: "string option"

record transaction_input =
  t_eventId :: string
  t_eventType :: LedgerEventType
  t_entries :: "entry_input list"

fun validate_entries :: "LedgerEventType \<Rightarrow> entry_input list \<Rightarrow> int \<Rightarrow> http_error + int" where
  "validate_entries ty [] s = Inr s"
| "validate_entries ty (e # es) s =
     (if e_amountXAF e = 0 then Inl (Conflict ''ledger_zero_amount'')
      else if falsy (e_orderId e) \<and> falsy (e_vendorId e) \<and> falsy (e_riderId e)
              \<and> falsy (e_payoutId e) \<and> falsy (e_refundId e)
      then Inl (Conflict ''ledger_entry_orphan'')
      else if ty = ADJUSTMENT \<and> falsy (e_description e)
      then Inl (Conflict ''ledger_adjustment_missing_description'')
      else validate_entries ty es (s + e_amountXAF e))"

definition validate :: "transaction_input \<Rightarrow> http_error + unit" where
  "validate input =
     (if t_eventId input = [] then Inl (Conflict ''ledger_event_id_required'')
      else if length (t_entries input) < 2 then Inl (Conflict ''ledger_too_few_entries'')
      else case validate_entries (t_eventType input) (t_entries input) 0 of
             Inl e \<Rightarrow> Inl e
           | Inr s \<Rightarrow> if s \<noteq> 0 then Inl (Conflict ''ledger_unbalanced'') else Inr ())"

definition ledger_row :: "transaction_input \<Rightarrow> time \<Rightarrow> entry_input \<Rightarrow> ledger_entry" where
  "ledger_row input now e =
     \<lparr>l_eventId = t_eventId input, l_eventType = t_eventType input,
      l_account = e_account e, l_amountXAF = e_amountXAF e,
      l_orderId = e_orderId e, l_vendorId = e_vendorId e, l_riderId = e_riderId e,
      l_payoutId = e_payoutId e, l_refundId = e_refundId e,
      l_description = e_description e, l_createdAt = now\<rparr>"

text \<open>\<open>now\<close> is the database clock that fills \<open>createdAt\<close>.\<close>

definition recordTransaction :: "transaction_input \<Rightarrow> time \<Rightarrow> world \<Rightarrow> (unit, world) outcome" where
  "recordTransaction input now w =
     (case validate input of
        Inl e \<Rightarrow> (Inl e, w)
      | Inr _ \<Rightarrow> (Inr (), w\<lparr>w_ledger := w_ledger w @ map (ledger_row input now) (t_entries input)\<rparr>))"

section \<open>Reading the ledger\<close>

definition ledger_sum :: "(ledger_entry \<Rightarrow> bool) \<Rightarrow> ledger_entry list \<Rightarrow> xaf" where
  "ledger_sum p l = sum_list (map l_amountXAF (filter p l))"

lemma ledger_sum_append [simp]: "ledger_sum p (a @ b) = ledger_sum p a + ledger_sum p b"
  by (simp add: ledger_sum_def)

lemma ledger_sum_Nil [simp]: "ledger_sum p [] = 0"
  by (simp add: ledger_sum_def)

lemma ledger_sum_Cons [simp]:
  "ledger_sum p (x # xs) = (if p x then l_amountXAF x else 0) + ledger_sum p xs"
  by (simp add: ledger_sum_def)

text \<open>The books balance when every event's entries, and so the whole ledger, sum to zero.\<close>

definition books_balanced :: "world \<Rightarrow> bool" where
  "books_balanced w = (\<forall>ev. ledger_sum (\<lambda>l. l_eventId l = ev) (w_ledger w) = 0)"

lemma ledger_sum_split_event:
  "ledger_sum (\<lambda>_. True) l =
   ledger_sum (\<lambda>x. l_eventId x = ev) l + ledger_sum (\<lambda>x. l_eventId x \<noteq> ev) l"
  by (induction l) auto

lemma balanced_events_balanced_total:
  "(\<forall>ev. ledger_sum (\<lambda>x. l_eventId x = ev) l = 0) \<Longrightarrow> ledger_sum (\<lambda>_. True) l = 0"
proof (induction "length l" arbitrary: l rule: less_induct)
  case less
  show ?case
  proof (cases l)
    case Nil
    then show ?thesis by simp
  next
    case (Cons a xs)
    define ev where "ev = l_eventId a"
    define r where "r = filter (\<lambda>x. l_eventId x \<noteq> ev) l"
    have sub: "ledger_sum (\<lambda>x. l_eventId x = e) r =
               (if e = ev then 0 else ledger_sum (\<lambda>x. l_eventId x = e) l)" for e
      unfolding r_def by (induction l) auto
    have "length r < length l"
      by (simp add: r_def Cons ev_def le_imp_less_Suc)
    moreover have "\<forall>e. ledger_sum (\<lambda>x. l_eventId x = e) r = 0"
      using less.prems by (simp add: sub)
    ultimately have "ledger_sum (\<lambda>_. True) r = 0" by (rule less.hyps)
    moreover have "ledger_sum (\<lambda>_. True) r = ledger_sum (\<lambda>x. l_eventId x \<noteq> ev) l"
      unfolding r_def by (induction l) auto
    ultimately show ?thesis
      using less.prems ledger_sum_split_event [of l ev] by simp
  qed
qed

lemma books_balanced_total: "books_balanced w \<Longrightarrow> ledger_sum (\<lambda>_. True) (w_ledger w) = 0"
  by (auto simp: books_balanced_def intro: balanced_events_balanced_total)

section \<open>What a write does\<close>

lemma validate_entries_sum:
  "validate_entries ty es s = Inr t \<Longrightarrow> t = s + sum_list (map e_amountXAF es)"
  by (induction ty es s rule: validate_entries.induct) (auto split: if_splits)

lemma validate_sum_zero: "validate input = Inr u \<Longrightarrow> sum_list (map e_amountXAF (t_entries input)) = 0"
  by (auto simp: validate_def split: if_splits sum.splits dest: validate_entries_sum)

lemma ledger_rows_sum:
  "ledger_sum (\<lambda>l. l_eventId l = ev) (map (ledger_row input now) es) =
   (if ev = t_eventId input then sum_list (map e_amountXAF es) else 0)"
  by (induction es) (auto simp: ledger_row_def)

lemma recordTransaction_frame [frame_simps]:
  "w_orders (snd (recordTransaction input now w)) = w_orders w"
  "w_vendorPayouts (snd (recordTransaction input now w)) = w_vendorPayouts w"
  "w_riderPayouts (snd (recordTransaction input now w)) = w_riderPayouts w"
  "w_events (snd (recordTransaction input now w)) = w_events w"
  "w_jobs (snd (recordTransaction input now w)) = w_jobs w"
  "w_penalties (snd (recordTransaction input now w)) = w_penalties w"
  by (simp_all add: recordTransaction_def split: sum.splits)

lemma recordTransaction_failed:
  "fst (recordTransaction input now w) = Inl e \<Longrightarrow> snd (recordTransaction input now w) = w"
  by (auto simp: recordTransaction_def split: sum.splits)

text \<open>
  A pair of entries with opposite amounts is accepted exactly when the amount is not zero: the
  shape of every two-legged posting in the services.
\<close>

definition order_leg :: "LedgerAccount \<Rightarrow> xaf \<Rightarrow> uuid \<Rightarrow> string \<Rightarrow> entry_input" where
  "order_leg a amt oid d =
     \<lparr>e_account = a, e_amountXAF = amt, e_orderId = Some oid, e_vendorId = None,
      e_riderId = None, e_payoutId = None, e_refundId = None, e_description = Some d\<rparr>"

lemma order_leg_simps [simp]:
  "e_account (order_leg a amt oid d) = a"
  "e_amountXAF (order_leg a amt oid d) = amt"
  "e_orderId (order_leg a amt oid d) = Some oid"
  "e_vendorId (order_leg a amt oid d) = None"
  "e_riderId (order_leg a amt oid d) = None"
  "e_payoutId (order_leg a amt oid d) = None"
  "e_refundId (order_leg a amt oid d) = None"
  "e_description (order_leg a amt oid d) = Some d"
  by (simp_all add: order_leg_def)

lemma validate_two_legs:
  assumes "ev \<noteq> []" and "e_amountXAF a = x" and "e_amountXAF b = - x"
    and "\<not> falsy (e_orderId a) \<or> \<not> falsy (e_vendorId a)"
    and "\<not> falsy (e_orderId b) \<or> \<not> falsy (e_vendorId b)"
    and "ty \<noteq> ADJUSTMENT \<or> \<not> falsy (e_description a) \<and> \<not> falsy (e_description b)"
  shows "validate \<lparr>t_eventId = ev, t_eventType = ty, t_entries = [a, b]\<rparr> =
         (if x = 0 then Inl (Conflict ''ledger_zero_amount'') else Inr ())"
  using assms by (auto simp: validate_def)

section \<open>The contract of the ledger\<close>

text \<open>
  \<open>books_extend w w'\<close>: the ledger of \<open>w'\<close> is that of \<open>w\<close> with entries appended, and what
  is appended balances per event.  It is reflexive and transitive, so a handler that makes its
  ledger writes through \<open>recordTransaction\<close> satisfies it step by step.
\<close>

definition books_extend :: "world \<Rightarrow> world \<Rightarrow> bool" where
  "books_extend w w' = (\<exists>es. w_ledger w' = w_ledger w @ es
                         \<and> (\<forall>ev. ledger_sum (\<lambda>l. l_eventId l = ev) es = 0))"

named_theorems books_intros \<open>operations that only extend the books\<close>

lemma books_extend_same [books_intros]: "w_ledger w' = w_ledger w \<Longrightarrow> books_extend w w'"
  by (auto simp: books_extend_def intro: exI [of _ "[]"])

lemma books_extend_refl [simp]: "books_extend w w"
  by (simp add: books_extend_same)

lemma books_extend_trans [trans]:
  assumes "books_extend a b" and "books_extend b c"
  shows "books_extend a c"
proof -
  obtain es fs where "w_ledger b = w_ledger a @ es" "w_ledger c = w_ledger b @ fs"
    and "\<forall>ev. ledger_sum (\<lambda>l. l_eventId l = ev) es = 0"
    and "\<forall>ev. ledger_sum (\<lambda>l. l_eventId l = ev) fs = 0"
    using assms by (auto simp: books_extend_def)
  then show ?thesis by (auto simp: books_extend_def intro!: exI [of _ "es @ fs"])
qed

lemma books_extend_cong:
  "books_extend w w' \<Longrightarrow> w_ledger v = w_ledger w \<Longrightarrow> w_ledger v' = w_ledger w' \<Longrightarrow> books_extend v v'"
  by (simp add: books_extend_def)

lemma books_extend_balanced: "books_extend w w' \<Longrightarrow> books_balanced w \<Longrightarrow> books_balanced w'"
  by (auto simp: books_extend_def books_balanced_def)

lemma books_extend_append: "books_extend w w' \<Longrightarrow> \<exists>es. w_ledger w' = w_ledger w @ es"
  by (auto simp: books_extend_def)

lemma recordTransaction_extends: "books_extend w (snd (recordTransaction input now w))"
proof (cases "validate input")
  case (Inl e)
  then show ?thesis by (simp add: recordTransaction_def)
next
  case (Inr u)
  then show ?thesis
    using validate_sum_zero [OF Inr]
    by (auto simp: recordTransaction_def books_extend_def ledger_rows_sum)
qed

text \<open>
  The interface the money-moving services are written against: \<open>record_tx\<close> writes one
  transaction.  The lemmas are about the pattern of \<open>prisma.$transaction\<close>: run the table
  writes \<open>pre\<close>, then the ledger write; a ledger error rolls everything back.
\<close>

locale books =
  fixes record_tx :: "'t \<Rightarrow> time \<Rightarrow> world \<Rightarrow> (unit, world) outcome"
  assumes tx_extends: "books_extend w (snd (record_tx t now w))"
    and tx_failed: "fst (record_tx t now w) = Inl e \<Longrightarrow> snd (record_tx t now w) = w"
    and tx_orders: "w_orders (snd (record_tx t now w)) = w_orders w"
begin

lemma transaction_extends:
  assumes "w_ledger pre = w_ledger w"
  shows "books_extend w (case record_tx t now pre of (Inl e, _) \<Rightarrow> w | (Inr _, w') \<Rightarrow> w')"
proof -
  have "books_extend w (snd (record_tx t now pre))"
    by (rule books_extend_cong [OF tx_extends [where w = pre]]) (simp_all add: assms)
  then show ?thesis
    by (cases "record_tx t now pre"; cases "fst (record_tx t now pre)") auto
qed

lemma tx_balanced: "books_balanced w \<Longrightarrow> books_balanced (snd (record_tx t now w))"
  by (rule books_extend_balanced [OF tx_extends])

end

interpretation ledger: books recordTransaction
proof unfold_locales
  show "\<And>w t now. books_extend w (snd (recordTransaction t now w))"
    by (rule recordTransaction_extends)
  show "\<And>t now w e. fst (recordTransaction t now w) = Inl e \<Longrightarrow> snd (recordTransaction t now w) = w"
    by (rule recordTransaction_failed)
  show "\<And>t now w. w_orders (snd (recordTransaction t now w)) = w_orders w"
    by (simp add: frame_simps)
qed

section \<open>Balances\<close>

text \<open>The position of one account for one order, the unit in which escrow is tracked.\<close>

definition order_account :: "LedgerAccount \<Rightarrow> uuid \<Rightarrow> world \<Rightarrow> xaf" where
  "order_account a oid w =
     ledger_sum (\<lambda>l. l_account l = a \<and> l_orderId l = Some oid) (w_ledger w)"

lemma validate_entries_Inr:
  "(\<exists>t. validate_entries ty es s = Inr t) \<longleftrightarrow>
   (\<forall>e \<in> set es. e_amountXAF e \<noteq> 0
      \<and> \<not> (falsy (e_orderId e) \<and> falsy (e_vendorId e) \<and> falsy (e_riderId e)
            \<and> falsy (e_payoutId e) \<and> falsy (e_refundId e))
      \<and> \<not> (ty = ADJUSTMENT \<and> falsy (e_description e)))"
  by (induction ty es s rule: validate_entries.induct) auto

text \<open>
  \<open>recordTransaction\<close> accepts an input exactly when it has an event id, at least two
  entries, no zero amount, no entry without a reference, a description on every entry of an
  adjustment, and a zero sum; what it then does is append one row per entry, and otherwise
  nothing changes.
\<close>

theorem recordTransaction_spec:
  "(fst (recordTransaction input now w) = Inr () \<longleftrightarrow>
      t_eventId input \<noteq> [] \<and> 2 \<le> length (t_entries input)
      \<and> sum_list (map e_amountXAF (t_entries input)) = 0
      \<and> list_all (\<lambda>e. e_amountXAF e \<noteq> 0
           \<and> \<not> (falsy (e_orderId e) \<and> falsy (e_vendorId e) \<and> falsy (e_riderId e)
                 \<and> falsy (e_payoutId e) \<and> falsy (e_refundId e))
           \<and> \<not> (t_eventType input = ADJUSTMENT \<and> falsy (e_description e))) (t_entries input))
   \<and> snd (recordTransaction input now w) =
      (if fst (recordTransaction input now w) = Inr ()
       then w\<lparr>w_ledger := w_ledger w @ map (ledger_row input now) (t_entries input)\<rparr> else w)"
  (is "?accept \<and> ?effect")
proof
  show ?effect by (auto simp: recordTransaction_def split: sum.splits)
  have "fst (recordTransaction input now w) = Inr () \<longleftrightarrow> validate input = Inr ()"
    by (auto simp: recordTransaction_def split: sum.splits)
  also have "\<dots> \<longleftrightarrow> t_eventId input \<noteq> [] \<and> 2 \<le> length (t_entries input)
      \<and> (\<exists>t. validate_entries (t_eventType input) (t_entries input) 0 = Inr t)
      \<and> sum_list (map e_amountXAF (t_entries input)) = 0"
    by (cases "validate_entries (t_eventType input) (t_entries input) 0")
      (auto simp: validate_def dest: validate_entries_sum)
  finally show ?accept
    by (auto simp: validate_entries_Inr list_all_iff)
qed

end
