(* ===== verification/Examples.thy ===== *)
theory Examples
  imports Evolution Ledger
begin

text \<open>
  One small concrete database: vendor \<open>V\<close> run by user \<open>U\<close>, rider \<open>R\<close> run by user \<open>W\<close>, one
  order \<open>O\<close> of consumer \<open>C\<close> with two lines.  The witnesses of the component theories evaluate
  the handlers on it; nothing else uses it.
\<close>

definition demo_order :: "OrderStatus \<Rightarrow> PaymentStatus \<Rightarrow> order" where
  "demo_order st ps =
     \<lparr>o_id = ''O'', o_code = ''TC-AAAAA'', o_userId = ''C'', o_vendorId = ''V'', o_status = st,
      o_subtotalXAF = 2500, o_deliveryFeeXAF = 650, o_discountXAF = 0, o_couponCode = None,
      o_totalXAF = 3150, o_noteForVendor = None, o_commissionRate = 6 / 100,
      o_commissionXAF = Some 150, o_riderShareXAF = Some 423, o_platformFeeXAF = Some 377,
      o_payoutId = None, o_paymentMethod = MTN_MOMO, o_paymentStatus = ps,
      o_paymentReference = None, o_payerPhone = None,
      o_delivery = \<lparr>da_lat = 4, da_lng = 9, da_quartier = ''Akwa'', da_landmark = None,
                    da_description = None, da_phone = ''+237670000099''\<rparr>,
      o_pickupCode = ''1234'', o_deliveryCode = ''5678'', o_refusalReason = None,
      o_riderId = Some ''R'', o_placedAt = 0, o_paidAt = None, o_acceptedAt = None,
      o_refusedAt = None, o_preparedAt = None, o_assignedAt = None, o_pickedUpAt = None,
      o_deliveredAt = None, o_cancelledAt = None, o_refundInitiatedAt = None,
      o_refundCampayRef = None, o_refundedAt = None, o_refundFailureReason = None,
      o_acceptanceDeadlineAt = None, o_scheduledFor = None, o_idempotencyKey = None\<rparr>"

definition demo_vendor :: vendor where
  "demo_vendor =
     \<lparr>v_id = ''V'', v_userId = ''U'', v_name = ''Chez Ma'', v_type = INFORMAL,
      v_status = VS_ACTIVE, v_whatsappPhone = ''+237670000001'', v_momoPhone = ''+237670000002'',
      v_isOpen = True, v_commissionRate = 6 / 100, v_acceptsPreOrders = True, v_createdAt = 0,
      v_ownerName = None, v_description = None, v_quartier = ''Akwa'', v_pointOfReference = None,
      v_location = (4, 9), v_badge = None, v_hours = None, v_declaredCapacity = Some 8,
      v_profilePhotoUrl = None, v_coverPhotoUrl = None, v_rccmNumber = None, v_niuNumber = None,
      v_enseignePhotoUrl = None, v_submittedAt = 0, v_validatedAt = None, v_rejectedAt = None,
      v_rejectionReason = None\<rparr>"

definition demo_rider :: rider where
  "demo_rider =
     \<lparr>r_id = ''R'', r_userId = ''W'', r_vehicleType = MOTO, r_status = RS_ACTIVE,
      r_idCardPhotoUrl = None, r_selfiePhotoUrl = None, r_momoPhone = ''+237670000003'',
      r_reliabilityScore = 100, r_isOnline = True, r_hasLocation = True, r_lastSeenAt = Some 0,
      r_lastAssignedAt = None, r_createdAt = 0,
      r_preferredZone = None, r_vehiclePhotoUrl = None, r_licensePlate = None, r_submittedAt = 0,
      r_validatedAt = None, r_rejectedAt = None, r_rejectionReason = None\<rparr>"

definition demo_line :: "uuid \<Rightarrow> time option \<Rightarrow> order_item" where
  "demo_line i prepared =
     \<lparr>oi_id = i, oi_orderId = ''O'', oi_itemId = Some ''I'', oi_nameSnapshot = ''Ndole'',
      oi_priceXAFSnapshot = 1250, oi_quantity = 1, oi_lineXAF = 1250, oi_preparedAt = prepared\<rparr>"

definition demo_world :: "order list \<Rightarrow> order_item list \<Rightarrow> world" where
  "demo_world os ls =
     \<lparr>w_vendors = [demo_vendor], w_items = [], w_categories = [], w_orders = os, w_orderItems = ls,
      w_penalties = [], w_ratings = [], w_riders = [demo_rider], w_dispatchEvents = [],
      w_ledger = [], w_vendorPayouts = [], w_riderPayouts = [], w_cashouts = [], w_webhooks = [],
      w_coupons = [], w_redemptions = [], w_redis = [], w_events = [], w_jobs = []\<rparr>"

lemmas demo_defs = demo_order_def demo_vendor_def demo_rider_def demo_line_def demo_world_def

lemma demo_world_simps [simp]:
  "w_vendors (demo_world os ls) = [demo_vendor]" "w_orders (demo_world os ls) = os"
  "w_orderItems (demo_world os ls) = ls" "w_riders (demo_world os ls) = [demo_rider]"
  "w_ledger (demo_world os ls) = []" "w_events (demo_world os ls) = []"
  "w_penalties (demo_world os ls) = []" "w_jobs (demo_world os ls) = []"
  "w_redis (demo_world os ls) = []" "w_webhooks (demo_world os ls) = []"
  "w_ratings (demo_world os ls) = []"
  by (simp_all add: demo_world_def)

lemma demo_order_simps [simp]:
  "o_id (demo_order st ps) = ''O''" "o_status (demo_order st ps) = st"
  "o_paymentStatus (demo_order st ps) = ps" "o_vendorId (demo_order st ps) = ''V''"
  "o_userId (demo_order st ps) = ''C''" "o_riderId (demo_order st ps) = Some ''R''"
  "o_totalXAF (demo_order st ps) = 3150" "o_scheduledFor (demo_order st ps) = None"
  by (simp_all add: demo_order_def)

lemma demo_by_id [simp]:
  "order_by_id ''O'' (demo_world (r # rs) ls) = (if o_id r = ''O'' then Some r else order_by_id ''O'' (demo_world rs ls))"
  by (simp add: order_by_id_def)

lemma demo_distinct [simp]: "orders_distinct (demo_world [r] ls)"
  by (simp add: orders_distinct_def)

lemma demo_balanced [simp]: "books_balanced (demo_world os ls)"
  by (simp add: books_balanced_def)

lemma demo_vendor_simps [simp]: "v_id demo_vendor = ''V''" "v_userId demo_vendor = ''U''"
  by (simp_all add: demo_vendor_def)

lemma demo_rider_simps [simp]: "r_id demo_rider = ''R''" "r_userId demo_rider = ''W''"
  by (simp_all add: demo_rider_def)

lemma demo_line_simps [simp]:
  "oi_id (demo_line i p) = i" "oi_orderId (demo_line i p) = ''O''"
  "oi_preparedAt (demo_line i p) = p"
  by (simp_all add: demo_line_def)

end
