(* ===== verification/Vendor_Actions.thy ===== *)
theory Vendor_Actions
  imports Pricing Examples
begin

text \<open>
  \<open>modules/orders/order-vendor-actions.service.ts\<close>: the write paths of a vendor.  Every handler
  is split where the source awaits the guarded write: the part that reads and checks, and an
  \<open>X_commit\<close> that takes the order snapshot read before and writes on the world of its own
  moment, so that the interleavings of two requests are sequences of these steps.  The handler
  itself runs both on one world.  \<open>$transaction\<close> is written out: on any error the original
  world is returned.
\<close>

definition VENDOR_CAN_DECIDE :: "OrderStatus list" where
  "VENDOR_CAN_DECIDE = [OS_PENDING, OS_CONFIRMED]"

definition IN_KITCHEN :: "OrderStatus list" where
  "IN_KITCHEN = [OS_ACCEPTED, OS_IN_PREP]"

lemma set_VENDOR_CAN_DECIDE [simp]: "s \<in> set VENDOR_CAN_DECIDE \<longleftrightarrow> s = OS_PENDING \<or> s = OS_CONFIRMED"
  by (simp add: VENDOR_CAN_DECIDE_def)

lemma set_IN_KITCHEN [simp]: "s \<in> set IN_KITCHEN \<longleftrightarrow> s = OS_ACCEPTED \<or> s = OS_IN_PREP"
  by (simp add: IN_KITCHEN_def)

section \<open>Ownership\<close>

definition vendor_of_user :: "uuid \<Rightarrow> world \<Rightarrow> vendor option" where
  "vendor_of_user userId w = find_row (\<lambda>v. v_userId v = userId) (w_vendors w)"

definition requireVendorOrder :: "uuid \<Rightarrow> uuid \<Rightarrow> world \<Rightarrow> http_error + order" where
  "requireVendorOrder orderId userId w =
     (case vendor_of_user userId w of
        None \<Rightarrow> Inl (Forbidden ''vendor_not_found'')
      | Some vendor \<Rightarrow>
          (case order_by_id orderId w of
             None \<Rightarrow> Inl (NotFound ''order_not_found'')
           | Some order \<Rightarrow>
               if o_vendorId order \<noteq> v_id vendor then Inl (NotFound ''order_not_found'')
               else Inr order))"

lemma requireVendorOrder_Inr:
  "requireVendorOrder orderId userId w = Inr order \<longleftrightarrow>
   order_by_id orderId w = Some order \<and>
   (\<exists>v. vendor_of_user userId w = Some v \<and> o_vendorId order = v_id v)"
  by (auto simp: requireVendorOrder_def split: option.splits)

section \<open>Accept and refuse\<close>

definition accept_patch :: "time \<Rightarrow> order \<Rightarrow> order" where
  "accept_patch now r = r\<lparr>o_status := OS_ACCEPTED, o_acceptedAt := Some now\<rparr>"

definition acceptOrder_commit :: "order \<Rightarrow> time \<Rightarrow> world \<Rightarrow> (order option, world) outcome" where
  "acceptOrder_commit order now w =
     (case guarded_updateMany (o_id order) (\<lambda>r. o_status r \<in> set VENDOR_CAN_DECIDE)
             (accept_patch now) w of
        None \<Rightarrow> (Inl (Conflict ''order_state_changed''), w)
      | Some w1 \<Rightarrow>
          (let w2 = emit (ORDER_ACCEPTED (o_id order) (o_vendorId order)) w1
           in (Inr (order_by_id (o_id order) w2), w2)))"

definition acceptOrder :: "uuid \<Rightarrow> uuid \<Rightarrow> time \<Rightarrow> world \<Rightarrow> (order option, world) outcome" where
  "acceptOrder orderId userId now w =
     (case requireVendorOrder orderId userId w of
        Inl e \<Rightarrow> (Inl e, w)
      | Inr order \<Rightarrow>
          if o_status order \<notin> set VENDOR_CAN_DECIDE then (Inl (Conflict ''order_not_pending''), w)
          else acceptOrder_commit order now w)"

datatype RefusalReason = ITEM_OUT_OF_STOCK | CLOSED | TOO_MANY_ORDERS | POWER_OUTAGE | OTHER

fun reason_label :: "RefusalReason \<Rightarrow> string" where
  "reason_label ITEM_OUT_OF_STOCK = ''ITEM_OUT_OF_STOCK''"
| "reason_label CLOSED = ''CLOSED''"
| "reason_label TOO_MANY_ORDERS = ''TOO_MANY_ORDERS''"
| "reason_label POWER_OUTAGE = ''POWER_OUTAGE''"
| "reason_label OTHER = ''OTHER''"

definition refuse_label :: "RefusalReason \<Rightarrow> string option \<Rightarrow> string" where
  "refuse_label reason note =
     (if falsy note then reason_label reason
      else reason_label reason @ '': '' @ the note)"

definition refuse_patch :: "string \<Rightarrow> time \<Rightarrow> order \<Rightarrow> order" where
  "refuse_patch label now r =
     r\<lparr>o_status := OS_REFUSED, o_refusedAt := Some now, o_refusalReason := Some label\<rparr>"

definition refuseOrder_commit ::
  "order \<Rightarrow> RefusalReason \<Rightarrow> string option \<Rightarrow> time \<Rightarrow> world \<Rightarrow> (order option, world) outcome" where
  "refuseOrder_commit order reason note now w =
     (case guarded_updateMany (o_id order) (\<lambda>r. o_status r \<in> set VENDOR_CAN_DECIDE)
             (refuse_patch (refuse_label reason note) now) w of
        None \<Rightarrow> (Inl (Conflict ''order_state_changed''), w)
      | Some w1 \<Rightarrow>
          (let w2 = emit (ORDER_REFUSED (o_id order) (reason_label reason)) w1
           in (Inr (order_by_id (o_id order) w2), w2)))"

definition refuseOrder ::
  "uuid \<Rightarrow> uuid \<Rightarrow> RefusalReason \<Rightarrow> string option \<Rightarrow> time \<Rightarrow> world \<Rightarrow> (order option, world) outcome" where
  "refuseOrder orderId userId reason note now w =
     (case requireVendorOrder orderId userId w of
        Inl e \<Rightarrow> (Inl e, w)
      | Inr order \<Rightarrow>
          if o_status order \<notin> set VENDOR_CAN_DECIDE then (Inl (Conflict ''order_not_pending''), w)
          else refuseOrder_commit order reason note now w)"

section \<open>The kitchen\<close>

definition items_of :: "uuid \<Rightarrow> world \<Rightarrow> order_item list" where
  "items_of orderId w = filter (\<lambda>i. oi_orderId i = orderId) (w_orderItems w)"

definition item_by_id :: "uuid \<Rightarrow> world \<Rightarrow> order_item option" where
  "item_by_id itemId w = find_row (\<lambda>i. oi_id i = itemId) (w_orderItems w)"

record prepared_result =
  pr_orderId :: uuid
  pr_itemId :: uuid
  pr_preparedAt :: "time option"
  pr_status :: OrderStatus

definition next_prep_status :: "bool \<Rightarrow> OrderStatus \<Rightarrow> OrderStatus" where
  "next_prep_status anyPrepared st =
     (if anyPrepared \<and> st = OS_ACCEPTED then OS_IN_PREP
      else if \<not> anyPrepared \<and> st = OS_IN_PREP then OS_ACCEPTED
      else st)"

text \<open>The transaction of \<open>setItemPrepared\<close>: the status compared is the one of the snapshot.\<close>

definition setItemPrepared_commit ::
  "order \<Rightarrow> uuid \<Rightarrow> time option \<Rightarrow> world \<Rightarrow> (prepared_result, world) outcome" where
  "setItemPrepared_commit order itemId newPreparedAt w =
     (case item_by_id itemId w of
        None \<Rightarrow> (Inl (PrismaError ''P2025''), w)
      | Some _ \<Rightarrow>
          (let w1 = w_orderItems_update
                      (upd_where (\<lambda>i. oi_id i = itemId) (\<lambda>i. i\<lparr>oi_preparedAt := newPreparedAt\<rparr>)) w;
               anyPrepared = list_ex (\<lambda>i. oi_preparedAt i \<noteq> None) (items_of (o_id order) w1);
               nextStatus = next_prep_status anyPrepared (o_status order);
               result = \<lparr>pr_orderId = o_id order, pr_itemId = itemId,
                         pr_preparedAt = newPreparedAt, pr_status = nextStatus\<rparr>
           in if nextStatus \<noteq> o_status order
              then (case order_update (o_id order) (\<lambda>r. r\<lparr>o_status := nextStatus\<rparr>) w1 of
                      None \<Rightarrow> (Inl (PrismaError ''P2025''), w)
                    | Some w2 \<Rightarrow> (Inr result, w2))
              else (Inr result, w1)))"

definition setItemPrepared ::
  "uuid \<Rightarrow> uuid \<Rightarrow> uuid \<Rightarrow> bool \<Rightarrow> time \<Rightarrow> world \<Rightarrow> (prepared_result, world) outcome" where
  "setItemPrepared orderId itemId userId prepared now w =
     (case requireVendorOrder orderId userId w of
        Inl e \<Rightarrow> (Inl e, w)
      | Inr order \<Rightarrow>
          if o_status order \<noteq> OS_ACCEPTED \<and> o_status order \<noteq> OS_IN_PREP
          then (Inl (Conflict ''order_not_in_prep_phase''), w)
          else (case item_by_id itemId w of
                  None \<Rightarrow> (Inl (NotFound ''order_item_not_found''), w)
                | Some item \<Rightarrow>
                    if oi_orderId item \<noteq> orderId then (Inl (NotFound ''order_item_not_found''), w)
                    else setItemPrepared_commit order itemId (if prepared then Some now else None) w))"

definition ready_patch :: "time \<Rightarrow> order \<Rightarrow> order" where
  "ready_patch now r = r\<lparr>o_status := OS_READY_PICKUP, o_preparedAt := Some now\<rparr>"

definition markOrderReady_commit :: "order \<Rightarrow> time \<Rightarrow> world \<Rightarrow> (OrderStatus \<times> time, world) outcome" where
  "markOrderReady_commit order now w =
     (case guarded_updateMany (o_id order) (\<lambda>r. o_status r \<in> set IN_KITCHEN) (ready_patch now) w of
        None \<Rightarrow> (Inl (Conflict ''order_state_changed''), w)
      | Some w1 \<Rightarrow> (Inr (OS_READY_PICKUP, now), emit (ORDER_READY (o_id order)) w1))"

definition markOrderReady :: "uuid \<Rightarrow> uuid \<Rightarrow> time \<Rightarrow> world \<Rightarrow> (OrderStatus \<times> time, world) outcome" where
  "markOrderReady orderId userId now w =
     (case requireVendorOrder orderId userId w of
        Inl e \<Rightarrow> (Inl e, w)
      | Inr order \<Rightarrow>
          if o_status order \<noteq> OS_ACCEPTED \<and> o_status order \<noteq> OS_IN_PREP
          then (Inl (Conflict ''order_not_in_prep_phase''), w)
          else if items_of orderId w = []
                  \<or> list_ex (\<lambda>i. oi_preparedAt i = None) (items_of orderId w)
          then (Inl (Conflict ''items_not_all_prepared''), w)
          else markOrderReady_commit order now w)"

section \<open>Cancelling an accepted pre-order\<close>

definition vendor_cancel_label :: "string option \<Rightarrow> string" where
  "vendor_cancel_label note =
     (if falsy note then ''VENDOR_PREORDER_CANCEL'' else ''VENDOR_PREORDER_CANCEL: '' @ the note)"

definition vendor_cancel_patch :: "string \<Rightarrow> time \<Rightarrow> order \<Rightarrow> order" where
  "vendor_cancel_patch label now r =
     r\<lparr>o_status := OS_CANCELLED, o_cancelledAt := Some now, o_refusalReason := Some label,
       o_paymentStatus := PS_REFUND_PENDING\<rparr>"

definition penalty_transaction :: "uuid \<Rightarrow> xaf \<Rightarrow> order \<Rightarrow> transaction_input" where
  "penalty_transaction penaltyId penaltyXAF order =
     (let leg = (\<lambda>a amt d. \<lparr>e_account = a, e_amountXAF = amt, e_orderId = Some (o_id order),
                   e_vendorId = Some (o_vendorId order), e_riderId = None, e_payoutId = None,
                   e_refundId = None, e_description = Some d\<rparr>)
      in \<lparr>t_eventId = penaltyId, t_eventType = PENALTY_APPLIED,
          t_entries =
            [leg VENDOR_PAYABLE penaltyXAF
               (''Pre-order cancellation penalty (10% of '' @ show_int (o_totalXAF order)
                  @ '' FCFA, rounded down to 50)''),
             leg PLATFORM_REVENUE (- penaltyXAF)
               ''Pre-order cancellation penalty - platform revenue'']\<rparr>)"

text \<open>\<open>penaltyId\<close> is the id the database generates for the penalty row.\<close>

definition vendorCancelPreOrder_commit ::
  "order \<Rightarrow> string option \<Rightarrow> uuid \<Rightarrow> time \<Rightarrow> world \<Rightarrow> (OrderStatus \<times> xaf, world) outcome" where
  "vendorCancelPreOrder_commit order note penaltyId now w =
     (let penaltyXAF = preorder_penalty (o_totalXAF order)
      in case guarded_updateMany (o_id order) (\<lambda>r. o_status r \<in> set IN_KITCHEN)
                (vendor_cancel_patch (vendor_cancel_label note) now) w of
           None \<Rightarrow> (Inl (Conflict ''order_state_changed''), w)
         | Some w1 \<Rightarrow>
             if clashes vp_orderId (o_id order) (\<lambda>_. True) (w_penalties w1)
             then (Inl (PrismaError ''P2002''), w)
             else
               (let w2 = w1\<lparr>w_penalties := w_penalties w1 @
                             [\<lparr>vp_id = penaltyId, vp_vendorId = o_vendorId order,
                               vp_orderId = o_id order, vp_amountXAF = penaltyXAF\<rparr>]\<rparr>
                in case recordTransaction (penalty_transaction penaltyId penaltyXAF order) now w2 of
                     (Inl e, _) \<Rightarrow> (Inl e, w)
                   | (Inr _, w3) \<Rightarrow>
                       (Inr (OS_CANCELLED, penaltyXAF),
                        emit (ORDER_CANCELLED (o_id order) ''vendor_preorder'') w3)))"

definition vendorCancelPreOrder ::
  "uuid \<Rightarrow> uuid \<Rightarrow> string option \<Rightarrow> uuid \<Rightarrow> time \<Rightarrow> world \<Rightarrow> (OrderStatus \<times> xaf, world) outcome" where
  "vendorCancelPreOrder orderId userId note penaltyId now w =
     (case requireVendorOrder orderId userId w of
        Inl e \<Rightarrow> (Inl e, w)
      | Inr order \<Rightarrow>
          if o_scheduledFor order = None then (Inl (Conflict ''not_a_pre_order''), w)
          else if o_status order \<noteq> OS_ACCEPTED \<and> o_status order \<noteq> OS_IN_PREP
          then (Inl (Conflict ''pre_order_not_in_cancellable_state''), w)
          else vendorCancelPreOrder_commit order note penaltyId now w)"

section \<open>The patches as moves of the life cycle\<close>

lemma accept_lawful: "o_status r \<in> set VENDOR_CAN_DECIDE \<Longrightarrow> lawful r (accept_patch now r)"
  by (auto simp: lawful_def frozen_def accept_patch_def intro!: reach_edge)

lemma refuse_lawful: "o_status r \<in> set VENDOR_CAN_DECIDE \<Longrightarrow> lawful r (refuse_patch l now r)"
  by (auto simp: lawful_def frozen_def refuse_patch_def intro!: reach_edge)

lemma ready_lawful: "o_status r \<in> set IN_KITCHEN \<Longrightarrow> lawful r (ready_patch now r)"
  by (auto simp: lawful_def frozen_def ready_patch_def intro!: reach_edge)

lemma vendor_cancel_lawful: "o_status r \<in> set IN_KITCHEN \<Longrightarrow> lawful r (vendor_cancel_patch l now r)"
  by (auto simp: lawful_def frozen_def vendor_cancel_patch_def intro!: reach_edge)

interpretation accept: status_move VENDOR_CAN_DECIDE OS_ACCEPTED "accept_patch now" for now
  by unfold_locales (simp_all add: accept_patch_def)

interpretation refuse: status_move VENDOR_CAN_DECIDE OS_REFUSED "refuse_patch label now" for label now
  by unfold_locales (simp_all add: refuse_patch_def)

interpretation ready: status_move IN_KITCHEN OS_READY_PICKUP "ready_patch now" for now
  by unfold_locales (simp_all add: ready_patch_def)

interpretation vendor_cancel: status_move IN_KITCHEN OS_CANCELLED "vendor_cancel_patch label now" for label now
  by unfold_locales (simp_all add: vendor_cancel_patch_def)

section \<open>Accept and refuse: which requests succeed and what they do\<close>

lemma decided_row:
  assumes "orders_distinct w" and "order_by_id i w = Some r" and "o_status r \<in> set VENDOR_CAN_DECIDE"
    and "\<And>x. o_id (f x) = o_id x"
  shows "guarded_updateMany i (\<lambda>r. o_status r \<in> set VENDOR_CAN_DECIDE) f w =
           Some (orders_updateMany (\<lambda>x. o_id x = i \<and> o_status x \<in> set VENDOR_CAN_DECIDE) f w)"
    and "order_by_id i (orders_updateMany (\<lambda>x. o_id x = i \<and> o_status x \<in> set VENDOR_CAN_DECIDE) f w) =
           Some (f r)"
  using assms order_by_id_id [OF assms(2)]
  by (simp_all add: guarded_wins order_by_id_updateMany)

text \<open>A commit that finds its order still undecided; the world after it is explicit.\<close>

lemma acceptOrder_commit_wins:
  assumes "orders_distinct w" and "order_by_id i w = Some r" and "o_status r \<in> set VENDOR_CAN_DECIDE"
    and "o_id order = i"
  obtains w' where "acceptOrder_commit order now w = (Inr (Some (accept_patch now r)), w')"
    and "order_by_id i w' = Some (accept_patch now r)"
    and "w_events w' = w_events w @ [ORDER_ACCEPTED i (o_vendorId order)]"
    and "\<And>j. j \<noteq> i \<Longrightarrow> order_by_id j w' = order_by_id j w"
proof -
  note d = decided_row [OF assms(1-3), of "accept_patch now", OF accept.patch_id]
  show thesis
  proof (rule that)
    show "acceptOrder_commit order now w = (Inr (Some (accept_patch now r)),
        emit (ORDER_ACCEPTED i (o_vendorId order)) (orders_updateMany
          (\<lambda>x. o_id x = i \<and> o_status x \<in> set VENDOR_CAN_DECIDE) (accept_patch now) w))"
      by (simp add: acceptOrder_commit_def assms(4) d del: set_VENDOR_CAN_DECIDE)
  qed (use d guarded_other [OF d(1) accept.patch_id] in \<open>auto simp del: set_VENDOR_CAN_DECIDE\<close>)
qed

lemma refuseOrder_commit_wins:
  assumes "orders_distinct w" and "order_by_id i w = Some r" and "o_status r \<in> set VENDOR_CAN_DECIDE"
    and "o_id order = i"
  obtains w' where
    "refuseOrder_commit order reason note now w =
       (Inr (Some (refuse_patch (refuse_label reason note) now r)), w')"
    and "order_by_id i w' = Some (refuse_patch (refuse_label reason note) now r)"
    and "w_events w' = w_events w @ [ORDER_REFUSED i (reason_label reason)]"
    and "\<And>j. j \<noteq> i \<Longrightarrow> order_by_id j w' = order_by_id j w"
proof -
  let ?p = "refuse_patch (refuse_label reason note) now"
  note d = decided_row [OF assms(1-3), of ?p, OF refuse.patch_id]
  show thesis
  proof (rule that)
    show "refuseOrder_commit order reason note now w = (Inr (Some (?p r)),
        emit (ORDER_REFUSED i (reason_label reason)) (orders_updateMany
          (\<lambda>x. o_id x = i \<and> o_status x \<in> set VENDOR_CAN_DECIDE) ?p w))"
      by (simp add: refuseOrder_commit_def assms(4) d del: set_VENDOR_CAN_DECIDE)
  qed (use d guarded_other [OF d(1) refuse.patch_id] in \<open>auto simp del: set_VENDOR_CAN_DECIDE\<close>)
qed

text \<open>
  C1.  \<open>acceptOrder\<close> succeeds exactly for the user of the vendor that owns the order, while the
  order is PENDING or CONFIRMED; it then sets the status and the acceptance time of that row,
  emits \<open>ORDER_ACCEPTED\<close> once and writes no other order; a request that fails changes
  nothing.
\<close>

theorem acceptOrder_spec:
  assumes "orders_distinct w"
  shows "if \<exists>v r. vendor_of_user u w = Some v \<and> order_by_id oid w = Some r
                \<and> o_vendorId r = v_id v \<and> o_status r \<in> {OS_PENDING, OS_CONFIRMED}
         then \<exists>r w'. order_by_id oid w = Some r \<and> won (acceptOrder oid u now w) = Some w'
                \<and> order_by_id oid w' = Some (r\<lparr>o_status := OS_ACCEPTED, o_acceptedAt := Some now\<rparr>)
                \<and> w_events w' = w_events w @ [ORDER_ACCEPTED oid (o_vendorId r)]
                \<and> (\<forall>j. j \<noteq> oid \<longrightarrow> order_by_id j w' = order_by_id j w)
         else failed (acceptOrder oid u now w) \<and> snd (acceptOrder oid u now w) = w"
proof (cases "requireVendorOrder oid u w")
  case (Inl e)
  then have "\<nexists>v r. vendor_of_user u w = Some v \<and> order_by_id oid w = Some r \<and> o_vendorId r = v_id v"
    by (auto simp: requireVendorOrder_def split: option.splits if_splits)
  then show ?thesis using Inl by (auto simp: acceptOrder_def)
next
  case (Inr r)
  then obtain v where r: "order_by_id oid w = Some r" "vendor_of_user u w = Some v" "o_vendorId r = v_id v"
    unfolding requireVendorOrder_Inr by blast
  show ?thesis
  proof (cases "o_status r \<in> set VENDOR_CAN_DECIDE")
    case True
    obtain w' where "acceptOrder_commit r now w = (Inr (Some (accept_patch now r)), w')"
      "order_by_id oid w' = Some (accept_patch now r)"
      "w_events w' = w_events w @ [ORDER_ACCEPTED oid (o_vendorId r)]"
      "\<And>j. j \<noteq> oid \<Longrightarrow> order_by_id j w' = order_by_id j w"
      using acceptOrder_commit_wins [OF assms r(1) True order_by_id_id [OF r(1)]] by blast
    then show ?thesis using Inr r True by (simp add: acceptOrder_def accept_patch_def)
  next
    case False
    then show ?thesis using Inr r by (simp add: acceptOrder_def)
  qed
qed

theorem acceptOrder_spec_witness:
  "\<exists>w'. won (acceptOrder ''O'' ''U'' 7 (demo_world [demo_order OS_CONFIRMED PS_PAID] [])) = Some w'"
  using acceptOrder_spec [of "demo_world [demo_order OS_CONFIRMED PS_PAID] []" "''U''" "''O''" 7]
  by (auto simp: vendor_of_user_def)

text \<open>Both decisions fail with the world unchanged when the row has left the decision phase.\<close>

lemma acceptOrder_commit_lost:
  assumes "orders_distinct w"
    and "\<forall>r. order_by_id (o_id order) w = Some r \<longrightarrow> o_status r \<notin> set VENDOR_CAN_DECIDE"
  shows "acceptOrder_commit order now w = (Inl (Conflict ''order_state_changed''), w)"
proof -
  have "guarded_updateMany (o_id order) (\<lambda>r. o_status r \<in> set VENDOR_CAN_DECIDE) (accept_patch now) w = None"
    using assms by (simp only: guarded_None [OF assms(1)]) (auto split: option.splits)
  then show ?thesis by (simp add: acceptOrder_commit_def)
qed

lemma refuseOrder_commit_lost:
  assumes "orders_distinct w"
    and "\<forall>r. order_by_id (o_id order) w = Some r \<longrightarrow> o_status r \<notin> set VENDOR_CAN_DECIDE"
  shows "refuseOrder_commit order reason note now w = (Inl (Conflict ''order_state_changed''), w)"
proof -
  have "guarded_updateMany (o_id order) (\<lambda>r. o_status r \<in> set VENDOR_CAN_DECIDE)
          (refuse_patch (refuse_label reason note) now) w = None"
    using assms by (simp only: guarded_None [OF assms(1)]) (auto split: option.splits)
  then show ?thesis by (simp add: refuseOrder_commit_def)
qed

section \<open>The kitchen checklist\<close>

lemma next_prep_status_kitchen:
  "st \<in> set IN_KITCHEN \<Longrightarrow> next_prep_status any st = (if any then OS_IN_PREP else OS_ACCEPTED)"
  by (auto simp: next_prep_status_def)

lemma reach_kitchen: "s \<in> set IN_KITCHEN \<Longrightarrow> t \<in> set IN_KITCHEN \<Longrightarrow> reach s t"
  by (cases "s = t") (auto simp: reach_refl intro!: reach_edge)

text \<open>The commit on the snapshot of its own world.\<close>

lemma setItemPrepared_commit_current:
  assumes "orders_distinct w" and "order_by_id oid w = Some r" and "o_status r \<in> set IN_KITCHEN"
    and "item_by_id iid w = Some it"
  obtains w' any where
    "setItemPrepared_commit r iid p w =
       (Inr \<lparr>pr_orderId = oid, pr_itemId = iid, pr_preparedAt = p,
             pr_status = (if any then OS_IN_PREP else OS_ACCEPTED)\<rparr>, w')"
    and "any = list_ex (\<lambda>i. oi_preparedAt i \<noteq> None) (items_of oid w')"
    and "w_orderItems w' = upd_where (\<lambda>i. oi_id i = iid) (\<lambda>i. i\<lparr>oi_preparedAt := p\<rparr>) (w_orderItems w)"
    and "order_by_id oid w' = Some (r\<lparr>o_status := (if any then OS_IN_PREP else OS_ACCEPTED)\<rparr>)"
    and "orders_lawful w w'"
proof -
  define w1 where "w1 = w_orderItems_update
    (upd_where (\<lambda>i. oi_id i = iid) (\<lambda>i. i\<lparr>oi_preparedAt := p\<rparr>)) w"
  define any where "any = list_ex (\<lambda>i. oi_preparedAt i \<noteq> None) (items_of oid w1)"
  define st where "st = (if any then OS_IN_PREP else OS_ACCEPTED)"
  have rid: "o_id r = oid" by (rule order_by_id_id [OF assms(2)])
  have next_st: "next_prep_status
      (list_ex (\<lambda>i. \<exists>y. oi_preparedAt i = Some y) (items_of oid w1)) (o_status r) = st"
    using next_prep_status_kitchen [OF assms(3)] by (simp add: st_def any_def)
  have row1: "order_by_id oid w1 = Some r" using assms(2) by (simp add: w1_def order_by_id_def)
  have run: "setItemPrepared_commit r iid p w =
      (Inr \<lparr>pr_orderId = oid, pr_itemId = iid, pr_preparedAt = p, pr_status = st\<rparr>,
       if st \<noteq> o_status r then orders_updateMany (\<lambda>x. o_id x = oid) (\<lambda>x. x\<lparr>o_status := st\<rparr>) w1 else w1)"
    using assms(4) row1
    by (simp add: setItemPrepared_commit_def rid Let_def next_st order_update_def
        flip: w1_def)
  let ?w' = "if st \<noteq> o_status r then orders_updateMany (\<lambda>x. o_id x = oid) (\<lambda>x. x\<lparr>o_status := st\<rparr>) w1 else w1"
  have items: "w_orderItems ?w' = w_orderItems w1" by simp
  have row: "order_by_id oid ?w' = Some (r\<lparr>o_status := st\<rparr>)"
    using row1 rid by (simp add: order_by_id_updateMany)
  have "lawful r (r\<lparr>o_status := st\<rparr>)"
    using reach_kitchen [OF assms(3), of st] by (simp add: lawful_def frozen_def st_def)
  then have "\<And>x. x \<in> set (w_orders w) \<Longrightarrow> o_id x = oid \<Longrightarrow> lawful x (x\<lparr>o_status := st\<rparr>)"
    using order_in_by_id [OF assms(1)] assms(2) by fastforce
  then have law: "orders_lawful w ?w'"
    by (auto simp: orders_lawful_def w1_def intro!: lawful.all2_upd lawful.all2_refl)
  show thesis
    by (rule that [of any ?w'])
      (use run row law items in \<open>auto simp: any_def st_def items_of_def w1_def\<close>)
qed

text \<open>
  After a successful \<open>setItemPrepared\<close> exactly the named line has the new preparation time,
  and the order (which was in the kitchen and belongs to the caller's vendor) is IN_PREP when
  some line is prepared and ACCEPTED when none is: the status returned is the status stored.
\<close>

theorem setItemPrepared_status:
  assumes "orders_distinct w" and "setItemPrepared oid iid u prepared now w = (Inr res, w')"
  shows "\<exists>r. order_by_id oid w = Some r \<and> o_status r \<in> {OS_ACCEPTED, OS_IN_PREP}
    \<and> pr_status res = (if list_ex (\<lambda>i. oi_preparedAt i \<noteq> None) (items_of oid w')
                       then OS_IN_PREP else OS_ACCEPTED)
    \<and> order_by_id oid w' = Some (r\<lparr>o_status := pr_status res\<rparr>)
    \<and> w_orderItems w' = upd_where (\<lambda>i. oi_id i = iid)
         (\<lambda>i. i\<lparr>oi_preparedAt := (if prepared then Some now else None)\<rparr>) (w_orderItems w)"
proof -
  obtain r it where r: "requireVendorOrder oid u w = Inr r" "o_status r \<in> set IN_KITCHEN"
    "item_by_id iid w = Some it"
    "setItemPrepared_commit r iid (if prepared then Some now else None) w = (Inr res, w')"
    using assms(2) by (auto simp: setItemPrepared_def split: sum.splits if_splits option.splits)
  then have by_id: "order_by_id oid w = Some r" by (simp add: requireVendorOrder_Inr)
  let ?p = "if prepared then Some now else None"
  obtain v any where c: "setItemPrepared_commit r iid ?p w =
       (Inr \<lparr>pr_orderId = oid, pr_itemId = iid, pr_preparedAt = ?p,
             pr_status = (if any then OS_IN_PREP else OS_ACCEPTED)\<rparr>, v)"
    "any = list_ex (\<lambda>i. oi_preparedAt i \<noteq> None) (items_of oid v)"
    "w_orderItems v = upd_where (\<lambda>i. oi_id i = iid) (\<lambda>i. i\<lparr>oi_preparedAt := ?p\<rparr>) (w_orderItems w)"
    "order_by_id oid v = Some (r\<lparr>o_status := (if any then OS_IN_PREP else OS_ACCEPTED)\<rparr>)"
    using setItemPrepared_commit_current [OF assms(1) by_id r(2,3), where p = ?p] by blast
  have "v = w'" "pr_status res = (if any then OS_IN_PREP else OS_ACCEPTED)"
    using c(1) r(4) by auto
  then show ?thesis using c(2-4) by_id r(2) by auto
qed

theorem setItemPrepared_status_witness:
  "\<exists>res w'. setItemPrepared ''O'' ''L1'' ''U'' True 7
      (demo_world [demo_order OS_ACCEPTED PS_PAID] [demo_line ''L1'' None, demo_line ''L2'' None])
      = (Inr res, w') \<and> (\<exists>r. order_by_id ''O'' w' = Some (r\<lparr>o_status := pr_status res\<rparr>))"
proof -
  let ?w = "demo_world [demo_order OS_ACCEPTED PS_PAID] [demo_line ''L1'' None, demo_line ''L2'' None]"
  have "\<not> failed (setItemPrepared ''O'' ''L1'' ''U'' True 7 ?w)"
    by (simp add: setItemPrepared_def requireVendorOrder_def vendor_of_user_def item_by_id_def
        setItemPrepared_commit_def Let_def items_of_def next_prep_status_def order_update_def
        order_by_id_def)
  then obtain res w' where run: "setItemPrepared ''O'' ''L1'' ''U'' True 7 ?w = (Inr res, w')"
    by (auto elim: not_failedE)
  show ?thesis using setItemPrepared_status [OF _ run] run by auto
qed

text \<open>
  The toggle is not guarded against the order moving between the read and the write: with a
  snapshot in the kitchen and a ticked line the commit sets IN_PREP on whatever the row has
  become, for instance on an order the vendor has cancelled in the meantime.
\<close>

theorem setItemPrepared_stale_overwrite:
  assumes "orders_distinct w" and "order_by_id oid w = Some r" and "o_id snap = oid"
    and "o_status snap = OS_ACCEPTED" and "item_by_id iid w = Some it" and "oi_orderId it = oid"
  shows "\<exists>res w'. setItemPrepared_commit snap iid (Some now) w = (Inr res, w')
           \<and> order_by_id oid w' = Some (r\<lparr>o_status := OS_IN_PREP\<rparr>)"
proof -
  define w1 where "w1 = w_orderItems_update
    (upd_where (\<lambda>i. oi_id i = iid) (\<lambda>i. i\<lparr>oi_preparedAt := Some now\<rparr>)) w"
  have "it \<in> set (w_orderItems w)" "oi_id it = iid"
    using assms(5) by (auto simp: item_by_id_def dest: find_row_Some)
  then have "list_ex (\<lambda>i. oi_preparedAt i \<noteq> None) (items_of oid w1)"
    using assms(6) by (auto simp: list_ex_iff items_of_def w1_def set_upd_where)
  moreover have "order_by_id oid w1 = Some r" using assms(2) by (simp add: w1_def order_by_id_def)
  moreover have "o_id r = oid" by (rule order_by_id_id [OF assms(2)])
  ultimately show ?thesis
    using assms(3-5)
    by (simp add: setItemPrepared_commit_def next_prep_status_def Let_def order_update_def
        order_by_id_updateMany flip: w1_def)
qed

theorem setItemPrepared_stale_overwrite_witness:
  "\<exists>res w'. setItemPrepared_commit (demo_order OS_ACCEPTED PS_PAID) ''L1'' (Some 7)
      (demo_world [demo_order OS_CANCELLED PS_REFUND_PENDING] [demo_line ''L1'' None]) = (Inr res, w')
    \<and> order_by_id ''O'' w' = Some ((demo_order OS_CANCELLED PS_REFUND_PENDING)\<lparr>o_status := OS_IN_PREP\<rparr>)"
  by (rule setItemPrepared_stale_overwrite [of _ _ _ _ _ "demo_line ''L1'' None"])
    (simp_all add: item_by_id_def)

section \<open>Ready\<close>

lemma kitchen_row:
  assumes "orders_distinct w" and "order_by_id i w = Some r" and "o_status r \<in> set IN_KITCHEN"
    and "\<And>x. o_id (f x) = o_id x"
  shows "guarded_updateMany i (\<lambda>r. o_status r \<in> set IN_KITCHEN) f w =
           Some (orders_updateMany (\<lambda>x. o_id x = i \<and> o_status x \<in> set IN_KITCHEN) f w)"
    and "order_by_id i (orders_updateMany (\<lambda>x. o_id x = i \<and> o_status x \<in> set IN_KITCHEN) f w) =
           Some (f r)"
  using assms order_by_id_id [OF assms(2)]
  by (simp_all add: guarded_wins order_by_id_updateMany)

text \<open>
  \<open>markOrderReady\<close> succeeds exactly when the caller's vendor owns the order, the order is
  in the kitchen, it has at least one line and every line is prepared; the order then is
  READY_PICKUP with its preparation time, and \<open>ORDER_READY\<close> is emitted.
\<close>

theorem markOrderReady_spec:
  assumes "orders_distinct w"
  shows "if \<exists>r. requireVendorOrder oid u w = Inr r \<and> o_status r \<in> {OS_ACCEPTED, OS_IN_PREP}
              \<and> items_of oid w \<noteq> [] \<and> list_all (\<lambda>i. oi_preparedAt i \<noteq> None) (items_of oid w)
         then \<exists>r w'. order_by_id oid w = Some r
                \<and> markOrderReady oid u now w = (Inr (OS_READY_PICKUP, now), w')
                \<and> order_by_id oid w' = Some (r\<lparr>o_status := OS_READY_PICKUP, o_preparedAt := Some now\<rparr>)
                \<and> w_events w' = w_events w @ [ORDER_READY oid]
         else failed (markOrderReady oid u now w) \<and> snd (markOrderReady oid u now w) = w"
proof (cases "requireVendorOrder oid u w")
  case (Inl e)
  then show ?thesis by (simp add: markOrderReady_def)
next
  case (Inr r)
  have row: "order_by_id oid w = Some r" using Inr by (simp add: requireVendorOrder_Inr)
  have ex: "list_ex (\<lambda>i. oi_preparedAt i = None) (items_of oid w) \<longleftrightarrow>
            \<not> list_all (\<lambda>i. oi_preparedAt i \<noteq> None) (items_of oid w)"
    by (auto simp: list_ex_iff list_all_iff)
  show ?thesis
  proof (cases "o_status r \<in> set IN_KITCHEN")
    case True
    note k = kitchen_row [OF assms row True, of "ready_patch now", OF ready.patch_id]
    have "markOrderReady_commit r now w = (Inr (OS_READY_PICKUP, now), emit (ORDER_READY oid)
        (orders_updateMany (\<lambda>x. o_id x = oid \<and> o_status x \<in> set IN_KITCHEN) (ready_patch now) w))"
      by (simp add: markOrderReady_commit_def order_by_id_id [OF row] k del: set_IN_KITCHEN)
    then show ?thesis
      using Inr True ex row k(2)
      by (auto simp: markOrderReady_def ready_patch_def simp del: set_IN_KITCHEN)
  next
    case False
    then show ?thesis using Inr by (simp add: markOrderReady_def)
  qed
qed

theorem markOrderReady_spec_witness:
  "\<exists>w'. markOrderReady ''O'' ''U'' 7
     (demo_world [demo_order OS_IN_PREP PS_PAID] [demo_line ''L1'' (Some 3)]) = (Inr (OS_READY_PICKUP, 7), w')"
  using markOrderReady_spec [of "demo_world [demo_order OS_IN_PREP PS_PAID] [demo_line ''L1'' (Some 3)]"
      "''O''" "''U''" 7]
  by (auto simp: requireVendorOrder_def vendor_of_user_def items_of_def)

section \<open>The cost of breaking a pre-order\<close>

lemma validate_penalty:
  assumes "pid \<noteq> []" and "o_id order \<noteq> []"
  shows "validate (penalty_transaction pid p order) =
         (if p = 0 then Inl (Conflict ''ledger_zero_amount'') else Inr ())"
  unfolding penalty_transaction_def Let_def
  by (rule validate_two_legs) (use assms in auto)

definition vendor_cancelled_world ::
  "order \<Rightarrow> string option \<Rightarrow> uuid \<Rightarrow> time \<Rightarrow> world \<Rightarrow> world" where
  "vendor_cancelled_world order note pid now w =
     (let p = preorder_penalty (o_totalXAF order);
          w1 = orders_updateMany (\<lambda>x. o_id x = o_id order \<and> o_status x \<in> set IN_KITCHEN)
                 (vendor_cancel_patch (vendor_cancel_label note) now) w
      in emit (ORDER_CANCELLED (o_id order) ''vendor_preorder'')
          (w1\<lparr>w_penalties := w_penalties w @
                [\<lparr>vp_id = pid, vp_vendorId = o_vendorId order, vp_orderId = o_id order, vp_amountXAF = p\<rparr>],
              w_ledger := w_ledger w @ map (ledger_row (penalty_transaction pid p order) now)
                (t_entries (penalty_transaction pid p order))\<rparr>))"

lemma vendorCancelPreOrder_commit_wins:
  assumes "orders_distinct w" and "order_by_id i w = Some r" and "o_status r \<in> set IN_KITCHEN"
    and "o_id order = i" and "pid \<noteq> []" and "i \<noteq> []"
    and "\<forall>p \<in> set (w_penalties w). vp_orderId p \<noteq> i"
    and "preorder_penalty (o_totalXAF order) \<noteq> 0"
  shows "vendorCancelPreOrder_commit order note pid now w =
         (Inr (OS_CANCELLED, preorder_penalty (o_totalXAF order)),
          vendor_cancelled_world order note pid now w)"
proof -
  note k = kitchen_row [OF assms(1-3), of "vendor_cancel_patch l now" for l, OF vendor_cancel.patch_id]
  have "validate (penalty_transaction pid (preorder_penalty (o_totalXAF order)) order) = Inr ()"
    using assms(4-6,8) by (simp add: validate_penalty)
  then show ?thesis
    using assms(4,7)
    by (simp add: vendorCancelPreOrder_commit_def vendor_cancelled_world_def k clashes_def Let_def
        recordTransaction_def del: set_IN_KITCHEN)
qed

text \<open>
  Cancelling an accepted pre-order of at least 500 FCFA cancels the row, asks for the
  refund, and charges the vendor ten percent rounded down to 50: the penalty row and the ledger
  get the same amount, the vendor's payable account is debited by it, and the penalty never
  exceeds a tenth of the order.
\<close>

theorem vendorCancelPreOrder_spec:
  assumes "orders_distinct w" and "requireVendorOrder oid u w = Inr r"
    and "o_scheduledFor r = Some t" and "o_status r \<in> {OS_ACCEPTED, OS_IN_PREP}"
    and "500 \<le> o_totalXAF r" and "oid \<noteq> []" and "pid \<noteq> []"
    and "\<forall>p \<in> set (w_penalties w). vp_orderId p \<noteq> oid"
  shows "\<exists>w' p. vendorCancelPreOrder oid u note pid now w = (Inr (OS_CANCELLED, p), w')
     \<and> 0 < p \<and> 10 * p \<le> o_totalXAF r \<and> o_totalXAF r < 10 * p + 500 \<and> p mod 50 = 0
     \<and> map_option o_status (order_by_id oid w') = Some OS_CANCELLED
     \<and> map_option o_paymentStatus (order_by_id oid w') = Some PS_REFUND_PENDING
     \<and> w_penalties w' = w_penalties w @
         [\<lparr>vp_id = pid, vp_vendorId = o_vendorId r, vp_orderId = oid, vp_amountXAF = p\<rparr>]
     \<and> order_account VENDOR_PAYABLE oid w' = order_account VENDOR_PAYABLE oid w + p
     \<and> order_account PLATFORM_REVENUE oid w' = order_account PLATFORM_REVENUE oid w - p"
proof -
  define p where "p = preorder_penalty (o_totalXAF r)"
  let ?w' = "vendor_cancelled_world r note pid now w"
  have row: "order_by_id oid w = Some r" using assms(2) by (simp add: requireVendorOrder_Inr)
  have rid: "o_id r = oid" by (rule order_by_id_id [OF row])
  have kitchen: "o_status r \<in> set IN_KITCHEN" using assms(4) by simp
  have p: "p \<noteq> 0" "0 \<le> p" "10 * p \<le> o_totalXAF r" "o_totalXAF r < 10 * p + 500" "p mod 50 = 0"
    using assms(5) preorder_penalty_zero [of "o_totalXAF r"] preorder_penalty_bounds [of "o_totalXAF r"]
    by (auto simp: p_def preorder_penalty_div)
  have run: "vendorCancelPreOrder oid u note pid now w = (Inr (OS_CANCELLED, p), ?w')"
    using assms(2,3,4)
      vendorCancelPreOrder_commit_wins [OF assms(1) row kitchen rid assms(7,6,8)] p(1)
    by (auto simp: vendorCancelPreOrder_def p_def)
  have "order_by_id oid ?w' =
        order_by_id oid (orders_updateMany (\<lambda>x. o_id x = oid \<and> o_status x \<in> set IN_KITCHEN)
          (vendor_cancel_patch (vendor_cancel_label note) now) w)"
    by (simp add: vendor_cancelled_world_def Let_def order_by_id_def rid)
  then have row': "order_by_id oid ?w' = Some (vendor_cancel_patch (vendor_cancel_label note) now r)"
    using kitchen_row(2) [OF assms(1) row kitchen vendor_cancel.patch_id] by simp
  show ?thesis
    by (rule exI [of _ ?w'], rule exI [of _ p])
      (use run row' p in \<open>auto simp: vendor_cancelled_world_def Let_def rid p_def [symmetric]
          vendor_cancel_patch_def order_account_def penalty_transaction_def ledger_row_def\<close>)
qed

theorem vendorCancelPreOrder_spec_witness:
  "let r = (demo_order OS_ACCEPTED PS_PAID)\<lparr>o_scheduledFor := Some 99\<rparr>
   in \<exists>w' p. vendorCancelPreOrder ''O'' ''U'' None ''P1'' 7 (demo_world [r] []) = (Inr (OS_CANCELLED, p), w')
        \<and> 10 * p \<le> 3150 \<and> 3150 < 10 * p + 500"
  using vendorCancelPreOrder_spec [of "demo_world [(demo_order OS_ACCEPTED PS_PAID)\<lparr>o_scheduledFor := Some 99\<rparr>] []"
      "''O''" "''U''" "(demo_order OS_ACCEPTED PS_PAID)\<lparr>o_scheduledFor := Some 99\<rparr>" 99 "''P1''" None 7]
  by (auto simp: requireVendorOrder_def vendor_of_user_def orders_distinct_def)

text \<open>
  Below 500 FCFA (possible with a coupon) the penalty rounds to zero, the ledger refuses a
  zero amount, and the vendor can never cancel: the request fails with
  \<open>ledger_zero_amount\<close> and rolls everything back.
\<close>

theorem small_preorder_cannot_be_cancelled:
  assumes "orders_distinct w" and "requireVendorOrder oid u w = Inr r"
    and "o_scheduledFor r = Some t" and "o_status r \<in> {OS_ACCEPTED, OS_IN_PREP}"
    and "0 \<le> o_totalXAF r" and "o_totalXAF r < 500" and "oid \<noteq> []" and "pid \<noteq> []"
    and "\<forall>p \<in> set (w_penalties w). vp_orderId p \<noteq> oid"
  shows "vendorCancelPreOrder oid u note pid now w = (Inl (Conflict ''ledger_zero_amount''), w)"
proof -
  have row: "order_by_id oid w = Some r" using assms(2) by (simp add: requireVendorOrder_Inr)
  have rid: "o_id r = oid" by (rule order_by_id_id [OF row])
  have kitchen: "o_status r \<in> set IN_KITCHEN" using assms(4) by simp
  have "preorder_penalty (o_totalXAF r) = 0"
    using assms(5,6) by (simp add: preorder_penalty_zero)
  moreover have "validate (penalty_transaction pid 0 r) = Inl (Conflict ''ledger_zero_amount'')"
    using assms(7,8) rid by (simp add: validate_penalty)
  moreover note kitchen_row(1) [OF assms(1) row kitchen, of "vendor_cancel_patch l now" for l,
      OF vendor_cancel.patch_id]
  ultimately have "vendorCancelPreOrder_commit r note pid now w = (Inl (Conflict ''ledger_zero_amount''), w)"
    using assms(9)
    by (simp add: vendorCancelPreOrder_commit_def rid clashes_def Let_def recordTransaction_def
        del: set_IN_KITCHEN)
  then show ?thesis using assms(2-4) by (auto simp: vendorCancelPreOrder_def)
qed

theorem small_preorder_cannot_be_cancelled_witness:
  "let r = (demo_order OS_ACCEPTED PS_PAID)
             \<lparr>o_scheduledFor := Some 99, o_discountXAF := 2700, o_totalXAF := 450\<rparr>;
       w = demo_world [r] []
   in vendorCancelPreOrder ''O'' ''U'' None ''P1'' 7 w = (Inl (Conflict ''ledger_zero_amount''), w)"
proof -
  let ?r = "(demo_order OS_ACCEPTED PS_PAID)\<lparr>o_scheduledFor := Some 99, o_discountXAF := 2700, o_totalXAF := 450\<rparr>"
  show ?thesis
    unfolding Let_def
    by (rule small_preorder_cannot_be_cancelled [of "demo_world [?r] []" _ _ ?r 99])
      (auto simp: requireVendorOrder_def vendor_of_user_def orders_distinct_def)
qed

section \<open>Every vendor write keeps the life cycle and the books\<close>

text \<open>The guarded commits do so for any snapshot, however old.\<close>

lemma acceptOrder_commit_lawful [lawful_intros]:
  "orders_lawful w (snd (acceptOrder_commit order now w))"
  by (auto simp: acceptOrder_commit_def Let_def simp del: set_VENDOR_CAN_DECIDE split: option.splits
      intro: orders_lawful_guarded accept_lawful)

lemma refuseOrder_commit_lawful [lawful_intros]:
  "orders_lawful w (snd (refuseOrder_commit order reason note now w))"
  by (auto simp: refuseOrder_commit_def Let_def simp del: set_VENDOR_CAN_DECIDE split: option.splits
      intro: orders_lawful_guarded refuse_lawful)

lemma markOrderReady_commit_lawful [lawful_intros]:
  "orders_lawful w (snd (markOrderReady_commit order now w))"
  by (auto simp: markOrderReady_commit_def simp del: set_IN_KITCHEN split: option.splits
      intro: orders_lawful_guarded ready_lawful)

lemma vendorCancelPreOrder_commit_lawful [lawful_intros]:
  "orders_lawful w (snd (vendorCancelPreOrder_commit order note pid now w))"
proof (cases "guarded_updateMany (o_id order) (\<lambda>r. o_status r \<in> set IN_KITCHEN)
                (vendor_cancel_patch (vendor_cancel_label note) now) w")
  case (Some w1)
  have "orders_lawful w w1"
    by (rule orders_lawful_guarded [OF Some]) (rule vendor_cancel_lawful)
  then show ?thesis
    using Some
    by (auto simp: vendorCancelPreOrder_commit_def Let_def recordTransaction_def
        simp del: set_IN_KITCHEN split: sum.splits
        intro: orders_lawful_cong [where v = w])
qed (simp add: vendorCancelPreOrder_commit_def Let_def del: set_IN_KITCHEN)

lemma acceptOrder_commit_books [books_intros]:
  "books_extend w (snd (acceptOrder_commit order now w))"
  by (auto simp: acceptOrder_commit_def Let_def simp del: set_VENDOR_CAN_DECIDE split: option.splits
      dest!: guarded_frame(1) intro: books_extend_same)

lemma refuseOrder_commit_books [books_intros]:
  "books_extend w (snd (refuseOrder_commit order reason note now w))"
  by (auto simp: refuseOrder_commit_def Let_def simp del: set_VENDOR_CAN_DECIDE split: option.splits
      dest!: guarded_frame(1) intro: books_extend_same)

lemma markOrderReady_commit_books [books_intros]:
  "books_extend w (snd (markOrderReady_commit order now w))"
  by (auto simp: markOrderReady_commit_def simp del: set_IN_KITCHEN split: option.splits
      dest!: guarded_frame(1) intro: books_extend_same)

lemma setItemPrepared_commit_books [books_intros]:
  "books_extend w (snd (setItemPrepared_commit order iid p w))"
  by (rule books_extend_same)
    (auto simp: setItemPrepared_commit_def Let_def order_update_def split: option.splits)

lemma vendorCancelPreOrder_commit_books [books_intros]:
  "books_extend w (snd (vendorCancelPreOrder_commit order note pid now w))"
proof (cases "guarded_updateMany (o_id order) (\<lambda>r. o_status r \<in> set IN_KITCHEN)
                (vendor_cancel_patch (vendor_cancel_label note) now) w")
  case (Some w1)
  let ?p = "preorder_penalty (o_totalXAF order)"
  let ?w2 = "w1\<lparr>w_penalties := w_penalties w1 @ [\<lparr>vp_id = pid, vp_vendorId = o_vendorId order,
               vp_orderId = o_id order, vp_amountXAF = ?p\<rparr>]\<rparr>"
  have "w_ledger ?w2 = w_ledger w" using guarded_frame(1) [OF Some] by simp
  from ledger.transaction_extends [OF this, of "penalty_transaction pid ?p order" now]
  show ?thesis
    using Some
    by (auto simp: vendorCancelPreOrder_commit_def Let_def simp del: set_IN_KITCHEN
        split: sum.splits prod.splits intro: books_extend_cong)
qed (simp add: vendorCancelPreOrder_commit_def Let_def del: set_IN_KITCHEN)

lemmas vendor_handlers = acceptOrder_def refuseOrder_def markOrderReady_def vendorCancelPreOrder_def

lemma acceptOrder_lawful [lawful_intros]: "orders_lawful w (snd (acceptOrder oid u now w))"
  by (auto simp: acceptOrder_def split: sum.splits intro: lawful_intros)

lemma refuseOrder_lawful [lawful_intros]: "orders_lawful w (snd (refuseOrder oid u reason note now w))"
  by (auto simp: refuseOrder_def split: sum.splits intro: lawful_intros)

lemma markOrderReady_lawful [lawful_intros]: "orders_lawful w (snd (markOrderReady oid u now w))"
  by (auto simp: markOrderReady_def split: sum.splits intro: lawful_intros)

lemma vendorCancelPreOrder_lawful [lawful_intros]:
  "orders_lawful w (snd (vendorCancelPreOrder oid u note pid now w))"
  by (auto simp: vendorCancelPreOrder_def split: sum.splits intro: lawful_intros)

lemma setItemPrepared_lawful:
  assumes "orders_distinct w"
  shows "orders_lawful w (snd (setItemPrepared oid iid u prepared now w))"
proof (cases "failed (setItemPrepared oid iid u prepared now w)")
  case False
  then obtain res w' where run: "setItemPrepared oid iid u prepared now w = (Inr res, w')"
    by (auto elim: not_failedE)
  then obtain r it where r: "requireVendorOrder oid u w = Inr r" "o_status r \<in> set IN_KITCHEN"
    "item_by_id iid w = Some it"
    "setItemPrepared_commit r iid (if prepared then Some now else None) w = (Inr res, w')"
    by (auto simp: setItemPrepared_def split: sum.splits if_splits option.splits)
  have "order_by_id oid w = Some r" using r(1) by (simp add: requireVendorOrder_Inr)
  from setItemPrepared_commit_current [OF assms this r(2,3), where p = "if prepared then Some now else None"]
  obtain v where "snd (setItemPrepared_commit r iid (if prepared then Some now else None) w) = v"
    "orders_lawful w v" by (metis snd_conv)
  then show ?thesis using run r(4) by simp
next
  case True
  then have "snd (setItemPrepared oid iid u prepared now w) = w"
    by (auto simp: setItemPrepared_def setItemPrepared_commit_def Let_def
        split: sum.splits if_splits option.splits)
  then show ?thesis by simp
qed

lemma vendor_handlers_books [books_intros]:
  "books_extend w (snd (acceptOrder oid u now w))"
  "books_extend w (snd (refuseOrder oid u reason note now w))"
  "books_extend w (snd (setItemPrepared oid iid u prepared now w))"
  "books_extend w (snd (markOrderReady oid u now w))"
  "books_extend w (snd (vendorCancelPreOrder oid u note pid now w))"
  by ((simp add: vendor_handlers setItemPrepared_def split: sum.split option.split;
      (intro conjI impI allI)?; blast intro: books_intros)+)

lemma refuseOrder_decided:
  assumes "orders_distinct w"
  shows "(\<not> failed (refuseOrder oid u reason note now w)) \<longleftrightarrow>
    (\<exists>r. requireVendorOrder oid u w = Inr r \<and> o_status r \<in> set VENDOR_CAN_DECIDE)"
proof (cases "requireVendorOrder oid u w")
  case (Inr r)
  have row: "order_by_id oid w = Some r" using Inr by (simp add: requireVendorOrder_Inr)
  show ?thesis
  proof (cases "o_status r \<in> set VENDOR_CAN_DECIDE")
    case True
    obtain w' where "refuseOrder_commit r reason note now w =
        (Inr (Some (refuse_patch (refuse_label reason note) now r)), w')"
      using refuseOrder_commit_wins [OF assms row True order_by_id_id [OF row]] by blast
    then show ?thesis using Inr True by (simp add: refuseOrder_def)
  qed (use Inr in \<open>simp add: refuseOrder_def\<close>)
qed (simp add: refuseOrder_def)

end
