(* ===== verification/Text_Utils.thy ===== *)
theory Text_Utils
  imports Prelude
begin

text \<open>
  The two string utilities of \<open>shared/\<close>: \<open>time/duration.util.ts\<close> and \<open>phone/phone.util.ts\<close>,
  with the decimal digits they rest on.  Strings are lists of characters below 256; the inputs
  are ASCII (the DTO validators enforce it).
\<close>

section \<open>Decimal digits\<close>

definition is_digit :: "char \<Rightarrow> bool" where
  "is_digit c \<longleftrightarrow> 48 \<le> (of_char c :: nat) \<and> (of_char c :: nat) \<le> 57"

definition read_nat :: "string \<Rightarrow> nat" where
  "read_nat s = foldl (\<lambda>n c. 10 * n + (of_char c - 48)) 0 s"

lemma of_char_digit: "d < 10 \<Longrightarrow> (of_char (char_of (48 + d :: nat) :: char) :: nat) = 48 + d"
  by simp

lemma is_digit_char_of [simp]: "d < 10 \<Longrightarrow> is_digit (char_of (48 + d :: nat))"
  by (simp add: is_digit_def)

lemma read_nat_snoc: "read_nat (s @ [c]) = 10 * read_nat s + (of_char c - 48)"
  by (simp add: read_nat_def)

lemma show_nat_digits: "list_all is_digit (show_nat n) \<and> show_nat n \<noteq> []"
proof (induction n rule: show_nat.induct)
  case (1 n)
  show ?case
  proof (cases "n < 10")
    case True
    then show ?thesis by (simp add: show_nat.simps [of n])
  next
    case False
    then show ?thesis using 1 by (simp add: show_nat.simps [of n])
  qed
qed

text \<open>Printing and reading a number is the identity.\<close>

lemma read_show_nat [simp]: "read_nat (show_nat n) = n"
proof (induction n rule: show_nat.induct)
  case (1 n)
  show ?case
  proof (cases "n < 10")
    case True
    then show ?thesis by (simp add: show_nat.simps [of n] read_nat_def)
  next
    case False
    have "read_nat (show_nat n) = 10 * (n div 10) + n mod 10"
      using False 1 by (simp add: show_nat.simps [of n] read_nat_snoc)
    then show ?thesis by simp
  qed
qed

section \<open>Durations\<close>

text \<open>\<open>String.prototype.trim\<close> on the whitespace below 256.\<close>

definition js_space :: "char \<Rightarrow> bool" where
  "js_space c = (c \<in> set [CHR 0x20, CHR 0x09, CHR 0x0A, CHR 0x0B, CHR 0x0C, CHR 0x0D, CHR 0xA0])"

definition trim :: "string \<Rightarrow> string" where
  "trim s = rev (dropWhile js_space (rev (dropWhile js_space s)))"

lemma trim_id:
  assumes "s \<noteq> []" and "\<not> js_space (hd s)" and "\<not> js_space (last s)"
  shows "trim s = s"
proof -
  have "dropWhile js_space s = s" using assms(1,2) by (cases s) auto
  moreover have "dropWhile js_space (rev s) = rev s"
    using assms(1,3) by (cases "rev s") (auto simp: last_rev [symmetric] hd_rev)
  ultimately show ?thesis by (simp add: trim_def)
qed

definition SUFFIX_TO_MS :: "char \<Rightarrow> int option" where
  "SUFFIX_TO_MS c =
     (if c = CHR ''s'' then Some 1000 else if c = CHR ''m'' then Some 60000
      else if c = CHR ''h'' then Some 3600000 else if c = CHR ''d'' then Some 86400000 else None)"

text \<open>\<open>None\<close> is the thrown \<open>Invalid duration\<close>; the regular expression is \<open>^(\d+)([smhd])$\<close>.\<close>

definition parseDurationMs :: "string \<Rightarrow> int option" where
  "parseDurationMs input =
     (let s = trim input
      in if length s < 2 \<or> \<not> list_all is_digit (butlast s) then None
         else map_option (\<lambda>m. int (read_nat (butlast s)) * m) (SUFFIX_TO_MS (last s)))"

lemma digit_not_space: "is_digit c \<Longrightarrow> \<not> js_space c"
  by (auto simp: is_digit_def js_space_def)

lemma parseDurationMs_show:
  assumes "SUFFIX_TO_MS c = Some m"
  shows "parseDurationMs (show_nat n @ [c]) = Some (int n * m)"
proof -
  have d: "list_all is_digit (show_nat n)" "show_nat n \<noteq> []" using show_nat_digits by blast+
  then have "is_digit (hd (show_nat n))" by (cases "show_nat n") auto
  moreover have "\<not> js_space c" using assms by (auto simp: js_space_def SUFFIX_TO_MS_def split: if_splits)
  ultimately have "trim (show_nat n @ [c]) = show_nat n @ [c]"
    using d by (intro trim_id) (auto simp: digit_not_space)
  moreover have "2 \<le> length (show_nat n @ [c])" using d(2) by (cases "show_nat n") auto
  ultimately show ?thesis using d(1) assms by (auto simp: parseDurationMs_def Let_def)
qed

section \<open>Phone numbers\<close>

definition cameroon_local :: "string \<Rightarrow> bool" where
  "cameroon_local s \<longleftrightarrow>
     length s = 9 \<and> s ! 0 = CHR ''6'' \<and> s ! 1 \<in> set ''56789''
     \<and> list_all is_digit (drop 2 s)"

definition normalizePhone :: "string \<Rightarrow> string" where
  "normalizePhone input =
     (if take 1 input = ''+'' then input
      else if cameroon_local input then ''+237'' @ input
      else ''+'' @ input)"

lemma normalizePhone_spellings:
  assumes "cameroon_local x"
  shows "normalizePhone x = ''+237'' @ x" and "normalizePhone (''237'' @ x) = ''+237'' @ x"
    and "normalizePhone (''+237'' @ x) = ''+237'' @ x"
proof -
  have "length x = 9" "x ! 0 = CHR ''6''" using assms by (auto simp: cameroon_local_def)
  then have "take 1 x \<noteq> ''+''" by (cases x) auto
  then show "normalizePhone x = ''+237'' @ x" "normalizePhone (''237'' @ x) = ''+237'' @ x"
    "normalizePhone (''+237'' @ x) = ''+237'' @ x"
    using assms by (auto simp: normalizePhone_def cameroon_local_def)
qed

text \<open>
  Normalising is idempotent, always gives an international number, and the three spellings of
  a Cameroonian mobile number (local, with country code, E.164) are the same account: all of them
  normalise to one string.
\<close>

theorem normalizePhone_canonical:
  assumes "cameroon_local x"
  shows "normalizePhone (normalizePhone y) = normalizePhone y \<and> take 1 (normalizePhone y) = ''+''
    \<and> normalizePhone x = ''+237'' @ x \<and> normalizePhone (''237'' @ x) = ''+237'' @ x
    \<and> normalizePhone (''+237'' @ x) = ''+237'' @ x"
  using normalizePhone_spellings [OF assms] by (simp add: normalizePhone_def)

theorem normalizePhone_canonical_witness:
  "normalizePhone ''670000000'' = ''+237670000000'' \<and> normalizePhone ''237670000000'' = ''+237670000000''"
  using normalizePhone_canonical [of "''670000000''" "[]"]
  by (simp add: cameroon_local_def is_digit_def)

lemma parseDurationMs_env: "parseDurationMs ''30d'' = Some 2592000000"
  by (simp add: parseDurationMs_def trim_def js_space_def is_digit_def read_nat_def SUFFIX_TO_MS_def)

end
