(* ===== verification/Consumer_Orders.thy ===== *)
theory Consumer_Orders
  imports Vendor_Actions Text_Utils
begin

text \<open>
  \<open>modules/orders/orders.service.ts\<close>: the read paths of an order with their per-role redaction
  (\<open>getOrder\<close>, \<open>getOrderPublic\<close>, \<open>listConsumerOrders\<close>, \<open>listVendorOrders\<close>), the
  consumer's cancellation and the rating.  A row spread into a response with some properties
  overridden is an \<open>order_view\<close>: the overridden columns are taken out of the row (blank) and
  carried beside it, \<open>None\<close> standing for \<open>undefined\<close>.
\<close>

section \<open>Masking a phone number\<close>

text \<open>The bullet U+2022 is one code unit of a JavaScript string; here it is the byte 0x95.\<close>

definition BULLET :: char where "BULLET = CHR 0x95"

definition last2 :: "string \<Rightarrow> string" where
  "last2 s = drop (length s - 2) s"

definition maskPhone :: "string option \<Rightarrow> string" where
  "maskPhone phone =
     (if falsy phone then []
      else let trimmed = trim (the phone)
           in if length trimmed < 6 then replicate 6 BULLET
              else if take 4 trimmed = ''+237'' \<and> length trimmed \<ge> 11
              then ''+237 '' @ [trimmed ! 4, BULLET, BULLET] @ '' '' @ [BULLET, BULLET, BULLET]
                     @ '' '' @ [BULLET] @ last2 trimmed
              else take 2 trimmed @ replicate 5 BULLET @ last2 trimmed)"

lemma length_last2: "2 \<le> length s \<Longrightarrow> length (last2 s) = 2"
  by (simp add: last2_def)

section \<open>Views of an order\<close>

record order_view =
  vw_row :: order
  vw_pickupCode :: "string option"
  vw_deliveryCode :: "string option"
  vw_deliveryPhone :: string
  vw_items :: "order_item list"
  vw_vendorName :: string
  vw_rating :: "order_rating option"

text \<open>The row without the three columns every response overrides or passes on explicitly.\<close>

definition spread :: "order \<Rightarrow> order" where
  "spread r = r\<lparr>o_pickupCode := [], o_deliveryCode := [],
                o_delivery := (o_delivery r)\<lparr>da_phone := []\<rparr>\<rparr>"

definition vendor_by_id :: "uuid \<Rightarrow> world \<Rightarrow> vendor option" where
  "vendor_by_id i w = find_row (\<lambda>v. v_id v = i) (w_vendors w)"

definition rating_of :: "uuid \<Rightarrow> world \<Rightarrow> order_rating option" where
  "rating_of orderId w = find_row (\<lambda>r. or_orderId r = orderId) (w_ratings w)"

text \<open>
  The vendor of an order always exists (foreign key); a missing row reads as a vendor with no
  user, which no caller is.
\<close>

definition getOrder :: "uuid \<Rightarrow> uuid \<Rightarrow> world \<Rightarrow> http_error + order_view" where
  "getOrder orderId userId w =
     (case order_by_id orderId w of
        None \<Rightarrow> Inl (NotFound ''order_not_found'')
      | Some order \<Rightarrow>
          (let vendor = vendor_by_id (o_vendorId order) w;
               isOwner = (o_userId order = userId);
               isVendorSide = (map_option v_userId vendor = Some userId)
           in if \<not> isOwner \<and> \<not> isVendorSide then Inl (NotFound ''order_not_found'')
              else Inr \<lparr>vw_row = spread order,
                        vw_pickupCode = (if isVendorSide then Some (o_pickupCode order) else None),
                        vw_deliveryCode = (if isOwner then Some (o_deliveryCode order) else None),
                        vw_deliveryPhone =
                          (if isVendorSide then maskPhone (Some (da_phone (o_delivery order)))
                           else da_phone (o_delivery order)),
                        vw_items = items_of orderId w,
                        vw_vendorName = (case vendor of None \<Rightarrow> [] | Some v \<Rightarrow> v_name v),
                        vw_rating = rating_of orderId w\<rparr>))"

record public_view =
  pv_id :: uuid
  pv_code :: string
  pv_status :: OrderStatus
  pv_placedAt :: time
  pv_acceptedAt :: "time option"
  pv_preparedAt :: "time option"
  pv_pickedUpAt :: "time option"
  pv_deliveredAt :: "time option"
  pv_cancelledAt :: "time option"
  pv_vendorName :: string

definition getOrderPublic :: "uuid \<Rightarrow> world \<Rightarrow> http_error + public_view" where
  "getOrderPublic orderId w =
     (case order_by_id orderId w of
        None \<Rightarrow> Inl (NotFound ''order_not_found'')
      | Some r \<Rightarrow>
          Inr \<lparr>pv_id = o_id r, pv_code = o_code r, pv_status = o_status r,
               pv_placedAt = o_placedAt r, pv_acceptedAt = o_acceptedAt r,
               pv_preparedAt = o_preparedAt r, pv_pickedUpAt = o_pickedUpAt r,
               pv_deliveredAt = o_deliveredAt r, pv_cancelledAt = o_cancelledAt r,
               pv_vendorName = (case vendor_by_id (o_vendorId r) w of None \<Rightarrow> [] | Some v \<Rightarrow> v_name v)\<rparr>)"

text \<open>
  \<open>orderBy\<close> is a stable sort on the key (the database leaves the order of ties open), newest
  first for \<open>desc\<close>.
\<close>

definition listConsumerOrders :: "uuid \<Rightarrow> nat \<Rightarrow> world \<Rightarrow> order_view list" where
  "listConsumerOrders userId limit w =
     map (\<lambda>x. \<lparr>vw_row = spread x, vw_pickupCode = None, vw_deliveryCode = Some (o_deliveryCode x),
               vw_deliveryPhone = da_phone (o_delivery x), vw_items = items_of (o_id x) w,
               vw_vendorName = (case vendor_by_id (o_vendorId x) w of None \<Rightarrow> [] | Some v \<Rightarrow> v_name v),
               vw_rating = None\<rparr>)
       (take limit (sort_key (\<lambda>x. - o_placedAt x)
          (filter (\<lambda>x. o_userId x = userId) (w_orders w))))"

datatype list_type = Immediate | Preorder

definition vendor_queue :: "uuid \<Rightarrow> OrderStatus option \<Rightarrow> list_type \<Rightarrow> order \<Rightarrow> bool" where
  "vendor_queue vid status ty x \<longleftrightarrow>
     o_vendorId x = vid \<and> o_paymentStatus x = PS_PAID
     \<and> (case ty of Preorder \<Rightarrow> o_scheduledFor x \<noteq> None | Immediate \<Rightarrow> o_scheduledFor x = None)
     \<and> (case status of None \<Rightarrow> True | Some s \<Rightarrow> o_status x = s)"

definition listVendorOrders ::
  "uuid \<Rightarrow> OrderStatus option \<Rightarrow> list_type \<Rightarrow> world \<Rightarrow> http_error + order_view list" where
  "listVendorOrders userId status ty w =
     (case vendor_of_user userId w of
        None \<Rightarrow> Inl (NotFound ''vendor_not_found'')
      | Some vendor \<Rightarrow>
          Inr (map (\<lambda>x. \<lparr>vw_row = spread x, vw_pickupCode = Some (o_pickupCode x),
                         vw_deliveryCode = None,
                         vw_deliveryPhone = maskPhone (Some (da_phone (o_delivery x))),
                         vw_items = items_of (o_id x) w, vw_vendorName = [], vw_rating = None\<rparr>)
            (take 100
              (sort_key (\<lambda>x. case ty of Preorder \<Rightarrow> (case o_scheduledFor x of None \<Rightarrow> 0 | Some t \<Rightarrow> t)
                                      | Immediate \<Rightarrow> - o_placedAt x)
                (filter (vendor_queue (v_id vendor) status ty) (w_orders w))))))"

section \<open>Cancellation by the consumer\<close>

definition CONSUMER_CAN_CANCEL :: "OrderStatus list" where
  "CONSUMER_CAN_CANCEL = [OS_PENDING, OS_CONFIRMED]"

lemma consumer_vendor_same_phase: "CONSUMER_CAN_CANCEL = VENDOR_CAN_DECIDE"
  by (simp add: CONSUMER_CAN_CANCEL_def VENDOR_CAN_DECIDE_def)

definition cancel_patch :: "time \<Rightarrow> order \<Rightarrow> order" where
  "cancel_patch now r = r\<lparr>o_status := OS_CANCELLED, o_cancelledAt := Some now\<rparr>"

definition cancelOrder_commit :: "order \<Rightarrow> time \<Rightarrow> world \<Rightarrow> (order option, world) outcome" where
  "cancelOrder_commit order now w =
     (case guarded_updateMany (o_id order) (\<lambda>r. o_status r \<in> set CONSUMER_CAN_CANCEL)
             (cancel_patch now) w of
        None \<Rightarrow> (Inl (Conflict ''order_state_changed''), w)
      | Some w1 \<Rightarrow>
          (let w2 = emit (ORDER_CANCELLED (o_id order) ''consumer'') w1
           in (Inr (order_by_id (o_id order) w2), w2)))"

definition cancelOrder :: "uuid \<Rightarrow> uuid \<Rightarrow> time \<Rightarrow> world \<Rightarrow> (order option, world) outcome" where
  "cancelOrder orderId userId now w =
     (case order_by_id orderId w of
        None \<Rightarrow> (Inl (NotFound ''order_not_found''), w)
      | Some order \<Rightarrow>
          if o_userId order \<noteq> userId then (Inl (NotFound ''order_not_found''), w)
          else if o_scheduledFor order \<noteq> None
          then (Inl (Conflict ''pre_order_consumer_cannot_cancel''), w)
          else if o_status order \<notin> set CONSUMER_CAN_CANCEL
          then (Inl (Conflict ''order_not_cancellable''), w)
          else cancelOrder_commit order now w)"

section \<open>Rating\<close>

definition RATING_WINDOW_MS :: int where "RATING_WINDOW_MS = 24 * 3600 * 1000"

definition rateOrder ::
  "uuid \<Rightarrow> uuid \<Rightarrow> int \<Rightarrow> int \<Rightarrow> string option \<Rightarrow> time \<Rightarrow> world \<Rightarrow> (order_rating, world) outcome" where
  "rateOrder orderId userId vendorScore riderScore comment now w =
     (case order_by_id orderId w of
        None \<Rightarrow> (Inl (NotFound ''order_not_found''), w)
      | Some order \<Rightarrow>
          if o_userId order \<noteq> userId then (Inl (NotFound ''order_not_found''), w)
          else (case o_deliveredAt order of
                  None \<Rightarrow> (Inl (Conflict ''order_not_rateable''), w)
                | Some deliveredAt \<Rightarrow>
                    if o_status order \<noteq> OS_DELIVERED then (Inl (Conflict ''order_not_rateable''), w)
                    else if rating_of orderId w \<noteq> None then (Inl (Conflict ''order_already_rated''), w)
                    else if now - deliveredAt > RATING_WINDOW_MS
                    then (Inl (Conflict ''rating_window_expired''), w)
                    else (let rating = \<lparr>or_orderId = o_id order, or_userId = userId,
                                        or_vendorId = o_vendorId order, or_vendorScore = vendorScore,
                                        or_riderScore = riderScore, or_comment = comment\<rparr>
                          in (Inr rating, w\<lparr>w_ratings := w_ratings w @ [rating]\<rparr>))))"

section \<open>What each role can see\<close>

text \<open>
  Two phone numbers that share the first two characters, the fifth one and the last two, and
  have the same length, are masked alike: the mask of a well-formed number shows nothing else.
\<close>

theorem maskPhone_hides:
  assumes "trim p = p" and "trim q = q" and "length p = length q" and "6 \<le> length p"
    and "take 4 p = take 4 q" and "p ! 4 = q ! 4" and "last2 p = last2 q"
  shows "maskPhone (Some p) = maskPhone (Some q)
       \<and> length (maskPhone (Some p)) \<in> {9, 16}"
proof -
  have "take 2 p = take 2 q"
    using arg_cong [OF assms(5), of "take 2"] by simp
  then show ?thesis using assms by (auto simp: maskPhone_def Let_def length_last2)
qed

theorem maskPhone_hides_witness:
  "maskPhone (Some ''+237670000099'') = maskPhone (Some ''+237612345699'')
   \<and> maskPhone (Some ''+237670000099'') = ''+237 6'' @ [BULLET, BULLET] @ '' '' @ [BULLET, BULLET, BULLET] @ '' '' @ [BULLET] @ ''99''"
  using maskPhone_hides [of "''+237670000099''" "''+237612345699''"]
  by (simp add: trim_def js_space_def last2_def maskPhone_def)

lemma getOrder_Inr:
  assumes "getOrder oid u w = Inr vw"
  obtains r where "order_by_id oid w = Some r"
    and "o_userId r = u \<or> map_option v_userId (vendor_by_id (o_vendorId r) w) = Some u"
    and "vw_row vw = spread r"
    and "vw_pickupCode vw = (if map_option v_userId (vendor_by_id (o_vendorId r) w) = Some u
                             then Some (o_pickupCode r) else None)"
    and "vw_deliveryCode vw = (if o_userId r = u then Some (o_deliveryCode r) else None)"
    and "vw_deliveryPhone vw = (if map_option v_userId (vendor_by_id (o_vendorId r) w) = Some u
                                then maskPhone (Some (da_phone (o_delivery r)))
                                else da_phone (o_delivery r))"
  using assms by (auto simp: getOrder_def Let_def split: option.splits if_splits)

text \<open>
  Nobody but the consumer who placed the order and the user of its vendor can read it, and
  the two never see each other's secret: the response to the vendor is the same whatever the
  delivery code is, and the response to the consumer is the same whatever the pickup code is.
\<close>

theorem getOrder_scoped:
  assumes "order_by_id oid w = Some r" and "vendor_by_id (o_vendorId r) w = Some v"
  shows "(u \<noteq> o_userId r \<and> u \<noteq> v_userId v \<longrightarrow> getOrder oid u w = Inl (NotFound ''order_not_found''))
    \<and> (u = v_userId v \<and> u \<noteq> o_userId r \<longrightarrow>
         getOrder oid u (orders_updateMany (\<lambda>x. o_id x = oid) (\<lambda>x. x\<lparr>o_deliveryCode := secret\<rparr>) w)
         = getOrder oid u w)
    \<and> (u = o_userId r \<and> u \<noteq> v_userId v \<longrightarrow>
         getOrder oid u (orders_updateMany (\<lambda>x. o_id x = oid) (\<lambda>x. x\<lparr>o_pickupCode := secret\<rparr>) w)
         = getOrder oid u w)"
proof -
  have rid: "o_id r = oid" by (rule order_by_id_id [OF assms(1)])
  have frame: "vendor_by_id i (orders_updateMany p f w) = vendor_by_id i w"
    "items_of oid (orders_updateMany p f w) = items_of oid w"
    "rating_of oid (orders_updateMany p f w) = rating_of oid w" for i p f
    by (simp_all add: vendor_by_id_def items_of_def rating_of_def orders_updateMany_def)
  show ?thesis
    using assms rid
    by (auto simp: getOrder_def order_by_id_updateMany frame spread_def)
qed

theorem getOrder_scoped_witness:
  "getOrder ''O'' ''U'' (orders_updateMany (\<lambda>x. o_id x = ''O'') (\<lambda>x. x\<lparr>o_deliveryCode := ''0000''\<rparr>)
       (demo_world [demo_order OS_READY_PICKUP PS_PAID] []))
   = getOrder ''O'' ''U'' (demo_world [demo_order OS_READY_PICKUP PS_PAID] [])"
  using getOrder_scoped [of "''O''" "demo_world [demo_order OS_READY_PICKUP PS_PAID] []"
      "demo_order OS_READY_PICKUP PS_PAID" demo_vendor "''U''" "''0000''"]
  by (simp add: vendor_by_id_def)

text \<open>
  A vendor's list only holds paid orders of that vendor, at most a hundred, never with the
  delivery code and always with the phone masked; a pre-order is listed only under
  \<open>type=preorder\<close>.
\<close>

theorem listVendorOrders_safe:
  assumes "listVendorOrders u status ty w = Inr vs"
  shows "length vs \<le> 100 \<and>
    (\<forall>vw \<in> set vs. \<exists>r \<in> set (w_orders w). vw_row vw = spread r
       \<and> o_paymentStatus r = PS_PAID
       \<and> map_option v_id (vendor_of_user u w) = Some (o_vendorId r)
       \<and> (o_scheduledFor r \<noteq> None \<longleftrightarrow> ty = Preorder)
       \<and> (\<forall>s. status = Some s \<longrightarrow> o_status r = s)
       \<and> vw_deliveryCode vw = None
       \<and> vw_deliveryPhone vw = maskPhone (Some (da_phone (o_delivery r))))"
proof -
  obtain v where v: "vendor_of_user u w = Some v"
    using assms by (auto simp: listVendorOrders_def split: option.splits)
  let ?k = "\<lambda>x. case ty of Preorder \<Rightarrow> (case o_scheduledFor x of None \<Rightarrow> 0 | Some t \<Rightarrow> t)
                         | Immediate \<Rightarrow> - o_placedAt x"
  let ?l = "take 100 (sort_key ?k (filter (vendor_queue (v_id v) status ty) (w_orders w)))"
  have sub: "r \<in> set (w_orders w) \<and> vendor_queue (v_id v) status ty r" if "r \<in> set ?l" for r
    using in_set_takeD [OF that] by simp
  define view where "view = (\<lambda>x. \<lparr>vw_row = spread x, vw_pickupCode = Some (o_pickupCode x),
      vw_deliveryCode = None, vw_deliveryPhone = maskPhone (Some (da_phone (o_delivery x))),
      vw_items = items_of (o_id x) w, vw_vendorName = [], vw_rating = None\<rparr>)"
  have vs: "vs = map view ?l"
    using assms v by (simp add: listVendorOrders_def view_def)
  have "length vs \<le> 100" by (simp add: vs)
  moreover have "\<exists>r \<in> set (w_orders w). vw_row vw = spread r \<and> o_paymentStatus r = PS_PAID
       \<and> map_option v_id (vendor_of_user u w) = Some (o_vendorId r)
       \<and> (o_scheduledFor r \<noteq> None \<longleftrightarrow> ty = Preorder)
       \<and> (\<forall>s. status = Some s \<longrightarrow> o_status r = s)
       \<and> vw_deliveryCode vw = None
       \<and> vw_deliveryPhone vw = maskPhone (Some (da_phone (o_delivery r)))"
    if "vw \<in> set vs" for vw
  proof -
    obtain r where r: "r \<in> set ?l" "vw = view r" using \<open>vw \<in> set vs\<close> unfolding vs by auto
    from sub [OF r(1)] have "r \<in> set (w_orders w)" and q: "vendor_queue (v_id v) status ty r" by blast+
    moreover have "o_scheduledFor r \<noteq> None \<longleftrightarrow> ty = Preorder"
      using q by (cases ty) (simp_all add: vendor_queue_def)
    moreover have "o_status r = s" if "status = Some s" for s
      using q that by (simp add: vendor_queue_def)
    ultimately show ?thesis using v q r(2)
      by (intro bexI [of _ r]) (simp_all add: view_def vendor_queue_def)
  qed
  ultimately show ?thesis by blast
qed

theorem listVendorOrders_safe_witness:
  "\<exists>vs. listVendorOrders ''U'' None Immediate (demo_world [demo_order OS_CONFIRMED PS_PAID] []) = Inr vs
        \<and> length vs = 1 \<and> (\<forall>vw \<in> set vs. vw_deliveryCode vw = None)"
proof -
  let ?w = "demo_world [demo_order OS_CONFIRMED PS_PAID] []"
  obtain vs where vs: "listVendorOrders ''U'' None Immediate ?w = Inr vs"
    by (simp add: listVendorOrders_def vendor_of_user_def)
  have "length vs = 1" using vs
    by (auto simp: listVendorOrders_def vendor_of_user_def vendor_queue_def)
  then show ?thesis using listVendorOrders_safe [OF vs] vs by blast
qed

section \<open>Cancelling and rating\<close>

lemma cancel_lawful: "o_status r \<in> set CONSUMER_CAN_CANCEL \<Longrightarrow> lawful r (cancel_patch now r)"
  by (auto simp: lawful_def frozen_def cancel_patch_def consumer_vendor_same_phase intro!: reach_edge)

interpretation cancel: status_move CONSUMER_CAN_CANCEL OS_CANCELLED "cancel_patch now" for now
  by unfold_locales (simp_all add: cancel_patch_def consumer_vendor_same_phase)

lemma cancelOrder_commit_lost:
  assumes "orders_distinct w"
    and "\<forall>r. order_by_id (o_id order) w = Some r \<longrightarrow> o_status r \<notin> set VENDOR_CAN_DECIDE"
  shows "cancelOrder_commit order now w = (Inl (Conflict ''order_state_changed''), w)"
proof -
  have "guarded_updateMany (o_id order) (\<lambda>r. o_status r \<in> set CONSUMER_CAN_CANCEL) (cancel_patch now) w = None"
    using assms by (simp only: guarded_None [OF assms(1)] consumer_vendor_same_phase) (auto split: option.splits)
  then show ?thesis by (simp add: cancelOrder_commit_def)
qed

lemma cancelOrder_commit_wins:
  assumes "orders_distinct w" and "order_by_id i w = Some r" and "o_status r \<in> set VENDOR_CAN_DECIDE"
    and "o_id order = i"
  obtains w' where "cancelOrder_commit order now w = (Inr (Some (cancel_patch now r)), w')"
    and "order_by_id i w' = Some (cancel_patch now r)"
    and "w_events w' = w_events w @ [ORDER_CANCELLED i ''consumer'']"
    and "\<And>j. j \<noteq> i \<Longrightarrow> order_by_id j w' = order_by_id j w"
proof -
  note d = decided_row [OF assms(1-3), of "cancel_patch now", OF cancel.patch_id]
  show thesis
  proof (rule that)
    show "cancelOrder_commit order now w = (Inr (Some (cancel_patch now r)),
        emit (ORDER_CANCELLED i ''consumer'') (orders_updateMany
          (\<lambda>x. o_id x = i \<and> o_status x \<in> set VENDOR_CAN_DECIDE) (cancel_patch now) w))"
      by (simp add: cancelOrder_commit_def assms(4) consumer_vendor_same_phase d del: set_VENDOR_CAN_DECIDE)
  qed (use d guarded_other [OF d(1) cancel.patch_id] in \<open>auto simp del: set_VENDOR_CAN_DECIDE\<close>)
qed

text \<open>
  A consumer cancels exactly their own immediate order, and only before the vendor has
  decided; a pre-order is never cancelled this way.  The payment status is left as it is: on a
  paid order no refund is requested by this path.
\<close>

theorem cancelOrder_spec:
  assumes "orders_distinct w"
  shows "if \<exists>r. order_by_id oid w = Some r \<and> o_userId r = u \<and> o_scheduledFor r = None
               \<and> o_status r \<in> {OS_PENDING, OS_CONFIRMED}
         then \<exists>r w'. order_by_id oid w = Some r \<and> won (cancelOrder oid u now w) = Some w'
                \<and> order_by_id oid w' = Some (r\<lparr>o_status := OS_CANCELLED, o_cancelledAt := Some now\<rparr>)
                \<and> w_events w' = w_events w @ [ORDER_CANCELLED oid ''consumer'']
                \<and> (\<forall>j. j \<noteq> oid \<longrightarrow> order_by_id j w' = order_by_id j w)
         else failed (cancelOrder oid u now w) \<and> snd (cancelOrder oid u now w) = w"
proof (cases "order_by_id oid w")
  case None
  then show ?thesis by (simp add: cancelOrder_def)
next
  case (Some r)
  show ?thesis
  proof (cases "o_userId r = u \<and> o_scheduledFor r = None \<and> o_status r \<in> set VENDOR_CAN_DECIDE")
    case True
    then have dec: "o_status r \<in> set VENDOR_CAN_DECIDE" by blast
    obtain w' where "cancelOrder_commit r now w = (Inr (Some (cancel_patch now r)), w')"
      "order_by_id oid w' = Some (cancel_patch now r)"
      "w_events w' = w_events w @ [ORDER_CANCELLED oid ''consumer'']"
      "\<And>j. j \<noteq> oid \<Longrightarrow> order_by_id j w' = order_by_id j w"
      using cancelOrder_commit_wins [OF assms Some dec order_by_id_id [OF Some]] by blast
    then show ?thesis using Some True
      by (auto simp: cancelOrder_def cancel_patch_def consumer_vendor_same_phase)
  next
    case False
    then show ?thesis using Some
      by (auto simp: cancelOrder_def consumer_vendor_same_phase split: option.splits)
  qed
qed

theorem cancelOrder_spec_witness:
  "\<exists>w'. won (cancelOrder ''O'' ''C'' 7 (demo_world [demo_order OS_PENDING PS_PENDING] [])) = Some w'"
  using cancelOrder_spec [of "demo_world [demo_order OS_PENDING PS_PENDING] []" "''O''" "''C''" 7]
  by auto

lemma cancelOrder_commit_lawful [lawful_intros]:
  "orders_lawful w (snd (cancelOrder_commit order now w))"
  by (auto simp: cancelOrder_commit_def Let_def split: option.splits
      intro: orders_lawful_guarded cancel_lawful)

lemma cancelOrder_commit_books [books_intros]: "books_extend w (snd (cancelOrder_commit order now w))"
  by (auto simp: cancelOrder_commit_def Let_def split: option.splits
      dest!: guarded_frame(1) intro: books_extend_same)

lemma cancelOrder_lawful [lawful_intros]: "orders_lawful w (snd (cancelOrder oid u now w))"
  by (auto simp: cancelOrder_def split: option.splits intro: lawful_intros)

lemma cancelOrder_books [books_intros]: "books_extend w (snd (cancelOrder oid u now w))"
  by (auto simp: cancelOrder_def split: option.splits intro: books_intros)

lemma rateOrder_frame [simp]:
  "w_orders (snd (rateOrder oid u vs rs c now w)) = w_orders w"
  "w_ledger (snd (rateOrder oid u vs rs c now w)) = w_ledger w"
  by (auto simp: rateOrder_def Let_def split: option.splits)

text \<open>
  A rating is stored only for the consumer's own delivered order, within 24 hours of the
  delivery, and a second rating of the same order is always refused.
\<close>

theorem rateOrder_once:
  assumes "rateOrder oid u vs rs c now w = (Inr rating, w')"
  shows "\<exists>r t. order_by_id oid w = Some r \<and> o_userId r = u \<and> o_status r = OS_DELIVERED
           \<and> o_deliveredAt r = Some t \<and> now \<le> t + 24 * 3600 * 1000
           \<and> w_ratings w' = w_ratings w @ [rating] \<and> or_orderId rating = oid
           \<and> rateOrder oid u' vs' rs' c' now' w' =
               (Inl (if u' = u then Conflict ''order_already_rated'' else NotFound ''order_not_found''), w')"
proof -
  obtain r t where r: "order_by_id oid w = Some r" "o_userId r = u" "o_status r = OS_DELIVERED"
    "o_deliveredAt r = Some t" "\<not> now - t > RATING_WINDOW_MS"
    "rating = \<lparr>or_orderId = o_id r, or_userId = u, or_vendorId = o_vendorId r,
       or_vendorScore = vs, or_riderScore = rs, or_comment = c\<rparr>"
    "w' = w\<lparr>w_ratings := w_ratings w @ [rating]\<rparr>"
    using assms by (auto simp: rateOrder_def Let_def split: option.splits if_splits)
  have rid: "o_id r = oid" by (rule order_by_id_id [OF r(1)])
  have "order_by_id oid w' = Some r" using r(1,7) by (simp add: order_by_id_def)
  moreover have "rating_of oid w' \<noteq> None"
    using r(6,7) rid by (auto simp: rating_of_def find_row_None)
  ultimately have "rateOrder oid u' vs' rs' c' now' w' =
      (Inl (if u' = u then Conflict ''order_already_rated'' else NotFound ''order_not_found''), w')"
    using r(2-4) by (auto simp: rateOrder_def)
  then show ?thesis using r rid by (auto simp: RATING_WINDOW_MS_def)
qed

theorem rateOrder_once_witness:
  "\<exists>w'. rateOrder ''O'' ''C'' 5 4 None 9 w' =
         (Inl (Conflict ''order_already_rated''), w')"
proof -
  let ?w = "demo_world [(demo_order OS_DELIVERED PS_PAID)\<lparr>o_deliveredAt := Some 1\<rparr>] []"
  have "\<not> failed (rateOrder ''O'' ''C'' 5 4 None 8 ?w)"
    by (simp add: rateOrder_def rating_of_def RATING_WINDOW_MS_def Let_def)
  then obtain rating w' where run: "rateOrder ''O'' ''C'' 5 4 None 8 ?w = (Inr rating, w')"
    by (auto elim: not_failedE)
  show ?thesis using rateOrder_once [OF run, of "''C''" 5 4 None 9] by auto
qed

end
