(* ===== verification/Order_Payment.thy ===== *)
theory Order_Payment
  imports Consumer_Orders
begin

text \<open>
  \<open>modules/orders/order-payment-lifecycle.service.ts\<close> (what happens when a payment succeeds) and
  \<open>order-lifecycle.scheduler.ts\<close> (the delayed jobs it enqueues).  \<open>onPaymentSucceeded\<close> is again
  split at the first write: \<open>onPaymentSucceeded_commit\<close> takes the snapshot read before.
\<close>

definition ACCEPTANCE_TTL_SECONDS :: int where "ACCEPTANCE_TTL_SECONDS = 60"
definition PRE_ORDER_NOTIFICATION_LEAD_MINUTES :: int where "PRE_ORDER_NOTIFICATION_LEAD_MINUTES = 60"

section \<open>Delayed jobs\<close>

text \<open>
  BullMQ drops an \<open>add\<close> whose \<open>jobId\<close> is already in the queue, which the scheduler relies on;
  \<open>queueUp\<close> says whether Redis takes the job (a failure is logged and swallowed).
\<close>

definition queue_add :: "string \<Rightarrow> job \<Rightarrow> time \<Rightarrow> world \<Rightarrow> world" where
  "queue_add jobId j fireAt w =
     (if list_ex (\<lambda>q. q_jobId q = jobId) (w_jobs w) then w
      else w\<lparr>w_jobs := w_jobs w @ [\<lparr>q_jobId = jobId, q_job = j, q_fireAt = fireAt\<rparr>]\<rparr>)"

definition scheduleAcceptanceExpiry :: "bool \<Rightarrow> uuid \<Rightarrow> time \<Rightarrow> time \<Rightarrow> world \<Rightarrow> world" where
  "scheduleAcceptanceExpiry queueUp orderId fireAt now w =
     (let delay = max 0 (fireAt - now)
      in if queueUp
         then queue_add (''aexp:'' @ orderId) (EXPIRE_VENDOR_DECISION_JOB orderId) (now + delay) w
         else w)"

definition schedulePreOrderPromotion :: "bool \<Rightarrow> uuid \<Rightarrow> time \<Rightarrow> time \<Rightarrow> world \<Rightarrow> world" where
  "schedulePreOrderPromotion queueUp orderId fireAt now w =
     (let delay = max 0 (fireAt - now)
      in if queueUp
         then queue_add (''pop:'' @ orderId) (PROMOTE_PRE_ORDER_JOB orderId) (now + delay) w
         else w)"

lemma queue_add_frame [simp]:
  "w_orders (queue_add jid j t w) = w_orders w" "w_ledger (queue_add jid j t w) = w_ledger w"
  "w_events (queue_add jid j t w) = w_events w" "w_riders (queue_add jid j t w) = w_riders w"
  by (simp_all add: queue_add_def)

lemma schedule_frame [simp]:
  "w_orders (scheduleAcceptanceExpiry up oid t now w) = w_orders w"
  "w_ledger (scheduleAcceptanceExpiry up oid t now w) = w_ledger w"
  "w_events (scheduleAcceptanceExpiry up oid t now w) = w_events w"
  "w_orders (schedulePreOrderPromotion up oid t now w) = w_orders w"
  "w_ledger (schedulePreOrderPromotion up oid t now w) = w_ledger w"
  "w_events (schedulePreOrderPromotion up oid t now w) = w_events w"
  by (simp_all add: scheduleAcceptanceExpiry_def schedulePreOrderPromotion_def)

text \<open>Enqueuing twice under one id leaves one job.\<close>

lemma queue_add_twice: "queue_add jid j' t' (queue_add jid j t w) = queue_add jid j t w"
  by (auto simp: queue_add_def)

section \<open>The payment handler\<close>

definition AWAITING_PAYMENT :: "PaymentStatus list" where
  "AWAITING_PAYMENT = [PS_PENDING, PS_PROCESSING]"

lemma set_AWAITING_PAYMENT [simp]: "s \<in> set AWAITING_PAYMENT \<longleftrightarrow> s = PS_PENDING \<or> s = PS_PROCESSING"
  by (simp add: AWAITING_PAYMENT_def)

definition payment_patch :: "order \<Rightarrow> string \<Rightarrow> string option \<Rightarrow> time \<Rightarrow> order \<Rightarrow> order" where
  "payment_patch order providerReference payerPhone now r =
     (let ms = money_snapshots (o_subtotalXAF order) (o_deliveryFeeXAF order) (o_commissionRate order);
          r1 = r\<lparr>o_status := OS_CONFIRMED, o_paymentStatus := PS_PAID,
                 o_paymentReference := Some providerReference,
                 o_payerPhone := (case payerPhone of Some p \<Rightarrow> Some p | None \<Rightarrow> o_payerPhone order),
                 o_paidAt := Some now, o_commissionXAF := Some (ms_commissionXAF ms),
                 o_riderShareXAF := Some (ms_riderShareXAF ms),
                 o_platformFeeXAF := Some (ms_platformFeeXAF ms)\<rparr>
      in if o_scheduledFor order = None
         then r1\<lparr>o_acceptanceDeadlineAt := Some (now + ACCEPTANCE_TTL_SECONDS * 1000)\<rparr>
         else r1)"

definition payment_transaction :: "order \<Rightarrow> transaction_input" where
  "payment_transaction order =
     \<lparr>t_eventId = ''payment:'' @ o_id order, t_eventType = PAYMENT_RECEIVED,
      t_entries =
        [order_leg CAMPAY_FLOAT (o_totalXAF order) (o_id order)
           (''Campay payment for order '' @ o_code order),
         order_leg CUSTOMER_ESCROW (- o_totalXAF order) (o_id order)
           ''Customer escrow held until delivery'']\<rparr>"

text \<open>
  The transaction: \<open>None\<close> is the lost race (\<open>won === false\<close>).  A provider reference that
  another order already holds breaks the unique column.
\<close>

definition payment_tx ::
  "order \<Rightarrow> string \<Rightarrow> string option \<Rightarrow> time \<Rightarrow> world \<Rightarrow> http_error + world option" where
  "payment_tx order providerReference payerPhone now w =
     (case guarded_updateMany (o_id order) (\<lambda>r. o_paymentStatus r \<in> set AWAITING_PAYMENT)
             (payment_patch order providerReference payerPhone now) w of
        None \<Rightarrow> Inr None
      | Some w1 \<Rightarrow>
          if clashes o_paymentReference (Some providerReference) (\<lambda>r. o_id r \<noteq> o_id order) (w_orders w)
          then Inl (PrismaError ''P2002'')
          else (case recordTransaction (payment_transaction order) now w1 of
                  (Inl e, _) \<Rightarrow> Inl e
                | (Inr _, w2) \<Rightarrow> Inr (Some w2)))"

definition onPaymentSucceeded_commit ::
  "bool \<Rightarrow> order \<Rightarrow> string \<Rightarrow> string option \<Rightarrow> time \<Rightarrow> world \<Rightarrow> (unit, world) outcome" where
  "onPaymentSucceeded_commit queueUp order providerReference payerPhone now w =
     (case payment_tx order providerReference payerPhone now w of
        Inl e \<Rightarrow> (Inl e, w)
      | Inr None \<Rightarrow> (Inr (), w)
      | Inr (Some w1) \<Rightarrow>
          (let w2 = emit (ORDER_PAID (o_id order)) w1
           in (Inr (),
               case o_scheduledFor order of
                 Some t \<Rightarrow>
                   schedulePreOrderPromotion queueUp (o_id order)
                     (t - PRE_ORDER_NOTIFICATION_LEAD_MINUTES * 60000) now w2
               | None \<Rightarrow>
                   scheduleAcceptanceExpiry queueUp (o_id order)
                     (now + ACCEPTANCE_TTL_SECONDS * 1000) now
                     (emit (ORDER_CREATED (o_id order)) w2))))"

definition onPaymentSucceeded ::
  "bool \<Rightarrow> uuid \<Rightarrow> string \<Rightarrow> string option \<Rightarrow> time \<Rightarrow> world \<Rightarrow> (unit, world) outcome" where
  "onPaymentSucceeded queueUp orderId providerReference payerPhone now w =
     (case order_by_id orderId w of
        None \<Rightarrow> (Inr (), w)
      | Some order \<Rightarrow>
          if o_paymentStatus order = PS_PAID then (Inr (), w)
          else onPaymentSucceeded_commit queueUp order providerReference payerPhone now w)"

section \<open>The payment status as a lock\<close>

lemma payment_patch_simps [simp]:
  "o_id (payment_patch order ref ph now r) = o_id r"
  "o_paymentStatus (payment_patch order ref ph now r) = PS_PAID"
  "o_status (payment_patch order ref ph now r) = OS_CONFIRMED"
  "frozen (payment_patch order ref ph now r) = frozen r"
  by (simp_all add: payment_patch_def Let_def frozen_def)

interpretation payment: guarded_transition
  "\<lambda>r. o_paymentStatus r \<in> set AWAITING_PAYMENT" "payment_patch order ref ph now" for order ref ph now
  by unfold_locales simp_all

lemma validate_payment:
  "o_id order \<noteq> [] \<Longrightarrow> validate (payment_transaction order) =
     (if o_totalXAF order = 0 then Inl (Conflict ''ledger_zero_amount'') else Inr ())"
  unfolding payment_transaction_def by (rule validate_two_legs) auto

lemma payment_tx_Some:
  assumes "payment_tx order ref ph now w = Inr (Some w')"
  obtains w1 where
    "guarded_updateMany (o_id order) (\<lambda>r. o_paymentStatus r \<in> set AWAITING_PAYMENT)
       (payment_patch order ref ph now) w = Some w1"
    and "validate (payment_transaction order) = Inr ()"
    and "w' = w1\<lparr>w_ledger := w_ledger w1 @
           map (ledger_row (payment_transaction order) now) (t_entries (payment_transaction order))\<rparr>"
  using assms
  by (auto simp: payment_tx_def recordTransaction_def simp del: set_AWAITING_PAYMENT
      split: option.splits if_splits sum.splits)

lemma payment_tx_wins:
  assumes "orders_distinct w" and "order_by_id oid w = Some r"
    and "o_paymentStatus r \<in> set AWAITING_PAYMENT" and "o_id order = oid" and "oid \<noteq> []"
    and "o_totalXAF order \<noteq> 0"
    and "\<forall>x \<in> set (w_orders w). o_paymentReference x = Some ref \<longrightarrow> o_id x = oid"
  obtains w' where "payment_tx order ref ph now w = Inr (Some w')"
    and "order_by_id oid w' = Some (payment_patch order ref ph now r)"
    and "w_ledger w' = w_ledger w @
           map (ledger_row (payment_transaction order) now) (t_entries (payment_transaction order))"
    and "w_events w' = w_events w"
    and "orders_distinct w'"
    and "\<And>j. j \<noteq> oid \<Longrightarrow> order_by_id j w' = order_by_id j w"
proof -
  let ?p = "payment_patch order ref ph now"
  have g: "guarded_updateMany oid (\<lambda>r. o_paymentStatus r \<in> set AWAITING_PAYMENT) ?p w =
      Some (orders_updateMany (\<lambda>x. o_id x = oid \<and> o_paymentStatus x \<in> set AWAITING_PAYMENT) ?p w)"
    by (rule guarded_wins) (use assms(2,3) in auto)
  let ?w1 = "orders_updateMany (\<lambda>x. o_id x = oid \<and> o_paymentStatus x \<in> set AWAITING_PAYMENT) ?p w"
  let ?w' = "?w1\<lparr>w_ledger := w_ledger w @
      map (ledger_row (payment_transaction order) now) (t_entries (payment_transaction order))\<rparr>"
  have cong: "order_by_id j ?w' = order_by_id j ?w1" for j by (simp add: order_by_id_def)
  show thesis
  proof (rule that)
    show "payment_tx order ref ph now w = Inr (Some ?w')"
      using assms(4-7) by (auto simp: payment_tx_def g recordTransaction_def validate_payment clashes_def
          simp del: set_AWAITING_PAYMENT)
    show "order_by_id oid ?w' = Some (?p r)"
      using assms(2,3) order_by_id_id [OF assms(2)]
      by (simp only: cong) (simp add: order_by_id_updateMany)
    show "\<And>j. j \<noteq> oid \<Longrightarrow> order_by_id j ?w' = order_by_id j w"
      by (simp only: cong) (rule guarded_other [OF g payment_patch_simps(1)])
    show "orders_distinct ?w'"
      using assms(1) by (simp add: orders_distinct_def map_key_upd_where)
  qed simp_all
qed

lemma commit_after_tx:
  assumes "payment_tx order ref ph now w = Inr (Some w1)"
  obtains w2 where "onPaymentSucceeded_commit up order ref ph now w = (Inr (), w2)"
    and "w_orders w2 = w_orders w1" and "w_ledger w2 = w_ledger w1"
    and "w_events w2 = w_events w1 @ (if o_scheduledFor order = None
           then [ORDER_PAID (o_id order), ORDER_CREATED (o_id order)] else [ORDER_PAID (o_id order)])"
  using assms that
  by (cases "o_scheduledFor order") (simp_all add: onPaymentSucceeded_commit_def Let_def)

lemma payment_commit_lost:
  assumes "orders_distinct w" and "order_by_id (o_id order) w = Some r"
    and "o_paymentStatus r \<notin> set AWAITING_PAYMENT"
  shows "onPaymentSucceeded_commit up order ref ph now w = (Inr (), w)"
proof -
  have "guarded_updateMany (o_id order) (\<lambda>r. o_paymentStatus r \<in> set AWAITING_PAYMENT)
          (payment_patch order ref ph now) w = None"
    using assms by (simp only: guarded_None [OF assms(1)]) simp
  then show ?thesis by (simp add: onPaymentSucceeded_commit_def payment_tx_def)
qed




text \<open>
  C6.  Two deliveries of the success webhook that both read the order before either wrote: the
  first commit wins and the second changes nothing, whatever references and payer phones they
  carry; so do all later deliveries.
\<close>

theorem double_webhook_single_effect:
  assumes "orders_distinct w" and "order_by_id oid w = Some r"
    and "o_paymentStatus r \<in> {PS_PENDING, PS_PROCESSING}" and "oid \<noteq> []" and "o_totalXAF r \<noteq> 0"
    and "\<forall>x \<in> set (w_orders w). o_paymentReference x = Some ref \<longrightarrow> o_id x = oid"
    and "onPaymentSucceeded_commit up r ref ph now w = (res, w')"
  shows "res = Inr () \<and> w_ledger w' \<noteq> w_ledger w
    \<and> onPaymentSucceeded_commit up' r ref' ph' now' w' = (Inr (), w')
    \<and> onPaymentSucceeded up' oid ref' ph' now' w' = (Inr (), w')"
proof -
  have pay: "o_paymentStatus r \<in> set AWAITING_PAYMENT" using assms(3) by simp
  have rid: "o_id r = oid" by (rule order_by_id_id [OF assms(2)])
  obtain w1 where tx: "payment_tx r ref ph now w = Inr (Some w1)"
    and row: "order_by_id oid w1 = Some (payment_patch r ref ph now r)"
    and led: "w_ledger w1 = w_ledger w @
        map (ledger_row (payment_transaction r) now) (t_entries (payment_transaction r))"
    and dis: "orders_distinct w1"
    using payment_tx_wins [OF assms(1,2) pay rid assms(4,5,6), of ph now] by metis
  have w': "w_orders w' = w_orders w1" "w_ledger w' = w_ledger w1" and res: "res = Inr ()"
    using commit_after_tx [OF tx, of up] assms(7) by (metis Pair_inject)+
  have row': "order_by_id oid w' = Some (payment_patch r ref ph now r)"
    using row by (simp add: order_by_id_cong [OF w'(1)])
  have dis': "orders_distinct w'" using dis by (simp add: orders_distinct_cong [OF w'(1)])
  have "onPaymentSucceeded_commit up' r ref' ph' now' w' = (Inr (), w')"
    by (rule payment_commit_lost [OF dis']) (use row' rid in auto)
  moreover have "onPaymentSucceeded up' oid ref' ph' now' w' = (Inr (), w')"
    using row' by (simp add: onPaymentSucceeded_def)
  moreover have "w_ledger w' \<noteq> w_ledger w"
    using led by (simp add: w'(2) payment_transaction_def)
  ultimately show ?thesis using res by blast
qed

theorem double_webhook_single_effect_witness:
  "\<exists>w'. onPaymentSucceeded_commit True (demo_order OS_PENDING PS_PROCESSING) ''ref'' None 7
           (demo_world [demo_order OS_PENDING PS_PROCESSING] []) = (Inr (), w')
        \<and> onPaymentSucceeded True ''O'' ''ref'' None 9 w' = (Inr (), w')"
proof -
  let ?r = "demo_order OS_PENDING PS_PROCESSING"
  obtain res w' where run: "onPaymentSucceeded_commit True ?r ''ref'' None 7 (demo_world [?r] []) = (res, w')"
    by (cases "onPaymentSucceeded_commit True ?r ''ref'' None 7 (demo_world [?r] [])")
  have "res = Inr () \<and> onPaymentSucceeded True ''O'' ''ref'' None 9 w' = (Inr (), w')"
    using double_webhook_single_effect [OF _ _ _ _ _ _ run, of "''O''" True] by simp
  then show ?thesis using run by auto
qed

text \<open>
  The guard looks at the payment status only: a success webhook for an order that was
  cancelled, refused or expired while its payment was still pending brings it back to CONFIRMED,
  although those statuses have no successor in the life cycle.
\<close>

theorem late_payment_revives_order:
  assumes "orders_distinct w" and "order_by_id oid w = Some r" and "settled_status (o_status r)"
    and "o_paymentStatus r \<in> {PS_PENDING, PS_PROCESSING}" and "oid \<noteq> []" and "o_totalXAF r \<noteq> 0"
    and "\<forall>x \<in> set (w_orders w). o_paymentReference x = Some ref \<longrightarrow> o_id x = oid"
  shows "\<exists>r'. order_by_id oid (snd (onPaymentSucceeded up oid ref ph now w)) = Some r'
           \<and> o_status r' = OS_CONFIRMED \<and> \<not> reach (o_status r) (o_status r')"
proof -
  have pay: "o_paymentStatus r \<in> set AWAITING_PAYMENT" using assms(4) by simp
  have rid: "o_id r = oid" by (rule order_by_id_id [OF assms(2)])
  obtain w1 where tx: "payment_tx r ref ph now w = Inr (Some w1)"
    and row: "order_by_id oid w1 = Some (payment_patch r ref ph now r)"
    using payment_tx_wins [OF assms(1,2) pay rid assms(5,6,7), of ph now] by metis
  obtain w2 where "onPaymentSucceeded_commit up r ref ph now w = (Inr (), w2)"
    and o2: "w_orders w2 = w_orders w1"
    using commit_after_tx [OF tx, of up] by metis
  then have "order_by_id oid (snd (onPaymentSucceeded up oid ref ph now w)) =
      Some (payment_patch r ref ph now r)"
    using assms(2,4) row by (auto simp: onPaymentSucceeded_def order_by_id_cong [OF o2])
  moreover have "\<not> reach (o_status r) OS_CONFIRMED"
    using assms(3) reach_settled [of "o_status r" OS_CONFIRMED] by (auto simp: settled_status_iff)
  ultimately show ?thesis by simp
qed

theorem late_payment_revives_order_witness:
  "\<exists>r'. order_by_id ''O'' (snd (onPaymentSucceeded True ''O'' ''ref'' None 7
          (demo_world [demo_order OS_CANCELLED PS_PROCESSING] []))) = Some r' \<and> o_status r' = OS_CONFIRMED"
  using late_payment_revives_order [of "demo_world [demo_order OS_CANCELLED PS_PROCESSING] []" "''O''"
      "demo_order OS_CANCELLED PS_PROCESSING" "''ref''" True None 7]
  by (auto simp: settled_status_iff demo_order_def)

text \<open>
  An order whose coupon brought the total to zero can never be confirmed: the ledger refuses the
  zero amount and the transaction rolls back.
\<close>

lemma free_order_never_confirmed:
  assumes "order_by_id oid w = Some r" and "o_paymentStatus r \<in> set AWAITING_PAYMENT"
    and "o_totalXAF r = 0" and "oid \<noteq> []"
    and "\<forall>x \<in> set (w_orders w). o_paymentReference x = Some ref \<longrightarrow> o_id x = oid"
  shows "onPaymentSucceeded up oid ref ph now w = (Inl (Conflict ''ledger_zero_amount''), w)"
proof -
  have rid: "o_id r = oid" by (rule order_by_id_id [OF assms(1)])
  have g: "guarded_updateMany oid (\<lambda>r. o_paymentStatus r \<in> set AWAITING_PAYMENT) (payment_patch r ref ph now) w =
      Some (orders_updateMany (\<lambda>x. o_id x = oid \<and> o_paymentStatus x \<in> set AWAITING_PAYMENT)
        (payment_patch r ref ph now) w)"
    by (rule guarded_wins) (use assms(1,2) in auto)
  have "payment_tx r ref ph now w = Inl (Conflict ''ledger_zero_amount'')"
    using assms(3-5) rid
    by (auto simp: payment_tx_def g recordTransaction_def validate_payment clashes_def
        simp del: set_AWAITING_PAYMENT)
  then show ?thesis
    using assms(1,2) by (auto simp: onPaymentSucceeded_def onPaymentSucceeded_commit_def)
qed

section \<open>Books and columns\<close>

lemma payment_tx_books:
  assumes "payment_tx order ref ph now w = Inr (Some w')"
  shows "books_extend w w'"
proof -
  obtain w1 where g: "guarded_updateMany (o_id order) (\<lambda>r. o_paymentStatus r \<in> set AWAITING_PAYMENT)
       (payment_patch order ref ph now) w = Some w1"
    and v: "validate (payment_transaction order) = Inr ()"
    and w': "w' = w1\<lparr>w_ledger := w_ledger w1 @
           map (ledger_row (payment_transaction order) now) (t_entries (payment_transaction order))\<rparr>"
    by (rule payment_tx_Some [OF assms])
  have "w' = snd (recordTransaction (payment_transaction order) now w1)"
    using v w' by (simp add: recordTransaction_def)
  then have "books_extend w1 w'" by (simp add: ledger.tx_extends)
  moreover have "books_extend w w1" by (rule books_extend_same [OF guarded_frame(1) [OF g]])
  ultimately show ?thesis by (blast intro: books_extend_trans)
qed

lemma onPaymentSucceeded_commit_books [books_intros]:
  "books_extend w (snd (onPaymentSucceeded_commit up order ref ph now w))"
proof (cases "payment_tx order ref ph now w")
  case (Inr m)
  then show ?thesis
  proof (cases m)
    case (Some w1)
    with Inr have tx: "payment_tx order ref ph now w = Inr (Some w1)" by simp
    obtain w2 where "onPaymentSucceeded_commit up order ref ph now w = (Inr (), w2)"
      "w_ledger w2 = w_ledger w1" using commit_after_tx [OF tx, of up] by metis
    then show ?thesis using payment_tx_books [OF tx] by (simp add: books_extend_def)
  qed (simp add: onPaymentSucceeded_commit_def)
qed (simp add: onPaymentSucceeded_commit_def)

lemma onPaymentSucceeded_books [books_intros]:
  "books_extend w (snd (onPaymentSucceeded up oid ref ph now w))"
  by (auto simp: onPaymentSucceeded_def split: option.splits intro: books_intros)

text \<open>A payment of an order still PENDING, or of one already CONFIRMED, follows the life cycle.\<close>

lemma payment_patch_lawful:
  "o_status r \<in> {OS_PENDING, OS_CONFIRMED} \<Longrightarrow> lawful r (payment_patch order ref ph now r)"
  by (auto simp: lawful_def intro: reach_edge reach_refl)

end
