(* ===== verification/Order_Timers.thy ===== *)
theory Order_Timers
  imports Order_Payment
begin

text \<open>
  The time-driven transitions of an order: the worker of the \<open>order-lifecycle\<close> queue
  (\<open>order-lifecycle.processor.ts\<close>), the two crons behind it (\<open>orders-expiry.service.ts\<close>,
  \<open>pre-order-promotion.service.ts\<close>) and the stuck-pickup detector.  The crons read at most fifty
  candidates and then write one guarded update each; the recursion over the candidates carries
  the world, so a row written by an earlier iteration is seen by the later ones.
\<close>

definition EXPIRED_REASON :: string where "EXPIRED_REASON = ''EXPIRED_NO_VENDOR_RESPONSE''"

section \<open>The loop of a sweep\<close>

text \<open>\<open>for (const order of candidates) { ...; if (res.count === 0) continue; ... }\<close>\<close>

fun sweep_each :: "(uuid \<Rightarrow> world \<Rightarrow> world option) \<Rightarrow> order list \<Rightarrow> world \<Rightarrow> world" where
  "sweep_each step [] w = w"
| "sweep_each step (order # rest) w =
     (case step (o_id order) w of
        None \<Rightarrow> sweep_each step rest w
      | Some w1 \<Rightarrow> sweep_each step rest w1)"

section \<open>Auto-refusal\<close>

definition auto_refuse :: "uuid \<Rightarrow> time \<Rightarrow> world \<Rightarrow> world option" where
  "auto_refuse orderId now w =
     (case guarded_updateMany orderId (\<lambda>r. o_status r \<in> set VENDOR_CAN_DECIDE)
             (refuse_patch EXPIRED_REASON now) w of
        None \<Rightarrow> None
      | Some w1 \<Rightarrow> Some (emit (ORDER_REFUSED orderId EXPIRED_REASON) w1))"

definition expired_candidate :: "time \<Rightarrow> order \<Rightarrow> bool" where
  "expired_candidate now r \<longleftrightarrow>
     o_status r \<in> set VENDOR_CAN_DECIDE
     \<and> (case o_acceptanceDeadlineAt r of None \<Rightarrow> False | Some d \<Rightarrow> d < now)"

definition sweepExpired :: "time \<Rightarrow> world \<Rightarrow> world" where
  "sweepExpired now w =
     (let candidates = find_many 50 (expired_candidate now) (w_orders w)
      in if candidates = [] then w else sweep_each (\<lambda>i. auto_refuse i now) candidates w)"

definition expireVendorDecision :: "uuid \<Rightarrow> time \<Rightarrow> world \<Rightarrow> world" where
  "expireVendorDecision orderId now w =
     (case order_by_id orderId w of
        None \<Rightarrow> w
      | Some order \<Rightarrow>
          if o_status order \<noteq> OS_PENDING \<and> o_status order \<noteq> OS_CONFIRMED then w
          else (case auto_refuse (o_id order) now w of None \<Rightarrow> w | Some w1 \<Rightarrow> w1))"

section \<open>Promotion of pre-orders\<close>

definition promote_patch :: "time \<Rightarrow> order \<Rightarrow> order" where
  "promote_patch now r = r\<lparr>o_acceptanceDeadlineAt := Some (now + ACCEPTANCE_TTL_SECONDS * 1000)\<rparr>"

definition promote_one :: "uuid \<Rightarrow> time \<Rightarrow> world \<Rightarrow> world option" where
  "promote_one orderId now w =
     (case guarded_updateMany orderId (\<lambda>r. o_acceptanceDeadlineAt r = None) (promote_patch now) w of
        None \<Rightarrow> None
      | Some w1 \<Rightarrow> Some (emit (ORDER_CREATED orderId) w1))"

definition promotable :: "order \<Rightarrow> bool" where
  "promotable r \<longleftrightarrow> o_status r = OS_CONFIRMED \<and> o_paymentStatus r = PS_PAID
                  \<and> o_acceptanceDeadlineAt r = None"

definition promotion_candidate :: "time \<Rightarrow> order \<Rightarrow> bool" where
  "promotion_candidate now r \<longleftrightarrow>
     promotable r
     \<and> (case o_scheduledFor r of None \<Rightarrow> False
        | Some t \<Rightarrow> t \<le> now + PRE_ORDER_NOTIFICATION_LEAD_MINUTES * 60000)"

definition promotion_sweep :: "time \<Rightarrow> world \<Rightarrow> world" where
  "promotion_sweep now w =
     (let candidates = find_many 50 (promotion_candidate now) (w_orders w)
      in if candidates = [] then w else sweep_each (\<lambda>i. promote_one i now) candidates w)"

definition promotePreOrder :: "bool \<Rightarrow> uuid \<Rightarrow> time \<Rightarrow> world \<Rightarrow> world" where
  "promotePreOrder queueUp orderId now w =
     (case order_by_id orderId w of
        None \<Rightarrow> w
      | Some order \<Rightarrow>
          if \<not> promotable order then w
          else (case promote_one (o_id order) now w of
                  None \<Rightarrow> w
                | Some w1 \<Rightarrow>
                    scheduleAcceptanceExpiry queueUp (o_id order)
                      (now + ACCEPTANCE_TTL_SECONDS * 1000) now w1))"

text \<open>The worker's \<open>switch\<close> on the job name; a job of another queue is ignored.\<close>

fun process :: "bool \<Rightarrow> job \<Rightarrow> time \<Rightarrow> world \<Rightarrow> world" where
  "process queueUp (EXPIRE_VENDOR_DECISION_JOB orderId) now w = expireVendorDecision orderId now w"
| "process queueUp (PROMOTE_PRE_ORDER_JOB orderId) now w = promotePreOrder queueUp orderId now w"
| "process queueUp (DISPATCH_RETRY_JOB _ _ _) now w = w"

section \<open>Stuck pickups\<close>

definition STUCK_THRESHOLD_MINUTES :: int where "STUCK_THRESHOLD_MINUTES = 120"

definition stuck_pickup :: "time \<Rightarrow> order \<Rightarrow> bool" where
  "stuck_pickup now r \<longleftrightarrow>
     o_status r = OS_PICKED_UP
     \<and> (case o_pickedUpAt r of None \<Rightarrow> False | Some t \<Rightarrow> t < now - STUCK_THRESHOLD_MINUTES * 60000)"

text \<open>The flags the detector logs: order id and whole minutes since the pickup, oldest first.\<close>

definition sweepStuckPickups :: "time \<Rightarrow> world \<Rightarrow> (uuid \<times> int) list" where
  "sweepStuckPickups now w =
     map (\<lambda>r. (o_id r, (case o_pickedUpAt r of None \<Rightarrow> 0 | Some t \<Rightarrow> (now - t) div 60000)))
       (take 100 (sort_key (\<lambda>r. case o_pickedUpAt r of None \<Rightarrow> 0 | Some t \<Rightarrow> t)
          (filter (stuck_pickup now) (w_orders w))))"

section \<open>One decision\<close>

interpretation promote: guarded_transition "\<lambda>r. o_acceptanceDeadlineAt r = None" "promote_patch now" for now
  by unfold_locales (simp_all add: promote_patch_def)

lemma auto_refuse_lost:
  assumes "orders_distinct w"
    and "\<forall>r. order_by_id oid w = Some r \<longrightarrow> o_status r \<notin> set VENDOR_CAN_DECIDE"
  shows "auto_refuse oid now w = None"
proof -
  have "guarded_updateMany oid (\<lambda>r. o_status r \<in> set VENDOR_CAN_DECIDE) (refuse_patch EXPIRED_REASON now) w = None"
    using assms by (simp only: guarded_None [OF assms(1)]) (auto split: option.splits)
  then show ?thesis by (simp add: auto_refuse_def)
qed

lemma auto_refuse_wins:
  assumes "orders_distinct w" and "order_by_id oid w = Some r" and "o_status r \<in> set VENDOR_CAN_DECIDE"
  obtains w' where "auto_refuse oid now w = Some w'"
    and "order_by_id oid w' = Some (refuse_patch EXPIRED_REASON now r)"
    and "w_events w' = w_events w @ [ORDER_REFUSED oid EXPIRED_REASON]"
    and "\<And>j. j \<noteq> oid \<Longrightarrow> order_by_id j w' = order_by_id j w"
proof -
  note d = decided_row [OF assms, of "refuse_patch EXPIRED_REASON now", OF refuse.patch_id]
  show thesis
  proof (rule that)
    show "auto_refuse oid now w = Some (emit (ORDER_REFUSED oid EXPIRED_REASON) (orders_updateMany
          (\<lambda>x. o_id x = oid \<and> o_status x \<in> set VENDOR_CAN_DECIDE) (refuse_patch EXPIRED_REASON now) w))"
      by (simp add: auto_refuse_def d del: set_VENDOR_CAN_DECIDE)
  qed (use d guarded_other [OF d(1) refuse.patch_id] in \<open>auto simp del: set_VENDOR_CAN_DECIDE\<close>)
qed

lemma auto_refuse_keeps:
  assumes "auto_refuse oid now w = Some w'"
  shows "orders_distinct w \<Longrightarrow> orders_distinct w'" and "orders_lawful w w'"
    and "w_ledger w' = w_ledger w" and "j \<noteq> oid \<Longrightarrow> order_by_id j w' = order_by_id j w"
proof -
  obtain w1 where w1: "guarded_updateMany oid (\<lambda>r. o_status r \<in> set VENDOR_CAN_DECIDE)
      (refuse_patch EXPIRED_REASON now) w = Some w1" "w' = emit (ORDER_REFUSED oid EXPIRED_REASON) w1"
    using assms by (auto simp: auto_refuse_def simp del: set_VENDOR_CAN_DECIDE split: option.splits)
  show "orders_distinct w \<Longrightarrow> orders_distinct w'"
    using refuse.distinct_kept [OF _ w1(1)] w1(2) by simp
  show "orders_lawful w w'"
    using orders_lawful_guarded [OF w1(1)] refuse_lawful w1(2) by auto
  show "w_ledger w' = w_ledger w" using guarded_frame(1) [OF w1(1)] w1(2) by simp
  show "j \<noteq> oid \<Longrightarrow> order_by_id j w' = order_by_id j w"
    using guarded_other [OF w1(1) refuse.patch_id] w1(2) by simp
qed

section \<open>The race for the decision\<close>

text \<open>
  Every party that may close the decision phase, with the order snapshot its request read at some
  earlier time.
\<close>

datatype decision =
    Accept order time
  | Refuse order RefusalReason "string option" time
  | Cancel order time
  | Expire uuid time

fun decision_order :: "decision \<Rightarrow> uuid" where
  "decision_order (Accept order now) = o_id order"
| "decision_order (Refuse order reason note now) = o_id order"
| "decision_order (Cancel order now) = o_id order"
| "decision_order (Expire oid now) = oid"

text \<open>The write of a decision: \<open>None\<close> is a lost race (409, or a silent no-op for the timer).\<close>

fun decide :: "decision \<Rightarrow> world \<Rightarrow> world option" where
  "decide (Accept order now) w = won (acceptOrder_commit order now w)"
| "decide (Refuse order reason note now) w = won (refuseOrder_commit order reason note now w)"
| "decide (Cancel order now) w = won (cancelOrder_commit order now w)"
| "decide (Expire oid now) w = auto_refuse oid now w"

fun decided_status :: "decision \<Rightarrow> OrderStatus" where
  "decided_status (Accept order now) = OS_ACCEPTED"
| "decided_status (Refuse order reason note now) = OS_REFUSED"
| "decided_status (Cancel order now) = OS_CANCELLED"
| "decided_status (Expire oid now) = OS_REFUSED"

fun run_decisions :: "decision list \<Rightarrow> world \<Rightarrow> bool list \<times> world" where
  "run_decisions [] w = ([], w)"
| "run_decisions (d # ds) w =
     (case decide d w of
        None \<Rightarrow> (let (bs, w') = run_decisions ds w in (False # bs, w'))
      | Some w1 \<Rightarrow> (let (bs, w') = run_decisions ds w1 in (True # bs, w')))"

text \<open>The contract of a party in the race, as the others see it.\<close>

locale contender =
  fixes attempt :: "'d \<Rightarrow> world \<Rightarrow> world option" and target :: "'d \<Rightarrow> uuid"
    and outcome_status :: "'d \<Rightarrow> OrderStatus"
  assumes loses: "orders_distinct w \<Longrightarrow>
      \<forall>r. order_by_id (target d) w = Some r \<longrightarrow> o_status r \<notin> set VENDOR_CAN_DECIDE \<Longrightarrow>
      attempt d w = None"
    and wins: "orders_distinct w \<Longrightarrow> order_by_id (target d) w = Some r \<Longrightarrow>
      o_status r \<in> set VENDOR_CAN_DECIDE \<Longrightarrow>
      \<exists>w' r'. attempt d w = Some w' \<and> order_by_id (target d) w' = Some r'
         \<and> o_status r' = outcome_status d \<and> orders_distinct w'"
    and closes: "outcome_status d \<notin> set VENDOR_CAN_DECIDE"
begin

lemma after_winner:
  assumes "orders_distinct w" and "order_by_id (target d) w = Some r"
    and "o_status r \<in> set VENDOR_CAN_DECIDE" and "attempt d w = Some w'" and "target e = target d"
  shows "attempt e w' = None"
proof -
  obtain w'' r' where "attempt d w = Some w''" "order_by_id (target d) w'' = Some r'"
    "o_status r' = outcome_status d" "orders_distinct w''"
    using wins [OF assms(1,2,3)] by blast
  then show ?thesis using loses [of w' e] closes [of d] assms(4,5) by auto
qed

end

text \<open>The guarded commits change no key, so they keep the ids distinct.\<close>

lemma decide_distinct:
  assumes "decide d w = Some w'" and "orders_distinct w"
  shows "orders_distinct w'"
proof (cases d)
  case (Accept order now)
  then show ?thesis using assms accept.distinct_kept [of w]
    by (auto simp: acceptOrder_commit_def Let_def simp del: set_VENDOR_CAN_DECIDE split: option.splits)
next
  case (Refuse order reason nt now)
  then show ?thesis using assms refuse.distinct_kept [of w]
    by (auto simp: refuseOrder_commit_def Let_def simp del: set_VENDOR_CAN_DECIDE split: option.splits)
next
  case (Cancel order now)
  then show ?thesis using assms cancel.distinct_kept [of w]
    by (auto simp: cancelOrder_commit_def Let_def split: option.splits)
next
  case (Expire oid now)
  then show ?thesis using assms auto_refuse_keeps(1) by simp
qed

interpretation race: contender decide decision_order decided_status
proof unfold_locales
  fix d w
  assume "orders_distinct w"
    and "\<forall>r. order_by_id (decision_order d) w = Some r \<longrightarrow> o_status r \<notin> set VENDOR_CAN_DECIDE"
  then show "decide d w = None"
    by (cases d) (simp_all add: acceptOrder_commit_lost refuseOrder_commit_lost
        cancelOrder_commit_lost auto_refuse_lost)
next
  fix d w r
  assume a: "orders_distinct w" "order_by_id (decision_order d) w = Some r"
    "o_status r \<in> set VENDOR_CAN_DECIDE"
  have "\<exists>w' r'. decide d w = Some w' \<and> order_by_id (decision_order d) w' = Some r'
          \<and> o_status r' = decided_status d"
  proof (cases d)
    case (Accept order now)
    then have a': "order_by_id (o_id order) w = Some r" using a(2) by simp
    show ?thesis using acceptOrder_commit_wins [OF a(1) a' a(3) refl, of now] Accept
      by (force simp: accept_patch_def)
  next
    case (Refuse order reason nt now)
    then have a': "order_by_id (o_id order) w = Some r" using a(2) by simp
    show ?thesis using refuseOrder_commit_wins [OF a(1) a' a(3) refl, of reason nt now] Refuse
      by (force simp: refuse_patch_def)
  next
    case (Cancel order now)
    then have a': "order_by_id (o_id order) w = Some r" using a(2) by simp
    show ?thesis using cancelOrder_commit_wins [OF a(1) a' a(3) refl, of now] Cancel
      by (force simp: cancel_patch_def)
  next
    case (Expire oid now)
    then have a': "order_by_id oid w = Some r" using a(2) by simp
    show ?thesis using auto_refuse_wins [OF a(1) a' a(3), of now] Expire
      by (force simp: refuse_patch_def)
  qed
  then show "\<exists>w' r'. decide d w = Some w' \<and> order_by_id (decision_order d) w' = Some r'
          \<and> o_status r' = decided_status d \<and> orders_distinct w'"
    using decide_distinct a(1) by blast
next
  fix d show "decided_status d \<notin> set VENDOR_CAN_DECIDE" by (cases d) simp_all
qed

lemma all_lose_after:
  assumes "orders_distinct w" and "\<forall>d \<in> set ds. decision_order d = oid"
    and "\<forall>r. order_by_id oid w = Some r \<longrightarrow> o_status r \<notin> set VENDOR_CAN_DECIDE"
  shows "run_decisions ds w = (replicate (length ds) False, w)"
  using assms(2)
proof (induction ds)
  case (Cons d ds)
  then have "decide d w = None" using race.loses [OF assms(1), of d] assms(3) by simp
  then show ?case using Cons by simp
qed simp

text \<open>
  C2.  The vendor's Accept and Refuse, the consumer's Cancel and the 60 second timer race for one
  order: whatever requests are under way and however old the snapshots they checked are, on an
  undecided order exactly the first write wins, all the others change nothing, and the status
  stored is the winner's.
\<close>

theorem decision_race_one_winner:
  assumes "orders_distinct w" and "order_by_id oid w = Some r"
    and "o_status r \<in> {OS_PENDING, OS_CONFIRMED}"
    and "\<forall>x \<in> set (d # ds). decision_order x = oid"
  shows "\<exists>w' r'. run_decisions (d # ds) w = (True # replicate (length ds) False, w')
           \<and> decide d w = Some w'
           \<and> order_by_id oid w' = Some r' \<and> o_status r' = decided_status d"
proof -
  have d: "decision_order d = oid" using assms(4) by simp
  obtain w' r' where w': "decide d w = Some w'" "order_by_id oid w' = Some r'"
    "o_status r' = decided_status d" "orders_distinct w'"
    using race.wins [OF assms(1), of d r] assms(2,3) d by auto
  have "run_decisions ds w' = (replicate (length ds) False, w')"
    by (rule all_lose_after [OF w'(4), of _ oid]) (use assms(4) w'(2,3) race.closes [of d] in auto)
  then show ?thesis using w' by simp
qed

theorem decision_race_one_winner_witness:
  "\<exists>w'. run_decisions [Cancel (demo_order OS_CONFIRMED PS_PAID) 7, Accept (demo_order OS_PENDING PS_PENDING) 8,
                        Expire ''O'' 9] (demo_world [demo_order OS_CONFIRMED PS_PAID] [])
          = ([True, False, False], w')"
  using decision_race_one_winner [of "demo_world [demo_order OS_CONFIRMED PS_PAID] []" "''O''"
      "demo_order OS_CONFIRMED PS_PAID" "Cancel (demo_order OS_CONFIRMED PS_PAID) 7"
      "[Accept (demo_order OS_PENDING PS_PENDING) 8, Expire ''O'' 9]"]
  by (auto simp: numeral_2_eq_2 simp del: run_decisions.simps decide.simps)

section \<open>The sweeps\<close>

text \<open>
  A sweep whose step is a guarded update followed by one event.  Because a written row leaves the
  guard, the whole loop is one conditional update over the candidates.
\<close>

locale guarded_sweep = guarded_transition +
  fixes event :: "uuid \<Rightarrow> domain_event" and step :: "uuid \<Rightarrow> world \<Rightarrow> world option"
  assumes step_is: "step i w = map_option (emit (event i)) (guarded_updateMany i guard patch w)"
begin

lemma step_orders:
  "w_orders (case step i w of None \<Rightarrow> w | Some w1 \<Rightarrow> w1) =
   upd_where (\<lambda>r. o_id r = i \<and> guard r) patch (w_orders w)"
proof (cases "guarded_updateMany i guard patch w")
  case None
  then have "\<forall>r \<in> set (w_orders w). \<not> (o_id r = i \<and> guard r)"
    by (auto simp: guarded_updateMany_def orders_count_def count_where_0 split: if_splits)
  then show ?thesis using None by (simp add: step_is upd_where_none)
next
  case (Some w1)
  then show ?thesis using guarded_Some [OF Some] by (simp add: step_is)
qed

lemma sweep_unfold:
  "sweep_each step (c # cs) w = sweep_each step cs (case step (o_id c) w of None \<Rightarrow> w | Some w1 \<Rightarrow> w1)"
  by (simp split: option.splits)

lemma sweep_orders:
  "w_orders (sweep_each step cs w) =
   upd_where (\<lambda>r. o_id r \<in> o_id ` set cs \<and> guard r) patch (w_orders w)"
proof (induction cs arbitrary: w)
  case Nil
  then show ?case by (simp add: upd_where_none)
next
  case (Cons c cs)
  have "upd_where (\<lambda>r. o_id r \<in> o_id ` set cs \<and> guard r) patch
          (upd_where (\<lambda>r. o_id r = o_id c \<and> guard r) patch rs) =
        upd_where (\<lambda>r. o_id r \<in> o_id ` set (c # cs) \<and> guard r) patch rs" for rs
    by (induction rs) (auto simp: keeps_id leaves_guard)
  then show ?case by (simp only: sweep_unfold Cons.IH step_orders)
qed

lemma sweep_frame: "w_ledger (sweep_each step cs w) = w_ledger w \<and> w_jobs (sweep_each step cs w) = w_jobs w"
proof (induction cs arbitrary: w)
  case (Cons c cs)
  show ?case
  proof (cases "guarded_updateMany (o_id c) guard patch w")
    case (Some w1)
    then show ?thesis
      using Cons guarded_frame(1,3) [OF Some] by (simp add: step_is emit_def)
  qed (use Cons in \<open>simp add: step_is\<close>)
qed simp

text \<open>Candidates read from the table itself, under the guard, are all written, once each.\<close>

lemma sweep_events:
  assumes "orders_distinct w" and "distinct (map o_id cs)"
    and "\<forall>c \<in> set cs. order_by_id (o_id c) w = Some c \<and> guard c"
  shows "w_events (sweep_each step cs w) = w_events w @ map (\<lambda>c. event (o_id c)) cs"
  using assms
proof (induction cs arbitrary: w)
  case (Cons c cs)
  have row: "order_by_id (o_id c) w = Some c" "guard c" using Cons.prems(3) by simp_all
  obtain w1 where w1: "guarded_updateMany (o_id c) guard patch w = Some w1"
    using wins_iff [OF Cons.prems(1)] row by blast
  have dis: "orders_distinct (emit (event (o_id c)) w1)"
    using distinct_kept [OF Cons.prems(1) w1] by simp
  have rows: "\<forall>x \<in> set cs. order_by_id (o_id x) (emit (event (o_id c)) w1) = Some x \<and> guard x"
  proof
    fix x assume x: "x \<in> set cs"
    then have "o_id x \<in> o_id ` set cs" by simp
    then have "o_id x \<noteq> o_id c" using Cons.prems(2) by auto
    then show "order_by_id (o_id x) (emit (event (o_id c)) w1) = Some x \<and> guard x"
      using guarded_other [OF w1 keeps_id] Cons.prems(3) x by simp
  qed
  show ?case
    using Cons.IH [OF dis _ rows] Cons.prems(2) w1 guarded_frame(2) [OF w1]
    by (simp add: step_is)
qed simp

end

interpretation refusal_sweep: guarded_sweep "\<lambda>r. o_status r \<in> set VENDOR_CAN_DECIDE"
  "refuse_patch EXPIRED_REASON now" "\<lambda>i. ORDER_REFUSED i EXPIRED_REASON" "\<lambda>i. auto_refuse i now" for now
  by unfold_locales (simp add: auto_refuse_def map_option_case del: set_VENDOR_CAN_DECIDE)

interpretation promotion: guarded_sweep "\<lambda>r. o_acceptanceDeadlineAt r = None"
  "promote_patch now" ORDER_CREATED "\<lambda>i. promote_one i now" for now
  by unfold_locales (simp add: promote_one_def map_option_case)

text \<open>The fifty rows a sweep reads are rows of the table, each under its own id.\<close>

lemma find_many_rows:
  assumes "orders_distinct w"
  shows "distinct (map o_id (find_many n p (w_orders w)))"
    and "\<forall>c \<in> set (find_many n p (w_orders w)). order_by_id (o_id c) w = Some c \<and> p c"
    and "length (find_many n p (w_orders w)) \<le> n"
proof -
  have "distinct (map o_id (filter p (w_orders w)))"
    using assms by (simp add: orders_distinct_def distinct_map_filter)
  then show "distinct (map o_id (find_many n p (w_orders w)))"
    by (metis distinct_take find_many_def take_map)
  show "\<forall>c \<in> set (find_many n p (w_orders w)). order_by_id (o_id c) w = Some c \<and> p c"
    using find_many_subset [of n p "w_orders w"] order_in_by_id [OF assms] by blast
  show "length (find_many n p (w_orders w)) \<le> n" by (simp add: find_many_def)
qed

lemma upd_where_candidates:
  assumes "orders_distinct w" and "cs = find_many n p (w_orders w)" and "\<And>r. p r \<Longrightarrow> g r"
  shows "upd_where (\<lambda>r. o_id r \<in> o_id ` set cs \<and> g r) f (w_orders w) =
         upd_where (\<lambda>r. r \<in> set cs) f (w_orders w)"
proof -
  have "o_id r \<in> o_id ` set cs \<and> g r \<longleftrightarrow> r \<in> set cs" if "r \<in> set (w_orders w)" for r
  proof
    assume "o_id r \<in> o_id ` set cs \<and> g r"
    then obtain c where c: "c \<in> set cs" "o_id c = o_id r" by auto
    then have "order_by_id (o_id r) w = Some c"
      using find_many_rows(2) [OF assms(1), of n p] assms(2) by metis
    moreover have "order_by_id (o_id r) w = Some r" by (rule order_in_by_id [OF assms(1) that])
    ultimately have "r = c" by simp
    then show "r \<in> set cs" using c(1) by blast
  next
    assume "r \<in> set cs"
    then show "o_id r \<in> o_id ` set cs \<and> g r"
      using find_many_rows(2) [OF assms(1), of n p] assms(2,3) by blast
  qed
  then show ?thesis by (simp add: upd_where_def)
qed

lemma sweepExpired_facts:
  assumes "orders_distinct w" and "cs = find_many 50 (expired_candidate now) (w_orders w)"
  shows "w_orders (sweepExpired now w) =
           upd_where (\<lambda>r. r \<in> set cs) (refuse_patch EXPIRED_REASON now) (w_orders w)
       \<and> w_events (sweepExpired now w) = w_events w @ map (\<lambda>r. ORDER_REFUSED (o_id r) EXPIRED_REASON) cs
       \<and> length cs \<le> 50 \<and> w_ledger (sweepExpired now w) = w_ledger w"
proof -
  have run: "sweepExpired now w = sweep_each (\<lambda>i. auto_refuse i now) cs w"
    by (simp add: sweepExpired_def assms(2) Let_def)
  have cand: "\<And>r. expired_candidate now r \<Longrightarrow> o_status r \<in> set VENDOR_CAN_DECIDE"
    by (simp add: expired_candidate_def)
  have ev: "\<forall>c \<in> set cs. order_by_id (o_id c) w = Some c \<and> o_status c \<in> set VENDOR_CAN_DECIDE"
    using find_many_rows(2) [OF assms(1), of 50 "expired_candidate now"] assms(2) cand by blast
  have dis: "distinct (map o_id cs)"
    unfolding assms(2) by (rule find_many_rows(1) [OF assms(1)])
  have len: "length cs \<le> 50"
    unfolding assms(2) by (rule find_many_rows(3) [OF assms(1)])
  have "w_orders (sweepExpired now w) =
      upd_where (\<lambda>r. r \<in> set cs) (refuse_patch EXPIRED_REASON now) (w_orders w)"
    unfolding run refusal_sweep.sweep_orders by (rule upd_where_candidates [OF assms cand])
  moreover have "w_events (sweepExpired now w) = w_events w @ map (\<lambda>r. ORDER_REFUSED (o_id r) EXPIRED_REASON) cs"
    unfolding run by (rule refusal_sweep.sweep_events [OF assms(1) dis ev])
  moreover have "w_ledger (sweepExpired now w) = w_ledger w"
    unfolding run using refusal_sweep.sweep_frame by blast
  ultimately show ?thesis using len by blast
qed

text \<open>
  One tick of the expiry cron refuses exactly the (at most fifty) overdue undecided orders it
  read, with the no-response reason, emits one event for each of them, and touches no other row.
\<close>

theorem sweepExpired_spec:
  assumes "orders_distinct w" and "cs = find_many 50 (expired_candidate now) (w_orders w)"
  shows "w_orders (sweepExpired now w) =
           upd_where (\<lambda>r. r \<in> set cs) (refuse_patch EXPIRED_REASON now) (w_orders w)
       \<and> w_events (sweepExpired now w) = w_events w @ map (\<lambda>r. ORDER_REFUSED (o_id r) EXPIRED_REASON) cs
       \<and> length cs \<le> 50 \<and> w_ledger (sweepExpired now w) = w_ledger w"
  by (rule sweepExpired_facts [OF assms])

theorem sweepExpired_spec_witness:
  "w_events (sweepExpired 9 (demo_world [(demo_order OS_CONFIRMED PS_PAID)\<lparr>o_acceptanceDeadlineAt := Some 8\<rparr>] []))
   = [ORDER_REFUSED ''O'' EXPIRED_REASON]"
  using sweepExpired_spec [OF _ refl, of "demo_world [(demo_order OS_CONFIRMED PS_PAID)\<lparr>o_acceptanceDeadlineAt := Some 8\<rparr>] []" 9]
  by (simp add: find_many_def expired_candidate_def orders_distinct_def)

lemma promotion_sweep_facts:
  assumes "orders_distinct w" and "cs = find_many 50 (promotion_candidate now) (w_orders w)"
    and "w' = promotion_sweep now w"
  shows "w_orders w' = upd_where (\<lambda>r. r \<in> set cs)
           (\<lambda>r. r\<lparr>o_acceptanceDeadlineAt := Some (now + 60000)\<rparr>) (w_orders w)
       \<and> w_events w' = w_events w @ map (\<lambda>r. ORDER_CREATED (o_id r)) cs
       \<and> (\<forall>c \<in> set cs. promotePreOrder up (o_id c) now' w' = w')"
proof -
  have run: "w' = sweep_each (\<lambda>i. promote_one i now) cs w"
    by (simp add: promotion_sweep_def assms(2,3) Let_def)
  have cand: "\<And>r. promotion_candidate now r \<Longrightarrow> o_acceptanceDeadlineAt r = None"
    by (simp add: promotion_candidate_def promotable_def)
  have ev: "\<forall>c \<in> set cs. order_by_id (o_id c) w = Some c \<and> o_acceptanceDeadlineAt c = None"
    using find_many_rows(2) [OF assms(1), of 50 "promotion_candidate now"] assms(2) cand by blast
  have dis: "distinct (map o_id cs)"
    unfolding assms(2) by (rule find_many_rows(1) [OF assms(1)])
  have orders: "w_orders w' = upd_where (\<lambda>r. r \<in> set cs) (promote_patch now) (w_orders w)"
    unfolding run promotion.sweep_orders by (rule upd_where_candidates [OF assms(1,2) cand])
  have "w_events w' = w_events w @ map (\<lambda>r. ORDER_CREATED (o_id r)) cs"
    unfolding run by (rule promotion.sweep_events [OF assms(1) dis ev])
  moreover have "promotePreOrder up (o_id c) now' w' = w'" if c: "c \<in> set cs" for c
  proof -
    have "order_by_id (o_id c) w' = map_option (\<lambda>r. if r \<in> set cs then promote_patch now r else r)
            (order_by_id (o_id c) w)"
      unfolding order_by_id_def orders by (rule find_row_key_upd) (rule promote.keeps_id)
    then have "order_by_id (o_id c) w' = Some (promote_patch now c)" using ev c by simp
    then show ?thesis by (simp add: promotePreOrder_def promotable_def promote_patch_def)
  qed
  ultimately show ?thesis
    using orders by (simp add: promote_patch_def [abs_def] ACCEPTANCE_TTL_SECONDS_def)
qed

text \<open>
  One tick of the promotion cron opens the 60 second window of exactly the (at most fifty)
  paid, confirmed pre-orders within an hour of their time that have no window yet, announcing
  each once; a second tick at the same moment, or the queue's job for one of them, finds nothing
  left to do.
\<close>

theorem promotion_sweep_spec:
  assumes "orders_distinct w" and "cs = find_many 50 (promotion_candidate now) (w_orders w)"
    and "w' = promotion_sweep now w"
  shows "w_orders w' = upd_where (\<lambda>r. r \<in> set cs)
           (\<lambda>r. r\<lparr>o_acceptanceDeadlineAt := Some (now + 60000)\<rparr>) (w_orders w)
       \<and> w_events w' = w_events w @ map (\<lambda>r. ORDER_CREATED (o_id r)) cs
       \<and> (\<forall>c \<in> set cs. promotePreOrder up (o_id c) now' w' = w')"
  by (rule promotion_sweep_facts [OF assms])

theorem promotion_sweep_spec_witness:
  "let r = (demo_order OS_CONFIRMED PS_PAID)\<lparr>o_scheduledFor := Some 5000\<rparr>
   in w_events (promotion_sweep 9 (demo_world [r] [])) = [ORDER_CREATED ''O'']"
  using promotion_sweep_spec [OF _ refl refl, of "demo_world [(demo_order OS_CONFIRMED PS_PAID)\<lparr>o_scheduledFor := Some 5000\<rparr>] []" 9]
  by (simp add: find_many_def promotion_candidate_def promotable_def orders_distinct_def
      PRE_ORDER_NOTIFICATION_LEAD_MINUTES_def) (simp add: demo_order_def)

text \<open>
  The queue's job and the cron do the same to one order: for an overdue undecided order the job
  leaves the row the sweep leaves.
\<close>

lemma expireVendorDecision_orders:
  "w_orders (expireVendorDecision oid now w) =
   (case order_by_id oid w of
      None \<Rightarrow> w_orders w
    | Some r \<Rightarrow> if o_status r \<in> set VENDOR_CAN_DECIDE
                then upd_where (\<lambda>x. o_id x = oid \<and> o_status x \<in> set VENDOR_CAN_DECIDE)
                       (refuse_patch EXPIRED_REASON now) (w_orders w)
                else w_orders w)"
proof (cases "order_by_id oid w")
  case (Some r)
  then show ?thesis
    using order_by_id_id [OF Some] refusal_sweep.step_orders [where i = oid and w = w and now = now]
    by (auto simp: expireVendorDecision_def)
qed (simp add: expireVendorDecision_def)

lemma expireVendorDecision_keeps:
  "w_ledger (expireVendorDecision oid now w) = w_ledger w"
  "orders_lawful w (expireVendorDecision oid now w)"
  "orders_distinct w \<Longrightarrow> orders_distinct (expireVendorDecision oid now w)"
  using auto_refuse_keeps
  by (auto simp: expireVendorDecision_def split: option.splits)

lemma promote_one_keeps:
  assumes "promote_one oid now w = Some w'"
  shows "w_ledger w' = w_ledger w" and "orders_lawful w w'"
    and "orders_distinct w \<Longrightarrow> orders_distinct w'"
proof -
  obtain w1 where w1: "guarded_updateMany oid (\<lambda>r. o_acceptanceDeadlineAt r = None) (promote_patch now) w = Some w1"
    "w' = emit (ORDER_CREATED oid) w1"
    using assms by (auto simp: promote_one_def split: option.splits)
  show "w_ledger w' = w_ledger w" using guarded_frame(1) [OF w1(1)] w1(2) by simp
  have "lawful r (promote_patch now r)" for r
    by (simp add: lawful_def frozen_def promote_patch_def reach_refl)
  then show "orders_lawful w w'" using orders_lawful_guarded [OF w1(1)] w1(2) by simp
  show "orders_distinct w \<Longrightarrow> orders_distinct w'"
    using promote.distinct_kept [OF _ w1(1)] w1(2) by simp
qed

lemma promotePreOrder_keeps:
  "w_ledger (promotePreOrder up oid now w) = w_ledger w"
  "orders_lawful w (promotePreOrder up oid now w)"
  by (auto simp: promotePreOrder_def promote_one_keeps(1) split: option.splits
      intro: orders_lawful_cong [OF promote_one_keeps(2)])

lemma sweeps_keep_ledger [simp]:
  "w_ledger (sweepExpired now w) = w_ledger w"
  "w_ledger (promotion_sweep now w) = w_ledger w"
  using refusal_sweep.sweep_frame promotion.sweep_frame
  by (simp_all add: sweepExpired_def promotion_sweep_def Let_def)

lemma sweepExpired_lawful [lawful_intros]: "orders_lawful w (sweepExpired now w)"
proof -
  have "orders_lawful w (sweep_each (\<lambda>i. auto_refuse i now) cs w)" for cs
    unfolding orders_lawful_def refusal_sweep.sweep_orders
    by (rule lawful.all2_upd) (use refuse_lawful in blast)
  then show ?thesis by (simp add: sweepExpired_def Let_def)
qed

lemma promotion_sweep_lawful [lawful_intros]: "orders_lawful w (promotion_sweep now w)"
proof -
  have "lawful r (promote_patch now r)" for r
    by (simp add: lawful_def frozen_def promote_patch_def reach_refl)
  then have "orders_lawful w (sweep_each (\<lambda>i. promote_one i now) cs w)" for cs
    unfolding orders_lawful_def promotion.sweep_orders by (rule lawful.all2_upd)
  then show ?thesis by (simp add: promotion_sweep_def Let_def)
qed

lemma process_keeps:
  "w_ledger (process up j now w) = w_ledger w" "orders_lawful w (process up j now w)"
  by (cases j; simp add: expireVendorDecision_keeps promotePreOrder_keeps)+

text \<open>The detector flags exactly the rows picked up more than two hours ago, a hundred at most.\<close>

lemma sweepStuckPickups_sound:
  assumes "(oid, minutes) \<in> set (sweepStuckPickups now w)"
  shows "\<exists>r t. r \<in> set (w_orders w) \<and> o_id r = oid \<and> o_status r = OS_PICKED_UP
     \<and> o_pickedUpAt r = Some t \<and> minutes = (now - t) div 60000 \<and> 120 \<le> minutes"
proof -
  obtain r where r: "r \<in> set (w_orders w)" "stuck_pickup now r" "oid = o_id r"
    "minutes = (case o_pickedUpAt r of None \<Rightarrow> 0 | Some t \<Rightarrow> (now - t) div 60000)"
    using assms by (auto simp: sweepStuckPickups_def dest!: in_set_takeD)
  then obtain t where "o_pickedUpAt r = Some t" "o_status r = OS_PICKED_UP" "t < now - 7200000"
    by (auto simp: stuck_pickup_def STUCK_THRESHOLD_MINUTES_def split: option.splits)
  then show ?thesis using r by (intro exI [of _ r] exI [of _ t]) auto
qed

end
