(* ===== verification/Dispatch.thy ===== *)
theory Dispatch
  imports Order_Timers "HOL-Library.Product_Lexorder" "HOL-Library.Option_ord"
begin

text \<open>
  \<open>modules/dispatch/dispatch.service.ts\<close>: assigning a rider to an accepted order, the retry
  chain, and giving up.  The PostGIS distance between a rider's last position and the vendor is
  the parameter \<open>metres\<close> (metres); everything else of the candidate query is written out.  A
  dispatch is split between the query and the conditional update, so that two dispatches of one
  order can interleave.
\<close>

definition RADIUS_KM_BY_VEHICLE :: "RiderVehicleType \<Rightarrow> rat" where
  "RADIUS_KM_BY_VEHICLE v = (case v of ON_FOOT \<Rightarrow> 1 | BICYCLE \<Rightarrow> 3 | MOTO \<Rightarrow> 7 | CAR \<Rightarrow> 10)"

definition STALE_HEARTBEAT_SECONDS :: int where "STALE_HEARTBEAT_SECONDS = 60"
definition RETRY_INTERVAL_MS :: int where "RETRY_INTERVAL_MS = 30000"
definition MAX_RETRIES :: nat where "MAX_RETRIES = 10"
definition NO_RIDER_AVAILABLE_REASON :: string where
  "NO_RIDER_AVAILABLE_REASON = ''NO_RIDER_AVAILABLE''"

section \<open>Candidates\<close>

definition rider_eligible :: "(uuid \<Rightarrow> uuid \<Rightarrow> rat) \<Rightarrow> uuid \<Rightarrow> time \<Rightarrow> rider \<Rightarrow> bool" where
  "rider_eligible metres vendorId now r \<longleftrightarrow>
     r_status r = RS_ACTIVE \<and> r_isOnline r \<and> r_hasLocation r
     \<and> (case r_lastSeenAt r of None \<Rightarrow> False | Some t \<Rightarrow> t > now - STALE_HEARTBEAT_SECONDS * 1000)
     \<and> metres (r_id r) vendorId \<le> RADIUS_KM_BY_VEHICLE (r_vehicleType r) * 1000"

text \<open>\<open>ORDER BY distance ASC, lastAssignedAt ASC NULLS FIRST LIMIT 1\<close> (\<open>None\<close> is below \<open>Some\<close>).\<close>

definition candidate_key :: "(uuid \<Rightarrow> uuid \<Rightarrow> rat) \<Rightarrow> uuid \<Rightarrow> rider \<Rightarrow> rat \<times> time option" where
  "candidate_key metres vendorId r = (metres (r_id r) vendorId, r_lastAssignedAt r)"

definition find_candidate ::
  "(uuid \<Rightarrow> uuid \<Rightarrow> rat) \<Rightarrow> uuid \<Rightarrow> time \<Rightarrow> world \<Rightarrow> rider option" where
  "find_candidate metres vendorId now w =
     (case sort_key (candidate_key metres vendorId)
             (filter (rider_eligible metres vendorId now) (w_riders w)) of
        [] \<Rightarrow> None
      | r # _ \<Rightarrow> Some r)"

section \<open>One dispatch\<close>

definition logDispatchEvent ::
  "uuid \<Rightarrow> uuid \<Rightarrow> nat \<Rightarrow> DispatchOutcome \<Rightarrow> uuid option \<Rightarrow> world \<Rightarrow> world" where
  "logDispatchEvent orderId vendorId attempt outcm riderId w =
     w\<lparr>w_dispatchEvents := w_dispatchEvents w @
         [\<lparr>de_orderId = orderId, de_vendorId = vendorId, de_attempt = attempt,
           de_outcome = outcm, de_riderId = riderId\<rparr>]\<rparr>"

definition assign_patch :: "uuid \<Rightarrow> time \<Rightarrow> order \<Rightarrow> order" where
  "assign_patch riderId now r = r\<lparr>o_riderId := Some riderId, o_assignedAt := Some now\<rparr>"

definition dispatchOrder_commit ::
  "uuid \<Rightarrow> uuid \<Rightarrow> nat \<Rightarrow> uuid \<Rightarrow> time \<Rightarrow> world \<Rightarrow> uuid option \<times> world" where
  "dispatchOrder_commit orderId vendorId attempt riderId now w =
     (case guarded_updateMany orderId (\<lambda>r. o_riderId r = None) (assign_patch riderId now) w of
        None \<Rightarrow> (None, logDispatchEvent orderId vendorId attempt RACE_LOST (Some riderId) w)
      | Some w1 \<Rightarrow>
          (let w2 = w_riders_update
                      (upd_where (\<lambda>r. r_id r = riderId) (\<lambda>r. r\<lparr>r_lastAssignedAt := Some now\<rparr>)) w1
           in (Some riderId, logDispatchEvent orderId vendorId attempt ASSIGNED (Some riderId) w2)))"

definition dispatchOrder ::
  "(uuid \<Rightarrow> uuid \<Rightarrow> rat) \<Rightarrow> uuid \<Rightarrow> uuid \<Rightarrow> nat \<Rightarrow> time \<Rightarrow> world \<Rightarrow> uuid option \<times> world" where
  "dispatchOrder metres orderId vendorId attempt now w =
     (case order_by_id orderId w of
        None \<Rightarrow> (None, w)
      | Some order \<Rightarrow>
          if o_riderId order \<noteq> None then (None, w)
          else (case vendor_by_id vendorId w of
                  None \<Rightarrow> (None, w)
                | Some vendor \<Rightarrow>
                    (case find_candidate metres (v_id vendor) now w of
                       None \<Rightarrow> (None, logDispatchEvent orderId vendorId attempt NO_CANDIDATE None w)
                     | Some chosen \<Rightarrow>
                         dispatchOrder_commit orderId vendorId attempt (r_id chosen) now w)))"

section \<open>Giving up and retrying\<close>

definition TERMINABLE :: "OrderStatus list" where
  "TERMINABLE = [OS_ACCEPTED, OS_IN_PREP, OS_READY_PICKUP]"

definition no_rider_patch :: "bool \<Rightarrow> time \<Rightarrow> order \<Rightarrow> order" where
  "no_rider_patch isPaid now r =
     (let r1 = r\<lparr>o_status := OS_EXPIRED, o_refusalReason := Some NO_RIDER_AVAILABLE_REASON,
                 o_cancelledAt := Some now\<rparr>
      in if isPaid then r1\<lparr>o_paymentStatus := PS_REFUNDED\<rparr> else r1)"

definition expireForNoRider_commit :: "order \<Rightarrow> time \<Rightarrow> world \<Rightarrow> world" where
  "expireForNoRider_commit order now w =
     (let isPaid = (o_paymentStatus order = PS_PAID)
      in case order_update (o_id order) (no_rider_patch isPaid now) w of
           None \<Rightarrow> w
         | Some w1 \<Rightarrow> emit (ORDER_CANCELLED (o_id order) NO_RIDER_AVAILABLE_REASON) w1)"

definition expireForNoRider :: "uuid \<Rightarrow> time \<Rightarrow> world \<Rightarrow> world" where
  "expireForNoRider orderId now w =
     (case order_by_id orderId w of
        None \<Rightarrow> w
      | Some order \<Rightarrow>
          if o_status order \<notin> set TERMINABLE then w else expireForNoRider_commit order now w)"

text \<open>
  What \<open>tryDispatch\<close> does after the dispatch came back without a rider.  \<open>rejected\<close> is the error
  \<open>retryQueue.add\<close> rejects with, when Redis does not take the job: it leaves \<open>tryDispatch\<close>, and the
  event handler or the worker that called it, as a rejection.
\<close>

definition after_dispatch ::
  "http_error option \<Rightarrow> uuid \<Rightarrow> uuid \<Rightarrow> nat \<Rightarrow> time \<Rightarrow> uuid option \<times> world \<Rightarrow> (unit, world) outcome" where
  "after_dispatch rejected orderId vendorId attempt now res =
     (case res of
        (Some _, w) \<Rightarrow> (Inr (), w)
      | (None, w) \<Rightarrow>
          if attempt < MAX_RETRIES - 1
          then (case rejected of
                  Some e \<Rightarrow> (Inl e, w)
                | None \<Rightarrow> (Inr (), queue_add (orderId @ '':'' @ show_nat (attempt + 1))
                     (DISPATCH_RETRY_JOB orderId vendorId (attempt + 1)) (now + RETRY_INTERVAL_MS) w))
          else (Inr (), expireForNoRider orderId now w))"

definition tryDispatch ::
  "http_error option \<Rightarrow> (uuid \<Rightarrow> uuid \<Rightarrow> rat) \<Rightarrow> uuid \<Rightarrow> uuid \<Rightarrow> nat \<Rightarrow> time \<Rightarrow> world \<Rightarrow> (unit, world) outcome" where
  "tryDispatch rejected metres orderId vendorId attempt now w =
     (case order_by_id orderId w of
        None \<Rightarrow> (Inr (), w)
      | Some current \<Rightarrow>
          if o_riderId current \<noteq> None then (Inr (), w)
          else if o_status current = OS_CANCELLED \<or> o_status current = OS_EXPIRED then (Inr (), w)
          else after_dispatch rejected orderId vendorId attempt now
                 (dispatchOrder metres orderId vendorId (attempt + 1) now w))"

definition onOrderAccepted ::
  "http_error option \<Rightarrow> (uuid \<Rightarrow> uuid \<Rightarrow> rat) \<Rightarrow> uuid \<Rightarrow> uuid \<Rightarrow> time \<Rightarrow> world \<Rightarrow> (unit, world) outcome" where
  "onOrderAccepted rejected metres orderId vendorId now w = tryDispatch rejected metres orderId vendorId 0 now w"

definition runRetry ::
  "http_error option \<Rightarrow> (uuid \<Rightarrow> uuid \<Rightarrow> rat) \<Rightarrow> uuid \<Rightarrow> uuid \<Rightarrow> nat \<Rightarrow> time \<Rightarrow> world \<Rightarrow> (unit, world) outcome" where
  "runRetry rejected metres orderId vendorId attempt now w = tryDispatch rejected metres orderId vendorId attempt now w"

fun process_dispatch ::
  "http_error option \<Rightarrow> (uuid \<Rightarrow> uuid \<Rightarrow> rat) \<Rightarrow> job \<Rightarrow> time \<Rightarrow> world \<Rightarrow> (unit, world) outcome" where
  "process_dispatch rejected metres (DISPATCH_RETRY_JOB orderId vendorId attempt) now w =
     runRetry rejected metres orderId vendorId attempt now w"
| "process_dispatch rejected metres (EXPIRE_VENDOR_DECISION_JOB _) now w = (Inr (), w)"
| "process_dispatch rejected metres (PROMOTE_PRE_ORDER_JOB _) now w = (Inr (), w)"

section \<open>The rider chosen\<close>

text \<open>
  The rider a dispatch picks is online, approved, was heard from within the last minute and
  is within the radius of the vehicle; no other eligible rider is strictly closer, and among the
  equally close none was assigned less recently (never assigned comes first).  None is picked
  only if no rider is eligible.
\<close>

theorem find_candidate_best:
  "(case find_candidate metres vid now w of
      None \<Rightarrow> \<not> (\<exists>r \<in> set (w_riders w). rider_eligible metres vid now r)
    | Some c \<Rightarrow> c \<in> set (w_riders w) \<and> r_status c = RS_ACTIVE \<and> r_isOnline c
        \<and> (\<exists>t. r_lastSeenAt c = Some t \<and> now - 60000 < t)
        \<and> metres (r_id c) vid \<le> RADIUS_KM_BY_VEHICLE (r_vehicleType c) * 1000
        \<and> (\<forall>r \<in> set (w_riders w). rider_eligible metres vid now r \<longrightarrow>
             metres (r_id c) vid < metres (r_id r) vid
             \<or> metres (r_id c) vid = metres (r_id r) vid \<and> r_lastAssignedAt c \<le> r_lastAssignedAt r))"
proof -
  let ?k = "candidate_key metres vid"
  let ?e = "filter (rider_eligible metres vid now) (w_riders w)"
  show ?thesis
  proof (cases "sort_key ?k ?e")
    case Nil
    have "set (sort_key ?k ?e) = set ?e" by simp
    then have "?e = []" using Nil by simp
    then show ?thesis by (auto simp: find_candidate_def filter_empty_conv)
  next
    case (Cons c cs)
    have sorted: "sorted (map ?k (c # cs))" by (metis Cons sorted_sort_key)
    have set: "set (c # cs) = set ?e" by (metis Cons set_sort)
    then have c: "c \<in> set (w_riders w)" "rider_eligible metres vid now c" by auto
    have best: "metres (r_id c) vid < metres (r_id r) vid
        \<or> metres (r_id c) vid = metres (r_id r) vid \<and> r_lastAssignedAt c \<le> r_lastAssignedAt r"
      if "r \<in> set (w_riders w)" "rider_eligible metres vid now r" for r
    proof -
      have "r \<in> set (c # cs)" using set that by simp
      then have "?k c \<le> ?k r" using sorted by auto
      then show ?thesis by (auto simp: candidate_key_def less_eq_prod_def)
    qed
    have seen: "\<exists>t. r_lastSeenAt c = Some t \<and> now - 60000 < t"
      and near: "metres (r_id c) vid \<le> RADIUS_KM_BY_VEHICLE (r_vehicleType c) * 1000"
      and act: "r_status c = RS_ACTIVE" "r_isOnline c"
      using c(2) by (auto simp: rider_eligible_def STALE_HEARTBEAT_SECONDS_def split: option.splits)
    have "find_candidate metres vid now w = Some c" using Cons by (simp add: find_candidate_def)
    then show ?thesis using c(1) seen near act best by simp
  qed
qed



theorem find_candidate_best_witness:
  "\<exists>c. find_candidate (\<lambda>_ _. 500) ''V'' 9 (demo_world [] []) = Some c
       \<and> (\<exists>t. r_lastSeenAt c = Some t \<and> 9 - 60000 < t)"
proof -
  have "rider_eligible (\<lambda>_ _. 500) ''V'' 9 demo_rider"
    by (simp add: rider_eligible_def demo_rider_def STALE_HEARTBEAT_SECONDS_def RADIUS_KM_BY_VEHICLE_def)
  then show ?thesis
    using find_candidate_best [where metres = "\<lambda>_ _. 500" and vid = "''V''"
        and now = 9 and w = "demo_world [] []"]
    by (auto split: option.splits)
qed

section \<open>Assignment\<close>

interpretation assign: guarded_transition "\<lambda>r. o_riderId r = None" "assign_patch rid now" for rid now
  by unfold_locales (simp_all add: assign_patch_def)

lemma logDispatchEvent_frame [simp]:
  "w_orders (logDispatchEvent oid vid n oc r w) = w_orders w"
  "w_ledger (logDispatchEvent oid vid n oc r w) = w_ledger w"
  "w_riders (logDispatchEvent oid vid n oc r w) = w_riders w"
  "w_jobs (logDispatchEvent oid vid n oc r w) = w_jobs w"
  "w_events (logDispatchEvent oid vid n oc r w) = w_events w"
  by (simp_all add: logDispatchEvent_def)

text \<open>
  C25.  Two dispatches of one order that both saw it without a rider assign at most one: the first
  commit stores its rider, the second stores nothing (it only logs \<open>RACE_LOST\<close>), so a rider
  once assigned is never replaced.
\<close>

theorem dispatch_single_assignment:
  assumes "orders_distinct w" and "order_by_id oid w = Some r" and "o_riderId r = None"
    and "dispatchOrder_commit oid vid n a now w = (res, w1)"
    and "dispatchOrder_commit oid vid' n' b now' w1 = (res', w2)"
  shows "res = Some a \<and> res' = None
    \<and> order_by_id oid w2 = Some (r\<lparr>o_riderId := Some a, o_assignedAt := Some now\<rparr>)
    \<and> w_riders w2 = w_riders w1"
proof -
  obtain v where v: "guarded_updateMany oid (\<lambda>r. o_riderId r = None) (assign_patch a now) w = Some v"
    using assign.wins_iff [OF assms(1)] assms(2,3) by blast
  have row: "order_by_id oid v = Some (assign_patch a now r)"
    using guarded_row [OF assms(1) v assign.keeps_id] assms(2) by (metis option.inject)
  have res: "res = Some a" and orders: "w_orders w1 = w_orders v"
    using assms(4) v by (auto simp: dispatchOrder_commit_def Let_def)
  have dis: "orders_distinct w1"
    using assign.distinct_kept [OF assms(1) v] by (simp add: orders_distinct_cong [OF orders])
  have row1: "order_by_id oid w1 = Some (assign_patch a now r)"
    using row by (simp add: order_by_id_cong [OF orders])
  then have "guarded_updateMany oid (\<lambda>r. o_riderId r = None) (assign_patch b now') w1 = None"
    by (simp add: guarded_None [OF dis] assign_patch_def)
  then have "res' = None \<and> w_orders w2 = w_orders w1 \<and> w_riders w2 = w_riders w1"
    using assms(5) by (auto simp: dispatchOrder_commit_def)
  then show ?thesis
    using res row1 order_by_id_cong [of w2 w1] by (auto simp: assign_patch_def)
qed

theorem dispatch_single_assignment_witness:
  "\<exists>res w1 res' w2. dispatchOrder_commit ''O'' ''V'' 1 ''R'' 7
       (demo_world [(demo_order OS_ACCEPTED PS_PAID)\<lparr>o_riderId := None\<rparr>] []) = (res, w1)
     \<and> dispatchOrder_commit ''O'' ''V'' 1 ''S'' 8 w1 = (res', w2) \<and> res = Some ''R'' \<and> res' = None"
proof -
  let ?r = "(demo_order OS_ACCEPTED PS_PAID)\<lparr>o_riderId := None\<rparr>"
  obtain res w1 where 1: "dispatchOrder_commit ''O'' ''V'' 1 ''R'' 7 (demo_world [?r] []) = (res, w1)"
    by fastforce
  obtain res' w2 where 2: "dispatchOrder_commit ''O'' ''V'' 1 ''S'' 8 w1 = (res', w2)" by fastforce
  have "res = Some ''R'' \<and> res' = None"
    using dispatch_single_assignment [OF _ _ _ 1 2, of ?r] by (simp add: orders_distinct_def)
  then show ?thesis using 1 2 by blast
qed

lemma dispatchOrder_commit_keeps:
  "w_ledger (snd (dispatchOrder_commit oid vid n rid now w)) = w_ledger w"
  "orders_lawful w (snd (dispatchOrder_commit oid vid n rid now w))"
  "w_jobs (snd (dispatchOrder_commit oid vid n rid now w)) = w_jobs w"
proof -
  have law: "lawful r (assign_patch rid now r)" for r
    by (simp add: lawful_def frozen_def assign_patch_def reach_refl)
  show "w_ledger (snd (dispatchOrder_commit oid vid n rid now w)) = w_ledger w"
    "w_jobs (snd (dispatchOrder_commit oid vid n rid now w)) = w_jobs w"
    by (auto simp: dispatchOrder_commit_def Let_def split: option.splits dest: guarded_frame)
  show "orders_lawful w (snd (dispatchOrder_commit oid vid n rid now w))"
    by (auto simp: dispatchOrder_commit_def Let_def split: option.splits
        intro: orders_lawful_same orders_lawful_cong [OF orders_lawful_guarded [OF _ law]])
qed

lemma dispatchOrder_keeps:
  "w_ledger (snd (dispatchOrder metres oid vid n now w)) = w_ledger w"
  "orders_lawful w (snd (dispatchOrder metres oid vid n now w))"
  "w_jobs (snd (dispatchOrder metres oid vid n now w)) = w_jobs w"
  by (auto simp: dispatchOrder_def dispatchOrder_commit_keeps split: option.splits
      intro: orders_lawful_same)

section \<open>One attempt, case by case\<close>





section \<open>Giving up\<close>

lemma no_rider_lawful: "o_status r \<in> set TERMINABLE \<Longrightarrow> lawful r (no_rider_patch p now r)"
  by (auto simp: lawful_def frozen_def no_rider_patch_def Let_def TERMINABLE_def intro!: reach_edge)

lemma no_rider_patch_id [simp]: "o_id (no_rider_patch p now r) = o_id r"
  by (simp add: no_rider_patch_def Let_def)

lemma expireForNoRider_keeps:
  "w_ledger (expireForNoRider oid now w) = w_ledger w"
  "orders_distinct w \<Longrightarrow> orders_lawful w (expireForNoRider oid now w)"
proof -
  show "w_ledger (expireForNoRider oid now w) = w_ledger w"
    by (auto simp: expireForNoRider_def expireForNoRider_commit_def order_update_def Let_def
        split: option.splits)
  assume dis: "orders_distinct w"
  show "orders_lawful w (expireForNoRider oid now w)"
    using no_rider_lawful order_by_id_id
    by (auto simp: expireForNoRider_def expireForNoRider_commit_def Let_def
        split: option.splits intro: orders_lawful_update [OF _ dis])
qed

text \<open>
  Giving up does not look at the rider: when a parallel dispatch has just assigned one (the
  last attempt then ends in \<open>RACE_LOST\<close>), the order that has a rider is expired all the same;
  and if it was paid it is marked REFUNDED although nothing is written to the ledger and no
  refund is queued (the refund processor only takes REFUND_PENDING).
\<close>

theorem last_attempt_expires_assigned_order:
  assumes "orders_distinct w" and "order_by_id oid w = Some r" and "o_riderId r = Some other"
    and "o_status r \<in> {OS_ACCEPTED, OS_IN_PREP, OS_READY_PICKUP}" and "o_paymentStatus r = PS_PAID"
  shows "\<exists>w1 w'. dispatchOrder_commit oid vid 10 rid now w = (None, w1)
     \<and> after_dispatch rejected oid vid 9 now (None, w1) = (Inr (), w')
     \<and> (\<exists>r'. order_by_id oid w' = Some r' \<and> o_riderId r' = Some other \<and> o_status r' = OS_EXPIRED
            \<and> o_paymentStatus r' = PS_REFUNDED)
     \<and> w_ledger w' = w_ledger w"
proof -
  have "guarded_updateMany oid (\<lambda>r. o_riderId r = None) (assign_patch rid now) w = None"
    using assms(2,3) by (simp add: guarded_None [OF assms(1)])
  then have d: "dispatchOrder_commit oid vid 10 rid now w =
      (None, logDispatchEvent oid vid 10 RACE_LOST (Some rid) w)" (is "_ = (None, ?w1)")
    by (simp add: dispatchOrder_commit_def)
  have row1: "order_by_id oid ?w1 = Some r"
    using assms(2) by (simp add: order_by_id_cong [of ?w1 w])
  have rid: "o_id r = oid" by (rule order_by_id_id [OF assms(2)])
  let ?w' = "emit (ORDER_CANCELLED oid NO_RIDER_AVAILABLE_REASON)
      (orders_updateMany (\<lambda>x. o_id x = oid) (no_rider_patch True now) ?w1)"
  have "after_dispatch rejected oid vid 9 now (None, ?w1) = (Inr (), ?w')"
    using row1 assms(4,5) rid
    by (auto simp: after_dispatch_def MAX_RETRIES_def expireForNoRider_def TERMINABLE_def
        expireForNoRider_commit_def order_update_def)
  moreover have "order_by_id oid ?w' = Some (no_rider_patch True now r)"
    using row1 rid by (simp add: order_by_id_updateMany)
  ultimately show ?thesis
    using d assms(3) by (simp add: no_rider_patch_def)
qed

theorem last_attempt_expires_assigned_order_witness:
  "\<exists>w1 w'. dispatchOrder_commit ''O'' ''V'' 10 ''S'' 7 (demo_world [demo_order OS_ACCEPTED PS_PAID] []) = (None, w1)
     \<and> after_dispatch None ''O'' ''V'' 9 7 (None, w1) = (Inr (), w') \<and> w_ledger w' = []"
  using last_attempt_expires_assigned_order [of "demo_world [demo_order OS_ACCEPTED PS_PAID] []" "''O''"
      "demo_order OS_ACCEPTED PS_PAID" "''R''" "''V''" "''S''" 7 None]
  by auto

lemma tryDispatch_keeps:
  "w_ledger (snd (tryDispatch rejected metres oid vid n now w)) = w_ledger w"
  "orders_distinct w \<Longrightarrow> orders_lawful w (snd (tryDispatch rejected metres oid vid n now w))"
proof -
  obtain res v where d: "dispatchOrder metres oid vid (n + 1) now w = (res, v)" by fastforce
  have v: "w_ledger v = w_ledger w" "orders_lawful w v"
    using dispatchOrder_keeps [where metres = metres and oid = oid and vid = vid and n = "n + 1" and now = now and w = w] d by simp_all
  show "w_ledger (snd (tryDispatch rejected metres oid vid n now w)) = w_ledger w"
    using d v(1) expireForNoRider_keeps(1)
    by (auto simp: tryDispatch_def after_dispatch_def split: option.splits)
  assume dis: "orders_distinct w"
  then have "orders_distinct v" using orders_lawful_distinct [OF v(2)] by simp
  then have "orders_lawful w (expireForNoRider oid now v)"
    using v(2) expireForNoRider_keeps(2) orders_lawful_trans by blast
  then show "orders_lawful w (snd (tryDispatch rejected metres oid vid n now w))"
    using d v(2)
    by (auto simp: tryDispatch_def after_dispatch_def split: option.splits intro: orders_lawful_cong)
qed

end
