(* ===== verification/Redis.thy ===== *)
theory Redis
  imports Examples Text_Utils
begin

text \<open>
  \<open>infra/redis/redis.service.ts\<close> over the key-value table of the world, and the three services
  that are thin users of it: the per-user JWT revocation (\<open>auth/jwt-revocation.service.ts\<close>, read by
  both passport strategies), the role guard (\<open>shared/guards/roles.guard.ts\<close>) and the idempotency
  interceptor (\<open>shared/interceptors/idempotency.interceptor.ts\<close>).  Redis commands are modelled by
  their documented effect: an entry is a value with an optional expiry instant and is absent from
  that instant on.  The locale \<open>kv_store\<close> is what the users rely on.
\<close>

section \<open>The store\<close>

type_synonym kv = "(string \<times> string \<times> time option) list"

definition live :: "time \<Rightarrow> time option \<Rightarrow> bool" where
  "live now e = (case e of None \<Rightarrow> True | Some t \<Rightarrow> now < t)"

definition kv_get :: "time \<Rightarrow> string \<Rightarrow> kv \<Rightarrow> string option" where
  "kv_get now k s =
     (case find_row (\<lambda>e. fst e = k) s of
        None \<Rightarrow> None
      | Some (_, v, e) \<Rightarrow> if live now e then Some v else None)"

definition kv_expiry :: "time \<Rightarrow> string \<Rightarrow> kv \<Rightarrow> time option" where
  "kv_expiry now k s =
     (case find_row (\<lambda>e. fst e = k) s of
        None \<Rightarrow> None
      | Some (_, v, e) \<Rightarrow> if live now e then e else None)"

definition kv_del :: "string \<Rightarrow> kv \<Rightarrow> kv" where
  "kv_del k s = filter (\<lambda>e. fst e \<noteq> k) s"

definition kv_put :: "string \<Rightarrow> string \<Rightarrow> time option \<Rightarrow> kv \<Rightarrow> kv" where
  "kv_put k v e s = (k, v, e) # kv_del k s"

lemma find_kv_del: "find_row (\<lambda>e. fst e = k) (kv_del j s) =
  (if k = j then None else find_row (\<lambda>e. fst e = k) s)"
  by (induction s) (auto simp: kv_del_def)

locale kv_store =
  fixes lookup :: "time \<Rightarrow> string \<Rightarrow> 's \<Rightarrow> string option"
    and put :: "string \<Rightarrow> string \<Rightarrow> time option \<Rightarrow> 's \<Rightarrow> 's"
    and del :: "string \<Rightarrow> 's \<Rightarrow> 's"
  assumes lookup_put: "lookup now k (put j v e s) =
      (if k = j then if live now e then Some v else None else lookup now k s)"
    and lookup_del: "lookup now k (del j s) = (if k = j then None else lookup now k s)"
begin

text \<open>A value written with a time to live is seen until its last millisecond, and not after.\<close>

lemma lookup_ttl:
  "lookup now k (put k v (Some (t + ttl * 1000)) s) = (if now < t + ttl * 1000 then Some v else None)"
  by (simp add: lookup_put live_def)

lemma put_del: "lookup now k (del k (put k v e s)) = None"
  by (simp add: lookup_del)

end

interpretation kv: kv_store kv_get kv_put kv_del
  by unfold_locales (auto simp: kv_get_def kv_put_def find_kv_del)

section \<open>RedisService\<close>

definition redis_get :: "string \<Rightarrow> time \<Rightarrow> world \<Rightarrow> string option" where
  "redis_get key now w = kv_get now key (w_redis w)"

definition setWithTTL :: "string \<Rightarrow> string \<Rightarrow> int \<Rightarrow> time \<Rightarrow> world \<Rightarrow> world" where
  "setWithTTL key v ttlSeconds now w =
     w\<lparr>w_redis := kv_put key v (Some (now + ttlSeconds * 1000)) (w_redis w)\<rparr>"

definition setNX :: "string \<Rightarrow> string \<Rightarrow> int \<Rightarrow> time \<Rightarrow> world \<Rightarrow> bool \<times> world" where
  "setNX key v ttlSeconds now w =
     (case redis_get key now w of
        Some _ \<Rightarrow> (False, w)
      | None \<Rightarrow> (True, setWithTTL key v ttlSeconds now w))"

text \<open>\<open>INCR\<close> then \<open>EXPIRE ... NX\<close>: the time to live is set on the first hit only.\<close>

definition incrWithTTL :: "string \<Rightarrow> int \<Rightarrow> time \<Rightarrow> world \<Rightarrow> nat \<times> world" where
  "incrWithTTL key ttlSeconds now w =
     (let n = (case redis_get key now w of None \<Rightarrow> 0 | Some v \<Rightarrow> read_nat v) + 1;
          e = (case kv_expiry now key (w_redis w) of
                 Some t \<Rightarrow> Some t | None \<Rightarrow> Some (now + ttlSeconds * 1000))
      in (n, w\<lparr>w_redis := kv_put key (show_nat n) e (w_redis w)\<rparr>))"

definition redis_del :: "string \<Rightarrow> world \<Rightarrow> world" where
  "redis_del key w = w\<lparr>w_redis := kv_del key (w_redis w)\<rparr>"

lemma redis_frame [simp]:
  "w_orders (setWithTTL k v t now w) = w_orders w" "w_ledger (setWithTTL k v t now w) = w_ledger w"
  "w_riders (setWithTTL k v t now w) = w_riders w" "w_vendors (setWithTTL k v t now w) = w_vendors w"
  "w_orders (redis_del k w) = w_orders w" "w_ledger (redis_del k w) = w_ledger w"
  by (simp_all add: setWithTTL_def redis_del_def)

lemma redis_get_simps [simp]:
  "redis_get k now (setWithTTL j v ttl t w) =
     (if k = j then if now < t + ttl * 1000 then Some v else None else redis_get k now w)"
  "redis_get k now (redis_del j w) = (if k = j then None else redis_get k now w)"
  by (simp_all add: redis_get_def setWithTTL_def redis_del_def kv.lookup_put kv.lookup_del live_def)

section \<open>Instant revocation\<close>

definition revokedKey :: "uuid \<Rightarrow> string" where "revokedKey userId = ''user:revoked:'' @ userId"

text \<open>\<open>refreshTtlMs\<close> is \<open>parseDurationMs(env.jwtRefreshTtl)\<close>.\<close>

definition revokeUser :: "int \<Rightarrow> uuid \<Rightarrow> time \<Rightarrow> world \<Rightarrow> world" where
  "revokeUser refreshTtlMs userId now w =
     (let ttlSeconds = \<lceil>(of_int refreshTtlMs :: rat) / 1000\<rceil>
      in setWithTTL (revokedKey userId) ''1'' ttlSeconds now w)"

definition reactivateUser :: "uuid \<Rightarrow> world \<Rightarrow> world" where
  "reactivateUser userId w = redis_del (revokedKey userId) w"

definition isRevoked :: "uuid \<Rightarrow> time \<Rightarrow> world \<Rightarrow> bool" where
  "isRevoked userId now w = (redis_get (revokedKey userId) now w \<noteq> None)"

text \<open>\<open>JwtStrategy.validate\<close>, after passport has checked signature and expiry.\<close>

definition jwt_validate :: "uuid \<Rightarrow> UserRole \<Rightarrow> time \<Rightarrow> world \<Rightarrow> http_error + (uuid \<times> UserRole)" where
  "jwt_validate sub role now w =
     (if isRevoked sub now w then Inl (Unauthorized ''account_suspended'') else Inr (sub, role))"

lemma revokedKey_eq [simp]: "revokedKey a = revokedKey b \<longleftrightarrow> a = b"
  by (simp add: revokedKey_def)

lemma revoked_until:
  assumes "now \<le> t" and "t < now + refreshTtlMs"
  shows "jwt_validate u role t (revokeUser refreshTtlMs u now w) = Inl (Unauthorized ''account_suspended'')"
proof -
  have "(of_int refreshTtlMs :: rat) / 1000 \<le> of_int \<lceil>(of_int refreshTtlMs :: rat) / 1000\<rceil>"
    by (rule le_of_int_ceiling)
  then have "(of_int refreshTtlMs :: rat) \<le> of_int \<lceil>(of_int refreshTtlMs :: rat) / 1000\<rceil> * 1000"
    by linarith
  then have "(of_int refreshTtlMs :: rat) \<le> of_int (\<lceil>(of_int refreshTtlMs :: rat) / 1000\<rceil> * 1000)"
    by simp
  then have "refreshTtlMs \<le> \<lceil>(of_int refreshTtlMs :: rat) / 1000\<rceil> * 1000" by (simp only: of_int_le_iff)
  then show ?thesis
    using assms by (auto simp: jwt_validate_def isRevoked_def revokeUser_def)
qed

lemma revoked_other: "v \<noteq> u \<Longrightarrow> jwt_validate v role t (revokeUser ttl u now w) = jwt_validate v role t w"
  by (simp add: jwt_validate_def isRevoked_def revokeUser_def)

text \<open>
  Revoking a user locks out every token of that user at once and for at least the longest life
  a token can have, whatever tokens were issued before, and no other user is affected.
\<close>

theorem revocation_outlives_tokens:
  assumes "now \<le> t" and "t < now + refreshTtlMs"
  shows "jwt_validate u role t (revokeUser refreshTtlMs u now w) = Inl (Unauthorized ''account_suspended'')
       \<and> (v \<noteq> u \<longrightarrow> jwt_validate v role t (revokeUser refreshTtlMs u now w) = jwt_validate v role t w)"
  using revoked_until [OF assms] revoked_other by blast

theorem revocation_outlives_tokens_witness:
  "jwt_validate ''W'' RIDER 500 (revokeUser 1500 ''W'' 0 (demo_world [] [])) = Inl (Unauthorized ''account_suspended'')"
  using revocation_outlives_tokens [of 0 500 1500 "''W''" RIDER "demo_world [] []"] by simp

lemma reactivate_restores: "jwt_validate u role now (reactivateUser u w) = Inr (u, role)"
  by (simp add: jwt_validate_def isRevoked_def reactivateUser_def)

section \<open>Roles\<close>

text \<open>\<open>RolesGuard.canActivate\<close>: the \<open>@Roles()\<close> list (absent = None) and \<open>req.user\<close>.\<close>

definition canActivate :: "UserRole list option \<Rightarrow> UserRole option \<Rightarrow> http_error + bool" where
  "canActivate allowed user =
     (case allowed of
        None \<Rightarrow> Inr True
      | Some rs \<Rightarrow>
          if rs = [] then Inr True
          else (case user of
                  None \<Rightarrow> Inl (Forbidden ''forbidden'')
                | Some role \<Rightarrow>
                    if role = SUPER_ADMIN then Inr True
                    else if role \<in> set rs then Inr True
                    else Inl (Forbidden ''insufficient_role'')))"

lemma canActivate_iff:
  "canActivate allowed user = Inr True \<longleftrightarrow>
   allowed = None \<or> allowed = Some [] \<or> user = Some SUPER_ADMIN
   \<or> (\<exists>rs role. allowed = Some rs \<and> user = Some role \<and> role \<in> set rs)"
  by (auto simp: canActivate_def split: option.splits)

section \<open>The idempotency interceptor\<close>

text \<open>
  A response body is its JSON text; \<open>JSON.stringify({ body })\<close> wraps it and \<open>JSON.parse(...).body\<close>
  takes it out again.  The handler of the route is the parameter \<open>handle\<close>.
\<close>

definition json_body :: "string \<Rightarrow> string" where
  "json_body b = CHR ''{'' # CHR 0x22 # ''body'' @ CHR 0x22 # CHR '':'' # b @ ''}''"
definition parsed_body :: "string \<Rightarrow> string" where "parsed_body s = butlast (drop 8 s)"

definition idem_cacheKey :: "string \<Rightarrow> string \<Rightarrow> string \<Rightarrow> string" where
  "idem_cacheKey httpMethod path key = ''idem:'' @ httpMethod @ '':'' @ path @ '':'' @ key"

text \<open>After a lookup that found nothing: the result of \<open>setNX\<close> is not looked at.\<close>

definition idem_run ::
  "string \<Rightarrow> int \<Rightarrow> (world \<Rightarrow> (string, world) outcome) \<Rightarrow> time \<Rightarrow> world \<Rightarrow> (string, world) outcome" where
  "idem_run cacheKey ttl handle now w =
     (case handle (snd (setNX cacheKey ''IN_FLIGHT'' ttl now w)) of
        (Inl e, w2) \<Rightarrow> (Inl e, w2)
      | (Inr body, w2) \<Rightarrow> (Inr body, setWithTTL cacheKey (json_body body) ttl now w2))"

definition idem_intercept ::
  "string option \<Rightarrow> string \<Rightarrow> string \<Rightarrow> int \<Rightarrow> (world \<Rightarrow> (string, world) outcome) \<Rightarrow> time \<Rightarrow> world
     \<Rightarrow> (string, world) outcome" where
  "idem_intercept key httpMethod path ttl handle now w =
     (if falsy key then (Inl (BadRequest ''missing_idempotency_key''), w)
      else if length (the key) > 200 then (Inl (BadRequest ''idempotency_key_too_long''), w)
      else
        (let cacheKey = idem_cacheKey httpMethod path (the key);
             cached = redis_get cacheKey now w
         in if cached = Some ''IN_FLIGHT'' then (Inl (Conflict ''idempotency_in_flight''), w)
            else if \<not> falsy cached then (Inr (parsed_body (the cached)), w)
            else idem_run cacheKey ttl handle now w))"

lemma parsed_json_body [simp]: "parsed_body (json_body b) = b"
  by (simp add: parsed_body_def json_body_def butlast_append)

lemma json_body_not_empty [simp]: "json_body b \<noteq> []" "json_body b \<noteq> ''IN_FLIGHT''"
  by (simp_all add: json_body_def)

text \<open>
  A request that was answered once is answered the same for the life of the key: a retry gets
  the stored body, the handler does not run again and nothing changes.
\<close>

theorem idempotent_replay:
  assumes "idem_intercept key m path ttl handle now w = (Inr body, w')"
    and "redis_get (idem_cacheKey m path (the key)) now w = None"
    and "t < now + ttl * 1000"
  shows "idem_intercept key m path ttl' handle' t w' = (Inr body, w')"
proof -
  let ?k = "idem_cacheKey m path (the key)"
  obtain w2 where "\<not> falsy key" "length (the key) \<le> 200" "w' = setWithTTL ?k (json_body body) ttl now w2"
    using assms(1,2)
    by (auto simp: idem_intercept_def idem_run_def Let_def split: if_splits prod.splits sum.splits)
  then show ?thesis using assms(3) by (auto simp: idem_intercept_def)
qed

theorem idempotent_replay_witness:
  "\<exists>w'. idem_intercept (Some ''k'') ''POST'' ''/pay'' 60 (\<lambda>v. (Inr ''ok'', v)) 0 (demo_world [] []) = (Inr ''ok'', w')
        \<and> idem_intercept (Some ''k'') ''POST'' ''/pay'' 60 (\<lambda>v. (Inr ''other'', v)) 5 w' = (Inr ''ok'', w')"
proof -
  have none: "redis_get k 0 (demo_world [] []) = None" for k by (simp add: redis_get_def kv_get_def)
  then obtain w' where run: "idem_intercept (Some ''k'') ''POST'' ''/pay'' 60 (\<lambda>v. (Inr ''ok'', v)) 0
      (demo_world [] []) = (Inr ''ok'', w')"
    by (simp add: idem_intercept_def idem_run_def setNX_def Let_def)
  show ?thesis using idempotent_replay [OF run none, of 5] run by auto
qed

text \<open>
  Two limits of the protection: a handler that fails leaves the key marked in flight, so every
  retry is refused until the key expires; and a second request that looked the key up before the
  first one marked it runs the handler a second time, because the result of the atomic
  \<open>SET NX\<close> is ignored.
\<close>

theorem idempotency_gaps:
  assumes "\<not> falsy key" and "length (the key) \<le> 200"
    and "redis_get (idem_cacheKey m path (the key)) now w = None"
    and "\<And>v. w_redis (snd (handle v)) = w_redis v"
  shows "(\<forall>e w'. idem_intercept key m path ttl handle now w = (Inl e, w') \<and> t < now + ttl * 1000 \<longrightarrow>
            idem_intercept key m path ttl handle' t w' = (Inl (Conflict ''idempotency_in_flight''), w'))
       \<and> (redis_get (idem_cacheKey m path (the key)) now v \<noteq> None \<longrightarrow>
            fst (idem_run (idem_cacheKey m path (the key)) ttl handle now v) = fst (handle v))"
proof (intro conjI allI impI)
  let ?k = "idem_cacheKey m path (the key)"
  fix e w' assume a: "idem_intercept key m path ttl handle now w = (Inl e, w') \<and> t < now + ttl * 1000"
  have "w' = snd (handle (setWithTTL ?k ''IN_FLIGHT'' ttl now w))"
    using a assms(1-3)
    by (auto simp: idem_intercept_def idem_run_def setNX_def Let_def split: prod.splits sum.splits)
  then have "w_redis w' = w_redis (setWithTTL ?k ''IN_FLIGHT'' ttl now w)" by (simp add: assms(4))
  then have "redis_get ?k t w' = redis_get ?k t (setWithTTL ?k ''IN_FLIGHT'' ttl now w)"
    by (simp only: redis_get_def)
  then have "redis_get ?k t w' = Some ''IN_FLIGHT''" using a by simp
  then show "idem_intercept key m path ttl handle' t w' = (Inl (Conflict ''idempotency_in_flight''), w')"
    using assms(1,2) by (simp add: idem_intercept_def)
next
  let ?k = "idem_cacheKey m path (the key)"
  assume "redis_get ?k now v \<noteq> None"
  then have "setNX ?k ''IN_FLIGHT'' ttl now v = (False, v)" by (auto simp: setNX_def)
  then show "fst (idem_run ?k ttl handle now v) = fst (handle v)"
    by (auto simp: idem_run_def split: prod.splits sum.splits)
qed

theorem idempotency_gaps_witness:
  "\<exists>w'. idem_intercept (Some ''k'') ''POST'' ''/pay'' 60 (\<lambda>v. (Inl (Conflict ''x''), v)) 0 (demo_world [] [])
          = (Inl (Conflict ''x''), w')
        \<and> idem_intercept (Some ''k'') ''POST'' ''/pay'' 60 (\<lambda>v. (Inr ''ok'', v)) 5 w'
          = (Inl (Conflict ''idempotency_in_flight''), w')"
proof -
  let ?h = "\<lambda>v. (Inl (Conflict ''x''), v) :: (string, world) outcome"
  have none: "redis_get k 0 (demo_world [] []) = None" for k by (simp add: redis_get_def kv_get_def)
  then obtain w' where run: "idem_intercept (Some ''k'') ''POST'' ''/pay'' 60 ?h 0 (demo_world [] [])
      = (Inl (Conflict ''x''), w')"
    by (simp add: idem_intercept_def idem_run_def setNX_def Let_def)
  show ?thesis
    using idempotency_gaps [of "Some ''k''" "''POST''" "''/pay''" 0 "demo_world [] []" ?h 60 5] none run
    by auto
qed

end
