(* ===== verification/Delivery.thy ===== *)
theory Delivery
  imports Dispatch Redis
begin

text \<open>
  The rider's side of an order (\<open>modules/riders/riders.service.ts\<close>: availability, heartbeat,
  courses, pickup and delivery with their confirmation codes) and the admin's resolution of a
  delivery that never arrived (\<open>modules/admin/admin-rider-fraud.service.ts\<close>).
\<close>

section \<open>The rider\<close>

definition rider_of_user :: "uuid \<Rightarrow> world \<Rightarrow> rider option" where
  "rider_of_user userId w = find_row (\<lambda>r. r_userId r = userId) (w_riders w)"

definition rider_by_id :: "uuid \<Rightarrow> world \<Rightarrow> rider option" where
  "rider_by_id i w = find_row (\<lambda>r. r_id r = i) (w_riders w)"

definition riders_updateMany :: "(rider \<Rightarrow> bool) \<Rightarrow> (rider \<Rightarrow> rider) \<Rightarrow> world \<Rightarrow> world" where
  "riders_updateMany p f w = w_riders_update (upd_where p f) w"

definition getOwnId :: "uuid \<Rightarrow> world \<Rightarrow> http_error + uuid" where
  "getOwnId userId w =
     (case rider_of_user userId w of
        None \<Rightarrow> Inl (NotFound ''rider_not_found'')
      | Some r \<Rightarrow> Inr (r_id r))"

definition setAvailability :: "uuid \<Rightarrow> bool \<Rightarrow> time \<Rightarrow> world \<Rightarrow> (bool, world) outcome" where
  "setAvailability userId isOnline now w =
     (case rider_of_user userId w of
        None \<Rightarrow> (Inl (NotFound ''rider_not_found''), w)
      | Some rider \<Rightarrow>
          if r_status rider \<noteq> RS_ACTIVE then (Inl (BadRequest ''rider_not_active''), w)
          else (Inr isOnline,
                riders_updateMany (\<lambda>r. r_id r = r_id rider)
                  (\<lambda>r. r\<lparr>r_isOnline := isOnline,
                         r_lastSeenAt := (if isOnline then Some now else r_lastSeenAt r)\<rparr>) w))"

definition pushHeartbeat :: "uuid \<Rightarrow> time \<Rightarrow> world \<Rightarrow> (bool, world) outcome" where
  "pushHeartbeat userId now w =
     (case rider_of_user userId w of
        None \<Rightarrow> (Inl (NotFound ''rider_not_found''), w)
      | Some rider \<Rightarrow>
          if r_status rider \<noteq> RS_ACTIVE then (Inl (BadRequest ''rider_not_active''), w)
          else (Inr True,
                riders_updateMany (\<lambda>r. r_id r = r_id rider)
                  (\<lambda>r. r\<lparr>r_hasLocation := True, r_lastSeenAt := Some now, r_isOnline := True\<rparr>) w))"

definition listCourses :: "uuid \<Rightarrow> world \<Rightarrow> http_error + order list" where
  "listCourses userId w =
     (case rider_of_user userId w of
        None \<Rightarrow> Inl (NotFound ''rider_not_found'')
      | Some rider \<Rightarrow>
          Inr (sort_key (\<lambda>r. case o_assignedAt r of None \<Rightarrow> (0::int, 0) | Some t \<Rightarrow> (1, - t))
                (filter (\<lambda>r. o_riderId r = Some (r_id rider)
                     \<and> o_status r \<in> set [OS_ACCEPTED, OS_IN_PREP, OS_READY_PICKUP, OS_PICKED_UP])
                  (w_orders w))))"

section \<open>Pickup and delivery\<close>

definition requireRiderOrder :: "uuid \<Rightarrow> uuid \<Rightarrow> world \<Rightarrow> http_error + order" where
  "requireRiderOrder userId orderId w =
     (case rider_of_user userId w of
        None \<Rightarrow> Inl (NotFound ''rider_not_found'')
      | Some rider \<Rightarrow>
          (case order_by_id orderId w of
             None \<Rightarrow> Inl (NotFound ''order_not_found'')
           | Some order \<Rightarrow>
               if o_riderId order \<noteq> Some (r_id rider) then Inl (NotFound ''order_not_found'')
               else Inr order))"

definition PICKUPABLE :: "OrderStatus list" where
  "PICKUPABLE = [OS_ACCEPTED, OS_IN_PREP, OS_READY_PICKUP]"

definition pickup_patch :: "time \<Rightarrow> order \<Rightarrow> order" where
  "pickup_patch now r = r\<lparr>o_status := OS_PICKED_UP, o_pickedUpAt := Some now\<rparr>"

text \<open>The write is an unguarded \<open>order.update\<close>.\<close>

definition markPickedUp_commit :: "order \<Rightarrow> time \<Rightarrow> world \<Rightarrow> (order option, world) outcome" where
  "markPickedUp_commit order now w =
     (case order_update (o_id order) (pickup_patch now) w of
        None \<Rightarrow> (Inl (PrismaError ''P2025''), w)
      | Some w1 \<Rightarrow> (Inr (order_by_id (o_id order) w1), w1))"

definition markPickedUp :: "uuid \<Rightarrow> uuid \<Rightarrow> string \<Rightarrow> time \<Rightarrow> world \<Rightarrow> (order option, world) outcome" where
  "markPickedUp userId orderId submittedCode now w =
     (case requireRiderOrder userId orderId w of
        Inl e \<Rightarrow> (Inl e, w)
      | Inr order \<Rightarrow>
          if o_status order \<notin> set PICKUPABLE then (Inl (Conflict ''order_not_pickupable''), w)
          else if submittedCode \<noteq> o_pickupCode order then (Inl (Conflict ''wrong_pickup_code''), w)
          else markPickedUp_commit order now w)"

definition deliver_patch :: "time \<Rightarrow> order \<Rightarrow> order" where
  "deliver_patch now r = r\<lparr>o_status := OS_DELIVERED, o_deliveredAt := Some now\<rparr>"

definition delivery_transaction :: "order \<Rightarrow> xaf \<Rightarrow> xaf \<Rightarrow> xaf \<Rightarrow> transaction_input" where
  "delivery_transaction order vendorPayableXAF riderShareXAF platformFeeXAF =
     \<lparr>t_eventId = ''delivery:'' @ o_id order, t_eventType = ORDER_DELIVERED,
      t_entries =
        [order_leg CUSTOMER_ESCROW (o_totalXAF order) (o_id order)
           (''Escrow released on delivery of '' @ o_code order),
         (order_leg VENDOR_PAYABLE (- vendorPayableXAF) (o_id order) ''Vendor share of delivered order'')
           \<lparr>e_vendorId := Some (o_vendorId order)\<rparr>,
         (order_leg RIDER_PAYABLE (- riderShareXAF) (o_id order) ''Rider share of delivered order'')
           \<lparr>e_riderId := o_riderId order\<rparr>,
         order_leg PLATFORM_REVENUE (- platformFeeXAF) (o_id order)
           ''Platform fee (commission + delivery margin)'']\<rparr>"

definition markDelivered_commit ::
  "order \<Rightarrow> xaf \<Rightarrow> xaf \<Rightarrow> xaf \<Rightarrow> time \<Rightarrow> world \<Rightarrow> (order option, world) outcome" where
  "markDelivered_commit order commissionXAF riderShareXAF platformFeeXAF now w =
     (let vendorPayableXAF = o_subtotalXAF order - commissionXAF
      in case guarded_updateMany (o_id order) (\<lambda>r. o_status r = OS_PICKED_UP) (deliver_patch now) w of
           None \<Rightarrow> (Inl (Conflict ''order_state_changed''), w)
         | Some w1 \<Rightarrow>
             (case recordTransaction
                     (delivery_transaction order vendorPayableXAF riderShareXAF platformFeeXAF) now w1 of
                (Inl e, _) \<Rightarrow> (Inl e, w)
              | (Inr _, w2) \<Rightarrow> (Inr (order_by_id (o_id order) w2), w2)))"

definition markDelivered :: "uuid \<Rightarrow> uuid \<Rightarrow> string \<Rightarrow> time \<Rightarrow> world \<Rightarrow> (order option, world) outcome" where
  "markDelivered userId orderId submittedCode now w =
     (case requireRiderOrder userId orderId w of
        Inl e \<Rightarrow> (Inl e, w)
      | Inr order \<Rightarrow>
          if o_status order \<noteq> OS_PICKED_UP then (Inl (Conflict ''order_not_in_delivery''), w)
          else if submittedCode \<noteq> o_deliveryCode order then (Inl (Conflict ''wrong_delivery_code''), w)
          else (case (o_commissionXAF order, o_riderShareXAF order, o_platformFeeXAF order) of
                  (Some c, Some s, Some f) \<Rightarrow> markDelivered_commit order c s f now w
                | _ \<Rightarrow> (Inl (Conflict ''order_missing_finance_snapshot''), w)))"

section \<open>Rider fraud\<close>

datatype RiderFraudAction = SUSPEND | WARN

definition RIDER_FRAUD_WARN_DECREMENT :: int where "RIDER_FRAUD_WARN_DECREMENT = 20"

record ResolveRiderFraudInput =
  rf_riderAction :: RiderFraudAction
  rf_vendorCompensation :: bool
  rf_consumerRefund :: bool
  rf_note :: string

record fraud_result =
  fr_consumerRefundQueued :: bool
  fr_vendorCompensationXAF :: xaf
  fr_riderSuspended :: bool

definition fraud_patch :: "ResolveRiderFraudInput \<Rightarrow> order \<Rightarrow> time \<Rightarrow> order \<Rightarrow> order" where
  "fraud_patch input order now r =
     (let r1 = r\<lparr>o_status := OS_CANCELLED, o_cancelledAt := Some now,
                 o_refusalReason := Some (''RIDER_FRAUD: '' @ rf_note input)\<rparr>
      in if rf_consumerRefund input \<and> o_paymentStatus order = PS_PAID
         then r1\<lparr>o_paymentStatus := PS_REFUND_PENDING\<rparr> else r1)"

definition compensation_transaction :: "order \<Rightarrow> xaf \<Rightarrow> transaction_input" where
  "compensation_transaction order amount =
     \<lparr>t_eventId = ''rider_fraud_vendor_compensation:'' @ o_id order, t_eventType = ADJUSTMENT,
      t_entries =
        [(order_leg PLATFORM_REVENUE amount (o_id order)
            (''Rider fraud - platform compensates vendor for order '' @ o_code order @ '' (rider stole food)''))
            \<lparr>e_vendorId := Some (o_vendorId order)\<rparr>,
         (order_leg VENDOR_PAYABLE (- amount) (o_id order)
            (''Vendor compensation for rider-stolen order '' @ o_code order))
            \<lparr>e_vendorId := Some (o_vendorId order)\<rparr>]\<rparr>"

text \<open>The rider part of the transaction: the rider row, and whether a suspension happened.\<close>

definition fraud_rider_action ::
  "int \<Rightarrow> RiderFraudAction \<Rightarrow> uuid \<Rightarrow> time \<Rightarrow> world \<Rightarrow> bool \<times> world" where
  "fraud_rider_action refreshTtlMs action riderId now w =
     (case action of
        SUSPEND \<Rightarrow>
          (case rider_by_id riderId w of
             None \<Rightarrow> (False, w)
           | Some rider \<Rightarrow>
               (True, revokeUser refreshTtlMs (r_userId rider) now
                  (riders_updateMany (\<lambda>r. r_id r = riderId) (\<lambda>r. r\<lparr>r_status := RS_SUSPENDED\<rparr>) w)))
      | WARN \<Rightarrow>
          (False, riders_updateMany (\<lambda>r. r_id r = riderId)
             (\<lambda>r. r\<lparr>r_reliabilityScore := r_reliabilityScore r - RIDER_FRAUD_WARN_DECREMENT\<rparr>) w))"

definition resolveRiderFraud_commit ::
  "int \<Rightarrow> order \<Rightarrow> uuid \<Rightarrow> ResolveRiderFraudInput \<Rightarrow> xaf \<Rightarrow> time \<Rightarrow> world \<Rightarrow> (fraud_result, world) outcome" where
  "resolveRiderFraud_commit refreshTtlMs order riderId input vendorCompensationXAF now w =
     (case guarded_updateMany (o_id order) (\<lambda>r. o_status r = OS_PICKED_UP) (fraud_patch input order now) w of
        None \<Rightarrow> (Inl (Conflict ''order_state_changed''), w)
      | Some w1 \<Rightarrow>
          (case (if rf_vendorCompensation input \<and> vendorCompensationXAF > 0
                 then recordTransaction (compensation_transaction order vendorCompensationXAF) now w1
                 else (Inr (), w1)) of
             (Inl e, _) \<Rightarrow> (Inl e, w)
           | (Inr _, w2) \<Rightarrow>
               (let (suspended, w3) = fraud_rider_action refreshTtlMs (rf_riderAction input) riderId now w2
                in (Inr \<lparr>fr_consumerRefundQueued = (rf_consumerRefund input \<and> o_paymentStatus order = PS_PAID),
                         fr_vendorCompensationXAF = vendorCompensationXAF,
                         fr_riderSuspended = suspended\<rparr>, w3))))"

definition resolveRiderFraud ::
  "int \<Rightarrow> uuid \<Rightarrow> ResolveRiderFraudInput \<Rightarrow> time \<Rightarrow> world \<Rightarrow> (fraud_result, world) outcome" where
  "resolveRiderFraud refreshTtlMs orderId input now w =
     (case order_by_id orderId w of
        None \<Rightarrow> (Inl (NotFound ''order_not_found''), w)
      | Some order \<Rightarrow>
          if o_status order \<noteq> OS_PICKED_UP then (Inl (Conflict ''order_not_in_pickup''), w)
          else if falsy (o_riderId order) then (Inl (Conflict ''order_has_no_rider''), w)
          else if rf_vendorCompensation input \<and> o_commissionXAF order = None
          then (Inl (Conflict ''order_missing_finance_snapshot''), w)
          else
            (let vendorCompensationXAF =
                   (if rf_vendorCompensation input
                    then o_subtotalXAF order
                           - (case o_commissionXAF order of None \<Rightarrow> 0 | Some c \<Rightarrow> c) else 0)
             in resolveRiderFraud_commit refreshTtlMs order (the (o_riderId order)) input
                  vendorCompensationXAF now w))"

text \<open>The admin's list of stuck pickups: the rows the detector flags, with names.\<close>

record StuckPickupItem =
  sp_orderId :: uuid
  sp_code :: string
  sp_vendorName :: string
  sp_riderId :: "uuid option"
  sp_totalXAF :: xaf
  sp_minutesStuck :: int

definition listStuckPickups :: "time \<Rightarrow> world \<Rightarrow> StuckPickupItem list" where
  "listStuckPickups now w =
     map (\<lambda>r. \<lparr>sp_orderId = o_id r, sp_code = o_code r,
               sp_vendorName = (case vendor_by_id (o_vendorId r) w of None \<Rightarrow> [] | Some v \<Rightarrow> v_name v),
               sp_riderId = o_riderId r, sp_totalXAF = o_totalXAF r,
               sp_minutesStuck = (case o_pickedUpAt r of None \<Rightarrow> 0 | Some t \<Rightarrow> (now - t) div 60000)\<rparr>)
       (take 100 (sort_key (\<lambda>r. case o_pickedUpAt r of None \<Rightarrow> 0 | Some t \<Rightarrow> t)
          (filter (stuck_pickup now) (w_orders w))))"

section \<open>Patches, locks and ledger entries\<close>

lemma requireRiderOrder_Inr:
  "requireRiderOrder u oid w = Inr order \<longleftrightarrow>
   order_by_id oid w = Some order \<and> (\<exists>r. rider_of_user u w = Some r \<and> o_riderId order = Some (r_id r))"
  by (auto simp: requireRiderOrder_def split: option.splits)

interpretation deliver: guarded_transition "\<lambda>r. o_status r = OS_PICKED_UP" "deliver_patch now" for now
  by unfold_locales (simp_all add: deliver_patch_def)

interpretation fraud: guarded_transition "\<lambda>r. o_status r = OS_PICKED_UP" "fraud_patch input order now"
  for input order now
  by unfold_locales (simp_all add: fraud_patch_def Let_def)

lemma deliver_lawful: "o_status r = OS_PICKED_UP \<Longrightarrow> lawful r (deliver_patch now r)"
  by (auto simp: lawful_def frozen_def deliver_patch_def intro!: reach_edge)

lemma fraud_lawful: "o_status r = OS_PICKED_UP \<Longrightarrow> lawful r (fraud_patch input order now r)"
  by (auto simp: lawful_def frozen_def fraud_patch_def Let_def intro!: reach_edge)

lemma pickup_lawful: "o_status r \<in> set PICKUPABLE \<Longrightarrow> lawful r (pickup_patch now r)"
  by (auto simp: lawful_def frozen_def pickup_patch_def PICKUPABLE_def intro!: reach_edge)

lemma validate_delivery:
  assumes "o_id order \<noteq> []"
  shows "validate (delivery_transaction order v s f) =
    (if o_totalXAF order = 0 \<or> v = 0 \<or> s = 0 \<or> f = 0 then Inl (Conflict ''ledger_zero_amount'')
     else if o_totalXAF order \<noteq> v + s + f then Inl (Conflict ''ledger_unbalanced'') else Inr ())"
  using assms by (auto simp: validate_def delivery_transaction_def)

lemma validate_compensation:
  "o_id order \<noteq> [] \<Longrightarrow> validate (compensation_transaction order a) =
     (if a = 0 then Inl (Conflict ''ledger_zero_amount'') else Inr ())"
  unfolding compensation_transaction_def by (rule validate_two_legs) auto

lemma delivery_accounts:
  "ledger_sum (\<lambda>l. l_account l = a \<and> l_orderId l = Some oid)
     (map (ledger_row (delivery_transaction order v s f) now) (t_entries (delivery_transaction order v s f))) =
   (if oid \<noteq> o_id order then 0
    else (if a = CUSTOMER_ESCROW then o_totalXAF order else 0) - (if a = VENDOR_PAYABLE then v else 0)
       - (if a = RIDER_PAYABLE then s else 0) - (if a = PLATFORM_REVENUE then f else 0))"
  by (auto simp: delivery_transaction_def ledger_row_def)

section \<open>Delivering\<close>

text \<open>The snapshot of the example order, used by the witnesses.\<close>

lemma demo_snapshot: "money_snapshots 2500 650 (3 / 50) =
    \<lparr>ms_commissionXAF = 150, ms_riderShareXAF = 423, ms_platformFeeXAF = 377\<rparr>"
proof -
  have "\<lfloor>(301 :: rat) / 2\<rfloor> = 150" by (simp add: floor_eq_iff)
  then show ?thesis by (simp add: money_snapshots_def Let_def js_round_def RIDER_DELIVERY_SHARE_def)
qed

text \<open>A delivery run for an order with its snapshots, up to what the ledger says.\<close>

lemma markDelivered_run:
  assumes "orders_distinct w" and "requireRiderOrder u oid w = Inr r" and "o_status r = OS_PICKED_UP"
    and "o_commissionXAF r = Some c" and "o_riderShareXAF r = Some s" and "o_platformFeeXAF r = Some f"
    and "oid \<noteq> []" and "d = delivery_transaction r (o_subtotalXAF r - c) s f"
  obtains (refused) e where "validate d = Inl e" and
      "markDelivered u oid (o_deliveryCode r) now w = (Inl e, w)"
  | (delivered) w' where "validate d = Inr ()"
      and "markDelivered u oid (o_deliveryCode r) now w = (Inr (Some (deliver_patch now r)), w')"
      and "order_by_id oid w' = Some (deliver_patch now r)"
      and "w_ledger w' = w_ledger w @ map (ledger_row d now) (t_entries d)"
proof -
  have row: "order_by_id oid w = Some r" using assms(2) by (simp add: requireRiderOrder_Inr)
  have rid: "o_id r = oid" by (rule order_by_id_id [OF row])
  let ?w1 = "orders_updateMany (\<lambda>x. o_id x = oid \<and> o_status x = OS_PICKED_UP) (deliver_patch now) w"
  have g: "guarded_updateMany oid (\<lambda>r. o_status r = OS_PICKED_UP) (deliver_patch now) w = Some ?w1"
    by (rule guarded_wins [OF row]) (rule assms(3))
  have run: "markDelivered u oid (o_deliveryCode r) now w = markDelivered_commit r c s f now w"
    using assms(2-6) by (simp add: markDelivered_def)
  show thesis
  proof (cases "validate d")
    case (Inl e)
    then show thesis
      using refused run g rid by (simp add: markDelivered_commit_def recordTransaction_def flip: assms(8))
  next
    case (Inr x)
    let ?w' = "?w1\<lparr>w_ledger := w_ledger w @ map (ledger_row d now) (t_entries d)\<rparr>"
    have row': "order_by_id oid ?w' = Some (deliver_patch now r)"
      using row rid assms(3) order_by_id_updateMany [of "deliver_patch now", OF deliver.keeps_id]
      by (simp add: order_by_id_cong [of ?w' ?w1])
    then show thesis
      using delivered [of ?w'] Inr run g rid
      by (simp add: markDelivered_commit_def recordTransaction_def flip: assms(8))
  qed
qed

text \<open>
  C7.  Delivering an order without discount, with the right code and the shares the payment
  stored, releases the whole total from the escrow and credits it to the three parties: the
  vendor gets subtotal minus commission, the rider and the platform their shares.
\<close>

theorem delivery_settles_escrow:
  assumes "orders_distinct w" and "requireRiderOrder u oid w = Inr r" and "o_status r = OS_PICKED_UP"
    and "o_totalXAF r = o_subtotalXAF r + o_deliveryFeeXAF r"
    and "ms = money_snapshots (o_subtotalXAF r) (o_deliveryFeeXAF r) (o_commissionRate r)"
    and "o_commissionXAF r = Some (ms_commissionXAF ms)" and "o_riderShareXAF r = Some (ms_riderShareXAF ms)"
    and "o_platformFeeXAF r = Some (ms_platformFeeXAF ms)"
    and "ms_commissionXAF ms < o_subtotalXAF r" and "0 < ms_riderShareXAF ms" and "0 < ms_platformFeeXAF ms"
    and "oid \<noteq> []"
  shows "\<exists>w'. markDelivered u oid (o_deliveryCode r) now w = (Inr (Some (deliver_patch now r)), w')
    \<and> map_option o_status (order_by_id oid w') = Some OS_DELIVERED
    \<and> order_account CUSTOMER_ESCROW oid w' = order_account CUSTOMER_ESCROW oid w + o_totalXAF r
    \<and> order_account VENDOR_PAYABLE oid w' =
        order_account VENDOR_PAYABLE oid w - (o_subtotalXAF r - ms_commissionXAF ms)
    \<and> order_account RIDER_PAYABLE oid w' = order_account RIDER_PAYABLE oid w - ms_riderShareXAF ms
    \<and> order_account PLATFORM_REVENUE oid w' = order_account PLATFORM_REVENUE oid w - ms_platformFeeXAF ms"
proof -
  have rid: "o_id r = oid" using assms(2) order_by_id_id by (auto simp: requireRiderOrder_Inr)
  define d where "d = delivery_transaction r (o_subtotalXAF r - ms_commissionXAF ms)
                        (ms_riderShareXAF ms) (ms_platformFeeXAF ms)"
  have tot: "o_totalXAF r = (o_subtotalXAF r - ms_commissionXAF ms) + ms_riderShareXAF ms + ms_platformFeeXAF ms"
    using money_split_sum [of "o_subtotalXAF r" "o_deliveryFeeXAF r" "o_commissionRate r"] assms(4,5) by simp
  have "validate d = Inr ()"
    unfolding d_def using assms(9-12) rid tot by (subst validate_delivery) auto
  then obtain w' where w': "markDelivered u oid (o_deliveryCode r) now w = (Inr (Some (deliver_patch now r)), w')"
    "order_by_id oid w' = Some (deliver_patch now r)"
    "w_ledger w' = w_ledger w @ map (ledger_row d now) (t_entries d)"
    using markDelivered_run [OF assms(1-3,6-8,12) d_def, of now] by auto
  have "order_account a oid w' = order_account a oid w
      + (if a = CUSTOMER_ESCROW then o_totalXAF r else 0)
      - (if a = VENDOR_PAYABLE then o_subtotalXAF r - ms_commissionXAF ms else 0)
      - (if a = RIDER_PAYABLE then ms_riderShareXAF ms else 0)
      - (if a = PLATFORM_REVENUE then ms_platformFeeXAF ms else 0)" for a
    by (simp add: order_account_def w'(3) delivery_accounts d_def rid)
  then show ?thesis using w'(1,2) by (simp add: deliver_patch_def)
qed

theorem delivery_settles_escrow_witness:
  "\<exists>w'. markDelivered ''W'' ''O'' ''5678'' 9 (demo_world [demo_order OS_PICKED_UP PS_PAID] [])
          = (Inr (Some (deliver_patch 9 (demo_order OS_PICKED_UP PS_PAID))), w')
        \<and> order_account VENDOR_PAYABLE ''O'' w' = - 2350"
proof -
  let ?r = "demo_order OS_PICKED_UP PS_PAID"
  let ?ms = "money_snapshots (o_subtotalXAF ?r) (o_deliveryFeeXAF ?r) (o_commissionRate ?r)"
  have ms: "?ms = \<lparr>ms_commissionXAF = 150, ms_riderShareXAF = 423, ms_platformFeeXAF = 377\<rparr>"
    by (simp add: demo_order_def demo_snapshot)
  have "order_account a ''O'' (demo_world os ls) = 0" for a os ls by (simp add: order_account_def)
  then show ?thesis
    using delivery_settles_escrow [OF _ _ _ _ refl, of "demo_world [?r] []" "''W''" "''O''" ?r 9] ms
    by (auto simp: requireRiderOrder_def rider_of_user_def demo_order_def)
qed

text \<open>
  An order with a coupon discount can never be delivered: the escrow holds the discounted
  total, the shares add up to the full price, and the ledger refuses the unbalanced transaction,
  so every attempt fails and leaves the order PICKED_UP.
\<close>

theorem coupon_order_never_delivered:
  assumes "orders_distinct w" and "requireRiderOrder u oid w = Inr r" and "o_status r = OS_PICKED_UP"
    and "o_totalXAF r = o_subtotalXAF r + o_deliveryFeeXAF r - o_discountXAF r" and "o_discountXAF r \<noteq> 0"
    and "ms = money_snapshots (o_subtotalXAF r) (o_deliveryFeeXAF r) (o_commissionRate r)"
    and "o_commissionXAF r = Some (ms_commissionXAF ms)" and "o_riderShareXAF r = Some (ms_riderShareXAF ms)"
    and "o_platformFeeXAF r = Some (ms_platformFeeXAF ms)" and "oid \<noteq> []"
  shows "\<exists>e. markDelivered u oid (o_deliveryCode r) now w = (Inl e, w)
           \<and> e \<in> {Conflict ''ledger_unbalanced'', Conflict ''ledger_zero_amount''}"
proof -
  have rid: "o_id r = oid" using assms(2) order_by_id_id by (auto simp: requireRiderOrder_Inr)
  define d where "d = delivery_transaction r (o_subtotalXAF r - ms_commissionXAF ms)
                        (ms_riderShareXAF ms) (ms_platformFeeXAF ms)"
  have "o_totalXAF r \<noteq> (o_subtotalXAF r - ms_commissionXAF ms) + ms_riderShareXAF ms + ms_platformFeeXAF ms"
    using money_split_sum [of "o_subtotalXAF r" "o_deliveryFeeXAF r" "o_commissionRate r"] assms(4-6) by simp
  then have "\<exists>e \<in> {Conflict ''ledger_unbalanced'', Conflict ''ledger_zero_amount''}. validate d = Inl e"
    unfolding d_def using assms(10) rid by (subst validate_delivery) auto
  then obtain e where "validate d = Inl e" "e \<in> {Conflict ''ledger_unbalanced'', Conflict ''ledger_zero_amount''}"
    by blast
  then show ?thesis
    using markDelivered_run [OF assms(1-3,7-10) d_def, of now] by auto
qed

theorem coupon_order_never_delivered_witness:
  "let r = (demo_order OS_PICKED_UP PS_PAID)\<lparr>o_discountXAF := 650, o_totalXAF := 2500\<rparr>;
       w = demo_world [r] []
   in \<exists>e. markDelivered ''W'' ''O'' ''5678'' 9 w = (Inl e, w)"
proof -
  let ?r = "(demo_order OS_PICKED_UP PS_PAID)\<lparr>o_discountXAF := 650, o_totalXAF := 2500\<rparr>"
  let ?ms = "money_snapshots (o_subtotalXAF ?r) (o_deliveryFeeXAF ?r) (o_commissionRate ?r)"
  have ms: "?ms = \<lparr>ms_commissionXAF = 150, ms_riderShareXAF = 423, ms_platformFeeXAF = 377\<rparr>"
    by (simp add: demo_order_def demo_snapshot)
  show ?thesis
    using coupon_order_never_delivered [OF _ _ _ _ _ refl, of "demo_world [?r] []" "''W''" "''O''" ?r 9] ms
    by (auto simp: requireRiderOrder_def rider_of_user_def demo_order_def orders_distinct_def)
qed

section \<open>Pickup\<close>

lemma markPickedUp_commit_current:
  assumes "order_by_id oid w = Some r" and "o_id snap = oid"
  shows "markPickedUp_commit snap now w =
    (Inr (Some (pickup_patch now r)), orders_updateMany (\<lambda>x. o_id x = oid) (pickup_patch now) w)"
proof -
  have "o_id r = oid" by (rule order_by_id_id [OF assms(1)])
  then show ?thesis
    using assms by (simp add: markPickedUp_commit_def order_update_def order_by_id_updateMany pickup_patch_def)
qed

text \<open>
  A pickup succeeds exactly for the assigned rider with the vendor's code while the order is
  accepted, in preparation or ready.
\<close>

theorem markPickedUp_spec:
  "if \<exists>r. requireRiderOrder u oid w = Inr r \<and> o_status r \<in> {OS_ACCEPTED, OS_IN_PREP, OS_READY_PICKUP}
          \<and> o_pickupCode r = code
   then \<exists>r w'. requireRiderOrder u oid w = Inr r
          \<and> markPickedUp u oid code now w =
              (Inr (Some (r\<lparr>o_status := OS_PICKED_UP, o_pickedUpAt := Some now\<rparr>)), w')
          \<and> order_by_id oid w' = Some (r\<lparr>o_status := OS_PICKED_UP, o_pickedUpAt := Some now\<rparr>)
   else failed (markPickedUp u oid code now w) \<and> snd (markPickedUp u oid code now w) = w"
proof (cases "requireRiderOrder u oid w")
  case (Inr r)
  then have row: "order_by_id oid w = Some r" by (simp add: requireRiderOrder_Inr)
  have rid: "o_id r = oid" by (rule order_by_id_id [OF row])
  show ?thesis
    using Inr markPickedUp_commit_current [OF row rid, of now] row rid
    by (auto simp: markPickedUp_def PICKUPABLE_def pickup_patch_def order_by_id_updateMany)
qed (simp add: markPickedUp_def)

theorem markPickedUp_spec_witness:
  "\<exists>r w'. markPickedUp ''W'' ''O'' ''1234'' 5 (demo_world [demo_order OS_READY_PICKUP PS_PAID] []) = (Inr r, w')"
  using markPickedUp_spec [of "''W''" "''O''" "demo_world [demo_order OS_READY_PICKUP PS_PAID] []" "''1234''" 5]
  by (auto simp: requireRiderOrder_def rider_of_user_def demo_order_def)

text \<open>
  The pickup is written without a status guard: when the vendor cancels the pre-order between
  the rider's check and the write, the refund stays requested and the cancelled order becomes
  PICKED_UP.
\<close>

theorem pickup_overwrites_cancellation:
  assumes "orders_distinct w" and "order_by_id oid w = Some r" and "o_status r \<in> {OS_ACCEPTED, OS_IN_PREP}"
    and "oid \<noteq> []" and "pid \<noteq> []" and "500 \<le> o_totalXAF r"
    and "\<forall>p \<in> set (w_penalties w). vp_orderId p \<noteq> oid"
  shows "\<exists>w1 p r'. vendorCancelPreOrder_commit r note pid now w = (Inr (OS_CANCELLED, p), w1)
     \<and> order_by_id oid (snd (markPickedUp_commit r now' w1)) = Some r'
     \<and> o_status r' = OS_PICKED_UP \<and> o_paymentStatus r' = PS_REFUND_PENDING"
proof -
  have rid: "o_id r = oid" by (rule order_by_id_id [OF assms(2)])
  have kitchen: "o_status r \<in> set IN_KITCHEN" using assms(3) by simp
  have "preorder_penalty (o_totalXAF r) \<noteq> 0"
    using assms(6) preorder_penalty_zero [of "o_totalXAF r"] by simp
  note run = vendorCancelPreOrder_commit_wins [OF assms(1,2) kitchen rid assms(5,4,7) this, of "note" now]
  let ?w1 = "vendor_cancelled_world r note pid now w"
  have "order_by_id oid ?w1 = order_by_id oid (orders_updateMany
      (\<lambda>x. o_id x = oid \<and> o_status x \<in> set IN_KITCHEN) (vendor_cancel_patch (vendor_cancel_label note) now) w)"
    by (simp add: vendor_cancelled_world_def Let_def order_by_id_def rid)
  then have row1: "order_by_id oid ?w1 = Some (vendor_cancel_patch (vendor_cancel_label note) now r)"
    using kitchen_row(2) [OF assms(1,2) kitchen vendor_cancel.patch_id] by simp
  have "o_id (vendor_cancel_patch (vendor_cancel_label note) now r) = oid"
    by (simp add: vendor_cancel.patch_id rid)
  then have "order_by_id oid (snd (markPickedUp_commit r now' ?w1)) =
      Some (pickup_patch now' (vendor_cancel_patch (vendor_cancel_label note) now r))"
    using markPickedUp_commit_current [OF row1 rid] row1
    by (simp add: order_by_id_updateMany pickup_patch_def)
  then show ?thesis using run by (auto simp: pickup_patch_def vendor_cancel_patch_def)
qed

theorem pickup_overwrites_cancellation_witness:
  "\<exists>w1 p r'. vendorCancelPreOrder_commit (demo_order OS_ACCEPTED PS_PAID) None ''P'' 7
       (demo_world [demo_order OS_ACCEPTED PS_PAID] []) = (Inr (OS_CANCELLED, p), w1)
     \<and> order_by_id ''O'' (snd (markPickedUp_commit (demo_order OS_ACCEPTED PS_PAID) 8 w1)) = Some r'
     \<and> o_status r' = OS_PICKED_UP \<and> o_paymentStatus r' = PS_REFUND_PENDING"
  by (rule pickup_overwrites_cancellation) simp_all

section \<open>Resolving a fraud\<close>

lemma riders_updateMany_frame [simp]:
  "w_orders (riders_updateMany p f w) = w_orders w" "w_ledger (riders_updateMany p f w) = w_ledger w"
  "w_redis (riders_updateMany p f w) = w_redis w" "w_events (riders_updateMany p f w) = w_events w"
  by (simp_all add: riders_updateMany_def)

lemma revokeUser_frame [simp]:
  "w_orders (revokeUser ttl u now w) = w_orders w" "w_ledger (revokeUser ttl u now w) = w_ledger w"
  "w_riders (revokeUser ttl u now w) = w_riders w"
  by (simp_all add: revokeUser_def Let_def)

lemma fraud_rider_action_frame [simp]:
  "w_orders (snd (fraud_rider_action ttl a rid now w)) = w_orders w"
  "w_ledger (snd (fraud_rider_action ttl a rid now w)) = w_ledger w"
  by (auto simp: fraud_rider_action_def split: RiderFraudAction.splits option.splits)

text \<open>
  A rider-fraud resolution cancels the order, requests the refund exactly when asked for on a
  paid order, and with vendor compensation moves subtotal minus commission from the platform's
  revenue to the vendor's account, in one transaction.
\<close>

theorem resolveRiderFraud_spec:
  assumes "orders_distinct w" and "order_by_id oid w = Some r" and "o_status r = OS_PICKED_UP"
    and "o_riderId r = Some rid" and "rid \<noteq> []" and "o_commissionXAF r = Some c"
    and "c \<le> o_subtotalXAF r" and "oid \<noteq> []"
    and "amt = (if rf_vendorCompensation input then o_subtotalXAF r - c else 0)"
  shows "\<exists>res w' r'. resolveRiderFraud ttl oid input now w = (Inr res, w')
    \<and> order_by_id oid w' = Some r' \<and> o_status r' = OS_CANCELLED
    \<and> o_paymentStatus r' = (if rf_consumerRefund input \<and> o_paymentStatus r = PS_PAID
                            then PS_REFUND_PENDING else o_paymentStatus r)
    \<and> fr_vendorCompensationXAF res = amt
    \<and> order_account PLATFORM_REVENUE oid w' = order_account PLATFORM_REVENUE oid w + amt
    \<and> order_account VENDOR_PAYABLE oid w' = order_account VENDOR_PAYABLE oid w - amt"
proof -
  have oid: "o_id r = oid" by (rule order_by_id_id [OF assms(2)])
  let ?w1 = "orders_updateMany (\<lambda>x. o_id x = oid \<and> o_status x = OS_PICKED_UP) (fraud_patch input r now) w"
  have g: "guarded_updateMany oid (\<lambda>r. o_status r = OS_PICKED_UP) (fraud_patch input r now) w = Some ?w1"
    by (rule guarded_wins [OF assms(2)]) (rule assms(3))
  have row1: "order_by_id oid ?w1 = Some (fraud_patch input r now r)"
    using assms(2,3) oid order_by_id_updateMany [of "fraud_patch input r now", OF fraud.keeps_id] by simp
  define w2 where "w2 = (if amt = 0 then ?w1 else ?w1\<lparr>w_ledger := w_ledger w @
      map (ledger_row (compensation_transaction r amt) now) (t_entries (compensation_transaction r amt))\<rparr>)"
  have comp: "(if rf_vendorCompensation input \<and> amt > 0
       then recordTransaction (compensation_transaction r amt) now ?w1 else (Inr (), ?w1)) = (Inr (), w2)"
    using assms(7-9) oid by (auto simp: w2_def recordTransaction_def validate_compensation)
  have amt: "(if rf_vendorCompensation input
      then o_subtotalXAF r - (case o_commissionXAF r of None \<Rightarrow> 0 | Some c \<Rightarrow> c) else 0) = amt"
    using assms(6,9) by simp
  obtain su w3 where w3: "fraud_rider_action ttl (rf_riderAction input) rid now w2 = (su, w3)" by fastforce
  have "w_orders w3 = w_orders w2" "w_ledger w3 = w_ledger w2"
    using fraud_rider_action_frame [of ttl "rf_riderAction input" rid now w2] w3 by simp_all
  then have row3: "order_by_id oid w3 = Some (fraud_patch input r now r)"
    and led: "order_account a oid w3 = order_account a oid w2" for a
    using row1 by (auto simp: order_by_id_def order_account_def w2_def)
  have "resolveRiderFraud ttl oid input now w = (Inr \<lparr>fr_consumerRefundQueued =
      (rf_consumerRefund input \<and> o_paymentStatus r = PS_PAID), fr_vendorCompensationXAF = amt,
      fr_riderSuspended = su\<rparr>, w3)"
    using assms(2-5) comp w3 oid g amt
    by (simp add: resolveRiderFraud_def resolveRiderFraud_commit_def assms(6) split del: if_split)
  moreover have "order_account PLATFORM_REVENUE oid w2 = order_account PLATFORM_REVENUE oid w + amt"
    "order_account VENDOR_PAYABLE oid w2 = order_account VENDOR_PAYABLE oid w - amt"
    by (simp_all add: w2_def order_account_def compensation_transaction_def ledger_row_def oid)
  ultimately show ?thesis using row3 led by (auto simp: fraud_patch_def Let_def)
qed

theorem resolveRiderFraud_spec_witness:
  "\<exists>res w'. resolveRiderFraud 1000 ''O'' \<lparr>rf_riderAction = SUSPEND, rf_vendorCompensation = True,
        rf_consumerRefund = True, rf_note = ''n''\<rparr> 9 (demo_world [demo_order OS_PICKED_UP PS_PAID] []) = (Inr res, w')
     \<and> fr_vendorCompensationXAF res = 2350"
  using resolveRiderFraud_spec [of "demo_world [demo_order OS_PICKED_UP PS_PAID] []" "''O''"
      "demo_order OS_PICKED_UP PS_PAID" "''R''" 150 2350
      "\<lparr>rf_riderAction = SUSPEND, rf_vendorCompensation = True, rf_consumerRefund = True, rf_note = ''n''\<rparr>" 1000 9]
  by (auto simp: demo_order_def)

text \<open>The warning has no floor: the score of a rider below 20 becomes negative.\<close>

lemma warn_has_no_floor:
  assumes "rider_by_id rid w = Some x" and "r_reliabilityScore x < 20"
  shows "\<exists>x'. rider_by_id rid (snd (fraud_rider_action ttl WARN rid now w)) = Some x' \<and> r_reliabilityScore x' < 0"
proof -
  let ?f = "\<lambda>r. r\<lparr>r_reliabilityScore := r_reliabilityScore r - 20\<rparr>"
  have "rider_by_id rid (riders_updateMany (\<lambda>r. r_id r = rid) ?f w) =
      map_option (\<lambda>r. if r_id r = rid then ?f r else r) (rider_by_id rid w)"
    unfolding rider_by_id_def riders_updateMany_def by (rule riders.find_after_updateMany) simp
  moreover have "r_id x = rid" using assms(1) by (auto simp: rider_by_id_def dest: find_row_Some)
  ultimately show ?thesis
    using assms by (simp add: fraud_rider_action_def RIDER_FRAUD_WARN_DECREMENT_def)
qed

text \<open>A suspension revokes the rider's tokens in the same step.\<close>

lemma suspension_revokes:
  assumes "rider_by_id rid w = Some x" and "0 < refreshTtlMs"
  shows "isRevoked (r_userId x) now (snd (fraud_rider_action refreshTtlMs SUSPEND rid now w))"
proof -
  have "0 < \<lceil>(of_int refreshTtlMs :: rat) / 1000\<rceil>" using assms(2) by simp
  then show ?thesis using assms(1) by (simp add: fraud_rider_action_def isRevoked_def revokeUser_def)
qed

section \<open>Life cycle and books\<close>

lemma markDelivered_commit_books [books_intros]:
  "books_extend w (snd (markDelivered_commit order c s f now w))"
proof (cases "guarded_updateMany (o_id order) (\<lambda>r. o_status r = OS_PICKED_UP) (deliver_patch now) w")
  case (Some w1)
  have "w_ledger w1 = w_ledger w" by (rule guarded_frame(1) [OF Some])
  from ledger.transaction_extends [OF this, of "delivery_transaction order (o_subtotalXAF order - c) s f" now]
  show ?thesis using Some by (auto simp: markDelivered_commit_def Let_def split: sum.splits prod.splits)
qed (simp add: markDelivered_commit_def Let_def)

lemma markDelivered_commit_lawful [lawful_intros]:
  "orders_lawful w (snd (markDelivered_commit order c s f now w))"
proof (cases "guarded_updateMany (o_id order) (\<lambda>r. o_status r = OS_PICKED_UP) (deliver_patch now) w")
  case (Some w1)
  have "orders_lawful w w1" by (rule orders_lawful_guarded [OF Some deliver_lawful])
  then show ?thesis using Some
    by (auto simp: markDelivered_commit_def Let_def recordTransaction_def split: sum.splits
        intro: orders_lawful_cong [where v = w])
qed (simp add: markDelivered_commit_def Let_def)

lemma markDelivered_keeps:
  "books_extend w (snd (markDelivered u oid code now w))"
  "orders_lawful w (snd (markDelivered u oid code now w))"
  by (auto simp: markDelivered_def split: sum.splits option.splits intro: books_intros lawful_intros)

lemma markPickedUp_keeps:
  "w_ledger (snd (markPickedUp u oid code now w)) = w_ledger w"
  "orders_distinct w \<Longrightarrow> orders_lawful w (snd (markPickedUp u oid code now w))"
proof -
  show "w_ledger (snd (markPickedUp u oid code now w)) = w_ledger w"
    by (auto simp: markPickedUp_def markPickedUp_commit_def order_update_def split: sum.splits option.splits)
  assume dis: "orders_distinct w"
  show "orders_lawful w (snd (markPickedUp u oid code now w))"
  proof (cases "requireRiderOrder u oid w")
    case (Inr r)
    then have row: "order_by_id oid w = Some r" by (simp add: requireRiderOrder_Inr)
    have rid: "o_id r = oid" by (rule order_by_id_id [OF row])
    have "orders_lawful w (orders_updateMany (\<lambda>x. o_id x = oid) (pickup_patch now) w)"
      if "o_status r \<in> set PICKUPABLE"
      by (rule orders_lawful_update [where f = "pickup_patch now", OF _ dis row pickup_lawful [OF that]])
        (simp add: order_update_def row)
    then show ?thesis
      using Inr markPickedUp_commit_current [OF row rid, of now] by (auto simp: markPickedUp_def)
  qed (simp add: markPickedUp_def)
qed

lemma resolveRiderFraud_commit_keeps:
  "books_extend w (snd (resolveRiderFraud_commit ttl order rid input amt now w))
   \<and> orders_lawful w (snd (resolveRiderFraud_commit ttl order rid input amt now w))"
proof (cases "guarded_updateMany (o_id order) (\<lambda>r. o_status r = OS_PICKED_UP) (fraud_patch input order now) w")
  case (Some w1)
  obtain x w2 where w2: "(if rf_vendorCompensation input \<and> amt > 0
     then recordTransaction (compensation_transaction order amt) now w1 else (Inr (), w1)) = (x, w2)"
    by fastforce
  let ?v = "snd (fraud_rider_action ttl (rf_riderAction input) rid now w2)"
  have run: "snd (resolveRiderFraud_commit ttl order rid input amt now w) =
      (case x of Inl _ \<Rightarrow> w | Inr _ \<Rightarrow> ?v)"
    by (cases x) (simp_all add: resolveRiderFraud_commit_def Some w2 case_prod_beta split del: if_split)
  have "books_extend w1 w2" "w_orders w2 = w_orders w1"
    using w2 ledger.tx_extends [of w1 "compensation_transaction order amt" now]
      ledger.tx_orders [of "compensation_transaction order amt" now w1]
    by (auto split: if_splits)
  then have "books_extend w ?v"
    by (simp add: books_extend_def guarded_frame(1) [OF Some])
  moreover have "orders_lawful w ?v"
    using orders_lawful_guarded [OF Some fraud_lawful] \<open>w_orders w2 = w_orders w1\<close>
    by (simp add: orders_lawful_def)
  ultimately show ?thesis by (simp add: run split: sum.split)
qed (simp add: resolveRiderFraud_commit_def)

lemma resolveRiderFraud_keeps:
  "books_extend w (snd (resolveRiderFraud ttl oid input now w))"
  "orders_lawful w (snd (resolveRiderFraud ttl oid input now w))"
  using resolveRiderFraud_commit_keeps by (auto simp: resolveRiderFraud_def Let_def split: option.splits)

lemma rider_presence_frame [simp]:
  "w_orders (snd (setAvailability u b now w)) = w_orders w"
  "w_ledger (snd (setAvailability u b now w)) = w_ledger w"
  "w_orders (snd (pushHeartbeat u now w)) = w_orders w"
  "w_ledger (snd (pushHeartbeat u now w)) = w_ledger w"
  by (auto simp: setAvailability_def pushHeartbeat_def split: option.splits)

end
