(* ===== verification/Coupons.thy ===== *)
theory Coupons
  imports Delivery
begin

text \<open>
  \<open>modules/coupons/coupons.service.ts\<close>: validation of a promo code and its redemption inside the
  transaction that creates the order.  \<open>rawCode\<close> is trimmed and upper-cased as the source does
  (\<open>toUpperCase\<close> on the ASCII letters; the codes the seed creates are ASCII).
\<close>

definition upcase_char :: "char \<Rightarrow> char" where
  "upcase_char c = (if 97 \<le> (of_char c :: nat) \<and> (of_char c :: nat) \<le> 122
                    then char_of (of_char c - 32 :: nat) else c)"

definition toUpperCase :: "string \<Rightarrow> string" where "toUpperCase = map upcase_char"

definition coupon_code :: "string \<Rightarrow> string" where "coupon_code rawCode = toUpperCase (trim rawCode)"

record CouponValidationResult =
  cv_couponId :: uuid
  cv_code :: string
  cv_type :: CouponType
  cv_discountXAF :: xaf

definition computeDiscount :: "coupon \<Rightarrow> xaf \<Rightarrow> xaf \<Rightarrow> xaf" where
  "computeDiscount c subtotalXAF deliveryFeeXAF =
     (case c_type c of
        FREE_DELIVERY \<Rightarrow> deliveryFeeXAF
      | FIXED_AMOUNT_OFF \<Rightarrow> min (c_valueXAF c) (subtotalXAF + deliveryFeeXAF))"

definition before_start :: "time \<Rightarrow> coupon \<Rightarrow> bool" where
  "before_start now c = (case c_validFrom c of None \<Rightarrow> False | Some t \<Rightarrow> now < t)"

definition after_end :: "time \<Rightarrow> coupon \<Rightarrow> bool" where
  "after_end now c = (case c_validUntil c of None \<Rightarrow> False | Some t \<Rightarrow> now > t)"

definition below_floor :: "xaf \<Rightarrow> coupon \<Rightarrow> bool" where
  "below_floor subtotalXAF c = (case c_minSubtotalXAF c of None \<Rightarrow> False | Some m \<Rightarrow> subtotalXAF < m)"

definition exhausted :: "coupon \<Rightarrow> bool" where
  "exhausted c = (case c_maxRedemptions c of None \<Rightarrow> False | Some m \<Rightarrow> c_redemptionCount c \<ge> m)"

definition validateRow ::
  "coupon option \<Rightarrow> xaf \<Rightarrow> xaf \<Rightarrow> nat \<Rightarrow> time \<Rightarrow> http_error + CouponValidationResult" where
  "validateRow cpn subtotalXAF deliveryFeeXAF userPriorPaidOrderCount now =
     (case cpn of
        None \<Rightarrow> Inl (BadRequest ''coupon_not_found'')
      | Some c \<Rightarrow>
          if c_status c \<noteq> CS_ACTIVE then Inl (BadRequest ''coupon_disabled'')
          else if before_start now c then Inl (BadRequest ''coupon_not_yet_active'')
          else if after_end now c then Inl (BadRequest ''coupon_expired'')
          else if below_floor subtotalXAF c then Inl (BadRequest ''coupon_min_subtotal'')
          else if c_firstOrderOnly c \<and> userPriorPaidOrderCount > 0
          then Inl (BadRequest ''coupon_first_order_only'')
          else if exhausted c then Inl (BadRequest ''coupon_exhausted'')
          else Inr \<lparr>cv_couponId = c_id c, cv_code = c_code c, cv_type = c_type c,
                    cv_discountXAF = computeDiscount c subtotalXAF deliveryFeeXAF\<rparr>)"

definition counts_as_prior :: "uuid \<Rightarrow> order \<Rightarrow> bool" where
  "counts_as_prior userId r \<longleftrightarrow>
     o_userId r = userId \<and> o_paymentStatus r \<in> {PS_PAID, PS_REFUNDED} \<and> o_status r \<noteq> OS_CANCELLED"

definition coupon_by_code :: "string \<Rightarrow> world \<Rightarrow> coupon option" where
  "coupon_by_code code w = find_row (\<lambda>c. c_code c = code) (w_coupons w)"

definition validateForUser ::
  "string \<Rightarrow> uuid \<Rightarrow> xaf \<Rightarrow> xaf \<Rightarrow> time \<Rightarrow> world \<Rightarrow> http_error + CouponValidationResult" where
  "validateForUser rawCode userId subtotalXAF deliveryFeeXAF now w =
     (let code = coupon_code rawCode
      in if code = [] then Inl (BadRequest ''coupon_not_found'')
         else if list_ex (\<lambda>d. cred_userId d = userId
                 \<and> map_option c_code (find_row (\<lambda>c. c_id c = cred_couponId d) (w_coupons w)) = Some code)
                (w_redemptions w)
         then Inl (BadRequest ''coupon_already_redeemed'')
         else validateRow (coupon_by_code code w) subtotalXAF deliveryFeeXAF
                (orders_count (counts_as_prior userId) w) now)"

record redemption =
  rd_couponId :: uuid
  rd_code :: string
  rd_appliedDiscountXAF :: xaf

text \<open>
  Runs inside the caller's transaction: on an error the caller discards the world.  The unique
  columns of \<open>CouponRedemption\<close> are (coupon, user) and the order id; both violations are
  reported as \<open>coupon_already_redeemed\<close>.
\<close>

definition redeemInTransaction ::
  "string \<Rightarrow> uuid \<Rightarrow> uuid \<Rightarrow> xaf \<Rightarrow> xaf \<Rightarrow> time \<Rightarrow> world \<Rightarrow> (redemption, world) outcome" where
  "redeemInTransaction rawCode userId orderId subtotalXAF deliveryFeeXAF now w =
     (let code = coupon_code rawCode
      in if code = [] then (Inl (BadRequest ''coupon_not_found''), w)
         else
           (case validateRow (coupon_by_code code w) subtotalXAF deliveryFeeXAF
                   (orders_count (\<lambda>r. counts_as_prior userId r \<and> o_id r \<noteq> orderId) w) now of
              Inl e \<Rightarrow> (Inl e, w)
            | Inr res \<Rightarrow>
                if list_ex (\<lambda>d. cred_couponId d = cv_couponId res \<and> cred_userId d = userId
                                \<or> cred_orderId d = orderId) (w_redemptions w)
                then (Inl (BadRequest ''coupon_already_redeemed''), w)
                else
                  (Inr \<lparr>rd_couponId = cv_couponId res, rd_code = cv_code res,
                        rd_appliedDiscountXAF = cv_discountXAF res\<rparr>,
                   w\<lparr>w_redemptions := w_redemptions w @
                       [\<lparr>cred_couponId = cv_couponId res, cred_userId = userId, cred_orderId = orderId,
                         cred_appliedDiscountXAF = cv_discountXAF res,
                         cred_originalDeliveryFeeXAF = deliveryFeeXAF\<rparr>],
                     w_coupons := upd_where (\<lambda>c. c_id c = cv_couponId res)
                       (\<lambda>c. c\<lparr>c_redemptionCount := c_redemptionCount c + 1\<rparr>) (w_coupons w)\<rparr>)))"

section \<open>What a coupon can do\<close>

lemma validateRow_Inr:
  "validateRow cpn sub fee n now = Inr res \<longleftrightarrow>
   (\<exists>c. cpn = Some c \<and> c_status c = CS_ACTIVE \<and> \<not> before_start now c \<and> \<not> after_end now c
      \<and> \<not> below_floor sub c \<and> \<not> (c_firstOrderOnly c \<and> 0 < n) \<and> \<not> exhausted c
      \<and> res = \<lparr>cv_couponId = c_id c, cv_code = c_code c, cv_type = c_type c,
               cv_discountXAF = computeDiscount c sub fee\<rparr>)"
  by (auto simp: validateRow_def split: option.splits)

lemma computeDiscount_bounds:
  assumes "0 \<le> sub" and "0 \<le> fee"
  shows "computeDiscount c sub fee \<le> sub + fee" and "0 \<le> c_valueXAF c \<Longrightarrow> 0 \<le> computeDiscount c sub fee"
  using assms by (auto simp: computeDiscount_def split: CouponType.splits)

text \<open>
  C38.  A redemption is only made for an active coupon inside its dates, below its limit, for a basket
  of at least its minimum and, when it is for first orders, a user without an earlier paid order;
  it never gives more than the order costs, adds exactly one row with the discount it gave and one
  to the count, and the same user can never redeem the same coupon again, whatever the time, order
  and basket.
\<close>

theorem redeem_once_per_user:
  assumes "redeemInTransaction rawCode u oid sub fee now w = (Inr rd, w')"
    and "0 \<le> sub" and "0 \<le> fee" and "distinct (map c_code (w_coupons w))"
  shows "(\<exists>c. coupon_by_code (coupon_code rawCode) w = Some c \<and> c_status c = CS_ACTIVE
            \<and> (\<forall>t. c_validFrom c = Some t \<longrightarrow> t \<le> now) \<and> (\<forall>t. c_validUntil c = Some t \<longrightarrow> now \<le> t)
            \<and> (\<forall>m. c_maxRedemptions c = Some m \<longrightarrow> c_redemptionCount c < m)
            \<and> (\<forall>m. c_minSubtotalXAF c = Some m \<longrightarrow> m \<le> sub)
            \<and> (c_firstOrderOnly c \<longrightarrow> \<not> (\<exists>r \<in> set (w_orders w). o_userId r = u \<and> o_id r \<noteq> oid
                 \<and> (o_paymentStatus r = PS_PAID \<or> o_paymentStatus r = PS_REFUNDED) \<and> o_status r \<noteq> OS_CANCELLED))
            \<and> rd_couponId rd = c_id c \<and> rd_appliedDiscountXAF rd = computeDiscount c sub fee
            \<and> coupon_by_code (coupon_code rawCode) w' = Some (c\<lparr>c_redemptionCount := c_redemptionCount c + 1\<rparr>))
       \<and> rd_appliedDiscountXAF rd \<le> sub + fee
       \<and> w_redemptions w' = w_redemptions w @
           [\<lparr>cred_couponId = rd_couponId rd, cred_userId = u, cred_orderId = oid,
             cred_appliedDiscountXAF = rd_appliedDiscountXAF rd, cred_originalDeliveryFeeXAF = fee\<rparr>]
       \<and> (\<exists>e. redeemInTransaction rawCode u oid' sub' fee' now' w' = (Inl e, w'))"
proof -
  let ?code = "coupon_code rawCode"
  obtain c where c: "coupon_by_code ?code w = Some c" "c_status c = CS_ACTIVE" "\<not> before_start now c"
    "\<not> after_end now c" "\<not> exhausted c" "?code \<noteq> []" "\<not> below_floor sub c"
    "c_firstOrderOnly c \<longrightarrow> orders_count (\<lambda>r. counts_as_prior u r \<and> o_id r \<noteq> oid) w = 0"
    and rd: "rd = \<lparr>rd_couponId = c_id c, rd_code = c_code c, rd_appliedDiscountXAF = computeDiscount c sub fee\<rparr>"
    and w': "w' = w\<lparr>w_redemptions := w_redemptions w @
                       [\<lparr>cred_couponId = c_id c, cred_userId = u, cred_orderId = oid,
                         cred_appliedDiscountXAF = computeDiscount c sub fee,
                         cred_originalDeliveryFeeXAF = fee\<rparr>],
                     w_coupons := upd_where (\<lambda>x. c_id x = c_id c)
                       (\<lambda>x. x\<lparr>c_redemptionCount := c_redemptionCount x + 1\<rparr>) (w_coupons w)\<rparr>"
    using assms(1)
    by (auto simp: redeemInTransaction_def Let_def validateRow_Inr split: if_splits sum.splits)
  have first: "c_firstOrderOnly c \<longrightarrow> \<not> (\<exists>r \<in> set (w_orders w). o_userId r = u \<and> o_id r \<noteq> oid
      \<and> (o_paymentStatus r = PS_PAID \<or> o_paymentStatus r = PS_REFUNDED) \<and> o_status r \<noteq> OS_CANCELLED)"
    using c(8) by (auto simp: orders_count_def count_where_0 counts_as_prior_def)
  have dates: "\<forall>t. c_validFrom c = Some t \<longrightarrow> t \<le> now" "\<forall>t. c_validUntil c = Some t \<longrightarrow> now \<le> t"
    "\<forall>m. c_maxRedemptions c = Some m \<longrightarrow> c_redemptionCount c < m" "\<forall>m. c_minSubtotalXAF c = Some m \<longrightarrow> m \<le> sub"
    using c(3-5,7) by (auto simp: before_start_def after_end_def exhausted_def below_floor_def)
  have row: "coupon_by_code ?code w' = Some (c\<lparr>c_redemptionCount := c_redemptionCount c + 1\<rparr>)"
    using c(1) find_row_key_upd [where k = c_code and f = "\<lambda>x :: coupon. x\<lparr>c_redemptionCount := c_redemptionCount x + 1\<rparr>"]
    by (simp add: coupon_by_code_def w')
  then have again: "\<exists>e. redeemInTransaction rawCode u oid' sub' fee' now' w' = (Inl e, w')"
    using c(6) by (auto simp: redeemInTransaction_def Let_def validateRow_Inr w' split: sum.splits)
  have "\<exists>c. coupon_by_code ?code w = Some c \<and> c_status c = CS_ACTIVE
            \<and> (\<forall>t. c_validFrom c = Some t \<longrightarrow> t \<le> now) \<and> (\<forall>t. c_validUntil c = Some t \<longrightarrow> now \<le> t)
            \<and> (\<forall>m. c_maxRedemptions c = Some m \<longrightarrow> c_redemptionCount c < m)
            \<and> (\<forall>m. c_minSubtotalXAF c = Some m \<longrightarrow> m \<le> sub)
            \<and> (c_firstOrderOnly c \<longrightarrow> \<not> (\<exists>r \<in> set (w_orders w). o_userId r = u \<and> o_id r \<noteq> oid
                 \<and> (o_paymentStatus r = PS_PAID \<or> o_paymentStatus r = PS_REFUNDED) \<and> o_status r \<noteq> OS_CANCELLED))
            \<and> rd_couponId rd = c_id c \<and> rd_appliedDiscountXAF rd = computeDiscount c sub fee
            \<and> coupon_by_code ?code w' = Some (c\<lparr>c_redemptionCount := c_redemptionCount c + 1\<rparr>)"
    by (rule exI [of _ c]) (intro conjI c(1,2) dates first row; simp add: rd)
  then show ?thesis
    using again computeDiscount_bounds(1) [OF assms(2,3), of c] by (simp add: rd w')
qed

definition demo_coupon :: coupon where
  "demo_coupon = \<lparr>c_id = ''K'', c_code = ''BIENVENUE'', c_type = FREE_DELIVERY, c_valueXAF = 0,
     c_status = CS_ACTIVE, c_validFrom = None, c_validUntil = None, c_minSubtotalXAF = None,
     c_firstOrderOnly = True, c_maxRedemptions = None, c_redemptionCount = 0\<rparr>"

theorem redeem_once_per_user_witness:
  "\<exists>rd w'. redeemInTransaction ''bienvenue '' ''C'' ''O'' 2500 650 7
       ((demo_world [] [])\<lparr>w_coupons := [demo_coupon]\<rparr>) = (Inr rd, w') \<and> rd_appliedDiscountXAF rd \<le> 3150
     \<and> (\<exists>e. redeemInTransaction ''bienvenue '' ''C'' ''O2'' 100 500 9 w' = (Inl e, w'))"
proof -
  let ?w = "(demo_world [] [])\<lparr>w_coupons := [demo_coupon]\<rparr>"
  have code: "coupon_code ''bienvenue '' = ''BIENVENUE''"
    by code_simp
  have "\<not> failed (redeemInTransaction ''bienvenue '' ''C'' ''O'' 2500 650 7 ?w)"
    by (simp add: redeemInTransaction_def code coupon_by_code_def demo_coupon_def validateRow_def
        before_start_def after_end_def below_floor_def exhausted_def orders_count_def) (simp add: demo_world_def Let_def)
  then obtain rd w' where run: "redeemInTransaction ''bienvenue '' ''C'' ''O'' 2500 650 7 ?w = (Inr rd, w')"
    by (auto elim: not_failedE)
  show ?thesis using redeem_once_per_user [OF run, of "''O2''" 100 500 9] run by auto
qed

text \<open>A validation that succeeds in the cart is the one the transaction repeats.\<close>

lemma validate_agrees_with_redeem:
  assumes "validateForUser rawCode u sub fee now w = Inr res"
    and "\<forall>r \<in> set (w_orders w). o_id r \<noteq> oid"
  shows "validateRow (coupon_by_code (coupon_code rawCode) w) sub fee
           (orders_count (\<lambda>r. counts_as_prior u r \<and> o_id r \<noteq> oid) w) now = Inr res"
proof -
  have "orders_count (\<lambda>r. counts_as_prior u r \<and> o_id r \<noteq> oid) w = orders_count (counts_as_prior u) w"
    using assms(2) unfolding orders_count_def count_where_def by (metis (mono_tags, lifting) filter_cong)
  then show ?thesis using assms(1) by (simp add: validateForUser_def Let_def split: if_splits)
qed

end
