(* ===== verification/Order_Creation.thy ===== *)
theory Order_Creation
  imports Coupons
begin

text \<open>
  \<open>modules/orders/order-creation.service.ts\<close>: \<open>createOrder\<close>.  What the source draws from the
  outside is a parameter: the PostGIS distance (\<open>distanceKm\<close>, \<open>None\<close> when the query has no row),
  the ids the database generates, and the three random codes.  The telemetry after the commit is
  not modelled.
\<close>

definition MIN_ORDER_XAF :: xaf where "MIN_ORDER_XAF = 1200"
definition PRE_ORDER_MIN_LEAD_HOURS :: int where "PRE_ORDER_MIN_LEAD_HOURS = 4"
definition PRE_ORDER_MAX_LEAD_HOURS :: int where "PRE_ORDER_MAX_LEAD_HOURS = 24"

record cart_line =
  cl_itemId :: uuid
  cl_quantity :: int

record CreateOrderDto =
  d_vendorId :: uuid
  d_items :: "cart_line list"
  d_paymentMethod :: PaymentMethod
  d_noteForVendor :: "string option"
  d_delivery :: delivery_address
  d_scheduledFor :: "time option"
  d_couponCode :: "string option"

record order_line =
  ln_itemId :: uuid
  ln_nameSnapshot :: string
  ln_priceXAFSnapshot :: xaf
  ln_quantity :: int
  ln_lineXAF :: xaf

record creation_env =
  env_distanceKm :: "uuid \<Rightarrow> rat \<Rightarrow> rat \<Rightarrow> rat option"
  env_orderId :: uuid
  env_lineId :: "nat \<Rightarrow> uuid"
  env_code :: string
  env_pickupCode :: string
  env_deliveryCode :: string

section \<open>The cart\<close>

definition cart_items :: "uuid \<Rightarrow> cart_line list \<Rightarrow> world \<Rightarrow> item list" where
  "cart_items vendorId ls w =
     filter (\<lambda>i. i_id i \<in> set (map cl_itemId ls) \<and> i_vendorId i = vendorId) (w_items w)"

definition order_line_of :: "item list \<Rightarrow> cart_line \<Rightarrow> order_line option" where
  "order_line_of items l =
     (case find_row (\<lambda>i. i_id i = cl_itemId l) items of
        None \<Rightarrow> None
      | Some i \<Rightarrow> Some \<lparr>ln_itemId = i_id i, ln_nameSnapshot = i_name i,
                       ln_priceXAFSnapshot = i_priceXAF i, ln_quantity = cl_quantity l,
                       ln_lineXAF = i_priceXAF i * cl_quantity l\<rparr>)"

text \<open>\<open>itemMap.get(...)!\<close> of a missing item would be a TypeError; the length check rules it out.\<close>

definition price_cart :: "uuid \<Rightarrow> cart_line list \<Rightarrow> world \<Rightarrow> http_error + order_line list" where
  "price_cart vendorId ls w =
     (let items = cart_items vendorId ls w
      in if length items \<noteq> length ls then Inl (BadRequest ''item_not_in_vendor_menu'')
         else if list_ex (\<lambda>i. \<not> i_isAvailable i \<or> \<not> i_isInStock i) items
         then Inl (Conflict ''item_out_of_stock'')
         else case those (map (order_line_of items) ls) of
                None \<Rightarrow> Inl (UpstreamError ''TypeError'')
              | Some lines \<Rightarrow> Inr lines)"

definition check_schedule :: "bool \<Rightarrow> time option \<Rightarrow> time \<Rightarrow> http_error + unit" where
  "check_schedule acceptsPreOrders scheduledFor now =
     (case scheduledFor of
        None \<Rightarrow> Inr ()
      | Some t \<Rightarrow>
          if \<not> acceptsPreOrders then Inl (BadRequest ''pre_orders_not_accepted_by_this_vendor'')
          else if t < now + PRE_ORDER_MIN_LEAD_HOURS * 3600000 then Inl (BadRequest ''pre_order_too_soon'')
          else if t > now + PRE_ORDER_MAX_LEAD_HOURS * 3600000
          then Inl (BadRequest ''pre_order_too_far_in_future'')
          else Inr ())"

section \<open>The transaction\<close>

definition new_order ::
  "creation_env \<Rightarrow> uuid \<Rightarrow> CreateOrderDto \<Rightarrow> vendor \<Rightarrow> xaf \<Rightarrow> xaf \<Rightarrow> string option \<Rightarrow> time \<Rightarrow> order" where
  "new_order env userId dto vendor subtotalXAF deliveryFeeXAF idempotencyKey now =
     \<lparr>o_id = env_orderId env, o_code = env_code env, o_userId = userId, o_vendorId = v_id vendor,
      o_status = OS_PENDING, o_subtotalXAF = subtotalXAF, o_deliveryFeeXAF = deliveryFeeXAF,
      o_discountXAF = 0, o_couponCode = None, o_totalXAF = subtotalXAF + deliveryFeeXAF,
      o_noteForVendor = d_noteForVendor dto, o_commissionRate = v_commissionRate vendor,
      o_commissionXAF = None, o_riderShareXAF = None, o_platformFeeXAF = None, o_payoutId = None,
      o_paymentMethod = d_paymentMethod dto, o_paymentStatus = PS_PENDING,
      o_paymentReference = None, o_payerPhone = None, o_delivery = d_delivery dto,
      o_pickupCode = env_pickupCode env, o_deliveryCode = env_deliveryCode env,
      o_refusalReason = None, o_riderId = None, o_placedAt = now, o_paidAt = None,
      o_acceptedAt = None, o_refusedAt = None, o_preparedAt = None, o_assignedAt = None,
      o_pickedUpAt = None, o_deliveredAt = None, o_cancelledAt = None, o_refundInitiatedAt = None,
      o_refundCampayRef = None, o_refundedAt = None, o_refundFailureReason = None,
      o_acceptanceDeadlineAt = None, o_scheduledFor = d_scheduledFor dto,
      o_idempotencyKey = idempotencyKey\<rparr>"

definition new_items :: "creation_env \<Rightarrow> order_line list \<Rightarrow> order_item list" where
  "new_items env lines =
     map (\<lambda>(n, l). \<lparr>oi_id = env_lineId env n, oi_orderId = env_orderId env, oi_itemId = Some (ln_itemId l),
                    oi_nameSnapshot = ln_nameSnapshot l, oi_priceXAFSnapshot = ln_priceXAFSnapshot l,
                    oi_quantity = ln_quantity l, oi_lineXAF = ln_lineXAF l, oi_preparedAt = None\<rparr>)
       (enumerate 0 lines)"

text \<open>
  The unique columns: the human-readable code, and (user, idempotency key) when there is a key.
  The coupon part re-reads nothing of the order but its id; the update of discount, code and
  total goes to the row just created.
\<close>

definition createOrder_tx ::
  "creation_env \<Rightarrow> order \<Rightarrow> order_line list \<Rightarrow> string option \<Rightarrow> time \<Rightarrow> world \<Rightarrow> (order, world) outcome" where
  "createOrder_tx env order lines couponCode now w =
     (if list_ex (\<lambda>r. o_code r = o_code order
                    \<or> o_idempotencyKey order \<noteq> None \<and> o_userId r = o_userId order
                        \<and> o_idempotencyKey r = o_idempotencyKey order) (w_orders w)
      then (Inl (PrismaError ''P2002''), w)
      else
        (let w1 = w\<lparr>w_orders := w_orders w @ [order],
                    w_orderItems := w_orderItems w @ new_items env lines\<rparr>
         in if falsy couponCode then (Inr order, w1)
            else
              (case redeemInTransaction (the couponCode) (o_userId order) (o_id order)
                      (o_subtotalXAF order) (o_deliveryFeeXAF order) now w1 of
                 (Inl e, _) \<Rightarrow> (Inl e, w)
               | (Inr rd, w2) \<Rightarrow>
                   (let discounted = order\<lparr>o_discountXAF := rd_appliedDiscountXAF rd,
                          o_couponCode := Some (rd_code rd),
                          o_totalXAF := o_subtotalXAF order + o_deliveryFeeXAF order - rd_appliedDiscountXAF rd\<rparr>
                    in (Inr discounted,
                        orders_updateMany (\<lambda>r. o_id r = o_id order) (\<lambda>_. discounted) w2)))))"

definition existing_order :: "uuid \<Rightarrow> string option \<Rightarrow> world \<Rightarrow> order option" where
  "existing_order userId idempotencyKey w =
     (if falsy idempotencyKey then None
      else find_row (\<lambda>r. o_userId r = userId \<and> o_idempotencyKey r = idempotencyKey) (w_orders w))"

definition createOrder ::
  "creation_env \<Rightarrow> uuid \<Rightarrow> CreateOrderDto \<Rightarrow> string option \<Rightarrow> time \<Rightarrow> world \<Rightarrow> (order, world) outcome" where
  "createOrder env userId dto idempotencyKey now w =
     (case existing_order userId idempotencyKey w of
        Some existing \<Rightarrow> (Inr existing, w)
      | None \<Rightarrow>
          (case vendor_by_id (d_vendorId dto) w of
             None \<Rightarrow> (Inl (NotFound ''vendor_not_found''), w)
           | Some vendor \<Rightarrow>
               if v_status vendor \<noteq> VS_ACTIVE then (Inl (NotFound ''vendor_not_found''), w)
               else if \<not> v_isOpen vendor then (Inl (Conflict ''vendor_closed''), w)
               else
                 (case price_cart (v_id vendor) (d_items dto) w of
                    Inl e \<Rightarrow> (Inl e, w)
                  | Inr lines \<Rightarrow>
                      (let subtotalXAF = sum_list (map ln_lineXAF lines)
                       in case env_distanceKm env (v_id vendor) (da_lat (d_delivery dto)) (da_lng (d_delivery dto)) of
                            None \<Rightarrow> (Inl (NotFound ''vendor_not_found''), w)
                          | Some distanceKm \<Rightarrow>
                              (let deliveryFeeXAF = computeDeliveryFeeXAF distanceKm
                               in if subtotalXAF + deliveryFeeXAF < MIN_ORDER_XAF
                                  then (Inl (BadRequest ''order_below_minimum''), w)
                                  else
                                    (case check_schedule (v_acceptsPreOrders vendor) (d_scheduledFor dto) now of
                                       Inl e \<Rightarrow> (Inl e, w)
                                     | Inr _ \<Rightarrow>
                                         createOrder_tx env
                                           (new_order env userId dto vendor subtotalXAF deliveryFeeXAF idempotencyKey now)
                                           lines (d_couponCode dto) now w))))))"

section \<open>Codes\<close>

text \<open>The random bytes are the parameters.\<close>

definition code_alphabet :: string where "code_alphabet = ''ABCDEFGHJKLMNPQRSTUVWXYZ23456789''"

definition generateOrderCode :: "nat list \<Rightarrow> string" where
  "generateOrderCode bytes =
     ''TC-'' @ map (\<lambda>i. code_alphabet ! (bytes ! i mod length code_alphabet)) [0..<5]"

definition padStart4 :: "string \<Rightarrow> string" where
  "padStart4 s = replicate (4 - length s) CHR ''0'' @ s"

definition generate4DigitCode :: "nat \<Rightarrow> string" where
  "generate4DigitCode n16 = padStart4 (show_nat (n16 mod 10000))"

lemma length_show_nat: "n < 10000 \<Longrightarrow> length (show_nat n) \<le> 4"
proof -
  assume "n < 10000"
  then have "n div 10 < 1000" "n div 10 div 10 < 100" "n div 10 div 10 div 10 < 10" by auto
  then show ?thesis
    by (simp add: show_nat.simps [of n] show_nat.simps [of "n div 10"] show_nat.simps [of "n div 10 div 10"]
        show_nat.simps [of "n div 10 div 10 div 10"] del: div_mult2_eq)
qed

lemma generate4DigitCode_format:
  "length (generate4DigitCode n) = 4 \<and> list_all is_digit (generate4DigitCode n)"
proof -
  have "length (show_nat (n mod 10000)) \<le> 4" by (rule length_show_nat) simp
  moreover have "list_all is_digit (show_nat (n mod 10000))" using show_nat_digits by blast
  moreover have "is_digit CHR ''0''" by (simp add: is_digit_def)
  ultimately show ?thesis
    by (auto simp: generate4DigitCode_def padStart4_def list_all_iff split: if_splits)
qed

section \<open>The priced cart\<close>

lemma those_map_Some:
  "those (map f xs) = Some ys \<Longrightarrow> length ys = length xs \<and> (\<forall>i < length xs. f (xs ! i) = Some (ys ! i))"
proof (induction xs arbitrary: ys)
  case (Cons x xs)
  then obtain y zs where yz: "f x = Some y" "those (map f xs) = Some zs" "ys = y # zs"
    by (auto split: option.splits)
  then show ?case using Cons.IH [OF yz(2)] by (auto simp: nth_Cons split: nat.splits)
qed simp

lemma price_cart_Inr:
  assumes "price_cart vid ls w = Inr lines"
  shows "length lines = length ls"
    and "n < length ls \<Longrightarrow> \<exists>i \<in> set (w_items w). i_id i = cl_itemId (ls ! n) \<and> i_vendorId i = vid
           \<and> i_isAvailable i \<and> i_isInStock i
           \<and> lines ! n = \<lparr>ln_itemId = i_id i, ln_nameSnapshot = i_name i, ln_priceXAFSnapshot = i_priceXAF i,
                 ln_quantity = cl_quantity (ls ! n), ln_lineXAF = i_priceXAF i * cl_quantity (ls ! n)\<rparr>"
proof -
  let ?items = "cart_items vid ls w"
  have l: "those (map (order_line_of ?items) ls) = Some lines"
    and av: "\<forall>i \<in> set ?items. i_isAvailable i \<and> i_isInStock i"
    using assms by (auto simp: price_cart_def Let_def list_ex_iff split: if_splits option.splits)
  show "length lines = length ls" using those_map_Some [OF l] by blast
  assume n: "n < length ls"
  then have "order_line_of ?items (ls ! n) = Some (lines ! n)" using those_map_Some [OF l] by blast
  then obtain i where i: "find_row (\<lambda>i. i_id i = cl_itemId (ls ! n)) ?items = Some i"
    and line: "lines ! n = \<lparr>ln_itemId = i_id i, ln_nameSnapshot = i_name i, ln_priceXAFSnapshot = i_priceXAF i,
                 ln_quantity = cl_quantity (ls ! n), ln_lineXAF = i_priceXAF i * cl_quantity (ls ! n)\<rparr>"
    by (auto simp: order_line_of_def split: option.splits)
  from find_row_Some [OF i] show "\<exists>i \<in> set (w_items w). i_id i = cl_itemId (ls ! n) \<and> i_vendorId i = vid
           \<and> i_isAvailable i \<and> i_isInStock i
           \<and> lines ! n = \<lparr>ln_itemId = i_id i, ln_nameSnapshot = i_name i, ln_priceXAFSnapshot = i_priceXAF i,
                 ln_quantity = cl_quantity (ls ! n), ln_lineXAF = i_priceXAF i * cl_quantity (ls ! n)\<rparr>"
    using av line by (auto simp: cart_items_def)
qed

text \<open>With unique item ids, a cart that passes the length check has no repeated item.\<close>

lemma price_cart_distinct:
  assumes "price_cart vid ls w = Inr lines" and "distinct (map i_id (w_items w))"
  shows "distinct (map cl_itemId ls)"
proof (rule ccontr)
  assume "\<not> distinct (map cl_itemId ls)"
  then have "card (set (map cl_itemId ls)) < length ls"
    using card_length [of "map cl_itemId ls"] by (metis card_distinct length_map order_le_imp_less_or_eq)
  moreover have "length (cart_items vid ls w) \<le> card (set (map cl_itemId ls))"
  proof -
    have "distinct (map i_id (cart_items vid ls w))"
      using assms(2) by (simp add: cart_items_def distinct_map_filter)
    then have "length (cart_items vid ls w) = card (set (map i_id (cart_items vid ls w)))"
      by (metis distinct_card length_map)
    also have "\<dots> \<le> card (set (map cl_itemId ls))"
      by (rule card_mono) (auto simp: cart_items_def)
    finally show ?thesis .
  qed
  ultimately show False using assms(1) by (simp add: price_cart_def Let_def split: if_splits)
qed

section \<open>What createOrder does\<close>

definition order_total_ok :: "order \<Rightarrow> bool" where
  "order_total_ok r \<longleftrightarrow>
     o_totalXAF r = o_subtotalXAF r + o_deliveryFeeXAF r - o_discountXAF r
     \<and> (o_couponCode r = None \<longrightarrow> o_discountXAF r = 0) \<and> 0 \<le> o_totalXAF r"

lemma createOrder_tx_Inr:
  assumes "createOrder_tx env order lines cc now w = (Inr r, w')"
    and "\<forall>x \<in> set (w_orders w). o_id x \<noteq> o_id order"
    and "o_totalXAF order = o_subtotalXAF order + o_deliveryFeeXAF order" and "o_discountXAF order = 0"
    and "0 \<le> o_subtotalXAF order" and "0 \<le> o_deliveryFeeXAF order" and "o_couponCode order = None"
  shows "w_orders w' = w_orders w @ [r]" and "w_ledger w' = w_ledger w"
    and "w_orderItems w' = w_orderItems w @ new_items env lines"
    and "\<exists>disc cc. r = order\<lparr>o_discountXAF := disc, o_couponCode := cc,
            o_totalXAF := o_subtotalXAF order + o_deliveryFeeXAF order - disc\<rparr>"
    and "order_total_ok r"
    and "falsy cc \<Longrightarrow> o_discountXAF r = 0"
proof -
  let ?w1 = "w\<lparr>w_orders := w_orders w @ [order], w_orderItems := w_orderItems w @ new_items env lines\<rparr>"
  have upd: "upd_where (\<lambda>x. o_id x = o_id order) (\<lambda>_. r) (w_orders w @ [order]) = w_orders w @ [r]"
    using upd_where_none [of "w_orders w" "\<lambda>x. o_id x = o_id order" "\<lambda>_. r"] assms(2)
    by (simp add: upd_where_def)
  have red: "rd_appliedDiscountXAF rd \<le> o_subtotalXAF order + o_deliveryFeeXAF order
      \<and> w_orders w2 = w_orders ?w1 \<and> w_ledger w2 = w_ledger ?w1 \<and> w_orderItems w2 = w_orderItems ?w1"
    if "redeemInTransaction code u i (o_subtotalXAF order) (o_deliveryFeeXAF order) now ?w1 = (Inr rd, w2)"
    for code u i rd w2
    using that computeDiscount_bounds(1) [OF assms(5,6)]
    by (auto simp: redeemInTransaction_def Let_def validateRow_Inr split: if_splits sum.splits)
  have all: "w_orders w' = w_orders w @ [r] \<and> w_ledger w' = w_ledger w
      \<and> w_orderItems w' = w_orderItems w @ new_items env lines
      \<and> (\<exists>disc cc. r = order\<lparr>o_discountXAF := disc, o_couponCode := cc,
            o_totalXAF := o_subtotalXAF order + o_deliveryFeeXAF order - disc\<rparr>)
      \<and> order_total_ok r \<and> (falsy cc \<longrightarrow> o_discountXAF r = 0)"
  proof (cases "falsy cc")
    case True
    then have "r = order" "w' = ?w1"
      using assms(1) by (auto simp: createOrder_tx_def Let_def split: if_splits)
    moreover have "order = order\<lparr>o_discountXAF := 0, o_couponCode := None,
        o_totalXAF := o_subtotalXAF order + o_deliveryFeeXAF order - 0\<rparr>"
      using assms(3,4,7) by (cases order) simp
    then have "\<exists>disc cc. order = order\<lparr>o_discountXAF := disc, o_couponCode := cc,
        o_totalXAF := o_subtotalXAF order + o_deliveryFeeXAF order - disc\<rparr>" by blast
    ultimately show ?thesis using assms(3-7) by (simp add: order_total_ok_def)
  next
    case False
    obtain rd w2 where rd: "redeemInTransaction (the cc) (o_userId order) (o_id order) (o_subtotalXAF order)
        (o_deliveryFeeXAF order) now ?w1 = (Inr rd, w2)"
      and r: "r = order\<lparr>o_discountXAF := rd_appliedDiscountXAF rd, o_couponCode := Some (rd_code rd),
          o_totalXAF := o_subtotalXAF order + o_deliveryFeeXAF order - rd_appliedDiscountXAF rd\<rparr>"
      and w': "w' = orders_updateMany (\<lambda>x. o_id x = o_id order) (\<lambda>_. r) w2"
      using assms(1) False by (auto simp: createOrder_tx_def Let_def split: if_splits prod.splits sum.splits)
    note k = red [OF rd]
    have "w_orders w' = w_orders w @ [r]" using k upd by (simp add: w')
    moreover have "order_total_ok r" using k by (simp add: r order_total_ok_def)
    moreover have "\<exists>disc cc. r = order\<lparr>o_discountXAF := disc, o_couponCode := cc,
        o_totalXAF := o_subtotalXAF order + o_deliveryFeeXAF order - disc\<rparr>" using r by blast
    ultimately show ?thesis using k False by (simp add: w')
  qed
  then show "w_orders w' = w_orders w @ [r]" "w_ledger w' = w_ledger w"
    "w_orderItems w' = w_orderItems w @ new_items env lines" "order_total_ok r"
    "\<exists>disc cc. r = order\<lparr>o_discountXAF := disc, o_couponCode := cc,
            o_totalXAF := o_subtotalXAF order + o_deliveryFeeXAF order - disc\<rparr>"
    "falsy cc \<Longrightarrow> o_discountXAF r = 0" by blast+
qed

text \<open>A successful creation that is not a replay, opened up.\<close>

lemma createOrder_fresh:
  assumes "createOrder env u dto key now w = (Inr r, w')" and "existing_order u key w = None"
  obtains vendor lines km where "vendor_by_id (d_vendorId dto) w = Some vendor"
    and "v_status vendor = VS_ACTIVE" and "v_isOpen vendor"
    and "price_cart (v_id vendor) (d_items dto) w = Inr lines"
    and "env_distanceKm env (v_id vendor) (da_lat (d_delivery dto)) (da_lng (d_delivery dto)) = Some km"
    and "MIN_ORDER_XAF \<le> sum_list (map ln_lineXAF lines) + computeDeliveryFeeXAF km"
    and "check_schedule (v_acceptsPreOrders vendor) (d_scheduledFor dto) now = Inr ()"
    and "createOrder_tx env (new_order env u dto vendor (sum_list (map ln_lineXAF lines))
           (computeDeliveryFeeXAF km) key now) lines (d_couponCode dto) now w = (Inr r, w')"
  using assms by (auto simp: createOrder_def Let_def split: option.splits if_splits sum.splits)

lemma cart_total_nonneg:
  assumes "price_cart vid ls w = Inr lines" and "\<forall>i \<in> set (w_items w). 0 \<le> i_priceXAF i"
    and "\<forall>l \<in> set ls. 0 \<le> cl_quantity l"
  shows "0 \<le> sum_list (map ln_lineXAF lines)"
proof (rule sum_list_nonneg)
  fix x assume "x \<in> set (map ln_lineXAF lines)"
  then obtain n where n: "n < length lines" "x = ln_lineXAF (lines ! n)"
    by (auto simp: in_set_conv_nth)
  then have "n < length ls" using price_cart_Inr(1) [OF assms(1)] by simp
  then show "0 \<le> x" using price_cart_Inr(2) [OF assms(1) \<open>n < length ls\<close>] n(2) assms(2,3)
    by (fastforce intro: mult_nonneg_nonneg)
qed

text \<open>
  C8.  A fresh order is priced by the server: every line is an item of the open, approved vendor, in
  stock, at the price of the database times the quantity; the subtotal is the sum of the lines,
  the fee comes from the distance, the gross is at least 1200 FCFA, the discount is zero without a
  coupon and never makes the total negative, the order starts unpaid with no acceptance deadline,
  and a requested time lies between 4 and 24 hours ahead.  Existing orders and the ledger are not
  touched.
\<close>

theorem createOrder_priced_by_server:
  assumes "createOrder env u dto key now w = (Inr r, w')" and "existing_order u key w = None"
    and "\<forall>x \<in> set (w_orders w). o_id x \<noteq> env_orderId env"
    and "\<forall>i \<in> set (w_items w). 0 \<le> i_priceXAF i" and "\<forall>l \<in> set (d_items dto). 0 \<le> cl_quantity l"
  shows "w_orders w' = w_orders w @ [r] \<and> w_ledger w' = w_ledger w
    \<and> o_userId r = u \<and> o_status r = OS_PENDING \<and> o_paymentStatus r = PS_PENDING
    \<and> o_acceptanceDeadlineAt r = None
    \<and> (\<exists>v ls km. vendor_by_id (d_vendorId dto) w = Some v \<and> v_status v = VS_ACTIVE \<and> v_isOpen v
        \<and> length ls = length (d_items dto)
        \<and> (\<forall>n < length ls. \<exists>i \<in> set (w_items w). i_id i = cl_itemId (d_items dto ! n)
             \<and> i_vendorId i = v_id v \<and> i_isAvailable i \<and> i_isInStock i
             \<and> ln_lineXAF (ls ! n) = i_priceXAF i * cl_quantity (d_items dto ! n))
        \<and> o_subtotalXAF r = sum_list (map ln_lineXAF ls) \<and> o_deliveryFeeXAF r = computeDeliveryFeeXAF km
        \<and> o_commissionRate r = v_commissionRate v
        \<and> w_orderItems w' = w_orderItems w @ new_items env ls)
    \<and> 1200 \<le> o_subtotalXAF r + o_deliveryFeeXAF r
    \<and> o_totalXAF r = o_subtotalXAF r + o_deliveryFeeXAF r - o_discountXAF r \<and> 0 \<le> o_totalXAF r
    \<and> (falsy (d_couponCode dto) \<longrightarrow> o_discountXAF r = 0)
    \<and> (\<forall>t. o_scheduledFor r = Some t \<longrightarrow> now + 4 * 3600000 \<le> t \<and> t \<le> now + 24 * 3600000)"
proof -
  obtain v ls km where v: "vendor_by_id (d_vendorId dto) w = Some v" "v_status v = VS_ACTIVE" "v_isOpen v"
    and ls: "price_cart (v_id v) (d_items dto) w = Inr ls"
    and min: "MIN_ORDER_XAF \<le> sum_list (map ln_lineXAF ls) + computeDeliveryFeeXAF km"
    and sch: "check_schedule (v_acceptsPreOrders v) (d_scheduledFor dto) now = Inr ()"
    and tx: "createOrder_tx env (new_order env u dto v (sum_list (map ln_lineXAF ls))
           (computeDeliveryFeeXAF km) key now) ls (d_couponCode dto) now w = (Inr r, w')"
    using createOrder_fresh [OF assms(1,2)] by metis
  let ?o = "new_order env u dto v (sum_list (map ln_lineXAF ls)) (computeDeliveryFeeXAF km) key now"
  have sub: "0 \<le> sum_list (map ln_lineXAF ls)" by (rule cart_total_nonneg [OF ls assms(4,5)])
  have fee: "0 \<le> computeDeliveryFeeXAF km" using delivery_fee_floor [of km] by simp
  note t = createOrder_tx_Inr [OF tx]
  have shape: "\<exists>disc cc. r = ?o\<lparr>o_discountXAF := disc, o_couponCode := cc,
      o_totalXAF := o_subtotalXAF ?o + o_deliveryFeeXAF ?o - disc\<rparr>"
    by (rule t(4)) (use assms(3) sub fee in \<open>simp_all add: new_order_def\<close>)
  have w': "w_orders w' = w_orders w @ [r]" "w_ledger w' = w_ledger w"
    "w_orderItems w' = w_orderItems w @ new_items env ls" "order_total_ok r"
    "falsy (d_couponCode dto) \<Longrightarrow> o_discountXAF r = 0"
    using t(1,2,3,5,6) assms(3) sub fee by (simp_all add: new_order_def)
  have r: "o_userId r = u" "o_status r = OS_PENDING" "o_paymentStatus r = PS_PENDING"
    "o_acceptanceDeadlineAt r = None" "o_subtotalXAF r = sum_list (map ln_lineXAF ls)"
    "o_deliveryFeeXAF r = computeDeliveryFeeXAF km" "o_commissionRate r = v_commissionRate v"
    "o_scheduledFor r = d_scheduledFor dto"
    using shape by (auto simp: new_order_def)
  have lines: "\<forall>n < length ls. \<exists>i \<in> set (w_items w). i_id i = cl_itemId (d_items dto ! n)
             \<and> i_vendorId i = v_id v \<and> i_isAvailable i \<and> i_isInStock i
             \<and> ln_lineXAF (ls ! n) = i_priceXAF i * cl_quantity (d_items dto ! n)"
    using price_cart_Inr [OF ls] by fastforce
  have "now + 4 * 3600000 \<le> t \<and> t \<le> now + 24 * 3600000" if "d_scheduledFor dto = Some t" for t
    using sch that by (auto simp: check_schedule_def PRE_ORDER_MIN_LEAD_HOURS_def
        PRE_ORDER_MAX_LEAD_HOURS_def split: if_splits)
  then show ?thesis
    using v w' r lines price_cart_Inr(1) [OF ls] min
    by (auto simp: order_total_ok_def MIN_ORDER_XAF_def)
qed

definition demo_item :: item where
  "demo_item = \<lparr>i_id = ''I'', i_vendorId = ''V'', i_name = ''Ndole'', i_priceXAF = 1250,
                 i_isAvailable = True, i_isInStock = True, i_categoryId = None,
                 i_description = None, i_photoUrl = None, i_stockLevel = IN_STOCK, i_kind = FOOD,
                 i_preparationMinutes = None, i_sortOrder = 0, i_createdAt = 0\<rparr>"

definition demo_env :: creation_env where
  "demo_env = \<lparr>env_distanceKm = (\<lambda>_ _ _. Some 4), env_orderId = ''N'', env_lineId = (\<lambda>n. ''L'' @ show_nat n),
                env_code = ''TC-BBBBB'', env_pickupCode = ''1111'', env_deliveryCode = ''2222''\<rparr>"

definition demo_dto :: "int \<Rightarrow> CreateOrderDto" where
  "demo_dto q = \<lparr>d_vendorId = ''V'', d_items = [\<lparr>cl_itemId = ''I'', cl_quantity = q\<rparr>],
     d_paymentMethod = MTN_MOMO, d_noteForVendor = None,
     d_delivery = \<lparr>da_lat = 4, da_lng = 9, da_quartier = ''Akwa'', da_landmark = None,
                    da_description = None, da_phone = ''670000099''\<rparr>,
     d_scheduledFor = None, d_couponCode = None\<rparr>"

definition demo_shop :: world where "demo_shop = (demo_world [] [])\<lparr>w_items := [demo_item]\<rparr>"

lemma demo_fee: "computeDeliveryFeeXAF 4 = 650"
  by (simp add: computeDeliveryFeeXAF_def delivery_consts Let_def)

lemma demo_create:
  "createOrder demo_env ''C'' (demo_dto 2) (Some ''k'') 7 demo_shop =
   createOrder_tx demo_env (new_order demo_env ''C'' (demo_dto 2) demo_vendor 2500 650 (Some ''k'') 7)
     [\<lparr>ln_itemId = ''I'', ln_nameSnapshot = ''Ndole'', ln_priceXAFSnapshot = 1250, ln_quantity = 2,
       ln_lineXAF = 2500\<rparr>] None 7 demo_shop"
  by (simp add: createOrder_def existing_order_def demo_shop_def demo_dto_def vendor_by_id_def
      price_cart_def cart_items_def order_line_of_def demo_item_def demo_env_def demo_fee
      MIN_ORDER_XAF_def check_schedule_def Let_def) (simp add: demo_vendor_def)

theorem createOrder_priced_by_server_witness:
  "\<exists>r w'. createOrder demo_env ''C'' (demo_dto 2) (Some ''k'') 7 demo_shop = (Inr r, w')
         \<and> w_orders w' = [r] \<and> o_status r = OS_PENDING"
proof -
  have none: "existing_order ''C'' (Some ''k'') demo_shop = None"
    by (simp add: existing_order_def demo_shop_def)
  have "\<not> failed (createOrder demo_env ''C'' (demo_dto 2) (Some ''k'') 7 demo_shop)"
    unfolding demo_create by (simp add: createOrder_tx_def demo_shop_def Let_def)
  then obtain r w' where run: "createOrder demo_env ''C'' (demo_dto 2) (Some ''k'') 7 demo_shop = (Inr r, w')"
    by (auto elim: not_failedE)
  show ?thesis
    using createOrder_priced_by_server [OF run none] run
    by (auto simp: demo_shop_def demo_item_def demo_dto_def)
qed

text \<open>
  C39.  A client that repeats a creation with the same idempotency key gets the order created first
  and creates nothing, whatever it sends the second time.
\<close>

theorem createOrder_idempotent:
  assumes "createOrder env u dto (Some k) now w = (Inr r, w')" and "k \<noteq> []"
    and "existing_order u (Some k) w = None"
    and "\<forall>x \<in> set (w_orders w). o_id x \<noteq> env_orderId env"
    and "\<forall>i \<in> set (w_items w). 0 \<le> i_priceXAF i" and "\<forall>l \<in> set (d_items dto). 0 \<le> cl_quantity l"
  shows "createOrder env' u dto' (Some k) now' w' = (Inr r, w') \<and> o_idempotencyKey r = Some k"
proof -
  obtain v ls km where ls: "price_cart (v_id v) (d_items dto) w = Inr ls"
    and tx: "createOrder_tx env (new_order env u dto v (sum_list (map ln_lineXAF ls))
           (computeDeliveryFeeXAF km) (Some k) now) ls (d_couponCode dto) now w = (Inr r, w')"
    using createOrder_fresh [OF assms(1,3)] by metis
  have sub: "0 \<le> sum_list (map ln_lineXAF ls)" by (rule cart_total_nonneg [OF ls assms(5,6)])
  have fee: "0 \<le> computeDeliveryFeeXAF km" using delivery_fee_floor [of km] by simp
  have "w_orders w' = w_orders w @ [r]"
    using createOrder_tx_Inr(1) [OF tx] assms(4) sub fee by (simp add: new_order_def)
  moreover have "o_userId r = u \<and> o_idempotencyKey r = Some k"
    using createOrder_tx_Inr(4) [OF tx] assms(4) sub fee by (auto simp: new_order_def)
  moreover have "find_row (\<lambda>x. o_userId x = u \<and> o_idempotencyKey x = Some k) (w_orders w) = None"
    using assms(2,3) by (simp add: existing_order_def)
  ultimately have "existing_order u (Some k) w' = Some r \<and> o_idempotencyKey r = Some k"
    using assms(2) by (simp add: existing_order_def find_row_append)
  then show ?thesis by (simp add: createOrder_def)
qed

theorem createOrder_idempotent_witness:
  "\<exists>r w'. createOrder demo_env ''C'' (demo_dto 2) (Some ''k'') 7 demo_shop = (Inr r, w')
        \<and> createOrder demo_env ''C'' (demo_dto 5) (Some ''k'') 9 w' = (Inr r, w')"
proof -
  have none: "existing_order ''C'' (Some ''k'') demo_shop = None"
    by (simp add: existing_order_def demo_shop_def)
  have "\<not> failed (createOrder demo_env ''C'' (demo_dto 2) (Some ''k'') 7 demo_shop)"
    unfolding demo_create by (simp add: createOrder_tx_def demo_shop_def Let_def)
  then obtain r w' where run: "createOrder demo_env ''C'' (demo_dto 2) (Some ''k'') 7 demo_shop = (Inr r, w')"
    by (auto elim: not_failedE)
  show ?thesis
    using createOrder_idempotent [OF run _ none, of demo_env "demo_dto 5" 9] run
    by (auto simp: demo_shop_def demo_item_def demo_dto_def)
qed

text \<open>A cart naming one item on two lines is always refused as foreign to the vendor's menu.\<close>

lemma repeated_item_refused:
  assumes "distinct (map i_id (w_items w))" and "\<not> distinct (map cl_itemId ls)"
  shows "\<exists>e. price_cart vid ls w = Inl e"
  using price_cart_distinct [OF _ assms(1)] assms(2) by (cases "price_cart vid ls w") auto

section \<open>Books and rows\<close>

lemma createOrder_tx_ledger: "w_ledger (snd (createOrder_tx env order lines cc now w)) = w_ledger w"
  by (auto simp: createOrder_tx_def redeemInTransaction_def Let_def split: prod.splits sum.splits if_splits)

lemma createOrder_ledger: "w_ledger (snd (createOrder env u dto key now w)) = w_ledger w"
  by (auto simp: createOrder_def createOrder_tx_ledger Let_def split: option.splits sum.splits)

text \<open>Creation keeps the old rows and adds at most one, under a new id when the id is fresh.\<close>

lemma createOrder_tx_rows:
  assumes "\<forall>x \<in> set (w_orders w). o_id x \<noteq> o_id order"
  shows "w_orders (snd (createOrder_tx env order lines cc now w)) = w_orders w
       \<or> (\<exists>r. o_id r = o_id order \<and> w_orders (snd (createOrder_tx env order lines cc now w)) = w_orders w @ [r])"
proof -
  have upd: "upd_where (\<lambda>x. o_id x = o_id order) (\<lambda>_. r) (w_orders w @ [order]) = w_orders w @ [r]" for r
    using upd_where_none [of "w_orders w" "\<lambda>x. o_id x = o_id order" "\<lambda>_. r"] assms
    by (simp add: upd_where_def)
  have red: "w_orders w2 = w_orders v" if "redeemInTransaction c u i s f now v = (Inr rd, w2)"
    for c u i s f v rd w2
    using that by (auto simp: redeemInTransaction_def Let_def split: sum.splits if_splits)
  show ?thesis
    by (auto simp: createOrder_tx_def Let_def upd split: prod.splits sum.splits dest!: red)
qed

end
