(* ===== verification/Payments.thy ===== *)
theory Payments
  imports Campay Order_Creation
begin

text \<open>
  \<open>modules/payments/payments.service.ts\<close> with its guard and the webhook deduplication table
  (\<open>infra/campay/campay-webhook-dedup.service.ts\<close>).  The call to Campay is the parameter
  \<open>collect\<close>, what \<open>campay.initiateCollect\<close> answers to a request (\<open>Campay.initiateCollect\<close> is its
  model).  Events are appended to the bus; the listener of \<open>PAYMENT_SUCCEEDED\<close> is
  \<open>onPaymentSucceeded\<close> of \<open>Order_Payment\<close>.
\<close>

section \<open>The deduplication table\<close>

record mark_result =
  isFirst :: bool
  existingResult :: "string option"

definition is_webhook :: "CampayWebhookEventType \<Rightarrow> string \<Rightarrow> webhook_event \<Rightarrow> bool" where
  "is_webhook eventType reference e \<longleftrightarrow> we_eventType e = eventType \<and> we_reference e = reference"

definition markProcessed :: "CampayWebhookEventType \<Rightarrow> string \<Rightarrow> world \<Rightarrow> mark_result \<times> world" where
  "markProcessed eventType reference w =
     (case find_row (is_webhook eventType reference) (w_webhooks w) of
        None \<Rightarrow> (\<lparr>isFirst = True, existingResult = None\<rparr>,
                 w\<lparr>w_webhooks := w_webhooks w @
                     [\<lparr>we_eventType = eventType, we_reference = reference, we_result = None\<rparr>]\<rparr>)
      | Some existing \<Rightarrow> (\<lparr>isFirst = False, existingResult = we_result existing\<rparr>, w))"

definition recordResult :: "CampayWebhookEventType \<Rightarrow> string \<Rightarrow> string \<Rightarrow> world \<Rightarrow> world" where
  "recordResult eventType reference result w =
     w\<lparr>w_webhooks := upd_where (\<lambda>e. is_webhook eventType reference e \<and> we_result e = None)
         (\<lambda>e. e\<lparr>we_result := Some result\<rparr>) (w_webhooks w)\<rparr>"

text \<open>The contract of a table of processed notifications, as every webhook handler relies on it.\<close>

locale dedup =
  fixes seen :: "'k \<Rightarrow> 'w \<Rightarrow> bool" and mark :: "'k \<Rightarrow> 'w \<Rightarrow> bool \<times> 'w" and note_result :: "'k \<Rightarrow> string \<Rightarrow> 'w \<Rightarrow> 'w"
  assumes mark_first: "fst (mark k w) \<longleftrightarrow> \<not> seen k w"
    and mark_seen: "seen j (snd (mark k w)) \<longleftrightarrow> j = k \<or> seen j w"
    and mark_again: "seen k w \<Longrightarrow> snd (mark k w) = w"
    and note_seen: "seen j (note_result k s w) \<longleftrightarrow> seen j w"
begin

lemma second_mark: "mark k (snd (mark k w)) = (False, snd (mark k w))"
  using mark_first [of k "snd (mark k w)"] mark_seen [of k k w] mark_again [of k "snd (mark k w)"]
  by (cases "mark k (snd (mark k w))") auto

lemma mark_after_note: "fst (mark k (note_result k s (snd (mark k w)))) = False"
  by (simp add: mark_first mark_seen note_seen)

end

definition webhook_seen :: "CampayWebhookEventType \<times> string \<Rightarrow> world \<Rightarrow> bool" where
  "webhook_seen k w \<longleftrightarrow> find_row (is_webhook (fst k) (snd k)) (w_webhooks w) \<noteq> None"

lemma find_webhook_result:
  "find_row (is_webhook a b) (w_webhooks (recordResult c d s w)) = None \<longleftrightarrow>
   find_row (is_webhook a b) (w_webhooks w) = None"
proof -
  have "is_webhook a b (e\<lparr>we_result := x\<rparr>) = is_webhook a b e" for e x by (simp add: is_webhook_def)
  then show ?thesis by (simp add: recordResult_def find_row_cong_upd)
qed

interpretation webhooks: dedup webhook_seen
  "\<lambda>k w. (isFirst (fst (markProcessed (fst k) (snd k) w)), snd (markProcessed (fst k) (snd k) w))"
  "\<lambda>k. recordResult (fst k) (snd k)"
  by unfold_locales
    (auto simp: webhook_seen_def markProcessed_def find_row_append find_webhook_result is_webhook_def
      split: option.splits)

lemma markProcessed_seen [simp]:
  "webhook_seen (a, b) w \<Longrightarrow>
   \<exists>r. markProcessed a b w = (\<lparr>isFirst = False, existingResult = r\<rparr>, w)"
  by (auto simp: webhook_seen_def markProcessed_def)

lemma markProcessed_new:
  "\<not> webhook_seen (a, b) w \<Longrightarrow>
   markProcessed a b w = (\<lparr>isFirst = True, existingResult = None\<rparr>,
     w\<lparr>w_webhooks := w_webhooks w @ [\<lparr>we_eventType = a, we_reference = b, we_result = None\<rparr>]\<rparr>)"
  by (auto simp: webhook_seen_def markProcessed_def)

section \<open>Starting a payment\<close>

definition WEBHOOK_LOCK_TTL_SECONDS :: int where "WEBHOOK_LOCK_TTL_SECONDS = 5"
definition PAY_LOCK_TTL_SECONDS :: int where "PAY_LOCK_TTL_SECONDS = 30"
definition PAYABLE_STATUSES :: "OrderStatus list" where "PAYABLE_STATUSES = [OS_PENDING]"
definition MOMO_METHODS :: "PaymentMethod list" where "MOMO_METHODS = [MTN_MOMO, ORANGE_MONEY]"

definition pay_lock :: "uuid \<Rightarrow> string" where "pay_lock orderId = ''pay:order:'' @ orderId"

definition collect_request :: "order \<Rightarrow> string \<Rightarrow> string option \<Rightarrow> money_request" where
  "collect_request order normalizedPhone webhookUrl =
     \<lparr>mq_amountXAF = o_totalXAF order, mq_phone = normalizedPhone,
      mq_description = ''TchopNow '' @ o_code order, mq_externalReference = o_code order,
      mq_webhookUrl = webhookUrl\<rparr>"

definition processing_patch :: "string \<Rightarrow> string \<Rightarrow> order \<Rightarrow> order" where
  "processing_patch reference phone r =
     r\<lparr>o_paymentReference := Some reference, o_payerPhone := Some phone, o_paymentStatus := PS_PROCESSING\<rparr>"

text \<open>
  After the lock was taken.  The update is by id only; it fails when another order holds the
  reference (unique column) or the row has gone.
\<close>

definition initiateMomo_commit ::
  "(money_request \<Rightarrow> http_error + money_reply) \<Rightarrow> string option \<Rightarrow> order \<Rightarrow> string \<Rightarrow> world
     \<Rightarrow> (money_reply, world) outcome" where
  "initiateMomo_commit collect webhookUrl order payerPhone w =
     (let normalizedPhone = normalizePhone payerPhone
      in case collect (collect_request order normalizedPhone webhookUrl) of
           Inl e \<Rightarrow> (Inl e, redis_del (pay_lock (o_id order)) w)
         | Inr reply \<Rightarrow>
             (if clashes o_paymentReference (Some (mr_reference reply)) (\<lambda>r. o_id r \<noteq> o_id order) (w_orders w)
              then (Inl (PrismaError ''P2002''), redis_del (pay_lock (o_id order)) w)
              else case order_update (o_id order) (processing_patch (mr_reference reply) normalizedPhone) w of
                     None \<Rightarrow> (Inl (PrismaError ''P2025''), redis_del (pay_lock (o_id order)) w)
                   | Some w' \<Rightarrow> (Inr reply, w')))"

definition initiateMomo ::
  "(money_request \<Rightarrow> http_error + money_reply) \<Rightarrow> string option \<Rightarrow> uuid \<Rightarrow> uuid \<Rightarrow> string \<Rightarrow> time \<Rightarrow> world
     \<Rightarrow> (money_reply, world) outcome" where
  "initiateMomo collect webhookUrl orderId userId payerPhone now w =
     (case order_by_id orderId w of
        None \<Rightarrow> (Inl (NotFound ''order_not_found''), w)
      | Some order \<Rightarrow>
          if o_userId order \<noteq> userId then (Inl (NotFound ''order_not_found''), w)
          else if o_paymentMethod order \<notin> set MOMO_METHODS
          then (Inl (BadRequest ''payment_method_not_momo''), w)
          else if o_status order \<notin> set PAYABLE_STATUSES then (Inl (Conflict ''order_not_payable''), w)
          else if o_paymentStatus order = PS_PROCESSING
          then (Inl (Conflict ''payment_already_processing''), w)
          else (case setNX (pay_lock (o_id order)) ''1'' PAY_LOCK_TTL_SECONDS now w of
                  (False, w1) \<Rightarrow> (Inl (Conflict ''payment_already_processing''), w1)
                | (True, w1) \<Rightarrow> initiateMomo_commit collect webhookUrl order payerPhone w1))"

section \<open>The webhook\<close>

record CampayWebhookPayload =
  wp_status :: string
  wp_reference :: "string option"
  wp_external_reference :: "string option"
  wp_phone_number :: "string option"
  wp_signature :: "string option"

text \<open>\<open>jwt_ok signature secret\<close> is \<open>jwt.verify\<close> of the library (it throws or not).\<close>

definition verifyCampayJwtSignature ::
  "(string \<Rightarrow> string \<Rightarrow> bool) \<Rightarrow> string option \<Rightarrow> string option \<Rightarrow> bool" where
  "verifyCampayJwtSignature jwt_ok signatureJwt secret =
     (if falsy signatureJwt \<or> falsy secret then False else jwt_ok (the signatureJwt) (the secret))"

definition webhook_guard ::
  "(string \<Rightarrow> string \<Rightarrow> bool) \<Rightarrow> string option \<Rightarrow> CampayWebhookPayload \<Rightarrow> http_error + bool" where
  "webhook_guard jwt_ok secret body =
     (if falsy (wp_signature body) then Inl (Unauthorized ''invalid_signature'')
      else if \<not> verifyCampayJwtSignature jwt_ok (wp_signature body) secret
      then Inl (Unauthorized ''invalid_signature'')
      else Inr True)"

definition webhook_reference :: "CampayWebhookPayload \<Rightarrow> string option" where
  "webhook_reference payload =
     (case wp_reference payload of Some r \<Rightarrow> Some r | None \<Rightarrow> wp_external_reference payload)"

definition order_by_reference :: "string \<Rightarrow> world \<Rightarrow> order option" where
  "order_by_reference reference w =
     find_row (\<lambda>r. o_code r = reference \<or> o_paymentReference r = Some reference) (w_orders w)"

definition lower_status :: "string \<Rightarrow> string" where
  "lower_status s = (if s = ''FAILED'' then ''failed'' else ''cancelled'')"

text \<open>The dispatch on the status, for the order that was found; the last component is the result noted.\<close>

definition webhook_dispatch ::
  "CampayWebhookPayload \<Rightarrow> string \<Rightarrow> order \<Rightarrow> world \<Rightarrow> (string, world) outcome" where
  "webhook_dispatch payload reference order w =
     (if wp_status payload = ''SUCCESSFUL''
      then (Inr ''order_paid_event_emitted'',
            emit (PAYMENT_SUCCEEDED (o_id order)
                    (case wp_reference payload of Some r \<Rightarrow> r | None \<Rightarrow> reference)
                    (wp_phone_number payload)) w)
      else if wp_status payload = ''FAILED'' \<or> wp_status payload = ''CANCELLED''
      then (if o_paymentStatus order \<noteq> PS_PAID
            then (case order_update (o_id order) (\<lambda>r. r\<lparr>o_paymentStatus := PS_FAILED\<rparr>) w of
                    None \<Rightarrow> (Inl (PrismaError ''P2025''), w)
                  | Some w' \<Rightarrow> (Inr (''payment_'' @ lower_status (wp_status payload)),
                               emit (PAYMENT_FAILED (o_id order) (wp_status payload)) w'))
            else (Inr ''already_paid_ignored'', w))
      else (Inr ''ignored_non_terminal'', w))"

definition handleWebhook :: "CampayWebhookPayload \<Rightarrow> time \<Rightarrow> world \<Rightarrow> (unit, world) outcome" where
  "handleWebhook payload now w =
     (if falsy (webhook_reference payload) then (Inr (), w)
      else
        (let reference = the (webhook_reference payload);
             (dedup, w1) = markProcessed COLLECT reference w
         in if \<not> isFirst dedup then (Inr (), w1)
            else
              (case setNX (''lock:payment:'' @ reference) ''1'' WEBHOOK_LOCK_TTL_SECONDS now w1 of
                 (False, w2) \<Rightarrow> (Inr (), w2)
               | (True, w2) \<Rightarrow>
                   (case order_by_reference reference w2 of
                      None \<Rightarrow> (Inr (), recordResult COLLECT reference ''no_match'' w2)
                    | Some order \<Rightarrow>
                        (case webhook_dispatch payload reference order w2 of
                           (Inl e, w3) \<Rightarrow> (Inl e, w3)
                         | (Inr result, w3) \<Rightarrow> (Inr (), recordResult COLLECT reference result w3))))))"

text \<open>The route: the guard, then the handler.\<close>

definition webhook_receive ::
  "(string \<Rightarrow> string \<Rightarrow> bool) \<Rightarrow> string option \<Rightarrow> CampayWebhookPayload \<Rightarrow> time \<Rightarrow> world \<Rightarrow> (unit, world) outcome" where
  "webhook_receive jwt_ok secret payload now w =
     (case webhook_guard jwt_ok secret payload of
        Inl e \<Rightarrow> (Inl e, w)
      | Inr _ \<Rightarrow> handleWebhook payload now w)"

section \<open>Starting a payment, case by case\<close>


lemma processing_patch_simps [simp]:
  "o_id (processing_patch ref ph r) = o_id r" "o_status (processing_patch ref ph r) = o_status r"
  "frozen (processing_patch ref ph r) = frozen r" "o_paymentStatus (processing_patch ref ph r) = PS_PROCESSING"
  by (simp_all add: processing_patch_def frozen_def)

definition payable_by :: "uuid \<Rightarrow> order \<Rightarrow> bool" where
  "payable_by userId r \<longleftrightarrow> o_userId r = userId \<and> o_paymentMethod r \<in> set MOMO_METHODS
     \<and> o_status r = OS_PENDING \<and> o_paymentStatus r \<noteq> PS_PROCESSING"

lemma initiateMomo_runs:
  assumes "order_by_id oid w = Some r" and "payable_by uid r"
    and "redis_get (pay_lock oid) now w = None"
  shows "initiateMomo collect url oid uid phone now w =
         initiateMomo_commit collect url r phone (setWithTTL (pay_lock oid) ''1'' PAY_LOCK_TTL_SECONDS now w)"
  using assms order_by_id_id [OF assms(1)]
  by (auto simp: initiateMomo_def payable_by_def PAYABLE_STATUSES_def setNX_def)

lemma initiateMomo_refused:
  assumes "\<not> (\<exists>r. order_by_id oid w = Some r \<and> payable_by uid r \<and> redis_get (pay_lock oid) now w = None)"
  shows "failed (initiateMomo collect url oid uid phone now w) \<and>
         snd (initiateMomo collect url oid uid phone now w) = w"
  using assms order_by_id_id [of oid w]
  by (auto simp: initiateMomo_def payable_by_def PAYABLE_STATUSES_def setNX_def
      split: option.splits prod.splits if_splits)



lemma initiateMomo_commit_keeps:
  assumes "orders_distinct w"
  shows "orders_lawful w (snd (initiateMomo_commit collect url order phone w))
       \<and> w_ledger (snd (initiateMomo_commit collect url order phone w)) = w_ledger w"
proof (cases "collect (collect_request order (normalizePhone phone) url)")
  case (Inl e)
  then show ?thesis by (simp add: initiateMomo_commit_def orders_lawful_same)
next
  case (Inr reply)
  have "lawful r (processing_patch ref ph r)" for r ref ph
    by (simp add: lawful_def reach_refl)
  then show ?thesis
    using Inr orders_lawful_update [OF _ assms]
    by (auto simp: initiateMomo_commit_def order_update_def orders_lawful_same orders_lawful_updateMany
        split: option.splits)
qed

lemma initiateMomo_keeps:
  assumes "orders_distinct w"
  shows "orders_lawful w (snd (initiateMomo collect url oid uid phone now w))
       \<and> w_ledger (snd (initiateMomo collect url oid uid phone now w)) = w_ledger w"
proof (cases "\<exists>r. order_by_id oid w = Some r \<and> payable_by uid r \<and> redis_get (pay_lock oid) now w = None")
  case False
  then show ?thesis using initiateMomo_refused [OF False] by simp
next
  case True
  let ?w1 = "setWithTTL (pay_lock oid) ''1'' PAY_LOCK_TTL_SECONDS now w"
  have "orders_distinct ?w1" using assms by (simp add: orders_distinct_def)
  from initiateMomo_commit_keeps [OF this] True show ?thesis
    by (auto simp: initiateMomo_runs orders_lawful_def)
qed

section \<open>The webhook, once per reference\<close>

lemma webhook_dispatch_frame:
  "w_webhooks (snd (webhook_dispatch payload ref order w)) = w_webhooks w"
  "w_ledger (snd (webhook_dispatch payload ref order w)) = w_ledger w"
  by (auto simp: webhook_dispatch_def order_update_def split: option.splits)

lemma setNX_frame:
  "setNX k v ttl now w = (b, w') \<Longrightarrow>
   w_webhooks w' = w_webhooks w \<and> w_orders w' = w_orders w \<and> w_events w' = w_events w \<and> w_ledger w' = w_ledger w"
  by (auto simp: setNX_def setWithTTL_def split: option.splits)

lemma recordResult_frame [simp]:
  "w_orders (recordResult t r s w) = w_orders w" "w_events (recordResult t r s w) = w_events w"
  "w_ledger (recordResult t r s w) = w_ledger w"
  by (simp_all add: recordResult_def)

lemma webhook_seen_cong: "w_webhooks w' = w_webhooks w \<Longrightarrow> webhook_seen k w' = webhook_seen k w"
  by (simp add: webhook_seen_def)

lemma webhook_seen_recordResult [simp]: "webhook_seen k (recordResult t r s w) = webhook_seen k w"
  by (simp add: webhook_seen_def find_webhook_result)

lemma handleWebhook_new:
  assumes "webhook_reference p = Some ref" and "ref \<noteq> []" and "\<not> webhook_seen (COLLECT, ref) w"
  obtains b w2 where "setNX (''lock:payment:'' @ ref) ''1'' WEBHOOK_LOCK_TTL_SECONDS now
        (w\<lparr>w_webhooks := w_webhooks w @ [\<lparr>we_eventType = COLLECT, we_reference = ref, we_result = None\<rparr>]\<rparr>) = (b, w2)"
    and "webhook_seen (COLLECT, ref) w2" and "w_orders w2 = w_orders w" and "w_events w2 = w_events w"
    and "w_ledger w2 = w_ledger w"
    and "handleWebhook p now w =
          (if \<not> b then (Inr (), w2)
           else case order_by_reference ref w2 of
                  None \<Rightarrow> (Inr (), recordResult COLLECT ref ''no_match'' w2)
                | Some order \<Rightarrow>
                    (case webhook_dispatch p ref order w2 of
                       (Inl e, w3) \<Rightarrow> (Inl e, w3)
                     | (Inr result, w3) \<Rightarrow> (Inr (), recordResult COLLECT ref result w3)))"
proof -
  let ?w1 = "w\<lparr>w_webhooks := w_webhooks w @ [\<lparr>we_eventType = COLLECT, we_reference = ref, we_result = None\<rparr>]\<rparr>"
  obtain b w2 where n: "setNX (''lock:payment:'' @ ref) ''1'' WEBHOOK_LOCK_TTL_SECONDS now ?w1 = (b, w2)"
    by fastforce
  have "webhook_seen (COLLECT, ref) ?w1"
    by (simp add: webhook_seen_def find_row_append is_webhook_def split: option.splits)
  then have "webhook_seen (COLLECT, ref) w2" using setNX_frame [OF n] webhook_seen_cong [of w2 ?w1] by simp
  moreover have "handleWebhook p now w =
          (if \<not> b then (Inr (), w2)
           else case order_by_reference ref w2 of
                  None \<Rightarrow> (Inr (), recordResult COLLECT ref ''no_match'' w2)
                | Some order \<Rightarrow>
                    (case webhook_dispatch p ref order w2 of
                       (Inl e, w3) \<Rightarrow> (Inl e, w3)
                     | (Inr result, w3) \<Rightarrow> (Inr (), recordResult COLLECT ref result w3)))"
    using assms(1,2) markProcessed_new [OF assms(3)] n by (cases b) (simp_all add: handleWebhook_def Let_def)
  ultimately show thesis using that n setNX_frame [OF n] by simp
qed

lemma handleWebhook_marks:
  assumes "webhook_reference p = Some ref" and "ref \<noteq> []"
  shows "webhook_seen (COLLECT, ref) (snd (handleWebhook p now w))"
proof (cases "webhook_seen (COLLECT, ref) w")
  case True
  then obtain r where "markProcessed COLLECT ref w = (\<lparr>isFirst = False, existingResult = r\<rparr>, w)"
    using markProcessed_seen by blast
  with True assms show ?thesis by (simp add: handleWebhook_def)
next
  case False
  obtain b w2 where w2: "webhook_seen (COLLECT, ref) w2"
    and run: "handleWebhook p now w =
          (if \<not> b then (Inr (), w2)
           else case order_by_reference ref w2 of
                  None \<Rightarrow> (Inr (), recordResult COLLECT ref ''no_match'' w2)
                | Some order \<Rightarrow>
                    (case webhook_dispatch p ref order w2 of
                       (Inl e, w3) \<Rightarrow> (Inl e, w3)
                     | (Inr result, w3) \<Rightarrow> (Inr (), recordResult COLLECT ref result w3)))"
    by (rule handleWebhook_new [OF assms False])
  have "webhook_seen (COLLECT, ref) (snd (webhook_dispatch p ref order w2))" for order
    using w2 webhook_seen_cong [OF webhook_dispatch_frame(1)] by blast
  then show ?thesis
    using run w2 by (auto split: option.splits prod.splits sum.splits) (metis snd_conv)+
qed

lemma handleWebhook_seen:
  assumes "webhook_reference p = Some ref" and "webhook_seen (COLLECT, ref) w"
  shows "handleWebhook p now w = (Inr (), w)"
proof -
  obtain r where "markProcessed COLLECT ref w = (\<lparr>isFirst = False, existingResult = r\<rparr>, w)"
    using markProcessed_seen assms(2) by blast
  then show ?thesis using assms(1) by (simp add: handleWebhook_def)
qed

definition demo_payload :: "string \<Rightarrow> CampayWebhookPayload" where
  "demo_payload status = \<lparr>wp_status = status, wp_reference = Some ''TC-AAAAA'', wp_external_reference = None,
     wp_phone_number = None, wp_signature = Some ''sig''\<rparr>"

lemma demo_payload_simps [simp]:
  "webhook_reference (demo_payload s) = Some ''TC-AAAAA''" "wp_status (demo_payload s) = s"
  "wp_reference (demo_payload s) = Some ''TC-AAAAA''" "wp_signature (demo_payload s) = Some ''sig''"
  "wp_phone_number (demo_payload s) = None"
  by (simp_all add: demo_payload_def webhook_reference_def)

lemma order_by_reference_cong: "w_orders w' = w_orders w \<Longrightarrow> order_by_reference ref w' = order_by_reference ref w"
  by (simp add: order_by_reference_def)

text \<open>A first notification of each kind, when the lock of its reference is free.\<close>

lemma handleWebhook_first:
  assumes "webhook_reference p = Some ref" and "ref \<noteq> []" and "\<not> webhook_seen (COLLECT, ref) w"
    and "redis_get (''lock:payment:'' @ ref) now w = None" and "order_by_reference ref w = Some order"
  obtains w2 where "w_orders w2 = w_orders w" and "w_events w2 = w_events w" and "w_ledger w2 = w_ledger w"
    and "handleWebhook p now w =
         (case webhook_dispatch p ref order w2 of
            (Inl e, w3) \<Rightarrow> (Inl e, w3)
          | (Inr result, w3) \<Rightarrow> (Inr (), recordResult COLLECT ref result w3))"
proof -
  let ?w1 = "w\<lparr>w_webhooks := w_webhooks w @ [\<lparr>we_eventType = COLLECT, we_reference = ref, we_result = None\<rparr>]\<rparr>"
  let ?w2 = "setWithTTL (''lock:payment:'' @ ref) ''1'' WEBHOOK_LOCK_TTL_SECONDS now ?w1"
  have "redis_get (''lock:payment:'' @ ref) now ?w1 = None" using assms(4) by (simp add: redis_get_def)
  then have "setNX (''lock:payment:'' @ ref) ''1'' WEBHOOK_LOCK_TTL_SECONDS now ?w1 = (True, ?w2)"
    by (simp add: setNX_def)
  then have "handleWebhook p now w =
         (case webhook_dispatch p ref order ?w2 of
            (Inl e, w3) \<Rightarrow> (Inl e, w3)
          | (Inr result, w3) \<Rightarrow> (Inr (), recordResult COLLECT ref result w3))"
    using assms(1,2,5) markProcessed_new [OF assms(3)] order_by_reference_cong [of ?w2 w ref]
    by (simp add: handleWebhook_def Let_def)
  then show thesis by (rule that [of ?w2, rotated 3]) (simp_all add: setWithTTL_def)
qed




text \<open>
  The reference is marked before the status is looked at: after a non-terminal notification
  (Campay also reports PENDING) the success that follows under the same reference is dropped, no
  payment event is emitted and the order stays unpaid.
\<close>

theorem pending_webhook_blocks_success:
  assumes "webhook_reference p = Some ref" and "webhook_reference q = Some ref" and "ref \<noteq> []"
    and "wp_status p \<notin> {''SUCCESSFUL'', ''FAILED'', ''CANCELLED''}"
  shows "w_events (snd (handleWebhook q t (snd (handleWebhook p now w)))) = w_events w
       \<and> w_orders (snd (handleWebhook q t (snd (handleWebhook p now w)))) = w_orders w"
proof -
  have "w_events (snd (handleWebhook p now w)) = w_events w \<and> w_orders (snd (handleWebhook p now w)) = w_orders w"
  proof (cases "webhook_seen (COLLECT, ref) w")
    case True
    then show ?thesis using handleWebhook_seen [OF assms(1) True] by simp
  next
    case False
    show ?thesis
      by (rule handleWebhook_new [OF assms(1,3) False, of now])
        (use assms(4) in \<open>auto simp: webhook_dispatch_def split: option.splits\<close>)
  qed
  then show ?thesis
    using handleWebhook_seen [OF assms(2) handleWebhook_marks [OF assms(1,3)]] by simp
qed

theorem pending_webhook_blocks_success_witness:
  "w_events (snd (handleWebhook (demo_payload ''SUCCESSFUL'') 9
     (snd (handleWebhook (demo_payload ''PENDING'') 0 (demo_world [demo_order OS_PENDING PS_PENDING] []))))) = []"
  using pending_webhook_blocks_success [where ref = "''TC-AAAAA''" and p = "demo_payload ''PENDING''"
      and q = "demo_payload ''SUCCESSFUL''" and t = 9 and now = 0
      and w = "demo_world [demo_order OS_PENDING PS_PENDING] []"]
  by simp

text \<open>
  The guard verifies the token in the body but not that it speaks of that body: a signature
  accepted once is accepted on any other body, so that whoever saw one notification can have a
  success emitted for an order of his choice.
\<close>

theorem webhook_signature_unbound:
  assumes "webhook_guard jwt_ok secret p = Inr True" and "wp_signature q = wp_signature p"
    and "wp_status q = ''SUCCESSFUL''" and "wp_reference q = Some ref" and "ref \<noteq> []"
    and "\<not> webhook_seen (COLLECT, ref) w" and "redis_get (''lock:payment:'' @ ref) now w = None"
    and "order_by_reference ref w = Some order"
  shows "\<exists>w'. webhook_receive jwt_ok secret q now w = (Inr (), w')
           \<and> w_events w' = w_events w @ [PAYMENT_SUCCEEDED (o_id order) ref (wp_phone_number q)]"
proof -
  have g: "webhook_guard jwt_ok secret q = Inr True" using assms(1,2) by (auto simp: webhook_guard_def split: if_splits)
  have ref: "webhook_reference q = Some ref" by (simp add: webhook_reference_def assms(4))
  show ?thesis
    by (rule handleWebhook_first [OF ref assms(5-8)])
      (use g assms(3,4) in \<open>auto simp: webhook_receive_def webhook_dispatch_def\<close>)
qed

theorem webhook_signature_unbound_witness:
  "\<exists>w'. webhook_receive (\<lambda>tok key. tok = ''sig'' \<and> key = ''secret'') (Some ''secret'')
          (demo_payload ''SUCCESSFUL'') 0 (demo_world [demo_order OS_PENDING PS_PENDING] []) = (Inr (), w')
      \<and> w_events w' = [PAYMENT_SUCCEEDED ''O'' ''TC-AAAAA'' None]"
proof -
  have "order_by_reference ''TC-AAAAA'' (demo_world [demo_order OS_PENDING PS_PENDING] []) =
        Some (demo_order OS_PENDING PS_PENDING)"
    by (simp add: order_by_reference_def demo_order_def)
  then show ?thesis
    using webhook_signature_unbound [where jwt_ok = "\<lambda>tok key. tok = ''sig'' \<and> key = ''secret''"
        and secret = "Some ''secret''" and p = "demo_payload ''FAILED''" and q = "demo_payload ''SUCCESSFUL''"
        and ref = "''TC-AAAAA''" and w = "demo_world [demo_order OS_PENDING PS_PENDING] []" and now = 0
        and order = "demo_order OS_PENDING PS_PENDING"]
    by (simp add: webhook_guard_def verifyCampayJwtSignature_def webhook_seen_def
        redis_get_def kv_get_def)
qed

text \<open>An unsigned notification leaves no trace.\<close>

lemma webhook_unsigned:
  assumes "webhook_guard jwt_ok secret p = Inl e"
  shows "webhook_receive jwt_ok secret p now w = (Inl e, w)"
  by (simp add: webhook_receive_def assms)

lemma handleWebhook_keeps:
  "w_ledger (snd (handleWebhook p now w)) = w_ledger w \<and> orders_lawful w (snd (handleWebhook p now w))"
proof (cases "falsy (webhook_reference p)")
  case True
  then show ?thesis by (simp add: handleWebhook_def)
next
  case False
  then obtain ref where ref: "webhook_reference p = Some ref" "ref \<noteq> []" by (cases "webhook_reference p") auto
  have d: "w_ledger (snd (webhook_dispatch p ref order v)) = w_ledger v
         \<and> orders_lawful v (snd (webhook_dispatch p ref order v))" for order v
    using webhook_dispatch_frame(2)
    by (auto simp: webhook_dispatch_def order_update_def lawful_def frozen_def reach_refl
        split: option.splits intro!: orders_lawful_updateMany)
  show ?thesis
  proof (cases "webhook_seen (COLLECT, ref) w")
    case True
    then show ?thesis using handleWebhook_seen [OF ref(1)] by simp
  next
    case False
    obtain b w2 where w2: "w_orders w2 = w_orders w" "w_ledger w2 = w_ledger w"
      and run: "handleWebhook p now w =
          (if \<not> b then (Inr (), w2)
           else case order_by_reference ref w2 of
                  None \<Rightarrow> (Inr (), recordResult COLLECT ref ''no_match'' w2)
                | Some order \<Rightarrow>
                    (case webhook_dispatch p ref order w2 of
                       (Inl e, w3) \<Rightarrow> (Inl e, w3)
                     | (Inr result, w3) \<Rightarrow> (Inr (), recordResult COLLECT ref result w3)))"
      by (rule handleWebhook_new [OF ref False])
    then have "orders_lawful w2 (snd (handleWebhook p now w)) \<and> w_ledger (snd (handleWebhook p now w)) = w_ledger w2"
      using d [of _ w2]
      by (auto simp: orders_lawful_def lawful.all2_refl split: option.splits prod.splits sum.splits) (metis snd_conv)+
    then show ?thesis using w2 by (simp add: orders_lawful_def)
  qed
qed

end
