(* ===== verification/Finance_Balance.thy ===== *)
theory Finance_Balance
  imports Payments
begin

text \<open>
  The read side of \<open>modules/finance/finance.service.ts\<close>: vendor and rider balances derived from
  the ledger, the admin lists, the self-service views and the estimators of the next payout.
  \<open>VendorPayout\<close> and \<open>RiderPayout\<close> rows are the record \<open>payout\<close>.  Display names are left out;
  the collation of \<open>orderBy: name\<close> is the parameter \<open>by_name\<close>.
\<close>

section \<open>Balances\<close>

definition TRUSTED_MIN_COMPLETED_ORDERS :: nat where "TRUSTED_MIN_COMPLETED_ORDERS = 10"
definition TRUSTED_MIN_DAYS_SINCE_FIRST_ORDER :: int where "TRUSTED_MIN_DAYS_SINCE_FIRST_ORDER = 7"
definition DAY_MS :: int where "DAY_MS = 24 * 60 * 60 * 1000"

definition last_payout :: "uuid \<Rightarrow> payout list \<Rightarrow> payout option" where
  "last_payout ownerId ps =
     latest p_periodEnd (filter (\<lambda>p. p_ownerId p = ownerId \<and> p_status p \<in> {PO_PAID, PO_IN_FLIGHT}) ps)"

text \<open>The spread \<open>...(cutoff ? { createdAt: { gt: cutoff } } : {})\<close> of the ledger queries.\<close>

definition since :: "time option \<Rightarrow> ledger_entry \<Rightarrow> bool" where
  "since cutoff l = (case cutoff of None \<Rightarrow> True | Some c \<Rightarrow> l_createdAt l > c)"

record VendorBalance =
  vb_vendorId :: uuid
  vb_name :: string
  vb_type :: VendorType
  vb_balanceXAF :: xaf
  vb_grossXAF :: xaf
  vb_commissionXAF :: xaf
  vb_penaltyXAF :: xaf
  vb_adjustmentsXAF :: xaf
  vb_lastPayoutAt :: "time option"
  vb_lastPayoutId :: "uuid option"
  vb_isTrusted :: bool

definition payable_sum :: "uuid \<Rightarrow> time option \<Rightarrow> world \<Rightarrow> xaf" where
  "payable_sum vendorId cutoff w =
     ledger_sum (\<lambda>l. l_vendorId l = Some vendorId \<and> l_account l = VENDOR_PAYABLE \<and> since cutoff l) (w_ledger w)"

definition revenue_attribution :: "uuid \<Rightarrow> LedgerEventType \<Rightarrow> time option \<Rightarrow> world \<Rightarrow> xaf" where
  "revenue_attribution vendorId ty cutoff w =
     ledger_sum (\<lambda>l. l_vendorId l = Some vendorId \<and> l_account l = PLATFORM_REVENUE \<and> since cutoff l
                   \<and> l_eventType l = ty) (w_ledger w)"

definition openDisputes :: "uuid \<Rightarrow> world \<Rightarrow> nat" where
  "openDisputes vendorId w =
     orders_count (\<lambda>r. o_vendorId r = vendorId \<and> o_paymentStatus r = PS_REFUND_PENDING) w"

definition isTrusted :: "vendor \<Rightarrow> time \<Rightarrow> world \<Rightarrow> bool" where
  "isTrusted vendor now w \<longleftrightarrow>
     orders_count (\<lambda>r. o_vendorId r = v_id vendor \<and> o_status r = OS_DELIVERED) w \<ge> TRUSTED_MIN_COMPLETED_ORDERS
     \<and> (now - v_createdAt vendor) div DAY_MS \<ge> TRUSTED_MIN_DAYS_SINCE_FIRST_ORDER
     \<and> openDisputes (v_id vendor) w = 0"

definition payout_instant :: "payout \<Rightarrow> time option" where
  "payout_instant p = (case p_paidAt p of Some t \<Rightarrow> Some t | None \<Rightarrow> p_sentAt p)"

definition getVendorBalance :: "uuid \<Rightarrow> time \<Rightarrow> world \<Rightarrow> http_error + VendorBalance" where
  "getVendorBalance vendorId now w =
     (case vendor_by_id vendorId w of
        None \<Rightarrow> Inl (NotFound ''vendor_not_found'')
      | Some vendor \<Rightarrow>
          (let lastPayout = last_payout vendorId (w_vendorPayouts w);
               cutoff = map_option p_periodEnd lastPayout;
               balanceXAF = - payable_sum vendorId cutoff w;
               commissionXAF = - revenue_attribution vendorId ORDER_DELIVERED cutoff w;
               penaltyXAF = - revenue_attribution vendorId PENALTY_APPLIED cutoff w;
               adjustmentsXAF = - revenue_attribution vendorId ADJUSTMENT cutoff w
           in Inr \<lparr>vb_vendorId = v_id vendor, vb_name = v_name vendor, vb_type = v_type vendor,
                   vb_balanceXAF = balanceXAF,
                   vb_grossXAF = balanceXAF + commissionXAF + penaltyXAF - adjustmentsXAF,
                   vb_commissionXAF = commissionXAF, vb_penaltyXAF = penaltyXAF,
                   vb_adjustmentsXAF = adjustmentsXAF,
                   vb_lastPayoutAt = Option.bind lastPayout payout_instant,
                   vb_lastPayoutId = map_option p_id lastPayout,
                   vb_isTrusted = isTrusted vendor now w\<rparr>))"

record RiderBalance =
  rb_riderId :: uuid
  rb_balanceXAF :: xaf
  rb_grossXAF :: xaf
  rb_adjustmentsXAF :: xaf
  rb_lastPayoutAt :: "time option"
  rb_lastPayoutId :: "uuid option"

definition getRiderBalance :: "uuid \<Rightarrow> world \<Rightarrow> http_error + RiderBalance" where
  "getRiderBalance riderId w =
     (case rider_by_id riderId w of
        None \<Rightarrow> Inl (NotFound ''rider_not_found'')
      | Some rider \<Rightarrow>
          (let lastPayout = last_payout riderId (w_riderPayouts w);
               cutoff = map_option p_periodEnd lastPayout;
               balanceXAF = - ledger_sum (\<lambda>l. l_riderId l = Some riderId \<and> l_account l = RIDER_PAYABLE
                                             \<and> since cutoff l) (w_ledger w);
               adjustmentsXAF = - ledger_sum (\<lambda>l. l_riderId l = Some riderId \<and> l_account l = PLATFORM_REVENUE
                                             \<and> l_eventType l = ADJUSTMENT \<and> since cutoff l) (w_ledger w)
           in Inr \<lparr>rb_riderId = r_id rider, rb_balanceXAF = balanceXAF,
                   rb_grossXAF = balanceXAF - adjustmentsXAF, rb_adjustmentsXAF = adjustmentsXAF,
                   rb_lastPayoutAt = Option.bind lastPayout payout_instant,
                   rb_lastPayoutId = map_option p_id lastPayout\<rparr>))"

section \<open>Admin lists\<close>

text \<open>\<open>rows.sort((a, b) => b.x - a.x)\<close> is stable; \<open>slice(offset, offset + limit)\<close> pages.\<close>

definition page :: "nat option \<Rightarrow> nat option \<Rightarrow> 'a list \<Rightarrow> 'a list" where
  "page offset limit rows =
     take (case limit of Some n \<Rightarrow> n | None \<Rightarrow> 50) (drop (case offset of Some n \<Rightarrow> n | None \<Rightarrow> 0) rows)"

definition list_balances :: "('b \<Rightarrow> xaf) \<Rightarrow> xaf option \<Rightarrow> nat option \<Rightarrow> nat option \<Rightarrow> 'b list \<Rightarrow> nat \<times> 'b list" where
  "list_balances bal minBalanceXAF limit offset balances =
     (let rows = (case minBalanceXAF of None \<Rightarrow> balances | Some m \<Rightarrow> filter (\<lambda>b. bal b \<ge> m) balances);
          sorted = sort_key (\<lambda>b. - bal b) rows
      in (length rows, page offset limit sorted))"

definition rights :: "('e + 'a) list \<Rightarrow> 'a list" where
  "rights xs = concat (map (\<lambda>x. case x of Inl _ \<Rightarrow> [] | Inr a \<Rightarrow> [a]) xs)"

definition listVendorBalances ::
  "(vendor list \<Rightarrow> vendor list) \<Rightarrow> VendorStatus option \<Rightarrow> VendorType option \<Rightarrow> xaf option
     \<Rightarrow> nat option \<Rightarrow> nat option \<Rightarrow> time \<Rightarrow> world \<Rightarrow> nat \<times> VendorBalance list" where
  "listVendorBalances by_name status ty minBalanceXAF limit offset now w =
     (let vendors = by_name (filter (\<lambda>v. (status = None \<or> status = Some (v_status v))
                                       \<and> (ty = None \<or> ty = Some (v_type v))) (w_vendors w))
      in list_balances vb_balanceXAF minBalanceXAF limit offset
           (rights (map (\<lambda>v. getVendorBalance (v_id v) now w) vendors)))"

definition listRiderBalances ::
  "RiderVehicleType option \<Rightarrow> xaf option \<Rightarrow> nat option \<Rightarrow> nat option \<Rightarrow> world \<Rightarrow> nat \<times> RiderBalance list" where
  "listRiderBalances vehicleType minBalanceXAF limit offset w =
     (let riders = sort_key (\<lambda>r. - r_createdAt r)
             (filter (\<lambda>r. vehicleType = None \<or> vehicleType = Some (r_vehicleType r)) (w_riders w))
      in list_balances rb_balanceXAF minBalanceXAF limit offset
           (rights (map (\<lambda>r. getRiderBalance (r_id r) w) riders)))"

record RefundQueueRow =
  rq_orderId :: uuid
  rq_vendorId :: uuid
  rq_totalXAF :: xaf
  rq_ageDays :: int
  rq_cancelledAt :: "time option"

text \<open>Postgres sorts nulls last in ascending order.\<close>

definition nulls_last :: "time option \<Rightarrow> bool \<times> time" where
  "nulls_last t = (case t of None \<Rightarrow> (True, 0) | Some x \<Rightarrow> (False, x))"

definition listRefundQueue :: "nat option \<Rightarrow> nat option \<Rightarrow> time \<Rightarrow> world \<Rightarrow> nat \<times> RefundQueueRow list" where
  "listRefundQueue limit offset now w =
     (let waiting = filter (\<lambda>r. o_paymentStatus r = PS_REFUND_PENDING) (w_orders w)
      in (length waiting,
          map (\<lambda>r. \<lparr>rq_orderId = o_id r, rq_vendorId = o_vendorId r, rq_totalXAF = o_totalXAF r,
                   rq_ageDays = (now - (case o_cancelledAt r of Some t \<Rightarrow> t | None \<Rightarrow> o_placedAt r)) div DAY_MS,
                   rq_cancelledAt = o_cancelledAt r\<rparr>)
            (page offset limit (sort_key (\<lambda>r. nulls_last (o_cancelledAt r)) waiting))))"

section \<open>The next payout\<close>

text \<open>
  A JavaScript \<open>Date\<close> read in UTC: the day number since 1 January 1970 (a Thursday), the day of the
  week with Sunday = 0, the hour.  \<open>setUTCDate(d + n)\<close> moves by whole days and
  \<open>setUTCHours(h, 0, 0, 0)\<close> to an hour of the same day.
\<close>

definition HOUR_MS :: int where "HOUR_MS = 60 * 60 * 1000"
definition DOUALA_OFFSET_MS :: int where "DOUALA_OFFSET_MS = 60 * 60 * 1000"

definition utc_day :: "time \<Rightarrow> int" where "utc_day t = t div DAY_MS"
definition getUTCDay :: "time \<Rightarrow> int" where "getUTCDay t = (utc_day t + 4) mod 7"
definition getUTCHours :: "time \<Rightarrow> int" where "getUTCHours t = t mod DAY_MS div HOUR_MS"
definition setUTCHours :: "int \<Rightarrow> time \<Rightarrow> time" where "setUTCHours h t = utc_day t * DAY_MS + h * HOUR_MS"

definition nextSundayAt02DoualaUtc :: "time \<Rightarrow> time" where
  "nextSundayAt02DoualaUtc now =
     (let wallClock = now + DOUALA_OFFSET_MS;
          dow = getUTCDay wallClock;
          hour = getUTCHours wallClock;
          daysAhead = (if dow = 0 \<and> hour < 2 then 0
                       else (let d = (7 - dow) mod 7 in if d = 0 then 7 else d));
          target = setUTCHours 2 (wallClock + daysAhead * DAY_MS)
      in target - DOUALA_OFFSET_MS)"

definition nextMorningAt06DoualaUtc :: "time \<Rightarrow> time" where
  "nextMorningAt06DoualaUtc now =
     (let wallClock = now + DOUALA_OFFSET_MS;
          target = setUTCHours 6 wallClock
      in (if target \<le> wallClock then target + DAY_MS else target) - DOUALA_OFFSET_MS)"

section \<open>Self-service views\<close>

datatype cadence = WEEKLY_SUNDAY | ON_DEMAND | DAILY_MORNING

record self_view =
  sv_balanceXAF :: xaf
  sv_isTrusted :: bool
  sv_lastPayoutAt :: "time option"
  sv_lastPayoutXAF :: "xaf option"
  sv_cadence :: cadence
  sv_estimatedAt :: "time option"
  sv_recentPayouts :: "payout list"
  sv_pendingCashoutRequestId :: "uuid option"

definition recent_payouts :: "uuid \<Rightarrow> payout list \<Rightarrow> payout list" where
  "recent_payouts ownerId ps =
     take 5 (sort_key (\<lambda>p. - p_periodEnd p) (filter (\<lambda>p. p_ownerId p = ownerId) ps))"

definition pending_cashout :: "uuid \<Rightarrow> world \<Rightarrow> cashout_request option" where
  "pending_cashout vendorId w =
     find_row (\<lambda>c. cr_vendorId c = vendorId \<and> cr_status c = CR_PENDING_APPROVAL) (w_cashouts w)"

definition getVendorSelfView :: "uuid \<Rightarrow> time \<Rightarrow> world \<Rightarrow> http_error + self_view" where
  "getVendorSelfView vendorId now w =
     (case getVendorBalance vendorId now w of
        Inl e \<Rightarrow> Inl e
      | Inr balance \<Rightarrow>
          (let recent = recent_payouts vendorId (w_vendorPayouts w);
               lastPaid = find_row (\<lambda>p. p_status p = PO_PAID) recent;
               isOnDemand = (vb_type balance = INFORMAL)
           in Inr \<lparr>sv_balanceXAF = vb_balanceXAF balance, sv_isTrusted = vb_isTrusted balance,
                   sv_lastPayoutAt = Option.bind lastPaid p_paidAt,
                   sv_lastPayoutXAF = map_option p_netXAF lastPaid,
                   sv_cadence = (if isOnDemand then ON_DEMAND else WEEKLY_SUNDAY),
                   sv_estimatedAt = (if isOnDemand \<or> vb_balanceXAF balance \<le> 0 then None
                                     else Some (nextSundayAt02DoualaUtc now)),
                   sv_recentPayouts = recent,
                   sv_pendingCashoutRequestId =
                     (if isOnDemand then map_option cr_id (pending_cashout vendorId w) else None)\<rparr>))"

definition getRiderSelfView :: "uuid \<Rightarrow> time \<Rightarrow> world \<Rightarrow> http_error + self_view" where
  "getRiderSelfView riderId now w =
     (case getRiderBalance riderId w of
        Inl e \<Rightarrow> Inl e
      | Inr balance \<Rightarrow>
          (let recent = recent_payouts riderId (w_riderPayouts w);
               lastPaid = find_row (\<lambda>p. p_status p = PO_PAID) recent
           in Inr \<lparr>sv_balanceXAF = rb_balanceXAF balance, sv_isTrusted = False,
                   sv_lastPayoutAt = Option.bind lastPaid p_paidAt,
                   sv_lastPayoutXAF = map_option p_netXAF lastPaid,
                   sv_cadence = DAILY_MORNING,
                   sv_estimatedAt = (if rb_balanceXAF balance \<le> 0 then None
                                     else Some (nextMorningAt06DoualaUtc now)),
                   sv_recentPayouts = recent, sv_pendingCashoutRequestId = None\<rparr>))"

section \<open>The estimators hit the cron\<close>

definition sunday_2am :: "time \<Rightarrow> bool" where
  "sunday_2am t \<longleftrightarrow> getUTCDay (t + DOUALA_OFFSET_MS) = 0 \<and> (t + DOUALA_OFFSET_MS) mod DAY_MS = 2 * HOUR_MS"

lemma day_split: "(t :: int) = utc_day t * DAY_MS + t mod DAY_MS"
  by (simp add: utc_day_def)

lemma setUTCHours_day:
  "0 \<le> h \<Longrightarrow> h < 24 \<Longrightarrow> utc_day (setUTCHours h t) = utc_day t \<and> setUTCHours h t mod DAY_MS = h * HOUR_MS"
  by (simp add: setUTCHours_def utc_day_def DAY_MS_def HOUR_MS_def)

lemma utc_day_add: "utc_day (t + n * DAY_MS) = utc_day t + n"
  by (simp add: utc_day_def DAY_MS_def)

text \<open>Days to the next Sunday from day number \<open>D\<close>, when the tick of day \<open>D\<close> itself is still ahead iff \<open>b\<close>.\<close>

definition days_ahead :: "int \<Rightarrow> bool \<Rightarrow> int" where
  "days_ahead D b = (if (D + 4) mod 7 = 0 \<and> b then 0
     else (let d = (7 - (D + 4) mod 7) mod 7 in if d = 0 then 7 else d))"

lemma days_ahead_cases:
  obtains "(D + 4) mod 7 = 0" and "b" and "days_ahead D b = 0"
  | "(D + 4) mod 7 = 0" and "\<not> b" and "days_ahead D b = 7"
  | "0 < (D + 4) mod 7" and "(D + 4) mod 7 < 7" and "days_ahead D b = 7 - (D + 4) mod 7"
proof -
  have m: "0 \<le> (D + 4) mod 7" "(D + 4) mod 7 < 7" by simp_all
  show thesis
  proof (cases "(D + 4) mod 7 = 0")
    case True
    then show thesis using that(1,2) by (cases b) (simp_all add: days_ahead_def)
  next
    case False
    then have "(7 - (D + 4) mod 7) mod 7 = 7 - (D + 4) mod 7" using m by (intro mod_pos_pos_trivial) linarith+
    then show thesis using False m that(3) by (simp add: days_ahead_def Let_def)
  qed
qed

lemma days_ahead_bounds: "0 \<le> days_ahead D b \<and> days_ahead D b \<le> 7"
  by (cases rule: days_ahead_cases [of D b]) auto

lemma week_split: obtains q m where "(D :: int) + 4 = q * 7 + m" and "(D + 4) mod 7 = m"
  using div_mult_mod_eq [of "D + 4" 7] by metis

lemma days_ahead_sunday: "(D + days_ahead D b + 4) mod 7 = 0"
proof -
  obtain q m where d: "D + 4 = q * 7 + m" "(D + 4) mod 7 = m" by (rule week_split)
  show ?thesis
  proof (cases rule: days_ahead_cases [of D b])
    case 3
    then have "D + days_ahead D b + 4 = q * 7 + 7" unfolding d(2) using d(1) by linarith
    then show ?thesis by (simp only: mod_mult_self3 mod_self)
  next
    case 2
    then have "D + days_ahead D b + 4 = q * 7 + 7" unfolding d(2) using d(1) by linarith
    then show ?thesis by (simp only: mod_mult_self3 mod_self)
  qed simp
qed

lemma days_ahead_today: "days_ahead D b = 0 \<Longrightarrow> b"
  by (cases rule: days_ahead_cases [of D b]) auto

lemma days_ahead_least:
  assumes "(E + 4) mod 7 = 0" and "D \<le> E" and "E = D \<Longrightarrow> b"
  shows "D + days_ahead D b \<le> E"
proof -
  obtain p where e: "E + 4 = p * 7" by (rule week_split [of E]) (use assms(1) in simp)
  obtain q m where d: "D + 4 = q * 7 + m" "(D + 4) mod 7 = m" by (rule week_split)
  show ?thesis
  proof (cases rule: days_ahead_cases [of D b])
    case 2
    then have m: "m = 0" "D < E" using assms(2,3) d(2) by (auto simp: order.strict_iff_order)
    then have "q * 7 < p * 7" using e d(1) by linarith
    then have "q + 1 \<le> p" by simp
    then show ?thesis using 2(3) m e d(1) by linarith
  next
    case 3
    then have "q * 7 < p * 7" unfolding d(2) using e d(1) assms(2) by linarith
    then have "q + 1 \<le> p" by simp
    then show ?thesis using 3(3) d(2) e d(1) by linarith
  qed (use assms(2) in simp)
qed

lemmas ms_consts = DAY_MS_def [simplified] HOUR_MS_def [simplified]

lemma hour_below_two: "0 \<le> r \<Longrightarrow> (r :: int) div HOUR_MS < 2 \<longleftrightarrow> r < 2 * HOUR_MS"
proof -
  assume "0 \<le> r"
  have "r = r div HOUR_MS * HOUR_MS + r mod HOUR_MS" "0 \<le> r mod HOUR_MS" "r mod HOUR_MS < HOUR_MS"
    by (simp_all add: HOUR_MS_def)
  then show ?thesis unfolding ms_consts by linarith
qed

text \<open>An instant from its day number and the time within the day.\<close>

lemma instant_le:
  assumes "(d :: int) * DAY_MS + a \<le> e * DAY_MS + b" and "0 \<le> a" and "b < DAY_MS"
  shows "d \<le> e \<and> (d = e \<longrightarrow> a \<le> b)"
  using assms unfolding ms_consts by linarith

lemma sunday_estimate:
  "nextSundayAt02DoualaUtc now + DOUALA_OFFSET_MS =
     (utc_day (now + DOUALA_OFFSET_MS)
        + days_ahead (utc_day (now + DOUALA_OFFSET_MS)) ((now + DOUALA_OFFSET_MS) mod DAY_MS < 2 * HOUR_MS)) * DAY_MS
     + 2 * HOUR_MS"
proof -
  have "0 \<le> (now + DOUALA_OFFSET_MS) mod DAY_MS" by (simp add: DAY_MS_def)
  note h = hour_below_two [OF this]
  show ?thesis
    unfolding nextSundayAt02DoualaUtc_def Let_def setUTCHours_def utc_day_add days_ahead_def getUTCDay_def getUTCHours_def h
    by simp
qed

lemma morning_estimate:
  "nextMorningAt06DoualaUtc now + DOUALA_OFFSET_MS =
     (utc_day (now + DOUALA_OFFSET_MS) + (if 6 * HOUR_MS \<le> (now + DOUALA_OFFSET_MS) mod DAY_MS then 1 else 0)) * DAY_MS
     + 6 * HOUR_MS"
proof -
  let ?w = "now + DOUALA_OFFSET_MS"
  have "utc_day ?w * DAY_MS + 6 * HOUR_MS \<le> ?w \<longleftrightarrow> 6 * HOUR_MS \<le> ?w mod DAY_MS"
    using day_split [of ?w] by linarith
  then show ?thesis
    unfolding nextMorningAt06DoualaUtc_def Let_def setUTCHours_def by (simp add: distrib_right)
qed

lemma sunday_2am_day:
  "sunday_2am t \<longleftrightarrow> (utc_day (t + DOUALA_OFFSET_MS) + 4) mod 7 = 0
     \<and> t + DOUALA_OFFSET_MS = utc_day (t + DOUALA_OFFSET_MS) * DAY_MS + 2 * HOUR_MS"
  using day_split [of "t + DOUALA_OFFSET_MS"] unfolding sunday_2am_def getUTCDay_def by auto

text \<open>
  The date a vendor is shown for the next payout is the first Sunday 02:00 in Douala after now:
  the very tick of the weekly payout cron.
\<close>

theorem next_sunday_is_the_cron_tick:
  "now < nextSundayAt02DoualaUtc now \<and> sunday_2am (nextSundayAt02DoualaUtc now)
   \<and> (\<forall>t. now < t \<and> sunday_2am t \<longrightarrow> nextSundayAt02DoualaUtc now \<le> t)"
proof -
  define w where "w = now + DOUALA_OFFSET_MS"
  define b where "b \<longleftrightarrow> w mod DAY_MS < 2 * HOUR_MS"
  let ?k = "days_ahead (utc_day w) b"
  have r: "0 \<le> w mod DAY_MS" "w mod DAY_MS < DAY_MS" by (simp_all add: DAY_MS_def)
  have est: "nextSundayAt02DoualaUtc now + DOUALA_OFFSET_MS = (utc_day w + ?k) * DAY_MS + 2 * HOUR_MS"
    unfolding sunday_estimate w_def b_def ..
  have "w < (utc_day w + ?k) * DAY_MS + 2 * HOUR_MS"
  proof (cases "?k = 0")
    case True
    then have "w mod DAY_MS < 2 * HOUR_MS" using days_ahead_today [of "utc_day w" b] unfolding b_def by blast
    then show ?thesis using day_split [of w] True by simp
  next
    case False
    then have "1 * DAY_MS \<le> ?k * DAY_MS"
      using days_ahead_bounds [of "utc_day w" b] by (intro mult_right_mono) (auto simp: DAY_MS_def)
    then have "w < (utc_day w * DAY_MS + ?k * DAY_MS) + 2 * HOUR_MS"
      using day_split [of w] r(2) HOUR_MS_def by linarith
    then show ?thesis by (simp only: distrib_right)
  qed
  moreover have "utc_day ((utc_day w + ?k) * DAY_MS + 2 * HOUR_MS) = utc_day w + ?k"
    by (simp add: utc_day_def DAY_MS_def HOUR_MS_def)
  moreover have "(utc_day w + ?k) * DAY_MS + 2 * HOUR_MS \<le> t + DOUALA_OFFSET_MS"
    if "now < t" "sunday_2am t" for t
  proof -
    have t: "(utc_day (t + DOUALA_OFFSET_MS) + 4) mod 7 = 0"
        "t + DOUALA_OFFSET_MS = utc_day (t + DOUALA_OFFSET_MS) * DAY_MS + 2 * HOUR_MS"
      using that(2) unfolding sunday_2am_day by blast+
    have "utc_day w * DAY_MS + w mod DAY_MS < utc_day (t + DOUALA_OFFSET_MS) * DAY_MS + 2 * HOUR_MS"
      using that(1) t(2) day_split [of w] unfolding w_def by linarith
    then have "utc_day w \<le> utc_day (t + DOUALA_OFFSET_MS) \<and> (utc_day (t + DOUALA_OFFSET_MS) = utc_day w \<longrightarrow> b)"
      using r unfolding b_def ms_consts by linarith
    then have "utc_day w + ?k \<le> utc_day (t + DOUALA_OFFSET_MS)"
      using days_ahead_least [OF t(1)] by blast
    then have "(utc_day w + ?k) * DAY_MS \<le> utc_day (t + DOUALA_OFFSET_MS) * DAY_MS"
      by (intro mult_right_mono) (simp_all add: DAY_MS_def)
    then show ?thesis using t(2) by linarith
  qed
  moreover note days_ahead_sunday [of "utc_day w" b]
  ultimately have X: "w < nextSundayAt02DoualaUtc now + DOUALA_OFFSET_MS" "sunday_2am (nextSundayAt02DoualaUtc now)"
      "\<And>t. now < t \<Longrightarrow> sunday_2am t \<Longrightarrow> nextSundayAt02DoualaUtc now + DOUALA_OFFSET_MS \<le> t + DOUALA_OFFSET_MS"
    unfolding sunday_2am_day [of "nextSundayAt02DoualaUtc now"] est by auto
  then have "now < nextSundayAt02DoualaUtc now" unfolding w_def by linarith
  then show ?thesis using X by force
qed

theorem next_sunday_is_the_cron_tick_witness:
  "nextSundayAt02DoualaUtc 0 = 262800000 \<and> sunday_2am 262800000"
proof -
  have "nextSundayAt02DoualaUtc 0 = 262800000" by code_simp
  with next_sunday_is_the_cron_tick [of 0] show ?thesis by simp
qed

lemma next_morning_is_the_cron_tick:
  "now < nextMorningAt06DoualaUtc now \<and> nextMorningAt06DoualaUtc now \<le> now + DAY_MS
   \<and> (nextMorningAt06DoualaUtc now + DOUALA_OFFSET_MS) mod DAY_MS = 6 * HOUR_MS"
proof -
  define w where "w = now + DOUALA_OFFSET_MS"
  have r: "0 \<le> w mod DAY_MS" "w mod DAY_MS < DAY_MS" by (simp_all add: DAY_MS_def)
  have est: "nextMorningAt06DoualaUtc now + DOUALA_OFFSET_MS =
      (utc_day w + (if 6 * HOUR_MS \<le> w mod DAY_MS then 1 else 0)) * DAY_MS + 6 * HOUR_MS"
    unfolding morning_estimate w_def ..
  have m: "(d * DAY_MS + 6 * HOUR_MS) mod DAY_MS = 6 * HOUR_MS" for d by (simp add: DAY_MS_def HOUR_MS_def)
  have "w < nextMorningAt06DoualaUtc now + DOUALA_OFFSET_MS \<and> nextMorningAt06DoualaUtc now + DOUALA_OFFSET_MS \<le> w + DAY_MS"
  proof (cases "6 * HOUR_MS \<le> w mod DAY_MS")
    case True
    then have "nextMorningAt06DoualaUtc now + DOUALA_OFFSET_MS = utc_day w * DAY_MS + DAY_MS + 6 * HOUR_MS"
      using est by (simp add: distrib_right)
    then show ?thesis using day_split [of w] r True HOUR_MS_def by linarith
  next
    case False
    then have "nextMorningAt06DoualaUtc now + DOUALA_OFFSET_MS = utc_day w * DAY_MS + 6 * HOUR_MS"
      using est by simp
    moreover have "6 * HOUR_MS < DAY_MS" by (simp add: DAY_MS_def HOUR_MS_def)
    ultimately show ?thesis using day_split [of w] r False by linarith
  qed
  then show ?thesis using m est unfolding w_def by simp
qed

section \<open>What a delivery and a compensation do to a vendor's statement\<close>

lemma payable_sum_rows:
  "payable_sum v c (w\<lparr>w_ledger := w_ledger w @ rows\<rparr>) =
   payable_sum v c w + ledger_sum (\<lambda>l. l_vendorId l = Some v \<and> l_account l = VENDOR_PAYABLE \<and> since c l) rows"
  by (simp add: payable_sum_def)

lemma revenue_rows:
  "revenue_attribution v ty c (w\<lparr>w_ledger := w_ledger w @ rows\<rparr>) =
   revenue_attribution v ty c w
   + ledger_sum (\<lambda>l. l_vendorId l = Some v \<and> l_account l = PLATFORM_REVENUE \<and> since c l \<and> l_eventType l = ty) rows"
  by (simp add: revenue_attribution_def)

lemma isTrusted_ledger [simp]: "isTrusted v now (w\<lparr>w_ledger := l\<rparr>) = isTrusted v now w"
  by (simp add: isTrusted_def openDisputes_def orders_count_def)

lemma since_last_payout:
  assumes "\<forall>p \<in> set ps. p_periodEnd p < l_createdAt l"
  shows "since (map_option p_periodEnd (last_payout v ps)) l"
proof (cases "last_payout v ps")
  case (Some p)
  then have "p \<in> set ps" unfolding last_payout_def by (auto dest: latest_Some)
  then show ?thesis using assms Some by (simp add: since_def)
qed (simp add: since_def)

text \<open>The balance read after some rows were appended, all newer than every settled period.\<close>

lemma getVendorBalance_rows:
  assumes "getVendorBalance v t w = Inr b"
    and "\<forall>l \<in> set rows. \<forall>p \<in> set (w_vendorPayouts w). p_periodEnd p < l_createdAt l"
  shows "\<exists>b'. getVendorBalance v t (w\<lparr>w_ledger := w_ledger w @ rows\<rparr>) = Inr b'
     \<and> vb_balanceXAF b' = vb_balanceXAF b
          - ledger_sum (\<lambda>l. l_vendorId l = Some v \<and> l_account l = VENDOR_PAYABLE) rows
     \<and> vb_commissionXAF b' = vb_commissionXAF b
          - ledger_sum (\<lambda>l. l_vendorId l = Some v \<and> l_account l = PLATFORM_REVENUE \<and> l_eventType l = ORDER_DELIVERED) rows
     \<and> vb_penaltyXAF b' = vb_penaltyXAF b
          - ledger_sum (\<lambda>l. l_vendorId l = Some v \<and> l_account l = PLATFORM_REVENUE \<and> l_eventType l = PENALTY_APPLIED) rows
     \<and> vb_adjustmentsXAF b' = vb_adjustmentsXAF b
          - ledger_sum (\<lambda>l. l_vendorId l = Some v \<and> l_account l = PLATFORM_REVENUE \<and> l_eventType l = ADJUSTMENT) rows
     \<and> vb_grossXAF b' = vb_balanceXAF b' + vb_commissionXAF b' + vb_penaltyXAF b' - vb_adjustmentsXAF b'"
proof -
  let ?c = "map_option p_periodEnd (last_payout v (w_vendorPayouts w))"
  have "since ?c l" if "l \<in> set rows" for l using since_last_payout that assms(2) by blast
  then have f: "ledger_sum (\<lambda>l. P l \<and> Q l \<and> since ?c l) rows = ledger_sum (\<lambda>l. P l \<and> Q l) rows"
      "ledger_sum (\<lambda>l. P l \<and> Q l \<and> since ?c l \<and> R l) rows = ledger_sum (\<lambda>l. P l \<and> Q l \<and> R l) rows" for P Q R
    unfolding ledger_sum_def by (auto intro!: arg_cong [where f = "\<lambda>x. sum_list (map l_amountXAF x)"] filter_cong)
  have v: "vendor_by_id v (w\<lparr>w_ledger := w_ledger w @ rows\<rparr>) = vendor_by_id v w" by (simp add: vendor_by_id_def)
  show ?thesis
    using assms(1)
    by (auto simp: getVendorBalance_def Let_def payable_sum_rows revenue_rows f v split: option.splits)
qed

text \<open>
  A delivery adds the vendor's net to the balance, but the platform leg of the delivery names no
  vendor, so the commission of the statement does not move and its gross grows by the net only; a
  rider-fraud compensation adds its amount to the balance once and to the gross twice.
\<close>

theorem statement_components:
  assumes "getVendorBalance (o_vendorId order) t w = Inr b"
    and "\<forall>p \<in> set (w_vendorPayouts w). p_periodEnd p < now"
  shows "(\<exists>b1. getVendorBalance (o_vendorId order) t
             (w\<lparr>w_ledger := w_ledger w @ map (ledger_row (delivery_transaction order net sh fee) now)
                 (t_entries (delivery_transaction order net sh fee))\<rparr>) = Inr b1
           \<and> vb_balanceXAF b1 = vb_balanceXAF b + net
           \<and> vb_commissionXAF b1 = vb_commissionXAF b
           \<and> vb_grossXAF b1 = vb_grossXAF b + net)
       \<and> (\<exists>b2. getVendorBalance (o_vendorId order) t
             (w\<lparr>w_ledger := w_ledger w @ map (ledger_row (compensation_transaction order x) now)
                 (t_entries (compensation_transaction order x))\<rparr>) = Inr b2
           \<and> vb_balanceXAF b2 = vb_balanceXAF b + x \<and> vb_grossXAF b2 = vb_grossXAF b + 2 * x)"
proof -
  have g: "vb_grossXAF b = vb_balanceXAF b + vb_commissionXAF b + vb_penaltyXAF b - vb_adjustmentsXAF b"
    using assms(1) by (auto simp: getVendorBalance_def Let_def split: option.splits)
  have "\<forall>l \<in> set (map (ledger_row tr now) es). \<forall>p \<in> set (w_vendorPayouts w). p_periodEnd p < l_createdAt l" for tr es
    using assms(2) by (auto simp: ledger_row_def)
  note rows = getVendorBalance_rows [OF assms(1) this]
  show ?thesis
    using rows [of "delivery_transaction order net sh fee" "t_entries (delivery_transaction order net sh fee)"]
      rows [of "compensation_transaction order x" "t_entries (compensation_transaction order x)"] g
    by (auto simp: delivery_transaction_def compensation_transaction_def ledger_row_def Let_def order_leg_def)
qed

theorem statement_components_witness:
  "\<exists>b. getVendorBalance ''V'' 9
          ((demo_world [] [])\<lparr>w_ledger := w_ledger (demo_world [] []) @
             map (ledger_row (compensation_transaction (demo_order OS_CANCELLED PS_PAID) 2350) 5)
               (t_entries (compensation_transaction (demo_order OS_CANCELLED PS_PAID) 2350))\<rparr>) = Inr b
       \<and> vb_balanceXAF b = 2350 \<and> vb_grossXAF b = 4700"
proof -
  have b: "getVendorBalance ''V'' 9 (demo_world [] []) =
      Inr \<lparr>vb_vendorId = ''V'', vb_name = ''Chez Ma'', vb_type = INFORMAL, vb_balanceXAF = 0, vb_grossXAF = 0,
           vb_commissionXAF = 0, vb_penaltyXAF = 0, vb_adjustmentsXAF = 0, vb_lastPayoutAt = None,
           vb_lastPayoutId = None, vb_isTrusted = False\<rparr>"
    by (simp add: getVendorBalance_def vendor_by_id_def demo_world_def demo_vendor_def last_payout_def
        payable_sum_def revenue_attribution_def isTrusted_def orders_count_def TRUSTED_MIN_COMPLETED_ORDERS_def)
  have "\<forall>p \<in> set (w_vendorPayouts (demo_world [] [])). p_periodEnd p < 5" by (simp add: demo_world_def)
  from statement_components [OF _ this, of "demo_order OS_CANCELLED PS_PAID", simplified, OF b, where x = 2350]
  show ?thesis by auto
qed

end
