(* ===== verification/Payouts.thy ===== *)
theory Payouts
  imports Finance_Balance
begin

text \<open>
  Paying vendors and riders out: the two crons (\<open>finance/vendor-payout-cron.service.ts\<close>,
  \<open>finance/rider-payout-cron.service.ts\<close>), the on-demand cashout, the transfer webhook and the admin
  remediation of \<open>finance/finance.service.ts\<close>, the worker that fires the transfers
  (\<open>finance/payout-transfer-worker.service.ts\<close>) and the escalation list
  (\<open>finance/payout-escalation.service.ts\<close>).  Ids the database generates are parameters, and
  \<open>transfer\<close> is what \<open>campay.initiateTransfer\<close> answers to a request.  The dates inside the ledger
  descriptions are left out.
\<close>

section \<open>The two payout tables\<close>

datatype payout_kind = VendorPayouts | RiderPayouts

fun payouts :: "payout_kind \<Rightarrow> world \<Rightarrow> payout list" where
  "payouts VendorPayouts w = w_vendorPayouts w"
| "payouts RiderPayouts w = w_riderPayouts w"

fun modify_payouts :: "payout_kind \<Rightarrow> (payout list \<Rightarrow> payout list) \<Rightarrow> world \<Rightarrow> world" where
  "modify_payouts VendorPayouts f w = w_vendorPayouts_update f w"
| "modify_payouts RiderPayouts f w = w_riderPayouts_update f w"

interpretation payouts: repository "payouts k" "modify_payouts k" p_id for k
proof unfold_locales
  show "payouts k (modify_payouts k f w) = f (payouts k w)" for f w by (cases k) simp_all
qed

text \<open>\<open>updateMany\<close> on one payout row with a guard on its status; \<open>None\<close> is \<open>count === 0\<close>.\<close>

definition payout_updateMany ::
  "payout_kind \<Rightarrow> uuid \<Rightarrow> PayoutStatus list \<Rightarrow> (payout \<Rightarrow> payout) \<Rightarrow> world \<Rightarrow> world option" where
  "payout_updateMany k i from f w =
     (if count_where (\<lambda>p. p_id p = i \<and> p_status p \<in> set from) (payouts k w) = 0 then None
      else Some (modify_payouts k (upd_where (\<lambda>p. p_id p = i \<and> p_status p \<in> set from) f) w))"

definition payout_by_id :: "payout_kind \<Rightarrow> uuid \<Rightarrow> world \<Rightarrow> payout option" where
  "payout_by_id k i w = find_row (\<lambda>p. p_id p = i) (payouts k w)"

text \<open>\<open>update({ where: { id } })\<close>, and the unique column \<open>campayRef\<close>.\<close>

definition payout_update :: "payout_kind \<Rightarrow> uuid \<Rightarrow> (payout \<Rightarrow> payout) \<Rightarrow> world \<Rightarrow> world option" where
  "payout_update k i f w =
     (case payout_by_id k i w of None \<Rightarrow> None | Some _ \<Rightarrow> Some (modify_payouts k (upd_where (\<lambda>p. p_id p = i) f) w))"

definition ref_taken :: "payout_kind \<Rightarrow> uuid \<Rightarrow> string \<Rightarrow> world \<Rightarrow> bool" where
  "ref_taken k i ref w \<longleftrightarrow> list_ex (\<lambda>p. p_campayRef p = Some ref \<and> p_id p \<noteq> i) (payouts k w)"

section \<open>Scheduling\<close>

definition MIN_VENDOR_PAYOUT_XAF :: xaf where "MIN_VENDOR_PAYOUT_XAF = 500"
definition MAX_VENDORS_PER_RUN :: nat where "MAX_VENDORS_PER_RUN = 500"
definition MIN_RIDER_PAYOUT_XAF :: xaf where "MIN_RIDER_PAYOUT_XAF = 1000"
definition MAX_RIDERS_PER_RUN :: nat where "MAX_RIDERS_PER_RUN = 500"
definition MIN_CASHOUT_XAF :: xaf where "MIN_CASHOUT_XAF = 500"

datatype schedule_outcome =
    Scheduled uuid xaf
  | BelowMinimum xaf
  | OpenDisputes
  | NegativeOrZeroBalance xaf
  | NoActivity xaf
  | AlreadyScheduled uuid
  | KycIncomplete "string list"

definition vendor_payout_row ::
  "uuid \<Rightarrow> VendorBalance \<Rightarrow> time \<Rightarrow> time \<Rightarrow> string \<Rightarrow> payout" where
  "vendor_payout_row payoutId balance periodStart periodEnd momoPhone =
     \<lparr>p_id = payoutId, p_ownerId = vb_vendorId balance, p_periodStart = periodStart,
      p_periodEnd = periodEnd, p_grossXAF = vb_grossXAF balance,
      p_commissionXAF = vb_commissionXAF balance, p_penaltyXAF = vb_penaltyXAF balance,
      p_adjustmentsXAF = vb_adjustmentsXAF balance, p_netXAF = vb_balanceXAF balance,
      p_momoPhone = momoPhone, p_campayRef = None, p_status = PO_PENDING, p_failureReason = None,
      p_scheduledFor = periodEnd, p_sentAt = None, p_paidAt = None\<rparr>"

definition rider_payout_row ::
  "uuid \<Rightarrow> RiderBalance \<Rightarrow> time \<Rightarrow> time \<Rightarrow> string \<Rightarrow> payout" where
  "rider_payout_row payoutId balance periodStart periodEnd momoPhone =
     \<lparr>p_id = payoutId, p_ownerId = rb_riderId balance, p_periodStart = periodStart,
      p_periodEnd = periodEnd, p_grossXAF = rb_grossXAF balance, p_commissionXAF = 0, p_penaltyXAF = 0,
      p_adjustmentsXAF = rb_adjustmentsXAF balance, p_netXAF = rb_balanceXAF balance,
      p_momoPhone = momoPhone, p_campayRef = None, p_status = PO_PENDING, p_failureReason = None,
      p_scheduledFor = periodEnd, p_sentAt = None, p_paidAt = None\<rparr>"

definition payout_leg ::
  "LedgerAccount \<Rightarrow> xaf \<Rightarrow> uuid option \<Rightarrow> uuid option \<Rightarrow> uuid \<Rightarrow> string \<Rightarrow> entry_input" where
  "payout_leg a amt vendorId riderId payoutId d =
     \<lparr>e_account = a, e_amountXAF = amt, e_orderId = None, e_vendorId = vendorId, e_riderId = riderId,
      e_payoutId = Some payoutId, e_refundId = None, e_description = Some d\<rparr>"

definition vendor_payout_transaction :: "uuid \<Rightarrow> uuid \<Rightarrow> xaf \<Rightarrow> string \<Rightarrow> transaction_input" where
  "vendor_payout_transaction payoutId vendorId amt d =
     \<lparr>t_eventId = ''vendor_payout:'' @ payoutId, t_eventType = VENDOR_PAYOUT,
      t_entries =
        [payout_leg VENDOR_PAYABLE amt (Some vendorId) None payoutId d,
         payout_leg CAMPAY_FLOAT (- amt) (Some vendorId) None payoutId ''Funds leaving platform Campay float'']\<rparr>"

definition rider_payout_transaction :: "uuid \<Rightarrow> uuid \<Rightarrow> xaf \<Rightarrow> transaction_input" where
  "rider_payout_transaction payoutId riderId amt =
     \<lparr>t_eventId = ''rider_payout:'' @ payoutId, t_eventType = RIDER_PAYOUT,
      t_entries =
        [payout_leg RIDER_PAYABLE amt None (Some riderId) payoutId ''Rider payout scheduled'',
         payout_leg CAMPAY_FLOAT (- amt) None (Some riderId) payoutId ''Funds leaving platform Campay float'']\<rparr>"

definition delivered_in :: "time \<Rightarrow> time \<Rightarrow> order \<Rightarrow> bool" where
  "delivered_in periodStart periodEnd r \<longleftrightarrow> o_status r = OS_DELIVERED \<and>
     (case o_deliveredAt r of None \<Rightarrow> False | Some t \<Rightarrow> periodStart < t \<and> t \<le> periodEnd)"

text \<open>
  The transaction both vendor paths run: the row (unique on owner and period start), the ledger
  pair, the tag on the orders of the period.
\<close>

definition schedule_tx ::
  "payout_kind \<Rightarrow> payout \<Rightarrow> transaction_input \<Rightarrow> (order \<Rightarrow> bool) \<Rightarrow> time \<Rightarrow> world \<Rightarrow> http_error + world" where
  "schedule_tx k row input covered now w =
     (if list_ex (\<lambda>p. p_ownerId p = p_ownerId row \<and> p_periodStart p = p_periodStart row) (payouts k w)
      then Inl (PrismaError ''P2002'')
      else case recordTransaction input now (modify_payouts k (\<lambda>ps. ps @ [row]) w) of
             (Inl e, _) \<Rightarrow> Inl e
           | (Inr _, w1) \<Rightarrow> Inr (orders_updateMany covered (\<lambda>r. r\<lparr>o_payoutId := Some (p_id row)\<rparr>) w1))"

definition period_start :: "uuid \<Rightarrow> payout list \<Rightarrow> time \<Rightarrow> time" where
  "period_start ownerId ps createdAt =
     (case last_payout ownerId ps of Some p \<Rightarrow> p_periodEnd p | None \<Rightarrow> createdAt)"

definition tryScheduleVendorPayout ::
  "uuid \<Rightarrow> uuid \<Rightarrow> string \<Rightarrow> time \<Rightarrow> time \<Rightarrow> world \<Rightarrow> (schedule_outcome, world) outcome" where
  "tryScheduleVendorPayout payoutId vendorId momoPhone scheduledFor now w =
     (case getVendorBalance vendorId now w of
        Inl e \<Rightarrow> (Inl e, w)
      | Inr balance \<Rightarrow>
          if vb_balanceXAF balance \<le> 0 then (Inr (NegativeOrZeroBalance (vb_balanceXAF balance)), w)
          else if vb_balanceXAF balance < MIN_VENDOR_PAYOUT_XAF then (Inr (BelowMinimum (vb_balanceXAF balance)), w)
          else if openDisputes vendorId w > 0 then (Inr OpenDisputes, w)
          else
            (case vendor_by_id vendorId w of
               None \<Rightarrow> (Inl (UpstreamError ''TypeError''), w)
             | Some vendor \<Rightarrow>
                 (let periodStart = period_start vendorId (w_vendorPayouts w) (v_createdAt vendor)
                  in case find_row (\<lambda>p. p_ownerId p = vendorId \<and> p_periodStart p = periodStart) (w_vendorPayouts w) of
                       Some existing \<Rightarrow> (Inr (AlreadyScheduled (p_id existing)), w)
                     | None \<Rightarrow>
                         (case schedule_tx VendorPayouts
                                 (vendor_payout_row payoutId balance periodStart scheduledFor momoPhone)
                                 (vendor_payout_transaction payoutId vendorId (vb_balanceXAF balance) ''Vendor payout scheduled'')
                                 (\<lambda>r. o_vendorId r = vendorId \<and> delivered_in periodStart scheduledFor r \<and> o_payoutId r = None)
                                 now w of
                            Inl e \<Rightarrow> (Inl e, w)
                          | Inr w' \<Rightarrow> (Inr (Scheduled payoutId (vb_balanceXAF balance)), w')))))"

definition kyc_missing :: "rider option \<Rightarrow> string list" where
  "kyc_missing kyc =
     (if falsy (Option.bind kyc r_idCardPhotoUrl) then [''idCardPhotoUrl''] else [])
     @ (if falsy (Option.bind kyc r_selfiePhotoUrl) then [''selfiePhotoUrl''] else [])"

definition tryScheduleRiderPayout ::
  "uuid \<Rightarrow> uuid \<Rightarrow> string \<Rightarrow> time \<Rightarrow> time \<Rightarrow> world \<Rightarrow> (schedule_outcome, world) outcome" where
  "tryScheduleRiderPayout payoutId riderId momoPhone scheduledFor now w =
     (let missing = kyc_missing (rider_by_id riderId w)
      in if missing \<noteq> [] then (Inr (KycIncomplete missing), w)
         else
           (case getRiderBalance riderId w of
              Inl e \<Rightarrow> (Inl e, w)
            | Inr balance \<Rightarrow>
                if rb_balanceXAF balance \<le> 0 then (Inr (NoActivity (rb_balanceXAF balance)), w)
                else if rb_balanceXAF balance < MIN_RIDER_PAYOUT_XAF
                then (Inr (BelowMinimum (rb_balanceXAF balance)), w)
                else
                  (case rider_by_id riderId w of
                     None \<Rightarrow> (Inl (UpstreamError ''TypeError''), w)
                   | Some rider \<Rightarrow>
                       (let periodStart = period_start riderId (w_riderPayouts w) (r_createdAt rider)
                        in case find_row (\<lambda>p. p_ownerId p = riderId \<and> p_periodStart p = periodStart) (w_riderPayouts w) of
                             Some existing \<Rightarrow> (Inr (AlreadyScheduled (p_id existing)), w)
                           | None \<Rightarrow>
                               (case schedule_tx RiderPayouts
                                       (rider_payout_row payoutId balance periodStart scheduledFor momoPhone)
                                       (rider_payout_transaction payoutId riderId (rb_balanceXAF balance))
                                       (\<lambda>r. o_riderId r = Some riderId \<and> delivered_in periodStart scheduledFor r)
                                       now w of
                                  Inl e \<Rightarrow> (Inl e, w)
                                | Inr w' \<Rightarrow> (Inr (Scheduled payoutId (rb_balanceXAF balance)), w'))))))"

text \<open>
  The cron loops: one row after the other, an error is logged and the batch continues.  The
  outcomes are what the final log line counts.
\<close>

fun schedule_each ::
  "('o \<Rightarrow> uuid \<Rightarrow> world \<Rightarrow> (schedule_outcome, world) outcome) \<Rightarrow> ('o \<times> uuid) list \<Rightarrow> world
     \<Rightarrow> (http_error + schedule_outcome) list \<times> world" where
  "schedule_each try [] w = ([], w)"
| "schedule_each try ((x, payoutId) # xs) w =
     (let (res, w1) = try x payoutId w; (rs, w2) = schedule_each try xs w1 in (res # rs, w2))"

definition sweepWeeklyVendorPayouts ::
  "(nat \<Rightarrow> uuid) \<Rightarrow> time \<Rightarrow> time \<Rightarrow> world \<Rightarrow> (http_error + schedule_outcome) list \<times> world" where
  "sweepWeeklyVendorPayouts newId startedAt now w =
     (let vendors = find_many MAX_VENDORS_PER_RUN
            (\<lambda>v. v_status v = VS_ACTIVE \<and> v_type v \<in> {SEMI_FORMAL, RESTAURANT}) (w_vendors w)
      in schedule_each (\<lambda>v payoutId. tryScheduleVendorPayout payoutId (v_id v) (v_momoPhone v) startedAt now)
           (zip vendors (map newId [0..<length vendors])) w)"

definition sweepDailyRiderPayouts ::
  "(nat \<Rightarrow> uuid) \<Rightarrow> time \<Rightarrow> time \<Rightarrow> world \<Rightarrow> (http_error + schedule_outcome) list \<times> world" where
  "sweepDailyRiderPayouts newId startedAt now w =
     (let riders = find_many MAX_RIDERS_PER_RUN (\<lambda>r. r_status r = RS_ACTIVE) (w_riders w)
      in schedule_each (\<lambda>r payoutId. tryScheduleRiderPayout payoutId (r_id r) (r_momoPhone r) startedAt now)
           (zip riders (map newId [0..<length riders])) w)"

section \<open>On-demand cashout\<close>

definition requestVendorCashout ::
  "uuid \<Rightarrow> uuid \<Rightarrow> time \<Rightarrow> world \<Rightarrow> (uuid \<times> xaf \<times> bool, world) outcome" where
  "requestVendorCashout requestId vendorId now w =
     (case vendor_by_id vendorId w of
        None \<Rightarrow> (Inl (NotFound ''vendor_not_found''), w)
      | Some vendor \<Rightarrow>
          if v_type vendor \<noteq> INFORMAL then (Inl (BadRequest ''cashout_request_only_for_informal''), w)
          else if v_status vendor \<noteq> VS_ACTIVE then (Inl (Conflict ''vendor_not_active''), w)
          else if pending_cashout vendorId w \<noteq> None then (Inl (Conflict ''cashout_request_already_pending''), w)
          else
            (case getVendorBalance vendorId now w of
               Inl e \<Rightarrow> (Inl e, w)
             | Inr balance \<Rightarrow>
                 if vb_balanceXAF balance \<le> 0 then (Inl (Conflict ''cashout_request_no_balance''), w)
                 else (Inr (requestId, vb_balanceXAF balance, vb_isTrusted balance),
                       w\<lparr>w_cashouts := w_cashouts w @
                           [\<lparr>cr_id = requestId, cr_vendorId = vendorId, cr_requestedXAF = vb_balanceXAF balance,
                             cr_status = CR_PENDING_APPROVAL, cr_approvedAt = None, cr_approvedByUserId = None,
                             cr_rejectedAt = None, cr_rejectionReason = None, cr_payoutId = None,
                             cr_createdAt = now\<rparr>]\<rparr>)))"

definition cashout_by_id :: "uuid \<Rightarrow> world \<Rightarrow> cashout_request option" where
  "cashout_by_id requestId w = find_row (\<lambda>c. cr_id c = requestId) (w_cashouts w)"

definition approve_patch :: "time \<Rightarrow> uuid \<Rightarrow> uuid \<Rightarrow> cashout_request \<Rightarrow> cashout_request" where
  "approve_patch periodEnd adminUserId payoutId c =
     c\<lparr>cr_status := CR_APPROVED, cr_approvedAt := Some periodEnd, cr_approvedByUserId := Some adminUserId,
       cr_payoutId := Some payoutId\<rparr>"

text \<open>\<open>periodEnd\<close> is the instant of the call, \<open>now\<close> the database clock of the transaction after it.\<close>

definition approveCashoutRequest ::
  "uuid \<Rightarrow> uuid \<Rightarrow> uuid \<Rightarrow> time \<Rightarrow> time \<Rightarrow> world \<Rightarrow> (uuid \<times> xaf, world) outcome" where
  "approveCashoutRequest payoutId requestId adminUserId periodEnd now w =
     (case cashout_by_id requestId w of
        None \<Rightarrow> (Inl (NotFound ''cashout_request_not_found''), w)
      | Some request \<Rightarrow>
          if cr_status request \<noteq> CR_PENDING_APPROVAL then (Inl (Conflict ''cashout_request_not_pending''), w)
          else
            (case getVendorBalance (cr_vendorId request) periodEnd w of
               Inl e \<Rightarrow> (Inl e, w)
             | Inr balance \<Rightarrow>
                 if vb_balanceXAF balance < MIN_CASHOUT_XAF then (Inl (Conflict ''cashout_below_minimum''), w)
                 else if openDisputes (cr_vendorId request) w > 0 then (Inl (Conflict ''cashout_open_disputes''), w)
                 else
                   (case vendor_by_id (cr_vendorId request) w of
                      None \<Rightarrow> (Inl (UpstreamError ''TypeError''), w)
                    | Some vendor \<Rightarrow>
                        (let periodStart = period_start (cr_vendorId request) (w_vendorPayouts w) (v_createdAt vendor)
                         in case schedule_tx VendorPayouts
                                   (vendor_payout_row payoutId balance periodStart periodEnd (v_momoPhone vendor))
                                   (vendor_payout_transaction payoutId (cr_vendorId request) (vb_balanceXAF balance)
                                      ''Vendor on-demand cashout (admin approved)'')
                                   (\<lambda>r. o_vendorId r = cr_vendorId request \<and> delivered_in periodStart periodEnd r
                                        \<and> o_payoutId r = None)
                                   now w of
                              Inl e \<Rightarrow> (Inl e, w)
                            | Inr w' \<Rightarrow>
                                (Inr (payoutId, vb_balanceXAF balance),
                                 w_cashouts_update (upd_where (\<lambda>c. cr_id c = requestId)
                                   (approve_patch periodEnd adminUserId payoutId)) w')))))"

definition rejectCashoutRequest ::
  "uuid \<Rightarrow> uuid \<Rightarrow> string \<Rightarrow> time \<Rightarrow> world \<Rightarrow> (unit, world) outcome" where
  "rejectCashoutRequest requestId adminUserId reason now w =
     (case cashout_by_id requestId w of
        None \<Rightarrow> (Inl (NotFound ''cashout_request_not_found''), w)
      | Some request \<Rightarrow>
          if cr_status request \<noteq> CR_PENDING_APPROVAL then (Inl (Conflict ''cashout_request_not_pending''), w)
          else (Inr (), w_cashouts_update (upd_where (\<lambda>c. cr_id c = requestId)
                  (\<lambda>c. c\<lparr>cr_status := CR_REJECTED, cr_rejectedAt := Some now, cr_rejectionReason := Some reason,
                        cr_approvedByUserId := Some adminUserId\<rparr>)) w))"

record cashout_view =
  cw_request :: cashout_request
  cw_ageHours :: int
  cw_isTrusted :: bool

definition listCashoutRequests ::
  "CashoutRequestStatus option \<Rightarrow> nat option \<Rightarrow> nat option \<Rightarrow> time \<Rightarrow> world \<Rightarrow> nat \<times> cashout_view list" where
  "listCashoutRequests status limit offset now w =
     (let rows = filter (\<lambda>c. status = None \<or> status = Some (cr_status c)) (w_cashouts w)
      in (length rows,
          map (\<lambda>c. \<lparr>cw_request = c, cw_ageHours = (now - cr_createdAt c) div HOUR_MS,
                   cw_isTrusted = (case getVendorBalance (cr_vendorId c) now w of
                                     Inl _ \<Rightarrow> False | Inr b \<Rightarrow> vb_isTrusted b)\<rparr>)
            (page offset limit (sort_key cr_createdAt rows))))"

section \<open>Guarded writes on a payout row\<close>

definition payouts_distinct :: "payout_kind \<Rightarrow> world \<Rightarrow> bool" where
  "payouts_distinct k w \<longleftrightarrow> distinct (map p_id (payouts k w))"

lemma payouts_modify [simp]: "payouts k (modify_payouts k f w) = f (payouts k w)"
  by (rule payouts.rows_modify)

lemma payouts_modify_other [simp]: "j \<noteq> k \<Longrightarrow> payouts j (modify_payouts k f w) = payouts j w"
  by (cases k; cases j) simp_all

lemma modify_payouts_frame [simp]:
  "w_ledger (modify_payouts k f w) = w_ledger w" "w_orders (modify_payouts k f w) = w_orders w"
  "w_vendors (modify_payouts k f w) = w_vendors w" "w_riders (modify_payouts k f w) = w_riders w"
  "w_webhooks (modify_payouts k f w) = w_webhooks w" "w_cashouts (modify_payouts k f w) = w_cashouts w"
  "w_events (modify_payouts k f w) = w_events w" "w_jobs (modify_payouts k f w) = w_jobs w"
  by (cases k; simp)+

lemma payouts_frame [simp]:
  "payouts k (w_orders_update g w) = payouts k w" "payouts k (w_ledger_update h w) = payouts k w"
  "payouts k (w_cashouts_update c w) = payouts k w" "payouts k (w_webhooks_update e w) = payouts k w"
  by (cases k; simp)+

lemma payout_by_id_id: "payout_by_id k i w = Some p \<Longrightarrow> p_id p = i \<and> p \<in> set (payouts k w)"
  by (auto simp: payout_by_id_def dest: find_row_Some)

lemma payout_updateMany_eq:
  assumes "payouts_distinct k w"
  shows "payout_updateMany k i from f w =
    (case payout_by_id k i w of
       Some p \<Rightarrow> if p_status p \<in> set from
         then Some (modify_payouts k (upd_where (\<lambda>p. p_id p = i \<and> p_status p \<in> set from) f) w) else None
     | None \<Rightarrow> None)"
  using count_where_key [of p_id "payouts k w" i "\<lambda>p. p_status p \<in> set from"] assms
  by (auto simp: payout_updateMany_def payouts_distinct_def payout_by_id_def split: option.splits)

lemma payout_by_id_upd:
  assumes "\<And>p. p_id (f p) = p_id p"
  shows "payout_by_id k j (modify_payouts k (upd_where q f) w) =
         map_option (\<lambda>p. if q p then f p else p) (payout_by_id k j w)"
  unfolding payout_by_id_def by (rule payouts.find_after_updateMany [OF assms])

lemma payout_by_id_other [simp]: "j \<noteq> k \<Longrightarrow> payout_by_id j i (modify_payouts k f w) = payout_by_id j i w"
  by (simp add: payout_by_id_def)

lemma payouts_distinct_upd [simp]:
  assumes "\<And>p. p_id (f p) = p_id p"
  shows "payouts_distinct j (modify_payouts k (upd_where q f) w) = payouts_distinct j w"
  using assms by (cases "j = k") (simp_all add: payouts_distinct_def map_key_upd_where)

text \<open>The row a winning write leaves behind; every other row is as it was.\<close>

lemma payout_updateMany_Some:
  assumes "payout_updateMany k i from f w = Some w'" and "\<And>p. p_id (f p) = p_id p" and "payouts_distinct k w"
  obtains p where "payout_by_id k i w = Some p" and "p_status p \<in> set from"
    and "payout_by_id k i w' = Some (f p)"
    and "\<And>j. j \<noteq> i \<Longrightarrow> payout_by_id k j w' = payout_by_id k j w"
    and "w' = modify_payouts k (upd_where (\<lambda>p. p_id p = i \<and> p_status p \<in> set from) f) w"
proof -
  let ?q = "\<lambda>p. p_id p = i \<and> p_status p \<in> set from"
  from assms(1) obtain p where p: "payout_by_id k i w = Some p" "p_status p \<in> set from"
      "w' = modify_payouts k (upd_where ?q f) w"
    unfolding payout_updateMany_eq [OF assms(3)] by (auto split: option.splits if_splits)
  have "payout_by_id k i w' = Some (f p)"
    using p payout_by_id_id [OF p(1)] by (simp add: payout_by_id_upd [of f, OF assms(2)])
  moreover have "payout_by_id k j w' = payout_by_id k j w" if "j \<noteq> i" for j
    using that by (cases "payout_by_id k j w")
      (auto simp: p(3) payout_by_id_upd [of f, OF assms(2)] dest: payout_by_id_id)
  ultimately show thesis using p that by blast
qed

section \<open>What a scheduled payout takes\<close>

lemma vendor_payout_valid:
  "payoutId \<noteq> [] \<Longrightarrow> amt \<noteq> 0 \<Longrightarrow> validate (vendor_payout_transaction payoutId vendorId amt d) = Inr ()"
  by (auto simp: vendor_payout_transaction_def validate_def payout_leg_def)

lemma rider_payout_valid:
  "payoutId \<noteq> [] \<Longrightarrow> amt \<noteq> 0 \<Longrightarrow> validate (rider_payout_transaction payoutId riderId amt) = Inr ()"
  by (auto simp: rider_payout_transaction_def validate_def payout_leg_def)

lemma schedule_tx_Inr:
  assumes "schedule_tx k row input covered now w = Inr w'"
  shows "w_ledger w' = w_ledger w @ map (ledger_row input now) (t_entries input)
    \<and> payouts k w' = payouts k w @ [row]
    \<and> (\<forall>j. j \<noteq> k \<longrightarrow> payouts j w' = payouts j w)
    \<and> w_orders w' = upd_where covered (\<lambda>r. r\<lparr>o_payoutId := Some (p_id row)\<rparr>) (w_orders w)
    \<and> w_vendors w' = w_vendors w \<and> w_riders w' = w_riders w \<and> w_cashouts w' = w_cashouts w
    \<and> w_webhooks w' = w_webhooks w
    \<and> (\<forall>p \<in> set (payouts k w). p_ownerId p = p_ownerId row \<longrightarrow> p_periodStart p \<noteq> p_periodStart row)"
  using assms
  by (auto simp: schedule_tx_def recordTransaction_def orders_updateMany_def list_ex_iff
      split: if_splits sum.splits prod.splits)

lemma schedule_tx_books: "schedule_tx k row input covered now w = Inr w' \<Longrightarrow> books_extend w w'"
proof -
  assume a: "schedule_tx k row input covered now w = Inr w'"
  let ?w = "modify_payouts k (\<lambda>ps. ps @ [row]) w"
  have "w_ledger w' = w_ledger (snd (recordTransaction input now ?w))"
    using a by (auto simp: schedule_tx_def split: if_splits sum.splits prod.splits)
  then show "books_extend w w'"
    using books_extend_cong [OF recordTransaction_extends [of ?w input now]] by simp
qed

lemma getVendorBalance_vendor: "getVendorBalance v t w = Inr b \<Longrightarrow> vb_vendorId b = v"
  by (auto simp: getVendorBalance_def Let_def vendor_by_id_def dest: find_row_Some split: option.splits)

text \<open>The balance read right after the transaction, on a clock past every settled period.\<close>

lemma balance_after_schedule:
  assumes "getVendorBalance v t w = Inr b"
    and "schedule_tx VendorPayouts row (vendor_payout_transaction payoutId v (vb_balanceXAF b) d) covered now w = Inr w'"
    and "p_status row = PO_PENDING" and "\<forall>p \<in> set (w_vendorPayouts w). p_periodEnd p < now"
  shows "\<exists>b'. getVendorBalance v t' w' = Inr b' \<and> vb_balanceXAF b' = 0"
proof -
  note s = schedule_tx_Inr [OF assms(2)]
  have vp: "w_vendorPayouts w' = w_vendorPayouts w @ [row]" using s by (metis payouts.simps(1))
  have last: "last_payout v (w_vendorPayouts w') = last_payout v (w_vendorPayouts w)"
    unfolding vp last_payout_def using assms(3) by simp
  let ?c = "map_option p_periodEnd (last_payout v (w_vendorPayouts w))"
  have c: "since ?c l" if "l_createdAt l = now" for l
    using since_last_payout [of "w_vendorPayouts w" l v] assms(4) that by simp
  have "payable_sum v ?c w' = payable_sum v ?c w + vb_balanceXAF b"
    using s by (simp add: payable_sum_def vendor_payout_transaction_def payout_leg_def ledger_row_def c)
  moreover have "vb_balanceXAF b = - payable_sum v ?c w"
    using assms(1) by (auto simp: getVendorBalance_def Let_def split: option.splits)
  moreover have "vendor_by_id v w' = vendor_by_id v w" using s by (simp add: vendor_by_id_def)
  ultimately show ?thesis
    using assms(1) by (auto simp: getVendorBalance_def Let_def last split: option.splits)
qed

lemma vendor_payout_scheduled_facts:
  assumes "tryScheduleVendorPayout payoutId vendorId momoPhone scheduledFor now w = (Inr (Scheduled i amt), w')"
    and "\<forall>p \<in> set (w_vendorPayouts w). p_periodEnd p < now"
  shows "\<exists>b row. getVendorBalance vendorId now w = Inr b \<and> amt = vb_balanceXAF b \<and> 500 \<le> amt
    \<and> openDisputes vendorId w = 0
    \<and> w_vendorPayouts w' = w_vendorPayouts w @ [row]
    \<and> p_id row = payoutId \<and> p_ownerId row = vendorId \<and> p_netXAF row = amt \<and> p_status row = PO_PENDING
    \<and> p_momoPhone row = momoPhone \<and> p_periodEnd row = scheduledFor \<and> p_campayRef row = None
    \<and> \<not> list_ex (\<lambda>p. p_ownerId p = vendorId \<and> p_periodStart p = p_periodStart row) (w_vendorPayouts w)
    \<and> w_ledger w' = w_ledger w @ map (ledger_row (vendor_payout_transaction payoutId vendorId amt
          ''Vendor payout scheduled'') now)
        (t_entries (vendor_payout_transaction payoutId vendorId amt ''Vendor payout scheduled''))
    \<and> books_extend w w'
    \<and> (\<exists>b'. getVendorBalance vendorId now w' = Inr b' \<and> vb_balanceXAF b' = 0)"
proof -
  from assms(1) obtain b vendor where b: "getVendorBalance vendorId now w = Inr b"
    and v: "vendor_by_id vendorId w = Some vendor"
    by (auto simp: tryScheduleVendorPayout_def Let_def split: sum.splits option.splits if_splits)
  define ps where "ps = period_start vendorId (w_vendorPayouts w) (v_createdAt vendor)"
  have g: "amt = vb_balanceXAF b" "500 \<le> amt" "openDisputes vendorId w = 0"
    and tx: "schedule_tx VendorPayouts (vendor_payout_row payoutId b ps scheduledFor momoPhone)
        (vendor_payout_transaction payoutId vendorId (vb_balanceXAF b) ''Vendor payout scheduled'')
        (\<lambda>r. o_vendorId r = vendorId \<and> delivered_in ps scheduledFor r \<and> o_payoutId r = None) now w = Inr w'"
    using assms(1) unfolding ps_def
    by (auto simp: tryScheduleVendorPayout_def Let_def MIN_VENDOR_PAYOUT_XAF_def b v
        split: sum.splits option.splits if_splits)
  note s = schedule_tx_Inr [OF tx]
  show ?thesis
    using b g s getVendorBalance_vendor [OF b] schedule_tx_books [OF tx] balance_after_schedule [OF b tx _ assms(2)]
    by - (rule exI [of _ b], rule exI [of _ "vendor_payout_row payoutId b ps scheduledFor momoPhone"],
      auto simp: vendor_payout_row_def list_ex_iff)
qed

text \<open>
  C11.  When a vendor payout is scheduled it is for the whole balance, at least 500 XAF, with no
  refund of that vendor under way; one PENDING row to the vendor's MoMo number is added with the
  balanced ledger pair, no other payout covers a period with that start, and the balance read
  afterwards is 0.
\<close>

theorem vendor_payout_scheduled:
  assumes "tryScheduleVendorPayout payoutId vendorId momoPhone scheduledFor now w = (Inr (Scheduled i amt), w')"
    and "\<forall>p \<in> set (w_vendorPayouts w). p_periodEnd p < now"
  shows "\<exists>b row. getVendorBalance vendorId now w = Inr b \<and> amt = vb_balanceXAF b \<and> 500 \<le> amt
    \<and> openDisputes vendorId w = 0
    \<and> w_vendorPayouts w' = w_vendorPayouts w @ [row]
    \<and> p_id row = payoutId \<and> p_ownerId row = vendorId \<and> p_netXAF row = amt \<and> p_status row = PO_PENDING
    \<and> p_momoPhone row = momoPhone \<and> p_periodEnd row = scheduledFor \<and> p_campayRef row = None
    \<and> \<not> list_ex (\<lambda>p. p_ownerId p = vendorId \<and> p_periodStart p = p_periodStart row) (w_vendorPayouts w)
    \<and> w_ledger w' = w_ledger w @ map (ledger_row (vendor_payout_transaction payoutId vendorId amt
          ''Vendor payout scheduled'') now)
        (t_entries (vendor_payout_transaction payoutId vendorId amt ''Vendor payout scheduled''))
    \<and> books_extend w w'
    \<and> (\<exists>b'. getVendorBalance vendorId now w' = Inr b' \<and> vb_balanceXAF b' = 0)"
  using assms by (rule vendor_payout_scheduled_facts)

definition owed_entry :: "LedgerAccount \<Rightarrow> uuid option \<Rightarrow> uuid option \<Rightarrow> xaf \<Rightarrow> time \<Rightarrow> ledger_entry" where
  "owed_entry a vendorId riderId amt t =
     \<lparr>l_eventId = ''order_delivered:O'', l_eventType = ORDER_DELIVERED, l_account = a, l_amountXAF = - amt,
      l_orderId = Some ''O'', l_vendorId = vendorId, l_riderId = riderId, l_payoutId = None, l_refundId = None,
      l_description = None, l_createdAt = t\<rparr>"

definition owed_world :: world where
  "owed_world = (demo_world [] [])\<lparr>w_ledger := [owed_entry VENDOR_PAYABLE (Some ''V'') None 2000 1]\<rparr>"

lemmas owed_simps = owed_world_def owed_entry_def demo_world_def demo_vendor_def

theorem vendor_payout_scheduled_witness:
  "\<exists>w'. tryScheduleVendorPayout ''P'' ''V'' ''670'' 10 11 owed_world = (Inr (Scheduled ''P'' 2000), w')
     \<and> (\<exists>b'. getVendorBalance ''V'' 11 w' = Inr b' \<and> vb_balanceXAF b' = 0)"
proof -
  define r where "r = tryScheduleVendorPayout ''P'' ''V'' ''670'' 10 11 owed_world"
  have "r = (Inr (Scheduled ''P'' 2000), snd r)" unfolding r_def by code_simp
  then have e: "tryScheduleVendorPayout ''P'' ''V'' ''670'' 10 11 owed_world = (Inr (Scheduled ''P'' 2000), snd r)"
    unfolding r_def .
  have "\<forall>p \<in> set (w_vendorPayouts owed_world). p_periodEnd p < 11" by (simp add: owed_simps)
  from vendor_payout_scheduled [OF e this] e show ?thesis by blast
qed

end
