(* ===== verification/Payout_Transfers.thy ===== *)
theory Payout_Transfers
  imports Payouts
begin

text \<open>
  The second half of the payout pipeline: the worker that fires PENDING rows at Campay
  (\<open>finance/payout-transfer-worker.service.ts\<close>), the transfer webhook and the admin remediation
  (\<open>finance/finance.service.ts\<close>), the escalation list (\<open>finance/payout-escalation.service.ts\<close>).
  \<open>transfer\<close> is the answer of \<open>campay.initiateTransfer\<close> to a request.
\<close>

section \<open>The transfer worker\<close>

definition MAX_PAYOUTS_PER_RUN :: nat where "MAX_PAYOUTS_PER_RUN = 25"

datatype transfer_outcome = Initiated | SkippedManual | TransferFailed | TransferRaceLost

text \<open>\<open>err instanceof Error ? err.message : String(err)\<close>.\<close>

fun error_message :: "http_error \<Rightarrow> string" where
  "error_message (BadRequest m) = m"
| "error_message (Unauthorized m) = m"
| "error_message (Forbidden m) = m"
| "error_message (NotFound m) = m"
| "error_message (Conflict m) = m"
| "error_message (PrismaError m) = m"
| "error_message (UpstreamError m) = m"
| "error_message (TooManyRequests m) = m"

text \<open>
  The closures of the argument object are parameters: \<open>lockRow\<close> (\<open>None\<close> is \<open>count === 0\<close>),
  \<open>onReference\<close> (which may throw) and \<open>onFail\<close> (whose own error is swallowed, \<open>None\<close>).
\<close>

definition tryTransfer ::
  "bool \<Rightarrow> (money_request \<Rightarrow> http_error + money_reply) \<Rightarrow> money_request \<Rightarrow> (world \<Rightarrow> world option)
     \<Rightarrow> (string \<Rightarrow> world \<Rightarrow> http_error + world) \<Rightarrow> (string \<Rightarrow> world \<Rightarrow> world option) \<Rightarrow> world
     \<Rightarrow> transfer_outcome \<times> world" where
  "tryTransfer transfersEnabled transfer req lockRow onReference onFail w =
     (if \<not> transfersEnabled then (SkippedManual, w)
      else case lockRow w of
             None \<Rightarrow> (TransferRaceLost, w)
           | Some w1 \<Rightarrow>
               (let giveUp = (\<lambda>e. (TransferFailed, case onFail (error_message e) w1 of None \<Rightarrow> w1 | Some w2 \<Rightarrow> w2))
                in case transfer req of
                     Inl e \<Rightarrow> giveUp e
                   | Inr result \<Rightarrow>
                       (case onReference (mr_reference result) w1 of
                          Inl e \<Rightarrow> giveUp e
                        | Inr w2 \<Rightarrow> (Initiated, w2))))"

definition lock_patch :: "time \<Rightarrow> payout \<Rightarrow> payout" where
  "lock_patch now p = p\<lparr>p_status := PO_IN_FLIGHT, p_sentAt := Some now\<rparr>"

definition fail_patch :: "string \<Rightarrow> payout \<Rightarrow> payout" where
  "fail_patch reason p = p\<lparr>p_status := PO_FAILED, p_failureReason := Some reason\<rparr>"

definition store_reference :: "payout_kind \<Rightarrow> uuid \<Rightarrow> string \<Rightarrow> world \<Rightarrow> http_error + world" where
  "store_reference k payoutId ref w =
     (if ref_taken k payoutId ref w then Inl (PrismaError ''P2002'')
      else case payout_update k payoutId (\<lambda>p. p\<lparr>p_campayRef := Some ref\<rparr>) w of
             None \<Rightarrow> Inl (PrismaError ''P2025'')
           | Some w' \<Rightarrow> Inr w')"

definition transfer_request :: "payout_kind \<Rightarrow> uuid \<Rightarrow> string \<Rightarrow> xaf \<Rightarrow> money_request" where
  "transfer_request k payoutId momoPhone netXAF =
     \<lparr>mq_amountXAF = netXAF, mq_phone = momoPhone,
      mq_description = (case k of VendorPayouts \<Rightarrow> ''ChopNow vendor payout '' | RiderPayouts \<Rightarrow> ''ChopNow rider payout '')
                         @ take 8 payoutId,
      mq_externalReference = (case k of VendorPayouts \<Rightarrow> ''vendor_payout:'' | RiderPayouts \<Rightarrow> ''rider_payout:'') @ payoutId,
      mq_webhookUrl = None\<rparr>"

definition tryTransferRow ::
  "payout_kind \<Rightarrow> bool \<Rightarrow> (money_request \<Rightarrow> http_error + money_reply) \<Rightarrow> uuid \<Rightarrow> string \<Rightarrow> xaf \<Rightarrow> time \<Rightarrow> world
     \<Rightarrow> transfer_outcome \<times> world" where
  "tryTransferRow k transfersEnabled transfer payoutId momoPhone netXAF now w =
     tryTransfer transfersEnabled transfer (transfer_request k payoutId momoPhone netXAF)
       (payout_updateMany k payoutId [PO_PENDING] (lock_patch now))
       (store_reference k payoutId)
       (\<lambda>reason. payout_update k payoutId (fail_patch reason)) w"

definition tryTransferVendor ::
  "bool \<Rightarrow> (money_request \<Rightarrow> http_error + money_reply) \<Rightarrow> uuid \<Rightarrow> string \<Rightarrow> xaf \<Rightarrow> time \<Rightarrow> world
     \<Rightarrow> transfer_outcome \<times> world" where
  "tryTransferVendor = tryTransferRow VendorPayouts"

definition tryTransferRider ::
  "bool \<Rightarrow> (money_request \<Rightarrow> http_error + money_reply) \<Rightarrow> uuid \<Rightarrow> string \<Rightarrow> xaf \<Rightarrow> time \<Rightarrow> world
     \<Rightarrow> transfer_outcome \<times> world" where
  "tryTransferRider = tryTransferRow RiderPayouts"

text \<open>
  One loop of the sweep; \<open>remaining\<close> is \<open>remainingBalanceXAF\<close> (\<open>None\<close> in manual mode).  The
  first result is the log of the rows that were tried, with their outcomes: a row skipped for want of
  balance is not in it.
\<close>

type_synonym transfer_log = "(payout_kind \<times> payout \<times> transfer_outcome) list"

fun transfer_loop ::
  "payout_kind \<Rightarrow> bool \<Rightarrow> (money_request \<Rightarrow> http_error + money_reply) \<Rightarrow> time \<Rightarrow> payout list
     \<Rightarrow> xaf option \<Rightarrow> world \<Rightarrow> transfer_log \<times> xaf option \<times> world" where
  "transfer_loop k enabled transfer now [] remaining w = ([], remaining, w)"
| "transfer_loop k enabled transfer now (p # ps) remaining w =
     (if enabled \<and> (case remaining of None \<Rightarrow> False | Some b \<Rightarrow> p_netXAF p > b)
      then transfer_loop k enabled transfer now ps remaining w
      else
        (let (result, w1) = tryTransferRow k enabled transfer (p_id p) (p_momoPhone p) (p_netXAF p) now w;
             left = (if result = Initiated then map_option (\<lambda>b. b - p_netXAF p) remaining else remaining);
             (tried, r, w2) = transfer_loop k enabled transfer now ps left w1
         in ((k, p, result) # tried, r, w2)))"

definition due_payouts :: "payout_kind \<Rightarrow> time \<Rightarrow> world \<Rightarrow> payout list" where
  "due_payouts k startedAt w =
     take MAX_PAYOUTS_PER_RUN (sort_key p_scheduledFor
       (filter (\<lambda>p. p_status p = PO_PENDING \<and> p_scheduledFor p \<le> startedAt) (payouts k w)))"

text \<open>\<open>balance\<close> is the answer of \<open>campay.getBalance()\<close>, asked only when transfers are enabled.\<close>

definition sweepPendingTransfers ::
  "bool \<Rightarrow> http_error + xaf \<Rightarrow> (money_request \<Rightarrow> http_error + money_reply) \<Rightarrow> time \<Rightarrow> time \<Rightarrow> world
     \<Rightarrow> transfer_log \<times> world" where
  "sweepPendingTransfers enabled balance transfer startedAt now w =
     (let run = (\<lambda>remaining.
            let (logV, r1, w1) = transfer_loop VendorPayouts enabled transfer now (due_payouts VendorPayouts startedAt w) remaining w;
                (logR, r2, w2) = transfer_loop RiderPayouts enabled transfer now (due_payouts RiderPayouts startedAt w1) r1 w1
            in (logV @ logR, w2))
      in if enabled
         then (case balance of Inl _ \<Rightarrow> ([], w) | Inr b \<Rightarrow> run (Some b))
         else run None)"

section \<open>The transfer webhook\<close>

record TransferWebhookPayload =
  tp_status :: "string option"
  tp_reference :: "string option"
  tp_external_reference :: "string option"
  tp_failure_reason :: "string option"

definition transfer_reference :: "TransferWebhookPayload \<Rightarrow> string option" where
  "transfer_reference payload =
     (case tp_reference payload of Some r \<Rightarrow> Some r | None \<Rightarrow> tp_external_reference payload)"

definition terminal_status :: "TransferWebhookPayload \<Rightarrow> bool option" where
  "terminal_status payload =
     (let status = toUpperCase (case tp_status payload of Some s \<Rightarrow> s | None \<Rightarrow> [])
      in if status = ''SUCCESSFUL'' \<or> status = ''SUCCESS'' \<or> status = ''PAID'' then Some True
         else if status = ''FAILED'' \<or> status = ''CANCELLED'' then Some False
         else None)"

definition reported_reason :: "TransferWebhookPayload \<Rightarrow> string" where
  "reported_reason payload =
     (case tp_failure_reason payload of Some r \<Rightarrow> r | None \<Rightarrow> ''campay_reported_failure'')"

fun payout_status_lower :: "PayoutStatus \<Rightarrow> string" where
  "payout_status_lower PO_PENDING = ''pending''"
| "payout_status_lower PO_IN_FLIGHT = ''in_flight''"
| "payout_status_lower PO_PAID = ''paid''"
| "payout_status_lower PO_FAILED = ''failed''"
| "payout_status_lower PO_CANCELLED = ''cancelled''"

definition settle_patch :: "bool \<Rightarrow> string \<Rightarrow> time \<Rightarrow> payout \<Rightarrow> payout" where
  "settle_patch succeeded reason now p =
     (if succeeded then p\<lparr>p_status := PO_PAID, p_paidAt := Some now\<rparr>
      else p\<lparr>p_status := PO_FAILED, p_failureReason := Some reason\<rparr>)"

definition payout_by_ref :: "payout_kind \<Rightarrow> string \<Rightarrow> world \<Rightarrow> payout option" where
  "payout_by_ref k ref w = find_row (\<lambda>p. p_campayRef p = Some ref) (payouts k w)"

definition kind_word :: "payout_kind \<Rightarrow> string" where
  "kind_word k = (case k of VendorPayouts \<Rightarrow> ''vendor'' | RiderPayouts \<Rightarrow> ''rider'')"

text \<open>The branch for a payout that was found: the result that is noted and the world.\<close>

definition settle_payout ::
  "payout_kind \<Rightarrow> payout \<Rightarrow> bool \<Rightarrow> string \<Rightarrow> time \<Rightarrow> world \<Rightarrow> string \<times> world" where
  "settle_payout k p succeeded reason now w =
     (if p_status p \<noteq> PO_IN_FLIGHT
      then (kind_word k @ ''_status_mismatch_'' @ payout_status_lower (p_status p), w)
      else (kind_word k @ (if succeeded then ''_paid'' else ''_failed''),
            case payout_updateMany k (p_id p) [PO_IN_FLIGHT] (settle_patch succeeded reason now) w of
              None \<Rightarrow> w | Some w' \<Rightarrow> w'))"

definition handleTransferWebhook :: "TransferWebhookPayload \<Rightarrow> time \<Rightarrow> world \<Rightarrow> (unit, world) outcome" where
  "handleTransferWebhook payload now w =
     (if falsy (transfer_reference payload) then (Inr (), w)
      else case terminal_status payload of
             None \<Rightarrow> (Inr (), w)
           | Some succeeded \<Rightarrow>
               (let reference = the (transfer_reference payload);
                    (dedup, w1) = markProcessed TRANSFER reference w
                in if \<not> isFirst dedup then (Inr (), w1)
                   else
                     (let (result, w2) =
                        (case payout_by_ref VendorPayouts reference w1 of
                           Some p \<Rightarrow> settle_payout VendorPayouts p succeeded (reported_reason payload) now w1
                         | None \<Rightarrow>
                             (case payout_by_ref RiderPayouts reference w1 of
                                Some p \<Rightarrow> settle_payout RiderPayouts p succeeded (reported_reason payload) now w1
                              | None \<Rightarrow> (''no_match'', w1)))
                      in (Inr (), recordResult TRANSFER reference result w2))))"

section \<open>Admin remediation\<close>

definition retry_patch :: "payout \<Rightarrow> payout" where
  "retry_patch p = p\<lparr>p_status := PO_PENDING, p_failureReason := None, p_sentAt := None, p_campayRef := None\<rparr>"

definition retryPayout :: "payout_kind \<Rightarrow> uuid \<Rightarrow> world \<Rightarrow> (PayoutStatus, world) outcome" where
  "retryPayout k payoutId w =
     (case payout_updateMany k payoutId [PO_FAILED] retry_patch w of
        None \<Rightarrow> (Inl (Conflict ''payout_not_in_failed''), w)
      | Some w' \<Rightarrow> (Inr PO_PENDING, w'))"

definition retryVendorPayout :: "uuid \<Rightarrow> world \<Rightarrow> (PayoutStatus, world) outcome" where
  "retryVendorPayout = retryPayout VendorPayouts"

definition retryRiderPayout :: "uuid \<Rightarrow> world \<Rightarrow> (PayoutStatus, world) outcome" where
  "retryRiderPayout = retryPayout RiderPayouts"

definition manual_patch :: "string \<Rightarrow> string option \<Rightarrow> time \<Rightarrow> payout \<Rightarrow> payout" where
  "manual_patch campayRef remark now p =
     p\<lparr>p_status := PO_PAID, p_paidAt := Some now, p_campayRef := Some campayRef,
       p_failureReason := (if falsy remark then None else Some (''MANUAL_PAID: '' @ the remark))\<rparr>"

definition manualMarkPayoutPaid ::
  "payout_kind \<Rightarrow> uuid \<Rightarrow> string \<Rightarrow> string option \<Rightarrow> time \<Rightarrow> world \<Rightarrow> (PayoutStatus, world) outcome" where
  "manualMarkPayoutPaid k payoutId campayRef remark now w =
     (case payout_updateMany k payoutId [PO_PENDING, PO_IN_FLIGHT, PO_FAILED] (manual_patch campayRef remark now) w of
        None \<Rightarrow> (Inl (Conflict ''payout_already_terminal''), w)
      | Some w' \<Rightarrow>
          if ref_taken k payoutId campayRef w then (Inl (PrismaError ''P2002''), w) else (Inr PO_PAID, w'))"

definition manualMarkVendorPayoutPaid ::
  "uuid \<Rightarrow> string \<Rightarrow> string option \<Rightarrow> time \<Rightarrow> world \<Rightarrow> (PayoutStatus, world) outcome" where
  "manualMarkVendorPayoutPaid = manualMarkPayoutPaid VendorPayouts"

definition manualMarkRiderPayoutPaid ::
  "uuid \<Rightarrow> string \<Rightarrow> string option \<Rightarrow> time \<Rightarrow> world \<Rightarrow> (PayoutStatus, world) outcome" where
  "manualMarkRiderPayoutPaid = manualMarkPayoutPaid RiderPayouts"

section \<open>Escalations\<close>

definition STALE_IN_FLIGHT_MINUTES :: int where "STALE_IN_FLIGHT_MINUTES = 30"

datatype escalation_kind = vendor_payout | rider_payout | refund

record EscalationItem =
  ei_kind :: escalation_kind
  ei_id :: uuid
  ei_contextId :: uuid
  ei_status :: string
  ei_netXAF :: xaf
  ei_momoPhone :: "string option"
  ei_failureReason :: "string option"
  ei_scheduledFor :: "time option"
  ei_sentAt :: "time option"
  ei_ageMinutes :: int

fun payout_status_name :: "PayoutStatus \<Rightarrow> string" where
  "payout_status_name PO_PENDING = ''PENDING''"
| "payout_status_name PO_IN_FLIGHT = ''IN_FLIGHT''"
| "payout_status_name PO_PAID = ''PAID''"
| "payout_status_name PO_FAILED = ''FAILED''"
| "payout_status_name PO_CANCELLED = ''CANCELLED''"

definition needs_attention :: "time \<Rightarrow> payout \<Rightarrow> bool" where
  "needs_attention staleThreshold p \<longleftrightarrow>
     p_status p = PO_FAILED
     \<or> p_status p = PO_IN_FLIGHT \<and> (case p_sentAt p of None \<Rightarrow> False | Some t \<Rightarrow> t < staleThreshold)"

definition stale_refund :: "time \<Rightarrow> order \<Rightarrow> bool" where
  "stale_refund staleThreshold r \<longleftrightarrow>
     o_paymentStatus r = PS_REFUND_PENDING \<and> o_refundCampayRef r \<noteq> None
     \<and> (case o_refundInitiatedAt r of None \<Rightarrow> False | Some t \<Rightarrow> t < staleThreshold) \<and> o_refundedAt r = None"

definition payout_item :: "escalation_kind \<Rightarrow> time \<Rightarrow> payout \<Rightarrow> EscalationItem" where
  "payout_item k now p =
     \<lparr>ei_kind = k, ei_id = p_id p, ei_contextId = p_ownerId p, ei_status = payout_status_name (p_status p),
      ei_netXAF = p_netXAF p, ei_momoPhone = Some (p_momoPhone p), ei_failureReason = p_failureReason p,
      ei_scheduledFor = Some (p_scheduledFor p), ei_sentAt = p_sentAt p,
      ei_ageMinutes = (now - (case p_sentAt p of Some t \<Rightarrow> t | None \<Rightarrow> p_scheduledFor p)) div 60000\<rparr>"

definition refund_item :: "time \<Rightarrow> order \<Rightarrow> EscalationItem" where
  "refund_item now r =
     \<lparr>ei_kind = refund, ei_id = o_id r, ei_contextId = o_id r, ei_status = ''STALE_REFUND'',
      ei_netXAF = o_totalXAF r, ei_momoPhone = o_payerPhone r, ei_failureReason = o_refundFailureReason r,
      ei_scheduledFor = o_refundInitiatedAt r, ei_sentAt = o_refundInitiatedAt r,
      ei_ageMinutes = (case o_refundInitiatedAt r of None \<Rightarrow> 0 | Some t \<Rightarrow> (now - t) div 60000)\<rparr>"

definition listEscalations :: "time \<Rightarrow> world \<Rightarrow> EscalationItem list" where
  "listEscalations now w =
     (let staleThreshold = now - STALE_IN_FLIGHT_MINUTES * 60000;
          of_table = (\<lambda>k ps. map (payout_item k now)
             (sort_key p_scheduledFor (filter (needs_attention staleThreshold) ps)));
          refunds = map (refund_item now)
             (sort_key (\<lambda>r. case o_refundInitiatedAt r of None \<Rightarrow> 0 | Some t \<Rightarrow> t)
               (filter (stale_refund staleThreshold) (w_orders w)))
      in sort_key (\<lambda>i. - ei_ageMinutes i)
           (of_table vendor_payout (w_vendorPayouts w) @ of_table rider_payout (w_riderPayouts w) @ refunds))"

end
