(* ===== verification/Payout_Machine.thy ===== *)
theory Payout_Machine
  imports Payout_Transfers
begin

text \<open>
  The life of one payout row, seen from outside: an abstract machine on its status
  (\<open>payout_next\<close>), the refinement lemma that every operation of the payout pipeline performs
  its step of that machine on the row it names and on no other, and \<open>payout_run\<close>, the runs of
  the pipeline in which the Campay call of one row may be answered after any other operation.
\<close>

section \<open>The abstract machine\<close>

datatype payout_event = Lock | Settle bool | Retry | MarkPaid

fun payout_next :: "payout_event \<Rightarrow> PayoutStatus \<Rightarrow> PayoutStatus option" where
  "payout_next Lock s = (if s = PO_PENDING then Some PO_IN_FLIGHT else None)"
| "payout_next (Settle ok) s = (if s = PO_IN_FLIGHT then Some (if ok then PO_PAID else PO_FAILED) else None)"
| "payout_next Retry s = (if s = PO_FAILED then Some PO_PENDING else None)"
| "payout_next MarkPaid s = (if s \<in> {PO_PENDING, PO_IN_FLIGHT, PO_FAILED} then Some PO_PAID else None)"

fun_cases payout_next_SomeE: "payout_next e s = Some t"

type_synonym statuses = "uuid \<Rightarrow> PayoutStatus option"

definition statuses :: "payout_kind \<Rightarrow> world \<Rightarrow> statuses" where
  "statuses k w = (\<lambda>i. map_option p_status (payout_by_id k i w))"

definition machine_step :: "payout_event \<Rightarrow> uuid \<Rightarrow> statuses \<Rightarrow> statuses option" where
  "machine_step e i m =
     (case Option.bind (m i) (payout_next e) of None \<Rightarrow> None | Some s \<Rightarrow> Some (m(i \<mapsto> s)))"

text \<open>An event that is refused leaves the statuses as they are.\<close>

definition machine_try :: "payout_event \<Rightarrow> uuid \<Rightarrow> statuses \<Rightarrow> statuses" where
  "machine_try e i m = (case machine_step e i m of None \<Rightarrow> m | Some m' \<Rightarrow> m')"

lemma paid_is_final: "payout_next e PO_PAID = None"
  by (cases e) simp_all

section \<open>Every operation is a step of the machine\<close>

text \<open>A guarded write implements an event when it fires in the right states and writes the target.\<close>

locale payout_move =
  fixes sources :: "PayoutStatus list" and patch :: "payout \<Rightarrow> payout" and event :: payout_event
  assumes patch_id: "p_id (patch p) = p_id p"
    and patch_status: "s \<in> set sources \<Longrightarrow> payout_next event s = Some (p_status (patch p))"
    and refuses: "s \<notin> set sources \<Longrightarrow> payout_next event s = None"
begin

lemma refines:
  assumes "payouts_distinct k w"
  shows "map_option (statuses k) (payout_updateMany k i sources patch w) = machine_step event i (statuses k w)"
proof (cases "payout_updateMany k i sources patch w")
  case None
  then show ?thesis
    unfolding payout_updateMany_eq [OF assms] machine_step_def statuses_def
    using refuses by (auto split: option.splits if_splits)
next
  case (Some w')
  from payout_updateMany_Some [OF Some patch_id assms] obtain p where
    p: "payout_by_id k i w = Some p" "p_status p \<in> set sources" "payout_by_id k i w' = Some (patch p)"
      "\<And>j. j \<noteq> i \<Longrightarrow> payout_by_id k j w' = payout_by_id k j w" by metis
  have "statuses k w' = (statuses k w)(i \<mapsto> p_status (patch p))"
    using p by (auto simp: statuses_def)
  moreover have "payout_next event (p_status p) = Some (p_status (patch p))"
    using p(2) by (rule patch_status)
  ultimately show ?thesis using Some p by (simp add: machine_step_def statuses_def)
qed

lemma keeps_distinct:
  "payouts_distinct k w \<Longrightarrow> payout_updateMany k i sources patch w = Some w' \<Longrightarrow> payouts_distinct j w' = payouts_distinct j w"
  by (auto simp: payout_updateMany_eq patch_id split: option.splits if_splits)

end

interpretation lock_move: payout_move "[PO_PENDING]" "lock_patch now" Lock for now
  by unfold_locales (auto simp: lock_patch_def)

interpretation settle_move: payout_move "[PO_IN_FLIGHT]" "settle_patch ok reason now" "Settle ok" for ok reason now
  by unfold_locales (auto simp: settle_patch_def)

interpretation retry_move: payout_move "[PO_FAILED]" retry_patch Retry
  by unfold_locales (auto simp: retry_patch_def)

interpretation mark_move: payout_move "[PO_PENDING, PO_IN_FLIGHT, PO_FAILED]" "manual_patch ref remark now" MarkPaid
  for ref remark now
  by unfold_locales (auto simp: manual_patch_def)

text \<open>
  What the worker does once Campay has answered: \<open>store_reference\<close>, or \<open>onFail\<close>.
\<close>

definition transfer_answer :: "payout_kind \<Rightarrow> uuid \<Rightarrow> http_error + money_reply \<Rightarrow> world \<Rightarrow> transfer_outcome \<times> world" where
  "transfer_answer k i res w =
     (let giveUp = (\<lambda>e. (TransferFailed, case payout_update k i (fail_patch (error_message e)) w of None \<Rightarrow> w | Some w2 \<Rightarrow> w2))
      in case res of
           Inl e \<Rightarrow> giveUp e
         | Inr result \<Rightarrow>
             (case store_reference k i (mr_reference result) w of
                Inl e \<Rightarrow> giveUp e
              | Inr w2 \<Rightarrow> (Initiated, w2)))"

lemma tryTransferRow_split:
  "tryTransferRow k enabled transfer i phone net now w =
     (if \<not> enabled then (SkippedManual, w)
      else case payout_updateMany k i [PO_PENDING] (lock_patch now) w of
             None \<Rightarrow> (TransferRaceLost, w)
           | Some w1 \<Rightarrow> transfer_answer k i (transfer (transfer_request k i phone net)) w1)"
  by (simp add: tryTransferRow_def tryTransfer_def transfer_answer_def Let_def cong: option.case_cong sum.case_cong)

lemma payout_update_Some:
  assumes "payout_update k i f w = Some w'" and "\<And>p. p_id (f p) = p_id p"
  obtains p where "payout_by_id k i w = Some p" and "payout_by_id k i w' = Some (f p)"
    and "\<And>j. j \<noteq> i \<Longrightarrow> payout_by_id k j w' = payout_by_id k j w"
    and "w' = modify_payouts k (upd_where (\<lambda>p. p_id p = i) f) w"
proof -
  from assms(1) obtain p where p: "payout_by_id k i w = Some p"
      "w' = modify_payouts k (upd_where (\<lambda>p. p_id p = i) f) w"
    by (auto simp: payout_update_def split: option.splits)
  have "payout_by_id k i w' = Some (f p)"
    using p payout_by_id_id [OF p(1)] by (simp add: payout_by_id_upd [of f, OF assms(2)])
  moreover have "payout_by_id k j w' = payout_by_id k j w" if "j \<noteq> i" for j
    using that by (cases "payout_by_id k j w")
      (auto simp: p(2) payout_by_id_upd [of f, OF assms(2)] dest: payout_by_id_id)
  ultimately show thesis using p that by blast
qed

lemma transfer_answer_cases:
  assumes "transfer_answer k i res w = (out, w')"
  obtains (stored) m where "res = Inr m" and "out = Initiated" and "\<not> ref_taken k i (mr_reference m) w"
      and "payout_update k i (\<lambda>p. p\<lparr>p_campayRef := Some (mr_reference m)\<rparr>) w = Some w'"
  | (failed) reason where "out = TransferFailed" and "payout_update k i (fail_patch reason) w = Some w'"
  | (gone) "out = TransferFailed" and "w' = w" and "payout_by_id k i w = None"
proof -
  have giveUp: thesis
    if "(TransferFailed, case payout_update k i (fail_patch r) w of None \<Rightarrow> w | Some w2 \<Rightarrow> w2) = (out, w')" for r
    using that failed [of r] gone by (cases "payout_by_id k i w") (auto simp: payout_update_def)
  show thesis
  proof (cases res)
    case (Inl e)
    then show thesis using assms giveUp [of "error_message e"] by (simp add: transfer_answer_def)
  next
    case (Inr m)
    show thesis
    proof (cases "store_reference k i (mr_reference m) w")
      case (Inl e)
      then show thesis using assms Inr giveUp [of "error_message e"] by (simp add: transfer_answer_def)
    next
      case (Inr w2)
      with \<open>res = Inr m\<close> assms have "out = Initiated" "w2 = w'" by (simp_all add: transfer_answer_def)
      then show thesis
        using stored [OF \<open>res = Inr m\<close>] Inr by (simp add: store_reference_def split: if_splits option.splits)
    qed
  qed
qed

lemma transfer_answer_statuses:
  assumes "transfer_answer k i res w = (out, w')"
  shows "statuses k w' = (if out = Initiated \<or> statuses k w i = None then statuses k w else (statuses k w)(i \<mapsto> PO_FAILED))"
  using assms
proof (cases rule: transfer_answer_cases)
  case (stored m)
  obtain p where "payout_by_id k i w = Some p"
      "payout_by_id k i w' = Some (p\<lparr>p_campayRef := Some (mr_reference m)\<rparr>)"
      "\<And>j. j \<noteq> i \<Longrightarrow> payout_by_id k j w' = payout_by_id k j w"
    by (rule payout_update_Some [OF stored(4)]) auto
  then have "map_option p_status (payout_by_id k j w') = map_option p_status (payout_by_id k j w)" for j
    by (cases "j = i") simp_all
  then show ?thesis using stored(2) by (simp add: statuses_def)
next
  case (failed reason)
  obtain p where "payout_by_id k i w = Some p" "payout_by_id k i w' = Some (fail_patch reason p)"
      "\<And>j. j \<noteq> i \<Longrightarrow> payout_by_id k j w' = payout_by_id k j w"
    by (rule payout_update_Some [OF failed(2)]) (auto simp: fail_patch_def)
  then show ?thesis using failed(1) by (auto simp: statuses_def fail_patch_def)
qed (simp_all add: statuses_def)

lemma transfer_answer_distinct:
  assumes "transfer_answer k i res w = (out, w')"
  shows "payouts_distinct j w' = payouts_distinct j w"
  using assms
proof (cases rule: transfer_answer_cases)
  case (stored m)
  then show ?thesis by (auto simp: payout_update_def split: option.splits)
next
  case (failed reason)
  then show ?thesis by (auto simp: payout_update_def fail_patch_def split: option.splits)
qed simp

lemma machine_step_Some:
  "machine_step e i m = Some m' \<longleftrightarrow> (\<exists>s t. m i = Some s \<and> payout_next e s = Some t \<and> m' = m(i \<mapsto> t))"
  by (cases "m i") (auto simp: machine_step_def split: option.splits)

lemma settle_payout_refines:
  assumes "payouts_distinct k w" and "payout_by_id k i w = Some p"
  shows "statuses k (snd (settle_payout k p ok reason now w)) = machine_try (Settle ok) i (statuses k w)"
proof -
  have i: "p_id p = i" using payout_by_id_id [OF assms(2)] by simp
  show ?thesis
  proof (cases "p_status p = PO_IN_FLIGHT")
    case False
    then show ?thesis using assms(2) by (simp add: settle_payout_def machine_try_def machine_step_def statuses_def)
  next
    case True
    then show ?thesis
      using settle_move.refines [OF assms(1), of i ok reason now] i
      by (cases "payout_updateMany k i [PO_IN_FLIGHT] (settle_patch ok reason now) w")
        (auto simp: settle_payout_def machine_try_def True split: option.splits)
  qed
qed

lemma lock_statuses:
  assumes "payouts_distinct k w" and "payout_updateMany k i [PO_PENDING] (lock_patch now) w = Some w1"
  shows "machine_step Lock i (statuses k w) = Some (statuses k w1)" and "statuses k w1 i = Some PO_IN_FLIGHT"
    and "payouts_distinct j w1 = payouts_distinct j w"
proof -
  show a: "machine_step Lock i (statuses k w) = Some (statuses k w1)"
    using lock_move.refines [OF assms(1), of i now] assms(2) by simp
  show "statuses k w1 i = Some PO_IN_FLIGHT" using a by (auto simp: machine_step_Some split: if_splits)
  show "payouts_distinct j w1 = payouts_distinct j w" by (rule lock_move.keeps_distinct [OF assms])
qed

text \<open>
  C10.  The pipeline refines the abstract machine: a retry, a manual mark, the branch of the
  transfer webhook that settles a row and the whole of a transfer attempt change the statuses of
  the table exactly as their events do (a transfer attempt is a lock, followed by a failed
  settlement unless Campay accepted and the reference was stored), and no other row.
\<close>

theorem payout_pipeline_refines:
  assumes "payouts_distinct k w"
  shows "map_option (statuses k) (won (retryPayout k i w)) = machine_step Retry i (statuses k w)
    \<and> (\<not> ref_taken k i ref w \<longrightarrow>
        map_option (statuses k) (won (manualMarkPayoutPaid k i ref remark now w)) = machine_step MarkPaid i (statuses k w))
    \<and> (payout_by_id k i w = Some p \<longrightarrow>
        statuses k (snd (settle_payout k p ok reason now w)) = machine_try (Settle ok) i (statuses k w))
    \<and> statuses k (snd (tryTransferRow k True transfer i phone net now w)) =
        (case machine_step Lock i (statuses k w) of
           None \<Rightarrow> statuses k w
         | Some m \<Rightarrow> if fst (tryTransferRow k True transfer i phone net now w) = Initiated then m
                     else machine_try (Settle False) i m)"
proof (intro conjI impI)
  show "map_option (statuses k) (won (retryPayout k i w)) = machine_step Retry i (statuses k w)"
    using retry_move.refines [OF assms, of i] by (auto simp: retryPayout_def split: option.splits)
  show "map_option (statuses k) (won (manualMarkPayoutPaid k i ref remark now w)) = machine_step MarkPaid i (statuses k w)"
    if "\<not> ref_taken k i ref w"
    using mark_move.refines [OF assms, of i ref remark now] that
    by (auto simp: manualMarkPayoutPaid_def split: option.splits)
  show "statuses k (snd (settle_payout k p ok reason now w)) = machine_try (Settle ok) i (statuses k w)"
    if "payout_by_id k i w = Some p"
    using that by (rule settle_payout_refines [OF assms])
  show "statuses k (snd (tryTransferRow k True transfer i phone net now w)) =
        (case machine_step Lock i (statuses k w) of
           None \<Rightarrow> statuses k w
         | Some m \<Rightarrow> if fst (tryTransferRow k True transfer i phone net now w) = Initiated then m
                     else machine_try (Settle False) i m)"
  proof (cases "payout_updateMany k i [PO_PENDING] (lock_patch now) w")
    case None
    then have "machine_step Lock i (statuses k w) = None" using lock_move.refines [OF assms, of i now] by simp
    then show ?thesis using None by (simp add: tryTransferRow_split)
  next
    case (Some w1)
    obtain out w2 where a: "transfer_answer k i (transfer (transfer_request k i phone net)) w1 = (out, w2)"
      by fastforce
    have "machine_try (Settle False) i (statuses k w1) = (statuses k w1)(i \<mapsto> PO_FAILED)"
      using lock_statuses(2) [OF assms Some] by (simp add: machine_try_def machine_step_def)
    then show ?thesis
      using transfer_answer_statuses [OF a] lock_statuses(1,2) [OF assms Some] a Some
      by (simp add: tryTransferRow_split)
  qed
qed

section \<open>Runs of the pipeline\<close>

lemma markProcessed_payouts [simp]: "payouts k (snd (markProcessed ty ref w)) = payouts k w"
  by (simp add: markProcessed_def split: option.splits)

lemma recordResult_payouts [simp]: "payouts k (recordResult ty ref res w) = payouts k w"
  by (auto simp: recordResult_def)

lemma payout_by_ref_id:
  assumes "payouts_distinct k w" and "payout_by_ref k ref w = Some p"
  shows "payout_by_id k (p_id p) w = Some p"
  using assms find_row_key_unique [of p_id "payouts k w" p]
  by (auto simp: payout_by_ref_def payouts_distinct_def payout_by_id_def dest: find_row_Some)

lemma settle_payout_distinct:
  "payouts_distinct k w \<Longrightarrow> payouts_distinct j (snd (settle_payout k p ok reason now w)) = payouts_distinct j w"
  by (auto simp: settle_payout_def dest: settle_move.keeps_distinct split: option.splits)

lemma settle_payout_other:
  "j \<noteq> k \<Longrightarrow> payouts j (snd (settle_payout k p ok reason now w)) = payouts j w"
  by (auto simp: settle_payout_def payout_updateMany_def split: option.splits)

text \<open>The transfer webhook settles at most one row, of the table in which the reference is found first.\<close>

lemma transfer_webhook_cases:
  obtains (nothing) "\<And>k. payouts k (snd (handleTransferWebhook payload now w)) = payouts k w"
  | (settled) k p ok reason w1 where "\<And>j. payouts j w1 = payouts j w" and "payout_by_ref k (the (transfer_reference payload)) w = Some p"
      and "\<And>j. payouts j (snd (handleTransferWebhook payload now w)) = payouts j (snd (settle_payout k p ok reason now w1))"
proof -
  let ?ref = "the (transfer_reference payload)"
  obtain d w1 where d: "markProcessed TRANSFER ?ref w = (d, w1)" by fastforce
  have w1: "payouts j w1 = payouts j w" for j using markProcessed_payouts [of j TRANSFER ?ref w] d by simp
  then have by_ref: "payout_by_ref k r w1 = payout_by_ref k r w" for k r by (simp add: payout_by_ref_def)
  show thesis
  proof (cases "falsy (transfer_reference payload) \<or> terminal_status payload = None \<or> \<not> isFirst d
      \<or> (payout_by_ref VendorPayouts ?ref w = None \<and> payout_by_ref RiderPayouts ?ref w = None)")
    case True
    then show thesis
      by - (rule nothing, auto simp: handleTransferWebhook_def d w1 by_ref Let_def split: option.splits)
  next
    case False
    then obtain ok where ok: "terminal_status payload = Some ok" by auto
    show thesis
    proof (cases "payout_by_ref VendorPayouts ?ref w")
      case (Some p)
      then show thesis
        using False ok
        by - (rule settled [of w1 VendorPayouts p ok "reported_reason payload"],
          auto simp: handleTransferWebhook_def d w1 by_ref Let_def split: prod.splits)
    next
      case None
      then obtain p where "payout_by_ref RiderPayouts ?ref w = Some p" using False by auto
      then show thesis
        using False ok None
        by - (rule settled [of w1 RiderPayouts p ok "reported_reason payload"],
          auto simp: handleTransferWebhook_def d w1 by_ref Let_def split: prod.splits)
    qed
  qed
qed

lemma payouts_eqD:
  "payouts k w' = payouts k w \<Longrightarrow> payouts_distinct k w' = payouts_distinct k w \<and> statuses k w' = statuses k w
     \<and> payout_by_id k i w' = payout_by_id k i w"
  by (simp add: payouts_distinct_def statuses_def payout_by_id_def fun_eq_iff)

lemma transfer_webhook_statuses:
  assumes "payouts_distinct k w" and w': "w' = snd (handleTransferWebhook payload now w)"
  shows "payouts_distinct k w' \<and> (statuses k w' = statuses k w \<or> (\<exists>i ok. statuses k w' = machine_try (Settle ok) i (statuses k w)))"
proof (cases rule: transfer_webhook_cases [of payload now w])
  case nothing
  then show ?thesis using payouts_eqD [of k w' w] assms by simp
next
  case (settled k' p ok reason w1)
  let ?v = "snd (settle_payout k' p ok reason now w1)"
  have v: "payouts_distinct k w' = payouts_distinct k ?v" "statuses k w' = statuses k ?v"
    using payouts_eqD [of k w' ?v] settled(3) w' by auto
  have w1: "payouts_distinct k w1" "statuses k w1 = statuses k w" using payouts_eqD [of k w1 w] settled(1) assms by auto
  show ?thesis
  proof (cases "k' = k")
    case True
    have "payout_by_id k (p_id p) w1 = Some p"
      using payout_by_ref_id [OF assms(1)] settled(1,2) True by (simp add: payout_by_id_def)
    then show ?thesis
      using settle_payout_refines [OF w1(1)] settle_payout_distinct [OF w1(1)] w1 v True by metis
  next
    case False
    then have "payouts k ?v = payouts k w" using settle_payout_other [of k k'] settled(1) by simp
    then show ?thesis using v payouts_eqD [of k ?v w] assms by auto
  qed
qed

text \<open>
  The runs of the pipeline on one table.  The lock of a transfer attempt and what the worker does
  with the answer are two steps, so anything may happen while the call to Campay is open; the
  trace records the locks (each is one call to \<open>campay.initiateTransfer\<close>), the retries and the
  manual marks.
\<close>

inductive payout_run :: "payout_kind \<Rightarrow> world \<Rightarrow> (uuid \<times> payout_event) list \<Rightarrow> world \<Rightarrow> bool" for k w0 where
  run_start: "payout_run k w0 [] w0"
| run_schedule: "payout_run k w0 es w \<Longrightarrow> schedule_tx k row input covered now w = Inr w'
    \<Longrightarrow> payout_by_id k (p_id row) w = None \<Longrightarrow> p_status row = PO_PENDING \<Longrightarrow> payout_run k w0 es w'"
| run_lock: "payout_run k w0 es w \<Longrightarrow> payout_updateMany k i [PO_PENDING] (lock_patch now) w = Some w'
    \<Longrightarrow> payout_run k w0 (es @ [(i, Lock)]) w'"
| run_answer: "payout_run k w0 es w \<Longrightarrow> transfer_answer k i res w = (out, w') \<Longrightarrow> payout_run k w0 es w'"
| run_webhook: "payout_run k w0 es w \<Longrightarrow> w' = snd (handleTransferWebhook payload now w) \<Longrightarrow> payout_run k w0 es w'"
| run_retry: "payout_run k w0 es w \<Longrightarrow> retryPayout k i w = (Inr s, w') \<Longrightarrow> payout_run k w0 (es @ [(i, Retry)]) w'"
| run_mark: "payout_run k w0 es w \<Longrightarrow> manualMarkPayoutPaid k i ref remark now w = (Inr s, w')
    \<Longrightarrow> payout_run k w0 (es @ [(i, MarkPaid)]) w'"

definition calls_bounded :: "(uuid \<times> payout_event) list \<Rightarrow> statuses \<Rightarrow> bool" where
  "calls_bounded es m \<longleftrightarrow>
     (\<forall>i. count_list es (i, Lock) \<le> count_list es (i, Retry) + (if m i = None \<or> m i = Some PO_PENDING then 0 else 1))"

lemma calls_bounded_at:
  "calls_bounded es m \<Longrightarrow>
   count_list es (j, Lock) \<le> count_list es (j, Retry) + (if m j = None \<or> m j = Some PO_PENDING then 0 else 1)"
  by (simp add: calls_bounded_def)

lemma calls_bounded_event:
  assumes "calls_bounded es m" and "machine_step e i m = Some m'" and "e = Lock \<or> e = Retry \<or> e = MarkPaid"
  shows "calls_bounded (es @ [(i, e)]) m'"
  unfolding calls_bounded_def
proof
  fix j
  show "count_list (es @ [(i, e)]) (j, Lock) \<le> count_list (es @ [(i, e)]) (j, Retry)
      + (if m' j = None \<or> m' j = Some PO_PENDING then 0 else 1)"
    using calls_bounded_at [OF assms(1), of j] assms(2,3)
    by (cases "j = i") (auto simp: machine_step_Some split: if_splits)
qed

lemma calls_bounded_settle:
  assumes "calls_bounded es m" and "m' i \<noteq> Some PO_PENDING" and "m' i = None \<longrightarrow> m i = None"
    and "\<And>j. j \<noteq> i \<Longrightarrow> m' j = m j"
  shows "calls_bounded es m'"
  unfolding calls_bounded_def
proof
  fix j
  show "count_list es (j, Lock) \<le> count_list es (j, Retry) + (if m' j = None \<or> m' j = Some PO_PENDING then 0 else 1)"
    using assms(2-4) calls_bounded_at [OF assms(1), of j] by (cases "j = i") (auto split: if_splits)
qed

lemma calls_bounded_try:
  assumes "calls_bounded es m" shows "calls_bounded es (machine_try (Settle ok) i m)"
proof (cases "machine_step (Settle ok) i m")
  case (Some m')
  then have "calls_bounded es m'"
    by (intro calls_bounded_settle [OF assms, of m' i]) (auto simp: machine_step_Some split: if_splits)
  with Some show ?thesis by (simp add: machine_try_def)
qed (simp add: machine_try_def assms)

lemma payout_run_invariant:
  assumes "payout_run k w0 es w" and "payouts_distinct k w0"
  shows "payouts_distinct k w \<and> calls_bounded es (statuses k w)"
  using assms
proof (induction rule: payout_run.induct)
  case run_start
  then show ?case by (simp add: calls_bounded_def)
next
  case (run_schedule es w row input covered now w')
  have ps: "payouts k w' = payouts k w @ [row]" using schedule_tx_Inr [OF run_schedule(2)] by simp
  then have d: "payouts_distinct k w'"
    using run_schedule by (auto simp: payouts_distinct_def payout_by_id_def find_row_None)
  have st: "statuses k w' j = (if j = p_id row then Some PO_PENDING else statuses k w j)" for j
    using ps run_schedule(3,4) by (auto simp: statuses_def payout_by_id_def find_row_append split: option.splits)
  have n: "statuses k w (p_id row) = None" using run_schedule(3) by (simp add: statuses_def)
  have c: "calls_bounded es (statuses k w)" using run_schedule.IH [OF run_schedule.prems] ..
  have "calls_bounded es (statuses k w')"
    unfolding calls_bounded_def
  proof
    fix j
    show "count_list es (j, Lock) \<le> count_list es (j, Retry)
        + (if statuses k w' j = None \<or> statuses k w' j = Some PO_PENDING then 0 else 1)"
      using calls_bounded_at [OF c, of j] n by (cases "j = p_id row") (simp_all add: st)
  qed
  with d show ?case ..
next
  case (run_lock es w i now w')
  then have d: "payouts_distinct k w" and "calls_bounded es (statuses k w)" by auto
  then show ?case using lock_statuses [OF d run_lock(2)] by (auto intro: calls_bounded_event)
next
  case (run_answer es w i res out w')
  then have "calls_bounded es (statuses k w)" by auto
  then have "calls_bounded es (statuses k w')"
    unfolding transfer_answer_statuses [OF run_answer(2)] by (auto intro!: calls_bounded_settle [of es "statuses k w" _ i])
  then show ?case using run_answer transfer_answer_distinct [OF run_answer(2)] by blast
next
  case (run_webhook es w w' payload now)
  then have "payouts_distinct k w" "calls_bounded es (statuses k w)" by auto
  then show ?case
    using transfer_webhook_statuses [OF _ run_webhook(2)] calls_bounded_try by metis
next
  case (run_retry es w i s w')
  then have d: "payouts_distinct k w" and c: "calls_bounded es (statuses k w)" by auto
  from run_retry(2) have u: "payout_updateMany k i [PO_FAILED] retry_patch w = Some w'"
    by (auto simp: retryPayout_def split: option.splits)
  then have "machine_step Retry i (statuses k w) = Some (statuses k w')" using retry_move.refines [OF d, of i] by simp
  then show ?case using calls_bounded_event [OF c] retry_move.keeps_distinct [OF d u] d by blast
next
  case (run_mark es w i ref remark now s w')
  then have d: "payouts_distinct k w" and c: "calls_bounded es (statuses k w)" by auto
  from run_mark(2) have u: "payout_updateMany k i [PO_PENDING, PO_IN_FLIGHT, PO_FAILED] (manual_patch ref remark now) w = Some w'"
    by (auto simp: manualMarkPayoutPaid_def split: option.splits if_splits)
  then have "machine_step MarkPaid i (statuses k w) = Some (statuses k w')"
    using mark_move.refines [OF d, of i ref remark now] by simp
  then show ?case using calls_bounded_event [OF c] mark_move.keeps_distinct [OF d u] d by blast
qed

text \<open>
  C9.  However the crons, the webhooks, the admins and the open calls interleave, Campay is asked
  to pay one payout at most once more than an admin has retried it.
\<close>

theorem campay_asked_once_per_retry:
  assumes "payout_run k w0 es w" and "payouts_distinct k w0"
  shows "count_list es (i, Lock) \<le> count_list es (i, Retry) + 1"
proof -
  have "calls_bounded es (statuses k w)" using payout_run_invariant [OF assms] by simp
  from calls_bounded_at [OF this, of i] show ?thesis by (simp split: if_splits)
qed

end
