(* ===== verification/Payout_Safety.thy ===== *)
theory Payout_Safety
  imports Payout_Machine
begin

text \<open>
  What the payout pipeline promises about money, and where it does not: the budget of a sweep, the
  balance that is read while a payout is under way, the transfer webhook that comes too early, the
  answer that comes too late; with the witnesses on one small database.
\<close>

section \<open>One small database\<close>

definition demo_payout :: "PayoutStatus \<Rightarrow> payout" where
  "demo_payout st =
     \<lparr>p_id = ''P'', p_ownerId = ''V'', p_periodStart = 0, p_periodEnd = 10, p_grossXAF = 2000,
      p_commissionXAF = 0, p_penaltyXAF = 0, p_adjustmentsXAF = 0, p_netXAF = 2000, p_momoPhone = ''670'',
      p_campayRef = None, p_status = st, p_failureReason = None, p_scheduledFor = 10, p_sentAt = None,
      p_paidAt = None\<rparr>"

definition payout_world :: "payout list \<Rightarrow> world" where
  "payout_world ps = (demo_world [] [])\<lparr>w_vendorPayouts := ps\<rparr>"

lemma demo_payout_simps [simp]:
  "p_id (demo_payout st) = ''P''" "p_status (demo_payout st) = st" "p_ownerId (demo_payout st) = ''V''"
  "w_vendorPayouts (payout_world ps) = ps"
  by (simp_all add: demo_payout_def payout_world_def)

lemma demo_payouts_distinct [simp]: "payouts_distinct VendorPayouts (payout_world [demo_payout st])"
  by (simp add: payouts_distinct_def)

lemma demo_payout_by_id [simp]: "payout_by_id VendorPayouts ''P'' (payout_world [demo_payout st]) = Some (demo_payout st)"
  by (simp add: payout_by_id_def)

lemma demo_statuses [simp]: "statuses VendorPayouts (payout_world [demo_payout st]) ''P'' = Some st"
  by (simp add: statuses_def)

theorem payout_pipeline_refines_witness:
  "statuses VendorPayouts (snd (tryTransferRow VendorPayouts True (\<lambda>_. Inl (UpstreamError ''down'')) ''P'' ''670'' 2000 7
      (payout_world [demo_payout PO_PENDING]))) ''P'' = Some PO_FAILED
   \<and> map_option (\<lambda>w. statuses VendorPayouts w ''P'') (won (retryPayout VendorPayouts ''P'' (payout_world [demo_payout PO_FAILED])))
      = Some (Some PO_PENDING)"
proof -
  let ?t = "\<lambda>_. Inl (UpstreamError ''down'')"
  let ?r = "tryTransferRow VendorPayouts True ?t ''P'' ''670'' 2000 7 (payout_world [demo_payout PO_PENDING])"
  have "fst ?r \<noteq> Initiated"
    by (simp add: tryTransferRow_split payout_updateMany_eq transfer_answer_def)
  then have "statuses VendorPayouts (snd ?r) ''P'' = Some PO_FAILED"
    using conjunct2 [OF conjunct2 [OF conjunct2 [OF payout_pipeline_refines [OF demo_payouts_distinct [of PO_PENDING],
          where i = "''P''" and transfer = ?t and phone = "''670''" and net = 2000 and now = 7]]]]
    by (simp add: machine_step_def machine_try_def)
  moreover have "map_option (\<lambda>w. statuses VendorPayouts w ''P'') (won (retryPayout VendorPayouts ''P'' (payout_world [demo_payout PO_FAILED])))
      = map_option (\<lambda>m. m ''P'') (map_option (statuses VendorPayouts) (won (retryPayout VendorPayouts ''P'' (payout_world [demo_payout PO_FAILED]))))"
    by (simp add: option.map_comp comp_def)
  ultimately show ?thesis
    using conjunct1 [OF payout_pipeline_refines [OF demo_payouts_distinct [of PO_FAILED], where i = "''P''"]]
    by (simp add: machine_step_def)
qed

definition accepted_reply :: "string \<Rightarrow> money_reply" where
  "accepted_reply r = \<lparr>mr_reference = r, mr_status = ''PENDING''\<rparr>"

section \<open>What a sweep asked of Campay\<close>

text \<open>
  The requests of a log, and the money that left the float: \<open>moved\<close> says for which requests Campay
  has sent the money.  A row was asked for at Campay when its outcome is \<open>initiated\<close> or \<open>failed\<close>.
\<close>

definition row_request :: "payout_kind \<Rightarrow> payout \<Rightarrow> money_request" where
  "row_request k p = transfer_request k (p_id p) (p_momoPhone p) (p_netXAF p)"

definition left_float :: "(money_request \<Rightarrow> bool) \<Rightarrow> transfer_log \<Rightarrow> xaf" where
  "left_float moved rows =
     sum_list (map (\<lambda>(k, p, out). if out \<in> {Initiated, TransferFailed} \<and> moved (row_request k p) then p_netXAF p else 0) rows)"







section \<open>The budget of a sweep\<close>







definition campay_ok :: "money_request \<Rightarrow> http_error + money_reply" where
  "campay_ok q = Inr (accepted_reply (mq_externalReference q))"


definition two_due :: world where
  "two_due = payout_world [demo_payout PO_PENDING, (demo_payout PO_PENDING)\<lparr>p_id := ''Q''\<rparr>]"

lemma two_due_tables [simp]:
  "w_vendorPayouts two_due = [demo_payout PO_PENDING, (demo_payout PO_PENDING)\<lparr>p_id := ''Q''\<rparr>]"
  "w_riderPayouts two_due = []"
  by (simp_all add: two_due_def payout_world_def demo_world_def)


text \<open>
  What the budget does not see: a transfer that Campay sent although the call threw (a timeout), and
  one whose reference another payout already carries, are written down as failed and not
  deducted, so the next row is paid from money that is gone.
\<close>

theorem sweep_can_overdraw:
  "left_float (\<lambda>_. True) (fst (sweepPendingTransfers True (Inr 2000)
      (\<lambda>q. if mq_externalReference q = ''vendor_payout:P'' then Inl (UpstreamError ''timeout'') else campay_ok q) 20 21 two_due)) = 4000
   \<and> left_float (\<lambda>_. True) (fst (sweepPendingTransfers True (Inr 2000) (\<lambda>q. Inr (accepted_reply ''REF'')) 20 21
        (two_due\<lparr>w_vendorPayouts := w_vendorPayouts two_due @ [(demo_payout PO_PAID)\<lparr>p_id := ''R'', p_campayRef := Some ''REF''\<rparr>]\<rparr>))) = 4000"
  by code_simp

theorem campay_asked_once_per_retry_witness:
  "\<exists>es w. payout_run VendorPayouts (payout_world [demo_payout PO_PENDING]) es w
     \<and> count_list es (''P'', Lock) = 2 \<and> count_list es (''P'', Lock) \<le> count_list es (''P'', Retry) + 1"
proof -
  let ?k = VendorPayouts and ?e = "Inl (UpstreamError ''down'')"
  define w0 where "w0 = payout_world [demo_payout PO_PENDING]"
  define w1 where "w1 = the (payout_updateMany ?k ''P'' [PO_PENDING] (lock_patch 11) w0)"
  define w2 where "w2 = snd (transfer_answer ?k ''P'' ?e w1)"
  define w3 where "w3 = snd (retryPayout ?k ''P'' w2)"
  define w4 where "w4 = the (payout_updateMany ?k ''P'' [PO_PENDING] (lock_patch 12) w3)"
  note d = w0_def w1_def w2_def w3_def w4_def payout_updateMany_def transfer_answer_def retryPayout_def payout_update_def
    payout_by_id_def payout_world_def lock_patch_def fail_patch_def retry_patch_def
  have s: "payout_updateMany ?k ''P'' [PO_PENDING] (lock_patch 11) w0 = Some w1"
      "transfer_answer ?k ''P'' ?e w1 = (TransferFailed, w2)" "retryPayout ?k ''P'' w2 = (Inr PO_PENDING, w3)"
      "payout_updateMany ?k ''P'' [PO_PENDING] (lock_patch 12) w3 = Some w4"
    by (simp_all add: d)
  have "payout_run ?k w0 ((([] @ [(''P'', Lock)]) @ [(''P'', Retry)]) @ [(''P'', Lock)]) w4"
    by (rule run_lock [OF run_retry [OF run_answer [OF run_lock [OF run_start s(1)] s(2)] s(3)] s(4)])
  then have r: "payout_run ?k w0 [(''P'', Lock), (''P'', Retry), (''P'', Lock)] w4" by simp
  have "payouts_distinct ?k w0" by (simp add: w0_def)
  note bound = campay_asked_once_per_retry [OF r this, of "''P''"]
  have "count_list [(''P'', Lock), (''P'', Retry), (''P'', Lock)] (''P'', Lock) = 2" by simp
  with bound r show ?thesis unfolding w0_def by blast
qed

section \<open>The balance while a payout is under way\<close>

lemma latest_snoc:
  "\<forall>x \<in> set xs. key x < key r \<Longrightarrow> latest key (xs @ [r]) = Some r"
  by (induction xs) auto

lemma transfer_initiated:
  assumes "tryTransferRow k True transfer i phone net now w = (Initiated, w')"
  obtains m where "transfer (transfer_request k i phone net) = Inr m"
    and "payouts k w' = upd_where (\<lambda>p. p_id p = i) (\<lambda>p. p\<lparr>p_campayRef := Some (mr_reference m)\<rparr>)
           (upd_where (\<lambda>p. p_id p = i \<and> p_status p \<in> set [PO_PENDING]) (lock_patch now) (payouts k w))"
    and "w_ledger w' = w_ledger w" and "w_vendors w' = w_vendors w" and "w_orders w' = w_orders w"
proof -
  from assms obtain w1 where l: "payout_updateMany k i [PO_PENDING] (lock_patch now) w = Some w1"
    and a: "transfer_answer k i (transfer (transfer_request k i phone net)) w1 = (Initiated, w')"
    by (auto simp: tryTransferRow_split split: option.splits)
  have w1: "w1 = modify_payouts k (upd_where (\<lambda>p. p_id p = i \<and> p_status p \<in> set [PO_PENDING]) (lock_patch now)) w"
    using l by (auto simp: payout_updateMany_def split: if_splits)
  from a show thesis
  proof (cases rule: transfer_answer_cases)
    case (stored m)
    then show thesis using that [OF stored(1)] w1 by (auto simp: payout_update_def split: option.splits)
  qed simp_all
qed

text \<open>
  The cutoff of the balance is the period end of the last payout sent, and the ledger pair of
  a payout is written after its period end: as soon as Campay has accepted the payout, the balance
  reads minus its amount, so the same sum is taken from the vendor's next earnings again.
\<close>

theorem payout_charged_again:
  assumes "tryScheduleVendorPayout i v phone scheduledFor now w = (Inr (Scheduled j amt), w1)"
    and "tryTransferVendor True transfer i phone amt now2 w1 = (Initiated, w2)"
    and "payout_by_id VendorPayouts i w = None" and "scheduledFor < now"
    and "\<forall>p \<in> set (w_vendorPayouts w). p_periodEnd p < scheduledFor"
    and "\<forall>l \<in> set (w_ledger w). l_createdAt l \<le> scheduledFor"
  shows "(\<exists>b. getVendorBalance v now w1 = Inr b \<and> vb_balanceXAF b = 0)
    \<and> (\<exists>b. getVendorBalance v now2 w2 = Inr b \<and> vb_balanceXAF b = - amt)"
proof -
  have ends: "\<forall>p \<in> set (w_vendorPayouts w). p_periodEnd p < now" using assms(4,5) by fastforce
  from vendor_payout_scheduled_facts [OF assms(1) ends] obtain b row where
    b: "getVendorBalance v now w = Inr b" and row: "w_vendorPayouts w1 = w_vendorPayouts w @ [row]"
      "p_id row = i" "p_ownerId row = v" "p_status row = PO_PENDING" "p_periodEnd row = scheduledFor"
    and led: "w_ledger w1 = w_ledger w @ map (ledger_row (vendor_payout_transaction i v amt ''Vendor payout scheduled'') now)
        (t_entries (vendor_payout_transaction i v amt ''Vendor payout scheduled''))"
    and after: "\<exists>b'. getVendorBalance v now w1 = Inr b' \<and> vb_balanceXAF b' = 0"
    by blast
  obtain m :: money_reply where
    m: "payouts VendorPayouts w2 = upd_where (\<lambda>p. p_id p = i) (\<lambda>p. p\<lparr>p_campayRef := Some (mr_reference m)\<rparr>)
           (upd_where (\<lambda>p. p_id p = i \<and> p_status p \<in> set [PO_PENDING]) (lock_patch now2) (payouts VendorPayouts w1))"
      "w_ledger w2 = w_ledger w1" "w_vendors w2 = w_vendors w1"
    by (rule transfer_initiated [OF assms(2) [unfolded tryTransferVendor_def]]) blast
  then have
    w2: "w_vendorPayouts w2 = upd_where (\<lambda>p. p_id p = i) (\<lambda>p. p\<lparr>p_campayRef := Some (mr_reference m)\<rparr>)
           (upd_where (\<lambda>p. p_id p = i \<and> p_status p \<in> set [PO_PENDING]) (lock_patch now2) (w_vendorPayouts w @ [row]))"
      "w_ledger w2 = w_ledger w1" "w_vendors w2 = w_vendors w1"
    by (simp_all add: row(1))
  have "\<forall>p \<in> set (w_vendorPayouts w). p_id p \<noteq> i"
    using assms(3) by (simp add: payout_by_id_def find_row_None)
  then have ps: "w_vendorPayouts w2 = w_vendorPayouts w @ [(lock_patch now2 row)\<lparr>p_campayRef := Some (mr_reference m)\<rparr>]"
    unfolding w2(1) upd_where_def using row by (auto simp: lock_patch_def intro!: map_idI)
  have last: "last_payout v (w_vendorPayouts w2) = Some ((lock_patch now2 row)\<lparr>p_campayRef := Some (mr_reference m)\<rparr>)"
    unfolding ps last_payout_def using assms(5) row by (simp add: lock_patch_def latest_snoc)
  have none: "ledger_sum (\<lambda>l. P l \<and> Q l \<and> l_createdAt l > scheduledFor) (w_ledger w) = 0" for P Q
    using assms(6) unfolding ledger_sum_def by (subst filter_False) auto
  have "payable_sum v (Some scheduledFor) w2 = amt"
    using none assms(4)
    by (simp add: payable_sum_def w2(2) led since_def vendor_payout_transaction_def payout_leg_def ledger_row_def)
  moreover obtain vendor where "vendor_by_id v w1 = Some vendor"
    using after by (auto simp: getVendorBalance_def split: option.splits)
  moreover have "vendor_by_id v w2 = vendor_by_id v w1" using w2(3) by (simp add: vendor_by_id_def)
  ultimately have "\<exists>b. getVendorBalance v now2 w2 = Inr b \<and> vb_balanceXAF b = - amt"
    using row(5) by (simp add: getVendorBalance_def Let_def last lock_patch_def)
  with after show ?thesis by simp
qed

theorem payout_charged_again_witness:
  "\<exists>w1 w2 b. tryScheduleVendorPayout ''P'' ''V'' ''670'' 10 11 owed_world = (Inr (Scheduled ''P'' 2000), w1)
     \<and> tryTransferVendor True (\<lambda>_. Inr (accepted_reply ''REF'')) ''P'' ''670'' 2000 20 w1 = (Initiated, w2)
     \<and> getVendorBalance ''V'' 20 w2 = Inr b \<and> vb_balanceXAF b = - 2000"
proof -
  let ?t = "\<lambda>_. Inr (accepted_reply ''REF'')"
  define r where "r = tryScheduleVendorPayout ''P'' ''V'' ''670'' 10 11 owed_world"
  define r2 where "r2 = tryTransferVendor True ?t ''P'' ''670'' 2000 20 (snd r)"
  have "r = (Inr (Scheduled ''P'' 2000), snd r)" unfolding r_def by code_simp
  then have s: "tryScheduleVendorPayout ''P'' ''V'' ''670'' 10 11 owed_world = (Inr (Scheduled ''P'' 2000), snd r)"
    unfolding r_def .
  have "fst r2 = Initiated" unfolding r2_def r_def by code_simp
  then have t: "tryTransferVendor True ?t ''P'' ''670'' 2000 20 (snd r) = (Initiated, snd r2)"
    unfolding r2_def by (metis prod.collapse)
  have "\<exists>b. getVendorBalance ''V'' 20 (snd r2) = Inr b \<and> vb_balanceXAF b = - 2000"
    using payout_charged_again [OF s t] by (simp add: owed_simps payout_by_id_def)
  with s t show ?thesis by blast
qed

section \<open>Answers and webhooks that come at the wrong time\<close>

lemma machine_step_eq: "m i = Some s \<Longrightarrow> payout_next e s = Some t \<Longrightarrow> machine_step e i m = Some (m(i \<mapsto> t))"
  by (simp add: machine_step_def)

text \<open>
  While the call to Campay is open an admin may mark the payout PAID; when the call then
  fails, the worker writes FAILED over it without a guard, and after a retry Campay is asked to
  pay it again.
\<close>

theorem late_failure_reopens_paid_payout:
  assumes "payouts_distinct k w" and "statuses k w i = Some PO_PENDING"
    and "payout_updateMany k i [PO_PENDING] (lock_patch t1) w = Some w1"
    and "manualMarkPayoutPaid k i ref remark t2 w1 = (Inr PO_PAID, w2)"
    and "transfer_answer k i (Inl e) w2 = (out, w3)"
  shows "statuses k w2 i = Some PO_PAID \<and> out = TransferFailed \<and> statuses k w3 i = Some PO_FAILED
    \<and> (\<exists>w4. retryPayout k i w3 = (Inr PO_PENDING, w4)
        \<and> payout_updateMany k i [PO_PENDING] (lock_patch t3) w4 \<noteq> None)"
proof -
  have d1: "payouts_distinct k w1" and s1: "statuses k w1 i = Some PO_IN_FLIGHT"
    using lock_statuses [OF assms(1,3)] assms(1) by auto
  from assms(4) have u: "payout_updateMany k i [PO_PENDING, PO_IN_FLIGHT, PO_FAILED] (manual_patch ref remark t2) w1 = Some w2"
    by (auto simp: manualMarkPayoutPaid_def split: option.splits if_splits)
  have d2: "payouts_distinct k w2" using mark_move.keeps_distinct [OF d1 u] d1 by blast
  have s2: "statuses k w2 i = Some PO_PAID"
    using mark_move.refines [OF d1, of i ref remark t2] u s1 by (simp add: machine_step_def)
  have out: "out = TransferFailed" using assms(5) by (simp add: transfer_answer_def)
  have d3: "payouts_distinct k w3" using transfer_answer_distinct [OF assms(5)] d2 by blast
  have s3: "statuses k w3 i = Some PO_FAILED" using transfer_answer_statuses [OF assms(5)] out s2 by simp
  have "machine_step Retry i (statuses k w3) = Some ((statuses k w3)(i \<mapsto> PO_PENDING))"
    using s3 by (simp add: machine_step_def)
  then obtain w4 where u4: "payout_updateMany k i [PO_FAILED] retry_patch w3 = Some w4"
      "statuses k w4 = (statuses k w3)(i \<mapsto> PO_PENDING)"
    using retry_move.refines [OF d3, of i] by auto
  have d4: "payouts_distinct k w4" using retry_move.keeps_distinct [OF d3 u4(1)] d3 by blast
  have "machine_step Lock i (statuses k w4) \<noteq> None" using u4(2) by (simp add: machine_step_def)
  then have "payout_updateMany k i [PO_PENDING] (lock_patch t3) w4 \<noteq> None"
    using lock_move.refines [OF d4, of i t3] by auto
  moreover have "retryPayout k i w3 = (Inr PO_PENDING, w4)" using u4(1) by (simp add: retryPayout_def)
  ultimately show ?thesis using s2 out s3 by blast
qed

theorem late_failure_reopens_paid_payout_witness:
  "\<exists>w1 w2 w3. payout_updateMany VendorPayouts ''P'' [PO_PENDING] (lock_patch 11) (payout_world [demo_payout PO_PENDING]) = Some w1
     \<and> manualMarkPayoutPaid VendorPayouts ''P'' ''REF'' None 12 w1 = (Inr PO_PAID, w2)
     \<and> transfer_answer VendorPayouts ''P'' (Inl (UpstreamError ''timeout'')) w2 = (TransferFailed, w3)
     \<and> statuses VendorPayouts w3 ''P'' = Some PO_FAILED"
proof -
  let ?k = VendorPayouts and ?w = "payout_world [demo_payout PO_PENDING]"
  define w1 where "w1 = the (payout_updateMany ?k ''P'' [PO_PENDING] (lock_patch 11) ?w)"
  define w2 where "w2 = snd (manualMarkPayoutPaid ?k ''P'' ''REF'' None 12 w1)"
  define w3 where "w3 = snd (transfer_answer ?k ''P'' (Inl (UpstreamError ''timeout'')) w2)"
  note d = w1_def w2_def w3_def payout_updateMany_def transfer_answer_def manualMarkPayoutPaid_def payout_update_def
    payout_by_id_def payout_world_def lock_patch_def fail_patch_def manual_patch_def ref_taken_def
  have s: "payout_updateMany ?k ''P'' [PO_PENDING] (lock_patch 11) ?w = Some w1"
      "manualMarkPayoutPaid ?k ''P'' ''REF'' None 12 w1 = (Inr PO_PAID, w2)"
      "transfer_answer ?k ''P'' (Inl (UpstreamError ''timeout'')) w2 = (TransferFailed, w3)"
    by (simp_all add: d)
  note late_failure_reopens_paid_payout [OF demo_payouts_distinct demo_statuses s]
  with s show ?thesis by blast
qed

text \<open>
  A transfer webhook that arrives before the worker has stored Campay's reference is consumed
  as \<open>no_match\<close>: no payout changes, and every later delivery for that reference is dropped as a
  duplicate, so the payout stays IN_FLIGHT.
\<close>

theorem early_transfer_webhook_lost:
  assumes "transfer_reference payload = Some ref" and "ref \<noteq> []" and "terminal_status payload = Some ok"
    and "\<not> webhook_seen (TRANSFER, ref) w" and "payout_by_ref VendorPayouts ref w = None" and "payout_by_ref RiderPayouts ref w = None"
    and "w1 = snd (handleTransferWebhook payload now w)"
    and "w_webhooks w2 = w_webhooks w1" and "transfer_reference payload2 = Some ref"
  shows "payouts k w1 = payouts k w \<and> handleTransferWebhook payload2 now2 w2 = (Inr (), w2)"
proof -
  let ?w = "w\<lparr>w_webhooks := w_webhooks w @ [\<lparr>we_eventType = TRANSFER, we_reference = ref, we_result = None\<rparr>]\<rparr>"
  have by_ref: "payout_by_ref k r ?w = payout_by_ref k r w" for k r by (simp add: payout_by_ref_def)
  have w1: "w1 = recordResult TRANSFER ref ''no_match'' ?w"
    using assms(1-6) unfolding assms(7) handleTransferWebhook_def
    by (simp add: Let_def markProcessed_new by_ref)
  have p: "payouts k w1 = payouts k w" by (simp add: w1)
  have "webhook_seen (TRANSFER, ref) ?w"
    using webhooks.mark_seen [of "(TRANSFER, ref)" "(TRANSFER, ref)" w] assms(4) by (simp add: markProcessed_new)
  then have "webhook_seen (TRANSFER, ref) w1" by (simp add: w1)
  then have "webhook_seen (TRANSFER, ref) w2" using webhook_seen_cong [OF assms(8)] by simp
  from markProcessed_seen [OF this] obtain res where
    "markProcessed TRANSFER ref w2 = (\<lparr>isFirst = False, existingResult = res\<rparr>, w2)" ..
  then have "handleTransferWebhook payload2 now2 w2 = (Inr (), w2)"
    using assms(2,9) by (auto simp: handleTransferWebhook_def Let_def split: option.splits)
  with p show ?thesis ..
qed

theorem early_transfer_webhook_lost_witness:
  "handleTransferWebhook \<lparr>tp_status = Some ''SUCCESSFUL'', tp_reference = Some ''REF'', tp_external_reference = None,
       tp_failure_reason = None\<rparr> 30
     ((snd (handleTransferWebhook \<lparr>tp_status = Some ''SUCCESSFUL'', tp_reference = Some ''REF'', tp_external_reference = None,
       tp_failure_reason = None\<rparr> 20 (payout_world [demo_payout PO_IN_FLIGHT])))
       \<lparr>w_vendorPayouts := [(demo_payout PO_IN_FLIGHT)\<lparr>p_campayRef := Some ''REF''\<rparr>]\<rparr>)
   = (Inr (), (snd (handleTransferWebhook \<lparr>tp_status = Some ''SUCCESSFUL'', tp_reference = Some ''REF'', tp_external_reference = None,
       tp_failure_reason = None\<rparr> 20 (payout_world [demo_payout PO_IN_FLIGHT])))
       \<lparr>w_vendorPayouts := [(demo_payout PO_IN_FLIGHT)\<lparr>p_campayRef := Some ''REF''\<rparr>]\<rparr>)"
proof -
  let ?p = "\<lparr>tp_status = Some ''SUCCESSFUL'', tp_reference = Some ''REF'', tp_external_reference = None, tp_failure_reason = None\<rparr>"
  let ?w = "payout_world [demo_payout PO_IN_FLIGHT]"
  have t: "terminal_status ?p = Some True" by code_simp
  have "\<not> webhook_seen (TRANSFER, ''REF'') ?w" "payout_by_ref VendorPayouts ''REF'' ?w = None" "payout_by_ref RiderPayouts ''REF'' ?w = None"
    by (simp_all add: webhook_seen_def payout_world_def payout_by_ref_def demo_payout_def demo_world_def)
  note lost = early_transfer_webhook_lost [OF _ _ t this refl, where ?payload2.0 = ?p and ?w2.0 =
      "(snd (handleTransferWebhook ?p 20 ?w))\<lparr>w_vendorPayouts := [(demo_payout PO_IN_FLIGHT)\<lparr>p_campayRef := Some ''REF''\<rparr>]\<rparr>"]
  show ?thesis using lost by (simp add: transfer_reference_def)
qed

end
