(* ===== verification/Refunds.thy ===== *)
theory Refunds
  imports Payout_Transfers
begin

text \<open>
  Giving a customer's money back: the worker of \<open>finance/refund-processor.service.ts\<close>, which drains
  orders in REFUND_PENDING, and \<open>handleRefundWebhook\<close> of \<open>finance/finance.service.ts\<close>, which
  settles them.  \<open>sendRefund\<close> is what \<open>campay.initiateRefund\<close> answers to a request.
\<close>

section \<open>The worker\<close>

definition MAX_REFUNDS_PER_RUN :: nat where "MAX_REFUNDS_PER_RUN = 25"

datatype refund_outcome = RefundInitiated | RefundSkippedManual | RefundFailed | RefundRaceLost

definition refund_candidate :: "order \<Rightarrow> bool" where
  "refund_candidate r \<longleftrightarrow> o_paymentStatus r = PS_REFUND_PENDING \<and> o_refundInitiatedAt r = None"

definition refund_lock :: "time \<Rightarrow> order \<Rightarrow> order" where
  "refund_lock now r = r\<lparr>o_refundInitiatedAt := Some now, o_refundFailureReason := None\<rparr>"

definition refund_reset :: "string \<Rightarrow> order \<Rightarrow> order" where
  "refund_reset reason r = r\<lparr>o_refundInitiatedAt := None, o_refundFailureReason := Some reason\<rparr>"

definition refund_request :: "uuid \<Rightarrow> string \<Rightarrow> xaf \<Rightarrow> string \<Rightarrow> money_request" where
  "refund_request orderId orderCode totalXAF payerPhone =
     \<lparr>mq_amountXAF = totalXAF, mq_phone = payerPhone, mq_description = ''Remboursement ChopNow '' @ orderCode,
      mq_externalReference = ''refund:'' @ orderId, mq_webhookUrl = None\<rparr>"

definition refund_initiated_transaction :: "uuid \<Rightarrow> string \<Rightarrow> xaf \<Rightarrow> transaction_input" where
  "refund_initiated_transaction orderId orderCode totalXAF =
     \<lparr>t_eventId = ''refund_initiated:'' @ orderId, t_eventType = REFUND_ISSUED,
      t_entries =
        [order_leg CUSTOMER_ESCROW totalXAF orderId (''Refund initiated: escrow released for order '' @ orderCode),
         order_leg REFUND_PAYABLE (- totalXAF) orderId (''Refund owed to customer (order '' @ orderCode @ '')'')]\<rparr>"

text \<open>The transaction after Campay accepted: the reference (a unique column) and the ledger pair.\<close>

definition refund_tx :: "uuid \<Rightarrow> string \<Rightarrow> xaf \<Rightarrow> string \<Rightarrow> time \<Rightarrow> world \<Rightarrow> http_error + world" where
  "refund_tx orderId orderCode totalXAF ref now w =
     (if clashes o_refundCampayRef (Some ref) (\<lambda>r. o_id r \<noteq> orderId) (w_orders w) then Inl (PrismaError ''P2002'')
      else case order_update orderId (\<lambda>r. r\<lparr>o_refundCampayRef := Some ref\<rparr>) w of
             None \<Rightarrow> Inl (PrismaError ''P2025'')
           | Some w1 \<Rightarrow>
               (case recordTransaction (refund_initiated_transaction orderId orderCode totalXAF) now w1 of
                  (Inl e, _) \<Rightarrow> Inl e
                | (Inr _, w2) \<Rightarrow> Inr w2))"

definition tryRefund ::
  "bool \<Rightarrow> (money_request \<Rightarrow> http_error + money_reply) \<Rightarrow> uuid \<Rightarrow> string \<Rightarrow> xaf \<Rightarrow> string \<Rightarrow> time \<Rightarrow> world
     \<Rightarrow> refund_outcome \<times> world" where
  "tryRefund refundsEnabled sendRefund orderId orderCode totalXAF payerPhone now w =
     (if \<not> refundsEnabled then (RefundSkippedManual, w)
      else case guarded_updateMany orderId refund_candidate (refund_lock now) w of
             None \<Rightarrow> (RefundRaceLost, w)
           | Some w1 \<Rightarrow>
               (let giveUp = (\<lambda>e. (RefundFailed,
                      case order_update orderId (refund_reset (error_message e)) w1 of None \<Rightarrow> w1 | Some w2 \<Rightarrow> w2))
                in case sendRefund (refund_request orderId orderCode totalXAF payerPhone) of
                     Inl e \<Rightarrow> giveUp e
                   | Inr result \<Rightarrow>
                       (case refund_tx orderId orderCode totalXAF (mr_reference result) now w1 of
                          Inl e \<Rightarrow> giveUp e
                        | Inr w2 \<Rightarrow> (RefundInitiated, w2))))"

definition refund_candidates :: "world \<Rightarrow> order list" where
  "refund_candidates w =
     take MAX_REFUNDS_PER_RUN (sort_key (\<lambda>r. nulls_last (o_cancelledAt r)) (filter refund_candidate (w_orders w)))"

text \<open>\<open>None\<close> stands for an order without a payer phone, which is only annotated.\<close>

fun refund_each ::
  "bool \<Rightarrow> (money_request \<Rightarrow> http_error + money_reply) \<Rightarrow> time \<Rightarrow> order list \<Rightarrow> world
     \<Rightarrow> refund_outcome option list \<times> world" where
  "refund_each enabled sendRefund now [] w = ([], w)"
| "refund_each enabled sendRefund now (r # rs) w =
     (let (res, w1) =
        (if falsy (o_payerPhone r)
         then (None, case order_update (o_id r) (\<lambda>r. r\<lparr>o_refundFailureReason := Some ''missing_payer_phone''\<rparr>) w of
                       None \<Rightarrow> w | Some w1 \<Rightarrow> w1)
         else (case tryRefund enabled sendRefund (o_id r) (o_code r) (o_totalXAF r) (the (o_payerPhone r)) now w of
                 (out, w1) \<Rightarrow> (Some out, w1)));
          (rest, w2) = refund_each enabled sendRefund now rs w1
      in (res # rest, w2))"

definition sweepPendingRefunds ::
  "bool \<Rightarrow> (money_request \<Rightarrow> http_error + money_reply) \<Rightarrow> time \<Rightarrow> world \<Rightarrow> refund_outcome option list \<times> world" where
  "sweepPendingRefunds enabled sendRefund now w = refund_each enabled sendRefund now (refund_candidates w) w"

section \<open>The refund webhook\<close>

definition order_by_refund_ref :: "string \<Rightarrow> world \<Rightarrow> order option" where
  "order_by_refund_ref ref w = find_row (\<lambda>r. o_refundCampayRef r = Some ref) (w_orders w)"

fun payment_status_lower :: "PaymentStatus \<Rightarrow> string" where
  "payment_status_lower PS_PENDING = ''pending''"
| "payment_status_lower PS_PROCESSING = ''processing''"
| "payment_status_lower PS_PAID = ''paid''"
| "payment_status_lower PS_FAILED = ''failed''"
| "payment_status_lower PS_REFUND_PENDING = ''refund_pending''"
| "payment_status_lower PS_REFUNDED = ''refunded''"

definition refunded_patch :: "time \<Rightarrow> order \<Rightarrow> order" where
  "refunded_patch now r = r\<lparr>o_paymentStatus := PS_REFUNDED, o_refundedAt := Some now\<rparr>"

definition settlement_failed_patch :: "string \<Rightarrow> order \<Rightarrow> order" where
  "settlement_failed_patch reason r =
     r\<lparr>o_refundCampayRef := None, o_refundInitiatedAt := None, o_refundFailureReason := Some reason\<rparr>"

definition refund_settled_transaction :: "uuid \<Rightarrow> string \<Rightarrow> xaf \<Rightarrow> transaction_input" where
  "refund_settled_transaction orderId orderCode totalXAF =
     \<lparr>t_eventId = ''refund_settled:'' @ orderId, t_eventType = REFUND_ISSUED,
      t_entries =
        [order_leg REFUND_PAYABLE totalXAF orderId (''Refund settled: liability cleared for order '' @ orderCode),
         order_leg CAMPAY_FLOAT (- totalXAF) orderId ''Refund funds left platform Campay float'']\<rparr>"

definition settle_refund_tx :: "order \<Rightarrow> time \<Rightarrow> world \<Rightarrow> http_error + world" where
  "settle_refund_tx order now w =
     (case guarded_updateMany (o_id order) (\<lambda>r. o_paymentStatus r = PS_REFUND_PENDING) (refunded_patch now) w of
        None \<Rightarrow> Inr w
      | Some w1 \<Rightarrow>
          (case recordTransaction (refund_settled_transaction (o_id order) (o_code order) (o_totalXAF order)) now w1 of
             (Inl e, _) \<Rightarrow> Inl e
           | (Inr _, w2) \<Rightarrow> Inr w2))"

text \<open>The branches for the order that was found: the result that is noted, or the error thrown.\<close>

definition settle_refund :: "order \<Rightarrow> bool \<Rightarrow> string \<Rightarrow> time \<Rightarrow> world \<Rightarrow> (string, world) outcome" where
  "settle_refund order succeeded reason now w =
     (if o_paymentStatus order \<noteq> PS_REFUND_PENDING
      then (Inr (''status_mismatch_'' @ payment_status_lower (o_paymentStatus order)), w)
      else if succeeded
      then (case settle_refund_tx order now w of Inl e \<Rightarrow> (Inl e, w) | Inr w' \<Rightarrow> (Inr ''refunded'', w'))
      else (case order_update (o_id order) (settlement_failed_patch reason) w of
              None \<Rightarrow> (Inl (PrismaError ''P2025''), w)
            | Some w' \<Rightarrow> (Inr ''settlement_failed'', w')))"

definition handleRefundWebhook :: "TransferWebhookPayload \<Rightarrow> time \<Rightarrow> world \<Rightarrow> (unit, world) outcome" where
  "handleRefundWebhook payload now w =
     (if falsy (transfer_reference payload) then (Inr (), w)
      else case terminal_status payload of
             None \<Rightarrow> (Inr (), w)
           | Some succeeded \<Rightarrow>
               (let reference = the (transfer_reference payload);
                    (dedup, w1) = markProcessed REFUND reference w
                in if \<not> isFirst dedup then (Inr (), w1)
                   else case order_by_refund_ref reference w1 of
                          None \<Rightarrow> (Inr (), recordResult REFUND reference ''no_match'' w1)
                        | Some order \<Rightarrow>
                            (case settle_refund order succeeded (reported_reason payload) now w1 of
                               (Inl e, w2) \<Rightarrow> (Inl e, w2)
                             | (Inr result, w2) \<Rightarrow> (Inr (), recordResult REFUND reference result w2))))"

section \<open>One refund at a time\<close>

interpretation refund_lock: guarded_transition refund_candidate "refund_lock now" for now
  by unfold_locales (auto simp: refund_candidate_def refund_lock_def)

interpretation refund_settled: guarded_transition "\<lambda>r. o_paymentStatus r = PS_REFUND_PENDING" "refunded_patch now" for now
  by unfold_locales (auto simp: refunded_patch_def)

lemma refund_patches [simp]:
  "o_id (refund_lock now r) = o_id r" "o_id (refund_reset s r) = o_id r" "o_id (refunded_patch now r) = o_id r"
  "o_id (settlement_failed_patch s r) = o_id r"
  "lawful r (refund_lock now r)" "lawful r (refund_reset s r)" "lawful r (refunded_patch now r)"
  "lawful r (settlement_failed_patch s r)" "lawful r (r\<lparr>o_refundCampayRef := x\<rparr>)"
  "lawful r (r\<lparr>o_refundFailureReason := y\<rparr>)"
  by (simp_all add: refund_lock_def refund_reset_def refunded_patch_def settlement_failed_patch_def lawful_def frozen_def
      reach_refl)

lemma order_leg_pair_valid:
  "ev \<noteq> [] \<Longrightarrow> oid \<noteq> [] \<Longrightarrow>
   validate \<lparr>t_eventId = ev, t_eventType = REFUND_ISSUED, t_entries = [order_leg a x oid d, order_leg b (- x) oid d']\<rparr> =
     (if x = 0 then Inl (Conflict ''ledger_zero_amount'') else Inr ())"
  by (rule validate_two_legs) simp_all

lemma order_account_append:
  "w_ledger w' = w_ledger w @ rows \<Longrightarrow>
   order_account a oid w' = order_account a oid w + ledger_sum (\<lambda>l. l_account l = a \<and> l_orderId l = Some oid) rows"
  by (simp add: order_account_def)

lemma initiated_rows:
  "ledger_sum (\<lambda>l. l_account l = a \<and> l_orderId l = Some oid)
     (map (ledger_row (refund_initiated_transaction oid code x) now) (t_entries (refund_initiated_transaction oid code x))) =
   (if a = CUSTOMER_ESCROW then x else if a = REFUND_PAYABLE then - x else 0)"
  by (simp add: refund_initiated_transaction_def ledger_row_def)

lemma settled_rows:
  "ledger_sum (\<lambda>l. l_account l = a \<and> l_orderId l = Some oid)
     (map (ledger_row (refund_settled_transaction oid code x) now) (t_entries (refund_settled_transaction oid code x))) =
   (if a = REFUND_PAYABLE then x else if a = CAMPAY_FLOAT then - x else 0)"
  by (simp add: refund_settled_transaction_def ledger_row_def)

lemma refund_tx_Inr:
  assumes "refund_tx oid code amt ref now w = Inr w'"
  shows "\<not> clashes o_refundCampayRef (Some ref) (\<lambda>r. o_id r \<noteq> oid) (w_orders w)"
    and "w' = (orders_updateMany (\<lambda>r. o_id r = oid) (\<lambda>r. r\<lparr>o_refundCampayRef := Some ref\<rparr>) w)
           \<lparr>w_ledger := w_ledger w @ map (ledger_row (refund_initiated_transaction oid code amt) now)
              (t_entries (refund_initiated_transaction oid code amt))\<rparr>"
  using assms
  by (auto simp: refund_tx_def order_update_def recordTransaction_def split: if_splits option.splits sum.splits prod.splits)

text \<open>The three ways out of an attempt that took the lock.\<close>

lemma tryRefund_cases:
  assumes "tryRefund enabled sendRefund oid code amt phone now w = (out, w')" and "orders_distinct w"
  obtains (idle) "w' = w" and "out = RefundSkippedManual \<or> out = RefundRaceLost"
  | (initiated) r m w1 where "out = RefundInitiated" and "enabled" and "order_by_id oid w = Some r" and "refund_candidate r"
      and "sendRefund (refund_request oid code amt phone) = Inr m"
      and "guarded_updateMany oid refund_candidate (refund_lock now) w = Some w1"
      and "order_by_id oid w1 = Some (refund_lock now r)" and "refund_tx oid code amt (mr_reference m) now w1 = Inr w'"
  | (failed) r e w1 where "out = RefundFailed" and "enabled" and "order_by_id oid w = Some r" and "refund_candidate r"
      and "sendRefund (refund_request oid code amt phone) = Inl e
           \<or> (\<exists>m. sendRefund (refund_request oid code amt phone) = Inr m \<and> refund_tx oid code amt (mr_reference m) now w1 = Inl e)"
      and "guarded_updateMany oid refund_candidate (refund_lock now) w = Some w1"
      and "order_by_id oid w1 = Some (refund_lock now r)"
      and "w' = orders_updateMany (\<lambda>r. o_id r = oid) (refund_reset (error_message e)) w1"
proof (cases "enabled \<and> guarded_updateMany oid refund_candidate (refund_lock now) w \<noteq> None")
  case False
  then show thesis using assms(1) idle by (auto simp: tryRefund_def split: if_splits)
next
  case True
  then obtain w1 where w1: "enabled" "guarded_updateMany oid refund_candidate (refund_lock now) w = Some w1" by auto
  obtain r where r: "order_by_id oid w = Some r" "refund_candidate r" "order_by_id oid w1 = Some (refund_lock now r)"
    by (rule guarded_row [OF assms(2) w1(2)]) simp_all
  have u: "order_update oid f w1 = Some (orders_updateMany (\<lambda>r. o_id r = oid) f w1)" for f
    using r(3) by (simp add: order_update_def)
  note run = assms(1) [unfolded tryRefund_def Let_def]
  show thesis
  proof (cases "sendRefund (refund_request oid code amt phone)")
    case (Inl e)
    then show thesis using run w1 failed [OF _ w1(1) r(1,2) _ w1(2) r(3), of e] by (simp add: u)
  next
    case (Inr m)
    then show thesis
      using run w1 failed [OF _ w1(1) r(1,2) _ w1(2) r(3)] initiated [OF _ w1(1) r(1,2) Inr w1(2) r(3)]
      by (cases "refund_tx oid code amt (mr_reference m) now w1") (auto simp: u)
  qed
qed

lemma find_row_agree: "\<forall>x \<in> set rs. p x = q x \<Longrightarrow> find_row p rs = find_row q rs"
  by (induction rs) auto

lemma initiated_facts:
  assumes "tryRefund enabled sendRefund oid code amt phone now w = (RefundInitiated, w')" and "orders_distinct w"
  obtains r m where "enabled" and "order_by_id oid w = Some r" and "refund_candidate r"
    and "sendRefund (refund_request oid code amt phone) = Inr m"
    and "order_by_id oid w' = Some (r\<lparr>o_refundInitiatedAt := Some now, o_refundFailureReason := None,
                                    o_refundCampayRef := Some (mr_reference m)\<rparr>)"
    and "order_by_refund_ref (mr_reference m) w' = order_by_id oid w'"
    and "w_ledger w' = w_ledger w @ map (ledger_row (refund_initiated_transaction oid code amt) now)
           (t_entries (refund_initiated_transaction oid code amt))"
    and "orders_lawful w w'" and "w_webhooks w' = w_webhooks w" and "books_extend w w'" and "amt \<noteq> 0" and "oid \<noteq> []"
  using assms
proof (cases rule: tryRefund_cases)
  case (initiated r m w1)
  let ?set = "\<lambda>r. r\<lparr>o_refundCampayRef := Some (mr_reference m)\<rparr>"
  note tx = refund_tx_Inr [OF initiated(8)]
  note fr = guarded_frame [OF initiated(6)]
  have id: "o_id r = oid" using order_by_id_id [OF initiated(3)] .
  have orders: "w_orders w' = upd_where (\<lambda>r. o_id r = oid) ?set (w_orders w1)" by (simp add: tx(2))
  have "\<forall>x \<in> set (w_orders w'). (o_refundCampayRef x = Some (mr_reference m)) = (o_id x = oid)"
    using tx(1) unfolding orders by (auto simp: set_upd_where clashes_def)
  then have by_ref: "order_by_refund_ref (mr_reference m) w' = order_by_id oid w'"
    unfolding order_by_refund_ref_def order_by_id_def by (rule find_row_agree)
  have "order_by_id oid w' = order_by_id oid (orders_updateMany (\<lambda>r. o_id r = oid) ?set w1)"
    by (simp add: order_by_id_def tx(2))
  then have row: "order_by_id oid w' = Some (?set (refund_lock now r))"
    using initiated(7) id by (simp add: order_by_id_updateMany)
  have "orders_lawful w w1" by (rule orders_lawful_guarded [OF initiated(6)]) simp
  moreover have "orders_lawful w1 (orders_updateMany (\<lambda>r. o_id r = oid) ?set w1)"
    by (rule orders_lawful_updateMany) simp
  ultimately have "orders_lawful w (orders_updateMany (\<lambda>r. o_id r = oid) ?set w1)"
    by (rule orders_lawful_trans)
  then have law: "orders_lawful w w'" by (rule orders_lawful_cong) (simp_all add: tx(2))
  have led: "w_ledger w' = w_ledger w @ map (ledger_row (refund_initiated_transaction oid code amt) now)
           (t_entries (refund_initiated_transaction oid code amt))" using fr(1) by (simp add: tx(2))
  have "\<exists>v. recordTransaction (refund_initiated_transaction oid code amt) now v = (Inr (), w')"
    using initiated(8) by (auto simp: refund_tx_def split: if_splits option.splits sum.splits prod.splits)
  then obtain v where v: "recordTransaction (refund_initiated_transaction oid code amt) now v = (Inr (), w')" ..
  then have "w_ledger v = w_ledger w" using led by (auto simp: recordTransaction_def split: sum.splits)
  then have books: "books_extend w w'"
    using books_extend_cong [OF recordTransaction_extends [of v "refund_initiated_transaction oid code amt" now]] v by simp
  have pos: "amt \<noteq> 0 \<and> oid \<noteq> []"
    using v by (auto simp: recordTransaction_def validate_def refund_initiated_transaction_def split: sum.splits if_splits)
  show thesis
    by (rule that [OF initiated(2-5) _ by_ref led law _ books conjunct1 [OF pos] conjunct2 [OF pos]])
      (use row fr in \<open>simp_all add: refund_lock_def tx(2)\<close>)
next
  case idle
  from idle(2) show thesis by simp
next
  case failed
  from failed(1) show thesis by simp
qed

text \<open>
  A refund that is initiated was waiting, unlocked, and Campay accepted exactly its amount to
  the payer's phone; the order keeps its status, carries Campay's reference, and its escrow moves
  to the amount owed to the customer.
\<close>

theorem refund_initiated:
  assumes "tryRefund enabled sendRefund oid code amt phone now w = (RefundInitiated, w')" and "orders_distinct w"
  shows "enabled \<and> (\<exists>r m. order_by_id oid w = Some r \<and> refund_candidate r
      \<and> sendRefund (refund_request oid code amt phone) = Inr m
      \<and> order_by_id oid w' = Some (r\<lparr>o_refundInitiatedAt := Some now, o_refundFailureReason := None,
                                    o_refundCampayRef := Some (mr_reference m)\<rparr>)
      \<and> order_by_refund_ref (mr_reference m) w' = order_by_id oid w')
    \<and> order_account CUSTOMER_ESCROW oid w' = order_account CUSTOMER_ESCROW oid w + amt
    \<and> order_account REFUND_PAYABLE oid w' = order_account REFUND_PAYABLE oid w - amt
    \<and> books_extend w w' \<and> orders_lawful w w'"
proof -
  obtain r m where f: "enabled" "order_by_id oid w = Some r" "refund_candidate r"
      "sendRefund (refund_request oid code amt phone) = Inr m"
      "order_by_id oid w' = Some (r\<lparr>o_refundInitiatedAt := Some now, o_refundFailureReason := None,
                                    o_refundCampayRef := Some (mr_reference m)\<rparr>)"
      "order_by_refund_ref (mr_reference m) w' = order_by_id oid w'"
      "w_ledger w' = w_ledger w @ map (ledger_row (refund_initiated_transaction oid code amt) now)
           (t_entries (refund_initiated_transaction oid code amt))"
      "orders_lawful w w'" "books_extend w w'"
    by (rule initiated_facts [OF assms])
  then show ?thesis by (auto simp: order_account_append [OF f(7)] initiated_rows)
qed

section \<open>Settling\<close>

abbreviation marked :: "string \<Rightarrow> world \<Rightarrow> world" where
  "marked ref w \<equiv> w\<lparr>w_webhooks := w_webhooks w @ [\<lparr>we_eventType = REFUND, we_reference = ref, we_result = None\<rparr>]\<rparr>"

lemma marked_reads [simp]:
  "order_by_refund_ref ref (w\<lparr>w_webhooks := x\<rparr>) = order_by_refund_ref ref w"
  "order_by_id i (w\<lparr>w_webhooks := x\<rparr>) = order_by_id i w" "orders_distinct (w\<lparr>w_webhooks := x\<rparr>) = orders_distinct w"
  by (simp_all add: order_by_refund_ref_def order_by_id_def orders_distinct_def)

lemma refund_webhook_runs:
  assumes "transfer_reference payload = Some ref" and "ref \<noteq> []" and "terminal_status payload = Some ok"
    and "\<not> webhook_seen (REFUND, ref) w" and "order_by_refund_ref ref w = Some r"
    and "settle_refund r ok (reported_reason payload) now (marked ref w) = (Inr res, w2)"
  shows "handleRefundWebhook payload now w = (Inr (), recordResult REFUND ref res w2)"
  using assms by (simp add: handleRefundWebhook_def Let_def markProcessed_new)

lemma webhook_seen_marked: "webhook_seen (REFUND, ref) (marked ref w)"
  by (simp add: webhook_seen_def find_row_append is_webhook_def split: option.splits)

lemma refund_webhook_seen:
  assumes "transfer_reference payload = Some ref" and "webhook_seen (REFUND, ref) w"
  shows "handleRefundWebhook payload now w = (Inr (), w)"
proof -
  obtain r where "markProcessed REFUND ref w = (\<lparr>isFirst = False, existingResult = r\<rparr>, w)"
    using markProcessed_seen assms(2) by blast
  then show ?thesis using assms(1) by (simp add: handleRefundWebhook_def split: option.splits)
qed

lemma settle_refund_paid:
  assumes "order_by_id oid w = Some r" and "o_paymentStatus r = PS_REFUND_PENDING" and "o_totalXAF r \<noteq> 0" and "oid \<noteq> []"
    and "orders_distinct w"
  obtains w' where "settle_refund r True reason now w = (Inr ''refunded'', w')"
    and "order_by_id oid w' = Some (refunded_patch now r)"
    and "w_webhooks w' = w_webhooks w" and "orders_lawful w w'"
    and "w_ledger w' = w_ledger w @ map (ledger_row (refund_settled_transaction oid (o_code r) (o_totalXAF r)) now)
           (t_entries (refund_settled_transaction oid (o_code r) (o_totalXAF r)))"
proof -
  let ?g = "\<lambda>r. o_paymentStatus r = PS_REFUND_PENDING"
  have id: "o_id r = oid" by (rule order_by_id_id [OF assms(1)])
  obtain w1 where w1: "guarded_updateMany oid ?g (refunded_patch now) w = Some w1"
    using guarded_wins [OF assms(1), of ?g] assms(2) by blast
  have row: "order_by_id oid w1 = Some (refunded_patch now r)"
    using guarded_row [OF assms(5) w1] assms(1) by (metis option.inject refund_patches(3))
  have law: "orders_lawful w w1" by (rule orders_lawful_guarded [OF w1]) simp
  let ?t = "refund_settled_transaction oid (o_code r) (o_totalXAF r)"
  have "validate ?t = Inr ()"
    using assms(3,4) by (simp add: refund_settled_transaction_def order_leg_pair_valid)
  then have rec: "recordTransaction ?t now w1 = (Inr (), w1\<lparr>w_ledger := w_ledger w1 @ map (ledger_row ?t now) (t_entries ?t)\<rparr>)"
    by (simp add: recordTransaction_def)
  show thesis
    by (rule that [of "w1\<lparr>w_ledger := w_ledger w1 @ map (ledger_row ?t now) (t_entries ?t)\<rparr>"])
      (use assms(2) id w1 row law rec guarded_frame(1,9) [OF w1] in
        \<open>simp_all add: settle_refund_def settle_refund_tx_def order_by_id_def orders_lawful_def\<close>)
qed

lemma settle_refund_failed:
  assumes "order_by_id oid w = Some r" and "o_paymentStatus r = PS_REFUND_PENDING"
  shows "settle_refund r False reason now w =
    (Inr ''settlement_failed'', orders_updateMany (\<lambda>r. o_id r = oid) (settlement_failed_patch reason) w)"
  using assms order_by_id_id [OF assms(1)] by (simp add: settle_refund_def order_update_def)

text \<open>
  C12.  The first refund of an order (its escrow still holds the total and nothing is booked as owed
  to the customer) that is initiated and then confirmed by Campay leaves the order REFUNDED with its
  status unchanged, its escrow empty, nothing owed, and the total gone from the Campay float; further
  notifications under the reference change nothing, and the worker can not take the order again.
\<close>

theorem refund_settles:
  assumes "orders_distinct w" and "order_by_id oid w = Some r"
    and "tryRefund enabled sendRefund oid code (o_totalXAF r) phone now w = (RefundInitiated, w1)"
    and "sendRefund (refund_request oid code (o_totalXAF r) phone) = Inr m"
    and "transfer_reference payload = Some (mr_reference m)" and "mr_reference m \<noteq> []"
    and "transfer_reference payload' = Some (mr_reference m)"
    and "terminal_status payload = Some True" and "\<not> webhook_seen (REFUND, mr_reference m) w"
    and "order_account CUSTOMER_ESCROW oid w = - o_totalXAF r" and "order_account REFUND_PAYABLE oid w = 0"
  shows "\<exists>w2 r2. handleRefundWebhook payload now2 w1 = (Inr (), w2)
    \<and> order_by_id oid w2 = Some r2 \<and> o_paymentStatus r2 = PS_REFUNDED \<and> o_refundedAt r2 = Some now2
    \<and> o_status r2 = o_status r
    \<and> order_account CUSTOMER_ESCROW oid w1 = 0 \<and> order_account REFUND_PAYABLE oid w1 = - o_totalXAF r
    \<and> order_account CUSTOMER_ESCROW oid w2 = 0 \<and> order_account REFUND_PAYABLE oid w2 = 0
    \<and> order_account CAMPAY_FLOAT oid w2 = order_account CAMPAY_FLOAT oid w - o_totalXAF r
    \<and> handleRefundWebhook payload' now3 w2 = (Inr (), w2)
    \<and> tryRefund True sendRefund' oid code' amt phone' now4 w2 = (RefundRaceLost, w2)"
proof -
  let ?ref = "mr_reference m" and ?x = "o_totalXAF r"
  let ?r1 = "r\<lparr>o_refundInitiatedAt := Some now, o_refundFailureReason := None, o_refundCampayRef := Some ?ref\<rparr>"
  have f: "refund_candidate r" "order_by_id oid w1 = Some ?r1" "order_by_refund_ref ?ref w1 = Some ?r1"
      "w_ledger w1 = w_ledger w @ map (ledger_row (refund_initiated_transaction oid code ?x) now)
           (t_entries (refund_initiated_transaction oid code ?x))"
      "orders_lawful w w1" "w_webhooks w1 = w_webhooks w" "?x \<noteq> 0" "oid \<noteq> []"
    by (rule initiated_facts [OF assms(3,1)]; use assms(2,4) in simp)+
  have d1: "orders_distinct w1" using orders_lawful_distinct [OF f(5)] assms(1) by simp
  have pend: "o_paymentStatus ?r1 = PS_REFUND_PENDING" using f(1) by (simp add: refund_candidate_def)
  obtain v where v: "settle_refund ?r1 True (reported_reason payload) now2 (marked ?ref w1) = (Inr ''refunded'', v)"
      "order_by_id oid v = Some (refunded_patch now2 ?r1)"
      "w_webhooks v = w_webhooks (marked ?ref w1)" "orders_lawful (marked ?ref w1) v"
      "w_ledger v = w_ledger w1 @ map (ledger_row (refund_settled_transaction oid (o_code r) ?x) now2)
           (t_entries (refund_settled_transaction oid (o_code r) ?x))"
    by (rule settle_refund_paid [of oid "marked ?ref w1" ?r1]) (simp_all add: f(2,7,8) d1 pend)
  have "\<not> webhook_seen (REFUND, ?ref) w1" using assms(9) webhook_seen_cong [OF f(6)] by simp
  from refund_webhook_runs [OF assms(5,6,8) this f(3) v(1)]
  have run: "handleRefundWebhook payload now2 w1 = (Inr (), recordResult REFUND ?ref ''refunded'' v)" .
  let ?w2 = "recordResult REFUND ?ref ''refunded'' v"
  have w1: "order_account a oid w1 = order_account a oid w
      + (if a = CUSTOMER_ESCROW then ?x else if a = REFUND_PAYABLE then - ?x else 0)" for a
    by (simp add: order_account_append [OF f(4)] initiated_rows)
  have "order_account a oid ?w2 = order_account a oid v" for a by (simp add: order_account_def)
  then have acc: "order_account a oid ?w2 = order_account a oid w1
      + (if a = REFUND_PAYABLE then ?x else if a = CAMPAY_FLOAT then - ?x else 0)" for a
    by (simp add: order_account_append [OF v(5)] settled_rows)
  have row: "order_by_id oid ?w2 = Some (refunded_patch now2 ?r1)" using v(2) by (simp add: order_by_id_def)
  have "webhook_seen (REFUND, ?ref) ?w2"
    using webhook_seen_cong [OF v(3)] by (simp add: webhook_seen_marked)
  then have again: "handleRefundWebhook payload' now3 ?w2 = (Inr (), ?w2)"
    by (rule refund_webhook_seen [OF assms(7)])
  have "orders_distinct v" using orders_lawful_distinct [OF v(4)] d1 by simp
  then have "orders_distinct ?w2" by (simp add: orders_distinct_def)
  then have "guarded_updateMany oid refund_candidate (refund_lock now4) ?w2 = None"
    using row by (simp add: guarded_None refund_candidate_def refunded_patch_def)
  then have "tryRefund True sendRefund' oid code' amt phone' now4 ?w2 = (RefundRaceLost, ?w2)"
    by (simp add: tryRefund_def)
  then show ?thesis using run row again w1 acc assms(10,11) by (auto simp: refunded_patch_def)
qed

text \<open>
  When Campay rejects the settlement the order is reset for another attempt, but the ledger
  pair of the first one stays: once the second attempt is initiated the escrow of the order has
  been released twice, and the platform owes the customer twice the amount.
\<close>

theorem failed_settlement_releases_escrow_twice:
  assumes "orders_distinct w" and "order_by_id oid w = Some r"
    and "tryRefund enabled sendRefund oid code (o_totalXAF r) phone now w = (RefundInitiated, w1)"
    and "sendRefund (refund_request oid code (o_totalXAF r) phone) = Inr m"
    and "transfer_reference payload = Some (mr_reference m)" and "mr_reference m \<noteq> []"
    and "terminal_status payload = Some False" and "\<not> webhook_seen (REFUND, mr_reference m) w"
    and "w2 = snd (handleRefundWebhook payload now2 w1)"
    and "tryRefund enabled sendRefund2 oid code (o_totalXAF r) phone now3 w2 = (RefundInitiated, w3)"
  shows "(\<exists>r2. order_by_id oid w2 = Some r2 \<and> refund_candidate r2)
    \<and> order_account CUSTOMER_ESCROW oid w3 = order_account CUSTOMER_ESCROW oid w + 2 * o_totalXAF r
    \<and> order_account REFUND_PAYABLE oid w3 = order_account REFUND_PAYABLE oid w - 2 * o_totalXAF r"
proof -
  let ?ref = "mr_reference m" and ?x = "o_totalXAF r"
  let ?r1 = "r\<lparr>o_refundInitiatedAt := Some now, o_refundFailureReason := None, o_refundCampayRef := Some ?ref\<rparr>"
  have f: "refund_candidate r" "order_by_id oid w1 = Some ?r1" "order_by_refund_ref ?ref w1 = Some ?r1"
      "w_ledger w1 = w_ledger w @ map (ledger_row (refund_initiated_transaction oid code ?x) now)
           (t_entries (refund_initiated_transaction oid code ?x))"
      "orders_lawful w w1" "w_webhooks w1 = w_webhooks w"
    by (rule initiated_facts [OF assms(3,1)]; use assms(2,4) in simp)+
  have d1: "orders_distinct w1" using orders_lawful_distinct [OF f(5)] assms(1) by simp
  have pend: "o_paymentStatus ?r1 = PS_REFUND_PENDING" using f(1) by (simp add: refund_candidate_def)
  let ?v = "orders_updateMany (\<lambda>r. o_id r = oid) (settlement_failed_patch (reported_reason payload)) (marked ?ref w1)"
  have m1: "order_by_id oid (marked ?ref w1) = Some ?r1" by (simp add: f(2))
  have "\<not> webhook_seen (REFUND, ?ref) w1" using assms(8) webhook_seen_cong [OF f(6)] by simp
  from refund_webhook_runs [OF assms(5,6,7) this f(3) settle_refund_failed [OF m1 pend]] assms(9)
  have w2: "w2 = recordResult REFUND ?ref ''settlement_failed'' ?v" by simp
  have id: "o_id r = oid" by (rule order_by_id_id [OF assms(2)])
  have "order_by_id oid w2 = order_by_id oid ?v" by (simp add: w2 order_by_id_def)
  also have "\<dots> = Some (settlement_failed_patch (reported_reason payload) ?r1)"
    using m1 id by (subst order_by_id_updateMany) simp_all
  finally have row: "order_by_id oid w2 = Some (settlement_failed_patch (reported_reason payload) ?r1)" .
  have "refund_candidate (settlement_failed_patch (reported_reason payload) ?r1)"
    using pend by (simp add: refund_candidate_def settlement_failed_patch_def)
  moreover have "orders_distinct w2" using d1 by (simp add: w2 orders_distinct_def map_key_upd_where)
  then have "w_ledger w3 = w_ledger w2 @ map (ledger_row (refund_initiated_transaction oid code ?x) now3)
           (t_entries (refund_initiated_transaction oid code ?x))"
    by (rule initiated_facts [OF assms(10)])
  then have "order_account a oid w3 = order_account a oid w2 + (if a = CUSTOMER_ESCROW then ?x else if a = REFUND_PAYABLE then - ?x else 0)" for a
    by (simp add: order_account_append initiated_rows)
  moreover have "order_account a oid w2 = order_account a oid w1" for a by (simp add: w2 order_account_def)
  moreover have "order_account a oid w1 = order_account a oid w + (if a = CUSTOMER_ESCROW then ?x else if a = REFUND_PAYABLE then - ?x else 0)" for a
    by (simp add: order_account_append [OF f(4)] initiated_rows)
  ultimately show ?thesis using row by auto
qed

text \<open>
  The comment says the status guard prevents a double fire when Campay accepted the refund but
  the transaction after it failed; the error handler resets the lock, so the order is a candidate
  of the next sweep again.
\<close>

theorem accepted_refund_fires_again:
  assumes "orders_distinct w" and "tryRefund enabled sendRefund oid code amt phone now w = (RefundFailed, w')"
    and "sendRefund (refund_request oid code amt phone) = Inr m"
  shows "\<exists>r. order_by_id oid w' = Some r \<and> refund_candidate r
    \<and> guarded_updateMany oid refund_candidate (refund_lock later) w' \<noteq> None"
  using assms(2,1)
proof (cases rule: tryRefund_cases)
  case (failed r e w1)
  have d1: "orders_distinct w1" using refund_lock.distinct_kept [OF assms(1) failed(6)] .
  have "order_by_id oid w' = Some (refund_reset (error_message e) (refund_lock now r))"
    using failed(7) order_by_id_id [OF failed(3)] by (simp add: failed(8) order_by_id_updateMany)
  moreover have "refund_candidate (refund_reset (error_message e) (refund_lock now r))"
    using failed(4) by (simp add: refund_candidate_def refund_reset_def refund_lock_def)
  ultimately show ?thesis using guarded_wins [of oid w'] by fastforce
next
  case idle
  then show ?thesis by simp
next
  case initiated
  from initiated(1) show ?thesis by simp
qed

section \<open>What the refunds keep\<close>

lemma tryRefund_keeps:
  assumes "tryRefund enabled sendRefund oid code amt phone now w = (out, w')" and "orders_distinct w"
  shows "books_extend w w' \<and> orders_lawful w w'"
  using assms
proof (cases rule: tryRefund_cases)
  case (initiated r m w1)
  then show ?thesis using initiated_facts [OF _ assms(2)] assms(1) by metis
next
  case (failed r e w1)
  have "orders_lawful w w1" by (rule orders_lawful_guarded [OF failed(6)]) simp
  also have "orders_lawful w1 w'" unfolding failed(8) by (rule orders_lawful_updateMany) simp
  finally show ?thesis
    using guarded_frame(1) [OF failed(6)] by (simp add: failed(8) books_extend_same)
qed simp

lemma sweepPendingRefunds_keeps:
  assumes "orders_distinct w"
  shows "books_extend w (snd (sweepPendingRefunds enabled sendRefund now w))
    \<and> orders_lawful w (snd (sweepPendingRefunds enabled sendRefund now w))"
proof -
  have "books_extend w (snd (refund_each enabled sendRefund now rs w)) \<and> orders_lawful w (snd (refund_each enabled sendRefund now rs w))" for rs
    using assms
  proof (induction rs arbitrary: w)
    case (Cons r rs)
    define w1 where "w1 = (if falsy (o_payerPhone r)
       then (case order_update (o_id r) (\<lambda>r. r\<lparr>o_refundFailureReason := Some ''missing_payer_phone''\<rparr>) w of None \<Rightarrow> w | Some w1 \<Rightarrow> w1)
       else snd (tryRefund enabled sendRefund (o_id r) (o_code r) (o_totalXAF r) (the (o_payerPhone r)) now w))"
    have "books_extend w w1 \<and> orders_lawful w w1"
    proof (cases "falsy (o_payerPhone r)")
      case True
      then show ?thesis
        by (auto simp: w1_def order_update_def books_extend_same intro!: orders_lawful_updateMany split: option.splits)
    next
      case False
      then show ?thesis
        using tryRefund_keeps [OF prod.collapse [symmetric] Cons.prems] by (simp add: w1_def)
    qed
    moreover from this have "orders_distinct w1" using orders_lawful_distinct Cons.prems by blast
    from Cons.IH [OF this] have "books_extend w1 (snd (refund_each enabled sendRefund now rs w1))
        \<and> orders_lawful w1 (snd (refund_each enabled sendRefund now rs w1))" .
    moreover have "snd (refund_each enabled sendRefund now (r # rs) w) = snd (refund_each enabled sendRefund now rs w1)"
      by (auto simp: w1_def Let_def split: prod.splits)
    ultimately show ?case
      using books_extend_trans [of w w1] orders_lawful_trans [of w w1] by simp
  qed simp
  then show ?thesis by (simp add: sweepPendingRefunds_def)
qed

lemma settle_refund_keeps: "books_extend w (snd (settle_refund r ok reason now w)) \<and> orders_lawful w (snd (settle_refund r ok reason now w))"
proof -
  have "books_extend w w' \<and> orders_lawful w w'" if "settle_refund_tx r now w = Inr w'" for w'
  proof (cases "guarded_updateMany (o_id r) (\<lambda>r. o_paymentStatus r = PS_REFUND_PENDING) (refunded_patch now) w")
    case None
    then show ?thesis using that by (simp add: settle_refund_tx_def)
  next
    case (Some w1)
    let ?t = "refund_settled_transaction (o_id r) (o_code r) (o_totalXAF r)"
    have t: "recordTransaction ?t now w1 = (Inr (), w')"
      using that Some by (auto simp: settle_refund_tx_def split: sum.splits prod.splits)
    have "books_extend w1 w'" using recordTransaction_extends [of w1 ?t now] t by simp
    moreover have "orders_lawful w w1" by (rule orders_lawful_guarded [OF Some]) simp
    moreover have "w_orders w' = w_orders w1" using frame_simps(2) recordTransaction_frame(1) [of ?t now w1] t by simp
    moreover have "w_ledger w1 = w_ledger w" by (rule guarded_frame(1) [OF Some])
    ultimately show ?thesis
      by (auto simp: orders_lawful_def intro: books_extend_cong)
  qed
  then show ?thesis
    by (auto simp: settle_refund_def order_update_def books_extend_same intro!: orders_lawful_updateMany
        split: sum.splits option.splits)
qed

lemma markProcessed_tables [simp]:
  "w_ledger (snd (markProcessed ty ref w)) = w_ledger w" "w_orders (snd (markProcessed ty ref w)) = w_orders w"
  by (simp_all add: markProcessed_def split: option.splits)

lemma handleRefundWebhook_keeps:
  "books_extend w (snd (handleRefundWebhook payload now w)) \<and> orders_lawful w (snd (handleRefundWebhook payload now w))"
proof -
  let ?ref = "the (transfer_reference payload)"
  obtain d w1 where d: "markProcessed REFUND ?ref w = (d, w1)" by fastforce
  have w1: "w_ledger w1 = w_ledger w" "w_orders w1 = w_orders w"
    using markProcessed_tables [of REFUND ?ref w] d by simp_all
  have same: "books_extend w v \<and> orders_lawful w v" if "w_ledger v = w_ledger w" "w_orders v = w_orders w" for v
    using that by (simp add: books_extend_same orders_lawful_same)
  have settled: "books_extend w v \<and> orders_lawful w v"
    if "w_ledger v = w_ledger (snd (settle_refund r ok reason now w1))" "w_orders v = w_orders (snd (settle_refund r ok reason now w1))" for r ok reason v
    using settle_refund_keeps [of w1 r ok reason now] that w1
    by (auto simp: orders_lawful_def intro: books_extend_cong)
  show ?thesis
  proof (cases "falsy (transfer_reference payload) \<or> terminal_status payload = None \<or> \<not> isFirst d \<or> order_by_refund_ref ?ref w1 = None")
    case True
    then show ?thesis
      by - (rule same, auto simp: handleRefundWebhook_def d w1 Let_def split: option.splits)
  next
    case False
    then obtain ok r where "terminal_status payload = Some ok" "order_by_refund_ref ?ref w1 = Some r" by auto
    then show ?thesis
      using False
      by - (rule settled [where ok = ok and r = r and reason = "reported_reason payload"],
        auto simp: handleRefundWebhook_def d Let_def split: sum.splits prod.splits)
  qed
qed

section \<open>Witnesses\<close>

text \<open>A cancelled order whose payment is on the books.\<close>

definition refund_world :: world where
  "refund_world = snd (recordTransaction (payment_transaction (demo_order OS_CANCELLED PS_REFUND_PENDING)) 1
     (demo_world [demo_order OS_CANCELLED PS_REFUND_PENDING] []))"

definition accept_with :: "string \<Rightarrow> money_request \<Rightarrow> http_error + money_reply" where
  "accept_with ref = (\<lambda>_. Inr \<lparr>mr_reference = ref, mr_status = ''PENDING''\<rparr>)"

definition refund_payload :: "string \<Rightarrow> TransferWebhookPayload" where
  "refund_payload status =
     \<lparr>tp_status = Some status, tp_reference = Some ''REF'', tp_external_reference = None, tp_failure_reason = None\<rparr>"

definition after_refund :: world where
  "after_refund = snd (tryRefund True (accept_with ''REF'') ''O'' ''TC-AAAAA'' 3150 ''670'' 5 refund_world)"

lemma refund_world_books: "refund_world = (demo_world [demo_order OS_CANCELLED PS_REFUND_PENDING] [])
    \<lparr>w_ledger := map (ledger_row (payment_transaction (demo_order OS_CANCELLED PS_REFUND_PENDING)) 1)
       (t_entries (payment_transaction (demo_order OS_CANCELLED PS_REFUND_PENDING)))\<rparr>"
proof -
  have "validate (payment_transaction (demo_order OS_CANCELLED PS_REFUND_PENDING)) = Inr ()" by code_simp
  then show ?thesis by (simp add: refund_world_def recordTransaction_def)
qed

lemma refund_world_simps [simp]:
  "orders_distinct refund_world" "order_by_id ''O'' refund_world = Some (demo_order OS_CANCELLED PS_REFUND_PENDING)"
  "\<not> webhook_seen (REFUND, ref) refund_world"
  by (simp_all add: refund_world_books webhook_seen_def orders_distinct_def order_by_id_def)

lemma refund_world_accounts [simp]:
  "order_account CUSTOMER_ESCROW ''O'' refund_world = - 3150" "order_account REFUND_PAYABLE ''O'' refund_world = 0"
  "order_account CAMPAY_FLOAT ''O'' refund_world = 3150"
  by (simp_all add: order_account_def refund_world_books payment_transaction_def ledger_row_def)

lemma after_refund_run:
  "tryRefund True (accept_with ''REF'') ''O'' ''TC-AAAAA'' 3150 ''670'' 5 refund_world = (RefundInitiated, after_refund)"
proof -
  have "fst (tryRefund True (accept_with ''REF'') ''O'' ''TC-AAAAA'' 3150 ''670'' 5 refund_world) = RefundInitiated" by code_simp
  then show ?thesis unfolding after_refund_def by (metis prod.collapse)
qed

theorem refund_initiated_witness:
  "order_account CUSTOMER_ESCROW ''O'' after_refund = 0 \<and> order_account REFUND_PAYABLE ''O'' after_refund = - 3150"
  using refund_initiated [OF after_refund_run] by simp

theorem refund_settles_witness:
  "\<exists>w2. handleRefundWebhook (refund_payload ''SUCCESSFUL'') 9 after_refund = (Inr (), w2)
     \<and> order_account CUSTOMER_ESCROW ''O'' w2 = 0 \<and> order_account REFUND_PAYABLE ''O'' w2 = 0
     \<and> order_account CAMPAY_FLOAT ''O'' w2 = 0"
proof -
  have t: "terminal_status (refund_payload ''SUCCESSFUL'') = Some True" by code_simp
  have run: "tryRefund True (accept_with ''REF'') ''O'' ''TC-AAAAA'' (o_totalXAF (demo_order OS_CANCELLED PS_REFUND_PENDING)) ''670'' 5 refund_world
      = (RefundInitiated, after_refund)" using after_refund_run by simp
  from refund_settles [where ?now2.0 = 9 and ?now3.0 = 9 and ?now4.0 = 9 and sendRefund' = "accept_with ''REF''"
      and code' = "''''" and phone' = "''''" and amt = 0, OF refund_world_simps(1,2) run, of "\<lparr>mr_reference = ''REF'', mr_status = ''PENDING''\<rparr>"
      "refund_payload ''SUCCESSFUL''" "refund_payload ''SUCCESSFUL''"]
  show ?thesis by (simp add: t accept_with_def) (auto simp: refund_payload_def transfer_reference_def)
qed

theorem failed_settlement_releases_escrow_twice_witness:
  "\<exists>w2 w3. w2 = snd (handleRefundWebhook (refund_payload ''FAILED'') 9 after_refund)
     \<and> tryRefund True (accept_with ''REF2'') ''O'' ''TC-AAAAA'' 3150 ''670'' 12 w2 = (RefundInitiated, w3)
     \<and> order_account CUSTOMER_ESCROW ''O'' w3 = 3150"
proof -
  let ?w2 = "snd (handleRefundWebhook (refund_payload ''FAILED'') 9 after_refund)"
  have t: "terminal_status (refund_payload ''FAILED'') = Some False" by code_simp
  have run: "tryRefund True (accept_with ''REF'') ''O'' ''TC-AAAAA'' (o_totalXAF (demo_order OS_CANCELLED PS_REFUND_PENDING)) ''670'' 5 refund_world
      = (RefundInitiated, after_refund)" using after_refund_run by simp
  have "fst (tryRefund True (accept_with ''REF2'') ''O'' ''TC-AAAAA'' 3150 ''670'' 12 ?w2) = RefundInitiated"
    unfolding after_refund_def by code_simp
  then obtain w3 where w3: "tryRefund True (accept_with ''REF2'') ''O'' ''TC-AAAAA'' 3150 ''670'' 12 ?w2 = (RefundInitiated, w3)"
    by (metis prod.collapse)
  then have "tryRefund True (accept_with ''REF2'') ''O'' ''TC-AAAAA'' (o_totalXAF (demo_order OS_CANCELLED PS_REFUND_PENDING)) ''670'' 12 ?w2
      = (RefundInitiated, w3)" by simp
  from failed_settlement_releases_escrow_twice [OF refund_world_simps(1,2) run _ _ _ t _ refl this,
      of "\<lparr>mr_reference = ''REF'', mr_status = ''PENDING''\<rparr>"]
  have "order_account CUSTOMER_ESCROW ''O'' w3 = order_account CUSTOMER_ESCROW ''O'' refund_world + 2 * 3150"
    by (simp add: accept_with_def refund_payload_def transfer_reference_def)
  then have "order_account CUSTOMER_ESCROW ''O'' w3 = 3150" by simp
  with w3 show ?thesis by blast
qed

theorem accepted_refund_fires_again_witness:
  "\<exists>w'. tryRefund True (accept_with ''REF'') ''O'' ''TC-AAAAA'' 3150 ''670'' 5
        (refund_world\<lparr>w_orders := [demo_order OS_CANCELLED PS_REFUND_PENDING,
            (demo_order OS_CANCELLED PS_REFUNDED)\<lparr>o_id := ''O2'', o_refundCampayRef := Some ''REF''\<rparr>]\<rparr>) = (RefundFailed, w')
     \<and> (\<exists>r. order_by_id ''O'' w' = Some r \<and> refund_candidate r)"
proof -
  let ?w = "refund_world\<lparr>w_orders := [demo_order OS_CANCELLED PS_REFUND_PENDING,
            (demo_order OS_CANCELLED PS_REFUNDED)\<lparr>o_id := ''O2'', o_refundCampayRef := Some ''REF''\<rparr>]\<rparr>"
  have "fst (tryRefund True (accept_with ''REF'') ''O'' ''TC-AAAAA'' 3150 ''670'' 5 ?w) = RefundFailed" by code_simp
  then obtain w' where w': "tryRefund True (accept_with ''REF'') ''O'' ''TC-AAAAA'' 3150 ''670'' 5 ?w = (RefundFailed, w')"
    by (metis prod.collapse)
  have "orders_distinct ?w" by (simp add: orders_distinct_def)
  from accepted_refund_fires_again [OF this w'] w' show ?thesis by (auto simp: accept_with_def)
qed

end
