(* ===== verification/Lifecycle.thy ===== *)
theory Lifecycle
  imports Payout_Safety Refunds
begin

text \<open>
  The system as one transition relation: every endpoint, event handler, cron, delayed job and
  webhook of the modelled services is a step on the shared database, and a run is any sequence
  of steps, in any order, with any clock readings, and with any answers from the outside
  (Campay, PostGIS, Redis).  \<open>api_step\<close> collects the operations that move orders along their
  life cycle; the payment handler is a rule of \<open>run\<close> of its own, since only a payment that comes
  in time does (\<open>on_time\<close>).  In a \<open>run\<close> every handler is one step; \<open>interleaved\<close> runs split the
  handlers that write orders, so that a write may come long after the read it rests on.
\<close>

section \<open>What the payout operations keep\<close>

lemma schedule_tx_orders_lawful: "schedule_tx k row input covered now w = Inr w' \<Longrightarrow> orders_lawful w w'"
  by (frule schedule_tx_Inr) (auto simp: orders_lawful_def lawful_def frozen_def reach_refl intro!: lawful.all2_upd)

lemma tryScheduleVendorPayout_keeps:
  "books_extend w (snd (tryScheduleVendorPayout i v ph t now w)) \<and> orders_lawful w (snd (tryScheduleVendorPayout i v ph t now w))"
  by (auto simp: tryScheduleVendorPayout_def Let_def intro: schedule_tx_books schedule_tx_orders_lawful
      split: sum.splits option.splits)

lemma tryScheduleRiderPayout_keeps:
  "books_extend w (snd (tryScheduleRiderPayout i v ph t now w)) \<and> orders_lawful w (snd (tryScheduleRiderPayout i v ph t now w))"
  by (auto simp: tryScheduleRiderPayout_def Let_def intro: schedule_tx_books schedule_tx_orders_lawful
      split: sum.splits option.splits)

lemma schedule_each_keeps:
  assumes "\<And>x i w. books_extend w (snd (try x i w)) \<and> orders_lawful w (snd (try x i w))"
  shows "books_extend w (snd (schedule_each try xs w)) \<and> orders_lawful w (snd (schedule_each try xs w))"
proof (induction xs arbitrary: w)
  case (Cons y ys)
  obtain x i where y: "y = (x, i)" by fastforce
  have "snd (schedule_each try (y # ys) w) = snd (schedule_each try ys (snd (try x i w)))"
    by (simp add: y Let_def split: prod.split)
  then show ?case
    using assms [of w x i] Cons.IH [of "snd (try x i w)"] books_extend_trans [of w "snd (try x i w)"]
      orders_lawful_trans [of w "snd (try x i w)"] by simp
qed simp

lemma payout_crons_keep:
  "books_extend w (snd (sweepWeeklyVendorPayouts newId s now w)) \<and> orders_lawful w (snd (sweepWeeklyVendorPayouts newId s now w))"
  "books_extend w (snd (sweepDailyRiderPayouts newId s now w)) \<and> orders_lawful w (snd (sweepDailyRiderPayouts newId s now w))"
  unfolding sweepWeeklyVendorPayouts_def sweepDailyRiderPayouts_def Let_def
  by (rule schedule_each_keeps, rule tryScheduleVendorPayout_keeps,
      rule schedule_each_keeps, rule tryScheduleRiderPayout_keeps)

lemma cashouts_keep:
  "books_extend w (snd (requestVendorCashout r v now w)) \<and> orders_lawful w (snd (requestVendorCashout r v now w))"
  "books_extend w (snd (rejectCashoutRequest r a reason now w)) \<and> orders_lawful w (snd (rejectCashoutRequest r a reason now w))"
  by (auto simp: requestVendorCashout_def rejectCashoutRequest_def Let_def
      intro!: books_extend_same orders_lawful_same split: sum.splits option.splits)

lemma approveCashoutRequest_keeps:
  "books_extend w (snd (approveCashoutRequest p r a t now w)) \<and> orders_lawful w (snd (approveCashoutRequest p r a t now w))"
proof -
  have "books_extend w (w_cashouts_update f w') \<and> orders_lawful w (w_cashouts_update f w')"
    if "schedule_tx k row input covered now w = Inr w'" for k row input covered f w'
    using schedule_tx_books [OF that] schedule_tx_orders_lawful [OF that]
    by (simp add: books_extend_def orders_lawful_def)
  then show ?thesis
    by (auto simp: approveCashoutRequest_def Let_def split: sum.splits option.splits)
qed

text \<open>The other payout operations touch neither the ledger nor the orders.\<close>

definition same_deals_and_books :: "world \<Rightarrow> world \<Rightarrow> bool" where
  "same_deals_and_books w w' \<longleftrightarrow> w_ledger w' = w_ledger w \<and> w_orders w' = w_orders w"

lemma same_keeps: "same_deals_and_books w w' \<Longrightarrow> books_extend w w' \<and> orders_lawful w w'"
  by (simp add: same_deals_and_books_def books_extend_same orders_lawful_same)

lemma payout_writes_same:
  "payout_updateMany k i from f w = Some w' \<Longrightarrow> same_deals_and_books w w'"
  "payout_update k i f w = Some w' \<Longrightarrow> same_deals_and_books w w'"
  by (auto simp: payout_updateMany_def payout_update_def same_deals_and_books_def split: if_splits option.splits)

lemma tryTransferRow_same: "same_deals_and_books w (snd (tryTransferRow k enabled transfer i ph net now w))"
proof (cases "enabled \<and> payout_updateMany k i [PO_PENDING] (lock_patch now) w \<noteq> None")
  case False
  then show ?thesis by (auto simp: tryTransferRow_split same_deals_and_books_def)
next
  case True
  then obtain w1 where w1: "payout_updateMany k i [PO_PENDING] (lock_patch now) w = Some w1" by auto
  obtain out w2 where a: "transfer_answer k i (transfer (transfer_request k i ph net)) w1 = (out, w2)" by fastforce
  have "same_deals_and_books w1 w2"
    by (rule transfer_answer_cases [OF a]) (auto dest: payout_writes_same(2) simp: same_deals_and_books_def)
  then show ?thesis
    using True w1 a payout_writes_same(1) [OF w1] by (simp add: tryTransferRow_split same_deals_and_books_def)
qed

lemma transfer_loop_same:
  "same_deals_and_books w (snd (snd (transfer_loop k enabled transfer now ps remaining w)))"
proof (induction ps arbitrary: remaining w)
  case (Cons p ps)
  obtain out w1 where t: "tryTransferRow k enabled transfer (p_id p) (p_momoPhone p) (p_netXAF p) now w = (out, w1)"
    by fastforce
  have w1: "same_deals_and_books w w1"
    using tryTransferRow_same [of w k enabled transfer "p_id p" "p_momoPhone p" "p_netXAF p" now] t by simp
  have step: "same_deals_and_books w (snd (snd (transfer_loop k enabled transfer now ps r w1)))" for r
    using Cons.IH [of w1 r] w1 by (simp add: same_deals_and_books_def)
  from t step Cons.IH [of w remaining] show ?case by (cases enabled) (simp_all add: Let_def case_prod_beta)
qed (simp add: same_deals_and_books_def)

lemma sweepPendingTransfers_same:
  "same_deals_and_books w (snd (sweepPendingTransfers enabled balance transfer s now w))"
proof -
  define run where "run r = (let (logV, r1, w1) = transfer_loop VendorPayouts enabled transfer now (due_payouts VendorPayouts s w) r w;
                (logR, r2, w2) = transfer_loop RiderPayouts enabled transfer now (due_payouts RiderPayouts s w1) r1 w1
            in (logV @ logR, w2))" for r
  have "same_deals_and_books w (snd (run r))" for r
  proof -
    obtain a r1 w1 where l1: "transfer_loop VendorPayouts enabled transfer now (due_payouts VendorPayouts s w) r w = (a, r1, w1)"
      by (metis prod_cases3)
    obtain b r2 w2 where l2: "transfer_loop RiderPayouts enabled transfer now (due_payouts RiderPayouts s w1) r1 w1 = (b, r2, w2)"
      by (metis prod_cases3)
    show ?thesis
      using transfer_loop_same [of w VendorPayouts enabled transfer now "due_payouts VendorPayouts s w" r]
        transfer_loop_same [of w1 RiderPayouts enabled transfer now "due_payouts RiderPayouts s w1" r1] l1 l2
      by (simp add: run_def same_deals_and_books_def)
  qed
  moreover have "sweepPendingTransfers enabled balance transfer s now w =
      (if enabled then (case balance of Inl _ \<Rightarrow> ([], w) | Inr b \<Rightarrow> run (Some b)) else run None)"
    unfolding sweepPendingTransfers_def run_def Let_def ..
  ultimately show ?thesis
    by (simp add: same_deals_and_books_def split: sum.split)
qed

lemma settle_payout_same: "same_deals_and_books w (snd (settle_payout k p ok reason now w))"
  using payout_writes_same(1) [of k "p_id p" "[PO_IN_FLIGHT]" "settle_patch ok reason now" w]
  by (auto simp: settle_payout_def same_deals_and_books_def split: option.splits)

lemma handleTransferWebhook_same: "same_deals_and_books w (snd (handleTransferWebhook payload now w))"
proof -
  obtain d w1 where d: "markProcessed TRANSFER (the (transfer_reference payload)) w = (d, w1)" by fastforce
  have "same_deals_and_books w w1"
    using markProcessed_tables [of TRANSFER "the (transfer_reference payload)" w] d by (simp add: same_deals_and_books_def)
  then show ?thesis
    using settle_payout_same [of w1]
    by (auto simp: handleTransferWebhook_def d Let_def same_deals_and_books_def split: option.splits prod.splits)
       (metis snd_conv)+
qed

lemma admin_payouts_same:
  "same_deals_and_books w (snd (retryPayout k i w))" "same_deals_and_books w (snd (manualMarkPayoutPaid k i ref remark now w))"
  by (auto simp: retryPayout_def manualMarkPayoutPaid_def same_deals_and_books_def
      dest: payout_writes_same(1) [unfolded same_deals_and_books_def] split: option.splits)

lemmas quiet_keeps = same_keeps [OF sweepPendingTransfers_same] same_keeps [OF handleTransferWebhook_same]
  same_keeps [OF admin_payouts_same(1)] same_keeps [OF admin_payouts_same(2)]

section \<open>Orders that are created, orders that are paid\<close>

lemma createOrder_rows:
  assumes "order_by_id (env_orderId env) w = None"
  shows "w_orders (snd (createOrder env u dto key now w)) = w_orders w
       \<or> (\<exists>r. o_id r = env_orderId env \<and> w_orders (snd (createOrder env u dto key now w)) = w_orders w @ [r])"
proof -
  have fresh: "\<forall>x \<in> set (w_orders w). o_id x \<noteq> env_orderId env"
    using assms by (simp add: order_by_id_def find_row_None)
  have id: "o_id (new_order env u dto v st fee key now) = env_orderId env" for v st fee by (simp add: new_order_def)
  have tx: "w_orders (snd (createOrder_tx env (new_order env u dto v st fee key now) lines cc now w)) = w_orders w
       \<or> (\<exists>r. o_id r = env_orderId env
             \<and> w_orders (snd (createOrder_tx env (new_order env u dto v st fee key now) lines cc now w)) = w_orders w @ [r])"
    for v st fee lines cc
    using createOrder_tx_rows [of w "new_order env u dto v st fee key now" env lines cc now] fresh by (simp add: id)
  show ?thesis
    unfolding createOrder_def Let_def using tx
    by (auto split: option.split sum.split if_split)
qed

definition on_time :: "uuid \<Rightarrow> world \<Rightarrow> bool" where
  "on_time oid w \<longleftrightarrow> (\<forall>r. order_by_id oid w = Some r \<longrightarrow> o_status r = OS_PENDING \<or> o_status r = OS_CONFIRMED)"

lemma payment_commit_orders:
  "w_orders (snd (onPaymentSucceeded_commit up order ref ph now w)) = w_orders w
   \<or> w_orders (snd (onPaymentSucceeded_commit up order ref ph now w)) =
        upd_where (\<lambda>r. o_id r = o_id order \<and> o_paymentStatus r \<in> set AWAITING_PAYMENT) (payment_patch order ref ph now) (w_orders w)"
proof -
  have "w_orders w2 = upd_where (\<lambda>r. o_id r = o_id order \<and> o_paymentStatus r \<in> set AWAITING_PAYMENT)
      (payment_patch order ref ph now) (w_orders w)" if "payment_tx order ref ph now w = Inr (Some w2)" for w2
  proof -
    from that obtain w1 where w1: "guarded_updateMany (o_id order) (\<lambda>r. o_paymentStatus r \<in> set AWAITING_PAYMENT)
             (payment_patch order ref ph now) w = Some w1"
        and "snd (recordTransaction (payment_transaction order) now w1) = w2"
      by (auto simp: payment_tx_def split: option.splits if_splits sum.splits prod.splits)
    then show ?thesis using guarded_Some [OF w1] frame_simps by (auto simp: recordTransaction_frame)
  qed
  then show ?thesis
    by (auto simp: onPaymentSucceeded_commit_def Let_def split: option.splits sum.splits)
qed

lemma payment_orders:
  "w_orders (snd (onPaymentSucceeded up oid ref ph now w)) = w_orders w
   \<or> (\<exists>order. order_by_id oid w = Some order \<and>
        w_orders (snd (onPaymentSucceeded up oid ref ph now w)) =
        upd_where (\<lambda>r. o_id r = oid \<and> o_paymentStatus r \<in> set AWAITING_PAYMENT) (payment_patch order ref ph now) (w_orders w))"
proof (cases "order_by_id oid w")
  case (Some order)
  then show ?thesis
    using payment_commit_orders [of up order ref ph now w] order_by_id_id [OF Some] by (auto simp: onPaymentSucceeded_def)
qed (simp add: onPaymentSucceeded_def)

lemma payment_deal: "list_all2 same_deal (w_orders w) (w_orders (snd (onPaymentSucceeded up oid ref ph now w)))"
  using payment_orders [of up oid ref ph now w]
  by (auto simp: same_deal.all2_refl same_deal_def intro!: same_deal.all2_upd)

lemma payment_on_time:
  assumes "on_time oid w" and "orders_distinct w"
  shows "orders_lawful w (snd (onPaymentSucceeded up oid ref ph now w))"
proof -
  have "lawful r (payment_patch order ref ph now r)" if "r \<in> set (w_orders w)" "o_id r = oid" for r order
  proof -
    have "order_by_id oid w = Some r" using order_in_by_id [OF assms(2)] that by auto
    then show ?thesis using assms(1) by (auto simp: on_time_def intro!: payment_patch_lawful)
  qed
  then show ?thesis
    using payment_orders [of up oid ref ph now w]
    by (auto simp: orders_lawful_def lawful.all2_refl intro!: lawful.all2_upd)
qed

section \<open>Steps and runs\<close>

inductive api_step :: "world \<Rightarrow> world \<Rightarrow> bool" where
  consumer_creates: "order_by_id (env_orderId env) w = None \<Longrightarrow> api_step w (snd (createOrder env u dto key now w))"
| consumer_cancels: "api_step w (snd (cancelOrder oid u now w))"
| consumer_rates: "api_step w (snd (rateOrder oid u vs rs c now w))"
| consumer_pays: "api_step w (snd (initiateMomo collect url oid u phone now w))"
| payment_webhook: "api_step w (snd (handleWebhook p now w))"
| vendor_accepts: "api_step w (snd (acceptOrder oid u now w))"
| vendor_refuses: "api_step w (snd (refuseOrder oid u reason n now w))"
| vendor_prepares: "api_step w (snd (setItemPrepared oid iid u prepared now w))"
| vendor_ready: "api_step w (snd (markOrderReady oid u now w))"
| vendor_cancels: "api_step w (snd (vendorCancelPreOrder oid u n pid now w))"
| expiry_cron: "api_step w (sweepExpired now w)"
| promotion_cron: "api_step w (promotion_sweep now w)"
| lifecycle_job: "api_step w (process up j now w)"
| dispatch: "api_step w (snd (tryDispatch rejected metres oid vid attempt now w))"
| rider_online: "api_step w (snd (setAvailability u b now w))"
| rider_heartbeat: "api_step w (snd (pushHeartbeat u now w))"
| rider_picks_up: "api_step w (snd (markPickedUp u oid code now w))"
| rider_delivers: "api_step w (snd (markDelivered u oid code now w))"
| fraud_resolved: "api_step w (snd (resolveRiderFraud ttl oid input now w))"
| vendor_payout_cron: "api_step w (snd (sweepWeeklyVendorPayouts newId s now w))"
| rider_payout_cron: "api_step w (snd (sweepDailyRiderPayouts newId s now w))"
| cashout_requested: "api_step w (snd (requestVendorCashout rid v now w))"
| cashout_approved: "api_step w (snd (approveCashoutRequest pid rid a t now w))"
| cashout_rejected: "api_step w (snd (rejectCashoutRequest rid a text now w))"
| transfer_cron: "api_step w (snd (sweepPendingTransfers enabled balance transfer s now w))"
| transfer_webhook: "api_step w (snd (handleTransferWebhook tp now w))"
| payout_retried: "api_step w (snd (retryPayout k i w))"
| payout_marked: "api_step w (snd (manualMarkPayoutPaid k i ref remark now w))"
| refund_cron: "api_step w (snd (sweepPendingRefunds enabled sendRefund now w))"
| refund_webhook: "api_step w (snd (handleRefundWebhook tp now w))"

text \<open>In a \<open>timely\<close> run no payment is confirmed for an order the vendor or a timer has already decided.\<close>

inductive run :: "bool \<Rightarrow> world \<Rightarrow> world \<Rightarrow> bool" for timely w0 where
  run_nil: "run timely w0 w0"
| run_api: "run timely w0 w \<Longrightarrow> api_step w w' \<Longrightarrow> run timely w0 w'"
| run_paid: "run timely w0 w \<Longrightarrow> timely \<longrightarrow> on_time oid w \<Longrightarrow> run timely w0 (snd (onPaymentSucceeded up oid ref ph now w))"

lemma api_step_books: "api_step w w' \<Longrightarrow> orders_distinct w \<Longrightarrow> books_extend w w'"
  by (induction rule: api_step.induct)
    (auto simp: createOrder_ledger initiateMomo_keeps handleWebhook_keeps process_keeps tryDispatch_keeps
      markPickedUp_keeps markDelivered_keeps resolveRiderFraud_keeps payout_crons_keep cashouts_keep
      approveCashoutRequest_keeps sweepPendingRefunds_keeps handleRefundWebhook_keeps quiet_keeps
      intro!: books_intros)

lemma api_step_moves:
  assumes "api_step w w'" and "orders_distinct w"
  shows "orders_lawful w w' \<or> (\<exists>env u dto key now. order_by_id (env_orderId env) w = None
     \<and> w' = snd (createOrder env u dto key now w))"
  using assms
proof (induction rule: api_step.induct)
  case (consumer_creates env w u dto key now)
  then show ?case by blast
qed (auto simp: initiateMomo_keeps handleWebhook_keeps process_keeps tryDispatch_keeps
      markPickedUp_keeps markDelivered_keeps resolveRiderFraud_keeps payout_crons_keep cashouts_keep
      approveCashoutRequest_keeps sweepPendingRefunds_keeps handleRefundWebhook_keeps setItemPrepared_lawful
      quiet_keeps intro!: lawful_intros disjI1)

lemma api_step_orders:
  assumes "api_step w w'" and "orders_distinct w"
  shows "orders_lawful w w' \<or> (\<exists>r. order_by_id (o_id r) w = None \<and> w_orders w' = w_orders w @ [r])"
  using api_step_moves [OF assms]
proof (elim disjE exE conjE)
  fix env u dto key now
  assume "order_by_id (env_orderId env) w = None" and "w' = snd (createOrder env u dto key now w)"
  then show ?thesis
    using createOrder_rows [of env w u dto key now] by (auto simp: orders_lawful_same)
qed simp

lemma api_step_keeps:
  assumes "api_step w w'" and "orders_distinct w"
  shows "books_extend w w'" and "rows_evolve lawful (w_orders w) (w_orders w')" and "orders_distinct w'"
proof -
  show "books_extend w w'" by (rule api_step_books [OF assms])
  show "rows_evolve lawful (w_orders w) (w_orders w')"
    using api_step_orders [OF assms] by (auto simp: orders_lawful_def intro: lawful.all2_evolve lawful.evolve_append)
  show "orders_distinct w'"
    using api_step_orders [OF assms]
  proof
    assume "orders_lawful w w'"
    then show ?thesis using orders_lawful_distinct assms(2) by blast
  next
    assume "\<exists>r. order_by_id (o_id r) w = None \<and> w_orders w' = w_orders w @ [r]"
    then obtain r where "\<forall>x \<in> set (w_orders w). o_id x \<noteq> o_id r" "w_orders w' = w_orders w @ [r]"
      by (auto simp: order_by_id_def find_row_None)
    then show ?thesis using assms(2) by (auto simp: orders_distinct_def)
  qed
qed

lemma lawful_same_deal: "rows_evolve lawful rs rs' \<Longrightarrow> rows_evolve same_deal rs rs'"
  unfolding rows_evolve_def by (auto simp: lawful_def same_deal_def elim!: list_all2_mono)

lemma run_keeps:
  assumes "run timely w0 w" and "orders_distinct w0"
  shows "orders_distinct w \<and> books_extend w0 w \<and> rows_evolve same_deal (w_orders w0) (w_orders w)
    \<and> (timely \<longrightarrow> rows_evolve lawful (w_orders w0) (w_orders w))"
  using assms
proof (induction rule: run.induct)
  case run_nil
  then show ?case by (simp add: lawful.evolve_refl same_deal.evolve_refl)
next
  case (run_api w w')
  then have d: "orders_distinct w" by blast
  note k = api_step_keeps [OF run_api(2) d]
  show ?case
    using run_api k lawful_same_deal [OF k(2)]
    by (auto intro: books_extend_trans lawful.evolve_trans same_deal.evolve_trans)
next
  case (run_paid w oid up ref ph now)
  let ?w = "snd (onPaymentSucceeded up oid ref ph now w)"
  have d: "orders_distinct w" using run_paid by blast
  have deal: "list_all2 same_deal (w_orders w) (w_orders ?w)" by (rule payment_deal)
  then have ids: "map o_id (w_orders ?w) = map o_id (w_orders w)"
    by (rule same_deal.all2_keys) (simp add: same_deal_def frozen_def)
  have "rows_evolve lawful (w_orders w0) (w_orders ?w)" if timely
    using that run_paid payment_on_time [OF _ d, of oid up ref ph now]
    by (auto simp: orders_lawful_def intro: lawful.evolve_trans lawful.all2_evolve)
  then show ?case
    using run_paid d ids same_deal.all2_evolve [OF deal] onPaymentSucceeded_books [of w up oid ref ph now]
    by (auto simp: orders_distinct_def intro: books_extend_trans same_deal.evolve_trans)
qed

text \<open>
  C3.  Whatever the users, the timers, Campay and Redis do, the ledger is only ever appended to, and
  from a balanced start the entries of every event, and so the whole ledger, sum to zero.
\<close>

theorem books_always_balanced:
  assumes "run timely w0 w" and "orders_distinct w0" and "books_balanced w0"
  shows "books_balanced w \<and> ledger_sum (\<lambda>_. True) (w_ledger w) = 0 \<and> (\<exists>es. w_ledger w = w_ledger w0 @ es)"
proof -
  have "books_extend w0 w" using run_keeps [OF assms(1,2)] by blast
  then show ?thesis
    using books_extend_balanced [OF _ assms(3)] books_balanced_total books_extend_append by blast
qed

section \<open>Interleaved handlers\<close>

text \<open>
  A handler reads its order, checks it, and writes later; between the two any other handler may
  write.  So in an interleaved run the write of a handler is a step of its own, and the row it was
  computed from is any row at all: nothing says that the table still holds it.  \<open>late_commit\<close> collects
  the writes that name the status or the column they replace in their \<open>where\<close>, or that touch neither
  the status nor the agreed columns; \<open>raw_commit\<close> the four that do not, each with the order it writes
  and the statuses its handler had checked for.
\<close>

inductive late_commit :: "world \<Rightarrow> world \<Rightarrow> bool" where
  created: "\<forall>x \<in> set (w_orders w). o_id x \<noteq> o_id order \<Longrightarrow> late_commit w (snd (createOrder_tx env order lines cc now w))"
| accepted: "late_commit w (snd (acceptOrder_commit order now w))"
| refused: "late_commit w (snd (refuseOrder_commit order reason n now w))"
| ready: "late_commit w (snd (markOrderReady_commit order now w))"
| vendor_cancelled: "late_commit w (snd (vendorCancelPreOrder_commit order n pid now w))"
| cancelled: "late_commit w (snd (cancelOrder_commit order now w))"
| delivered: "late_commit w (snd (markDelivered_commit order c s f now w))"
| fraud: "late_commit w (snd (resolveRiderFraud_commit ttl order rid input amt now w))"
| timer: "auto_refuse i now w = Some w' \<Longrightarrow> late_commit w w'"
| promoted: "promote_one i now w = Some w' \<Longrightarrow> late_commit w w'"
| assigned: "late_commit w (snd (dispatchOrder_commit oid vid n rid now w))"
| collected: "late_commit w (snd (initiateMomo_commit collect url order phone w))"
| refund_locked: "guarded_updateMany i refund_candidate (refund_lock now) w = Some w' \<Longrightarrow> late_commit w w'"
| refund_sent: "refund_tx i code amt ref now w = Inr w' \<Longrightarrow> late_commit w w'"
| refund_dropped: "order_update i (refund_reset reason) w = Some w' \<Longrightarrow> late_commit w w'"
| refund_unpayable: "order_update i (\<lambda>r. r\<lparr>o_refundFailureReason := Some ''missing_payer_phone''\<rparr>) w = Some w' \<Longrightarrow> late_commit w w'"
| refund_settled: "late_commit w (snd (settle_refund order ok reason now w))"

inductive raw_commit :: "uuid \<Rightarrow> OrderStatus list \<Rightarrow> world \<Rightarrow> world \<Rightarrow> bool" where
  paid: "raw_commit (o_id order) [OS_PENDING, OS_CONFIRMED] w (snd (onPaymentSucceeded_commit up order ref ph now w))"
| prepared: "o_status order \<in> set IN_KITCHEN \<Longrightarrow> raw_commit (o_id order) IN_KITCHEN w (snd (setItemPrepared_commit order iid p w))"
| picked: "raw_commit (o_id order) PICKUPABLE w (snd (markPickedUp_commit order now w))"
| no_rider: "raw_commit (o_id order) TERMINABLE w (expireForNoRider_commit order now w)"

definition still :: "OrderStatus list \<Rightarrow> uuid \<Rightarrow> world \<Rightarrow> bool" where
  "still sts i w \<longleftrightarrow> (\<forall>r. order_by_id i w = Some r \<longrightarrow> o_status r \<in> set sts)"

text \<open>
  Whole handlers, single guarded writes on any row read before, and the four raw writes: in a
  \<open>timely\<close> run these find the order in a status their handler had checked for.
\<close>

inductive interleaved :: "bool \<Rightarrow> world \<Rightarrow> world \<Rightarrow> bool" for timely w0 where
  i_nil: "interleaved timely w0 w0"
| i_api: "interleaved timely w0 w \<Longrightarrow> api_step w w' \<Longrightarrow> interleaved timely w0 w'"
| i_late: "interleaved timely w0 w \<Longrightarrow> late_commit w w' \<Longrightarrow> interleaved timely w0 w'"
| i_raw: "interleaved timely w0 w \<Longrightarrow> raw_commit i sts w w' \<Longrightarrow> timely \<longrightarrow> still sts i w \<Longrightarrow> interleaved timely w0 w'"

lemma late_commit_lawful:
  assumes "late_commit w w'" and "orders_distinct w"
  shows "orders_lawful w w' \<or> (\<exists>r. w_orders w' = w_orders w @ [r] \<and> (\<forall>x \<in> set (w_orders w). o_id x \<noteq> o_id r))"
proof -
  have upd: "orders_lawful w v" if "order_update i f w = Some v" "\<And>r. lawful r (f r)" for i f v
    using that by (auto simp: order_update_def intro!: orders_lawful_updateMany split: option.splits)
  note keeps = auto_refuse_keeps(2) promote_one_keeps(2) dispatchOrder_commit_keeps(2)
    initiateMomo_commit_keeps [OF assms(2), THEN conjunct1] resolveRiderFraud_commit_keeps [THEN conjunct2] settle_refund_keeps [THEN conjunct2]
  from assms(1) show ?thesis
  proof cases
    case (created order env lines cc now)
    then show ?thesis
      using createOrder_tx_rows [OF created(2), of env lines cc now] by (auto simp: orders_lawful_same)
  next
    case (refund_sent i code amt ref now)
    from refund_tx_Inr(2) [OF refund_sent] have "w_orders w' = upd_where (\<lambda>r. o_id r = i) (\<lambda>r. r\<lparr>o_refundCampayRef := Some ref\<rparr>) (w_orders w)"
      by simp
    then show ?thesis by (simp add: orders_lawful_def lawful.all2_upd)
  next
    case (refund_locked i now)
    then show ?thesis using orders_lawful_guarded by simp
  next
    case (refund_dropped i reason)
    then show ?thesis using upd by simp
  next
    case (refund_unpayable i)
    then show ?thesis using upd by simp
  qed (blast intro: lawful_intros keeps)+
qed

lemma late_commit_keeps:
  assumes "late_commit w w'" and "orders_distinct w"
  shows "rows_evolve lawful (w_orders w) (w_orders w') \<and> orders_distinct w'"
  using late_commit_lawful [OF assms]
proof
  assume k: "orders_lawful w w'"
  then show ?thesis
    using orders_lawful_distinct [OF k] assms(2) by (simp add: orders_lawful_def lawful.all2_evolve)
next
  assume "\<exists>r. w_orders w' = w_orders w @ [r] \<and> (\<forall>x \<in> set (w_orders w). o_id x \<noteq> o_id r)"
  then obtain r where r: "w_orders w' = w_orders w @ [r]" "\<forall>x \<in> set (w_orders w). o_id x \<noteq> o_id r" by blast
  then have "o_id r \<notin> o_id ` set (w_orders w)" by (metis imageE)
  then show ?thesis using r(1) assms(2) by (simp add: lawful.evolve_append orders_distinct_def)
qed

text \<open>Each raw write replaces the columns of one order; the agreed ones never, the status along the life cycle when it comes in time.\<close>

lemma raw_commit_writes:
  assumes "raw_commit i sts w w'"
  obtains g f where "w_orders w' = w_orders w \<or> w_orders w' = upd_where (\<lambda>r. o_id r = i \<and> g r) f (w_orders w)"
    and "\<And>r. same_deal r (f r)" and "\<And>r. o_status r \<in> set sts \<Longrightarrow> lawful r (f r)"
  using assms
proof cases
  case (paid order up ref ph now)
  have "w_orders w' = w_orders w \<or> w_orders w' =
      upd_where (\<lambda>r. o_id r = i \<and> o_paymentStatus r \<in> set AWAITING_PAYMENT) (payment_patch order ref ph now) (w_orders w)"
    using payment_commit_orders [of up order ref ph now w] paid by simp
  then show thesis
    by (rule that) (use paid in \<open>auto simp: same_deal_def intro!: payment_patch_lawful\<close>)
next
  case (prepared order iid p)
  define st where "st any = next_prep_status any (o_status order)" for any
  have st: "st any \<in> set IN_KITCHEN" for any using next_prep_status_kitchen [OF prepared(4)] by (simp add: st_def)
  have "\<exists>any. w_orders w' = w_orders w \<or> w_orders w' = upd_where (\<lambda>r. o_id r = i \<and> True) (\<lambda>r. r\<lparr>o_status := st any\<rparr>) (w_orders w)"
    unfolding prepared(1,3) st_def
    by (auto simp: setItemPrepared_commit_def Let_def order_update_def split: option.splits)
  then obtain any where "w_orders w' = w_orders w \<or> w_orders w' = upd_where (\<lambda>r. o_id r = i \<and> True) (\<lambda>r. r\<lparr>o_status := st any\<rparr>) (w_orders w)"
    by blast
  then show thesis
    by (rule that)
      (use st prepared reach_kitchen in \<open>auto simp: same_deal_def lawful_def frozen_def\<close>)
next
  case (picked order now)
  have "w_orders w' = w_orders w \<or> w_orders w' = upd_where (\<lambda>r. o_id r = i \<and> True) (pickup_patch now) (w_orders w)"
    using picked by (auto simp: markPickedUp_commit_def order_update_def split: option.splits)
  then show thesis
    by (rule that) (use picked pickup_lawful in \<open>auto simp: same_deal_def frozen_def pickup_patch_def\<close>)
next
  case (no_rider order now)
  let ?f = "no_rider_patch (o_paymentStatus order = PS_PAID) now"
  have "w_orders w' = w_orders w \<or> w_orders w' = upd_where (\<lambda>r. o_id r = i \<and> True) ?f (w_orders w)"
    using no_rider by (auto simp: expireForNoRider_commit_def order_update_def Let_def split: option.splits)
  then show thesis
    by (rule that) (use no_rider no_rider_lawful in \<open>auto simp: same_deal_def frozen_def no_rider_patch_def Let_def\<close>)
qed

lemma raw_commit_keeps:
  assumes "raw_commit i sts w w'" and "orders_distinct w"
  shows "list_all2 same_deal (w_orders w) (w_orders w')" and "still sts i w \<Longrightarrow> orders_lawful w w'" and "orders_distinct w'"
proof -
  obtain g f where w': "w_orders w' = w_orders w \<or> w_orders w' = upd_where (\<lambda>r. o_id r = i \<and> g r) f (w_orders w)"
    and deal: "\<And>r. same_deal r (f r)" and law: "\<And>r. o_status r \<in> set sts \<Longrightarrow> lawful r (f r)"
    by (rule raw_commit_writes [OF assms(1)]) blast
  show all: "list_all2 same_deal (w_orders w) (w_orders w')"
    using w' deal by (auto simp: same_deal.all2_refl intro!: same_deal.all2_upd)
  have "map o_id (w_orders w') = map o_id (w_orders w)"
    by (rule same_deal.all2_keys [OF all]) (simp add: same_deal_def frozen_def)
  then show "orders_distinct w'" using assms(2) by (simp add: orders_distinct_def)
  assume s: "still sts i w"
  have "lawful r (f r)" if "r \<in> set (w_orders w)" "o_id r = i" for r
    using s that order_in_by_id [OF assms(2)] by (auto simp: still_def intro!: law)
  then show "orders_lawful w w'"
    using w' by (auto simp: orders_lawful_def lawful.all2_refl intro!: lawful.all2_upd)
qed

lemma interleaved_keeps:
  assumes "interleaved timely w0 w" and "orders_distinct w0"
  shows "orders_distinct w \<and> rows_evolve same_deal (w_orders w0) (w_orders w)
    \<and> (timely \<longrightarrow> rows_evolve lawful (w_orders w0) (w_orders w))"
  using assms
proof (induction rule: interleaved.induct)
  case i_nil
  then show ?case by (simp add: lawful.evolve_refl same_deal.evolve_refl)
next
  case (i_api w w')
  then have d: "orders_distinct w" by blast
  note k = api_step_keeps(2,3) [OF i_api(2) d]
  show ?case using i_api k lawful_same_deal [OF k(1)] by (auto intro: lawful.evolve_trans same_deal.evolve_trans)
next
  case (i_late w w')
  then have d: "orders_distinct w" by blast
  from late_commit_keeps [OF i_late(2) d]
  have k: "rows_evolve lawful (w_orders w) (w_orders w')" "orders_distinct w'" by blast+
  show ?case using i_late k lawful_same_deal [OF k(1)] by (auto intro: lawful.evolve_trans same_deal.evolve_trans)
next
  case (i_raw w i sts w')
  then have d: "orders_distinct w" by blast
  note k = raw_commit_keeps [OF i_raw(2) d]
  have "rows_evolve lawful (w_orders w0) (w_orders w')" if timely
    using that i_raw k(2) by (auto simp: orders_lawful_def intro: lawful.evolve_trans lawful.all2_evolve)
  then show ?case
    using i_raw k(3) same_deal.all2_evolve [OF k(1)] by (auto intro: same_deal.evolve_trans)
qed

text \<open>
  C4.  However the handlers interleave, each write being computed from a row that may be out of date,
  an order is never lost and keeps the columns agreed at creation (prices, fee, discount, codes,
  address, owner, schedule).  Its status only moves along the life cycle, and once DELIVERED,
  CANCELLED, REFUSED or EXPIRED it stays that, as long as the four writes that do not name the status
  they replace (a payment, an item prepared, a pickup, giving up for want of a rider) find the
  order in a status their handler had checked for; the writes that do name it may come as late as
  they like.
\<close>

theorem orders_keep_their_deal:
  assumes "interleaved timely w0 w" and "orders_distinct w0" and "order_by_id i w0 = Some r"
  shows "\<exists>r'. order_by_id i w = Some r' \<and> frozen r' = frozen r
    \<and> (timely \<longrightarrow> reach (o_status r) (o_status r') \<and> (settled_status (o_status r) \<longrightarrow> o_status r' = o_status r))"
proof (cases timely)
  case True
  have ids: "\<And>a b. lawful a b \<Longrightarrow> o_id b = o_id a" by (simp add: lawful_def frozen_def)
  have "rows_evolve lawful (w_orders w0) (w_orders w)" using interleaved_keeps [OF assms(1,2)] True by blast
  then obtain r' where "find_row (\<lambda>r. o_id r = i) (w_orders w) = Some r'" "lawful r r'"
    by (rule lawful.evolve_row [where key = o_id and i = i and r = r]) (use assms(3) ids in \<open>auto simp: order_by_id_def\<close>)
  then show ?thesis using True reach_settled by (auto simp: order_by_id_def lawful_def)
next
  case False
  have ids: "\<And>a b. same_deal a b \<Longrightarrow> o_id b = o_id a" by (simp add: same_deal_def frozen_def)
  have "rows_evolve same_deal (w_orders w0) (w_orders w)" using interleaved_keeps [OF assms(1,2)] by blast
  then obtain r' where "find_row (\<lambda>r. o_id r = i) (w_orders w) = Some r'" "same_deal r r'"
    by (rule same_deal.evolve_row [where key = o_id and i = i and r = r]) (use assms(3) ids in \<open>auto simp: order_by_id_def\<close>)
  then show ?thesis using False by (auto simp: order_by_id_def same_deal_def)
qed

section \<open>Witnesses\<close>

definition start_world :: world where "start_world = demo_world [demo_order OS_PENDING PS_PENDING] []"

definition paid_world :: world where
  "paid_world = snd (onPaymentSucceeded True ''O'' ''PAY'' None 10 start_world)"

lemma start_world_simps [simp]:
  "orders_distinct start_world" "books_balanced start_world" "order_by_id ''O'' start_world = Some (demo_order OS_PENDING PS_PENDING)"
  by (simp_all add: start_world_def)

lemma demo_run: "run True start_world (snd (acceptOrder ''O'' ''U'' 20 paid_world))"
  unfolding paid_world_def
  by (rule run_api [OF run_paid [OF run_nil] vendor_accepts]) (simp add: on_time_def)

theorem books_always_balanced_witness:
  "length (w_ledger (snd (acceptOrder ''O'' ''U'' 20 paid_world))) = 2
   \<and> books_balanced (snd (acceptOrder ''O'' ''U'' 20 paid_world))"
proof -
  have "length (w_ledger (snd (acceptOrder ''O'' ''U'' 20 paid_world))) = 2"
    unfolding paid_world_def start_world_def by code_simp
  with books_always_balanced [OF demo_run] show ?thesis by simp
qed

text \<open>
  The vendor's acceptance is computed while the order is CONFIRMED; the consumer's cancellation is
  written first, and the acceptance then does not touch it.
\<close>

theorem orders_keep_their_deal_witness:
  "let w1 = snd (cancelOrder_commit (demo_order OS_CONFIRMED PS_PAID) 15 paid_world);
       w2 = snd (acceptOrder_commit (demo_order OS_CONFIRMED PS_PAID) 20 w1)
   in map_option o_status (order_by_id ''O'' w1) = Some OS_CANCELLED
      \<and> map_option o_status (order_by_id ''O'' w2) = Some OS_CANCELLED \<and> map_option o_totalXAF (order_by_id ''O'' w2) = Some 3150"
proof -
  define w1 where "w1 = snd (cancelOrder_commit (demo_order OS_CONFIRMED PS_PAID) 15 paid_world)"
  define w2 where "w2 = snd (acceptOrder_commit (demo_order OS_CONFIRMED PS_PAID) 20 w1)"
  have c: "map_option o_status (order_by_id ''O'' w1) = Some OS_CANCELLED"
    unfolding w1_def paid_world_def start_world_def by code_simp
  then obtain r where r: "order_by_id ''O'' w1 = Some r" "o_status r = OS_CANCELLED" by auto
  have d0: "orders_distinct paid_world"
    using run_keeps [OF run_paid [OF run_nil, of True "''O''" start_world]] by (simp add: paid_world_def on_time_def)
  have f0: "map_option o_totalXAF (order_by_id ''O'' w1) = Some 3150"
    unfolding w1_def paid_world_def start_world_def by code_simp
  have d1: "orders_distinct w1"
    using late_commit_keeps [OF late_commit.cancelled d0] unfolding w1_def by blast
  have "interleaved True w1 w2" unfolding w2_def by (rule i_late [OF i_nil late_commit.accepted])
  from orders_keep_their_deal [OF this d1 r(1)] obtain r' where
    "order_by_id ''O'' w2 = Some r'" "frozen r' = frozen r" "o_status r' = OS_CANCELLED" using r(2) by (auto simp: settled_status_def)
  then have "map_option o_status (order_by_id ''O'' w2) = Some OS_CANCELLED" "map_option o_totalXAF (order_by_id ''O'' w2) = Some 3150"
    using f0 r(1) by (simp_all add: frozen_def)
  with c show ?thesis by (simp add: Let_def w1_def w2_def)
qed

end
