(* ===== verification/Order_Table.thy ===== *)
theory Order_Table
  imports Lifecycle
begin

text \<open>
  The order table as the schema types it: unique ids, codes and idempotency keys, and totals that add
  up, in every run of the system.
\<close>

section \<open>A well-formed table\<close>

definition totals_ok :: "order \<Rightarrow> bool" where
  "totals_ok r \<longleftrightarrow> o_totalXAF r = o_subtotalXAF r + o_deliveryFeeXAF r - o_discountXAF r
     \<and> (o_couponCode r = None \<longrightarrow> o_discountXAF r = 0) \<and> 500 \<le> o_deliveryFeeXAF r"

definition idempotency_pair :: "order \<Rightarrow> uuid \<times> string option" where
  "idempotency_pair r = (o_userId r, o_idempotencyKey r)"

definition table_ok :: "order list \<Rightarrow> bool" where
  "table_ok rs \<longleftrightarrow> distinct (map o_id rs) \<and> distinct (map o_code rs)
     \<and> distinct (map idempotency_pair (filter (\<lambda>r. o_idempotencyKey r \<noteq> None) rs))
     \<and> (\<forall>r \<in> set rs. totals_ok r)"

lemma same_deal_columns:
  assumes "same_deal a b"
  shows "o_id b = o_id a" "o_code b = o_code a" "idempotency_pair b = idempotency_pair a"
    "o_idempotencyKey b = o_idempotencyKey a" "totals_ok b = totals_ok a"
  using assms by (auto simp: same_deal_def frozen_def idempotency_pair_def totals_ok_def)

lemma table_ok_same_deal:
  assumes "list_all2 same_deal rs rs'" and "table_ok rs"
  shows "table_ok rs'"
proof -
  have "map o_id rs' = map o_id rs" "map o_code rs' = map o_code rs"
    using assms(1) same_deal_columns by (auto intro: same_deal.all2_keys)
  moreover have "map idempotency_pair (filter (\<lambda>r. o_idempotencyKey r \<noteq> None) rs')
      = map idempotency_pair (filter (\<lambda>r. o_idempotencyKey r \<noteq> None) rs)"
    using assms(1) by (induction rule: list_all2_induct) (auto simp: same_deal_columns)
  moreover have "\<forall>r \<in> set rs'. totals_ok r"
  proof -
    have "list_all totals_ok rs' = list_all totals_ok rs"
      using assms(1) by (induction rule: list_all2_induct) (auto simp: same_deal_columns)
    then show ?thesis using assms(2) by (simp add: table_ok_def list_all_iff)
  qed
  ultimately show ?thesis using assms(2) by (simp add: table_ok_def)
qed

lemma table_ok_lawful: "orders_lawful w w' \<Longrightarrow> table_ok (w_orders w) \<Longrightarrow> table_ok (w_orders w')"
  by (rule table_ok_same_deal) (auto simp: orders_lawful_def lawful_def same_deal_def elim!: list_all2_mono)

lemma table_ok_add:
  assumes "table_ok rs" and "totals_ok r" and "\<forall>x \<in> set rs. o_id x \<noteq> o_id r \<and> o_code x \<noteq> o_code r"
    and "\<forall>x \<in> set rs. o_idempotencyKey r \<noteq> None \<longrightarrow> idempotency_pair x \<noteq> idempotency_pair r"
  shows "table_ok (rs @ [r])"
  using assms by (auto simp: table_ok_def)

section \<open>Creation keeps it\<close>

lemma new_order_totals: "totals_ok (new_order env u dto v st (computeDeliveryFeeXAF km) key now)"
  using delivery_fee_floor [of km] by (simp add: totals_ok_def new_order_def)

lemma createOrder_tx_table:
  assumes "table_ok (w_orders w)" and "\<forall>x \<in> set (w_orders w). o_id x \<noteq> o_id order" and "totals_ok order"
  shows "table_ok (w_orders (snd (createOrder_tx env order lines cc now w)))"
proof -
  have upd: "upd_where (\<lambda>x. o_id x = o_id order) (\<lambda>_. r) (w_orders w @ [order]) = w_orders w @ [r]" for r
    using upd_where_none [of "w_orders w" "\<lambda>x. o_id x = o_id order" "\<lambda>_. r"] assms(2)
    by (simp add: upd_where_def)
  have red: "w_orders w2 = w_orders v" if "redeemInTransaction c u i s f now v = (Inr rd, w2)"
    for c u i s f v rd w2
    using that by (auto simp: redeemInTransaction_def Let_def split: sum.splits if_splits)
  have add: "table_ok (w_orders w @ [r])"
    if "\<not> list_ex (\<lambda>x. o_code x = o_code order \<or> o_idempotencyKey order \<noteq> None \<and> o_userId x = o_userId order
          \<and> o_idempotencyKey x = o_idempotencyKey order) (w_orders w)"
      and "o_id r = o_id order" "o_code r = o_code order" "idempotency_pair r = idempotency_pair order"
        "o_idempotencyKey r = o_idempotencyKey order" "totals_ok r" for r
    by (rule table_ok_add [OF assms(1) that(6)]) (use that assms(2) in \<open>auto simp: list_ex_iff idempotency_pair_def\<close>)
  have "table_ok (w_orders w @ [order\<lparr>o_discountXAF := d, o_couponCode := Some c,
      o_totalXAF := o_subtotalXAF order + o_deliveryFeeXAF order - d\<rparr>])"
    if "\<not> list_ex (\<lambda>x. o_code x = o_code order \<or> o_idempotencyKey order \<noteq> None \<and> o_userId x = o_userId order
          \<and> o_idempotencyKey x = o_idempotencyKey order) (w_orders w)" for c d
    by (rule add [OF that]) (use assms(3) in \<open>simp_all add: totals_ok_def idempotency_pair_def\<close>)
  then show ?thesis
    using assms(1,3) add [of order]
    by (auto simp: createOrder_tx_def Let_def upd split: prod.splits sum.splits if_split_asm dest!: red)
qed

lemma createOrder_table:
  assumes "table_ok (w_orders w)" and "order_by_id (env_orderId env) w = None"
  shows "table_ok (w_orders (snd (createOrder env u dto key now w)))"
proof -
  have fresh: "\<forall>x \<in> set (w_orders w). o_id x \<noteq> env_orderId env"
    using assms(2) by (simp add: order_by_id_def find_row_None)
  have tx: "table_ok (w_orders (snd (createOrder_tx env (new_order env u dto v st (computeDeliveryFeeXAF km) key now) lines cc now w)))"
    for v st km lines cc
    by (rule createOrder_tx_table [OF assms(1) _ new_order_totals]) (use fresh in \<open>simp add: new_order_def\<close>)
  show ?thesis
    unfolding createOrder_def Let_def using tx assms(1)
    by (auto split: option.split sum.split if_split)
qed

section \<open>Every run keeps it\<close>

lemma table_ok_distinct: "table_ok (w_orders w) \<Longrightarrow> orders_distinct w"
  by (simp add: table_ok_def orders_distinct_def)

text \<open>
  C15.  From a well-formed order table every run of the system, late payments included, leads to a
  well-formed table: no two orders share an id or a code, no two orders of a user an idempotency key, and
  every order costs its items plus its fee less its discount, which is zero without a coupon.
\<close>

theorem order_table_well_formed:
  assumes "run timely w0 w" and "table_ok (w_orders w0)"
  shows "table_ok (w_orders w)"
  using assms
proof (induction rule: run.induct)
  case (run_api w w')
  then have ok: "table_ok (w_orders w)" by blast
  show ?case
    using api_step_moves [OF run_api(2) table_ok_distinct [OF ok]] table_ok_lawful [OF _ ok] createOrder_table [OF ok] by auto
next
  case (run_paid w oid up ref ph now)
  then show ?case using table_ok_same_deal [OF payment_deal] by blast
qed simp

theorem order_table_well_formed_witness: "table_ok (w_orders (snd (acceptOrder ''O'' ''U'' 20 paid_world)))"
  by (rule order_table_well_formed [OF demo_run])
    (simp add: start_world_def table_ok_def totals_ok_def demo_order_def)

end
