(* ===== verification/Cron_Liveness.thy ===== *)
theory Cron_Liveness
  imports Order_Timers
begin

text \<open>
  Progress of the crons that work a table off fifty rows at a time (\<open>orders/orders-expiry.service.ts\<close>,
  \<open>orders/pre-order-promotion.service.ts\<close>): with enough ticks nothing that was due stays behind,
  however the parties to an order interleave with them.
\<close>

section \<open>The contract of a batch cron\<close>

text \<open>
  \<open>due t r\<close>: the row waits for the cron at time \<open>t\<close>.  An event is a tick (\<open>tick_of e = Some t\<close>) or
  something else; no event makes a row due, and a tick takes fifty of the rows that are.
\<close>

locale batch_cron =
  fixes due :: "time \<Rightarrow> order \<Rightarrow> bool" and tick_of :: "'e \<Rightarrow> time option" and event_step :: "'e \<Rightarrow> world \<Rightarrow> world"
  assumes due_mono: "t \<le> t' \<Longrightarrow> due t r \<Longrightarrow> due t' r"
    and step_distinct: "orders_distinct w \<Longrightarrow> orders_distinct (event_step e w)"
    and never_adds: "orders_distinct w \<Longrightarrow>
      count_where (due t) (w_orders (event_step e w)) \<le> count_where (due t) (w_orders w)"
    and tick_takes: "orders_distinct w \<Longrightarrow> tick_of e = Some t \<Longrightarrow> t \<le> t' \<Longrightarrow>
      count_where (due t') (w_orders (event_step e w)) + min 50 (count_where (due t) (w_orders w))
      \<le> count_where (due t') (w_orders w)"
begin

lemma stays_drained:
  assumes "orders_distinct w" and "count_where (due t) (w_orders w) = 0"
  shows "count_where (due t) (w_orders (fold event_step es w)) = 0"
  using assms
proof (induction es arbitrary: w)
  case (Cons e es)
  have "count_where (due t) (w_orders (event_step e w)) = 0"
    using never_adds [OF Cons.prems(1), of t e] Cons.prems(2) by simp
  then show ?case using Cons.IH step_distinct [OF Cons.prems(1)] by simp
qed simp

lemma due_count_mono:
  assumes "t \<le> t'" and "count_where (due t') rs = 0"
  shows "count_where (due t) rs = 0"
  using assms due_mono by (auto simp: count_where_0)

lemma drains:
  assumes "orders_distinct w" and "\<forall>e \<in> set es. \<forall>t. tick_of e = Some t \<longrightarrow> t0 \<le> t \<and> t \<le> t1"
    and "count_where (due t1) (w_orders w) \<le> 50 * length (filter (\<lambda>e. tick_of e \<noteq> None) es)" and "t0 \<le> t1"
  shows "count_where (due t0) (w_orders (fold event_step es w)) = 0"
  using assms
proof (induction es arbitrary: w)
  case Nil
  then show ?case using due_count_mono [of t0 t1] by simp
next
  case (Cons e es)
  let ?w = "event_step e w"
  have d: "orders_distinct ?w" by (rule step_distinct [OF Cons.prems(1)])
  have less: "count_where (due t1) (w_orders ?w) \<le> count_where (due t1) (w_orders w)" by (rule never_adds [OF Cons.prems(1)])
  show ?case
  proof (cases "tick_of e")
    case None
    then show ?thesis using Cons.IH [OF d] Cons.prems less by simp
  next
    case (Some t)
    then have t: "t0 \<le> t" "t \<le> t1" using Cons.prems(2) by simp_all
    note takes = tick_takes [OF Cons.prems(1) Some]
    show ?thesis
    proof (cases "count_where (due t) (w_orders w) \<le> 50")
      case True
      then have "count_where (due t) (w_orders ?w) = 0" using takes [of t] by simp
      then have "count_where (due t0) (w_orders ?w) = 0" by (rule due_count_mono [OF t(1)])
      then show ?thesis using stays_drained [OF d] by simp
    next
      case False
      then have "count_where (due t1) (w_orders ?w) + 50 \<le> count_where (due t1) (w_orders w)"
        using takes [OF t(2)] by simp
      then show ?thesis using Cons.IH [OF d] Cons.prems Some by simp
    qed
  qed
qed

end

section \<open>Counting what a batch takes\<close>

lemma count_where_batch:
  assumes "distinct rs" and "distinct cs" and "set cs \<subseteq> {r \<in> set rs. p r}" and "\<And>r. \<not> p (f r)"
  shows "count_where p (upd_where (\<lambda>r. r \<in> set cs) f rs) + length cs = count_where p rs"
proof -
  have "count_where p (upd_where (\<lambda>r. r \<in> set cs) f xs) + length (filter (\<lambda>r. r \<in> set cs) xs) = count_where p xs"
    if "set cs \<inter> set xs \<subseteq> {r. p r}" for xs
    using that assms(4) by (induction xs) auto
  moreover have "length (filter (\<lambda>r. r \<in> set cs) rs) = length cs"
  proof -
    have "set (filter (\<lambda>r. r \<in> set cs) rs) = set cs" using assms(3) by auto
    then show ?thesis using assms(1,2) by (metis distinct_card distinct_filter)
  qed
  ultimately show ?thesis using assms(3) by (metis (no_types, lifting) Int_iff mem_Collect_eq subset_iff)
qed

lemma count_where_upd_le:
  assumes "\<And>r. \<not> p (f r)"
  shows "count_where p (upd_where q f rs) \<le> count_where p rs"
  using assms by (induction rs) auto

lemma length_find_many: "length (find_many n p rs) = min n (count_where p rs)"
  by (simp add: find_many_def count_where_def min.commute)

lemma orders_distinct_rows: "orders_distinct w \<Longrightarrow> distinct (w_orders w)"
  by (simp add: orders_distinct_def distinct_map)

lemma batch_taken:
  assumes "orders_distinct w" and "cs = find_many 50 p (w_orders w)" and "\<And>r. p r \<Longrightarrow> q r" and "\<And>r. \<not> q (f r)"
  shows "count_where q (upd_where (\<lambda>r. r \<in> set cs) f (w_orders w)) + min 50 (count_where p (w_orders w)) = count_where q (w_orders w)"
proof -
  have "distinct cs" using find_many_rows(1) [OF assms(1)] assms(2) by (auto simp: distinct_map)
  moreover have "set cs \<subseteq> {r \<in> set (w_orders w). q r}"
    using find_many_subset [of 50 p "w_orders w"] assms(2,3) by auto
  ultimately show ?thesis
    using count_where_batch [of "w_orders w" cs q f] orders_distinct_rows [OF assms(1)] assms(2,4)
    by (simp add: length_find_many)
qed

section \<open>The expiry cron among the parties\<close>

text \<open>Ticks of the cron and decisions of the vendor, the consumer and the delayed job, in any order.\<close>

datatype expiry_event =
    ExpiryTick time
  | Decision decision

fun expiry_tick :: "expiry_event \<Rightarrow> time option" where
  "expiry_tick (ExpiryTick t) = Some t"
| "expiry_tick (Decision d) = None"

fun expiry_step :: "expiry_event \<Rightarrow> world \<Rightarrow> world" where
  "expiry_step (ExpiryTick t) w = sweepExpired t w"
| "expiry_step (Decision d) w = (case decide d w of None \<Rightarrow> w | Some w1 \<Rightarrow> w1)"

definition same_or_decided :: "order \<Rightarrow> order \<Rightarrow> bool" where
  "same_or_decided r r' \<longleftrightarrow> r' = r \<or> o_id r' = o_id r \<and> o_status r' \<notin> set VENDOR_CAN_DECIDE"

interpretation decided: row_evolution same_or_decided
  by unfold_locales (auto simp: same_or_decided_def)

lemma decided_patches:
  "o_id (accept_patch now r) = o_id r" "o_status (accept_patch now r) \<notin> set VENDOR_CAN_DECIDE"
  "o_id (refuse_patch l now r) = o_id r" "o_status (refuse_patch l now r) \<notin> set VENDOR_CAN_DECIDE"
  "o_id (cancel_patch now r) = o_id r" "o_status (cancel_patch now r) \<notin> set VENDOR_CAN_DECIDE"
  by (simp_all add: accept_patch_def refuse_patch_def cancel_patch_def)

lemma decide_rows:
  assumes "decide d w = Some w'"
  obtains p f where "w_orders w' = upd_where p f (w_orders w)"
    and "\<forall>r. o_id (f r) = o_id r \<and> o_status (f r) \<notin> set VENDOR_CAN_DECIDE"
proof -
  have "\<exists>i g f w1. guarded_updateMany i g f w = Some w1 \<and> w_orders w' = w_orders w1
      \<and> (\<forall>r. o_id (f r) = o_id r \<and> o_status (f r) \<notin> set VENDOR_CAN_DECIDE)"
  proof (cases d)
    case (Accept order now)
    then obtain w1 where "guarded_updateMany (o_id order) (\<lambda>r. o_status r \<in> set VENDOR_CAN_DECIDE) (accept_patch now) w = Some w1"
      "w_orders w' = w_orders w1"
      using assms by (auto simp: acceptOrder_commit_def Let_def simp del: set_VENDOR_CAN_DECIDE split: option.splits)
    then show ?thesis using decided_patches(1,2) by blast
  next
    case (Refuse order reason nt now)
    then obtain w1 where "guarded_updateMany (o_id order) (\<lambda>r. o_status r \<in> set VENDOR_CAN_DECIDE)
        (refuse_patch (refuse_label reason nt) now) w = Some w1" "w_orders w' = w_orders w1"
      using assms by (auto simp: refuseOrder_commit_def Let_def simp del: set_VENDOR_CAN_DECIDE split: option.splits)
    then show ?thesis using decided_patches(3,4) by blast
  next
    case (Cancel order now)
    then obtain w1 where "guarded_updateMany (o_id order) (\<lambda>r. o_status r \<in> set CONSUMER_CAN_CANCEL) (cancel_patch now) w = Some w1"
      "w_orders w' = w_orders w1"
      using assms by (auto simp: cancelOrder_commit_def Let_def split: option.splits)
    then show ?thesis using decided_patches(5,6) by blast
  next
    case (Expire oid now)
    then obtain w1 where "guarded_updateMany oid (\<lambda>r. o_status r \<in> set VENDOR_CAN_DECIDE) (refuse_patch EXPIRED_REASON now) w = Some w1"
      "w_orders w' = w_orders w1"
      using assms by (auto simp: auto_refuse_def simp del: set_VENDOR_CAN_DECIDE split: option.splits)
    then show ?thesis using decided_patches(3,4) by blast
  qed
  then obtain i g f w1 where "guarded_updateMany i g f w = Some w1" "w_orders w' = w_orders w1"
    "\<forall>r. o_id (f r) = o_id r \<and> o_status (f r) \<notin> set VENDOR_CAN_DECIDE" by blast
  then show thesis using that [of "\<lambda>r. o_id r = i \<and> g r" f] guarded_Some [of i g f w w1] by simp
qed

lemma expired_undecided: "expired_candidate t r \<Longrightarrow> o_status r \<in> set VENDOR_CAN_DECIDE"
  by (simp add: expired_candidate_def)

lemma expired_mono: "t \<le> t' \<Longrightarrow> expired_candidate t r \<Longrightarrow> expired_candidate t' r"
  by (auto simp: expired_candidate_def simp del: set_VENDOR_CAN_DECIDE split: option.splits)

lemma refused_not_expired: "\<not> expired_candidate t (refuse_patch l now r)"
  using expired_undecided decided_patches(4) by blast

lemma sweepExpired_rows:
  assumes "orders_distinct w"
  shows "w_orders (sweepExpired t w) =
    upd_where (\<lambda>r. r \<in> set (find_many 50 (expired_candidate t) (w_orders w))) (refuse_patch EXPIRED_REASON t) (w_orders w)"
  using sweepExpired_facts [OF assms refl] by blast

lemma expiry_step_distinct:
  assumes "orders_distinct w"
  shows "orders_distinct (expiry_step e w)"
proof (cases e)
  case (ExpiryTick t)
  have "map o_id (w_orders (sweepExpired t w)) = map o_id (w_orders w)"
    unfolding sweepExpired_rows [OF assms] by (rule map_key_upd_where) (rule decided_patches)
  then show ?thesis using ExpiryTick assms by (simp add: orders_distinct_def)
next
  case (Decision d)
  then show ?thesis using assms decide_distinct [of d w] by (simp split: option.split)
qed

lemma expiry_step_rows:
  assumes "orders_distinct w"
  obtains p f where "w_orders (expiry_step e w) = upd_where p f (w_orders w)"
    and "\<forall>r. o_id (f r) = o_id r \<and> o_status (f r) \<notin> set VENDOR_CAN_DECIDE"
proof (cases e)
  case (ExpiryTick t)
  then show thesis
    using that decided_patches(3,4) sweepExpired_rows [OF assms, of t] by simp
next
  case (Decision d)
  show thesis
  proof (cases "decide d w")
    case None
    have "w_orders w = upd_where (\<lambda>r. False) (cancel_patch 0) (w_orders w)" by (simp add: upd_where_def)
    then show thesis using that decided_patches(5,6) Decision None by simp
  next
    case (Some w1)
    then obtain p f where "w_orders w1 = upd_where p f (w_orders w)"
      "\<forall>r. o_id (f r) = o_id r \<and> o_status (f r) \<notin> set VENDOR_CAN_DECIDE" by (rule decide_rows)
    then show thesis using that [of p f] Decision Some by simp
  qed
qed

interpretation expiry: batch_cron expired_candidate expiry_tick expiry_step
proof unfold_locales
  fix t t' :: time and r
  assume "t \<le> t'" "expired_candidate t r"
  then show "expired_candidate t' r" by (rule expired_mono)
next
  fix w e
  assume "orders_distinct w"
  then show "orders_distinct (expiry_step e w)" by (rule expiry_step_distinct)
next
  fix w e t
  assume "orders_distinct w"
  then obtain p f where rows: "w_orders (expiry_step e w) = upd_where p f (w_orders w)"
    and f: "\<forall>r. o_id (f r) = o_id r \<and> o_status (f r) \<notin> set VENDOR_CAN_DECIDE"
    by (rule expiry_step_rows [where e = e])
  show "count_where (expired_candidate t) (w_orders (expiry_step e w)) \<le> count_where (expired_candidate t) (w_orders w)"
    unfolding rows by (rule count_where_upd_le) (use f expired_undecided in blast)
next
  fix w e t t'
  assume d: "orders_distinct w" and e: "expiry_tick e = Some t" and t: "t \<le> t'"
  have "e = ExpiryTick t" using e by (cases e) simp_all
  then show "count_where (expired_candidate t') (w_orders (expiry_step e w))
      + min 50 (count_where (expired_candidate t) (w_orders w)) \<le> count_where (expired_candidate t') (w_orders w)"
    using batch_taken [OF d refl, where p = "expired_candidate t" and q = "expired_candidate t'"
        and f = "refuse_patch EXPIRED_REASON t", OF expired_mono [OF t] refused_not_expired] by (simp add: sweepExpired_rows [OF d])
qed

lemma expiry_rows_decided:
  assumes "orders_distinct w"
  shows "list_all2 same_or_decided (w_orders w) (w_orders (fold expiry_step es w))"
  using assms
proof (induction es arbitrary: w)
  case Nil
  then show ?case by (simp add: decided.all2_refl)
next
  case (Cons e es)
  obtain p f where "w_orders (expiry_step e w) = upd_where p f (w_orders w)"
    "\<forall>r. o_id (f r) = o_id r \<and> o_status (f r) \<notin> set VENDOR_CAN_DECIDE"
    by (rule expiry_step_rows [OF Cons.prems, where e = e])
  then have "list_all2 same_or_decided (w_orders w) (w_orders (expiry_step e w))"
    by (simp add: decided.all2_upd same_or_decided_def del: set_VENDOR_CAN_DECIDE)
  then show ?case
    using decided.all2_trans Cons.IH [OF expiry_step_distinct [OF Cons.prems]] by simp
qed

text \<open>
  C16.  The expiry cron drains its backlog: whatever accepts, refusals, cancellations and delayed jobs
  are interleaved with its ticks, once there were enough ticks for the orders that are overdue at the end
  (fifty a tick), every order that was overdue and undecided when the ticks began has been decided.
\<close>

theorem expiry_cron_drains:
  assumes "orders_distinct w" and "\<forall>e \<in> set es. \<forall>t. expiry_tick e = Some t \<longrightarrow> t0 \<le> t \<and> t \<le> t1" and "t0 \<le> t1"
    and "count_where (expired_candidate t1) (w_orders w) \<le> 50 * length (filter (\<lambda>e. expiry_tick e \<noteq> None) es)"
    and "order_by_id i w = Some r" and "expired_candidate t0 r"
  shows "\<exists>r'. order_by_id i (fold expiry_step es w) = Some r' \<and> o_status r' \<notin> set VENDOR_CAN_DECIDE"
proof -
  have ids: "\<And>a b. same_or_decided a b \<Longrightarrow> o_id b = o_id a" by (auto simp: same_or_decided_def)
  obtain r' where r': "find_row (\<lambda>r. o_id r = i) (w_orders (fold expiry_step es w)) = Some r'" "same_or_decided r r'"
    by (rule decided.evolve_row [OF decided.all2_evolve [OF expiry_rows_decided [OF assms(1), of es]], where key = o_id and i = i and r = r])
      (use assms(5) ids in \<open>auto simp: order_by_id_def\<close>)
  have "count_where (expired_candidate t0) (w_orders (fold expiry_step es w)) = 0"
    by (rule expiry.drains [OF assms(1,2,4,3)])
  then have "\<not> expired_candidate t0 r'" using find_row_Some [OF r'(1)] by (auto simp: count_where_0)
  then show ?thesis using r' assms(6) by (auto simp: same_or_decided_def order_by_id_def simp del: set_VENDOR_CAN_DECIDE)
qed

theorem expiry_cron_drains_witness:
  "\<exists>r'. order_by_id ''O'' (fold expiry_step [Decision (Expire ''X'' 8), ExpiryTick 9]
       (demo_world [(demo_order OS_CONFIRMED PS_PAID)\<lparr>o_acceptanceDeadlineAt := Some 8\<rparr>] [])) = Some r'
     \<and> o_status r' \<notin> set VENDOR_CAN_DECIDE"
  by (rule expiry_cron_drains [where ?t0.0 = 9 and ?t1.0 = 9
        and r = "(demo_order OS_CONFIRMED PS_PAID)\<lparr>o_acceptanceDeadlineAt := Some 8\<rparr>"])
    (simp_all add: orders_distinct_def expired_candidate_def order_by_id_def)

section \<open>The promotion cron\<close>

lemma promoted_not_due: "\<not> promotion_candidate t (promote_patch now r)"
  by (simp add: promotion_candidate_def promotable_def promote_patch_def)

lemma promotion_rows:
  assumes "orders_distinct w"
  shows "w_orders (promotion_sweep t w) =
    upd_where (\<lambda>r. r \<in> set (find_many 50 (promotion_candidate t) (w_orders w))) (promote_patch t) (w_orders w)"
proof -
  have f: "promote_patch t = (\<lambda>r. r\<lparr>o_acceptanceDeadlineAt := Some (t + 60000)\<rparr>)"
    by (rule ext) (simp add: promote_patch_def ACCEPTANCE_TTL_SECONDS_def)
  show ?thesis
    using promotion_sweep_facts [OF assms refl refl] unfolding f by blast
qed

interpretation promotion_cron: batch_cron promotion_candidate "\<lambda>t. Some t" promotion_sweep
proof unfold_locales
  fix t t' :: time and r
  assume "t \<le> t'" "promotion_candidate t r"
  then show "promotion_candidate t' r" by (auto simp: promotion_candidate_def split: option.splits)
next
  fix w t
  assume d: "orders_distinct w"
  have "map o_id (w_orders (promotion_sweep t w)) = map o_id (w_orders w)"
    unfolding promotion_rows [OF d] by (rule map_key_upd_where) (simp add: promote_patch_def)
  then show "orders_distinct (promotion_sweep t w)" using d by (simp add: orders_distinct_def)
  show "count_where (promotion_candidate t') (w_orders (promotion_sweep t w)) \<le> count_where (promotion_candidate t') (w_orders w)" for t'
    unfolding promotion_rows [OF d] by (rule count_where_upd_le) (rule promoted_not_due)
next
  fix w and e t t' :: time
  assume d: "orders_distinct w" and e: "Some e = Some t" and t: "t \<le> t'"
  have mono: "promotion_candidate t r \<Longrightarrow> promotion_candidate t' r" for r
    using t by (auto simp: promotion_candidate_def split: option.splits)
  show "count_where (promotion_candidate t') (w_orders (promotion_sweep e w))
      + min 50 (count_where (promotion_candidate t) (w_orders w)) \<le> count_where (promotion_candidate t') (w_orders w)"
    using batch_taken [OF d refl, where p = "promotion_candidate t" and q = "promotion_candidate t'"
        and f = "promote_patch t", OF mono promoted_not_due] e by (simp add: promotion_rows [OF d])
qed

text \<open>Enough ticks of the promotion cron leave no pre-order that was due without its window.\<close>

lemma promotion_cron_drains:
  assumes "orders_distinct w" and "\<forall>t \<in> set ts. t0 \<le> t \<and> t \<le> t1" and "t0 \<le> t1"
    and "count_where (promotion_candidate t1) (w_orders w) \<le> 50 * length ts"
  shows "\<forall>r \<in> set (w_orders (fold promotion_sweep ts w)). \<not> promotion_candidate t0 r"
  using promotion_cron.drains [OF assms(1), of ts t0 t1] assms(2-4) by (simp add: count_where_0)

end
