(* ===== verification/Text_Codecs.thy ===== *)
theory Text_Codecs
  imports Text_Utils
begin

text \<open>
  The encodings of the repository that must be read back: HTML escaping of the texts that go into the
  alert mails (\<open>escapeHtml\<close> of \<open>auth/device.service.ts\<close>), hexadecimal, and the envelope in which a
  TOTP secret rests (\<open>shared/crypto/secret-envelope.ts\<close>; AES-256-GCM itself is a parameter).
\<close>

section \<open>Splitting\<close>

fun split_on :: "char \<Rightarrow> string \<Rightarrow> string list" where
  "split_on c [] = [[]]"
| "split_on c (x # xs) =
     (if x = c then [] # split_on c xs
      else case split_on c xs of [] \<Rightarrow> [[x]] | p # ps \<Rightarrow> (x # p) # ps)"

lemma split_on_free: "c \<notin> set s \<Longrightarrow> split_on c s = [s]"
  by (induction s) auto

lemma split_on_append: "c \<notin> set s \<Longrightarrow> split_on c (s @ c # t) = s # split_on c t"
  by (induction s) auto

definition occurs :: "string \<Rightarrow> string \<Rightarrow> bool" where
  "occurs pat s = (\<exists>i \<in> set [0..<Suc (length s)]. take (length pat) (drop i s) = pat)"

definition starts_with :: "string \<Rightarrow> string \<Rightarrow> bool" where
  "starts_with pat s = (take (length pat) s = pat)"

definition to_lower :: "string \<Rightarrow> string" where
  "to_lower = map (\<lambda>c. let n = of_char c :: nat in if 65 \<le> n \<and> n \<le> 90 then char_of (n + 32) else c)"

section \<open>HTML\<close>

text \<open>\<open>s.replace(/c/g, r)\<close> for one character.\<close>

definition replace_all :: "char \<Rightarrow> string \<Rightarrow> string \<Rightarrow> string" where
  "replace_all c r s = concat (map (\<lambda>x. if x = c then r else [x]) s)"

definition escapeHtml :: "string \<Rightarrow> string" where
  "escapeHtml s =
     replace_all (CHR 0x27) ''&#39;'' (replace_all (CHR 0x22) ''&quot;''
       (replace_all (CHR ''>'') ''&gt;'' (replace_all (CHR ''<'') ''&lt;''
         (replace_all (CHR ''&'') ''&amp;'' s))))"

text \<open>The entity of one character: what the five passes amount to.\<close>

definition entity :: "char \<Rightarrow> string" where
  "entity c =
     (if c = CHR ''&'' then ''&amp;'' else if c = CHR ''<'' then ''&lt;'' else if c = CHR ''>'' then ''&gt;''
      else if c = CHR 0x22 then ''&quot;'' else if c = CHR 0x27 then ''&#39;'' else [c])"

lemma replace_all_simps [simp]:
  "replace_all c r [] = []"
  "replace_all c r (x # xs) = (if x = c then r else [x]) @ replace_all c r xs"
  by (simp_all add: replace_all_def)

lemma replace_all_append [simp]: "replace_all c r (xs @ ys) = replace_all c r xs @ replace_all c r ys"
  by (simp add: replace_all_def)

lemma escapeHtml_pointwise: "escapeHtml s = concat (map entity s)"
  by (induction s) (simp_all add: escapeHtml_def entity_def)

text \<open>How a browser reads the five entities back.\<close>

fun unescapeHtml :: "string \<Rightarrow> string" where
  "unescapeHtml [] = []"
| "unescapeHtml (c # s) =
     (if c \<noteq> CHR ''&'' then c # unescapeHtml s
      else if starts_with ''amp;'' s then CHR ''&'' # unescapeHtml (drop 4 s)
      else if starts_with ''lt;'' s then CHR ''<'' # unescapeHtml (drop 3 s)
      else if starts_with ''gt;'' s then CHR ''>'' # unescapeHtml (drop 3 s)
      else if starts_with ''quot;'' s then CHR 0x22 # unescapeHtml (drop 5 s)
      else if starts_with ''#39;'' s then CHR 0x27 # unescapeHtml (drop 4 s)
      else c # unescapeHtml s)"

lemma unescape_entity: "unescapeHtml (entity c @ s) = c # unescapeHtml s"
  by (simp add: entity_def starts_with_def)

lemma escapeHtml_no_markup: "set (escapeHtml s) \<inter> set [CHR ''<'', CHR ''>'', CHR 0x22, CHR 0x27] = {}"
  unfolding escapeHtml_pointwise by (induction s) (auto simp: entity_def)

text \<open>
  Escaping loses nothing and lets no markup through: reading the five entities back gives the
  text, and the escaped text has no angle bracket and no quote.
\<close>

theorem escapeHtml_roundtrip:
  "unescapeHtml (escapeHtml s) = s
   \<and> set (escapeHtml s) \<inter> set [CHR ''<'', CHR ''>'', CHR 0x22, CHR 0x27] = {}"
proof
  show "unescapeHtml (escapeHtml s) = s"
    by (induction s) (simp_all add: escapeHtml_pointwise unescape_entity)
qed (rule escapeHtml_no_markup)

section \<open>Hexadecimal\<close>

definition hex_digit :: "nat \<Rightarrow> char" where
  "hex_digit n = char_of (if n < 10 then 48 + n else 87 + n)"

definition hex_value :: "char \<Rightarrow> nat option" where
  "hex_value c =
     (let n = of_char c
      in if 48 \<le> n \<and> n \<le> 57 then Some (n - 48) else if 97 \<le> n \<and> n \<le> 102 then Some (n - 87)
         else if 65 \<le> n \<and> n \<le> 70 then Some (n - 55) else None)"

definition hex_encode :: "string \<Rightarrow> string" where
  "hex_encode s = concat (map (\<lambda>c. [hex_digit (of_char c div 16), hex_digit (of_char c mod 16)]) s)"

text \<open>\<open>Buffer.from(s, 'hex')\<close> stops at the first pair that is not hexadecimal.\<close>

fun hex_decode :: "string \<Rightarrow> string" where
  "hex_decode (a # b # s) =
     (case (hex_value a, hex_value b) of
        (Some h, Some l) \<Rightarrow> char_of (16 * h + l) # hex_decode s
      | _ \<Rightarrow> [])"
| "hex_decode _ = []"

lemma hex_value_digit: "n < 16 \<Longrightarrow> hex_value (hex_digit n) = Some n"
  by (auto simp: hex_value_def hex_digit_def Let_def)

lemma of_char_lt: "(of_char c :: nat) < 256"
  using of_nat_of_char [of c, where ?'a = nat] by (simp add: nat_of_char_less_256)

lemma of_char_div_lt: "(of_char c :: nat) div 16 < 16"
  by (rule less_mult_imp_div_less) (use of_char_lt [of c] in simp)

lemma hex_roundtrip: "hex_decode (hex_encode s) = s"
proof (induction s)
  case (Cons c s)
  have "hex_value (hex_digit (of_char c div 16)) = Some (of_char c div 16)"
    by (rule hex_value_digit [OF of_char_div_lt])
  then show ?case using Cons by (simp add: hex_encode_def hex_value_digit)
qed (simp add: hex_encode_def)

lemma hex_no_dot: "CHR ''.'' \<notin> set (hex_encode s)"
proof -
  have "hex_digit n \<noteq> CHR ''.''" if "n < 16" for n
    using hex_value_digit [OF that] by (auto simp: hex_value_def)
  then have "hex_digit (of_char c div 16) \<noteq> CHR ''.''" "hex_digit (of_char c mod 16) \<noteq> CHR ''.''" for c
    using of_char_div_lt [of c] by simp_all
  then show ?thesis by (induction s) (auto simp: hex_encode_def dest: not_sym)
qed

lemma length_hex_encode [simp]: "length (hex_encode s) = 2 * length s"
  by (induction s) (simp_all add: hex_encode_def)

section \<open>The secret envelope\<close>

definition AUTH_TAG_LENGTH :: nat where "AUTH_TAG_LENGTH = 16"

text \<open>
  \<open>derive\<close> is sha256 of the pass phrase, \<open>enc key iv plain\<close> gives ciphertext and tag, and
  \<open>dec key iv tag cipher\<close> is \<open>None\<close> when the tag does not authenticate; an empty pass phrase throws.
\<close>

definition deriveKey :: "(string \<Rightarrow> string) \<Rightarrow> string \<Rightarrow> string option" where
  "deriveKey derive passphrase = (if passphrase = [] then None else Some (derive passphrase))"

definition encryptSecret ::
  "(string \<Rightarrow> string) \<Rightarrow> (string \<Rightarrow> string \<Rightarrow> string \<Rightarrow> string \<times> string) \<Rightarrow> string \<Rightarrow> string \<Rightarrow> string \<Rightarrow> string option" where
  "encryptSecret derive enc iv plaintext passphrase =
     (case deriveKey derive passphrase of
        None \<Rightarrow> None
      | Some key \<Rightarrow>
          (case enc key iv plaintext of
             (ciphertext, authTag) \<Rightarrow>
               Some (hex_encode iv @ ''.'' @ hex_encode authTag @ ''.'' @ hex_encode ciphertext)))"

definition decryptSecret ::
  "(string \<Rightarrow> string) \<Rightarrow> (string \<Rightarrow> string \<Rightarrow> string \<Rightarrow> string \<Rightarrow> string option) \<Rightarrow> string \<Rightarrow> string \<Rightarrow> string option" where
  "decryptSecret derive dec envelope passphrase =
     (case split_on (CHR ''.'') envelope of
        [ivHex, authTagHex, ciphertextHex] \<Rightarrow>
          (case deriveKey derive passphrase of
             None \<Rightarrow> None
           | Some key \<Rightarrow>
               if length (hex_decode authTagHex) \<noteq> AUTH_TAG_LENGTH then None
               else dec key (hex_decode ivHex) (hex_decode authTagHex) (hex_decode ciphertextHex))
      | _ \<Rightarrow> None)"

text \<open>The documented behaviour of AES-256-GCM: decryption inverts encryption, tags are 16 bytes.\<close>

definition gcm_sound ::
  "(string \<Rightarrow> string \<Rightarrow> string \<Rightarrow> string \<times> string) \<Rightarrow> (string \<Rightarrow> string \<Rightarrow> string \<Rightarrow> string \<Rightarrow> string option) \<Rightarrow> bool" where
  "gcm_sound enc dec \<longleftrightarrow>
     (\<forall>k iv x. length (snd (enc k iv x)) = 16 \<and> dec k iv (snd (enc k iv x)) (fst (enc k iv x)) = Some x)"

lemma envelope_parts:
  "split_on (CHR ''.'') (hex_encode a @ ''.'' @ hex_encode b @ ''.'' @ hex_encode c) = [hex_encode a, hex_encode b, hex_encode c]"
  using split_on_append [OF hex_no_dot [of a], of "hex_encode b @ ''.'' @ hex_encode c"]
    split_on_append [OF hex_no_dot [of b], of "hex_encode c"] by (simp add: split_on_free hex_no_dot)

text \<open>
  A secret that was sealed under a pass phrase is read back from its envelope, and an envelope
  that lost a part or whose tag was cut is refused, whatever the cipher would say.
\<close>

theorem envelope_roundtrip:
  assumes "gcm_sound enc dec" and "passphrase \<noteq> []"
  shows "(\<exists>e. encryptSecret derive enc iv x passphrase = Some e \<and> decryptSecret derive dec e passphrase = Some x)
    \<and> (length (split_on (CHR ''.'') y) \<noteq> 3 \<longrightarrow> decryptSecret derive dec y passphrase = None)
    \<and> (length t \<noteq> 16 \<longrightarrow> decryptSecret derive dec (hex_encode iv @ ''.'' @ hex_encode t @ ''.'' @ hex_encode x) passphrase = None)"
proof (intro conjI impI)
  obtain c tag where e: "enc (derive passphrase) iv x = (c, tag)" by (metis prod.collapse)
  have "length tag = 16" "dec (derive passphrase) iv tag c = Some x"
    using assms(1) e unfolding gcm_sound_def by (metis fst_conv snd_conv)+
  then show "\<exists>e. encryptSecret derive enc iv x passphrase = Some e \<and> decryptSecret derive dec e passphrase = Some x"
    using e assms(2) envelope_parts
    by (auto simp: encryptSecret_def decryptSecret_def deriveKey_def hex_roundtrip AUTH_TAG_LENGTH_def)
  show "decryptSecret derive dec y passphrase = None" if "length (split_on (CHR ''.'') y) \<noteq> 3"
    using that by (auto simp: decryptSecret_def split: list.splits)
  show "decryptSecret derive dec (hex_encode iv @ ''.'' @ hex_encode t @ ''.'' @ hex_encode x) passphrase = None"
    if "length t \<noteq> 16"
    using that envelope_parts
    by (simp add: decryptSecret_def deriveKey_def hex_roundtrip AUTH_TAG_LENGTH_def)
qed

text \<open>A cipher for the example: the tag repeats the key.\<close>

definition toy_encrypt :: "string \<Rightarrow> string \<Rightarrow> string \<Rightarrow> string \<times> string" where
  "toy_encrypt k iv x = (x, take 16 (k @ replicate 16 (CHR ''t'')))"

definition toy_decrypt :: "string \<Rightarrow> string \<Rightarrow> string \<Rightarrow> string \<Rightarrow> string option" where
  "toy_decrypt k iv tag c = (if tag = take 16 (k @ replicate 16 (CHR ''t'')) then Some c else None)"

lemma gcm_sound_toy: "gcm_sound toy_encrypt toy_decrypt"
proof -
  have "length (take 16 (k @ replicate 16 (CHR ''t''))) = 16" for k :: string by simp
  then show ?thesis unfolding gcm_sound_def toy_encrypt_def toy_decrypt_def by simp
qed

theorem envelope_roundtrip_witness:
  "\<exists>e. encryptSecret id toy_encrypt ''iv'' ''s3cret'' ''K'' = Some e
     \<and> decryptSecret id toy_decrypt e ''K'' = Some ''s3cret''"
  using envelope_roundtrip [OF gcm_sound_toy, of "''K''" id "''iv''" "''s3cret''" "[]" "[]"] by simp

end
