(* ===== verification/Accounts.thy ===== *)
theory Accounts
  imports Redis Text_Codecs
begin

text \<open>
  The identity side of the schema (\<open>prisma/schema.prisma\<close>: \<open>User\<close>, \<open>OtpLog\<close>, \<open>RefreshToken\<close>,
  \<open>Device\<close>, \<open>AdminTotpSecret\<close>, \<open>AdminRecoveryCode\<close>) next to the marketplace world, and what the
  services take from outside the repository: the password hash (argon2), the JWT signature, the
  digest (sha256), the authenticator check (otplib) and the secret envelope (AES-GCM) are fields of
  \<open>auth_env\<close>, with \<open>sound_env\<close> their documented behaviour; the values drawn at random for one
  request are the fields of \<open>draws\<close>.
\<close>

section \<open>Rows\<close>

datatype OtpChannel = WHATSAPP | SMS
datatype OtpStatus = OTP_PENDING | OTP_SENT | OTP_DELIVERED | OTP_VERIFIED | OTP_EXPIRED | OTP_FAILED

record user =
  us_id :: uuid
  us_phone :: "string option"
  us_email :: "string option"
  us_passwordHash :: "string option"
  us_displayName :: "string option"
  us_role :: UserRole
  us_isActive :: bool
  us_isDeleted :: bool

record otp_log =
  ol_id :: uuid
  ol_phone :: string
  ol_channel :: OtpChannel
  ol_status :: OtpStatus
  ol_codeHash :: string
  ol_attempts :: nat
  ol_expiresAt :: time
  ol_deliveredAt :: "time option"
  ol_verifiedAt :: "time option"
  ol_failedReason :: "string option"
  ol_providerMessageId :: "string option"
  ol_createdAt :: time

record refresh_token =
  rt_id :: uuid
  rt_userId :: uuid
  rt_deviceId :: "uuid option"
  rt_tokenHash :: string
  rt_expiresAt :: time
  rt_revokedAt :: "time option"
  rt_replacedBy :: "uuid option"
  rt_createdAt :: time

record device =
  dv_id :: uuid
  dv_userId :: uuid
  dv_userAgentHash :: "string option"
  dv_userAgentLabel :: "string option"
  dv_ipAddress :: "string option"
  dv_firstSeenAt :: time
  dv_lastSeenAt :: time

record totp_secret =
  ts_userId :: uuid
  ts_secret :: string
  ts_confirmedAt :: "time option"

record recovery_code =
  rc_id :: uuid
  rc_userId :: uuid
  rc_codeHash :: string
  rc_consumedAt :: "time option"

record auth_world =
  a_users :: "user list"
  a_otps :: "otp_log list"
  a_tokens :: "refresh_token list"
  a_devices :: "device list"
  a_totp :: "totp_secret list"
  a_recovery :: "recovery_code list"
  a_world :: world

definition on_world :: "(world \<Rightarrow> world) \<Rightarrow> auth_world \<Rightarrow> auth_world" where
  "on_world f w = w\<lparr>a_world := f (a_world w)\<rparr>"

lemma on_world_sel [simp]:
  "a_users (on_world f w) = a_users w" "a_otps (on_world f w) = a_otps w"
  "a_tokens (on_world f w) = a_tokens w" "a_devices (on_world f w) = a_devices w"
  "a_totp (on_world f w) = a_totp w" "a_recovery (on_world f w) = a_recovery w"
  "a_world (on_world f w) = f (a_world w)"
  by (simp_all add: on_world_def)

section \<open>What the services are given\<close>

record device_meta =
  deviceCookie :: "string option"
  ipAddress :: "string option"
  userAgent :: "string option"

record auth_env =
  jwtAccessSecret :: string
  jwtRefreshSecret :: string
  jwtAccessTtl :: string
  jwtRefreshTtl :: string
  jwtAdminRefreshTtl :: string
  nodeEnv :: string
  secretEnvelopeKey :: string
  jwt_sign :: "string \<Rightarrow> uuid \<Rightarrow> UserRole \<Rightarrow> string \<Rightarrow> uuid \<Rightarrow> time \<Rightarrow> string"
  jwt_verify :: "string \<Rightarrow> time \<Rightarrow> string \<Rightarrow> uuid option"
  argon2_hash :: "string \<Rightarrow> string \<Rightarrow> string"
  argon2_verify :: "string \<Rightarrow> string \<Rightarrow> bool"
  sha256 :: "string \<Rightarrow> string"
  totp_check :: "string \<Rightarrow> string \<Rightarrow> time \<Rightarrow> bool"
  gcm_encrypt :: "string \<Rightarrow> string \<Rightarrow> string \<Rightarrow> string \<times> string"
  gcm_decrypt :: "string \<Rightarrow> string \<Rightarrow> string \<Rightarrow> string \<Rightarrow> string option"

text \<open>The random draws of one request: two JWT ids, a salt, the ids of the
  rows it may create and the number behind a one-time code.\<close>

record draws =
  accessJti :: uuid
  refreshJti :: uuid
  drawnSalt :: string
  newTokenId :: uuid
  newDeviceId :: uuid
  newUserId :: uuid
  newOtpId :: uuid
  codeDraw :: nat

text \<open>argon2: a hash verifies against the string it was made from and against no other.\<close>

definition sound_env :: "auth_env \<Rightarrow> bool" where
  "sound_env env = (\<forall>s x y. argon2_verify env (argon2_hash env s x) y \<longleftrightarrow> x = y)"

lemma sound_envD [simp]: "sound_env env \<Longrightarrow> argon2_verify env (argon2_hash env s x) y \<longleftrightarrow> x = y"
  by (simp add: sound_env_def)

section \<open>A concrete instance for the examples\<close>

definition demo_env :: auth_env where
  "demo_env = \<lparr>jwtAccessSecret = ''A'', jwtRefreshSecret = ''R'', jwtAccessTtl = ''15m'',
     jwtRefreshTtl = ''30d'', jwtAdminRefreshTtl = ''24h'', nodeEnv = ''production'', secretEnvelopeKey = ''K'',
     jwt_sign = (\<lambda>sec sub role ttl jti now. sec @ sub @ jti), jwt_verify = (\<lambda>sec now t. Some (butlast (tl t))),
     argon2_hash = (\<lambda>s x. x @ s), argon2_verify = (\<lambda>h x. butlast h = x),
     sha256 = (\<lambda>x. x), totp_check = (\<lambda>code secret now. code = secret),
     gcm_encrypt = toy_encrypt, gcm_decrypt = toy_decrypt\<rparr>"

definition plain_env :: auth_env where
  "plain_env = demo_env\<lparr>argon2_hash := (\<lambda>s x. CHR ''h'' # x), argon2_verify := (\<lambda>h x. h = CHR ''h'' # x)\<rparr>"

lemma sound_plain_env: "sound_env plain_env"
  by (simp add: sound_env_def plain_env_def)

definition demo_user :: user where
  "demo_user = \<lparr>us_id = ''U'', us_phone = Some ''+237670000000'', us_email = None, us_passwordHash = None,
     us_displayName = None, us_role = CONSUMER, us_isActive = True, us_isDeleted = False\<rparr>"

definition demo_auth :: "user list \<Rightarrow> otp_log list \<Rightarrow> refresh_token list \<Rightarrow> auth_world" where
  "demo_auth us os ts = \<lparr>a_users = us, a_otps = os, a_tokens = ts, a_devices = [], a_totp = [],
     a_recovery = [], a_world = demo_world [] []\<rparr>"

end
