(* ===== verification/Sessions.thy ===== *)
theory Sessions
  imports Accounts
begin

text \<open>
  Sessions: \<open>auth/device.service.ts\<close> (the device a sign-in is pinned to) and the token half of
  \<open>auth/auth.service.ts\<close>: issuing, rotation with reuse detection, log-out on one device and on all
  of them.  One call of an operation is one step; the in-flight lock of \<open>refresh\<close> is a Redis key of
  the world, so a second request that arrives while the first is running is a \<open>refresh\<close> in a world
  that holds the key.
\<close>

section \<open>Devices\<close>

text \<open>
  \<open>summarizeUserAgent\<close>: the regular expressions are plain substrings, except \<open>/iPhone|iPad/\<close>.
\<close>

definition summarizeUserAgent :: "string \<Rightarrow> string" where
  "summarizeUserAgent ua =
     (let trimmed = trim ua;
          platform = (if occurs ''iPhone'' trimmed \<or> occurs ''iPad'' trimmed then Some ''iPhone/iPad''
                      else if occurs ''Android'' trimmed then Some ''Android''
                      else if occurs ''Macintosh'' trimmed then Some ''Mac''
                      else if occurs ''Windows NT'' trimmed then Some ''Windows''
                      else if occurs ''Linux'' trimmed then Some ''Linux''
                      else None);
          browser = (if occurs ''CriOS'' trimmed then Some ''Chrome''
                     else if occurs ''FxiOS'' trimmed then Some ''Firefox''
                     else if occurs ''Edg/'' trimmed then Some ''Edge''
                     else if occurs ''Chrome/'' trimmed then Some ''Chrome''
                     else if occurs ''Firefox/'' trimmed then Some ''Firefox''
                     else if occurs ''Safari/'' trimmed then Some ''Safari''
                     else None)
      in case (platform, browser) of
           (Some p, Some b) \<Rightarrow> b @ '' sur '' @ p
         | (Some p, None) \<Rightarrow> p
         | (None, Some b) \<Rightarrow> b
         | (None, None) \<Rightarrow> take 80 trimmed)"

definition seen_device :: "auth_env \<Rightarrow> device_meta \<Rightarrow> time \<Rightarrow> device \<Rightarrow> device" where
  "seen_device env m now d = d\<lparr>
     dv_userAgentHash := if falsy (userAgent m) then None else map_option (sha256 env) (userAgent m),
     dv_userAgentLabel := if falsy (userAgent m) then None else map_option summarizeUserAgent (userAgent m),
     dv_ipAddress := ipAddress m, dv_lastSeenAt := now\<rparr>"

definition fresh_device :: "auth_env \<Rightarrow> draws \<Rightarrow> uuid \<Rightarrow> device_meta \<Rightarrow> time \<Rightarrow> device" where
  "fresh_device env rnd userId m now = seen_device env m now
     \<lparr>dv_id = newDeviceId rnd, dv_userId = userId, dv_userAgentHash = None, dv_userAgentLabel = None,
      dv_ipAddress = None, dv_firstSeenAt = now, dv_lastSeenAt = now\<rparr>"

text \<open>The device and whether it was just created (\<open>isNew\<close>).\<close>

definition resolveDevice ::
  "auth_env \<Rightarrow> draws \<Rightarrow> uuid \<Rightarrow> device_meta \<Rightarrow> time \<Rightarrow> auth_world \<Rightarrow> (device \<times> bool) \<times> auth_world" where
  "resolveDevice env rnd userId m now w =
     (let created = fresh_device env rnd userId m now;
          create = ((created, True), w\<lparr>a_devices := a_devices w @ [created]\<rparr>)
      in if falsy (deviceCookie m) then create
         else case find_row (\<lambda>d. Some (dv_id d) = deviceCookie m \<and> dv_userId d = userId) (a_devices w) of
                None \<Rightarrow> create
              | Some d \<Rightarrow> ((seen_device env m now d, False),
                  w\<lparr>a_devices := upd_where (\<lambda>x. dv_id x = dv_id d) (seen_device env m now) (a_devices w)\<rparr>))"

lemma resolveDevice_frame [simp]:
  "a_users (snd (resolveDevice env rnd u m now w)) = a_users w"
  "a_otps (snd (resolveDevice env rnd u m now w)) = a_otps w"
  "a_tokens (snd (resolveDevice env rnd u m now w)) = a_tokens w"
  "a_totp (snd (resolveDevice env rnd u m now w)) = a_totp w"
  "a_recovery (snd (resolveDevice env rnd u m now w)) = a_recovery w"
  "a_world (snd (resolveDevice env rnd u m now w)) = a_world w"
  by (auto simp: resolveDevice_def Let_def split: option.splits)

lemma seen_device_sel [simp]:
  "dv_id (seen_device env m now d) = dv_id d" "dv_userId (seen_device env m now d) = dv_userId d"
  by (simp_all add: seen_device_def)

text \<open>A cookie never attaches a session to somebody else's device.\<close>

lemma resolveDevice_owner: "dv_userId (fst (fst (resolveDevice env rnd u m now w))) = u"
  by (auto simp: resolveDevice_def fresh_device_def Let_def split: option.splits dest: find_row_Some)

section \<open>Issuing\<close>

record issued_tokens =
  accessToken :: string
  refreshToken :: string
  deviceId :: uuid

definition mint_refresh :: "auth_env \<Rightarrow> draws \<Rightarrow> uuid \<Rightarrow> UserRole \<Rightarrow> string \<Rightarrow> time \<Rightarrow> string" where
  "mint_refresh env rnd userId role ttl now =
     jwt_sign env (jwtRefreshSecret env) userId role ttl (refreshJti rnd) now"

definition new_token_row ::
  "auth_env \<Rightarrow> draws \<Rightarrow> uuid \<Rightarrow> uuid option \<Rightarrow> string \<Rightarrow> int \<Rightarrow> time \<Rightarrow> refresh_token" where
  "new_token_row env rnd userId dev raw ttlMs now =
     \<lparr>rt_id = newTokenId rnd, rt_userId = userId, rt_deviceId = dev,
      rt_tokenHash = argon2_hash env (drawnSalt rnd) raw, rt_expiresAt = now + ttlMs,
      rt_revokedAt = None, rt_replacedBy = None, rt_createdAt = now\<rparr>"

text \<open>
  The transaction: insert the new row (primary key and hash are unique), then revoke the replaced
  one (P2025 when it is gone); either failure rolls both back.
\<close>

definition rotate_tx ::
  "refresh_token \<Rightarrow> uuid option \<Rightarrow> time \<Rightarrow> auth_world \<Rightarrow> (unit, auth_world) outcome" where
  "rotate_tx row replaces now w =
     (if \<exists>r \<in> set (a_tokens w). rt_id r = rt_id row \<or> rt_tokenHash r = rt_tokenHash row
      then (Inl (PrismaError ''P2002''), w)
      else let ts = a_tokens w @ [row]
           in if falsy replaces then (Inr (), w\<lparr>a_tokens := ts\<rparr>)
              else case find_row (\<lambda>r. Some (rt_id r) = replaces) ts of
                     None \<Rightarrow> (Inl (PrismaError ''P2025''), w)
                   | Some _ \<Rightarrow> (Inr (), w\<lparr>a_tokens := upd_where (\<lambda>r. Some (rt_id r) = replaces)
                       (\<lambda>r. r\<lparr>rt_revokedAt := Some now, rt_replacedBy := Some (rt_id row)\<rparr>) ts\<rparr>))"

definition signTokens ::
  "auth_env \<Rightarrow> draws \<Rightarrow> uuid \<Rightarrow> UserRole \<Rightarrow> uuid option \<Rightarrow> uuid option \<Rightarrow> string option \<Rightarrow> time \<Rightarrow> auth_world
   \<Rightarrow> (issued_tokens, auth_world) outcome" where
  "signTokens env rnd userId role replaces dev ttlOverride now w =
     (let refreshTtl = (case ttlOverride of Some t \<Rightarrow> t | None \<Rightarrow> jwtRefreshTtl env);
          access = jwt_sign env (jwtAccessSecret env) userId role (jwtAccessTtl env) (accessJti rnd) now;
          raw = mint_refresh env rnd userId role refreshTtl now
      in case parseDurationMs refreshTtl of
           None \<Rightarrow> (Inl (UpstreamError (''Invalid duration: '' @ refreshTtl)), w)
         | Some ttlMs \<Rightarrow>
             (case rotate_tx (new_token_row env rnd userId dev raw ttlMs now) replaces now w of
                (Inl e, w') \<Rightarrow> (Inl e, w')
              | (Inr _, w') \<Rightarrow> (Inr \<lparr>accessToken = access, refreshToken = raw,
                                  deviceId = (case dev of Some d \<Rightarrow> d | None \<Rightarrow> [])\<rparr>, w')))"

definition issueAdminSession ::
  "auth_env \<Rightarrow> draws \<Rightarrow> uuid \<Rightarrow> UserRole \<Rightarrow> device_meta \<Rightarrow> time \<Rightarrow> auth_world
   \<Rightarrow> (issued_tokens, auth_world) outcome" where
  "issueAdminSession env rnd userId role m now w =
     (case resolveDevice env rnd userId m now w of
        ((d, _), w1) \<Rightarrow>
          signTokens env rnd userId role None (Some (dv_id d)) (Some (jwtAdminRefreshTtl env)) now w1)"

section \<open>Revoking\<close>

text \<open>\<open>updateMany({ where: { userId, revokedAt: null }, data: { revokedAt: now } })\<close>.\<close>

definition family_active :: "uuid \<Rightarrow> refresh_token \<Rightarrow> bool" where
  "family_active userId r \<longleftrightarrow> rt_userId r = userId \<and> rt_revokedAt r = None"

definition revoke_family :: "uuid \<Rightarrow> time \<Rightarrow> auth_world \<Rightarrow> auth_world" where
  "revoke_family userId now w =
     w\<lparr>a_tokens := upd_where (family_active userId) (\<lambda>r. r\<lparr>rt_revokedAt := Some now\<rparr>) (a_tokens w)\<rparr>"

definition revokeAllSessions :: "uuid \<Rightarrow> time \<Rightarrow> auth_world \<Rightarrow> nat \<times> auth_world" where
  "revokeAllSessions userId now w =
     (count_where (family_active userId) (a_tokens w), revoke_family userId now w)"

text \<open>\<open>jwt_verify\<close> is \<open>verifyAsync\<close>: \<open>None\<close> for an expired or malformed token, else its \<open>sub\<close>.\<close>

definition logout :: "auth_env \<Rightarrow> string \<Rightarrow> time \<Rightarrow> auth_world \<Rightarrow> auth_world" where
  "logout env raw now w =
     (case jwt_verify env (jwtRefreshSecret env) now raw of
        None \<Rightarrow> w
      | Some userId \<Rightarrow>
          (case find_row (\<lambda>r. family_active userId r \<and> argon2_verify env (rt_tokenHash r) raw) (a_tokens w) of
             None \<Rightarrow> w
           | Some row \<Rightarrow> w\<lparr>a_tokens := upd_where (\<lambda>r. rt_id r = rt_id row)
                            (\<lambda>r. r\<lparr>rt_revokedAt := Some now\<rparr>) (a_tokens w)\<rparr>))"

section \<open>Rotation\<close>

definition REFRESH_INFLIGHT_LOCK_SECONDS :: int where "REFRESH_INFLIGHT_LOCK_SECONDS = 5"

definition refresh_lockKey :: "auth_env \<Rightarrow> string \<Rightarrow> string" where
  "refresh_lockKey env raw = ''refresh:inflight:'' @ take 32 (sha256 env raw)"

text \<open>Newest first; equal creation times keep the order of the table.\<close>

definition refresh_candidates :: "uuid \<Rightarrow> time \<Rightarrow> auth_world \<Rightarrow> refresh_token list" where
  "refresh_candidates userId now w =
     sort_key (\<lambda>r. - rt_createdAt r) (filter (\<lambda>r. rt_userId r = userId \<and> now < rt_expiresAt r) (a_tokens w))"

definition device_mismatch :: "refresh_token \<Rightarrow> device_meta \<Rightarrow> bool" where
  "device_mismatch r m \<longleftrightarrow> \<not> falsy (rt_deviceId r) \<and> \<not> falsy (deviceCookie m) \<and> rt_deviceId r \<noteq> deviceCookie m"

definition refresh_locked ::
  "auth_env \<Rightarrow> draws \<Rightarrow> uuid \<Rightarrow> UserRole \<Rightarrow> string \<Rightarrow> device_meta \<Rightarrow> time \<Rightarrow> auth_world
   \<Rightarrow> (issued_tokens, auth_world) outcome" where
  "refresh_locked env rnd userId role raw m now w =
     (case find_row (\<lambda>r. argon2_verify env (rt_tokenHash r) raw) (refresh_candidates userId now w) of
        None \<Rightarrow> (Inl (Unauthorized ''refresh_invalid_or_expired''), w)
      | Some matched \<Rightarrow>
          if rt_revokedAt matched \<noteq> None
          then (Inl (Unauthorized ''refresh_reuse_detected''), revoke_family userId now w)
          else if device_mismatch matched m
          then (Inl (Unauthorized ''refresh_device_mismatch''), revoke_family userId now w)
          else (case resolveDevice env rnd userId m now w of
                  ((d, _), w1) \<Rightarrow>
                    signTokens env rnd userId role (Some (rt_id matched)) (Some (dv_id d)) None now w1))"

definition usable_account :: "uuid \<Rightarrow> auth_world \<Rightarrow> bool" where
  "usable_account userId w =
     (case find_row (\<lambda>u. us_id u = userId) (a_users w) of
        None \<Rightarrow> False | Some u \<Rightarrow> us_isActive u \<and> \<not> us_isDeleted u)"

definition refresh ::
  "auth_env \<Rightarrow> draws \<Rightarrow> uuid \<Rightarrow> UserRole \<Rightarrow> string \<Rightarrow> device_meta \<Rightarrow> time \<Rightarrow> auth_world
   \<Rightarrow> (issued_tokens, auth_world) outcome" where
  "refresh env rnd userId role raw m now w =
     (if \<not> usable_account userId w
      then (Inl (Unauthorized ''user_suspended''), revoke_family userId now w)
      else case setNX (refresh_lockKey env raw) ''1'' REFRESH_INFLIGHT_LOCK_SECONDS now (a_world w) of
             (False, _) \<Rightarrow> (Inl (Unauthorized ''refresh_in_flight''), w)
           | (True, locked) \<Rightarrow>
               (case refresh_locked env rnd userId role raw m now (w\<lparr>a_world := locked\<rparr>) of
                  (res, w') \<Rightarrow> (res, on_world (redis_del (refresh_lockKey env raw)) w')))"

text \<open>\<open>RefreshJwtStrategy\<close>: the cookie wins over the body; then the revocation list is consulted.\<close>

definition extractRefreshToken :: "string option \<Rightarrow> string option \<Rightarrow> string option" where
  "extractRefreshToken cookie body =
     (if \<not> falsy cookie then cookie else if \<not> falsy body then body else None)"

definition refresh_validate ::
  "string option \<Rightarrow> string option \<Rightarrow> uuid \<Rightarrow> UserRole \<Rightarrow> time \<Rightarrow> auth_world \<Rightarrow> http_error + (uuid \<times> UserRole \<times> string)" where
  "refresh_validate cookie body sub role now w =
     (case extractRefreshToken cookie body of
        None \<Rightarrow> Inl (Unauthorized ''refresh_invalid_or_expired'')
      | Some raw \<Rightarrow>
          if isRevoked sub now (a_world w) then Inl (Unauthorized ''account_suspended'') else Inr (sub, role, raw))"

definition refreshCookieMaxAgeSeconds :: "auth_env \<Rightarrow> string option \<Rightarrow> int option" where
  "refreshCookieMaxAgeSeconds env ttlOverride =
     map_option (\<lambda>ms. ms div 1000) (parseDurationMs (case ttlOverride of Some t \<Rightarrow> t | None \<Rightarrow> jwtRefreshTtl env))"

section \<open>Lookups in the token table\<close>

text \<open>
  \<open>r\<close> is the row of the presented token: it belongs to the user, has not expired, and is the only
  row whose hash verifies against the token.
\<close>

definition presents :: "auth_env \<Rightarrow> uuid \<Rightarrow> string \<Rightarrow> time \<Rightarrow> refresh_token \<Rightarrow> auth_world \<Rightarrow> bool" where
  "presents env u raw now r w \<longleftrightarrow>
     r \<in> set (a_tokens w) \<and> rt_userId r = u \<and> now < rt_expiresAt r
     \<and> (\<forall>x \<in> set (a_tokens w). argon2_verify env (rt_tokenHash x) raw \<longleftrightarrow> x = r)"

lemma find_row_only:
  assumes "r \<in> set xs" and "P r" and "\<And>x. x \<in> set xs \<Longrightarrow> P x \<Longrightarrow> x = r"
  shows "find_row P xs = Some r"
proof (cases "find_row P xs")
  case None
  then show ?thesis using assms(1,2) by (simp add: find_row_None)
next
  case (Some y)
  then show ?thesis using assms(3) [of y] find_row_Some [OF Some] by simp
qed

lemma presents_candidate:
  assumes "presents env u raw now r w"
  shows "find_row (\<lambda>x. argon2_verify env (rt_tokenHash x) raw) (refresh_candidates u now w) = Some r"
  by (rule find_row_only) (use assms in \<open>auto simp: presents_def refresh_candidates_def\<close>)

lemma on_lock [simp]:
  "a_tokens (w\<lparr>a_world := x\<rparr>) = a_tokens w" "a_users (w\<lparr>a_world := x\<rparr>) = a_users w"
  "refresh_candidates u now (w\<lparr>a_world := x\<rparr>) = refresh_candidates u now w"
  by (simp_all add: refresh_candidates_def)

lemma revoke_family_tokens:
  "a_tokens (revoke_family u now w) =
   upd_where (family_active u) (\<lambda>r. r\<lparr>rt_revokedAt := Some now\<rparr>) (a_tokens w)"
  by (simp add: revoke_family_def)

lemma revoked_family:
  "r \<in> set (a_tokens (revoke_family u now w)) \<Longrightarrow> rt_userId r = u \<Longrightarrow> rt_revokedAt r \<noteq> None"
  unfolding revoke_family_tokens upd_where_def set_map
  by (erule imageE) (auto simp: family_active_def split: if_splits)

lemma other_family:
  assumes "v \<noteq> u"
  shows "filter (\<lambda>r. rt_userId r = v) (a_tokens (revoke_family u now w)) = filter (\<lambda>r. rt_userId r = v) (a_tokens w)"
proof -
  have "filter (\<lambda>r. rt_userId r = v) (upd_where (family_active u) (\<lambda>r. r\<lparr>rt_revokedAt := Some now\<rparr>) ts)
      = filter (\<lambda>r. rt_userId r = v) ts" for ts
  proof (induction ts)
    case (Cons a ts)
    then show ?case using assms by (cases "family_active u a") (simp_all add: family_active_def)
  qed simp
  then show ?thesis by (simp add: revoke_family_tokens)
qed

text \<open>What \<open>refresh\<close> does once the account is usable and the lock is won.\<close>

lemma refresh_unlocked:
  assumes "usable_account u w" and "redis_get (refresh_lockKey env raw) now (a_world w) = None"
  shows "\<exists>locked. refresh env rnd u role raw m now w =
     (fst (refresh_locked env rnd u role raw m now (w\<lparr>a_world := locked\<rparr>)),
      on_world (redis_del (refresh_lockKey env raw)) (snd (refresh_locked env rnd u role raw m now (w\<lparr>a_world := locked\<rparr>))))"
  using assms by (intro exI [of _ "setWithTTL (refresh_lockKey env raw) ''1'' REFRESH_INFLIGHT_LOCK_SECONDS now (a_world w)"])
    (simp add: refresh_def setNX_def split_beta)

section \<open>Properties of rotation\<close>

definition replaced :: "time \<Rightarrow> uuid \<Rightarrow> refresh_token \<Rightarrow> refresh_token" where
  "replaced now new r = r\<lparr>rt_revokedAt := Some now, rt_replacedBy := Some new\<rparr>"

lemma rotate_tx_replaces:
  assumes "r \<in> set (a_tokens w)" and "rt_id r \<noteq> []"
    and "\<forall>x \<in> set (a_tokens w). rt_id x \<noteq> rt_id row \<and> rt_tokenHash x \<noteq> rt_tokenHash row"
  shows "rotate_tx row (Some (rt_id r)) now w =
     (Inr (), w\<lparr>a_tokens := upd_where (\<lambda>x. rt_id x = rt_id r) (replaced now (rt_id row)) (a_tokens w) @ [row]\<rparr>)"
proof -
  have "find_row (\<lambda>x. Some (rt_id x) = Some (rt_id r)) (a_tokens w @ [row]) \<noteq> None"
    using assms(1) by (auto simp: find_row_None)
  moreover have "rt_id row \<noteq> rt_id r" using assms by auto
  ultimately show ?thesis
    using assms by (auto simp: rotate_tx_def Let_def upd_where_def replaced_def [abs_def] split: option.splits)
qed

lemma signTokens_ok:
  assumes "parseDurationMs ttl = Some ms" and "ttl = (case ovr of Some t \<Rightarrow> t | None \<Rightarrow> jwtRefreshTtl env)"
    and "rotate_tx (new_token_row env rnd u dev (mint_refresh env rnd u role ttl now) ms now) rep now w = (Inr (), w')"
  shows "signTokens env rnd u role rep dev ovr now w =
     (Inr \<lparr>accessToken = jwt_sign env (jwtAccessSecret env) u role (jwtAccessTtl env) (accessJti rnd) now,
        refreshToken = mint_refresh env rnd u role ttl now, deviceId = (case dev of Some d \<Rightarrow> d | None \<Rightarrow> [])\<rparr>, w')"
  using assms by (cases ovr) (auto simp: signTokens_def Let_def)

lemma count_replaced:
  assumes "distinct (map rt_id ts)" and "r \<in> set ts" and "rt_revokedAt r = None"
  shows "count_where (family_active v) (upd_where (\<lambda>x. rt_id x = rt_id r) (replaced now new) ts)
         + (if rt_userId r = v then 1 else 0) = count_where (family_active v) ts"
  using assms
proof (induction ts)
  case (Cons a ts)
  have same: "upd_where (\<lambda>x. rt_id x = rt_id r) (replaced now new) ts = ts" if "a = r"
  proof -
    have "\<forall>x \<in> set ts. rt_id x \<noteq> rt_id r" using Cons.prems(1) that by (auto simp: image_iff)
    then show ?thesis by (simp add: upd_where_def map_idI)
  qed
  show ?case
  proof (cases "a = r")
    case True
    then have "upd_where (\<lambda>x. rt_id x = rt_id r) (replaced now new) (a # ts) = replaced now new r # ts"
      using same by simp
    then show ?thesis using True Cons.prems(3) by (simp only:) (simp add: family_active_def replaced_def)
  next
    case False
    then have "r \<in> set ts" "rt_id a \<noteq> rt_id r" using Cons.prems by auto
    then show ?thesis using Cons by auto
  qed
qed simp

lemma refresh_rotates_facts:
  assumes env: "sound_env env" "parseDurationMs (jwtRefreshTtl env) = Some ms"
    and free: "usable_account u w" "redis_get (refresh_lockKey env raw) now (a_world w) = None"
    and row: "presents env u raw now r w" "rt_revokedAt r = None" "\<not> device_mismatch r m" "rt_id r \<noteq> []"
    and ids: "distinct (map rt_id (a_tokens w))"
    and fresh: "\<forall>x \<in> set (a_tokens w). rt_id x \<noteq> newTokenId rnd
       \<and> rt_tokenHash x \<noteq> argon2_hash env (drawnSalt rnd) (mint_refresh env rnd u role (jwtRefreshTtl env) now)"
  shows "\<exists>t new w'. refresh env rnd u role raw m now w = (Inr t, w')
     \<and> a_tokens w' = upd_where (\<lambda>x. rt_id x = rt_id r) (replaced now (rt_id new)) (a_tokens w) @ [new]
     \<and> rt_userId new = u \<and> rt_revokedAt new = None \<and> rt_expiresAt new = now + ms
     \<and> (\<forall>x. argon2_verify env (rt_tokenHash new) x \<longleftrightarrow> x = refreshToken t)
     \<and> (\<forall>v. count_where (family_active v) (a_tokens w') = count_where (family_active v) (a_tokens w))
     \<and> redis_get (refresh_lockKey env raw) now (a_world w') = None"
proof -
  obtain locked where L: "refresh env rnd u role raw m now w =
     (fst (refresh_locked env rnd u role raw m now (w\<lparr>a_world := locked\<rparr>)),
      on_world (redis_del (refresh_lockKey env raw)) (snd (refresh_locked env rnd u role raw m now (w\<lparr>a_world := locked\<rparr>))))"
    using refresh_unlocked [OF free] by blast
  let ?w = "w\<lparr>a_world := locked\<rparr>"
  obtain d b w1 where D: "resolveDevice env rnd u m now ?w = ((d, b), w1)"
    by (metis prod.collapse)
  have w1: "a_tokens w1 = a_tokens w" using resolveDevice_frame(3) [of env rnd u m now ?w] D by simp
  let ?raw = "mint_refresh env rnd u role (jwtRefreshTtl env) now"
  let ?new = "new_token_row env rnd u (Some (dv_id d)) ?raw ms now"
  have r: "r \<in> set (a_tokens w1)" using row(1) w1 by (simp add: presents_def)
  let ?w2 = "w1\<lparr>a_tokens := upd_where (\<lambda>x. rt_id x = rt_id r) (replaced now (rt_id ?new)) (a_tokens w1) @ [?new]\<rparr>"
  have "rotate_tx ?new (Some (rt_id r)) now w1 = (Inr (), ?w2)"
    by (rule rotate_tx_replaces [OF r row(4)]) (use fresh w1 in \<open>auto simp: new_token_row_def\<close>)
  from signTokens_ok [where ovr = None, OF env(2) _ this]
  obtain t where T: "signTokens env rnd u role (Some (rt_id r)) (Some (dv_id d)) None now w1 = (Inr t, ?w2)"
    "refreshToken t = ?raw" by simp
  have "refresh_locked env rnd u role raw m now ?w = (Inr t, ?w2)"
    using presents_candidate [OF row(1)] row(2,3) D T(1) by (simp add: refresh_locked_def)
  with L have R: "refresh env rnd u role raw m now w = (Inr t, on_world (redis_del (refresh_lockKey env raw)) ?w2)"
    by simp
  have c: "count_where (family_active v) (a_tokens ?w2) = count_where (family_active v) (a_tokens w)" for v
    using count_replaced [OF ids _ row(2), of v now "rt_id ?new"] r row(1) w1
    by (auto simp: new_token_row_def family_active_def presents_def)
  show ?thesis
    by (rule exI [of _ t], rule exI [of _ ?new], rule exI [of _ "on_world (redis_del (refresh_lockKey env raw)) ?w2"])
       (use R c w1 T(2) env(1) in \<open>auto simp: new_token_row_def\<close>)
qed

text \<open>
  C13.  Presenting a live refresh token of a usable account rotates it: the caller gets a new pair, the
  old row is revoked and points to its successor, the successor is the only row added and its hash
  verifies against the token handed out, no other row changes, the user (and everybody else) has
  exactly as many live sessions as before, and the in-flight lock is free again.
\<close>

theorem refresh_rotates:
  assumes env: "sound_env env" "parseDurationMs (jwtRefreshTtl env) = Some ms"
    and free: "usable_account u w" "redis_get (refresh_lockKey env raw) now (a_world w) = None"
    and row: "presents env u raw now r w" "rt_revokedAt r = None" "\<not> device_mismatch r m" "rt_id r \<noteq> []"
    and ids: "distinct (map rt_id (a_tokens w))"
    and fresh: "\<forall>x \<in> set (a_tokens w). rt_id x \<noteq> newTokenId rnd
       \<and> rt_tokenHash x \<noteq> argon2_hash env (drawnSalt rnd) (mint_refresh env rnd u role (jwtRefreshTtl env) now)"
  shows "\<exists>t new w'. refresh env rnd u role raw m now w = (Inr t, w')
     \<and> a_tokens w' = upd_where (\<lambda>x. rt_id x = rt_id r) (replaced now (rt_id new)) (a_tokens w) @ [new]
     \<and> rt_userId new = u \<and> rt_revokedAt new = None \<and> rt_expiresAt new = now + ms
     \<and> (\<forall>x. argon2_verify env (rt_tokenHash new) x \<longleftrightarrow> x = refreshToken t)
     \<and> (\<forall>v. count_where (family_active v) (a_tokens w') = count_where (family_active v) (a_tokens w))
     \<and> redis_get (refresh_lockKey env raw) now (a_world w') = None"
  by (rule refresh_rotates_facts [OF assms])

definition demo_draws :: draws where
  "demo_draws = \<lparr>accessJti = ''a'', refreshJti = ''b'', drawnSalt = [], newTokenId = ''T2'', newDeviceId = ''D'',
     newUserId = ''V'', newOtpId = ''O'', codeDraw = 7\<rparr>"

definition demo_token :: refresh_token where
  "demo_token = \<lparr>rt_id = ''T1'', rt_userId = ''U'', rt_deviceId = None, rt_tokenHash = ''hold'', rt_expiresAt = 1000,
     rt_revokedAt = None, rt_replacedBy = None, rt_createdAt = 0\<rparr>"

definition no_meta :: device_meta where
  "no_meta = \<lparr>deviceCookie = None, ipAddress = None, userAgent = None\<rparr>"

lemma plain_env_ttl: "parseDurationMs (jwtRefreshTtl plain_env) = Some 2592000000"
  by code_simp

theorem refresh_rotates_witness:
  "\<exists>t w'. refresh plain_env demo_draws ''U'' CONSUMER ''old'' no_meta 5 (demo_auth [demo_user] [] [demo_token]) = (Inr t, w')
     \<and> length (a_tokens w') = 2 \<and> count_where (family_active ''U'') (a_tokens w') = 1"
proof -
  let ?w = "demo_auth [demo_user] [] [demo_token]"
  obtain t new w' where *: "refresh plain_env demo_draws ''U'' CONSUMER ''old'' no_meta 5 ?w = (Inr t, w')"
      "a_tokens w' = upd_where (\<lambda>x. rt_id x = rt_id demo_token) (replaced 5 (rt_id new)) (a_tokens ?w) @ [new]"
      "\<forall>v. count_where (family_active v) (a_tokens w') = count_where (family_active v) (a_tokens ?w)"
    using refresh_rotates [OF sound_plain_env plain_env_ttl, of "''U''" ?w "''old''" 5 demo_token no_meta demo_draws CONSUMER]
    by (auto simp: usable_account_def demo_auth_def demo_user_def demo_world_def redis_get_def kv_get_def
        presents_def demo_token_def device_mismatch_def no_meta_def plain_env_def demo_env_def demo_draws_def
        mint_refresh_def)
  then show ?thesis by (auto simp: demo_auth_def demo_token_def family_active_def)
qed

text \<open>The two ways \<open>refresh\<close> recognises a stolen token end in the same state.\<close>

lemma refresh_compromised:
  assumes "usable_account u w" and "redis_get (refresh_lockKey env raw) now (a_world w) = None"
    and "presents env u raw now r w" and "rt_revokedAt r \<noteq> None \<or> device_mismatch r m"
  shows "\<exists>code w'. refresh env rnd u role raw m now w = (Inl (Unauthorized code), w')
     \<and> code = (if rt_revokedAt r \<noteq> None then ''refresh_reuse_detected'' else ''refresh_device_mismatch'')
     \<and> a_tokens w' = a_tokens (revoke_family u now w)"
proof -
  obtain locked where L: "refresh env rnd u role raw m now w =
     (fst (refresh_locked env rnd u role raw m now (w\<lparr>a_world := locked\<rparr>)),
      on_world (redis_del (refresh_lockKey env raw)) (snd (refresh_locked env rnd u role raw m now (w\<lparr>a_world := locked\<rparr>))))"
    using refresh_unlocked [OF assms(1,2)] by blast
  have "refresh_locked env rnd u role raw m now (w\<lparr>a_world := locked\<rparr>) =
     (Inl (Unauthorized (if rt_revokedAt r \<noteq> None then ''refresh_reuse_detected'' else ''refresh_device_mismatch'')),
      revoke_family u now (w\<lparr>a_world := locked\<rparr>))"
    using presents_candidate [OF assms(3)] assms(4) by (auto simp: refresh_locked_def)
  then show ?thesis using L by (auto simp: revoke_family_tokens)
qed

text \<open>
  C14.  Replaying a token that was already rotated or revoked, or presenting a live one from another
  device than the one it was issued to, is refused and ends every session of that user, while the
  sessions of all other users stay as they are.
\<close>

theorem replay_revokes_family:
  assumes "usable_account u w" and "redis_get (refresh_lockKey env raw) now (a_world w) = None"
    and "presents env u raw now r w" and "rt_revokedAt r \<noteq> None \<or> device_mismatch r m"
  shows "failed (refresh env rnd u role raw m now w)
     \<and> count_where (family_active u) (a_tokens (snd (refresh env rnd u role raw m now w))) = 0
     \<and> (v \<noteq> u \<longrightarrow> filter (\<lambda>x. rt_userId x = v) (a_tokens (snd (refresh env rnd u role raw m now w)))
                 = filter (\<lambda>x. rt_userId x = v) (a_tokens w))"
  using refresh_compromised [OF assms, of rnd role] other_family [of v u now w]
    revoked_family [of _ u now w]
  by (auto simp: count_where_0 family_active_def)

theorem replay_revokes_family_witness:
  "let w = demo_auth [demo_user] [] [demo_token\<lparr>rt_revokedAt := Some 1\<rparr>, demo_token\<lparr>rt_id := ''T3'', rt_tokenHash := ''hnew''\<rparr>]
   in count_where (family_active ''U'') (a_tokens w) = 1
    \<and> count_where (family_active ''U'') (a_tokens (snd (refresh plain_env demo_draws ''U'' CONSUMER ''old'' no_meta 5 w))) = 0"
proof -
  let ?w = "demo_auth [demo_user] [] [demo_token\<lparr>rt_revokedAt := Some 1\<rparr>, demo_token\<lparr>rt_id := ''T3'', rt_tokenHash := ''hnew''\<rparr>]"
  have "count_where (family_active ''U'') (a_tokens (snd (refresh plain_env demo_draws ''U'' CONSUMER ''old'' no_meta 5 ?w))) = 0"
    using replay_revokes_family [of "''U''" ?w plain_env "''old''" 5 "demo_token\<lparr>rt_revokedAt := Some 1\<rparr>" no_meta demo_draws CONSUMER "''V''"]
    by (simp add: usable_account_def demo_auth_def demo_user_def demo_world_def redis_get_def kv_get_def
        presents_def demo_token_def plain_env_def demo_env_def)
  then show ?thesis by (simp add: demo_auth_def demo_token_def family_active_def)
qed

text \<open>
  A second request with the same token while the first holds the in-flight lock is turned away
  with \<open>refresh_in_flight\<close> and changes nothing: it never reaches reuse detection, so a double tap does
  not log the user out.
\<close>

theorem concurrent_refresh_is_benign:
  assumes "usable_account u w" and "t < now + 5000"
    and "redis_get (refresh_lockKey env raw) now (a_world w) = None"
    and "w' = on_world (\<lambda>x. snd (setNX (refresh_lockKey env raw) ''1'' REFRESH_INFLIGHT_LOCK_SECONDS now x)) w"
  shows "refresh env rnd u role raw m t w' = (Inl (Unauthorized ''refresh_in_flight''), w')"
  using assms by (simp add: refresh_def setNX_def REFRESH_INFLIGHT_LOCK_SECONDS_def usable_account_def)

theorem concurrent_refresh_is_benign_witness:
  "let w = on_world (\<lambda>x. snd (setNX (refresh_lockKey plain_env ''old'') ''1'' REFRESH_INFLIGHT_LOCK_SECONDS 5 x))
        (demo_auth [demo_user] [] [demo_token])
   in refresh plain_env demo_draws ''U'' CONSUMER ''old'' no_meta 6 w = (Inl (Unauthorized ''refresh_in_flight''), w)"
  unfolding Let_def
  by (rule concurrent_refresh_is_benign [where w = "demo_auth [demo_user] [] [demo_token]" and now = 5])
    (simp_all add: usable_account_def demo_auth_def demo_user_def demo_world_def redis_get_def kv_get_def)

text \<open>
  The operations keep the accounts, and log-out and the global sign-out revoke what they should.
\<close>

lemma revokeAllSessions_count:
  "count_where (family_active u) (a_tokens (snd (revokeAllSessions u now w))) = 0"
  using revoked_family [of _ u now w] by (auto simp: revokeAllSessions_def count_where_0 family_active_def)

lemma revokeAllSessions_leaves_access_tokens:
  "a_world (snd (revokeAllSessions u now w)) = a_world w"
  by (simp add: revokeAllSessions_def revoke_family_def)

lemma logout_revokes:
  assumes "jwt_verify env (jwtRefreshSecret env) now raw = Some u" and "presents env u raw now r w"
    and "rt_revokedAt r = None" and "distinct (map rt_id (a_tokens w))"
  shows "a_tokens (logout env raw now w) = upd_where (\<lambda>x. x = r) (\<lambda>x. x\<lparr>rt_revokedAt := Some now\<rparr>) (a_tokens w)"
proof -
  have f: "find_row (\<lambda>x. family_active u x \<and> argon2_verify env (rt_tokenHash x) raw) (a_tokens w) = Some r"
    by (rule find_row_only) (use assms(2,3) in \<open>auto simp: presents_def family_active_def\<close>)
  have "x = r" if "x \<in> set (a_tokens w)" "rt_id x = rt_id r" for x
    using assms(2,4) that by (metis distinct_map inj_onD presents_def)
  then show ?thesis using assms(1) f by (auto simp: logout_def upd_where_def)
qed

text \<open>
  An admin session is issued with the 24-hour admin lifetime, but the first rotation through
  \<open>/auth/refresh\<close> re-issues it with the 30-day lifetime of a consumer session.
\<close>

theorem admin_session_outgrows_its_ttl:
  assumes env: "sound_env env" "parseDurationMs (jwtRefreshTtl env) = Some ms" "parseDurationMs (jwtAdminRefreshTtl env) = Some adm"
    and free: "usable_account u w" "redis_get (refresh_lockKey env raw) now (a_world w) = None"
    and row: "presents env u raw now (new_token_row env rnd0 u dev raw adm t0) w"
      "\<not> device_mismatch (new_token_row env rnd0 u dev raw adm t0) m" "newTokenId rnd0 \<noteq> []"
    and ids: "distinct (map rt_id (a_tokens w))"
    and fresh: "\<forall>x \<in> set (a_tokens w). rt_id x \<noteq> newTokenId rnd
       \<and> rt_tokenHash x \<noteq> argon2_hash env (drawnSalt rnd) (mint_refresh env rnd u role (jwtRefreshTtl env) now)"
  shows "\<exists>t w' new. refresh env rnd u role raw m now w = (Inr t, w') \<and> new \<in> set (a_tokens w')
     \<and> argon2_verify env (rt_tokenHash new) (refreshToken t) \<and> rt_expiresAt new = now + ms"
proof -
  let ?r = "new_token_row env rnd0 u dev raw adm t0"
  have "rt_revokedAt ?r = None" "rt_id ?r \<noteq> []" using row(3) by (simp_all add: new_token_row_def)
  from refresh_rotates_facts [OF env(1,2) free row(1) this(1) row(2) this(2) ids fresh] show ?thesis
    apply (elim exE conjE)
    subgoal for t new w' by (rule exI [of _ t], rule exI [of _ w'], rule exI [of _ new]) simp
    done
qed

theorem admin_session_outgrows_its_ttl_witness:
  "\<exists>t w' new. refresh plain_env demo_draws ''U'' OPERATOR ''old'' no_meta 5
       (demo_auth [demo_user\<lparr>us_role := OPERATOR\<rparr>] []
          [new_token_row plain_env (demo_draws\<lparr>newTokenId := ''T1''\<rparr>) ''U'' None ''old'' 86400000 0]) = (Inr t, w')
     \<and> new \<in> set (a_tokens w') \<and> rt_expiresAt new = 5 + 2592000000"
proof -
  let ?w = "demo_auth [demo_user\<lparr>us_role := OPERATOR\<rparr>] []
          [new_token_row plain_env (demo_draws\<lparr>newTokenId := ''T1''\<rparr>) ''U'' None ''old'' 86400000 0]"
  have "parseDurationMs (jwtAdminRefreshTtl plain_env) = Some 86400000" by code_simp
  from admin_session_outgrows_its_ttl [OF sound_plain_env plain_env_ttl this, of "''U''" ?w "''old''" 5
      "demo_draws\<lparr>newTokenId := ''T1''\<rparr>" None 0 no_meta demo_draws OPERATOR]
  show ?thesis
    by (simp add: usable_account_def demo_auth_def demo_user_def demo_world_def redis_get_def kv_get_def
        presents_def demo_token_def device_mismatch_def no_meta_def plain_env_def demo_env_def demo_draws_def
        mint_refresh_def new_token_row_def) blast
qed

end
