(* ===== verification/Otp.thy ===== *)
theory Otp
  imports Sessions
begin

text \<open>
  Sign-in by one-time code: the code half of \<open>auth/auth.service.ts\<close>, its delivery and the delivery
  callbacks (\<open>infra/twilio/otp-delivery.service.ts\<close>, \<open>twilio-webhook.controller.ts\<close> and its guard),
  the per-phone limiter (\<open>shared/guards/phone-rate-limit.guard.ts\<close>) and the captcha guard.  Twilio's
  and Cloudflare's replies are arguments.  \<open>requestOtp\<close> and \<open>verifyOtp\<close> are composed of the parts
  between which other requests can run.
\<close>

section \<open>Delivery\<close>

record twilio_env =
  tw_sid :: string
  tw_authToken :: string
  tw_whatsappFrom :: string
  tw_smsFrom :: string
  tw_bypassPhones :: "string option"
  tw_devBypass :: bool

definition isTwilioConfigured :: "twilio_env \<Rightarrow> bool" where
  "isTwilioConfigured t =
     (if tw_sid t = [] \<or> tw_authToken t = [] \<or> tw_whatsappFrom t = [] \<or> tw_smsFrom t = [] then False
      else if \<not> starts_with ''AC'' (tw_sid t) \<or> occurs ''xxxx'' (tw_sid t) then False
      else if occurs ''your_twilio'' (to_lower (tw_authToken t)) then False
      else True)"

definition toE164 :: "string \<Rightarrow> string" where
  "toE164 phone =
     (if starts_with ''+'' phone then phone
      else if cameroon_local phone then ''+237'' @ phone
      else ''+'' @ phone)"

lemma toE164_normalizePhone: "toE164 phone = normalizePhone phone"
  by (simp add: toE164_def normalizePhone_def starts_with_def)

definition parseBypassPhones :: "string option \<Rightarrow> string list" where
  "parseBypassPhones raw =
     (case raw of
        None \<Rightarrow> []
      | Some s \<Rightarrow> if s = [] then [] else map toE164 (filter (\<lambda>p. p \<noteq> []) (map trim (split_on (CHR '','') s))))"

definition formatBody :: "string \<Rightarrow> string" where
  "formatBody code = ''Votre code ChopNow : '' @ code @ [char_of (10::nat)]
     @ ''Ce code expire dans 5 minutes. Ne le partagez jamais.''"

text \<open>
  A reply of Twilio is an error message or the SID of the message; the messages handed to Twilio are
  returned with the result.
\<close>

type_synonym sent = "(OtpChannel \<times> string \<times> string) list"

definition sendOtp ::
  "twilio_env \<Rightarrow> string + string \<Rightarrow> string + string \<Rightarrow> string \<Rightarrow> string \<Rightarrow> time
   \<Rightarrow> (string + (OtpChannel \<times> string)) \<times> sent" where
  "sendOtp t whatsapp sms phone code now =
     (let e164 = toE164 phone;
          body = formatBody code;
          inAllowlist = (e164 \<in> set (parseBypassPhones (tw_bypassPhones t)))
      in if \<not> isTwilioConfigured t \<or> inAllowlist \<or> tw_devBypass t
         then (Inr (WHATSAPP, ''dev-'' @ show_int now), [])
         else case whatsapp of
                Inr sid \<Rightarrow> (Inr (WHATSAPP, sid), [(WHATSAPP, e164, body)])
              | Inl _ \<Rightarrow>
                  (case sms of
                     Inr sid \<Rightarrow> (Inr (SMS, sid), [(WHATSAPP, e164, body), (SMS, e164, body)])
                   | Inl e \<Rightarrow> (Inl e, [(WHATSAPP, e164, body), (SMS, e164, body)])))"

section \<open>The table of codes\<close>

definition otp_update :: "uuid \<Rightarrow> (otp_log \<Rightarrow> otp_log) \<Rightarrow> auth_world \<Rightarrow> auth_world" where
  "otp_update i f w = w\<lparr>a_otps := upd_where (\<lambda>l. ol_id l = i) f (a_otps w)\<rparr>"

lemma otp_update_sel [simp]:
  "a_otps (otp_update i f w) = upd_where (\<lambda>l. ol_id l = i) f (a_otps w)"
  "a_users (otp_update i f w) = a_users w" "a_tokens (otp_update i f w) = a_tokens w"
  "a_devices (otp_update i f w) = a_devices w" "a_world (otp_update i f w) = a_world w"
  by (simp_all add: otp_update_def)

section \<open>Requesting a code\<close>

definition OTP_TTL_MINUTES :: int where "OTP_TTL_MINUTES = 5"
definition OTP_MAX_ATTEMPTS :: nat where "OTP_MAX_ATTEMPTS = 3"
definition OTP_INFLIGHT_LOCK_SECONDS :: int where "OTP_INFLIGHT_LOCK_SECONDS = 30"

definition otp_lockKey :: "string \<Rightarrow> string" where "otp_lockKey phone = ''otp:inflight:'' @ phone"

definition padStart6 :: "string \<Rightarrow> string" where
  "padStart6 s = replicate (6 - length s) (CHR ''0'') @ s"

definition generateCode :: "auth_env \<Rightarrow> draws \<Rightarrow> string" where
  "generateCode env rnd = (if nodeEnv env = ''test'' then ''000000'' else padStart6 (show_nat (codeDraw rnd)))"

definition new_otp :: "auth_env \<Rightarrow> draws \<Rightarrow> string \<Rightarrow> time \<Rightarrow> otp_log" where
  "new_otp env rnd phone now =
     \<lparr>ol_id = newOtpId rnd, ol_phone = phone, ol_channel = WHATSAPP, ol_status = OTP_PENDING,
      ol_codeHash = argon2_hash env (drawnSalt rnd) (generateCode env rnd), ol_attempts = 0,
      ol_expiresAt = now + OTP_TTL_MINUTES * 60 * 1000, ol_deliveredAt = None, ol_verifiedAt = None,
      ol_failedReason = None, ol_providerMessageId = None, ol_createdAt = now\<rparr>"

text \<open>Up to the call of Twilio: \<open>None\<close> when the in-flight lock short-circuits.\<close>

definition requestOtp_start ::
  "auth_env \<Rightarrow> draws \<Rightarrow> string \<Rightarrow> time \<Rightarrow> auth_world \<Rightarrow> otp_log option \<times> auth_world" where
  "requestOtp_start env rnd rawPhone now w =
     (let phone = normalizePhone rawPhone
      in case setNX (otp_lockKey phone) (show_int now) OTP_INFLIGHT_LOCK_SECONDS now (a_world w) of
           (False, _) \<Rightarrow> (None, w)
         | (True, locked) \<Rightarrow>
             (Some (new_otp env rnd phone now),
              w\<lparr>a_world := locked, a_otps := a_otps w @ [new_otp env rnd phone now]\<rparr>))"

text \<open>
  After it: the update to SENT sits in the same \<open>try\<close> (a provider id is unique, so it can fail),
  the \<open>catch\<close> marks the row FAILED and frees the lock.
\<close>

definition mark_sent :: "OtpChannel \<Rightarrow> string \<Rightarrow> otp_log \<Rightarrow> otp_log" where
  "mark_sent channel sid l = l\<lparr>ol_channel := channel, ol_status := OTP_SENT, ol_providerMessageId := Some sid\<rparr>"

definition mark_failed :: "string \<Rightarrow> otp_log \<Rightarrow> otp_log" where
  "mark_failed reason l = l\<lparr>ol_status := OTP_FAILED, ol_failedReason := Some reason\<rparr>"

definition requestOtp_finish ::
  "otp_log \<Rightarrow> string + (OtpChannel \<times> string) \<Rightarrow> auth_world \<Rightarrow> (int, auth_world) outcome" where
  "requestOtp_finish row delivery w =
     (let give_up = (\<lambda>reason. (Inl (Unauthorized ''otp_delivery_failed''),
            on_world (redis_del (otp_lockKey (ol_phone row))) (otp_update (ol_id row) (mark_failed reason) w)))
      in case delivery of
           Inl reason \<Rightarrow> give_up reason
         | Inr (channel, sid) \<Rightarrow>
             if clashes ol_providerMessageId (Some sid) (\<lambda>l. ol_id l \<noteq> ol_id row) (a_otps w)
             then give_up ''P2002''
             else (Inr (OTP_TTL_MINUTES * 60), otp_update (ol_id row) (mark_sent channel sid) w))"

definition requestOtp ::
  "auth_env \<Rightarrow> twilio_env \<Rightarrow> string + string \<Rightarrow> string + string \<Rightarrow> draws \<Rightarrow> string \<Rightarrow> time \<Rightarrow> auth_world
   \<Rightarrow> (int, auth_world) outcome \<times> sent" where
  "requestOtp env t whatsapp sms rnd phone now w =
     (case requestOtp_start env rnd phone now w of
        (None, w') \<Rightarrow> ((Inr (OTP_TTL_MINUTES * 60), w'), [])
      | (Some row, w') \<Rightarrow>
          (case sendOtp t whatsapp sms (ol_phone row) (generateCode env rnd) now of
             (delivery, messages) \<Rightarrow> (requestOtp_finish row delivery w', messages)))"

section \<open>Verifying a code\<close>

definition open_otp :: "string \<Rightarrow> time \<Rightarrow> otp_log \<Rightarrow> bool" where
  "open_otp phone now l \<longleftrightarrow>
     ol_phone l = phone \<and> ol_status l \<in> set [OTP_PENDING, OTP_SENT, OTP_DELIVERED] \<and> now < ol_expiresAt l"

definition verify_read :: "string \<Rightarrow> time \<Rightarrow> auth_world \<Rightarrow> otp_log option" where
  "verify_read phone now w = latest ol_createdAt (filter (open_otp (normalizePhone phone) now) (a_otps w))"

definition mark_verified :: "time \<Rightarrow> otp_log \<Rightarrow> otp_log" where
  "mark_verified now l = l\<lparr>ol_status := OTP_VERIFIED, ol_verifiedAt := Some now\<rparr>"

definition count_attempt :: "otp_log \<Rightarrow> otp_log" where
  "count_attempt l = l\<lparr>ol_attempts := ol_attempts l + 1\<rparr>"

text \<open>The decision on the row that was read, and its write.\<close>

definition verify_decide ::
  "auth_env \<Rightarrow> otp_log \<Rightarrow> string \<Rightarrow> time \<Rightarrow> auth_world \<Rightarrow> (unit, auth_world) outcome" where
  "verify_decide env row code now w =
     (if OTP_MAX_ATTEMPTS \<le> ol_attempts row then (Inl (Unauthorized ''otp_too_many_attempts''), w)
      else if \<not> argon2_verify env (ol_codeHash row) code
      then (Inl (Unauthorized ''otp_invalid_or_expired''), otp_update (ol_id row) count_attempt w)
      else (Inr (), on_world (redis_del (otp_lockKey (ol_phone row)))
                      (otp_update (ol_id row) (mark_verified now) w)))"

definition upsert_user :: "uuid \<Rightarrow> string \<Rightarrow> auth_world \<Rightarrow> user \<times> auth_world" where
  "upsert_user newId phone w =
     (case find_row (\<lambda>u. us_phone u = Some phone) (a_users w) of
        Some u \<Rightarrow> (u, w)
      | None \<Rightarrow>
          let u = \<lparr>us_id = newId, us_phone = Some phone, us_email = None, us_passwordHash = None,
                   us_displayName = None, us_role = CONSUMER, us_isActive = True, us_isDeleted = False\<rparr>
          in (u, w\<lparr>a_users := a_users w @ [u]\<rparr>))"

definition sign_in ::
  "auth_env \<Rightarrow> draws \<Rightarrow> string \<Rightarrow> device_meta \<Rightarrow> time \<Rightarrow> auth_world \<Rightarrow> (issued_tokens, auth_world) outcome" where
  "sign_in env rnd phone m now w =
     (case upsert_user (newUserId rnd) phone w of
        (u, w1) \<Rightarrow>
          (case resolveDevice env rnd (us_id u) m now w1 of
             ((d, _), w2) \<Rightarrow> signTokens env rnd (us_id u) (us_role u) None (Some (dv_id d)) None now w2))"

definition verifyOtp ::
  "auth_env \<Rightarrow> draws \<Rightarrow> string \<Rightarrow> string \<Rightarrow> device_meta \<Rightarrow> time \<Rightarrow> auth_world
   \<Rightarrow> (issued_tokens, auth_world) outcome" where
  "verifyOtp env rnd phone code m now w =
     (case verify_read phone now w of
        None \<Rightarrow> (Inl (Unauthorized ''otp_invalid_or_expired''), w)
      | Some row \<Rightarrow>
          (case verify_decide env row code now w of
             (Inl e, w') \<Rightarrow> (Inl e, w')
           | (Inr _, w') \<Rightarrow> sign_in env rnd (normalizePhone phone) m now w'))"

section \<open>Delivery callbacks\<close>

definition handleTwilioStatus ::
  "string \<Rightarrow> string \<Rightarrow> string option \<Rightarrow> string option \<Rightarrow> time \<Rightarrow> auth_world \<Rightarrow> auth_world" where
  "handleTwilioStatus sid status errorMessage errorCode now w =
     (case find_row (\<lambda>l. ol_providerMessageId l = Some sid) (a_otps w) of
        None \<Rightarrow> w
      | Some row \<Rightarrow>
          if ol_status row = OTP_VERIFIED \<or> ol_status row = OTP_FAILED then w
          else if status = ''delivered'' \<or> status = ''read''
          then otp_update (ol_id row) (\<lambda>l. l\<lparr>ol_status := OTP_DELIVERED, ol_deliveredAt := Some now\<rparr>) w
          else if status = ''failed'' \<or> status = ''undelivered''
          then otp_update (ol_id row) (mark_failed
                 (if falsy errorMessage
                  then ''twilio_error_'' @ (case errorCode of Some c \<Rightarrow> c | None \<Rightarrow> ''unknown'')
                  else the errorMessage)) w
          else w)"

definition onStatus ::
  "string option \<Rightarrow> string option \<Rightarrow> string option \<Rightarrow> string option \<Rightarrow> time \<Rightarrow> auth_world \<Rightarrow> auth_world" where
  "onStatus sid status errorMessage errorCode now w =
     (if falsy sid \<or> falsy status then w
      else handleTwilioStatus (the sid) (the status) errorMessage errorCode now w)"

text \<open>\<open>TwilioWebhookGuard\<close>; \<open>valid\<close> is Twilio's \<open>validateRequest\<close> on the reconstructed URL.\<close>

definition twilio_guard :: "auth_env \<Rightarrow> twilio_env \<Rightarrow> string option \<Rightarrow> bool \<Rightarrow> http_error + bool" where
  "twilio_guard env t signature valid =
     (if nodeEnv env \<noteq> ''production'' then Inr True
      else if tw_authToken t = [] then Inl (Forbidden ''webhook not configured'')
      else if falsy signature then Inl (Forbidden ''invalid twilio signature'')
      else if \<not> valid then Inl (Forbidden ''invalid twilio signature'')
      else Inr True)"

section \<open>The guards in front of the routes\<close>

definition rate_canActivate ::
  "(nat \<times> int) option \<Rightarrow> string \<Rightarrow> string option \<Rightarrow> time \<Rightarrow> world \<Rightarrow> (bool, world) outcome" where
  "rate_canActivate opts path phone now w =
     (case opts of
        None \<Rightarrow> (Inr True, w)
      | Some (limit, ttlSeconds) \<Rightarrow>
          if falsy phone then (Inr True, w)
          else (case incrWithTTL (''phonerl:'' @ path @ '':'' @ the phone) ttlSeconds now w of
                  (n, w') \<Rightarrow> if limit < n then (Inl (TooManyRequests ''too_many_requests_for_phone''), w') else (Inr True, w')))"

text \<open>\<open>siteverify\<close> is Cloudflare's answer (\<open>None\<close>: unreachable or not 2xx).\<close>

definition turnstile_canActivate ::
  "bool \<Rightarrow> string option \<Rightarrow> string option \<Rightarrow> bool option \<Rightarrow> http_error + bool" where
  "turnstile_canActivate enabled secret token siteverify =
     (if \<not> enabled \<or> falsy secret then Inr True
      else if falsy token then Inl (Forbidden ''captcha_required'')
      else if siteverify = Some True then Inr True
      else Inl (Forbidden ''captcha_failed''))"

section \<open>Frames\<close>

lemma rotate_tx_frame [simp]:
  "a_users (snd (rotate_tx row rep now w)) = a_users w" "a_otps (snd (rotate_tx row rep now w)) = a_otps w"
  "a_totp (snd (rotate_tx row rep now w)) = a_totp w" "a_recovery (snd (rotate_tx row rep now w)) = a_recovery w"
  "a_world (snd (rotate_tx row rep now w)) = a_world w"
  by (auto simp: rotate_tx_def Let_def split: option.splits)

lemma signTokens_frame [simp]:
  "a_users (snd (signTokens env rnd u role rep dev ovr now w)) = a_users w"
  "a_otps (snd (signTokens env rnd u role rep dev ovr now w)) = a_otps w"
  "a_totp (snd (signTokens env rnd u role rep dev ovr now w)) = a_totp w"
  "a_recovery (snd (signTokens env rnd u role rep dev ovr now w)) = a_recovery w"
  "a_world (snd (signTokens env rnd u role rep dev ovr now w)) = a_world w"
  unfolding signTokens_def Let_def
  using rotate_tx_frame by (auto split: option.splits sum.splits prod.splits) (metis rotate_tx_frame snd_conv)+

lemma upsert_user_frame [simp]:
  "a_otps (snd (upsert_user i p w)) = a_otps w" "a_tokens (snd (upsert_user i p w)) = a_tokens w"
  "a_totp (snd (upsert_user i p w)) = a_totp w" "a_recovery (snd (upsert_user i p w)) = a_recovery w"
  "a_world (snd (upsert_user i p w)) = a_world w" "a_devices (snd (upsert_user i p w)) = a_devices w"
  by (auto simp: upsert_user_def Let_def split: option.splits)

lemma sign_in_frame [simp]:
  "a_otps (snd (sign_in env rnd phone m now w)) = a_otps w"
  "a_totp (snd (sign_in env rnd phone m now w)) = a_totp w"
  "a_recovery (snd (sign_in env rnd phone m now w)) = a_recovery w"
  "a_world (snd (sign_in env rnd phone m now w)) = a_world w"
  by (simp_all add: sign_in_def split_beta)

end
