(* ===== verification/Otp_Safety.thy ===== *)
theory Otp_Safety
  imports Otp
begin

text \<open>
  What bounds the guessing of a one-time code: the attempt counter of the row and the per-phone
  limiter, and the three places where the code lets more through than it means to.
\<close>

section \<open>Reading the newest open code\<close>

lemma latest_map: "(\<And>x. key (g x) = key x) \<Longrightarrow> latest key (map g xs) = map_option g (latest key xs)"
  by (induction xs) (auto split: option.splits)

text \<open>Rows that drop out of the selection do not change which row is the newest.\<close>

lemma latest_filter_sub:
  assumes "latest key (filter p xs) = Some r" and "\<And>x. q x \<Longrightarrow> p x" and "q r"
  shows "latest key (filter q xs) = Some r"
  using assms(1)
proof (induction xs)
  case (Cons a xs)
  have max: "key x \<le> key y" if "latest key (filter p xs) = Some y" "x \<in> set (filter q xs)" for x y
    using latest_is_max [OF that(1)] that(2) assms(2) by auto
  show ?case
  proof (cases "latest key (filter p xs) = Some r \<and> \<not> (p a \<and> key r \<le> key a)")
    case True
    then show ?thesis using Cons.IH assms(2) [of a] by auto
  next
    case False
    have "a = r" using False Cons.prems by (auto split: if_splits option.splits)
    moreover have "key x \<le> key r" if "x \<in> set (filter q xs)" for x
    proof (cases "latest key (filter p xs)")
      case None
      then show ?thesis using that assms(2) by (auto simp: filter_empty_conv)
    next
      case (Some y)
      then show ?thesis using max [OF Some that] Cons.prems \<open>a = r\<close> False assms(2,3) by (auto split: if_splits)
    qed
    ultimately show ?thesis using assms(3) by (auto split: option.splits dest: latest_Some)
  qed
qed simp

lemma verify_read_update:
  assumes "\<And>l. ol_createdAt (f l) = ol_createdAt l" and "\<And>l. open_otp (normalizePhone p) t (f l) = open_otp (normalizePhone p) t l"
  shows "verify_read p t (otp_update i f w) = map_option (\<lambda>l. if ol_id l = i then f l else l) (verify_read p t w)"
  unfolding verify_read_def otp_update_sel filter_upd_where [of "open_otp (normalizePhone p) t" f, OF assms(2)]
  by (subst upd_where_def) (rule latest_map, simp add: assms(1))

lemma verify_read_later:
  assumes "verify_read p now w = Some l" and "now \<le> t" and "t < ol_expiresAt l"
  shows "verify_read p t w = Some l"
proof -
  have "open_otp (normalizePhone p) now l" using assms(1) unfolding verify_read_def by (auto dest: latest_Some)
  then show ?thesis
    using assms unfolding verify_read_def by (intro latest_filter_sub [OF assms(1) [unfolded verify_read_def]]) (auto simp: open_otp_def)
qed

section \<open>Three guesses\<close>

text \<open>A series of attempts at the same phone, each with its instant.\<close>

definition guesses :: "auth_env \<Rightarrow> draws \<Rightarrow> string \<Rightarrow> device_meta \<Rightarrow> (string \<times> time) list \<Rightarrow> auth_world \<Rightarrow> auth_world" where
  "guesses env rnd phone m gs w = fold (\<lambda>(code, t) w. snd (verifyOtp env rnd phone code m t w)) gs w"

definition spent_attempts :: "nat \<Rightarrow> otp_log \<Rightarrow> otp_log" where
  "spent_attempts k l = l\<lparr>ol_attempts := k\<rparr>"

lemma spent_sel [simp]:
  "ol_id (spent_attempts k l) = ol_id l" "ol_codeHash (spent_attempts k l) = ol_codeHash l"
  "ol_expiresAt (spent_attempts k l) = ol_expiresAt l" "ol_attempts (spent_attempts k l) = k"
  "ol_phone (spent_attempts k l) = ol_phone l"
  by (simp_all add: spent_attempts_def)

lemma wrong_guess:
  assumes "sound_env env" and "ol_codeHash l = argon2_hash env s c" and "code \<noteq> c"
    and "verify_read p now w = Some (spent_attempts (min 3 k) l)" and "now \<le> t" and "t < ol_expiresAt l"
  shows "verify_read p now (snd (verifyOtp env rnd p code m t w)) = Some (spent_attempts (min 3 (Suc k)) l)
     \<and> a_tokens (snd (verifyOtp env rnd p code m t w)) = a_tokens w"
proof -
  have r: "verify_read p t w = Some (spent_attempts (min 3 k) l)"
    by (rule verify_read_later [OF assms(4,5)]) (simp add: assms(6))
  have u: "verify_read p now (otp_update (ol_id l) count_attempt w) = Some (spent_attempts (min 3 k + 1) l)"
    by (subst verify_read_update) (simp_all add: count_attempt_def open_otp_def assms(4), simp add: spent_attempts_def)
  show ?thesis
  proof (cases "3 \<le> k")
    case True
    then show ?thesis using r assms(4) by (simp add: verifyOtp_def verify_decide_def OTP_MAX_ATTEMPTS_def)
  next
    case False
    then have "verifyOtp env rnd p code m t w =
        (Inl (Unauthorized ''otp_invalid_or_expired''), otp_update (ol_id l) count_attempt w)"
      using r assms(1-3) by (simp add: verifyOtp_def verify_decide_def OTP_MAX_ATTEMPTS_def)
    moreover have e: "min 3 k + 1 = min 3 (Suc k)" using False by (simp add: min_def)
    ultimately show ?thesis using u unfolding e by simp
  qed
qed

lemma wrong_guesses:
  assumes "sound_env env" and "ol_codeHash l = argon2_hash env s c"
    and "\<forall>(g, t) \<in> set gs. g \<noteq> c \<and> now \<le> t \<and> t < ol_expiresAt l"
    and "verify_read p now w = Some (spent_attempts (min 3 k) l)"
  shows "verify_read p now (guesses env rnd p m gs w) = Some (spent_attempts (min 3 (k + length gs)) l)
     \<and> a_tokens (guesses env rnd p m gs w) = a_tokens w"
  using assms(3,4)
proof (induction gs arbitrary: w k)
  case (Cons g gs)
  obtain code t where g: "g = (code, t)" by (cases g)
  have "verify_read p now (snd (verifyOtp env rnd p code m t w)) = Some (spent_attempts (min 3 (Suc k)) l)
      \<and> a_tokens (snd (verifyOtp env rnd p code m t w)) = a_tokens w"
    by (rule wrong_guess [OF assms(1,2) _ Cons.prems(2)]) (use Cons.prems(1) g in auto)
  then show ?case
    using Cons.IH [of "snd (verifyOtp env rnd p code m t w)" "Suc k"] Cons.prems(1) g by (simp add: guesses_def)
qed (simp add: guesses_def)

text \<open>
  C17.  One code can be guessed three times: after any number of wrong guesses, at any instants of its
  life, no session has been issued; with fewer than three the right code is still accepted, with three
  or more it is refused like every other.
\<close>

theorem three_guesses_per_code:
  assumes "sound_env env" and "ol_codeHash l = argon2_hash env s c" and "ol_attempts l = 0"
    and "verify_read p now w = Some l"
    and "\<forall>(g, t) \<in> set gs. g \<noteq> c \<and> now \<le> t \<and> t < ol_expiresAt l"
    and "now \<le> t" and "t < ol_expiresAt l"
  shows "a_tokens (guesses env rnd p m gs w) = a_tokens w
    \<and> (length gs < 3 \<longrightarrow> verifyOtp env rnd p c m t (guesses env rnd p m gs w) =
         sign_in env rnd (normalizePhone p) m t (on_world (redis_del (otp_lockKey (ol_phone l)))
            (otp_update (ol_id l) (mark_verified t) (guesses env rnd p m gs w))))
    \<and> (3 \<le> length gs \<longrightarrow> verifyOtp env rnd p c m t (guesses env rnd p m gs w) =
         (Inl (Unauthorized ''otp_too_many_attempts''), guesses env rnd p m gs w))"
proof -
  have "spent_attempts (min 3 0) l = l" using assms(3) by (simp add: spent_attempts_def)
  then have w: "verify_read p now (guesses env rnd p m gs w) = Some (spent_attempts (min 3 (length gs)) l)"
      "a_tokens (guesses env rnd p m gs w) = a_tokens w"
    using wrong_guesses [OF assms(1,2,5), of p w 0] assms(4) by simp_all
  have "verify_read p t (guesses env rnd p m gs w) = Some (spent_attempts (min 3 (length gs)) l)"
    by (rule verify_read_later [OF w(1) assms(6)]) (simp add: assms(7))
  then show ?thesis
    using w(2) assms(1,2) by (auto simp: verifyOtp_def verify_decide_def OTP_MAX_ATTEMPTS_def)
qed

definition demo_otp :: otp_log where
  "demo_otp = \<lparr>ol_id = ''O'', ol_phone = ''+237670000000'', ol_channel = WHATSAPP, ol_status = OTP_SENT,
     ol_codeHash = ''h123456'', ol_attempts = 0, ol_expiresAt = 300000, ol_deliveredAt = None,
     ol_verifiedAt = None, ol_failedReason = None, ol_providerMessageId = Some ''SM1'', ol_createdAt = 0\<rparr>"

lemma demo_otp_read: "verify_read ''+237670000000'' 1 (demo_auth [demo_user] [demo_otp] []) = Some demo_otp"
  by (simp add: verify_read_def demo_auth_def demo_otp_def open_otp_def normalizePhone_def)

theorem three_guesses_per_code_witness:
  "fst (verifyOtp plain_env demo_draws ''+237670000000'' ''123456'' no_meta 9
     (guesses plain_env demo_draws ''+237670000000'' no_meta [(''000000'', 2), (''000001'', 3), (''000002'', 4)]
        (demo_auth [demo_user] [demo_otp] []))) = Inl (Unauthorized ''otp_too_many_attempts'')"
  using three_guesses_per_code [OF sound_plain_env, of demo_otp "[]" "''123456''" "''+237670000000''" 1
      "demo_auth [demo_user] [demo_otp] []" "[(''000000'', 2), (''000001'', 3), (''000002'', 4)]" 9 demo_draws no_meta]
    demo_otp_read by (simp add: demo_otp_def plain_env_def)

text \<open>
  The counter is read before the hash is checked and written after it: guesses that were all decided
  on the row as it was read before any of them was counted are not bounded by three.
\<close>

lemma parallel_guesses_are_unbounded:
  assumes "sound_env env" and "ol_codeHash l = argon2_hash env s c" and "ol_attempts l < 3"
    and "\<forall>g \<in> set gs. g \<noteq> c"
  shows "fst (verify_decide env l c t (fold (\<lambda>g w. snd (verify_decide env l g t w)) gs w)) = Inr ()
    \<and> list_all (\<lambda>g. fst (verify_decide env l g t w) = Inl (Unauthorized ''otp_invalid_or_expired'')) gs"
  using assms by (auto simp: verify_decide_def OTP_MAX_ATTEMPTS_def list_all_iff)

section \<open>The per-phone limiter\<close>

definition rate_key :: "string \<Rightarrow> string \<Rightarrow> string" where
  "rate_key path phone = ''phonerl:'' @ path @ '':'' @ phone"

text \<open>A series of requests for one phone: which pass, and the world after them.\<close>

fun rate_run :: "nat \<Rightarrow> int \<Rightarrow> string \<Rightarrow> string \<Rightarrow> time list \<Rightarrow> world \<Rightarrow> bool list \<times> world" where
  "rate_run limit ttl path phone [] w = ([], w)"
| "rate_run limit ttl path phone (t # ts) w =
     (case rate_canActivate (Some (limit, ttl)) path (Some phone) t w of
        (res, w1) \<Rightarrow>
          (case rate_run limit ttl path phone ts w1 of (bs, w2) \<Rightarrow> ((\<not> isl res) # bs, w2)))"

lemma kv_expiry_put: "kv_expiry t k (kv_put j v e s) = (if k = j then if live t e then e else None else kv_expiry t k s)"
  by (auto simp: kv_expiry_def kv_put_def find_kv_del)

lemma rate_canActivate_step:
  assumes "phone \<noteq> []"
  shows "rate_canActivate (Some (limit, ttl)) path (Some phone) t w =
    (case incrWithTTL (rate_key path phone) ttl t w of
       (n, w') \<Rightarrow> (if limit < n then Inl (TooManyRequests ''too_many_requests_for_phone'') else Inr True, w'))"
  using assms by (simp add: rate_canActivate_def rate_key_def split_beta)

lemma incr_later:
  assumes "kv_get t k (w_redis w) = Some (show_nat n)" and "kv_expiry t k (w_redis w) = Some e"
  shows "incrWithTTL k ttl t w = (n + 1, w\<lparr>w_redis := kv_put k (show_nat (n + 1)) (Some e) (w_redis w)\<rparr>)"
  using assms by (simp add: incrWithTTL_def redis_get_def)

lemma incr_first:
  assumes "kv_get t k (w_redis w) = None"
  shows "incrWithTTL k ttl t w = (1, w\<lparr>w_redis := kv_put k (show_nat 1) (Some (t + ttl * 1000)) (w_redis w)\<rparr>)"
proof -
  have "kv_expiry t k (w_redis w) = None"
    using assms by (auto simp: kv_get_def kv_expiry_def split: option.splits if_splits)
  then show ?thesis using assms by (simp add: incrWithTTL_def redis_get_def)
qed

lemma rate_run_counts:
  assumes "phone \<noteq> []" and "\<forall>t \<in> set ts. t < e"
    and "\<And>t. t < e \<Longrightarrow> kv_get t (rate_key path phone) (w_redis w) = Some (show_nat k)
           \<and> kv_expiry t (rate_key path phone) (w_redis w) = Some e"
  shows "fst (rate_run limit ttl path phone ts w) = map (\<lambda>i. i < limit) [k..<k + length ts]"
  using assms(2,3)
proof (induction ts arbitrary: k w)
  case (Cons t ts)
  have t: "t < e" using Cons.prems(1) by simp
  let ?w = "w\<lparr>w_redis := kv_put (rate_key path phone) (show_nat (k + 1)) (Some e) (w_redis w)\<rparr>"
  have s: "incrWithTTL (rate_key path phone) ttl t w = (k + 1, ?w)"
    using Cons.prems(2) [OF t] by (intro incr_later) simp_all
  have "kv_get t' (rate_key path phone) (w_redis ?w) = Some (show_nat (k + 1))
      \<and> kv_expiry t' (rate_key path phone) (w_redis ?w) = Some e" if "t' < e" for t'
    using that by (simp add: kv.lookup_put kv_expiry_put live_def)
  then have "fst (rate_run limit ttl path phone ts ?w) = map (\<lambda>i. i < limit) [k + 1..<k + 1 + length ts]"
    using Cons.prems(1) by (intro Cons.IH) auto
  moreover have "[k..<k + length (t # ts)] = k # [k + 1..<k + 1 + length ts]"
    using upt_conv_Cons [of k "k + length (t # ts)"] by simp
  ultimately show ?case
    by (simp add: rate_canActivate_step [OF assms(1)] s split_beta)
qed simp

lemma rate_run_window:
  assumes "phone \<noteq> []" and "kv_get t0 (rate_key path phone) (w_redis w) = None"
    and "\<forall>t \<in> set ts. t < t0 + ttl * 1000"
  shows "fst (rate_run limit ttl path phone (t0 # ts) w) = map (\<lambda>i. i < limit) [0..<Suc (length ts)]"
proof -
  let ?w = "w\<lparr>w_redis := kv_put (rate_key path phone) (show_nat 1) (Some (t0 + ttl * 1000)) (w_redis w)\<rparr>"
  have "fst (rate_run limit ttl path phone ts ?w) = map (\<lambda>i. i < limit) [1..<1 + length ts]"
    by (rule rate_run_counts [OF assms(1,3)]) (simp add: kv.lookup_put kv_expiry_put live_def)
  moreover have "[0..<Suc (length ts)] = 0 # [1..<1 + length ts]"
    using upt_conv_Cons [of 0 "Suc (length ts)"] by simp
  ultimately show ?thesis
    by (simp add: rate_canActivate_step [OF assms(1)] incr_first [OF assms(2)] split_beta)
qed

text \<open>
  Within one window, which opens with the first request, exactly the first \<open>limit\<close> requests for
  a phone pass and all later ones get 429, however they are spread over the window.
\<close>

theorem phone_rate_limit_window:
  assumes "phone \<noteq> []" and "redis_get (rate_key path phone) t0 w = None"
    and "\<forall>t \<in> set ts. t < t0 + ttl * 1000"
  shows "fst (rate_run limit ttl path phone (t0 # ts) w) = map (\<lambda>i. i < limit) [0..<Suc (length ts)]"
  using assms by (intro rate_run_window) (simp_all add: redis_get_def)

theorem phone_rate_limit_window_witness:
  "fst (rate_run 5 900 ''/auth/request-otp'' ''670000000'' [0, 1, 2, 3, 4, 899999] (demo_world [] []))
     = [True, True, True, True, True, False]"
proof -
  have "[0..<6] = [0, 1, 2, 3, 4, 5 :: nat]" by (simp add: upt_rec)
  then show ?thesis
    using phone_rate_limit_window [of "''670000000''" "''/auth/request-otp''" 0 "demo_world [] []" "[1, 2, 3, 4, 899999]" 900 5]
    by (simp add: redis_get_def kv_get_def demo_world_def)
qed

text \<open>The counters of different keys do not meet.\<close>

lemma rate_run_other:
  assumes "phone \<noteq> []" and "k \<noteq> rate_key path phone"
  shows "kv_get t k (w_redis (snd (rate_run limit ttl path phone ts w))) = kv_get t k (w_redis w)"
  using assms(2)
proof (induction ts arbitrary: w)
  case (Cons s ts)
  have "kv_get t k (w_redis (snd (incrWithTTL (rate_key path phone) ttl s w))) = kv_get t k (w_redis w)"
    using Cons.prems by (simp add: incrWithTTL_def Let_def kv.lookup_put)
  then show ?case
    using Cons by (simp add: rate_canActivate_step [OF assms(1)] split_beta)
qed simp

lemma rate_run_all:
  assumes "phone \<noteq> []" and "kv_get t0 (rate_key path phone) (w_redis w) = None"
    and "\<forall>t \<in> set ts. t < t0 + ttl * 1000" and "Suc (length ts) \<le> limit"
  shows "fst (rate_run limit ttl path phone (t0 # ts) w) = replicate (Suc (length ts)) True"
  unfolding rate_run_window [OF assms(1-3)] using assms(4) by (intro nth_equalityI) (auto simp del: upt_Suc replicate_Suc)

text \<open>
  The limiter counts the phone as it was spelled, the service normalises it: the three spellings
  of one Cameroonian number are one account with three budgets, so three times the limit goes through
  in one window.
\<close>

theorem rate_limit_by_spelling:
  assumes "cameroon_local x" and "Suc (length ts) \<le> limit" and "\<forall>t \<in> set ts. t < t0 + ttl * 1000"
    and "\<forall>p \<in> set [x, ''237'' @ x, ''+237'' @ x]. redis_get (rate_key path p) t0 w = None"
  shows "normalizePhone x = normalizePhone (''237'' @ x) \<and> normalizePhone x = normalizePhone (''+237'' @ x)
    \<and> (let (a, w1) = rate_run limit ttl path x (t0 # ts) w;
           (b, w2) = rate_run limit ttl path (''237'' @ x) (t0 # ts) w1;
           (c, w3) = rate_run limit ttl path (''+237'' @ x) (t0 # ts) w2
       in a @ b @ c = replicate (3 * Suc (length ts)) True)"
proof -
  have x: "x \<noteq> []" using assms(1) by (auto simp: cameroon_local_def)
  have ne: "rate_key path x \<noteq> rate_key path (''237'' @ x)" "rate_key path x \<noteq> rate_key path (''+237'' @ x)"
    "rate_key path (''237'' @ x) \<noteq> rate_key path (''+237'' @ x)" by (simp_all add: rate_key_def)
  let ?r = "\<lambda>p. rate_run limit ttl path p (t0 # ts)"
  let ?w1 = "snd (?r x w)" let ?w2 = "snd (?r (''237'' @ x) ?w1)"
  have free: "kv_get t0 (rate_key path x) (w_redis w) = None"
    "kv_get t0 (rate_key path (''237'' @ x)) (w_redis ?w1) = None"
    "kv_get t0 (rate_key path (''+237'' @ x)) (w_redis ?w2) = None"
    using assms(4) ne rate_run_other [of x] rate_run_other [of "''237'' @ x"] x
    by (simp_all add: redis_get_def del: rate_run.simps)
  have "fst (?r x w) = replicate (Suc (length ts)) True" "fst (?r (''237'' @ x) ?w1) = replicate (Suc (length ts)) True"
    "fst (?r (''+237'' @ x) ?w2) = replicate (Suc (length ts)) True"
    by (rule rate_run_all [OF x free(1) assms(3,2)], rule rate_run_all [OF _ free(2) assms(3,2)], simp,
        rule rate_run_all [OF _ free(3) assms(3,2)], simp)
  then show ?thesis
    using normalizePhone_spellings [OF assms(1)]
    by (simp add: split_beta Let_def replicate_add [symmetric] numeral_3_eq_3 del: rate_run.simps replicate.simps replicate_Suc)
qed

theorem rate_limit_by_spelling_witness:
  "let (a, w1) = rate_run 5 900 ''/auth/request-otp'' ''670000000'' [0, 1, 2, 3, 4] (demo_world [] []);
       (b, w2) = rate_run 5 900 ''/auth/request-otp'' (''237'' @ ''670000000'') [0, 1, 2, 3, 4] w1;
       (c, w3) = rate_run 5 900 ''/auth/request-otp'' (''+237'' @ ''670000000'') [0, 1, 2, 3, 4] w2
   in a @ b @ c = replicate 15 True"
  using rate_limit_by_spelling [of "''670000000''" "[1, 2, 3, 4]" 5 0 900 "''/auth/request-otp''" "demo_world [] []"]
  by (simp add: cameroon_local_def is_digit_def redis_get_def kv_get_def demo_world_def del: rate_run.simps append.simps)

section \<open>A late SENT\<close>

lemma upd_where_append: "upd_where p f (xs @ ys) = upd_where p f xs @ upd_where p f ys"
  by (simp add: upd_where_def)

text \<open>
  The row may be verified while it is still PENDING, and the update to SENT that follows Twilio's
  answer has no guard on the status: when the answer comes after the user has signed in, the used code
  is open again and signs in a second time.
\<close>

theorem late_sent_revives_code:
  assumes "sound_env env" and "requestOtp_start env rnd phone now w = (Some row, w1)"
    and "\<forall>l \<in> set (a_otps w). ol_phone l \<noteq> normalizePhone phone \<and> ol_id l \<noteq> newOtpId rnd
           \<and> ol_providerMessageId l \<noteq> Some sid"
    and "now \<le> t1" and "t1 < now + 300000" and "t2 < now + 300000"
    and "verifyOtp env rnd1 phone (generateCode env rnd) m t1 w1 = (Inr tokens, w2)"
    and "requestOtp_finish row (Inr (channel, sid)) w2 = (res, w3)"
  shows "res = Inr 300 \<and> (\<exists>used. ol_id used = ol_id row \<and> ol_verifiedAt used = Some t1 \<and>
     verify_read phone t2 w3 = Some used \<and>
     verifyOtp env rnd2 phone (generateCode env rnd) m t2 w3 =
       sign_in env rnd2 (normalizePhone phone) m t2 (on_world (redis_del (otp_lockKey (ol_phone row)))
         (otp_update (ol_id row) (mark_verified t2) w3)))"
proof -
  have row: "row = new_otp env rnd (normalizePhone phone) now" and w1: "a_otps w1 = a_otps w @ [row]"
    using assms(2) by (auto simp: requestOtp_start_def Let_def split: prod.splits bool.splits)
  have none: "filter (open_otp (normalizePhone phone) t) (a_otps w) = []" for t
    using assms(3) by (auto simp: filter_empty_conv open_otp_def)
  have same: "upd_where (\<lambda>l. ol_id l = ol_id row) f (a_otps w) = a_otps w" for f
    using assms(3) row by (auto simp: upd_where_def new_otp_def intro!: map_idI)
  have r1: "verify_read phone t1 w1 = Some row"
    using none assms(5) row by (simp add: verify_read_def w1 open_otp_def new_otp_def OTP_TTL_MINUTES_def)
  then have w2: "a_otps w2 = a_otps w @ [mark_verified t1 row]"
    using assms(1,7) row same w1
    by (auto simp: verifyOtp_def verify_decide_def OTP_MAX_ATTEMPTS_def new_otp_def upd_where_append
        dest!: arg_cong [where f = "\<lambda>r. a_otps (snd r)"])
  have "\<not> clashes ol_providerMessageId (Some sid) (\<lambda>l. ol_id l \<noteq> ol_id row) (a_otps w2)"
    using assms(3) w2 by (auto simp: clashes_def mark_verified_def)
  then have w3: "res = Inr 300" "w3 = otp_update (ol_id row) (mark_sent channel sid) w2"
    using assms(8) by (auto simp: requestOtp_finish_def OTP_TTL_MINUTES_def)
  let ?used = "mark_sent channel sid (mark_verified t1 row)"
  have "a_otps w3 = a_otps w @ [?used]"
    using w3 w2 same by (simp add: upd_where_append mark_verified_def)
  then have r2: "verify_read phone t2 w3 = Some ?used"
    using none assms(6) row
    by (simp add: verify_read_def open_otp_def new_otp_def mark_sent_def mark_verified_def OTP_TTL_MINUTES_def)
  have "verifyOtp env rnd2 phone (generateCode env rnd) m t2 w3 =
       sign_in env rnd2 (normalizePhone phone) m t2 (on_world (redis_del (otp_lockKey (ol_phone row)))
         (otp_update (ol_id row) (mark_verified t2) w3))"
  proof -
    have "ol_attempts ?used = 0" "ol_id ?used = ol_id row" "ol_phone ?used = ol_phone row"
      "ol_codeHash ?used = argon2_hash env (drawnSalt rnd) (generateCode env rnd)"
      using row by (simp_all add: mark_sent_def mark_verified_def new_otp_def)
    then show ?thesis using r2 assms(1) by (simp add: verifyOtp_def verify_decide_def OTP_MAX_ATTEMPTS_def)
  qed
  then show ?thesis using w3(1) r2 by (intro conjI exI [of _ ?used]) (simp_all add: mark_sent_def mark_verified_def)
qed

theorem late_sent_revives_code_witness:
  "let w1 = snd (requestOtp_start plain_env demo_draws ''670000000'' 0 (demo_auth [demo_user] [] []));
       v = verifyOtp plain_env demo_draws ''670000000'' ''000007'' no_meta 1 w1;
       w3 = snd (requestOtp_finish (new_otp plain_env demo_draws ''+237670000000'' 0) (Inr (SMS, ''SM1'')) (snd v))
   in \<not> isl (fst v) \<and> map ol_status (a_otps (snd v)) = [OTP_VERIFIED] \<and> verify_read ''670000000'' 2 w3 \<noteq> None"
proof -
  let ?row = "new_otp plain_env demo_draws ''+237670000000'' 0"
  let ?w1 = "snd (requestOtp_start plain_env demo_draws ''670000000'' 0 (demo_auth [demo_user] [] []))"
  let ?v = "verifyOtp plain_env demo_draws ''670000000'' ''000007'' no_meta 1 ?w1"
  let ?f = "requestOtp_finish ?row (Inr (SMS, ''SM1'')) (snd ?v)"
  have start: "requestOtp_start plain_env demo_draws ''670000000'' 0 (demo_auth [demo_user] [] []) = (Some ?row, ?w1)"
    by code_simp
  have v: "\<not> isl (fst ?v)" "map ol_status (a_otps (snd ?v)) = [OTP_VERIFIED]" by code_simp+
  have g: "generateCode plain_env demo_draws = ''000007''" by code_simp
  obtain tokens where t: "?v = (Inr tokens, snd ?v)" using v(1) by (cases ?v; cases "fst ?v") auto
  have "verify_read ''670000000'' 2 (snd ?f) \<noteq> None"
    using late_sent_revives_code [OF sound_plain_env start, of "''SM1''" 1 2 demo_draws no_meta tokens "snd ?v" SMS "fst ?f" "snd ?f" demo_draws]
      t unfolding g by (fastforce simp: demo_auth_def)
  then show ?thesis using v unfolding Let_def by blast
qed

end
