(* ===== verification/Admin_Auth.thy ===== *)
theory Admin_Auth
  imports Otp_Safety
begin

text \<open>
  Sign-in of the back office: \<open>admin/admin-totp.service.ts\<close> (enrolment, codes, recovery codes) and
  \<open>admin/admin-auth.service.ts\<close> (password step with lockout, second factor, session).
\<close>

section \<open>The second factor\<close>

definition totp_row :: "uuid \<Rightarrow> auth_world \<Rightarrow> totp_secret option" where
  "totp_row userId w = find_row (\<lambda>t. ts_userId t = userId) (a_totp w)"

definition isEnrolled :: "uuid \<Rightarrow> auth_world \<Rightarrow> bool" where
  "isEnrolled userId w = (case totp_row userId w of None \<Rightarrow> False | Some t \<Rightarrow> ts_confirmedAt t \<noteq> None)"

definition seal_secret :: "auth_env \<Rightarrow> string \<Rightarrow> string \<Rightarrow> string option" where
  "seal_secret env iv x = encryptSecret (sha256 env) (gcm_encrypt env) iv x (secretEnvelopeKey env)"

definition open_secret :: "auth_env \<Rightarrow> string \<Rightarrow> string option" where
  "open_secret env e = decryptSecret (sha256 env) (gcm_decrypt env) e (secretEnvelopeKey env)"

text \<open>\<open>secret\<close> and \<open>iv\<close> are drawn; the QR picture is left out of the reply.\<close>

definition startEnrollment ::
  "auth_env \<Rightarrow> string \<Rightarrow> string \<Rightarrow> uuid \<Rightarrow> auth_world \<Rightarrow> (string, auth_world) outcome" where
  "startEnrollment env secret iv userId w =
     (if isEnrolled userId w then (Inl (Conflict ''totp_already_enrolled''), w)
      else case seal_secret env iv secret of
             None \<Rightarrow> (Inl (UpstreamError ''APP_SECRET_ENVELOPE_KEY is not configured''), w)
           | Some encrypted \<Rightarrow>
               (Inr secret,
                case totp_row userId w of
                  None \<Rightarrow> w\<lparr>a_totp := a_totp w @ [\<lparr>ts_userId = userId, ts_secret = encrypted, ts_confirmedAt = None\<rparr>]\<rparr>
                | Some _ \<Rightarrow> w\<lparr>a_totp := upd_where (\<lambda>t. ts_userId t = userId)
                      (\<lambda>t. t\<lparr>ts_secret := encrypted, ts_confirmedAt := None\<rparr>) (a_totp w)\<rparr>))"

text \<open>\<open>generateRecoveryCodes\<close>: five bytes, three more, two groups of four.\<close>

definition recovery_alphabet :: string where "recovery_alphabet = ''ABCDEFGHJKLMNPQRSTUVWXYZ23456789''"

definition recovery_code_of :: "nat list \<times> nat list \<Rightarrow> string" where
  "recovery_code_of bs =
     (let raw = map (\<lambda>b. recovery_alphabet ! (b mod length recovery_alphabet)) (fst bs @ snd bs)
      in take 4 raw @ ''-'' @ take 4 (drop 4 raw))"

definition RECOVERY_CODE_COUNT :: nat where "RECOVERY_CODE_COUNT = 10"

definition generateRecoveryCodes :: "(nat list \<times> nat list) list \<Rightarrow> string list" where
  "generateRecoveryCodes draws = map recovery_code_of (take RECOVERY_CODE_COUNT draws)"

definition recovery_row :: "auth_env \<Rightarrow> uuid \<Rightarrow> uuid \<times> string \<Rightarrow> string \<Rightarrow> recovery_code" where
  "recovery_row env userId ids c =
     \<lparr>rc_id = fst ids, rc_userId = userId, rc_codeHash = argon2_hash env (snd ids) c, rc_consumedAt = None\<rparr>"

text \<open>\<open>ids\<close>: the row id and the salt drawn for each code.\<close>

definition confirmEnrollment ::
  "auth_env \<Rightarrow> (nat list \<times> nat list) list \<Rightarrow> (uuid \<times> string) list \<Rightarrow> uuid \<Rightarrow> string \<Rightarrow> time \<Rightarrow> auth_world
   \<Rightarrow> (string list, auth_world) outcome" where
  "confirmEnrollment env draws ids userId code now w =
     (case totp_row userId w of
        None \<Rightarrow> (Inl (Conflict ''totp_enrollment_not_started''), w)
      | Some row \<Rightarrow>
          if ts_confirmedAt row \<noteq> None then (Inl (Conflict ''totp_already_enrolled''), w)
          else case open_secret env (ts_secret row) of
                 None \<Rightarrow> (Inl (UpstreamError ''invalid envelope''), w)
               | Some secret \<Rightarrow>
                   if \<not> totp_check env code secret now then (Inl (Unauthorized ''totp_invalid_code''), w)
                   else let codes = generateRecoveryCodes draws
                        in (Inr codes,
                            w\<lparr>a_totp := upd_where (\<lambda>t. ts_userId t = userId) (\<lambda>t. t\<lparr>ts_confirmedAt := Some now\<rparr>) (a_totp w),
                              a_recovery := filter (\<lambda>r. rc_userId r \<noteq> userId) (a_recovery w)
                                @ map2 (recovery_row env userId) ids codes\<rparr>))"

text \<open>\<open>None\<close> is the exception of \<open>decryptSecret\<close>.\<close>

definition verifyCode :: "auth_env \<Rightarrow> uuid \<Rightarrow> string \<Rightarrow> time \<Rightarrow> auth_world \<Rightarrow> bool option" where
  "verifyCode env userId code now w =
     (if \<not> isEnrolled userId w then Some False
      else case totp_row userId w of
             None \<Rightarrow> Some False
           | Some row \<Rightarrow> map_option (\<lambda>secret. totp_check env code secret now) (open_secret env (ts_secret row)))"

text \<open>
  The candidates are read once; the first that verifies decides, by a guarded \<open>updateMany\<close> on the
  table as it then is.
\<close>

definition recovery_candidate :: "auth_env \<Rightarrow> uuid \<Rightarrow> string \<Rightarrow> auth_world \<Rightarrow> recovery_code option" where
  "recovery_candidate env userId rawCode w =
     find_row (\<lambda>r. argon2_verify env (rc_codeHash r) rawCode)
       (filter (\<lambda>r. rc_userId r = userId \<and> rc_consumedAt r = None) (a_recovery w))"

definition consume_row :: "recovery_code \<Rightarrow> time \<Rightarrow> auth_world \<Rightarrow> bool \<times> auth_world" where
  "consume_row row now w =
     (let open = (\<lambda>r. rc_id r = rc_id row \<and> rc_consumedAt r = None)
      in (count_where open (a_recovery w) = 1,
          w\<lparr>a_recovery := upd_where open (\<lambda>r. r\<lparr>rc_consumedAt := Some now\<rparr>) (a_recovery w)\<rparr>))"

definition consumeRecoveryCode ::
  "auth_env \<Rightarrow> uuid \<Rightarrow> string \<Rightarrow> time \<Rightarrow> auth_world \<Rightarrow> bool \<times> auth_world" where
  "consumeRecoveryCode env userId rawCode now w =
     (case recovery_candidate env userId rawCode w of
        None \<Rightarrow> (False, w)
      | Some row \<Rightarrow> consume_row row now w)"

section \<open>Password, challenge, session\<close>

definition ADMIN_ROLES :: "UserRole list" where "ADMIN_ROLES = [SUPER_ADMIN, ADMIN, OPERATOR, VIEWER]"
definition LOCKOUT_WINDOW_SECONDS :: int where "LOCKOUT_WINDOW_SECONDS = 15 * 60"
definition LOCKOUT_THRESHOLD :: nat where "LOCKOUT_THRESHOLD = 5"
definition TOTP_CHALLENGE_TTL_SECONDS :: int where "TOTP_CHALLENGE_TTL_SECONDS = 5 * 60"

definition attemptsKey :: "uuid \<Rightarrow> string" where "attemptsKey userId = ''admin:login-attempts:'' @ userId"
definition lockedKey :: "uuid \<Rightarrow> string" where "lockedKey userId = ''admin:locked:'' @ userId"
definition challengeKey :: "string \<Rightarrow> string" where "challengeKey token = ''admin:2fa-challenge:'' @ token"

datatype login_result =
    TotpRequired string int
  | LoginSuccess issued_tokens UserRole string int

definition issueSession ::
  "auth_env \<Rightarrow> draws \<Rightarrow> uuid \<Rightarrow> UserRole \<Rightarrow> string \<Rightarrow> device_meta \<Rightarrow> time \<Rightarrow> auth_world
   \<Rightarrow> (login_result, auth_world) outcome" where
  "issueSession env rnd userId role email m now w =
     (case issueAdminSession env rnd userId role m now w of
        (Inl e, w') \<Rightarrow> (Inl e, w')
      | (Inr issued, w') \<Rightarrow> (Inr (LoginSuccess issued role email (15 * 60)), w'))"

definition login_wrong_password :: "uuid \<Rightarrow> time \<Rightarrow> auth_world \<Rightarrow> (login_result, auth_world) outcome" where
  "login_wrong_password userId now w =
     (case incrWithTTL (attemptsKey userId) LOCKOUT_WINDOW_SECONDS now (a_world w) of
        (attempts, w1) \<Rightarrow>
          if LOCKOUT_THRESHOLD \<le> attempts
          then (Inl (Unauthorized ''account_locked''),
                w\<lparr>a_world := w1\<lparr>w_redis := kv_put (lockedKey userId) ''1'' None (w_redis w1)\<rparr>\<rparr>)
          else (Inl (Unauthorized ''invalid_credentials''), w\<lparr>a_world := w1\<rparr>))"

definition login_right_password ::
  "auth_env \<Rightarrow> draws \<Rightarrow> string \<Rightarrow> user \<Rightarrow> string \<Rightarrow> device_meta \<Rightarrow> time \<Rightarrow> auth_world
   \<Rightarrow> (login_result, auth_world) outcome" where
  "login_right_password env rnd challenge u email m now w =
     (let w1 = on_world (redis_del (attemptsKey (us_id u))) w
      in if isEnrolled (us_id u) w1
         then (Inr (TotpRequired challenge TOTP_CHALLENGE_TTL_SECONDS),
               on_world (setWithTTL (challengeKey challenge) (us_id u) TOTP_CHALLENGE_TTL_SECONDS now) w1)
         else issueSession env rnd (us_id u) (us_role u) email m now w1)"

text \<open>\<open>challenge\<close>: the 24 random bytes drawn for the second step.\<close>

definition login ::
  "auth_env \<Rightarrow> draws \<Rightarrow> string \<Rightarrow> string \<Rightarrow> string \<Rightarrow> device_meta \<Rightarrow> time \<Rightarrow> auth_world
   \<Rightarrow> (login_result, auth_world) outcome" where
  "login env rnd challenge email password m now w =
     (let normalized = trim (to_lower email)
      in case find_row (\<lambda>u. us_email u = Some normalized) (a_users w) of
           None \<Rightarrow> (Inl (Unauthorized ''invalid_credentials''), w)
         | Some u \<Rightarrow>
             if falsy (us_passwordHash u) \<or> us_role u \<notin> set ADMIN_ROLES
             then (Inl (Unauthorized ''invalid_credentials''), w)
             else if \<not> falsy (redis_get (lockedKey (us_id u)) now (a_world w))
             then (Inl (Unauthorized ''account_locked''), w)
             else if \<not> argon2_verify env (the (us_passwordHash u)) password
             then login_wrong_password (us_id u) now w
             else login_right_password env rnd challenge u normalized m now w)"

definition second_factor ::
  "auth_env \<Rightarrow> uuid \<Rightarrow> string \<Rightarrow> bool \<Rightarrow> time \<Rightarrow> auth_world \<Rightarrow> bool option \<times> auth_world" where
  "second_factor env userId code isRecoveryCode now w =
     (if isRecoveryCode
      then (case consumeRecoveryCode env userId code now w of (b, w') \<Rightarrow> (Some b, w'))
      else (verifyCode env userId code now w, w))"

definition verifyTotpChallenge ::
  "auth_env \<Rightarrow> draws \<Rightarrow> string \<Rightarrow> string \<Rightarrow> bool \<Rightarrow> device_meta \<Rightarrow> time \<Rightarrow> auth_world
   \<Rightarrow> (login_result, auth_world) outcome" where
  "verifyTotpChallenge env rnd challenge code isRecoveryCode m now w =
     (case redis_get (challengeKey challenge) now (a_world w) of
        None \<Rightarrow> (Inl (Unauthorized ''totp_challenge_expired''), w)
      | Some userId \<Rightarrow>
          if userId = [] then (Inl (Unauthorized ''totp_challenge_expired''), w)
          else (case second_factor env userId code isRecoveryCode now w of
                  (None, w1) \<Rightarrow> (Inl (UpstreamError ''invalid envelope''), w1)
                | (Some False, w1) \<Rightarrow> (Inl (Unauthorized ''totp_invalid_code''), w1)
                | (Some True, w1) \<Rightarrow>
                    (let w2 = on_world (redis_del (challengeKey challenge)) w1
                     in case find_row (\<lambda>u. us_id u = userId) (a_users w2) of
                          None \<Rightarrow> (Inl (Unauthorized ''invalid_credentials''), w2)
                        | Some u \<Rightarrow> issueSession env rnd (us_id u) (us_role u)
                            (case us_email u of Some e \<Rightarrow> e | None \<Rightarrow> []) m now w2)))"

definition unlock :: "uuid \<Rightarrow> auth_world \<Rightarrow> auth_world" where
  "unlock userId w = on_world (redis_del (attemptsKey userId)) (on_world (redis_del (lockedKey userId)) w)"

section \<open>Both factors\<close>

lemma issueAdminSession_frame [simp]:
  "a_otps (snd (issueAdminSession env rnd u r m now w)) = a_otps w"
  "a_users (snd (issueAdminSession env rnd u r m now w)) = a_users w"
  "a_totp (snd (issueAdminSession env rnd u r m now w)) = a_totp w"
  "a_recovery (snd (issueAdminSession env rnd u r m now w)) = a_recovery w"
  "a_world (snd (issueAdminSession env rnd u r m now w)) = a_world w"
  by (simp_all add: issueAdminSession_def split_beta)

lemma issueSession_snd [simp]: "snd (issueSession env rnd u r e m now w) = snd (issueAdminSession env rnd u r m now w)"
  by (auto simp: issueSession_def split: prod.splits sum.splits)

lemma isEnrolled_on_world [simp]: "isEnrolled u (on_world f w) = isEnrolled u w"
  by (simp add: isEnrolled_def totp_row_def)

text \<open>
  A password answers with a session only for an administrator who has not enrolled a second
  factor: in every successful login the account has an admin role, is not locked and the password
  verifies, and when the account is enrolled the answer is a challenge and no token has been issued.
\<close>

theorem password_alone_is_not_enough:
  assumes "login env rnd challenge email password m now w = (Inr res, w')"
  shows "\<exists>u \<in> set (a_users w). us_email u = Some (trim (to_lower email)) \<and> us_role u \<in> set ADMIN_ROLES
    \<and> argon2_verify env (the (us_passwordHash u)) password
    \<and> falsy (redis_get (lockedKey (us_id u)) now (a_world w))
    \<and> (isEnrolled (us_id u) w \<longrightarrow> res = TotpRequired challenge TOTP_CHALLENGE_TTL_SECONDS \<and> a_tokens w' = a_tokens w)"
proof -
  obtain u where u: "find_row (\<lambda>u. us_email u = Some (trim (to_lower email))) (a_users w) = Some u"
    using assms by (auto simp: login_def Let_def split: option.splits)
  have l: "login env rnd challenge email password m now w =
      login_right_password env rnd challenge u (trim (to_lower email)) m now w"
    and c: "us_role u \<in> set ADMIN_ROLES" "argon2_verify env (the (us_passwordHash u)) password"
      "falsy (redis_get (lockedKey (us_id u)) now (a_world w))"
    using assms u
    by (auto simp: login_def login_wrong_password_def Let_def split_beta split: if_splits)
  have "isEnrolled (us_id u) w \<longrightarrow> res = TotpRequired challenge TOTP_CHALLENGE_TTL_SECONDS \<and> a_tokens w' = a_tokens w"
    using assms l by (auto simp: login_right_password_def Let_def split: if_splits)
  then show ?thesis using c find_row_Some [OF u] by blast
qed

definition demo_admin :: user where
  "demo_admin = demo_user\<lparr>us_email := Some ''a@b.c'', us_passwordHash := Some ''hpw'', us_role := OPERATOR\<rparr>"

definition admin_world :: "totp_secret list \<Rightarrow> auth_world" where
  "admin_world ts = (demo_auth [demo_admin] [] [])\<lparr>a_totp := ts\<rparr>"

theorem password_alone_is_not_enough_witness:
  "let w = admin_world [\<lparr>ts_userId = ''U'', ts_secret = [], ts_confirmedAt = Some 0\<rparr>]
   in a_tokens (snd (login plain_env demo_draws ''ch'' ''A@b.c '' ''pw'' no_meta 5 w)) = a_tokens w"
proof -
  let ?w = "admin_world [\<lparr>ts_userId = ''U'', ts_secret = [], ts_confirmedAt = Some 0\<rparr>]"
  let ?l = "login plain_env demo_draws ''ch'' ''A@b.c '' ''pw'' no_meta 5 ?w"
  have "\<not> isl (fst ?l)" by code_simp
  then obtain res where l: "?l = (Inr res, snd ?l)" by (cases ?l; cases "fst ?l") auto
  have e: "a_users ?w = [demo_admin]" "isEnrolled (us_id demo_admin) ?w"
    by (simp_all add: admin_world_def demo_auth_def isEnrolled_def totp_row_def demo_admin_def demo_user_def)
  show ?thesis using password_alone_is_not_enough [OF l] e unfolding Let_def by auto
qed

lemma challenge_answered:
  assumes "verifyTotpChallenge env rnd challenge code rec m now w = (Inr res, w')"
  obtains userId w1 u where "redis_get (challengeKey challenge) now (a_world w) = Some userId"
    and "second_factor env userId code rec now w = (Some True, w1)" and "u \<in> set (a_users w1)" and "us_id u = userId"
    and "issueSession env rnd userId (us_role u) (case us_email u of Some e \<Rightarrow> e | None \<Rightarrow> []) m now
           (on_world (redis_del (challengeKey challenge)) w1) = (Inr res, w')"
proof (cases "redis_get (challengeKey challenge) now (a_world w)")
  case None
  then show ?thesis using assms by (simp add: verifyTotpChallenge_def)
next
  case (Some userId)
  obtain ok w1 where f: "second_factor env userId code rec now w = (ok, w1)" by (metis prod.collapse)
  have ok: "ok = Some True" "userId \<noteq> []"
    using assms Some f by (auto simp: verifyTotpChallenge_def split: if_splits option.splits bool.splits)
  obtain u where u: "find_row (\<lambda>u. us_id u = userId) (a_users w1) = Some u"
    using assms Some f ok by (auto simp: verifyTotpChallenge_def Let_def split: option.splits)
  show ?thesis
    using assms Some f ok u find_row_Some [OF u] by (intro that [of userId w1 u]) (simp_all add: verifyTotpChallenge_def)
qed

text \<open>
  C18.  The second step succeeds only on a live challenge, and it needs a second factor of the account
  the challenge was drawn for.  The challenge is used up: it answers \<open>totp_challenge_expired\<close> from
  then on, to any code.  A recovery code must be one that was not yet used, and exactly that one is used
  up.  A code of the authenticator must be in its window for the sealed secret, of an enrolment that is
  confirmed; it is not used up: while it is in its window the second factor accepts it again, for
  another challenge of that account.
\<close>

theorem second_step_needs_a_factor:
  assumes "verifyTotpChallenge env rnd challenge code rec m now w = (Inr res, w')"
  shows "\<exists>userId. redis_get (challengeKey challenge) now (a_world w) = Some userId
    \<and> (\<exists>u \<in> set (a_users w). us_id u = userId)
    \<and> verifyTotpChallenge env2 rnd2 challenge code2 rec2 m2 t w' = (Inl (Unauthorized ''totp_challenge_expired''), w')
    \<and> (\<not> rec \<longrightarrow> a_totp w' = a_totp w \<and> a_recovery w' = a_recovery w
          \<and> (\<exists>row secret. totp_row userId w = Some row \<and> ts_confirmedAt row \<noteq> None
               \<and> open_secret env (ts_secret row) = Some secret \<and> totp_check env code secret now
               \<and> (totp_check env code secret t \<longrightarrow> second_factor env userId code False t w' = (Some True, w'))))
    \<and> (rec \<longrightarrow> (\<exists>r \<in> set (a_recovery w). rc_userId r = userId \<and> rc_consumedAt r = None \<and> argon2_verify env (rc_codeHash r) code
          \<and> a_recovery w' = upd_where (\<lambda>x. rc_id x = rc_id r \<and> rc_consumedAt x = None) (\<lambda>x. x\<lparr>rc_consumedAt := Some now\<rparr>) (a_recovery w)))"
proof -
  obtain userId w1 u where c: "redis_get (challengeKey challenge) now (a_world w) = Some userId"
    "second_factor env userId code rec now w = (Some True, w1)" "u \<in> set (a_users w1)" "us_id u = userId"
    "issueSession env rnd userId (us_role u) (case us_email u of Some e \<Rightarrow> e | None \<Rightarrow> []) m now
           (on_world (redis_del (challengeKey challenge)) w1) = (Inr res, w')"
    by (rule challenge_answered [OF assms])
  have w': "w' = snd (issueAdminSession env rnd userId (us_role u) m now (on_world (redis_del (challengeKey challenge)) w1))"
    using arg_cong [OF c(5), of snd] by simp
  have kept: "a_recovery w' = a_recovery w1" "a_totp w' = a_totp w1" by (simp_all add: w')
  have "redis_get (challengeKey challenge) t (a_world w') = None" by (simp add: w')
  then have gone: "verifyTotpChallenge env2 rnd2 challenge code2 rec2 m2 t w' = (Inl (Unauthorized ''totp_challenge_expired''), w')"
    by (simp add: verifyTotpChallenge_def)
  have users: "u \<in> set (a_users w)"
    using c(2,3) by (auto simp: second_factor_def consumeRecoveryCode_def consume_row_def Let_def
        split: if_splits option.splits)
  have totp: "a_totp w' = a_totp w \<and> a_recovery w' = a_recovery w
      \<and> (\<exists>row secret. totp_row userId w = Some row \<and> ts_confirmedAt row \<noteq> None
           \<and> open_secret env (ts_secret row) = Some secret \<and> totp_check env code secret now
           \<and> (totp_check env code secret t \<longrightarrow> second_factor env userId code False t w' = (Some True, w')))" if R: "\<not> rec"
  proof -
    have w1: "w1 = w" using c(2) R by (simp add: second_factor_def)
    then have rows: "totp_row userId w' = totp_row userId w" by (simp add: totp_row_def kept)
    show ?thesis
      using c(2) R w1 kept rows
      by (auto simp: second_factor_def verifyCode_def isEnrolled_def split: if_splits option.splits)
  qed
  have recovery: "\<exists>r \<in> set (a_recovery w). rc_userId r = userId \<and> rc_consumedAt r = None \<and> argon2_verify env (rc_codeHash r) code
      \<and> a_recovery w' = upd_where (\<lambda>x. rc_id x = rc_id r \<and> rc_consumedAt x = None) (\<lambda>x. x\<lparr>rc_consumedAt := Some now\<rparr>) (a_recovery w)" if R: "rec"
  proof -
    obtain r where r: "recovery_candidate env userId code w = Some r" "w1 = snd (consume_row r now w)"
      using c(2) R by (auto simp: second_factor_def consumeRecoveryCode_def split: option.splits prod.splits)
    have "a_recovery w' = upd_where (\<lambda>x. rc_id x = rc_id r \<and> rc_consumedAt x = None) (\<lambda>x. x\<lparr>rc_consumedAt := Some now\<rparr>) (a_recovery w)"
      unfolding kept r(2) by (simp add: consume_row_def Let_def)
    then show ?thesis using find_row_Some [OF r(1) [unfolded recovery_candidate_def]] by auto
  qed
  show ?thesis using c(1,4) users gone totp recovery by blast
qed

theorem second_step_needs_a_factor_witness:
  "let w = on_world (setWithTTL (challengeKey ''ch'') ''U'' 300 0)
         ((admin_world [])\<lparr>a_recovery := [\<lparr>rc_id = ''r'', rc_userId = ''U'', rc_codeHash = ''hAAAA-BBBB'', rc_consumedAt = None\<rparr>]\<rparr>);
       v = verifyTotpChallenge plain_env demo_draws ''ch'' ''AAAA-BBBB'' True no_meta 5 w
   in \<not> isl (fst v)
      \<and> verifyTotpChallenge plain_env demo_draws ''ch'' ''AAAA-BBBB'' True no_meta 6 (snd v) = (Inl (Unauthorized ''totp_challenge_expired''), snd v)"
proof -
  let ?w = "on_world (setWithTTL (challengeKey ''ch'') ''U'' 300 0)
         ((admin_world [])\<lparr>a_recovery := [\<lparr>rc_id = ''r'', rc_userId = ''U'', rc_codeHash = ''hAAAA-BBBB'', rc_consumedAt = None\<rparr>]\<rparr>)"
  let ?v = "verifyTotpChallenge plain_env demo_draws ''ch'' ''AAAA-BBBB'' True no_meta 5 ?w"
  have ok: "\<not> isl (fst ?v)" by code_simp
  then obtain res where v: "?v = (Inr res, snd ?v)" by (cases ?v; cases "fst ?v") auto
  have "verifyTotpChallenge plain_env demo_draws ''ch'' ''AAAA-BBBB'' True no_meta 6 (snd ?v)
      = (Inl (Unauthorized ''totp_challenge_expired''), snd ?v)"
    using second_step_needs_a_factor [OF v, of plain_env demo_draws "''AAAA-BBBB''" True no_meta 6] by auto
  with ok show ?thesis unfolding Let_def by blast
qed

section \<open>Lockout\<close>

text \<open>A series of logins with the same e-mail.\<close>

definition login_run ::
  "auth_env \<Rightarrow> draws \<Rightarrow> string \<Rightarrow> string \<Rightarrow> device_meta \<Rightarrow> (string \<times> time) list \<Rightarrow> auth_world \<Rightarrow> auth_world" where
  "login_run env rnd challenge email m ps w =
     fold (\<lambda>(password, t) w. snd (login env rnd challenge email password m t w)) ps w"

definition locked_out :: "uuid \<Rightarrow> auth_world \<Rightarrow> bool" where
  "locked_out u w \<longleftrightarrow> (\<forall>t. kv_get t (lockedKey u) (w_redis (a_world w)) = Some ''1'')"

definition account_of :: "string \<Rightarrow> user \<Rightarrow> auth_world \<Rightarrow> bool" where
  "account_of email u w \<longleftrightarrow> find_row (\<lambda>u. us_email u = Some (trim (to_lower email))) (a_users w) = Some u
     \<and> \<not> falsy (us_passwordHash u) \<and> us_role u \<in> set ADMIN_ROLES"

lemma login_locked:
  assumes "account_of email u w" and "locked_out (us_id u) w"
  shows "login env rnd ch email password m t w = (Inl (Unauthorized ''account_locked''), w)"
  using assms by (simp add: login_def account_of_def locked_out_def redis_get_def)

lemma login_run_locked:
  assumes "account_of email u w" and "locked_out (us_id u) w"
  shows "login_run env rnd ch email m ps w = w"
  using assms by (induction ps) (simp_all add: login_run_def login_locked split: prod.splits)

lemma key_ne [simp]: "lockedKey u \<noteq> attemptsKey v" "attemptsKey v \<noteq> lockedKey u"
  by (simp_all add: lockedKey_def attemptsKey_def)

text \<open>One more wrong password, \<open>k\<close> having been counted in the window that ends at \<open>e\<close>.\<close>

definition counted :: "uuid \<Rightarrow> nat \<Rightarrow> time \<Rightarrow> auth_world \<Rightarrow> bool" where
  "counted u k e w \<longleftrightarrow> (\<forall>t < e. kv_get t (attemptsKey u) (w_redis (a_world w)) = Some (show_nat k)
       \<and> kv_expiry t (attemptsKey u) (w_redis (a_world w)) = Some e)"

definition unlocked :: "uuid \<Rightarrow> auth_world \<Rightarrow> bool" where
  "unlocked u w \<longleftrightarrow> (\<forall>t. kv_get t (lockedKey u) (w_redis (a_world w)) = None)"

lemma wrong_password_step:
  assumes "account_of email u w" and "unlocked (us_id u) w" and "\<not> argon2_verify env (the (us_passwordHash u)) password"
    and "incrWithTTL (attemptsKey (us_id u)) LOCKOUT_WINDOW_SECONDS t (a_world w) =
           (Suc k, (a_world w)\<lparr>w_redis := kv_put (attemptsKey (us_id u)) (show_nat (Suc k)) (Some e) (w_redis (a_world w))\<rparr>)"
    and "w' = snd (login env rnd ch email password m t w)"
  shows "account_of email u w' \<and> a_tokens w' = a_tokens w
    \<and> (if 5 \<le> Suc k then locked_out (us_id u) w' else unlocked (us_id u) w' \<and> counted (us_id u) (Suc k) e w')"
proof -
  have "login env rnd ch email password m t w = login_wrong_password (us_id u) t w"
    using assms(1-3) by (simp add: login_def account_of_def unlocked_def redis_get_def)
  then have w': "w' = snd (login_wrong_password (us_id u) t w)" using assms(5) by simp
  show ?thesis
    using assms(1,2) unfolding w'
    by (simp add: login_wrong_password_def assms(4) LOCKOUT_THRESHOLD_def account_of_def locked_out_def
        unlocked_def counted_def kv.lookup_put kv_expiry_put live_def)
qed

lemma wrong_passwords:
  assumes "account_of email u w" and "unlocked (us_id u) w" and "counted (us_id u) k e w" and "k < 5"
    and "\<forall>(password, t) \<in> set ps. \<not> argon2_verify env (the (us_passwordHash u)) password \<and> t < e"
    and "5 \<le> k + length ps"
  shows "account_of email u (login_run env rnd ch email m ps w)
    \<and> locked_out (us_id u) (login_run env rnd ch email m ps w)
    \<and> a_tokens (login_run env rnd ch email m ps w) = a_tokens w"
  using assms
proof (induction ps arbitrary: k w)
  case (Cons p ps)
  obtain password t where p: "p = (password, t)" by (cases p)
  define w' where "w' = snd (login env rnd ch email password m t w)"
  have "incrWithTTL (attemptsKey (us_id u)) LOCKOUT_WINDOW_SECONDS t (a_world w) =
           (Suc k, (a_world w)\<lparr>w_redis := kv_put (attemptsKey (us_id u)) (show_nat (Suc k)) (Some e) (w_redis (a_world w))\<rparr>)"
    using Cons.prems(3,5) p by (subst incr_later [where n = k and e = e]) (auto simp: counted_def)
  from wrong_password_step [OF Cons.prems(1,2) _ this w'_def]
  have s: "account_of email u w'" "a_tokens w' = a_tokens w"
    "if 5 \<le> Suc k then locked_out (us_id u) w' else unlocked (us_id u) w' \<and> counted (us_id u) (Suc k) e w'"
    using Cons.prems(5) p by auto
  have r: "login_run env rnd ch email m (p # ps) w = login_run env rnd ch email m ps w'"
    by (simp add: login_run_def p w'_def)
  show ?case
  proof (cases "5 \<le> Suc k")
    case True
    then show ?thesis using s login_run_locked [OF s(1)] r by simp
  next
    case False
    then show ?thesis using Cons.IH [OF s(1), of "Suc k"] s Cons.prems(5,6) r by simp
  qed
qed simp

text \<open>
  C19.  Five wrong passwords within fifteen minutes of the first lock an administrator out: from then on
  every login, with the right password too and at any later time, is refused and issues nothing, until
  \<open>unlock\<close>, after which the right password is looked at again.
\<close>

theorem five_failures_lock:
  assumes "account_of email u w" and "unlocked (us_id u) w"
    and "redis_get (attemptsKey (us_id u)) t0 (a_world w) = None"
    and "\<forall>(password, t) \<in> set ((p0, t0) # ps). \<not> argon2_verify env (the (us_passwordHash u)) password \<and> t < t0 + 900000"
    and "5 \<le> Suc (length ps)"
    and "w' = login_run env rnd ch email m ((p0, t0) # ps) w"
  shows "a_tokens w' = a_tokens w
    \<and> login env rnd ch email password m t w' = (Inl (Unauthorized ''account_locked''), w')
    \<and> (argon2_verify env (the (us_passwordHash u)) password \<longrightarrow>
         login env rnd ch email password m t (unlock (us_id u) w') =
         login_right_password env rnd ch u (trim (to_lower email)) m t (unlock (us_id u) w'))"
proof -
  define w1 where "w1 = snd (login env rnd ch email p0 m t0 w)"
  have "incrWithTTL (attemptsKey (us_id u)) LOCKOUT_WINDOW_SECONDS t0 (a_world w) =
      (Suc 0, (a_world w)\<lparr>w_redis := kv_put (attemptsKey (us_id u)) (show_nat (Suc 0)) (Some (t0 + 900000)) (w_redis (a_world w))\<rparr>)"
    using assms(3) by (subst incr_first) (simp_all add: redis_get_def LOCKOUT_WINDOW_SECONDS_def)
  from wrong_password_step [OF assms(1,2) _ this w1_def]
  have s: "account_of email u w1" "a_tokens w1 = a_tokens w" "unlocked (us_id u) w1" "counted (us_id u) 1 (t0 + 900000) w1"
    using assms(4) by auto
  have r: "w' = login_run env rnd ch email m ps w1" unfolding assms(6) by (simp add: login_run_def w1_def)
  have l: "account_of email u w'" "locked_out (us_id u) w'" "a_tokens w' = a_tokens w"
    using wrong_passwords [OF s(1,3,4)] assms(4,5) s(2) r by auto
  have "account_of email u (unlock (us_id u) w')"
    using l(1) by (simp add: account_of_def unlock_def)
  moreover have "redis_get (lockedKey (us_id u)) t (a_world (unlock (us_id u) w')) = None"
    by (simp add: unlock_def)
  ultimately show ?thesis using l login_locked [OF l(1,2)] by (auto simp: login_def account_of_def)
qed

theorem five_failures_lock_witness:
  "let w = login_run plain_env demo_draws ''ch'' ''a@b.c'' no_meta
         [(''1'', 0), (''2'', 1), (''3'', 2), (''4'', 3), (''5'', 4)] (admin_world [])
   in fst (login plain_env demo_draws ''ch'' ''a@b.c'' ''pw'' no_meta 1000000000 w) = Inl (Unauthorized ''account_locked'')"
proof -
  have a: "account_of ''a@b.c'' demo_admin (admin_world [])" by code_simp
  have u: "unlocked (us_id demo_admin) (admin_world [])" "redis_get (attemptsKey (us_id demo_admin)) 0 (a_world (admin_world [])) = None"
    by (simp_all add: unlocked_def admin_world_def demo_auth_def demo_world_def redis_get_def kv_get_def)
  have wrong: "\<forall>(password, t) \<in> set [(''1'', 0), (''2'', 1), (''3'', 2), (''4'', 3), (''5'', 4)].
      \<not> argon2_verify plain_env (the (us_passwordHash demo_admin)) password \<and> t < 0 + (900000 :: int)" by code_simp
  have n: "5 \<le> Suc (length [(''2'', 1 :: int), (''3'', 2), (''4'', 3), (''5'', 4)])" by simp
  from five_failures_lock [OF a u wrong n refl, of demo_draws "''ch''" no_meta "''pw''" 1000000000]
  show ?thesis unfolding Let_def by (metis fst_conv)
qed

section \<open>Enrolment and recovery codes\<close>

lemma find_upd_same:
  assumes "find_row p xs = Some r" and "\<And>x. p x \<Longrightarrow> p (f x)"
  shows "find_row p (upd_where p f xs) = Some (f r)"
  using assms by (induction xs) (auto split: if_splits)

lemma find_row_snoc: "find_row p (xs @ [x]) = (case find_row p xs of Some r \<Rightarrow> Some r | None \<Rightarrow> if p x then Some x else None)"
  by (induction xs) auto

text \<open>
  C36.  Enrolment: the secret shown to the administrator is the one later codes are checked against (it
  survives the envelope), the account is enrolled exactly after a code was confirmed, ten recovery
  codes replace all earlier ones, and a second enrolment is refused.
\<close>

theorem enrolment_roundtrip:
  assumes "gcm_sound (gcm_encrypt env) (gcm_decrypt env)" and "secretEnvelopeKey env \<noteq> []" and "\<not> isEnrolled u w"
    and "startEnrollment env secret iv u w = (res, w1)" and "totp_check env code secret now"
    and "confirmEnrollment env draws ids u code now w1 = (conf, w2)"
  shows "res = Inr secret \<and> \<not> isEnrolled u w1 \<and> conf = Inr (generateRecoveryCodes draws) \<and> isEnrolled u w2
    \<and> (\<forall>code' t. verifyCode env u code' t w2 = Some (totp_check env code' secret t))
    \<and> filter (\<lambda>r. rc_userId r = u) (a_recovery w2) = map2 (recovery_row env u) ids (generateRecoveryCodes draws)
    \<and> startEnrollment env secret' iv' u w2 = (Inl (Conflict ''totp_already_enrolled''), w2)"
proof -
  obtain c tag where e: "gcm_encrypt env (sha256 env (secretEnvelopeKey env)) iv secret = (c, tag)" by (metis prod.collapse)
  define s where "s = hex_encode iv @ ''.'' @ hex_encode tag @ ''.'' @ hex_encode c"
  have "length tag = 16" "gcm_decrypt env (sha256 env (secretEnvelopeKey env)) iv tag c = Some secret"
    using assms(1) e unfolding gcm_sound_def by (metis fst_conv snd_conv)+
  then have seal: "seal_secret env iv secret = Some s" "open_secret env s = Some secret"
    using e assms(2) envelope_parts
    by (simp_all add: seal_secret_def open_secret_def encryptSecret_def decryptSecret_def deriveKey_def s_def
        hex_roundtrip AUTH_TAG_LENGTH_def)
  have w1: "res = Inr secret" "totp_row u w1 = Some \<lparr>ts_userId = u, ts_secret = s, ts_confirmedAt = None\<rparr>"
    using assms(3,4) seal(1) find_upd_same [of "\<lambda>t. ts_userId t = u" "a_totp w"]
    by (auto simp: startEnrollment_def totp_row_def find_row_snoc split: option.splits dest: find_row_Some)
  have c: "conf = Inr (generateRecoveryCodes draws)"
    "w2 = w1\<lparr>a_totp := upd_where (\<lambda>t. ts_userId t = u) (\<lambda>t. t\<lparr>ts_confirmedAt := Some now\<rparr>) (a_totp w1),
       a_recovery := filter (\<lambda>r. rc_userId r \<noteq> u) (a_recovery w1) @ map2 (recovery_row env u) ids (generateRecoveryCodes draws)\<rparr>"
    using assms(5,6) w1(2) seal(2) by (simp_all add: confirmEnrollment_def Let_def)
  have w2: "totp_row u w2 = Some \<lparr>ts_userId = u, ts_secret = s, ts_confirmedAt = Some now\<rparr>"
    using find_upd_same [of "\<lambda>t. ts_userId t = u" "a_totp w1"] w1(2) c(2) by (simp add: totp_row_def)
  have "filter (\<lambda>r. rc_userId r = u) (map2 (recovery_row env u) ids xs) = map2 (recovery_row env u) ids xs" for xs
    by (auto simp: filter_id_conv recovery_row_def)
  then show ?thesis
    using w1 c w2 seal(2) by (simp add: isEnrolled_def verifyCode_def startEnrollment_def)
qed

theorem enrolment_roundtrip_witness:
  "let w1 = snd (startEnrollment plain_env ''S'' ''iv'' ''U'' (admin_world []));
       w2 = snd (confirmEnrollment plain_env [([0, 1, 2, 3, 4], [5, 6, 7])] [(''i'', [])] ''U'' ''S'' 1 w1)
   in isEnrolled ''U'' w2 \<and> verifyCode plain_env ''U'' ''S'' 2 w2 = Some True"
proof -
  have g: "gcm_sound (gcm_encrypt plain_env) (gcm_decrypt plain_env)" "secretEnvelopeKey plain_env \<noteq> []"
    by (simp_all add: plain_env_def demo_env_def gcm_sound_toy)
  have n: "\<not> isEnrolled ''U'' (admin_world [])" by code_simp
  have t: "totp_check plain_env ''S'' ''S'' x" for x by (simp add: plain_env_def demo_env_def)
  have s: "startEnrollment plain_env ''S'' ''iv'' ''U'' (admin_world [])
      = (fst (startEnrollment plain_env ''S'' ''iv'' ''U'' (admin_world [])), snd (startEnrollment plain_env ''S'' ''iv'' ''U'' (admin_world [])))" by simp
  let ?w1 = "snd (startEnrollment plain_env ''S'' ''iv'' ''U'' (admin_world []))"
  let ?c = "confirmEnrollment plain_env [([0, 1, 2, 3, 4], [5, 6, 7])] [(''i'', [])] ''U'' ''S'' 1 ?w1"
  have c: "?c = (fst ?c, snd ?c)" by simp
  show ?thesis using enrolment_roundtrip [OF g n s t c] t by (simp add: Let_def)
qed

lemma recovery_row_open:
  assumes "recovery_candidate env u code w = Some r"
  shows "r \<in> set (a_recovery w) \<and> rc_userId r = u \<and> rc_consumedAt r = None \<and> argon2_verify env (rc_codeHash r) code"
  using find_row_Some [OF assms [unfolded recovery_candidate_def]] by auto

text \<open>
  A recovery code works once, also under a race: of two requests that both found the same unused
  row, only the one that writes first succeeds; and once it was used, a later request does not find it.
\<close>

theorem recovery_code_once:
  assumes "recovery_candidate env u code w = Some r" and "consume_row r now w = (True, w1)"
    and "\<forall>x \<in> set (a_recovery w). rc_userId x = u \<and> argon2_verify env (rc_codeHash x) code \<longrightarrow> x = r"
  shows "fst (consume_row r now' w1) = False \<and> a_recovery (snd (consume_row r now' w1)) = a_recovery w1
    \<and> consumeRecoveryCode env u code now' w1 = (False, w1)"
proof -
  let ?open = "\<lambda>x. rc_id x = rc_id r \<and> rc_consumedAt x = None"
  have w1: "a_recovery w1 = upd_where ?open (\<lambda>x. x\<lparr>rc_consumedAt := Some now\<rparr>) (a_recovery w)"
    using assms(2) by (auto simp: consume_row_def Let_def)
  then have none: "\<forall>x \<in> set (a_recovery w1). \<not> ?open x" by (auto simp: upd_where_def)
  then have keep: "upd_where ?open f (a_recovery w1) = a_recovery w1" for f
    by (auto simp: upd_where_def intro!: map_idI)
  have r: "rc_consumedAt r = None" using recovery_row_open [OF assms(1)] by simp
  have "recovery_candidate env u code w1 = None"
  proof -
    have "\<not> (rc_userId y = u \<and> rc_consumedAt y = None \<and> argon2_verify env (rc_codeHash y) code)"
      if y: "y \<in> set (a_recovery w1)" for y
    proof
      assume a: "rc_userId y = u \<and> rc_consumedAt y = None \<and> argon2_verify env (rc_codeHash y) code"
      obtain x where x: "x \<in> set (a_recovery w)" "y = (if ?open x then x\<lparr>rc_consumedAt := Some now\<rparr> else x)"
        using y w1 by (auto simp: upd_where_def)
      then have "y = x" using a by (cases "?open x") auto
      then have "x = r" using a x(1) assms(3) by auto
      then show False using none y \<open>y = x\<close> r by auto
    qed
    then show ?thesis unfolding recovery_candidate_def find_row_None by fastforce
  qed
  then show ?thesis
    using none keep by (simp add: consume_row_def Let_def consumeRecoveryCode_def count_where_def filter_empty_conv)
qed

theorem recovery_code_once_witness:
  "let w = (admin_world [])\<lparr>a_recovery := [\<lparr>rc_id = ''r'', rc_userId = ''U'', rc_codeHash = ''hAAAA-BBBB'', rc_consumedAt = None\<rparr>]\<rparr>;
       c = consumeRecoveryCode plain_env ''U'' ''AAAA-BBBB'' 5 w
   in fst c \<and> \<not> fst (consumeRecoveryCode plain_env ''U'' ''AAAA-BBBB'' 6 (snd c))"
proof -
  let ?r = "\<lparr>rc_id = ''r'', rc_userId = ''U'', rc_codeHash = ''hAAAA-BBBB'', rc_consumedAt = None\<rparr>"
  let ?w = "(admin_world [])\<lparr>a_recovery := [?r]\<rparr>"
  let ?c = "consumeRecoveryCode plain_env ''U'' ''AAAA-BBBB'' 5 ?w"
  have r: "recovery_candidate plain_env ''U'' ''AAAA-BBBB'' ?w = Some ?r" by code_simp
  have ok: "fst ?c" by code_simp
  have c: "consume_row ?r 5 ?w = (True, snd ?c)" using r ok by (cases ?c) (simp add: consumeRecoveryCode_def)
  show ?thesis using recovery_code_once [OF r c, of 6] ok by simp
qed

lemma recovery_code_format:
  assumes "length (fst bs) = 5" and "length (snd bs) = 3"
  shows "length (recovery_code_of bs) = 9 \<and> recovery_code_of bs ! 4 = CHR ''-''
    \<and> set (recovery_code_of bs) \<subseteq> insert (CHR ''-'') (set recovery_alphabet)"
proof -
  let ?raw = "map (\<lambda>b. recovery_alphabet ! (b mod length recovery_alphabet)) (fst bs @ snd bs)"
  have l: "length ?raw = 8" using assms by simp
  have "length recovery_alphabet = 32" by (simp add: recovery_alphabet_def)
  then have "recovery_alphabet ! (b mod length recovery_alphabet) \<in> set recovery_alphabet" for b by (intro nth_mem) simp
  then have a: "set ?raw \<subseteq> set recovery_alphabet" by auto
  have c: "recovery_code_of bs = take 4 ?raw @ ''-'' @ take 4 (drop 4 ?raw)" by (simp add: recovery_code_of_def Let_def)
  have t: "length (take 4 ?raw) = 4" "length (take 4 (drop 4 ?raw)) = 4" using l by simp_all
  have "recovery_code_of bs ! 4 = CHR ''-''"
    unfolding c using nth_append_length [of "take 4 ?raw" "CHR ''-''" "take 4 (drop 4 ?raw)"] t by simp
  moreover have "length (recovery_code_of bs) = 9" unfolding c length_append t by simp
  moreover have "set (take 4 ?raw) \<subseteq> set recovery_alphabet" "set (take 4 (drop 4 ?raw)) \<subseteq> set recovery_alphabet"
    using a by (meson order_trans set_take_subset, meson order_trans set_take_subset set_drop_subset)
  ultimately show ?thesis unfolding c by auto
qed

end
