(* ===== verification/Menu.thy ===== *)
theory Menu
  imports Examples
begin

text \<open>
  The vendor's menu (\<open>catalogue/menu.service.ts\<close>): items and categories, each operation behind the
  ownership check that is the security boundary of the component.  The locale \<open>owned_rows\<close> is the
  contract of that check, interpreted on both tables; \<open>menu_apply\<close> is the dispatch of
  \<open>catalogue/menu.controller.ts\<close>, a run is a list of requests of any users.
\<close>

section \<open>Ownership\<close>

definition requireVendor :: "uuid \<Rightarrow> world \<Rightarrow> http_error + vendor" where
  "requireVendor userId w =
     (case find_row (\<lambda>v. v_userId v = userId) (w_vendors w) of
        None \<Rightarrow> Inl (NotFound ''vendor_not_found'') | Some v \<Rightarrow> Inr v)"

definition requireItemBelongsTo :: "uuid \<Rightarrow> uuid \<Rightarrow> world \<Rightarrow> http_error + unit" where
  "requireItemBelongsTo vendorId itemId w =
     (case find_row (\<lambda>i. i_id i = itemId) (w_items w) of
        None \<Rightarrow> Inl (NotFound ''item_not_found'')
      | Some i \<Rightarrow> if i_vendorId i \<noteq> vendorId then Inl (Forbidden ''item_not_yours'') else Inr ())"

definition requireCategoryBelongsTo :: "uuid \<Rightarrow> uuid \<Rightarrow> world \<Rightarrow> http_error + unit" where
  "requireCategoryBelongsTo vendorId categoryId w =
     (case find_row (\<lambda>c. mc_id c = categoryId) (w_categories w) of
        None \<Rightarrow> Inl (NotFound ''category_not_found'')
      | Some c \<Rightarrow> if mc_vendorId c \<noteq> vendorId then Inl (Forbidden ''category_not_yours'') else Inr ())"

text \<open>A check that passes only for a row of the vendor, over rows with unique ids.\<close>

locale owned_rows =
  fixes rid :: "'r \<Rightarrow> uuid"
    and owner :: "'r \<Rightarrow> uuid"
    and rows :: "world \<Rightarrow> 'r list"
    and require_owned :: "uuid \<Rightarrow> uuid \<Rightarrow> world \<Rightarrow> http_error + unit"
  assumes require_owned: "require_owned v i w = Inr () \<Longrightarrow> \<exists>r \<in> set (rows w). rid r = i \<and> owner r = v"
begin

lemma owned_row:
  assumes "require_owned v i w = Inr ()" and "distinct (map rid (rows w))" and "r \<in> set (rows w)" and "rid r = i"
  shows "owner r = v"
  using require_owned [OF assms(1)] assms(2-4) by (metis distinct_map inj_onD)

text \<open>Whatever is written to, or deleted by, a checked id leaves the rows of all other vendors alone.\<close>

lemma others_after_update:
  assumes "require_owned v i w = Inr ()" and "distinct (map rid (rows w))" and "\<And>r. owner (f r) = owner r"
    and "owner' \<noteq> v"
  shows "filter (\<lambda>r. owner r = owner') (upd_where (\<lambda>r. rid r = i) f (rows w)) = filter (\<lambda>r. owner r = owner') (rows w)"
proof -
  have "\<forall>r \<in> set (rows w). rid r = i \<longrightarrow> owner r = v" using owned_row [OF assms(1,2)] by blast
  then show ?thesis
  proof (induction "rows w" arbitrary: rule: list.induct)
    case Nil
    then show ?case by (simp add: upd_where_def)
  next
    case (Cons a as)
    have "filter (\<lambda>r. owner r = owner') (upd_where (\<lambda>r. rid r = i) f xs) = filter (\<lambda>r. owner r = owner') xs"
      if "\<forall>r \<in> set xs. rid r = i \<longrightarrow> owner r = v" for xs
      using that assms(3,4) by (induction xs) auto
    then show ?case using Cons.prems by blast
  qed
qed

lemma others_after_delete:
  assumes "require_owned v i w = Inr ()" and "distinct (map rid (rows w))" and "owner' \<noteq> v"
  shows "filter (\<lambda>r. owner r = owner') (filter (\<lambda>r. rid r \<noteq> i) (rows w)) = filter (\<lambda>r. owner r = owner') (rows w)"
  using owned_row [OF assms(1,2)] assms(3) by (auto intro!: filter_cong simp: filter_filter)

end

interpretation items_owned: owned_rows i_id i_vendorId w_items requireItemBelongsTo
  by unfold_locales (auto simp: requireItemBelongsTo_def split: option.splits if_splits dest: find_row_Some)

interpretation categories_owned: owned_rows mc_id mc_vendorId w_categories requireCategoryBelongsTo
  by unfold_locales (auto simp: requireCategoryBelongsTo_def split: option.splits if_splits dest: find_row_Some)

section \<open>Items\<close>

definition INFORMAL_MAX_ITEMS :: nat where "INFORMAL_MAX_ITEMS = 15"
definition INFORMAL_MAX_CATEGORIES :: nat where "INFORMAL_MAX_CATEGORIES = 2"

record upsert_item =
  ui_name :: string
  ui_description :: "string option"
  ui_priceXAF :: xaf
  ui_categoryId :: "uuid option"
  ui_preparationMinutes :: "nat option"
  ui_sortOrder :: "int option"
  ui_kind :: "ItemKind option"
  ui_stockLevel :: "StockLevel option"

definition menu_items_of :: "uuid \<Rightarrow> world \<Rightarrow> item list" where
  "menu_items_of v w = filter (\<lambda>i. i_vendorId i = v) (w_items w)"

definition categories_of :: "uuid \<Rightarrow> world \<Rightarrow> menu_category list" where
  "categories_of v w = filter (\<lambda>c. mc_vendorId c = v) (w_categories w)"

text \<open>\<open>orderBy: [{ sortOrder: 'asc' }, { createdAt: 'asc' }]\<close>.\<close>

definition listItems :: "uuid \<Rightarrow> world \<Rightarrow> http_error + item list" where
  "listItems userId w =
     (case requireVendor userId w of
        Inl e \<Rightarrow> Inl e
      | Inr v \<Rightarrow> Inr (sort_key i_sortOrder (sort_key i_createdAt (menu_items_of (v_id v) w))))"

definition checked_category :: "uuid \<Rightarrow> uuid option \<Rightarrow> world \<Rightarrow> http_error + unit" where
  "checked_category vendorId categoryId w =
     (if falsy categoryId then Inr () else requireCategoryBelongsTo vendorId (the categoryId) w)"

definition new_item :: "uuid \<Rightarrow> uuid \<Rightarrow> upsert_item \<Rightarrow> time \<Rightarrow> item" where
  "new_item newId vendorId dto now =
     (let stockLevel = (case ui_stockLevel dto of Some s \<Rightarrow> s | None \<Rightarrow> IN_STOCK)
      in \<lparr>i_id = newId, i_vendorId = vendorId, i_name = ui_name dto, i_priceXAF = ui_priceXAF dto,
          i_isAvailable = True, i_isInStock = (stockLevel \<noteq> OUT_OF_STOCK),
          i_categoryId = ui_categoryId dto, i_description = ui_description dto, i_photoUrl = None,
          i_stockLevel = stockLevel, i_kind = (case ui_kind dto of Some k \<Rightarrow> k | None \<Rightarrow> FOOD),
          i_preparationMinutes = ui_preparationMinutes dto,
          i_sortOrder = (case ui_sortOrder dto of Some n \<Rightarrow> n | None \<Rightarrow> 0), i_createdAt = now\<rparr>)"

definition createItem :: "uuid \<Rightarrow> uuid \<Rightarrow> upsert_item \<Rightarrow> time \<Rightarrow> world \<Rightarrow> (item, world) outcome" where
  "createItem newId userId dto now w =
     (case requireVendor userId w of
        Inl e \<Rightarrow> (Inl e, w)
      | Inr v \<Rightarrow>
          if v_type v = INFORMAL \<and> INFORMAL_MAX_ITEMS \<le> length (menu_items_of (v_id v) w)
          then (Inl (Conflict ''menu_limit_reached''), w)
          else case checked_category (v_id v) (ui_categoryId dto) w of
                 Inl e \<Rightarrow> (Inl e, w)
               | Inr _ \<Rightarrow> (Inr (new_item newId (v_id v) dto now),
                           w\<lparr>w_items := w_items w @ [new_item newId (v_id v) dto now]\<rparr>))"

text \<open>\<open>item.update({ where: { id } })\<close>; a missing row is P2025.\<close>

definition item_update :: "uuid \<Rightarrow> (item \<Rightarrow> item) \<Rightarrow> world \<Rightarrow> (item, world) outcome" where
  "item_update itemId f w =
     (case find_row (\<lambda>i. i_id i = itemId) (w_items w) of
        None \<Rightarrow> (Inl (PrismaError ''P2025''), w)
      | Some i \<Rightarrow> (Inr (f i), w\<lparr>w_items := upd_where (\<lambda>i. i_id i = itemId) f (w_items w)\<rparr>))"

definition own_item :: "uuid \<Rightarrow> uuid \<Rightarrow> (vendor \<Rightarrow> world \<Rightarrow> ('a, world) outcome) \<Rightarrow> world \<Rightarrow> ('a, world) outcome" where
  "own_item userId itemId k w =
     (case requireVendor userId w of
        Inl e \<Rightarrow> (Inl e, w)
      | Inr v \<Rightarrow>
          (case requireItemBelongsTo (v_id v) itemId w of
             Inl e \<Rightarrow> (Inl e, w)
           | Inr _ \<Rightarrow> k v w))"

definition item_patch :: "upsert_item \<Rightarrow> item \<Rightarrow> item" where
  "item_patch dto i =
     (let i' = i\<lparr>i_name := ui_name dto, i_description := ui_description dto, i_priceXAF := ui_priceXAF dto,
                i_categoryId := ui_categoryId dto, i_preparationMinutes := ui_preparationMinutes dto,
                i_sortOrder := (case ui_sortOrder dto of Some n \<Rightarrow> n | None \<Rightarrow> i_sortOrder i),
                i_kind := (case ui_kind dto of Some k \<Rightarrow> k | None \<Rightarrow> i_kind i)\<rparr>
      in case ui_stockLevel dto of
           None \<Rightarrow> i'
         | Some s \<Rightarrow> i'\<lparr>i_stockLevel := s, i_isInStock := (s \<noteq> OUT_OF_STOCK)\<rparr>)"

definition updateItem :: "uuid \<Rightarrow> uuid \<Rightarrow> upsert_item \<Rightarrow> world \<Rightarrow> (item, world) outcome" where
  "updateItem userId itemId dto w =
     own_item userId itemId
       (\<lambda>v w. case checked_category (v_id v) (ui_categoryId dto) w of
                Inl e \<Rightarrow> (Inl e, w)
              | Inr _ \<Rightarrow> item_update itemId (item_patch dto) w) w"

text \<open>The order lines that refer to a deleted item keep their snapshot and lose the reference.\<close>

definition deleteItem :: "uuid \<Rightarrow> uuid \<Rightarrow> world \<Rightarrow> (unit, world) outcome" where
  "deleteItem userId itemId w =
     own_item userId itemId
       (\<lambda>v w. (Inr (), w\<lparr>w_items := filter (\<lambda>i. i_id i \<noteq> itemId) (w_items w),
          w_orderItems := upd_where (\<lambda>l. oi_itemId l = Some itemId) (\<lambda>l. l\<lparr>oi_itemId := None\<rparr>) (w_orderItems w)\<rparr>)) w"

definition stock_choice :: "StockLevel option \<Rightarrow> bool option \<Rightarrow> StockLevel" where
  "stock_choice level inStock =
     (case level of
        Some s \<Rightarrow> s
      | None \<Rightarrow> if inStock = Some True then IN_STOCK
                else if inStock = Some False then OUT_OF_STOCK
                else IN_STOCK)"

definition setItemStock :: "uuid \<Rightarrow> uuid \<Rightarrow> StockLevel option \<Rightarrow> bool option \<Rightarrow> world \<Rightarrow> (item, world) outcome" where
  "setItemStock userId itemId level inStock w =
     own_item userId itemId
       (\<lambda>v. item_update itemId (\<lambda>i. i\<lparr>i_stockLevel := stock_choice level inStock,
                                     i_isInStock := (stock_choice level inStock \<noteq> OUT_OF_STOCK)\<rparr>)) w"

text \<open>\<open>key\<close> is the R2 key of the uploaded picture.\<close>

definition setItemPhoto :: "uuid \<Rightarrow> uuid \<Rightarrow> string \<Rightarrow> world \<Rightarrow> (item, world) outcome" where
  "setItemPhoto userId itemId key w =
     own_item userId itemId (\<lambda>v. item_update itemId (\<lambda>i. i\<lparr>i_photoUrl := Some key\<rparr>)) w"

section \<open>Categories\<close>

definition listCategories :: "uuid \<Rightarrow> world \<Rightarrow> http_error + menu_category list" where
  "listCategories userId w =
     (case requireVendor userId w of
        Inl e \<Rightarrow> Inl e
      | Inr v \<Rightarrow> Inr (sort_key mc_sortOrder (sort_key mc_createdAt (categories_of (v_id v) w))))"

text \<open>\<open>@@unique([vendorId, name])\<close>, read over the rows other than \<open>except\<close>.\<close>

definition name_taken :: "uuid \<Rightarrow> string \<Rightarrow> uuid option \<Rightarrow> world \<Rightarrow> bool" where
  "name_taken vendorId name except w =
     (\<exists>c \<in> set (w_categories w). mc_vendorId c = vendorId \<and> mc_name c = name \<and> Some (mc_id c) \<noteq> except)"

definition createCategory :: "uuid \<Rightarrow> uuid \<Rightarrow> string \<Rightarrow> int option \<Rightarrow> time \<Rightarrow> world \<Rightarrow> (menu_category, world) outcome" where
  "createCategory newId userId name sortOrder now w =
     (case requireVendor userId w of
        Inl e \<Rightarrow> (Inl e, w)
      | Inr v \<Rightarrow>
          if v_type v = INFORMAL \<and> INFORMAL_MAX_CATEGORIES \<le> length (categories_of (v_id v) w)
          then (Inl (Conflict ''category_limit_reached''), w)
          else if name_taken (v_id v) name None w then (Inl (Conflict ''category_name_taken''), w)
          else let c = \<lparr>mc_id = newId, mc_vendorId = v_id v, mc_name = name,
                        mc_sortOrder = (case sortOrder of Some n \<Rightarrow> n | None \<Rightarrow> 0), mc_isActive = True, mc_createdAt = now\<rparr>
               in (Inr c, w\<lparr>w_categories := w_categories w @ [c]\<rparr>))"

definition own_category :: "uuid \<Rightarrow> uuid \<Rightarrow> (vendor \<Rightarrow> world \<Rightarrow> ('a, world) outcome) \<Rightarrow> world \<Rightarrow> ('a, world) outcome" where
  "own_category userId categoryId k w =
     (case requireVendor userId w of
        Inl e \<Rightarrow> (Inl e, w)
      | Inr v \<Rightarrow>
          (case requireCategoryBelongsTo (v_id v) categoryId w of
             Inl e \<Rightarrow> (Inl e, w)
           | Inr _ \<Rightarrow> k v w))"

definition category_patch :: "string \<Rightarrow> int option \<Rightarrow> menu_category \<Rightarrow> menu_category" where
  "category_patch name sortOrder c =
     c\<lparr>mc_name := name, mc_sortOrder := (case sortOrder of Some n \<Rightarrow> n | None \<Rightarrow> mc_sortOrder c)\<rparr>"

definition updateCategory :: "uuid \<Rightarrow> uuid \<Rightarrow> string \<Rightarrow> int option \<Rightarrow> world \<Rightarrow> (unit, world) outcome" where
  "updateCategory userId categoryId name sortOrder w =
     own_category userId categoryId
       (\<lambda>v w. if name_taken (v_id v) name (Some categoryId) w then (Inl (Conflict ''category_name_taken''), w)
              else (Inr (), w\<lparr>w_categories := upd_where (\<lambda>c. mc_id c = categoryId) (category_patch name sortOrder) (w_categories w)\<rparr>)) w"

definition deleteCategory :: "uuid \<Rightarrow> uuid \<Rightarrow> world \<Rightarrow> (unit, world) outcome" where
  "deleteCategory userId categoryId w =
     own_category userId categoryId
       (\<lambda>v w. (Inr (), w\<lparr>w_categories := filter (\<lambda>c. mc_id c \<noteq> categoryId) (w_categories w),
          w_items := upd_where (\<lambda>i. i_categoryId i = Some categoryId) (\<lambda>i. i\<lparr>i_categoryId := None\<rparr>) (w_items w)\<rparr>)) w"

section \<open>The routes\<close>

datatype menu_op =
    CreateItem uuid upsert_item
  | UpdateItem uuid upsert_item
  | DeleteItem uuid
  | SetItemStock uuid "StockLevel option" "bool option"
  | SetItemPhoto uuid string
  | CreateCategory uuid string "int option"
  | UpdateCategory uuid string "int option"
  | DeleteCategory uuid

definition menu_apply :: "uuid \<Rightarrow> menu_op \<Rightarrow> time \<Rightarrow> world \<Rightarrow> world" where
  "menu_apply userId op now w =
     (case op of
        CreateItem newId dto \<Rightarrow> snd (createItem newId userId dto now w)
      | UpdateItem i dto \<Rightarrow> snd (updateItem userId i dto w)
      | DeleteItem i \<Rightarrow> snd (deleteItem userId i w)
      | SetItemStock i level inStock \<Rightarrow> snd (setItemStock userId i level inStock w)
      | SetItemPhoto i key \<Rightarrow> snd (setItemPhoto userId i key w)
      | CreateCategory newId name n \<Rightarrow> snd (createCategory newId userId name n now w)
      | UpdateCategory c name n \<Rightarrow> snd (updateCategory userId c name n w)
      | DeleteCategory c \<Rightarrow> snd (deleteCategory userId c w))"

text \<open>Every new row takes an id that no row has.\<close>

inductive menu_run :: "world \<Rightarrow> world \<Rightarrow> bool" where
  menu_start: "menu_run w w"
| menu_request: "menu_run w (menu_apply u op t w')"
    if "menu_run w w'"
      and "\<forall>newId dto. op = CreateItem newId dto \<longrightarrow> newId \<notin> i_id ` set (w_items w')"
      and "\<forall>newId name n. op = CreateCategory newId name n \<longrightarrow> newId \<notin> mc_id ` set (w_categories w')"

end
