(* ===== verification/Menu_Invariant.thy ===== *)
theory Menu_Invariant
  imports Menu
begin

text \<open>
  What every sequence of menu requests keeps: the caps of informal vendors, the agreement of the two
  stock columns, unique category names per vendor, items only in categories of their own vendor; and
  that no request touches the menu of another vendor.
\<close>

section \<open>The invariant\<close>

definition stock_agrees :: "item \<Rightarrow> bool" where
  "stock_agrees i \<longleftrightarrow> (i_isInStock i \<longleftrightarrow> i_stockLevel i \<noteq> OUT_OF_STOCK)"

definition filed_at_home :: "menu_category list \<Rightarrow> item \<Rightarrow> bool" where
  "filed_at_home cs i \<longleftrightarrow>
     falsy (i_categoryId i) \<or> (\<exists>c \<in> set cs. Some (mc_id c) = i_categoryId i \<and> mc_vendorId c = i_vendorId i)"

definition ids_ok :: "world \<Rightarrow> bool" where
  "ids_ok w \<longleftrightarrow> distinct (map i_id (w_items w)) \<and> distinct (map mc_id (w_categories w)) \<and> distinct (map v_id (w_vendors w))"

definition names_ok :: "world \<Rightarrow> bool" where
  "names_ok w \<longleftrightarrow> distinct (map (\<lambda>c. (mc_vendorId c, mc_name c)) (w_categories w))"

definition caps_ok :: "world \<Rightarrow> bool" where
  "caps_ok w \<longleftrightarrow> (\<forall>v \<in> set (w_vendors w). v_type v = INFORMAL \<longrightarrow>
     length (menu_items_of (v_id v) w) \<le> INFORMAL_MAX_ITEMS \<and> length (categories_of (v_id v) w) \<le> INFORMAL_MAX_CATEGORIES)"

definition rows_ok :: "world \<Rightarrow> bool" where
  "rows_ok w \<longleftrightarrow> (\<forall>i \<in> set (w_items w). stock_agrees i \<and> filed_at_home (w_categories w) i)"

definition menu_ok :: "world \<Rightarrow> bool" where
  "menu_ok w \<longleftrightarrow> ids_ok w \<and> names_ok w \<and> caps_ok w \<and> rows_ok w"

section \<open>The five kinds of write\<close>

lemma length_filter_upd:
  assumes "\<And>r. q (f r) = q r"
  shows "length (filter q (upd_where p f xs)) = length (filter q xs)"
  using assms by (induction xs) auto

lemma length_filter_twice: "length (filter q (filter p xs)) \<le> length (filter q xs)"
  by (induction xs) auto

lemma distinct_filter_map: "distinct (map g xs) \<Longrightarrow> distinct (map g (filter p xs))"
  by (simp add: distinct_map_filter)

lemma menu_ok_add_item:
  assumes "menu_ok w" and "i_id i \<notin> i_id ` set (w_items w)" and "stock_agrees i" and "filed_at_home (w_categories w) i"
    and "\<And>v. v \<in> set (w_vendors w) \<Longrightarrow> v_id v = i_vendorId i \<Longrightarrow> v_type v = INFORMAL \<Longrightarrow>
           length (menu_items_of (v_id v) w) < INFORMAL_MAX_ITEMS"
  shows "menu_ok (w\<lparr>w_items := w_items w @ [i]\<rparr>)"
proof -
  have "caps_ok (w\<lparr>w_items := w_items w @ [i]\<rparr>)"
    using assms(1,5) unfolding menu_ok_def caps_ok_def menu_items_of_def categories_of_def
    by (auto simp: less_eq_Suc_le)
  then show ?thesis
    using assms(1-4) by (auto simp: menu_ok_def ids_ok_def names_ok_def rows_ok_def)
qed

lemma menu_ok_update_items:
  assumes "menu_ok w" and "\<And>i. i_id (f i) = i_id i" and "\<And>i. i_vendorId (f i) = i_vendorId i"
    and "\<And>i. i \<in> set (w_items w) \<Longrightarrow> p i \<Longrightarrow> stock_agrees (f i) \<and> filed_at_home (w_categories w) (f i)"
  shows "menu_ok (w\<lparr>w_items := upd_where p f (w_items w)\<rparr>)"
proof -
  have "caps_ok (w\<lparr>w_items := upd_where p f (w_items w)\<rparr>)"
    using assms(1) unfolding menu_ok_def caps_ok_def menu_items_of_def categories_of_def
    by (simp add: length_filter_upd assms(3))
  moreover have "rows_ok (w\<lparr>w_items := upd_where p f (w_items w)\<rparr>)"
    using assms(1,4) by (auto simp: menu_ok_def rows_ok_def upd_where_def)
  ultimately show ?thesis
    using assms(1) map_key_upd_where [of i_id f p "w_items w"] assms(2) by (simp add: menu_ok_def ids_ok_def names_ok_def)
qed

lemma menu_ok_filter_items:
  assumes "menu_ok w"
  shows "menu_ok (w\<lparr>w_items := filter p (w_items w), w_orderItems := ls\<rparr>)"
proof -
  have "length (filter (\<lambda>i. i_vendorId i = v) (filter p (w_items w))) \<le> length (filter (\<lambda>i. i_vendorId i = v) (w_items w))" for v
    by (rule length_filter_twice)
  then have "caps_ok (w\<lparr>w_items := filter p (w_items w), w_orderItems := ls\<rparr>)"
    using assms unfolding menu_ok_def caps_ok_def menu_items_of_def categories_of_def
    by (auto intro: order_trans)
  then show ?thesis
    using assms by (auto simp: menu_ok_def ids_ok_def names_ok_def rows_ok_def distinct_filter_map)
qed

lemma menu_ok_add_category:
  assumes "menu_ok w" and "mc_id c \<notin> mc_id ` set (w_categories w)"
    and "\<not> name_taken (mc_vendorId c) (mc_name c) None w"
    and "\<And>v. v \<in> set (w_vendors w) \<Longrightarrow> v_id v = mc_vendorId c \<Longrightarrow> v_type v = INFORMAL \<Longrightarrow>
           length (categories_of (v_id v) w) < INFORMAL_MAX_CATEGORIES"
  shows "menu_ok (w\<lparr>w_categories := w_categories w @ [c]\<rparr>)"
proof -
  have "caps_ok (w\<lparr>w_categories := w_categories w @ [c]\<rparr>)"
    using assms(1,4) unfolding menu_ok_def caps_ok_def menu_items_of_def categories_of_def
    by (auto simp: less_eq_Suc_le)
  moreover have "(mc_vendorId c, mc_name c) \<notin> (\<lambda>c. (mc_vendorId c, mc_name c)) ` set (w_categories w)"
    using assms(3) by (auto simp: name_taken_def)
  ultimately show ?thesis
    using assms(1,2) by (auto simp: menu_ok_def ids_ok_def names_ok_def rows_ok_def filed_at_home_def)
qed

lemma filed_at_home_upd:
  assumes "filed_at_home cs i" and "\<And>c. mc_id (f c) = mc_id c" and "\<And>c. mc_vendorId (f c) = mc_vendorId c"
  shows "filed_at_home (upd_where p f cs) i"
proof (cases "falsy (i_categoryId i)")
  case False
  then obtain c where c: "c \<in> set cs" "Some (mc_id c) = i_categoryId i" "mc_vendorId c = i_vendorId i"
    using assms(1) by (auto simp: filed_at_home_def)
  then have "(if p c then f c else c) \<in> set (upd_where p f cs)" by (auto simp: upd_where_def)
  then show ?thesis
    unfolding filed_at_home_def using c(2,3) assms(2,3) by (intro disjI2 bexI [of _ "if p c then f c else c"]) simp_all
qed (simp add: filed_at_home_def)

lemma menu_ok_update_category:
  assumes "menu_ok w" and "requireCategoryBelongsTo v cid w = Inr ()" and "\<not> name_taken v name (Some cid) w"
  shows "menu_ok (w\<lparr>w_categories := upd_where (\<lambda>c. mc_id c = cid) (category_patch name n) (w_categories w)\<rparr>)"
    (is "menu_ok ?w'")
proof -
  have sel: "mc_id (category_patch name n c) = mc_id c" "mc_vendorId (category_patch name n c) = mc_vendorId c"
    "mc_name (category_patch name n c) = name" for c by (simp_all add: category_patch_def)
  have d: "distinct (map mc_id (w_categories w))" "distinct (map (\<lambda>c. (mc_vendorId c, mc_name c)) (w_categories w))"
    using assms(1) by (simp_all add: menu_ok_def ids_ok_def names_ok_def)
  have own: "\<forall>c \<in> set (w_categories w). mc_id c = cid \<longrightarrow> mc_vendorId c = v"
    using categories_owned.owned_row [OF assms(2) d(1)] by blast
  have free: "\<forall>c \<in> set (w_categories w). mc_id c \<noteq> cid \<longrightarrow> \<not> (mc_vendorId c = v \<and> mc_name c = name)"
    using assms(3) by (auto simp: name_taken_def)
  have "distinct (map (\<lambda>c. (mc_vendorId c, mc_name c)) (upd_where (\<lambda>c. mc_id c = cid) (category_patch name n) cs))"
    if "distinct (map mc_id cs)" "distinct (map (\<lambda>c. (mc_vendorId c, mc_name c)) cs)"
      "\<forall>c \<in> set cs. mc_id c = cid \<longrightarrow> mc_vendorId c = v"
      "\<forall>c \<in> set cs. mc_id c \<noteq> cid \<longrightarrow> \<not> (mc_vendorId c = v \<and> mc_name c = name)" for cs
    using that
  proof (induction cs)
    case (Cons c cs)
    show ?case
    proof (cases "mc_id c = cid")
      case True
      have ne: "\<forall>x \<in> set cs. mc_id x \<noteq> cid" using Cons.prems(1) True by (auto simp: image_iff)
      then have same: "upd_where (\<lambda>c. mc_id c = cid) (category_patch name n) cs = cs"
        by (auto simp: upd_where_def intro!: map_idI)
      have "(v, name) \<notin> (\<lambda>c. (mc_vendorId c, mc_name c)) ` set cs"
        using ne Cons.prems(4) by auto
      then show ?thesis using Cons.prems(2,3) True same sel by simp
    next
      case False
      have "(mc_vendorId c, mc_name c) \<notin> (\<lambda>c. (mc_vendorId c, mc_name c)) ` set (upd_where (\<lambda>c. mc_id c = cid) (category_patch name n) cs)"
        using Cons.prems(2,3,4) False sel by (auto simp: upd_where_def image_iff split: if_splits)
      then show ?thesis using Cons False by simp
    qed
  qed simp
  then have "names_ok ?w'" using d own free by (simp add: names_ok_def)
  moreover have "ids_ok ?w'"
    using assms(1) map_key_upd_where [of mc_id "category_patch name n"] sel by (simp add: menu_ok_def ids_ok_def)
  moreover have "caps_ok ?w'"
    using assms(1) unfolding menu_ok_def caps_ok_def menu_items_of_def categories_of_def
    by (simp add: length_filter_upd sel)
  moreover have "rows_ok ?w'"
    using assms(1) sel by (simp add: menu_ok_def rows_ok_def filed_at_home_upd)
  ultimately show ?thesis by (simp add: menu_ok_def)
qed

lemma menu_ok_delete_category:
  assumes "menu_ok w"
  shows "menu_ok (w\<lparr>w_categories := filter (\<lambda>c. mc_id c \<noteq> cid) (w_categories w),
      w_items := upd_where (\<lambda>i. i_categoryId i = Some cid) (\<lambda>i. i\<lparr>i_categoryId := None\<rparr>) (w_items w)\<rparr>)"
    (is "menu_ok ?w'")
proof -
  have "length (filter (\<lambda>c. mc_vendorId c = v) (filter (\<lambda>c. mc_id c \<noteq> cid) (w_categories w)))
      \<le> length (filter (\<lambda>c. mc_vendorId c = v) (w_categories w))" for v
    by (rule length_filter_twice)
  then have "caps_ok ?w'"
    using assms unfolding menu_ok_def caps_ok_def menu_items_of_def categories_of_def
    by (auto simp: length_filter_upd intro: order_trans)
  moreover have "rows_ok ?w'"
  proof -
    have "filed_at_home (filter (\<lambda>c. mc_id c \<noteq> cid) cs) i" if "filed_at_home cs i" "i_categoryId i \<noteq> Some cid" for cs i
      using that by (auto simp: filed_at_home_def)
    moreover have "filed_at_home cs (i\<lparr>i_categoryId := None\<rparr>)" "stock_agrees (i\<lparr>i_categoryId := None\<rparr>) = stock_agrees i" for cs i
      by (simp_all add: filed_at_home_def stock_agrees_def)
    ultimately show ?thesis
      using assms unfolding menu_ok_def rows_ok_def upd_where_def by auto
  qed
  ultimately show ?thesis
    using assms map_key_upd_where [of i_id "\<lambda>i. i\<lparr>i_categoryId := None\<rparr>" "\<lambda>i. i_categoryId i = Some cid" "w_items w"]
    by (simp add: menu_ok_def ids_ok_def names_ok_def distinct_filter_map)
qed

lemma menu_ok_add_vendor:
  assumes "menu_ok w" and "v_id v \<notin> v_id ` set (w_vendors w)" and "menu_items_of (v_id v) w = []" and "categories_of (v_id v) w = []"
  shows "menu_ok (w\<lparr>w_vendors := w_vendors w @ [v]\<rparr>)"
  using assms unfolding menu_ok_def ids_ok_def names_ok_def caps_ok_def rows_ok_def menu_items_of_def categories_of_def
  by simp

lemma menu_ok_add_items:
  assumes "menu_ok w" and "\<And>i. i \<in> set js \<Longrightarrow> i_id i \<notin> i_id ` set (w_items w)" and "distinct (map i_id js)"
    and "\<And>i. i \<in> set js \<Longrightarrow> stock_agrees i \<and> i_categoryId i = None \<and> i_vendorId i = vid"
    and "length (menu_items_of vid w) + length js \<le> INFORMAL_MAX_ITEMS"
  shows "menu_ok (w\<lparr>w_items := w_items w @ js\<rparr>)"
  using assms
proof (induction js arbitrary: w)
  case (Cons i js)
  let ?w = "w\<lparr>w_items := w_items w @ [i]\<rparr>"
  have i: "i_id i \<notin> i_id ` set (w_items w)" "stock_agrees i" "i_categoryId i = None" "i_vendorId i = vid"
    using Cons.prems(2,4) [of i] by simp_all
  have ok: "menu_ok ?w"
    by (rule menu_ok_add_item [OF Cons.prems(1) i(1,2)]) (use i Cons.prems(5) in \<open>simp_all add: filed_at_home_def\<close>)
  have new: "i_id j \<notin> i_id ` set (w_items ?w)" if j: "j \<in> set js" for j
  proof -
    have "i_id i \<notin> i_id ` set js" using Cons.prems(3) by simp
    then have "i_id j \<noteq> i_id i" using j by (metis image_eqI)
    then show ?thesis using Cons.prems(2) [of j] j by simp
  qed
  have "menu_ok (?w\<lparr>w_items := w_items ?w @ js\<rparr>)"
  proof (rule Cons.IH [OF ok new])
    show "stock_agrees j \<and> i_categoryId j = None \<and> i_vendorId j = vid" if "j \<in> set js" for j
      using Cons.prems(4) [of j] that by simp
    show "length (menu_items_of vid ?w) + length js \<le> INFORMAL_MAX_ITEMS"
      using Cons.prems(5) i(4) by (simp add: menu_items_of_def)
  qed (use Cons.prems(3) in simp_all)
  then show ?case by simp
qed simp

section \<open>The operations keep it\<close>

lemma requireVendor_row: "requireVendor u w = Inr v \<Longrightarrow> v \<in> set (w_vendors w) \<and> v_userId v = u"
  by (auto simp: requireVendor_def split: option.splits dest: find_row_Some)

lemma same_vendor:
  assumes "menu_ok w" and "v \<in> set (w_vendors w)" and "v' \<in> set (w_vendors w)" and "v_id v' = v_id v"
  shows "v' = v"
  using assms by (auto simp: menu_ok_def ids_ok_def distinct_map dest: inj_onD)

lemma checked_category_files:
  assumes "checked_category v c w = Inr ()"
  shows "falsy c \<or> (\<exists>k \<in> set (w_categories w). Some (mc_id k) = c \<and> mc_vendorId k = v)"
proof (cases "falsy c")
  case False
  then obtain x where "c = Some x" "requireCategoryBelongsTo v x w = Inr ()"
    using assms by (cases c) (auto simp: checked_category_def)
  then show ?thesis using categories_owned.require_owned by blast
qed simp

lemma createItem_ok:
  assumes "menu_ok w" and "newId \<notin> i_id ` set (w_items w)"
  shows "menu_ok (snd (createItem newId u dto now w))"
proof (cases "failed (createItem newId u dto now w)")
  case True
  then show ?thesis
    using assms(1) by (auto simp: createItem_def split: sum.splits if_splits)
next
  case False
  then obtain v where v: "requireVendor u w = Inr v" "\<not> (v_type v = INFORMAL \<and> INFORMAL_MAX_ITEMS \<le> length (menu_items_of (v_id v) w))"
    and c: "checked_category (v_id v) (ui_categoryId dto) w = Inr ()"
    by (auto simp: createItem_def split: sum.splits if_splits)
  have i: "i_id (new_item newId (v_id v) dto now) = newId" "i_vendorId (new_item newId (v_id v) dto now) = v_id v"
    "stock_agrees (new_item newId (v_id v) dto now)" "i_categoryId (new_item newId (v_id v) dto now) = ui_categoryId dto"
    by (simp_all add: new_item_def Let_def stock_agrees_def)
  have "menu_ok (w\<lparr>w_items := w_items w @ [new_item newId (v_id v) dto now]\<rparr>)"
  proof (rule menu_ok_add_item [OF assms(1)])
    show "filed_at_home (w_categories w) (new_item newId (v_id v) dto now)"
      using checked_category_files [OF c] i by (simp add: filed_at_home_def)
    show "length (menu_items_of (v_id v') w) < INFORMAL_MAX_ITEMS"
      if "v' \<in> set (w_vendors w)" "v_id v' = i_vendorId (new_item newId (v_id v) dto now)" "v_type v' = INFORMAL" for v'
      using same_vendor [OF assms(1), of v v'] requireVendor_row [OF v(1)] that i v(2) by auto
  qed (use assms(2) i in simp_all)
  then show ?thesis using v c assms(1) by (simp add: createItem_def)
qed

lemma item_update_ok:
  assumes "menu_ok w" and "\<And>i. i_id (f i) = i_id i" and "\<And>i. i_vendorId (f i) = i_vendorId i"
    and "\<And>i. i \<in> set (w_items w) \<Longrightarrow> i_id i = itemId \<Longrightarrow> stock_agrees (f i) \<and> filed_at_home (w_categories w) (f i)"
  shows "menu_ok (snd (item_update itemId f w))"
  using assms menu_ok_update_items [OF assms(1), of f "\<lambda>i. i_id i = itemId"]
  by (auto simp: item_update_def split: option.splits)

lemma own_item_ok:
  assumes "menu_ok w"
    and "\<And>v. requireVendor u w = Inr v \<Longrightarrow> requireItemBelongsTo (v_id v) i w = Inr () \<Longrightarrow> menu_ok (snd (k v w))"
  shows "menu_ok (snd (own_item u i k w))"
  using assms by (auto simp: own_item_def split: sum.splits)

lemma old_row_ok: "menu_ok w \<Longrightarrow> i \<in> set (w_items w) \<Longrightarrow> stock_agrees i \<and> filed_at_home (w_categories w) i"
  by (simp add: menu_ok_def rows_ok_def)

lemma item_patch_sel [simp]:
  "i_id (item_patch dto i) = i_id i" "i_vendorId (item_patch dto i) = i_vendorId i"
  "i_categoryId (item_patch dto i) = ui_categoryId dto"
  by (simp_all add: item_patch_def Let_def split: option.splits)

lemma item_patch_stock: "stock_agrees i \<Longrightarrow> stock_agrees (item_patch dto i)"
  by (simp add: item_patch_def Let_def stock_agrees_def split: option.splits)

lemma updateItem_ok:
  assumes "menu_ok w"
  shows "menu_ok (snd (updateItem u i dto w))"
  unfolding updateItem_def
proof (rule own_item_ok [OF assms])
  fix v assume v: "requireVendor u w = Inr v" "requireItemBelongsTo (v_id v) i w = Inr ()"
  show "menu_ok (snd (case checked_category (v_id v) (ui_categoryId dto) w of
      Inl e \<Rightarrow> (Inl e, w) | Inr x \<Rightarrow> item_update i (item_patch dto) w))"
  proof (cases "checked_category (v_id v) (ui_categoryId dto) w")
    case (Inr x)
    have "stock_agrees (item_patch dto r) \<and> filed_at_home (w_categories w) (item_patch dto r)"
      if "r \<in> set (w_items w)" "i_id r = i" for r
    proof
      show "stock_agrees (item_patch dto r)" using old_row_ok [OF assms that(1)] item_patch_stock by blast
      have "i_vendorId r = v_id v"
        using items_owned.owned_row [OF v(2) _ that] assms by (simp add: menu_ok_def ids_ok_def)
      then show "filed_at_home (w_categories w) (item_patch dto r)"
        using checked_category_files [of "v_id v" "ui_categoryId dto" w] Inr by (simp add: filed_at_home_def)
    qed
    then show ?thesis using Inr item_update_ok [OF assms, of "item_patch dto" i] by simp
  qed (simp add: assms)
qed

lemma simple_patch_ok:
  assumes "menu_ok w" and "\<And>i. i_id (f i) = i_id i" and "\<And>i. i_vendorId (f i) = i_vendorId i"
    and "\<And>i. i_categoryId (f i) = i_categoryId i" and "\<And>i. stock_agrees i \<Longrightarrow> stock_agrees (f i)"
  shows "menu_ok (snd (own_item u i (\<lambda>v. item_update i f) w))"
  by (rule own_item_ok [OF assms(1)], rule item_update_ok [OF assms(1-3)])
    (use old_row_ok [OF assms(1)] assms(3-5) in \<open>auto simp: filed_at_home_def\<close>)

lemma deleteItem_ok: "menu_ok w \<Longrightarrow> menu_ok (snd (deleteItem u i w))"
  unfolding deleteItem_def by (rule own_item_ok) (simp_all add: menu_ok_filter_items)

lemma createCategory_ok:
  assumes "menu_ok w" and "newId \<notin> mc_id ` set (w_categories w)"
  shows "menu_ok (snd (createCategory newId u name n now w))"
proof (cases "failed (createCategory newId u name n now w)")
  case True
  then show ?thesis using assms(1) by (auto simp: createCategory_def Let_def split: sum.splits if_splits)
next
  case False
  then obtain v where v: "requireVendor u w = Inr v" "\<not> (v_type v = INFORMAL \<and> INFORMAL_MAX_CATEGORIES \<le> length (categories_of (v_id v) w))"
      "\<not> name_taken (v_id v) name None w"
    by (auto simp: createCategory_def Let_def split: sum.splits if_splits)
  let ?c = "\<lparr>mc_id = newId, mc_vendorId = v_id v, mc_name = name,
      mc_sortOrder = (case n of Some n \<Rightarrow> n | None \<Rightarrow> 0), mc_isActive = True, mc_createdAt = now\<rparr>"
  have "menu_ok (w\<lparr>w_categories := w_categories w @ [?c]\<rparr>)"
  proof (rule menu_ok_add_category [OF assms(1)])
    show "length (categories_of (v_id v') w) < INFORMAL_MAX_CATEGORIES"
      if "v' \<in> set (w_vendors w)" "v_id v' = mc_vendorId ?c" "v_type v' = INFORMAL" for v'
      using same_vendor [OF assms(1), of v v'] requireVendor_row [OF v(1)] that v(2) by auto
  qed (use assms(2) v(3) in simp_all)
  then show ?thesis using v assms(1) by (simp add: createCategory_def Let_def)
qed

lemma own_category_ok:
  assumes "menu_ok w"
    and "\<And>v. requireVendor u w = Inr v \<Longrightarrow> requireCategoryBelongsTo (v_id v) c w = Inr () \<Longrightarrow> menu_ok (snd (k v w))"
  shows "menu_ok (snd (own_category u c k w))"
  using assms by (auto simp: own_category_def split: sum.splits)

lemma updateCategory_ok: "menu_ok w \<Longrightarrow> menu_ok (snd (updateCategory u c name n w))"
  unfolding updateCategory_def by (rule own_category_ok) (simp_all add: menu_ok_update_category)

lemma deleteCategory_ok: "menu_ok w \<Longrightarrow> menu_ok (snd (deleteCategory u c w))"
  unfolding deleteCategory_def by (rule own_category_ok) (simp_all add: menu_ok_delete_category)

lemma menu_apply_ok:
  assumes "menu_ok w" and "\<forall>newId dto. op = CreateItem newId dto \<longrightarrow> newId \<notin> i_id ` set (w_items w)"
    and "\<forall>newId name n. op = CreateCategory newId name n \<longrightarrow> newId \<notin> mc_id ` set (w_categories w)"
  shows "menu_ok (menu_apply u op t w)"
proof (cases op)
  case (SetItemStock i l b)
  have "menu_ok (snd (setItemStock u i l b w))"
    unfolding setItemStock_def by (rule simple_patch_ok [OF assms(1)]) (simp_all add: stock_agrees_def)
  then show ?thesis using SetItemStock by (simp add: menu_apply_def)
next
  case (SetItemPhoto i key)
  have "menu_ok (snd (setItemPhoto u i key w))"
    unfolding setItemPhoto_def by (rule simple_patch_ok [OF assms(1)]) (simp_all add: stock_agrees_def)
  then show ?thesis using SetItemPhoto by (simp add: menu_apply_def)
qed (use assms in \<open>simp_all add: menu_apply_def createItem_ok updateItem_ok deleteItem_ok createCategory_ok
      updateCategory_ok deleteCategory_ok\<close>)

text \<open>
  C29.  Any sequence of menu requests by any users, successful or refused, keeps the menus well-formed:
  an informal vendor has at most fifteen items and two categories, the boolean stock column says the
  same as the three-tier one, category names are unique per vendor, and an item is only filed under a
  category of its own vendor.
\<close>

theorem menus_stay_well_formed:
  assumes "menu_run w w'" and "menu_ok w"
  shows "menu_ok w'"
  using assms by (induction rule: menu_run.induct) (auto intro: menu_apply_ok)

definition demo_dto :: upsert_item where
  "demo_dto = \<lparr>ui_name = ''Ndole'', ui_description = None, ui_priceXAF = 1500, ui_categoryId = None,
     ui_preparationMinutes = None, ui_sortOrder = None, ui_kind = None, ui_stockLevel = Some OUT_OF_STOCK\<rparr>"

theorem menus_stay_well_formed_witness:
  "menu_ok (menu_apply ''U'' (CreateItem ''I'' demo_dto) 0 (demo_world [] []))
   \<and> map i_isInStock (w_items (menu_apply ''U'' (CreateItem ''I'' demo_dto) 0 (demo_world [] []))) = [False]"
proof
  have "menu_ok (demo_world [] [])"
    by (simp add: menu_ok_def ids_ok_def names_ok_def caps_ok_def rows_ok_def menu_items_of_def categories_of_def demo_world_def)
  then show "menu_ok (menu_apply ''U'' (CreateItem ''I'' demo_dto) 0 (demo_world [] []))"
    by (rule menus_stay_well_formed [rotated]) (rule menu_request [OF menu_start], simp_all add: demo_world_def)
  show "map i_isInStock (w_items (menu_apply ''U'' (CreateItem ''I'' demo_dto) 0 (demo_world [] []))) = [False]"
    by code_simp
qed

section \<open>Nobody else's menu\<close>

lemma others_append: "owner' \<noteq> i_vendorId i \<Longrightarrow> menu_items_of owner' (w\<lparr>w_items := w_items w @ [i]\<rparr>) = menu_items_of owner' w"
  by (simp add: menu_items_of_def)

lemma item_update_others:
  assumes "requireItemBelongsTo v i w = Inr ()" and "distinct (map i_id (w_items w))" and "\<And>r. i_vendorId (f r) = i_vendorId r"
    and "x \<noteq> v"
  shows "menu_items_of x (snd (item_update i f w)) = menu_items_of x w \<and> categories_of x (snd (item_update i f w)) = categories_of x w"
  using items_owned.others_after_update [OF assms]
  by (simp add: item_update_def menu_items_of_def categories_of_def split: option.splits)

lemma own_item_others:
  assumes "\<And>v. requireVendor u w = Inr v \<Longrightarrow> requireItemBelongsTo (v_id v) i w = Inr () \<Longrightarrow>
      menu_items_of x (snd (k v w)) = menu_items_of x w \<and> categories_of x (snd (k v w)) = categories_of x w"
  shows "menu_items_of x (snd (own_item u i k w)) = menu_items_of x w \<and> categories_of x (snd (own_item u i k w)) = categories_of x w"
  using assms by (auto simp: own_item_def split: sum.splits)

lemma deleteCategory_others:
  assumes "menu_ok w" and "requireCategoryBelongsTo v c w = Inr ()" and "x \<noteq> v" and "c \<noteq> []"
  shows "filter (\<lambda>i. i_vendorId i = x) (upd_where (\<lambda>i. i_categoryId i = Some c) (\<lambda>i. i\<lparr>i_categoryId := None\<rparr>) (w_items w))
       = filter (\<lambda>i. i_vendorId i = x) (w_items w)"
proof -
  have d: "distinct (map mc_id (w_categories w))" using assms(1) by (simp add: menu_ok_def ids_ok_def)
  have home: "i_vendorId i = v" if I: "i \<in> set (w_items w)" "i_categoryId i = Some c" for i
  proof -
    have "filed_at_home (w_categories w) i" using old_row_ok [OF assms(1) I(1)] by simp
    then obtain k where "k \<in> set (w_categories w)" "mc_id k = c" "mc_vendorId k = i_vendorId i"
      using I(2) assms(4) by (auto simp: filed_at_home_def)
    then show ?thesis using categories_owned.owned_row [OF assms(2) d] by auto
  qed
  have "filter (\<lambda>i. i_vendorId i = x) (upd_where (\<lambda>i. i_categoryId i = Some c) (\<lambda>i. i\<lparr>i_categoryId := None\<rparr>) rs)
      = filter (\<lambda>i. i_vendorId i = x) rs" if "\<forall>i \<in> set rs. i_categoryId i = Some c \<longrightarrow> i_vendorId i = v" for rs
    using that assms(3) by (induction rs) auto
  then show ?thesis using home by blast
qed

lemma own_category_others:
  assumes "\<And>v. requireVendor u w = Inr v \<Longrightarrow> requireCategoryBelongsTo (v_id v) c w = Inr () \<Longrightarrow>
      menu_items_of x (snd (k v w)) = menu_items_of x w \<and> categories_of x (snd (k v w)) = categories_of x w"
  shows "menu_items_of x (snd (own_category u c k w)) = menu_items_of x w \<and> categories_of x (snd (own_category u c k w)) = categories_of x w"
  using assms by (auto simp: own_category_def split: sum.splits)

lemma createItem_others:
  assumes "\<And>v. requireVendor u w = Inr v \<Longrightarrow> x \<noteq> v_id v"
  shows "menu_items_of x (snd (createItem newId u dto now w)) = menu_items_of x w
    \<and> categories_of x (snd (createItem newId u dto now w)) = categories_of x w"
  using assms by (auto simp: createItem_def menu_items_of_def categories_of_def new_item_def Let_def split: sum.splits)

lemma createCategory_others:
  assumes "\<And>v. requireVendor u w = Inr v \<Longrightarrow> x \<noteq> v_id v"
  shows "menu_items_of x (snd (createCategory newId u name n now w)) = menu_items_of x w
    \<and> categories_of x (snd (createCategory newId u name n now w)) = categories_of x w"
  using assms by (auto simp: createCategory_def menu_items_of_def categories_of_def Let_def split: sum.splits)

text \<open>
  A request only ever changes the menu of the requester's own vendor: for every other vendor the
  items and the categories are the same rows in the same order, whatever ids the request names.
\<close>

theorem menu_respects_owners:
  assumes "menu_ok w" and "\<And>v. requireVendor u w = Inr v \<Longrightarrow> x \<noteq> v_id v" and "op \<noteq> DeleteCategory []"
  shows "menu_items_of x (menu_apply u op t w) = menu_items_of x w \<and> categories_of x (menu_apply u op t w) = categories_of x w"
proof -
  have d: "distinct (map i_id (w_items w))" "distinct (map mc_id (w_categories w))"
    using assms(1) by (simp_all add: menu_ok_def ids_ok_def)
  show ?thesis
  proof (cases op)
    case (UpdateItem i dto)
    have "menu_items_of x (snd (updateItem u i dto w)) = menu_items_of x w \<and> categories_of x (snd (updateItem u i dto w)) = categories_of x w"
      unfolding updateItem_def
      by (rule own_item_others) (use item_update_others [OF _ d(1)] assms(2) in \<open>auto split: sum.splits\<close>)
    then show ?thesis using UpdateItem by (simp add: menu_apply_def)
  next
    case (DeleteItem i)
    have "menu_items_of x (snd (deleteItem u i w)) = menu_items_of x w \<and> categories_of x (snd (deleteItem u i w)) = categories_of x w"
      unfolding deleteItem_def
      by (rule own_item_others) (use items_owned.others_after_delete [OF _ d(1)] assms(2) in \<open>auto simp: menu_items_of_def categories_of_def\<close>)
    then show ?thesis using DeleteItem by (simp add: menu_apply_def)
  next
    case (SetItemStock i l b)
    have "menu_items_of x (snd (setItemStock u i l b w)) = menu_items_of x w \<and> categories_of x (snd (setItemStock u i l b w)) = categories_of x w"
      unfolding setItemStock_def by (rule own_item_others) (use item_update_others [OF _ d(1)] assms(2) in auto)
    then show ?thesis using SetItemStock by (simp add: menu_apply_def)
  next
    case (SetItemPhoto i key)
    have "menu_items_of x (snd (setItemPhoto u i key w)) = menu_items_of x w \<and> categories_of x (snd (setItemPhoto u i key w)) = categories_of x w"
      unfolding setItemPhoto_def by (rule own_item_others) (use item_update_others [OF _ d(1)] assms(2) in auto)
    then show ?thesis using SetItemPhoto by (simp add: menu_apply_def)
  next
    case (UpdateCategory c name n)
    have "menu_items_of x (snd (updateCategory u c name n w)) = menu_items_of x w \<and> categories_of x (snd (updateCategory u c name n w)) = categories_of x w"
      unfolding updateCategory_def
      by (rule own_category_others)
        (use categories_owned.others_after_update [OF _ d(2)] assms(2) in \<open>auto simp: menu_items_of_def categories_of_def category_patch_def\<close>)
    then show ?thesis using UpdateCategory by (simp add: menu_apply_def)
  next
    case (DeleteCategory c)
    have "menu_items_of x (snd (deleteCategory u c w)) = menu_items_of x w \<and> categories_of x (snd (deleteCategory u c w)) = categories_of x w"
      unfolding deleteCategory_def
      by (rule own_category_others)
        (use categories_owned.others_after_delete [OF _ d(2)] deleteCategory_others [OF assms(1)] assms(2,3) DeleteCategory in
          \<open>auto simp: menu_items_of_def categories_of_def\<close>)
    then show ?thesis using DeleteCategory by (simp add: menu_apply_def)
  qed (use assms(2) in \<open>simp_all add: menu_apply_def createItem_others createCategory_others\<close>)
qed

theorem menu_respects_owners_witness:
  "menu_items_of ''V2'' (menu_apply ''U'' (DeleteItem ''I'') 0 ((demo_world [] [])\<lparr>w_items := [new_item ''I'' ''V2'' demo_dto 0]\<rparr>))
   = [new_item ''I'' ''V2'' demo_dto 0]"
proof -
  let ?w = "(demo_world [] [])\<lparr>w_items := [new_item ''I'' ''V2'' demo_dto 0]\<rparr>"
  have ok: "menu_ok ?w"
    by (simp add: menu_ok_def ids_ok_def names_ok_def caps_ok_def rows_ok_def menu_items_of_def categories_of_def demo_world_def
        new_item_def Let_def stock_agrees_def filed_at_home_def demo_dto_def demo_vendor_def INFORMAL_MAX_ITEMS_def)
  have "menu_items_of ''V2'' (menu_apply ''U'' (DeleteItem ''I'') 0 ?w) = menu_items_of ''V2'' ?w"
    using menu_respects_owners [OF ok, of "''U''" "''V2''" "DeleteItem ''I''" 0]
    by (simp add: requireVendor_def demo_vendor_def)
  then show ?thesis by (simp add: menu_items_of_def new_item_def Let_def)
qed

end
