(* ===== verification/Catalogue.thy ===== *)
theory Catalogue
  imports Menu Pricing Text_Codecs
begin

text \<open>
  What a consumer sees: opening hours (\<open>catalogue/availability.service.ts\<close>) and the browse query with
  its cards and the public vendor page (\<open>catalogue/browse.service.ts\<close>).  PostGIS distance in metres
  and \<open>ILIKE\<close> are parameters; the clock of the server is a weekday, an hour and a minute.
\<close>

section \<open>Opening hours\<close>

definition DAY_KEYS :: "string list" where
  "DAY_KEYS = [''sun'', ''mon'', ''tue'', ''wed'', ''thu'', ''fri'', ''sat'']"

text \<open>JavaScript compares strings by code units.\<close>

fun str_less :: "string \<Rightarrow> string \<Rightarrow> bool" where
  "str_less [] ys = (ys \<noteq> [])"
| "str_less (x # xs) [] = False"
| "str_less (x # xs) (y # ys) =
     ((of_char x :: nat) < of_char y \<or> (of_char x :: nat) = of_char y \<and> str_less xs ys)"

definition pad2 :: "nat \<Rightarrow> string" where
  "pad2 n = replicate (2 - length (show_nat n)) (CHR ''0'') @ show_nat n"

definition hhmm :: "nat \<Rightarrow> nat \<Rightarrow> string" where "hhmm h m = pad2 h @ '':'' @ pad2 m"

text \<open>\<open>getDay\<close>, \<open>getHours\<close> and \<open>getMinutes\<close> of an instant on a server at \<open>offset\<close> minutes from UTC.\<close>

definition local_clock :: "int \<Rightarrow> time \<Rightarrow> nat \<times> nat \<times> nat" where
  "local_clock offset now =
     (let minutes = now div 60000 + offset
      in (nat ((minutes div 1440 + 4) mod 7), nat (minutes mod 1440 div 60), nat (minutes mod 60)))"

definition computeIsOpenNow ::
  "VendorType \<Rightarrow> bool \<Rightarrow> (string \<times> string \<times> string) list option \<Rightarrow> nat \<times> nat \<times> nat \<Rightarrow> bool" where
  "computeIsOpenNow type isOpen hours clock =
     (case clock of
        (weekday, h, m) \<Rightarrow>
          if \<not> isOpen then False
          else if type = INFORMAL then True
          else case hours of
                 None \<Rightarrow> True
               | Some hs \<Rightarrow>
                   if hs = [] then True
                   else case map_of hs (DAY_KEYS ! weekday) of
                          None \<Rightarrow> False
                        | Some (open_at, close_at) \<Rightarrow>
                            \<not> str_less (hhmm h m) open_at \<and> str_less (hhmm h m) close_at)"

text \<open>\<open>dto\<close> has the days that were sent, under their keys; days of no week are dropped.\<close>

definition setHours :: "uuid \<Rightarrow> (string \<times> string \<times> string) list \<Rightarrow> world \<Rightarrow> (unit, world) outcome" where
  "setHours userId dto w =
     (case requireVendor userId w of
        Inl e \<Rightarrow> (Inl e, w)
      | Inr v \<Rightarrow>
          (let hours = concat (map (\<lambda>day. case map_of dto day of None \<Rightarrow> [] | Some slot \<Rightarrow> [(day, slot)]) DAY_KEYS)
           in (Inr (), w\<lparr>w_vendors := upd_where (\<lambda>x. v_id x = v_id v) (\<lambda>x. x\<lparr>v_hours := Some hours\<rparr>) (w_vendors w)\<rparr>)))"

definition setVendorAvailability :: "uuid \<Rightarrow> bool \<Rightarrow> world \<Rightarrow> (bool, world) outcome" where
  "setVendorAvailability userId isOpen w =
     (case requireVendor userId w of
        Inl e \<Rightarrow> (Inl e, w)
      | Inr v \<Rightarrow> (Inr isOpen, w\<lparr>w_vendors := upd_where (\<lambda>x. v_id x = v_id v) (\<lambda>x. x\<lparr>v_isOpen := isOpen\<rparr>) (w_vendors w)\<rparr>))"

definition getVendorAvailability ::
  "uuid \<Rightarrow> nat \<times> nat \<times> nat \<Rightarrow> world \<Rightarrow> http_error + (bool \<times> (string \<times> string \<times> string) list option \<times> bool)" where
  "getVendorAvailability userId clock w =
     (case requireVendor userId w of
        Inl e \<Rightarrow> Inl e
      | Inr v \<Rightarrow> Inr (v_isOpen v, v_hours v, computeIsOpenNow (v_type v) (v_isOpen v) (v_hours v) clock))"

text \<open>The validator of a slot: \<open>^([01]?\d|2[0-3]):[0-5]\d$\<close>.\<close>

definition digit_in :: "nat \<Rightarrow> nat \<Rightarrow> char \<Rightarrow> bool" where
  "digit_in a b c \<longleftrightarrow> 48 + a \<le> (of_char c :: nat) \<and> (of_char c :: nat) \<le> 48 + b"

definition time_pattern :: "string \<Rightarrow> bool" where
  "time_pattern s =
     (let minutes_ok = (\<lambda>t. length t = 3 \<and> t ! 0 = CHR '':'' \<and> digit_in 0 5 (t ! 1) \<and> digit_in 0 9 (t ! 2))
      in (length s = 4 \<and> digit_in 0 9 (s ! 0) \<and> minutes_ok (drop 1 s))
       \<or> (length s = 5 \<and> digit_in 0 1 (s ! 0) \<and> digit_in 0 9 (s ! 1) \<and> minutes_ok (drop 2 s))
       \<or> (length s = 5 \<and> s ! 0 = CHR ''2'' \<and> digit_in 0 3 (s ! 1) \<and> minutes_ok (drop 2 s)))"

subsection \<open>Comparing clock strings\<close>

lemma pad2_digits: "n < 100 \<Longrightarrow> pad2 n = [char_of (48 + n div 10), char_of (48 + n mod 10)]"
proof (cases "n < 10")
  case True
  have "CHR ''0'' = char_of (48 :: nat)" by code_simp
  then show ?thesis using True by (simp add: pad2_def show_nat.simps [of n])
next
  case False
  assume "n < 100"
  then have "n div 10 < 10" by simp
  then show ?thesis using False by (simp add: pad2_def show_nat.simps [of n] show_nat.simps [of "n div 10"])
qed

lemma hhmm_digits:
  assumes "h < 24" and "m < 60"
  shows "hhmm h m = [char_of (48 + h div 10), char_of (48 + h mod 10), CHR '':'', char_of (48 + m div 10), char_of (48 + m mod 10)]"
  using assms by (simp add: hhmm_def pad2_digits)

lemma of_char_small: "d < 10 \<Longrightarrow> (of_char (char_of (48 + d :: nat) :: char) :: nat) = 48 + d"
  by simp

lemma two_digits_less:
  fixes p q r s :: nat
  assumes "q < 10" and "s < 10"
  shows "p < r \<or> p = r \<and> q < s \<longleftrightarrow> 10 * p + q < 10 * r + s"
  by (rule linorder_cases [of p r]) (use assms in simp_all)

lemma digits_less: "a div 10 < b div 10 \<or> a div 10 = b div 10 \<and> a mod 10 < b mod 10 \<longleftrightarrow> a < (b :: nat)"
  using two_digits_less [of "a mod 10" "b mod 10" "a div 10" "b div 10"] by simp

lemma digits_equal: "a = (b :: nat) \<longleftrightarrow> a div 10 = b div 10 \<and> a mod 10 = b mod 10"
  by (metis mult_div_mod_eq)

lemma hhmm_less:
  assumes "h < 24" and "m < 60" and "h' < 24" and "m' < 60"
  shows "str_less (hhmm h m) (hhmm h' m') \<longleftrightarrow> h * 60 + m < h' * 60 + m'"
proof -
  have d: "h div 10 < 10" "h' div 10 < 10" "m div 10 < 10" "m' div 10 < 10"
    "h mod 10 < 10" "h' mod 10 < 10" "m mod 10 < 10" "m' mod 10 < 10" using assms by simp_all
  have "str_less (hhmm h m) (hhmm h' m') \<longleftrightarrow>
      h div 10 < h' div 10 \<or> h div 10 = h' div 10 \<and> (h mod 10 < h' mod 10 \<or> h mod 10 = h' mod 10 \<and>
        (m div 10 < m' div 10 \<or> m div 10 = m' div 10 \<and> m mod 10 < m' mod 10))"
    unfolding hhmm_digits [OF assms(1,2)] hhmm_digits [OF assms(3,4)] str_less.simps
    using d by (simp only: of_char_small) auto
  also have "\<dots> \<longleftrightarrow> h < h' \<or> h = h' \<and> m < m'"
    unfolding digits_less [of h h', symmetric] digits_less [of m m', symmetric] digits_equal [of h h'] by blast
  also have "\<dots> \<longleftrightarrow> h * 60 + m < h' * 60 + m'" using assms by linarith
  finally show ?thesis .
qed

text \<open>
  C37.  For a restaurant whose flag is on and whose slot of the day is written with two digits, the string
  comparison of the service is the comparison of minutes: it is open from the opening minute up to but
  not including the closing minute.  So a slot that ends after midnight is never open.
\<close>

theorem open_now_is_interval:
  assumes "type \<noteq> INFORMAL" and "map_of hs (DAY_KEYS ! weekday) = Some (hhmm oh om, hhmm ch cm)"
    and "h < 24" and "m < 60" and "oh < 24" and "om < 60" and "ch < 24" and "cm < 60"
  shows "(computeIsOpenNow type True (Some hs) (weekday, h, m) \<longleftrightarrow>
           oh * 60 + om \<le> h * 60 + m \<and> h * 60 + m < ch * 60 + cm)
    \<and> (ch * 60 + cm \<le> oh * 60 + om \<longrightarrow> \<not> computeIsOpenNow type True (Some hs) (weekday, h, m))"
proof -
  have "hs \<noteq> []" using assms(2) by auto
  then have "computeIsOpenNow type True (Some hs) (weekday, h, m) \<longleftrightarrow>
      \<not> str_less (hhmm h m) (hhmm oh om) \<and> str_less (hhmm h m) (hhmm ch cm)"
    using assms(1,2) by (simp add: computeIsOpenNow_def)
  then show ?thesis using hhmm_less assms(3-8) by (simp add: not_less)
qed

theorem open_now_is_interval_witness:
  "computeIsOpenNow RESTAURANT True (Some [(''mon'', hhmm 7 30, hhmm 21 0)]) (1, 7, 30)
   \<and> \<not> computeIsOpenNow RESTAURANT True (Some [(''mon'', hhmm 7 30, hhmm 21 0)]) (1, 21, 0)"
  using open_now_is_interval [of RESTAURANT "[(''mon'', hhmm 7 30, hhmm 21 0)]" 1 7 30 21 0 7 30]
    open_now_is_interval [of RESTAURANT "[(''mon'', hhmm 7 30, hhmm 21 0)]" 1 7 30 21 0 21 0]
  by (simp add: DAY_KEYS_def)

lemma local_clock_bounds:
  assumes "local_clock offset now = (weekday, h, m)"
  shows "weekday < 7 \<and> h < 24 \<and> m < 60"
proof -
  define x where "x = now div 60000 + offset"
  have "x mod 1440 div 60 \<le> 1439 div 60" by (rule zdiv_mono1) simp_all
  then have h: "nat (x mod 1440 div 60) < 24" by linarith
  have "(x div 1440 + 4) mod 7 < 7" by simp
  then have w: "nat ((x div 1440 + 4) mod 7) < 7" by linarith
  have "x mod 60 < 60" by simp
  then have m: "nat (x mod 60) < 60" by linarith
  have "(weekday, h, m) = (nat ((x div 1440 + 4) mod 7), nat (x mod 1440 div 60), nat (x mod 60))"
    using assms by (simp only: local_clock_def x_def Let_def)
  then show ?thesis using h w m by (simp only: prod.inject)
qed

text \<open>
  The validator also accepts an opening time with a one-digit hour; from 3:00 to 9:59 such a slot
  compares greater than every clock string, and the restaurant is closed at every instant, on every
  server clock.
\<close>

theorem unpadded_slot_never_opens:
  assumes "type \<noteq> INFORMAL" and "3 \<le> d" and "d < 10" and "open_at = char_of (48 + d :: nat) # rest"
    and "time_pattern open_at" and "length open_at = 4"
    and "map_of hs (DAY_KEYS ! fst (local_clock offset now)) = Some (open_at, close_at)"
  shows "\<not> computeIsOpenNow type isOpen (Some hs) (local_clock offset now)"
proof -
  obtain weekday h m where c: "local_clock offset now = (weekday, h, m)" by (metis prod.collapse)
  have hm: "h < 24" "m < 60" using local_clock_bounds [OF c] by simp_all
  have "h div 10 < 10" "h div 10 < d" "hs \<noteq> []" using hm assms(2,7) by auto
  then have "str_less (hhmm h m) open_at"
    unfolding hhmm_digits [OF hm] assms(4) str_less.simps using assms(3) by (simp only: of_char_small) simp
  then show ?thesis using assms(1,7) c \<open>hs \<noteq> []\<close> by (auto simp: computeIsOpenNow_def)
qed

theorem unpadded_slot_never_opens_witness:
  "\<not> computeIsOpenNow RESTAURANT True (Some [(''thu'', ''7:30'', ''21:00'')]) (local_clock 60 (12 * 3600000))"
proof -
  have slot: "''7:30'' = char_of (48 + 7 :: nat) # '':30''" "time_pattern ''7:30''"
      "map_of [(''thu'', ''7:30'', ''21:00'')] (DAY_KEYS ! fst (local_clock 60 (12 * 3600000))) = Some (''7:30'', ''21:00'')"
    by code_simp+
  show ?thesis by (rule unpadded_slot_never_opens [OF _ _ _ slot(1,2) _ slot(3)]) simp_all
qed

section \<open>Browsing\<close>

definition MOTO_AVG_KMH :: rat where "MOTO_AVG_KMH = 25"
definition DEFAULT_PREP_MINUTES :: rat where "DEFAULT_PREP_MINUTES = 20"
definition PLAN_1_RADIUS_KM :: rat where "PLAN_1_RADIUS_KM = 2"
definition PLAN_2_RADIUS_KM :: rat where "PLAN_2_RADIUS_KM = 5"

definition classifyPlan :: "rat \<Rightarrow> nat" where
  "classifyPlan distanceKm =
     (if distanceKm \<le> PLAN_1_RADIUS_KM then 1 else if distanceKm \<le> PLAN_2_RADIUS_KM then 2 else 3)"

record vendor_card =
  vc_vendor :: vendor
  vc_distanceKm :: rat
  vc_deliveryFeeXAF :: xaf
  vc_etaMinutes :: int
  vc_plan :: nat
  vc_isOpenNow :: bool

record browse_dto =
  bd_position :: "rat \<times> rat"
  bd_radiusKm :: "rat option"
  bd_q :: "string option"

definition radius_metres :: "browse_dto \<Rightarrow> rat" where
  "radius_metres dto = (case bd_radiusKm dto of Some r \<Rightarrow> r | None \<Rightarrow> 10) * 1000"

definition search_pattern :: "browse_dto \<Rightarrow> string option" where
  "search_pattern dto =
     (let q = map_option trim (bd_q dto)
      in if falsy q then None else map_option (\<lambda>s. ''%'' @ s @ ''%'') q)"

definition search_hit :: "(string \<Rightarrow> string \<Rightarrow> bool) \<Rightarrow> string option \<Rightarrow> world \<Rightarrow> vendor \<Rightarrow> bool" where
  "search_hit ilike pat w v =
     (case pat of
        None \<Rightarrow> True
      | Some p \<Rightarrow> ilike (v_name v) p \<or> (case v_badge v of None \<Rightarrow> False | Some b \<Rightarrow> ilike b p)
          \<or> (\<exists>i \<in> set (w_items w). i_vendorId i = v_id v \<and> i_isAvailable i \<and> ilike (i_name i) p))"

definition browse_row ::
  "(rat \<times> rat \<Rightarrow> rat \<times> rat \<Rightarrow> rat) \<Rightarrow> (string \<Rightarrow> string \<Rightarrow> bool) \<Rightarrow> browse_dto \<Rightarrow> world \<Rightarrow> vendor \<Rightarrow> bool" where
  "browse_row metres ilike dto w v \<longleftrightarrow>
     v_status v = VS_ACTIVE \<and> v_isOpen v \<and> metres (v_location v) (bd_position dto) \<le> radius_metres dto
     \<and> search_hit ilike (search_pattern dto) w v"

definition card_of :: "(rat \<times> rat \<Rightarrow> rat \<times> rat \<Rightarrow> rat) \<Rightarrow> browse_dto \<Rightarrow> nat \<times> nat \<times> nat \<Rightarrow> vendor \<Rightarrow> vendor_card" where
  "card_of metres dto clock v =
     (let distanceKm = metres (v_location v) (bd_position dto) / 1000
      in \<lparr>vc_vendor = v, vc_distanceKm = of_int (js_round (distanceKm * 10)) / 10,
          vc_deliveryFeeXAF = computeDeliveryFeeXAF distanceKm,
          vc_etaMinutes = js_round (distanceKm / MOTO_AVG_KMH * 60 + DEFAULT_PREP_MINUTES),
          vc_plan = classifyPlan distanceKm,
          vc_isOpenNow = computeIsOpenNow (v_type v) (v_isOpen v) (v_hours v) clock\<rparr>)"

definition browse ::
  "(rat \<times> rat \<Rightarrow> rat \<times> rat \<Rightarrow> rat) \<Rightarrow> (string \<Rightarrow> string \<Rightarrow> bool) \<Rightarrow> browse_dto \<Rightarrow> nat \<times> nat \<times> nat \<Rightarrow> world
   \<Rightarrow> vendor_card list" where
  "browse metres ilike dto clock w =
     map (card_of metres dto clock)
       (take 100 (sort_key (\<lambda>v. metres (v_location v) (bd_position dto)) (filter (browse_row metres ilike dto w) (w_vendors w))))"

definition getVendorPublic ::
  "uuid \<Rightarrow> nat \<times> nat \<times> nat \<Rightarrow> world \<Rightarrow> http_error + (vendor \<times> bool \<times> menu_category list \<times> item list)" where
  "getVendorPublic vendorId clock w =
     (case find_row (\<lambda>v. v_id v = vendorId) (w_vendors w) of
        None \<Rightarrow> Inl (NotFound ''vendor_not_found'')
      | Some v \<Rightarrow>
          if v_status v \<noteq> VS_ACTIVE then Inl (NotFound ''vendor_not_found'')
          else Inr (v, computeIsOpenNow (v_type v) (v_isOpen v) (v_hours v) clock,
                    sort_key mc_sortOrder (sort_key mc_createdAt
                      (filter (\<lambda>c. mc_vendorId c = vendorId \<and> mc_isActive c) (w_categories w))),
                    sort_key i_sortOrder (sort_key i_createdAt
                      (filter (\<lambda>i. i_vendorId i = vendorId \<and> i_isAvailable i) (w_items w)))))"

text \<open>
  Browsing shows approved, open vendors within the radius only, nearest first and at most a
  hundred; nobody nearer is left out; the fee on a card is the fee the checkout computes for that
  distance, so it lies between 500 and 1500 FCFA; the tiers grow with the distance.
\<close>

theorem browse_sound:
  fixes metres :: "rat \<times> rat \<Rightarrow> rat \<times> rat \<Rightarrow> rat"
  assumes "cards = browse metres ilike dto clock w"
  shows "length cards \<le> 100
    \<and> sorted (map (\<lambda>c. metres (v_location (vc_vendor c)) (bd_position dto)) cards)
    \<and> (\<forall>c \<in> set cards. vc_vendor c \<in> set (w_vendors w) \<and> v_status (vc_vendor c) = VS_ACTIVE \<and> v_isOpen (vc_vendor c)
         \<and> metres (v_location (vc_vendor c)) (bd_position dto) \<le> radius_metres dto
         \<and> vc_deliveryFeeXAF c = computeDeliveryFeeXAF (metres (v_location (vc_vendor c)) (bd_position dto) / 1000)
         \<and> vc_plan c = classifyPlan (metres (v_location (vc_vendor c)) (bd_position dto) / 1000))
    \<and> (\<forall>v \<in> set (w_vendors w). browse_row metres ilike dto w v \<longrightarrow>
         v \<in> vc_vendor ` set cards \<or>
         length cards = 100 \<and> (\<forall>c \<in> set cards. metres (v_location (vc_vendor c)) (bd_position dto) \<le> metres (v_location v) (bd_position dto)))"
proof -
  let ?key = "\<lambda>v. metres (v_location v) (bd_position dto)"
  let ?rows = "sort_key ?key (filter (browse_row metres ilike dto w) (w_vendors w))"
  have cards: "cards = map (card_of metres dto clock) (take 100 ?rows)" using assms by (simp add: browse_def)
  have v: "vc_vendor (card_of metres dto clock x) = x" for x by (simp add: card_of_def Let_def)
  have map_v: "map (\<lambda>c. ?key (vc_vendor c)) cards = take 100 (map ?key ?rows)"
    by (simp add: cards v take_map comp_def)
  have "sorted (map (\<lambda>c. ?key (vc_vendor c)) cards)" unfolding map_v by (intro sorted_wrt_take) simp
  moreover have "\<forall>c \<in> set cards. vc_vendor c \<in> set (w_vendors w) \<and> v_status (vc_vendor c) = VS_ACTIVE \<and> v_isOpen (vc_vendor c)
         \<and> ?key (vc_vendor c) \<le> radius_metres dto
         \<and> vc_deliveryFeeXAF c = computeDeliveryFeeXAF (?key (vc_vendor c) / 1000)
         \<and> vc_plan c = classifyPlan (?key (vc_vendor c) / 1000)"
    unfolding cards by (auto dest!: in_set_takeD simp: browse_row_def card_of_def Let_def)
  moreover have "v \<in> vc_vendor ` set cards \<or> length cards = 100 \<and> (\<forall>c \<in> set cards. ?key (vc_vendor c) \<le> ?key v)"
    if "v \<in> set (w_vendors w)" "browse_row metres ilike dto w v" for v
  proof -
    have "v \<in> set ?rows" using that by simp
    then have "v \<in> set (take 100 ?rows) \<or> v \<in> set (drop 100 ?rows)" by (metis Un_iff append_take_drop_id set_append)
    moreover have "length cards = 100 \<and> (\<forall>c \<in> set cards. ?key (vc_vendor c) \<le> ?key v)" if d: "v \<in> set (drop 100 ?rows)"
    proof
      have "100 < length ?rows" using d by (metis drop_all empty_iff empty_set linorder_not_le)
      then show "length cards = 100" by (simp add: cards)
      have "sorted (map ?key (take 100 ?rows) @ map ?key (drop 100 ?rows))"
        by (metis append_take_drop_id map_append sorted_sort_key)
      then have "\<forall>x \<in> set (take 100 ?rows). ?key x \<le> ?key v" using d by (auto simp: sorted_append)
      then show "\<forall>c \<in> set cards. ?key (vc_vendor c) \<le> ?key v" by (simp add: cards v)
    qed
    moreover have "v \<in> vc_vendor ` set cards" if "v \<in> set (take 100 ?rows)"
      using that by (force simp: cards v image_image)
    ultimately show ?thesis by blast
  qed
  ultimately show ?thesis by (simp add: cards)
qed

theorem browse_sound_witness:
  "map (v_id \<circ> vc_vendor) (browse (\<lambda>a b. 2000) (\<lambda>t p. True) \<lparr>bd_position = (4, 9), bd_radiusKm = None, bd_q = None\<rparr> (1, 12, 0) (demo_world [] [])) = [''V'']
   \<and> length (browse (\<lambda>a b. 2000) (\<lambda>t p. True) \<lparr>bd_position = (4, 9), bd_radiusKm = None, bd_q = None\<rparr> (1, 12, 0) (demo_world [] [])) \<le> 100"
  using browse_sound [OF refl, of "\<lambda>a b. 2000" "\<lambda>t p. True" "\<lparr>bd_position = (4, 9), bd_radiusKm = None, bd_q = None\<rparr>" "(1, 12, 0)" "demo_world [] []"]
  by (auto simp: browse_def browse_row_def radius_metres_def search_hit_def search_pattern_def card_of_def Let_def demo_vendor_def)

end
