(* ===== verification/Onboarding.thy ===== *)
theory Onboarding
  imports Admin_Auth Menu_Invariant Catalogue
begin

text \<open>
  How an account becomes a vendor or a rider and stops being one: submission and self-service of
  \<open>catalogue/vendor.service.ts\<close> and \<open>riders/riders.service.ts\<close>, \<open>users/users.service.ts\<close>, and the
  decisions of \<open>admin/admin-validation.service.ts\<close>.  An attached picture is the key under which R2
  stored it; the WhatsApp messages, which no operation waits for, are left out.
\<close>

section \<open>Vendors\<close>

datatype declared_capacity = LT_10 | R_10_30 | GT_30

definition CAPACITY_TO_INT :: "declared_capacity \<Rightarrow> nat" where
  "CAPACITY_TO_INT c = (case c of LT_10 \<Rightarrow> 8 | R_10_30 \<Rightarrow> 30 | GT_30 \<Rightarrow> 50)"

definition DOUALA_CENTER :: "rat \<times> rat" where "DOUALA_CENTER = (40511 / 10000, 97679 / 10000)"

definition COMMISSION_RATE_BY_TYPE :: "VendorType \<Rightarrow> rat" where
  "COMMISSION_RATE_BY_TYPE t = (case t of INFORMAL \<Rightarrow> 6 / 100 | SEMI_FORMAL \<Rightarrow> 10 / 100 | RESTAURANT \<Rightarrow> 17 / 100)"

text \<open>The badges end in a pictogram, here by its UTF-8 bytes.\<close>

definition badgeForType :: "VendorType \<Rightarrow> string" where
  "badgeForType t =
     (case t of
        INFORMAL \<Rightarrow> ''Cuisine locale '' @ [CHR 0xF0, CHR 0x9F, CHR 0x8D, CHR 0xB2]
      | SEMI_FORMAL \<Rightarrow> ''Maquis '' @ [CHR 0xF0, CHR 0x9F, CHR 0x8D, CHR 0xBD, CHR 0xEF, CHR 0xB8, CHR 0x8F]
      | RESTAURANT \<Rightarrow> ''Restaurant '' @ [CHR 0xF0, CHR 0x9F, CHR 0x8D, CHR 0xBD, CHR 0xEF, CHR 0xB8, CHR 0x8F])"

record submit_vendor =
  sv_name :: string
  sv_ownerName :: string
  sv_type :: "VendorType option"
  sv_quartier :: string
  sv_latitude :: "rat option"
  sv_longitude :: "rat option"
  sv_pointOfReference :: "string option"
  sv_whatsappPhone :: string
  sv_momoPhone :: string
  sv_declaredCapacity :: declared_capacity
  sv_firstItemName :: string
  sv_firstItemPriceXAF :: xaf
  sv_extraItem1Name :: "string option"
  sv_extraItem1PriceXAF :: "xaf option"
  sv_extraItem2Name :: "string option"
  sv_extraItem2PriceXAF :: "xaf option"
  sv_rccmNumber :: "string option"
  sv_niuNumber :: "string option"

record vendor_files =
  vf_profilePhoto :: "string option"
  vf_firstItemPhoto :: "string option"
  vf_enseignePhoto :: "string option"

text \<open>The ids of the rows a submission may create: user, vendor, up to three items.\<close>

record vendor_draws =
  vd_user :: uuid
  vd_vendor :: uuid
  vd_items :: "nat \<Rightarrow> uuid"

definition submitted_type :: "submit_vendor \<Rightarrow> VendorType" where
  "submitted_type dto = (case sv_type dto of Some t \<Rightarrow> t | None \<Rightarrow> INFORMAL)"

definition submitted_vendor :: "vendor_draws \<Rightarrow> uuid \<Rightarrow> submit_vendor \<Rightarrow> vendor_files \<Rightarrow> time \<Rightarrow> vendor" where
  "submitted_vendor rnd userId dto files now =
     (let t = submitted_type dto
      in \<lparr>v_id = vd_vendor rnd, v_userId = userId, v_name = sv_name dto, v_type = t, v_status = VS_PENDING_REVIEW,
          v_whatsappPhone = normalizePhone (sv_whatsappPhone dto), v_momoPhone = normalizePhone (sv_momoPhone dto),
          v_isOpen = False, v_commissionRate = COMMISSION_RATE_BY_TYPE t, v_acceptsPreOrders = (t = INFORMAL),
          v_createdAt = now, v_ownerName = Some (sv_ownerName dto), v_description = None,
          v_quartier = sv_quartier dto, v_pointOfReference = sv_pointOfReference dto,
          v_location = ((case sv_latitude dto of Some x \<Rightarrow> x | None \<Rightarrow> fst DOUALA_CENTER),
                        (case sv_longitude dto of Some x \<Rightarrow> x | None \<Rightarrow> snd DOUALA_CENTER)),
          v_badge = Some (badgeForType t), v_hours = None,
          v_declaredCapacity = Some (CAPACITY_TO_INT (sv_declaredCapacity dto)),
          v_profilePhotoUrl = vf_profilePhoto files, v_coverPhotoUrl = None,
          v_rccmNumber = sv_rccmNumber dto, v_niuNumber = sv_niuNumber dto,
          v_enseignePhotoUrl = (if sv_type dto = Some RESTAURANT then vf_enseignePhoto files else None),
          v_submittedAt = now, v_validatedAt = None, v_rejectedAt = None, v_rejectionReason = None\<rparr>)"

definition submitted_item :: "vendor_draws \<Rightarrow> nat \<Rightarrow> string \<Rightarrow> xaf \<Rightarrow> string option \<Rightarrow> time \<Rightarrow> item" where
  "submitted_item rnd n name price photo now =
     \<lparr>i_id = vd_items rnd n, i_vendorId = vd_vendor rnd, i_name = name, i_priceXAF = price, i_isAvailable = True,
      i_isInStock = True, i_categoryId = None, i_description = None, i_photoUrl = photo, i_stockLevel = IN_STOCK,
      i_kind = FOOD, i_preparationMinutes = None, i_sortOrder = int n, i_createdAt = now\<rparr>"

definition extra_item :: "vendor_draws \<Rightarrow> nat \<Rightarrow> string option \<Rightarrow> xaf option \<Rightarrow> time \<Rightarrow> item list" where
  "extra_item rnd n name price now =
     (if \<not> falsy name \<and> price \<noteq> None \<and> price \<noteq> Some 0
      then [submitted_item rnd n (the name) (the price) None now] else [])"

definition submitted_items :: "vendor_draws \<Rightarrow> submit_vendor \<Rightarrow> vendor_files \<Rightarrow> time \<Rightarrow> item list" where
  "submitted_items rnd dto files now =
     submitted_item rnd 0 (sv_firstItemName dto) (sv_firstItemPriceXAF dto) (vf_firstItemPhoto files) now
     # extra_item rnd 1 (sv_extraItem1Name dto) (sv_extraItem1PriceXAF dto) now
     @ extra_item rnd 2 (sv_extraItem2Name dto) (sv_extraItem2PriceXAF dto) now"

text \<open>The role step of both submissions: a new user, an upgraded consumer, or the same account.\<close>

definition user_by_phone :: "string \<Rightarrow> auth_world \<Rightarrow> user option" where
  "user_by_phone phone w = find_row (\<lambda>u. us_phone u = Some phone) (a_users w)"

definition account_vendor :: "uuid \<Rightarrow> auth_world \<Rightarrow> vendor option" where
  "account_vendor u w = find_row (\<lambda>v. v_userId v = u) (w_vendors (a_world w))"

definition new_user :: "uuid \<Rightarrow> string \<Rightarrow> string option \<Rightarrow> UserRole \<Rightarrow> user" where
  "new_user i phone name role =
     \<lparr>us_id = i, us_phone = Some phone, us_email = None, us_passwordHash = None, us_displayName = name,
      us_role = role, us_isActive = True, us_isDeleted = False\<rparr>"

definition ensure_vendor_user :: "uuid \<Rightarrow> string \<Rightarrow> auth_world \<Rightarrow> (uuid, auth_world) outcome" where
  "ensure_vendor_user newId phone w =
     (case user_by_phone phone w of
        None \<Rightarrow> (Inr newId, w\<lparr>a_users := a_users w @ [new_user newId phone None VENDOR]\<rparr>)
      | Some u \<Rightarrow>
          if us_role u \<noteq> CONSUMER \<and> us_role u \<noteq> VENDOR then (Inl (Conflict ''phone_used_by_other_role''), w)
          else if us_role u = CONSUMER
          then (Inr (us_id u), w\<lparr>a_users := upd_where (\<lambda>x. us_id x = us_id u) (\<lambda>x. x\<lparr>us_role := VENDOR\<rparr>) (a_users w)\<rparr>)
          else (Inr (us_id u), w))"

definition submitInformal ::
  "vendor_draws \<Rightarrow> submit_vendor \<Rightarrow> vendor_files \<Rightarrow> time \<Rightarrow> auth_world \<Rightarrow> (uuid \<times> VendorStatus, auth_world) outcome" where
  "submitInformal rnd dto files now w =
     (if vf_profilePhoto files = None then (Inl (BadRequest ''profilePhoto is required''), w)
      else if vf_firstItemPhoto files = None then (Inl (BadRequest ''firstItemPhoto is required''), w)
      else if sv_type dto = Some RESTAURANT \<and> vf_enseignePhoto files = None
      then (Inl (BadRequest ''enseigne_photo_required''), w)
      else let phone = normalizePhone (sv_whatsappPhone dto)
           in if (case user_by_phone phone w of None \<Rightarrow> False | Some u \<Rightarrow> account_vendor (us_id u) w \<noteq> None)
              then (Inl (Conflict ''vendor_already_submitted''), w)
              else case ensure_vendor_user (vd_user rnd) phone w of
                     (Inl e, _) \<Rightarrow> (Inl e, w)
                   | (Inr userId, w1) \<Rightarrow>
                       (Inr (vd_vendor rnd, VS_PENDING_REVIEW),
                        on_world (\<lambda>x. x\<lparr>w_vendors := w_vendors x @ [submitted_vendor rnd userId dto files now],
                                        w_items := w_items x @ submitted_items rnd dto files now\<rparr>) w1))"

definition vendor_getOwn :: "uuid \<Rightarrow> world \<Rightarrow> http_error + vendor" where
  "vendor_getOwn userId w = requireVendor userId w"

definition vendor_patch :: "uuid \<Rightarrow> (vendor \<Rightarrow> vendor) \<Rightarrow> world \<Rightarrow> world" where
  "vendor_patch vid f w = w\<lparr>w_vendors := upd_where (\<lambda>v. v_id v = vid) f (w_vendors w)\<rparr>"

definition vendor_updateOwn ::
  "uuid \<Rightarrow> string option \<Rightarrow> string option \<Rightarrow> string option \<Rightarrow> world \<Rightarrow> (unit, world) outcome" where
  "vendor_updateOwn userId name description momoPhone w =
     (if name = None \<and> description = None \<and> momoPhone = None then (Inl (BadRequest ''no_fields_to_update''), w)
      else case requireVendor userId w of
             Inl e \<Rightarrow> (Inl e, w)
           | Inr v \<Rightarrow> (Inr (), vendor_patch (v_id v)
               (\<lambda>v. v\<lparr>v_name := (case name of Some n \<Rightarrow> n | None \<Rightarrow> v_name v),
                      v_description := (case description of Some d \<Rightarrow> Some d | None \<Rightarrow> v_description v),
                      v_momoPhone := (if falsy momoPhone then v_momoPhone v else normalizePhone (the momoPhone))\<rparr>) w))"

definition getStatusByPhone ::
  "string \<Rightarrow> world \<Rightarrow> http_error + (VendorStatus \<times> time \<times> time option \<times> time option \<times> string option)" where
  "getStatusByPhone phone w =
     (case find_row (\<lambda>v. v_whatsappPhone v = normalizePhone phone) (w_vendors w) of
        None \<Rightarrow> Inl (NotFound ''vendor_not_found'')
      | Some v \<Rightarrow> Inr (v_status v, v_submittedAt v, v_validatedAt v, v_rejectedAt v, v_rejectionReason v))"

definition updateOwnProfilePhoto :: "uuid \<Rightarrow> string \<Rightarrow> world \<Rightarrow> (unit, world) outcome" where
  "updateOwnProfilePhoto userId key w =
     (case requireVendor userId w of
        Inl e \<Rightarrow> (Inl e, w)
      | Inr v \<Rightarrow> (Inr (), vendor_patch (v_id v) (\<lambda>v. v\<lparr>v_profilePhotoUrl := Some key\<rparr>) w))"

definition updateOwnCoverPhoto :: "uuid \<Rightarrow> string \<Rightarrow> world \<Rightarrow> (unit, world) outcome" where
  "updateOwnCoverPhoto userId key w =
     (case requireVendor userId w of
        Inl e \<Rightarrow> (Inl e, w)
      | Inr v \<Rightarrow> (Inr (), vendor_patch (v_id v) (\<lambda>v. v\<lparr>v_coverPhotoUrl := Some key\<rparr>) w))"

section \<open>Riders\<close>

definition RESUBMITTABLE :: "RiderStatus list" where
  "RESUBMITTABLE = [RS_PENDING_REVIEW, RS_CORRECTION_REQUESTED, RS_REJECTED]"
definition REQUIRES_VEHICLE_PHOTO :: "RiderVehicleType list" where "REQUIRES_VEHICLE_PHOTO = [MOTO, BICYCLE, CAR]"
definition REQUIRES_LICENSE_PLATE :: "RiderVehicleType list" where "REQUIRES_LICENSE_PLATE = [MOTO, CAR]"

record submit_rider =
  sr_phone :: string
  sr_name :: string
  sr_vehicleType :: RiderVehicleType
  sr_preferredZone :: "string option"
  sr_licensePlate :: "string option"
  sr_momoPhone :: string

record rider_files =
  rf_idCardPhoto :: "string option"
  rf_selfiePhoto :: "string option"
  rf_vehiclePhoto :: "string option"

definition to_upper :: "string \<Rightarrow> string" where
  "to_upper = map (\<lambda>c. let n = of_char c :: nat in if 97 \<le> n \<and> n \<le> 122 then char_of (n - 32) else c)"

text \<open>\<open>rawPlate.replace(/\s+/g, '').toUpperCase()\<close>, only for vehicles that carry a plate.\<close>

definition stored_plate :: "submit_rider \<Rightarrow> string option" where
  "stored_plate dto =
     (let rawPlate = (if sr_vehicleType dto \<in> set REQUIRES_LICENSE_PLATE then sr_licensePlate dto else None)
      in if falsy rawPlate then None else map_option (\<lambda>s. to_upper (filter (\<lambda>c. \<not> js_space c) s)) rawPlate)"

definition rider_dossier :: "submit_rider \<Rightarrow> rider_files \<Rightarrow> time \<Rightarrow> rider \<Rightarrow> rider" where
  "rider_dossier dto files now r =
     r\<lparr>r_vehicleType := sr_vehicleType dto, r_preferredZone := sr_preferredZone dto,
       r_idCardPhotoUrl := rf_idCardPhoto files, r_selfiePhotoUrl := rf_selfiePhoto files,
       r_vehiclePhotoUrl := rf_vehiclePhoto files, r_licensePlate := stored_plate dto,
       r_momoPhone := normalizePhone (sr_momoPhone dto), r_status := RS_PENDING_REVIEW, r_submittedAt := now\<rparr>"

definition blank_rider :: "uuid \<Rightarrow> uuid \<Rightarrow> time \<Rightarrow> rider" where
  "blank_rider i userId now =
     \<lparr>r_id = i, r_userId = userId, r_vehicleType = MOTO, r_status = RS_PENDING_REVIEW, r_idCardPhotoUrl = None,
      r_selfiePhotoUrl = None, r_momoPhone = [], r_reliabilityScore = 80, r_isOnline = False, r_hasLocation = False,
      r_lastSeenAt = None, r_lastAssignedAt = None, r_createdAt = now, r_preferredZone = None, r_vehiclePhotoUrl = None,
      r_licensePlate = None, r_submittedAt = now, r_validatedAt = None, r_rejectedAt = None, r_rejectionReason = None\<rparr>"

definition rider_of :: "uuid \<Rightarrow> auth_world \<Rightarrow> rider option" where
  "rider_of u w = find_row (\<lambda>r. r_userId r = u) (w_riders (a_world w))"

definition ensure_rider_user :: "uuid \<Rightarrow> string \<Rightarrow> string \<Rightarrow> auth_world \<Rightarrow> uuid \<times> auth_world" where
  "ensure_rider_user newId phone name w =
     (case user_by_phone phone w of
        None \<Rightarrow> (newId, w\<lparr>a_users := a_users w @ [new_user newId phone (Some name) RIDER]\<rparr>)
      | Some u \<Rightarrow> (us_id u, w\<lparr>a_users := upd_where (\<lambda>x. us_id x = us_id u)
            (\<lambda>x. if us_role u = CONSUMER then x\<lparr>us_role := RIDER, us_displayName := Some name\<rparr>
                 else x\<lparr>us_displayName := Some name\<rparr>) (a_users w)\<rparr>))"

text \<open>\<open>rider.upsert\<close>; the plate is unique over the other riders.\<close>

definition upsert_rider ::
  "uuid \<Rightarrow> uuid \<Rightarrow> submit_rider \<Rightarrow> rider_files \<Rightarrow> time \<Rightarrow> auth_world \<Rightarrow> (uuid, auth_world) outcome" where
  "upsert_rider newId userId dto files now w =
     (let plate_taken = (\<lambda>other. stored_plate dto \<noteq> None
            \<and> clashes r_licensePlate (stored_plate dto) other (w_riders (a_world w)))
      in case rider_of userId w of
           None \<Rightarrow>
             if plate_taken (\<lambda>r. True) then (Inl (Conflict ''license_plate_already_used''), w)
             else (Inr newId, on_world (\<lambda>x. x\<lparr>w_riders := w_riders x
                     @ [rider_dossier dto files now (blank_rider newId userId now)]\<rparr>) w)
         | Some old \<Rightarrow>
             if plate_taken (\<lambda>r. r_id r \<noteq> r_id old) then (Inl (Conflict ''license_plate_already_used''), w)
             else (Inr (r_id old), on_world (\<lambda>x. x\<lparr>w_riders := upd_where (\<lambda>r. r_id r = r_id old)
                     (\<lambda>r. (rider_dossier dto files now r)\<lparr>r_rejectedAt := None, r_rejectionReason := None\<rparr>) (w_riders x)\<rparr>) w))"

definition rider_submit ::
  "uuid \<Rightarrow> uuid \<Rightarrow> submit_rider \<Rightarrow> rider_files \<Rightarrow> time \<Rightarrow> auth_world \<Rightarrow> (uuid \<times> RiderStatus, auth_world) outcome" where
  "rider_submit newUser newRider dto files now w =
     (if rf_idCardPhoto files = None then (Inl (BadRequest ''idCardPhoto is required''), w)
      else if rf_selfiePhoto files = None then (Inl (BadRequest ''selfiePhoto is required''), w)
      else if sr_vehicleType dto \<in> set REQUIRES_VEHICLE_PHOTO \<and> rf_vehiclePhoto files = None
      then (Inl (BadRequest ''vehiclePhoto is required''), w)
      else if sr_vehicleType dto \<in> set REQUIRES_LICENSE_PLATE \<and> falsy (sr_licensePlate dto)
      then (Inl (BadRequest ''licensePlate is required''), w)
      else let phone = normalizePhone (sr_phone dto); existing = user_by_phone phone w
           in if (case existing of None \<Rightarrow> False | Some u \<Rightarrow>
                    (case rider_of (us_id u) w of None \<Rightarrow> False | Some r \<Rightarrow> r_status r \<notin> set RESUBMITTABLE))
              then (Inl (Conflict ''rider_already_active''), w)
              else if (case existing of None \<Rightarrow> False | Some u \<Rightarrow> us_role u \<noteq> CONSUMER \<and> us_role u \<noteq> RIDER)
              then (Inl (Conflict ''phone_used_by_other_role''), w)
              else case ensure_rider_user newUser phone (sr_name dto) w of
                     (userId, w1) \<Rightarrow>
                       (case upsert_rider newRider userId dto files now w1 of
                          (Inl e, _) \<Rightarrow> (Inl e, w)
                        | (Inr riderId, w2) \<Rightarrow> (Inr (riderId, RS_PENDING_REVIEW), w2)))"

definition rider_patch :: "uuid \<Rightarrow> (rider \<Rightarrow> rider) \<Rightarrow> world \<Rightarrow> world" where
  "rider_patch rid f w = w\<lparr>w_riders := upd_where (\<lambda>r. r_id r = rid) f (w_riders w)\<rparr>"

definition rider_updateOwn :: "uuid \<Rightarrow> string option \<Rightarrow> string option \<Rightarrow> world \<Rightarrow> (unit, world) outcome" where
  "rider_updateOwn userId preferredZone momoPhone w =
     (if preferredZone = None \<and> momoPhone = None then (Inl (BadRequest ''no_fields_to_update''), w)
      else case find_row (\<lambda>r. r_userId r = userId) (w_riders w) of
             None \<Rightarrow> (Inl (NotFound ''rider_not_found''), w)
           | Some r \<Rightarrow> (Inr (), rider_patch (r_id r)
               (\<lambda>r. r\<lparr>r_preferredZone := (case preferredZone of Some z \<Rightarrow> Some z | None \<Rightarrow> r_preferredZone r),
                      r_momoPhone := (if falsy momoPhone then r_momoPhone r else normalizePhone (the momoPhone))\<rparr>) w))"

section \<open>Users\<close>

definition user_findById :: "uuid \<Rightarrow> auth_world \<Rightarrow> http_error + user" where
  "user_findById i w =
     (case find_row (\<lambda>u. us_id u = i) (a_users w) of None \<Rightarrow> Inl (NotFound ''user_not_found'') | Some u \<Rightarrow> Inr u)"

definition updateProfile :: "uuid \<Rightarrow> string option \<Rightarrow> auth_world \<Rightarrow> (unit, auth_world) outcome" where
  "updateProfile i displayName w =
     (if displayName = None then (Inl (BadRequest ''no_fields_to_update''), w)
      else case find_row (\<lambda>u. us_id u = i) (a_users w) of
             None \<Rightarrow> (Inl (PrismaError ''P2025''), w)
           | Some _ \<Rightarrow> (Inr (), w\<lparr>a_users := upd_where (\<lambda>u. us_id u = i) (\<lambda>u. u\<lparr>us_displayName := displayName\<rparr>) (a_users w)\<rparr>))"

end
