(* ===== verification/Admin_Validation.thy ===== *)
theory Admin_Validation
  imports Onboarding
begin

text \<open>
  The decisions of the back office on vendors and riders (\<open>admin/admin-validation.service.ts\<close>), which
  tie the status columns to the instant revocation of \<open>Redis\<close>; what a submission and a decision leave
  behind; and the one decision that strands a vendor.
\<close>

section \<open>Vendors\<close>

definition listPendingVendors :: "world \<Rightarrow> vendor list" where
  "listPendingVendors w = sort_key v_submittedAt (filter (\<lambda>v. v_status v = VS_PENDING_REVIEW) (w_vendors w))"

definition vendor_row :: "uuid \<Rightarrow> world \<Rightarrow> vendor option" where
  "vendor_row i w = find_row (\<lambda>v. v_id v = i) (w_vendors w)"

definition approveVendor :: "uuid \<Rightarrow> time \<Rightarrow> world \<Rightarrow> (unit, world) outcome" where
  "approveVendor vid now w =
     (case vendor_row vid w of
        None \<Rightarrow> (Inl (NotFound ''vendor_not_found''), w)
      | Some v \<Rightarrow>
          if v_status v = VS_ACTIVE then (Inl (Conflict ''vendor_already_active''), w)
          else (Inr (), vendor_patch vid (\<lambda>v. v\<lparr>v_status := VS_ACTIVE, v_validatedAt := Some now\<rparr>) w))"

definition rejectVendor :: "uuid \<Rightarrow> string option \<Rightarrow> time \<Rightarrow> world \<Rightarrow> (unit, world) outcome" where
  "rejectVendor vid reason now w =
     (if falsy reason then (Inl (BadRequest ''reason is required''), w)
      else case vendor_row vid w of
             None \<Rightarrow> (Inl (NotFound ''vendor_not_found''), w)
           | Some v \<Rightarrow> (Inr (), vendor_patch vid
               (\<lambda>v. v\<lparr>v_status := VS_REJECTED, v_rejectedAt := Some now, v_rejectionReason := reason\<rparr>) w))"

definition suspendVendor :: "int \<Rightarrow> uuid \<Rightarrow> string option \<Rightarrow> time \<Rightarrow> world \<Rightarrow> (unit, world) outcome" where
  "suspendVendor refreshTtlMs vid reason now w =
     (if falsy reason then (Inl (BadRequest ''reason is required''), w)
      else case vendor_row vid w of
             None \<Rightarrow> (Inl (NotFound ''vendor_not_found''), w)
           | Some v \<Rightarrow> (Inr (), revokeUser refreshTtlMs (v_userId v) now
               (vendor_patch vid (\<lambda>v. v\<lparr>v_status := VS_SUSPENDED, v_isOpen := False, v_rejectionReason := reason\<rparr>) w)))"

definition unsuspendVendor :: "uuid \<Rightarrow> world \<Rightarrow> (unit, world) outcome" where
  "unsuspendVendor vid w =
     (case vendor_row vid w of
        None \<Rightarrow> (Inl (NotFound ''vendor_not_found''), w)
      | Some v \<Rightarrow>
          if v_status v \<noteq> VS_SUSPENDED then (Inl (Conflict ''vendor_not_suspended''), w)
          else (Inr (), reactivateUser (v_userId v)
                  (vendor_patch vid (\<lambda>v. v\<lparr>v_status := VS_ACTIVE, v_rejectionReason := None\<rparr>) w)))"

definition setVendorPreOrders :: "uuid \<Rightarrow> bool \<Rightarrow> world \<Rightarrow> (bool, world) outcome" where
  "setVendorPreOrders vid accepts w =
     (case vendor_row vid w of
        None \<Rightarrow> (Inl (NotFound ''vendor_not_found''), w)
      | Some v \<Rightarrow>
          if v_acceptsPreOrders v = accepts then (Inr accepts, w)
          else (Inr accepts, vendor_patch vid (\<lambda>v. v\<lparr>v_acceptsPreOrders := accepts\<rparr>) w))"

section \<open>Riders\<close>

definition listPendingRiders :: "world \<Rightarrow> rider list" where
  "listPendingRiders w = sort_key r_submittedAt (filter (\<lambda>r. r_status r = RS_PENDING_REVIEW) (w_riders w))"

definition rider_row :: "uuid \<Rightarrow> world \<Rightarrow> rider option" where
  "rider_row i w = find_row (\<lambda>r. r_id r = i) (w_riders w)"

definition approveRider :: "uuid \<Rightarrow> time \<Rightarrow> world \<Rightarrow> (unit, world) outcome" where
  "approveRider rid now w =
     (case rider_row rid w of
        None \<Rightarrow> (Inl (NotFound ''rider_not_found''), w)
      | Some r \<Rightarrow>
          if r_status r = RS_ACTIVE then (Inl (Conflict ''rider_already_active''), w)
          else (Inr (), rider_patch rid (\<lambda>r. r\<lparr>r_status := RS_ACTIVE, r_validatedAt := Some now\<rparr>) w))"

definition rejectRider :: "uuid \<Rightarrow> string option \<Rightarrow> time \<Rightarrow> world \<Rightarrow> (unit, world) outcome" where
  "rejectRider rid reason now w =
     (if falsy reason then (Inl (BadRequest ''reason is required''), w)
      else case rider_row rid w of
             None \<Rightarrow> (Inl (NotFound ''rider_not_found''), w)
           | Some r \<Rightarrow> (Inr (), rider_patch rid
               (\<lambda>r. r\<lparr>r_status := RS_REJECTED, r_rejectedAt := Some now, r_rejectionReason := reason\<rparr>) w))"

definition suspendRider :: "int \<Rightarrow> uuid \<Rightarrow> string option \<Rightarrow> time \<Rightarrow> world \<Rightarrow> (unit, world) outcome" where
  "suspendRider refreshTtlMs rid reason now w =
     (if falsy reason then (Inl (BadRequest ''reason is required''), w)
      else case rider_row rid w of
             None \<Rightarrow> (Inl (NotFound ''rider_not_found''), w)
           | Some r \<Rightarrow> (Inr (), revokeUser refreshTtlMs (r_userId r) now
               (rider_patch rid (\<lambda>r. r\<lparr>r_status := RS_SUSPENDED, r_isOnline := False, r_rejectionReason := reason\<rparr>) w)))"

definition unsuspendRider :: "uuid \<Rightarrow> world \<Rightarrow> (unit, world) outcome" where
  "unsuspendRider rid w =
     (case rider_row rid w of
        None \<Rightarrow> (Inl (NotFound ''rider_not_found''), w)
      | Some r \<Rightarrow>
          if r_status r \<noteq> RS_SUSPENDED then (Inl (Conflict ''rider_not_suspended''), w)
          else (Inr (), reactivateUser (r_userId r)
                  (rider_patch rid (\<lambda>r. r\<lparr>r_status := RS_ACTIVE, r_rejectionReason := None\<rparr>) w)))"

section \<open>Suspension\<close>

lemma find_key_upd:
  assumes "\<And>r. key (f r) = key r"
  shows "find_row (\<lambda>r. key r = i) (upd_where (\<lambda>r. key r = i) f rs) = map_option f (find_row (\<lambda>r. key r = i) rs)"
  using assms by (induction rs) auto

lemma vendor_by_id_patch:
  assumes "\<And>v. v_id (f v) = v_id v"
  shows "vendor_row i (vendor_patch i f w) = map_option f (vendor_row i w)"
  unfolding vendor_row_def vendor_patch_def by (simp add: find_key_upd [of v_id f, OF assms])

lemma vendor_by_id_redis [simp]:
  "vendor_row i (revokeUser ttl u now w) = vendor_row i w" "vendor_row i (reactivateUser u w) = vendor_row i w"
  by (simp_all add: vendor_row_def revokeUser_def reactivateUser_def Let_def redis_del_def)

lemma redis_vendor_patch [simp]:
  "redis_get k t (vendor_patch i f w) = redis_get k t w" "jwt_validate u r t (vendor_patch i f w) = jwt_validate u r t w"
  by (simp_all add: redis_get_def vendor_patch_def jwt_validate_def isRevoked_def)

text \<open>
  Suspending and lifting the suspension is a round trip: while suspended the vendor is closed, off
  the catalogue and none of its tokens is accepted for as long as one can live; afterwards it is active
  again, every token is accepted again and the reason is gone, but it stays closed until it reopens.
\<close>

theorem suspension_roundtrip:
  assumes "vendor_row vid w = Some v" and "\<not> falsy reason" and "now \<le> t" and "t < now + ttl"
  shows "(case suspendVendor ttl vid reason now w of
        (Inr _, w1) \<Rightarrow>
          (\<exists>v1. vendor_row vid w1 = Some v1 \<and> v_status v1 = VS_SUSPENDED \<and> \<not> v_isOpen v1)
          \<and> jwt_validate (v_userId v) role t w1 = Inl (Unauthorized ''account_suspended'')
          \<and> (case getVendorPublic vid clock w1 of Inl _ \<Rightarrow> True | Inr _ \<Rightarrow> False)
          \<and> (case unsuspendVendor vid w1 of
               (Inr _, w2) \<Rightarrow>
                 vendor_row vid w2 = Some (v\<lparr>v_status := VS_ACTIVE, v_isOpen := False, v_rejectionReason := None\<rparr>)
                 \<and> jwt_validate (v_userId v) role t w2 = Inr (v_userId v, role)
             | (Inl _, _) \<Rightarrow> False)
      | (Inl _, _) \<Rightarrow> False)"
proof -
  let ?f = "\<lambda>v. v\<lparr>v_status := VS_SUSPENDED, v_isOpen := False, v_rejectionReason := reason\<rparr>"
  let ?w1 = "revokeUser ttl (v_userId v) now (vendor_patch vid ?f w)"
  have s: "suspendVendor ttl vid reason now w = (Inr (), ?w1)" using assms(1,2) by (simp add: suspendVendor_def)
  have v1: "vendor_row vid ?w1 = Some (?f v)" using assms(1) by (simp add: vendor_by_id_patch)
  let ?w2 = "reactivateUser (v_userId v) (vendor_patch vid (\<lambda>v. v\<lparr>v_status := VS_ACTIVE, v_rejectionReason := None\<rparr>) ?w1)"
  have u: "unsuspendVendor vid ?w1 = (Inr (), ?w2)" using v1 by (simp add: unsuspendVendor_def del: vendor_by_id_redis)
  have v2: "vendor_row vid ?w2 = Some (v\<lparr>v_status := VS_ACTIVE, v_isOpen := False, v_rejectionReason := None\<rparr>)"
    using v1 by (simp add: vendor_by_id_patch del: vendor_by_id_redis(1))
  have p: "getVendorPublic vid clock ?w1 = Inl (NotFound ''vendor_not_found'')"
    using v1 by (simp add: getVendorPublic_def vendor_row_def)
  show ?thesis
    unfolding s u prod.case sum.case v1 v2 p
    using revoked_until [OF assms(3,4)] reactivate_restores by simp
qed

theorem suspension_roundtrip_witness:
  "let w1 = snd (suspendVendor 1500 ''V'' (Some ''fraude'') 0 (demo_world [] []));
       w2 = snd (unsuspendVendor ''V'' w1)
   in jwt_validate ''U'' VENDOR 500 w1 = Inl (Unauthorized ''account_suspended'')
    \<and> jwt_validate ''U'' VENDOR 500 w2 = Inr (''U'', VENDOR)"
proof -
  have v: "vendor_row ''V'' (demo_world [] []) = Some demo_vendor" "v_userId demo_vendor = ''U''"
    by (simp_all add: vendor_row_def demo_vendor_def)
  show ?thesis
    using suspension_roundtrip [OF v(1), of "Some ''fraude''" 0 500 1500 VENDOR "(1, 12, 0)"] v(2)
    by (auto simp: Let_def split: prod.splits sum.splits)
qed

text \<open>
  Approving does not lift a revocation: a suspended vendor that is approved instead of
  unsuspended is active, all its tokens keep being refused, and the operation that would lift the
  revocation now answers that the vendor is not suspended.
\<close>

theorem approval_strands_suspended_vendor:
  assumes "vendor_row vid w = Some v" and "\<not> falsy reason" and "now \<le> t" and "t < now + ttl"
  shows "let w1 = snd (suspendVendor ttl vid reason now w);
             w2 = snd (approveVendor vid now' w1)
         in (\<exists>v2. vendor_row vid w2 = Some v2 \<and> v_status v2 = VS_ACTIVE)
          \<and> jwt_validate (v_userId v) role t w2 = Inl (Unauthorized ''account_suspended'')
          \<and> unsuspendVendor vid w2 = (Inl (Conflict ''vendor_not_suspended''), w2)
          \<and> approveVendor vid now'' w2 = (Inl (Conflict ''vendor_already_active''), w2)"
proof -
  let ?f = "\<lambda>v. v\<lparr>v_status := VS_SUSPENDED, v_isOpen := False, v_rejectionReason := reason\<rparr>"
  let ?g = "\<lambda>v. v\<lparr>v_status := VS_ACTIVE, v_validatedAt := Some now'\<rparr>"
  let ?w1 = "revokeUser ttl (v_userId v) now (vendor_patch vid ?f w)"
  have s: "snd (suspendVendor ttl vid reason now w) = ?w1" using assms(1,2) by (simp add: suspendVendor_def)
  have v1: "vendor_row vid ?w1 = Some (?f v)" using assms(1) by (simp add: vendor_by_id_patch)
  then have a: "snd (approveVendor vid now' ?w1) = vendor_patch vid ?g ?w1" by (simp add: approveVendor_def)
  have v2: "vendor_row vid (vendor_patch vid ?g ?w1) = Some (?g (?f v))"
    using v1 by (simp add: vendor_by_id_patch del: vendor_by_id_redis)
  show ?thesis
    unfolding Let_def s a using v2 revoked_until [OF assms(3,4)]
    by (simp add: unsuspendVendor_def approveVendor_def del: vendor_by_id_redis)
qed

theorem approval_strands_suspended_vendor_witness:
  "let w1 = snd (suspendVendor 1500 ''V'' (Some ''fraude'') 0 (demo_world [] []));
       w2 = snd (approveVendor ''V'' 100 w1)
   in jwt_validate ''U'' VENDOR 500 w2 = Inl (Unauthorized ''account_suspended'')
    \<and> unsuspendVendor ''V'' w2 = (Inl (Conflict ''vendor_not_suspended''), w2)"
proof -
  have v: "vendor_row ''V'' (demo_world [] []) = Some demo_vendor" "v_userId demo_vendor = ''U''"
    by (simp_all add: vendor_row_def demo_vendor_def)
  show ?thesis
    using approval_strands_suspended_vendor [OF v(1), of "Some ''fraude''" 0 500 1500 100 VENDOR] v(2) by (simp add: Let_def)
qed

section \<open>Submissions\<close>

lemma ensure_vendor_user_role:
  assumes "ensure_vendor_user newId phone w = (Inr userId, w1)"
  shows "a_world w1 = a_world w \<and> (\<exists>u \<in> set (a_users w1). us_id u = userId \<and> us_role u = VENDOR \<and> us_phone u = Some phone)"
proof (cases "user_by_phone phone w")
  case None
  then show ?thesis using assms by (auto simp: ensure_vendor_user_def new_user_def)
next
  case (Some u)
  have u: "u \<in> set (a_users w)" "us_phone u = Some phone" using find_row_Some [OF Some [unfolded user_by_phone_def]] by auto
  show ?thesis
  proof (cases "us_role u = CONSUMER")
    case True
    have "u\<lparr>us_role := VENDOR\<rparr> \<in> set (upd_where (\<lambda>x. us_id x = us_id u) (\<lambda>x. x\<lparr>us_role := VENDOR\<rparr>) (a_users w))"
      using u(1) by (auto simp: upd_where_def)
    then show ?thesis using assms Some True u(2) by (auto simp: ensure_vendor_user_def intro!: bexI [of _ "u\<lparr>us_role := VENDOR\<rparr>"])
  next
    case False
    then show ?thesis using assms Some u by (auto simp: ensure_vendor_user_def split: if_splits)
  qed
qed

lemma submitted_items_facts:
  shows "\<forall>i \<in> set (submitted_items rnd dto files now). stock_agrees i \<and> i_categoryId i = None \<and> i_vendorId i = vd_vendor rnd
      \<and> i_id i \<in> vd_items rnd ` {0, 1, 2}"
    and "length (submitted_items rnd dto files now) \<in> {1..3}"
    and "distinct (map (vd_items rnd) [0, 1, 2]) \<Longrightarrow> distinct (map i_id (submitted_items rnd dto files now))"
  by (auto simp: submitted_items_def submitted_item_def extra_item_def stock_agrees_def)

text \<open>
  A submission that is accepted leaves one pending, closed vendor of a VENDOR account: at the
  commission of its type, open to pre-orders only when informal, with its one to three dishes in stock;
  the menus of all vendors stay well-formed, and the vendor is not shown before it is approved.
\<close>

theorem vendor_submission:
  assumes "submitInformal rnd dto files now w = (Inr (vid, st), w')" and "menu_ok (a_world w)"
    and "vd_vendor rnd \<notin> v_id ` set (w_vendors (a_world w))" and "menu_items_of (vd_vendor rnd) (a_world w) = []"
    and "categories_of (vd_vendor rnd) (a_world w) = []"
    and "\<forall>n \<in> {0, 1, 2}. vd_items rnd n \<notin> i_id ` set (w_items (a_world w))" and "distinct (map (vd_items rnd) [0, 1, 2])"
  shows "\<exists>v u. vendor_row vid (a_world w') = Some v \<and> u \<in> set (a_users w') \<and> us_id u = v_userId v
     \<and> us_role u = VENDOR \<and> us_phone u = Some (normalizePhone (sv_whatsappPhone dto))
     \<and> st = VS_PENDING_REVIEW \<and> v_status v = VS_PENDING_REVIEW \<and> \<not> v_isOpen v
     \<and> v_commissionRate v = COMMISSION_RATE_BY_TYPE (v_type v) \<and> (v_acceptsPreOrders v \<longleftrightarrow> v_type v = INFORMAL)
     \<and> length (menu_items_of vid (a_world w')) \<in> {1..3} \<and> menu_ok (a_world w')
     \<and> getVendorPublic vid clock (a_world w') = Inl (NotFound ''vendor_not_found'')"
proof -
  let ?phone = "normalizePhone (sv_whatsappPhone dto)"
  obtain userId w1 where e: "ensure_vendor_user (vd_user rnd) ?phone w = (Inr userId, w1)"
    and vid: "vid = vd_vendor rnd" "st = VS_PENDING_REVIEW"
    and w': "w' = on_world (\<lambda>x. x\<lparr>w_vendors := w_vendors x @ [submitted_vendor rnd userId dto files now],
                                   w_items := w_items x @ submitted_items rnd dto files now\<rparr>) w1"
    using assms(1) by (auto simp: submitInformal_def Let_def split: if_splits prod.splits sum.splits)
  define v where "v = submitted_vendor rnd userId dto files now"
  define js where "js = submitted_items rnd dto files now"
  note facts = submitted_items_facts [of rnd dto files now, folded js_def]
  obtain u where u: "u \<in> set (a_users w1)" "us_id u = userId" "us_role u = VENDOR" "us_phone u = Some ?phone"
    and w1: "a_world w1 = a_world w" using ensure_vendor_user_role [OF e] by blast
  have v: "v_id v = vid" "v_userId v = userId" "v_status v = VS_PENDING_REVIEW" "\<not> v_isOpen v"
    "v_commissionRate v = COMMISSION_RATE_BY_TYPE (v_type v)" "v_acceptsPreOrders v \<longleftrightarrow> v_type v = INFORMAL"
    by (simp_all add: v_def submitted_vendor_def Let_def vid)
  have aw: "a_world w' = (a_world w)\<lparr>w_vendors := w_vendors (a_world w) @ [v]\<rparr>\<lparr>w_items := w_items (a_world w) @ js\<rparr>"
    using w' w1 by (simp add: v_def js_def)
  have ok1: "menu_ok ((a_world w)\<lparr>w_vendors := w_vendors (a_world w) @ [v]\<rparr>)"
    by (rule menu_ok_add_vendor [OF assms(2)]) (use v(1) vid assms(3-5) in simp_all)
  have "menu_ok (((a_world w)\<lparr>w_vendors := w_vendors (a_world w) @ [v]\<rparr>)
      \<lparr>w_items := w_items ((a_world w)\<lparr>w_vendors := w_vendors (a_world w) @ [v]\<rparr>) @ js\<rparr>)"
    by (rule menu_ok_add_items [OF ok1, where vid = vid])
      (use facts assms(4,6,7) vid in \<open>auto simp: menu_items_of_def INFORMAL_MAX_ITEMS_def\<close>)
  then have ok: "menu_ok (a_world w')" using aw by simp
  have "find_row (\<lambda>v. v_id v = vid) (w_vendors (a_world w)) = None"
    using assms(3) vid unfolding find_row_None by (metis image_eqI)
  then have found: "vendor_row vid (a_world w') = Some v"
    using aw v(1) by (simp add: vendor_row_def find_row_snoc)
  have "menu_items_of vid (a_world w') = js"
    using aw assms(4) facts(1) vid by (auto simp: menu_items_of_def filter_id_conv)
  then have len: "length (menu_items_of vid (a_world w')) \<in> {1..3}" using facts(2) by simp
  have pub: "getVendorPublic vid clock (a_world w') = Inl (NotFound ''vendor_not_found'')"
    using found v(3) by (simp add: getVendorPublic_def vendor_row_def)
  have "u \<in> set (a_users w')" using u(1) w' by simp
  then show ?thesis
    using len by (intro exI [of _ v] exI [of _ u] conjI) (simp_all add: found u v vid(2) ok pub)
qed

definition demo_submission :: submit_vendor where
  "demo_submission = \<lparr>sv_name = ''Mboue'', sv_ownerName = ''Marie'', sv_type = None, sv_quartier = ''Makepe'',
     sv_latitude = None, sv_longitude = None, sv_pointOfReference = None, sv_whatsappPhone = ''670000009'',
     sv_momoPhone = ''670000009'', sv_declaredCapacity = LT_10, sv_firstItemName = ''Ndole'', sv_firstItemPriceXAF = 1500,
     sv_extraItem1Name = Some ''Eru'', sv_extraItem1PriceXAF = None, sv_extraItem2Name = None, sv_extraItem2PriceXAF = None,
     sv_rccmNumber = None, sv_niuNumber = None\<rparr>"

definition demo_files :: vendor_files where
  "demo_files = \<lparr>vf_profilePhoto = Some ''p'', vf_firstItemPhoto = Some ''f'', vf_enseignePhoto = None\<rparr>"

definition demo_vendor_draws :: vendor_draws where
  "demo_vendor_draws = \<lparr>vd_user = ''U9'', vd_vendor = ''V9'', vd_items = (\<lambda>n. ''I'' @ show_nat n)\<rparr>"

theorem vendor_submission_witness:
  "let r = submitInformal demo_vendor_draws demo_submission demo_files 5 (demo_auth [demo_user] [] [])
   in fst r = Inr (''V9'', VS_PENDING_REVIEW) \<and> menu_ok (a_world (snd r)) \<and> map i_name (w_items (a_world (snd r))) = [''Ndole'']"
proof -
  let ?w = "demo_auth [demo_user] [] []"
  let ?r = "submitInformal demo_vendor_draws demo_submission demo_files 5 ?w"
  have r: "fst ?r = Inr (''V9'', VS_PENDING_REVIEW)" "map i_name (w_items (a_world (snd ?r))) = [''Ndole'']" by code_simp+
  then have rr: "?r = (Inr (''V9'', VS_PENDING_REVIEW), snd ?r)" by (cases ?r) auto
  have ok: "menu_ok (a_world ?w)"
    by (simp add: menu_ok_def ids_ok_def names_ok_def caps_ok_def rows_ok_def menu_items_of_def categories_of_def demo_auth_def demo_world_def)
  have new: "vd_vendor demo_vendor_draws \<notin> v_id ` set (w_vendors (a_world ?w))" "menu_items_of (vd_vendor demo_vendor_draws) (a_world ?w) = []"
    "categories_of (vd_vendor demo_vendor_draws) (a_world ?w) = []" "\<forall>n \<in> {0, 1, 2}. vd_items demo_vendor_draws n \<notin> i_id ` set (w_items (a_world ?w))"
    by (simp_all add: demo_vendor_draws_def demo_auth_def demo_world_def demo_vendor_def menu_items_of_def categories_of_def)
  have d: "distinct (map (vd_items demo_vendor_draws) [0, 1, 2])" by code_simp
  show ?thesis using vendor_submission [OF rr ok new d] r by auto
qed

section \<open>Riders\<close>

text \<open>Two dossiers under one plate are one dossier; nothing is said of riders without a plate.\<close>

definition plates_unique :: "world \<Rightarrow> bool" where
  "plates_unique w \<longleftrightarrow> (\<forall>r \<in> set (w_riders w). \<forall>s \<in> set (w_riders w).
     r_licensePlate r \<noteq> None \<and> r_licensePlate r = r_licensePlate s \<longrightarrow> r_id r = r_id s)"

lemma rider_submit_refused:
  assumes "rider_submit nu nr dto files now w = (Inl e, w')"
  shows "w' = w"
  using assms by (auto simp: rider_submit_def Let_def split: if_splits prod.splits sum.splits)

lemma rider_submit_blocks_active:
  assumes "user_by_phone (normalizePhone (sr_phone dto)) w = Some u" and "rider_of (us_id u) w = Some r"
    and "r_status r \<in> {RS_ACTIVE, RS_SUSPENDED}"
  shows "snd (rider_submit nu nr dto files now w) = w \<and> failed (rider_submit nu nr dto files now w)"
  using assms by (auto simp: rider_submit_def RESUBMITTABLE_def)

lemma rider_dossier_simps [simp]:
  "r_id (rider_dossier dto files now r) = r_id r" "r_userId (rider_dossier dto files now r) = r_userId r"
  "r_status (rider_dossier dto files now r) = RS_PENDING_REVIEW" "r_licensePlate (rider_dossier dto files now r) = stored_plate dto"
  by (simp_all add: rider_dossier_def)

lemma plates_unique_add:
  assumes "plates_unique w" and "r_licensePlate x = None \<or> (\<forall>r \<in> set (w_riders w). r_licensePlate r \<noteq> r_licensePlate x)"
  shows "plates_unique (w\<lparr>w_riders := w_riders w @ [x]\<rparr>)"
  unfolding plates_unique_def
proof (intro ballI impI)
  fix r s
  assume rs: "r \<in> set (w_riders (w\<lparr>w_riders := w_riders w @ [x]\<rparr>))" "s \<in> set (w_riders (w\<lparr>w_riders := w_riders w @ [x]\<rparr>))"
    and eq: "r_licensePlate r \<noteq> None \<and> r_licensePlate r = r_licensePlate s"
  consider "r = x" "s = x" | "r = x" "s \<in> set (w_riders w)" | "r \<in> set (w_riders w)" "s = x"
    | "r \<in> set (w_riders w)" "s \<in> set (w_riders w)"
    using rs by fastforce
  then show "r_id r = r_id s"
    by cases (use assms eq in \<open>metis plates_unique_def\<close>)+
qed

lemma plates_unique_edit:
  assumes un: "plates_unique w" and f: "\<And>r. r_id (f r) = r_id r" "\<And>r. r_licensePlate (f r) = p"
    and free: "p = None \<or> (\<forall>r \<in> set (w_riders w). r_id r \<noteq> i \<longrightarrow> r_licensePlate r \<noteq> p)"
  shows "plates_unique (w\<lparr>w_riders := upd_where (\<lambda>r. r_id r = i) f (w_riders w)\<rparr>)"
  unfolding plates_unique_def
proof (intro ballI impI)
  fix r s
  assume rs: "r \<in> set (w_riders (w\<lparr>w_riders := upd_where (\<lambda>r. r_id r = i) f (w_riders w)\<rparr>))"
      "s \<in> set (w_riders (w\<lparr>w_riders := upd_where (\<lambda>r. r_id r = i) f (w_riders w)\<rparr>))"
    and eq: "r_licensePlate r \<noteq> None \<and> r_licensePlate r = r_licensePlate s"
  obtain r0 where r0: "r0 \<in> set (w_riders w)" "r = (if r_id r0 = i then f r0 else r0)" using rs(1) by (auto simp: set_upd_where)
  obtain s0 where s0: "s0 \<in> set (w_riders w)" "s = (if r_id s0 = i then f s0 else s0)" using rs(2) by (auto simp: set_upd_where)
  show "r_id r = r_id s"
  proof (cases "r_id r0 = i"; cases "r_id s0 = i")
    assume "r_id r0 \<noteq> i" "r_id s0 \<noteq> i"
    then have "r = r0" "s = s0" using r0 s0 by simp_all
    then show ?thesis using un r0(1) s0(1) eq unfolding plates_unique_def by blast
  qed (use r0 s0 eq f free in auto)
qed

lemma upsert_rider_facts:
  assumes up: "upsert_rider newId userId dto files now w = (Inr rid, w')" and un: "plates_unique (a_world w)"
    and new: "newId \<notin> r_id ` set (w_riders (a_world w))" and ids: "distinct (map r_id (w_riders (a_world w)))"
  shows "plates_unique (a_world w') \<and> (\<exists>r. rider_row rid (a_world w') = Some r \<and> r_userId r = userId
     \<and> r_status r = RS_PENDING_REVIEW \<and> r_licensePlate r = stored_plate dto)"
proof (cases "rider_of userId w")
  case None
  have "\<not> (stored_plate dto \<noteq> None \<and> clashes r_licensePlate (stored_plate dto) (\<lambda>r. True) (w_riders (a_world w)))
      \<and> rid = newId
      \<and> w' = on_world (\<lambda>x. x\<lparr>w_riders := w_riders x @ [rider_dossier dto files now (blank_rider newId userId now)]\<rparr>) w"
    using up None by (auto simp: upsert_rider_def Let_def split: if_split_asm)
  then have free: "stored_plate dto = None \<or> (\<forall>r \<in> set (w_riders (a_world w)). r_licensePlate r \<noteq> stored_plate dto)"
    and w': "w' = on_world (\<lambda>x. x\<lparr>w_riders := w_riders x @ [rider_dossier dto files now (blank_rider newId userId now)]\<rparr>) w"
    and rid: "rid = newId"
    unfolding clashes_def by blast+
  have "find_row (\<lambda>r. r_id r = newId) (w_riders (a_world w)) = None"
    using new unfolding find_row_None by (metis image_eqI)
  then have "rider_row rid (a_world w') = Some (rider_dossier dto files now (blank_rider newId userId now))"
    using w' rid by (simp add: rider_row_def find_row_append blank_rider_def)
  moreover have "plates_unique (a_world w')"
    using plates_unique_add [OF un] free w' by simp
  ultimately show ?thesis by (simp add: blank_rider_def)
next
  case (Some old)
  let ?f = "\<lambda>r. (rider_dossier dto files now r)\<lparr>r_rejectedAt := None, r_rejectionReason := None\<rparr>"
  have old: "old \<in> set (w_riders (a_world w))" "r_userId old = userId"
    using find_row_Some [OF Some [unfolded rider_of_def]] by auto
  have "\<not> (stored_plate dto \<noteq> None
        \<and> clashes r_licensePlate (stored_plate dto) (\<lambda>r. r_id r \<noteq> r_id old) (w_riders (a_world w)))
      \<and> rid = r_id old \<and> w' = on_world (\<lambda>x. x\<lparr>w_riders := upd_where (\<lambda>r. r_id r = r_id old) ?f (w_riders x)\<rparr>) w"
    using up Some by (auto simp: upsert_rider_def Let_def split: if_split_asm)
  then have free: "stored_plate dto = None
      \<or> (\<forall>r \<in> set (w_riders (a_world w)). r_id r \<noteq> r_id old \<longrightarrow> r_licensePlate r \<noteq> stored_plate dto)"
    and w': "w' = on_world (\<lambda>x. x\<lparr>w_riders := upd_where (\<lambda>r. r_id r = r_id old) ?f (w_riders x)\<rparr>) w"
    and rid: "rid = r_id old"
    unfolding clashes_def by blast+
  have s: "find_row (\<lambda>r. r_id r = r_id old) (w_riders (a_world w)) = Some old"
    by (rule find_row_key_unique [OF ids old(1)])
  have "rider_row rid (a_world w') = Some (?f old)"
    using s w' rid by (simp add: rider_row_def find_row_key_upd [of r_id ?f])
  moreover have "plates_unique (a_world w')"
    using plates_unique_edit [OF un, where f = ?f and p = "stored_plate dto" and i = "r_id old"] free w' by simp
  ultimately show ?thesis using old(2) by simp
qed

text \<open>
  An accepted dossier keeps plates unique and waits for review, under a plate exactly when the vehicle
  must carry one.
\<close>

lemma rider_submission:
  assumes sub: "rider_submit nu nr dto files now w = (Inr (rid, st), w')" and un: "plates_unique (a_world w)"
    and new: "nr \<notin> r_id ` set (w_riders (a_world w))" and ids: "distinct (map r_id (w_riders (a_world w)))"
  shows "plates_unique (a_world w') \<and> st = RS_PENDING_REVIEW \<and> (\<exists>r. rider_row rid (a_world w') = Some r
     \<and> r_status r = RS_PENDING_REVIEW
     \<and> (r_licensePlate r \<noteq> None \<longleftrightarrow> sr_vehicleType dto \<in> set REQUIRES_LICENSE_PLATE))"
proof -
  obtain userId w1 where e: "ensure_rider_user nu (normalizePhone (sr_phone dto)) (sr_name dto) w = (userId, w1)"
    and up: "upsert_rider nr userId dto files now w1 = (Inr rid, w')" and st: "st = RS_PENDING_REVIEW"
    and plate: "sr_vehicleType dto \<in> set REQUIRES_LICENSE_PLATE \<Longrightarrow> \<not> falsy (sr_licensePlate dto)"
    using sub by (auto simp: rider_submit_def Let_def split: if_split_asm prod.splits sum.splits)
  have w1: "a_world w1 = a_world w"
    using e by (auto simp: ensure_rider_user_def split: option.splits)
  have "stored_plate dto \<noteq> None \<longleftrightarrow> sr_vehicleType dto \<in> set REQUIRES_LICENSE_PLATE"
    using plate by (cases "sr_licensePlate dto") (auto simp: stored_plate_def Let_def)
  then show ?thesis
    using upsert_rider_facts [OF up, unfolded w1, OF un new ids] st by auto
qed

end
