(* ===== verification/Web_Auth.thy ===== *)
theory Web_Auth
  imports Admin_Auth
begin

text \<open>
  The two controllers that put sessions into cookies (\<open>auth/auth.controller.ts\<close>,
  \<open>admin/admin-auth.controller.ts\<close>): what each handler writes in the response body, which
  \<open>Set-Cookie\<close> headers go with it, and what a later request makes of the cookies.  A handler returns
  its body and headers beside the state; whether a browser sends a cookie of one path to another
  is the parameter \<open>path_match\<close>, with RFC 6265 as its hypothesis.
\<close>

section \<open>Requests and cookies\<close>

record cookie_options =
  co_httpOnly :: bool
  co_secure :: bool
  co_sameSite :: string
  co_path :: string
  co_maxAge :: "int option"   \<comment> \<open>milliseconds\<close>

datatype cookie_header =
    Set_Cookie string string cookie_options
  | Clear_Cookie string cookie_options

record request =
  rq_cookies :: "(string \<times> string) list"
  rq_refreshToken :: "string option"
  rq_userAgent :: "string option"
  rq_ip :: "string option"

definition REFRESH_COOKIE_NAME :: string where "REFRESH_COOKIE_NAME = ''chopnow_rt''"
definition DEVICE_COOKIE_NAME :: string where "DEVICE_COOKIE_NAME = ''chopnow_did''"
definition DEVICE_COOKIE_MAX_AGE_SECONDS :: int where "DEVICE_COOKIE_MAX_AGE_SECONDS = 60 * 60 * 24 * 365 * 10"

definition isProduction :: "auth_env \<Rightarrow> bool" where
  "isProduction env = (nodeEnv env = ''production'')"

definition refreshCookieOptions :: "int \<Rightarrow> bool \<Rightarrow> cookie_options" where
  "refreshCookieOptions maxAgeSeconds secure =
     \<lparr>co_httpOnly = True, co_secure = secure, co_sameSite = ''strict'', co_path = ''/api/v1/auth'',
      co_maxAge = Some (maxAgeSeconds * 1000)\<rparr>"

definition present :: "string option \<Rightarrow> string option" where
  "present s = (if falsy s then None else s)"

definition readRefreshFromRequest :: "request \<Rightarrow> string option" where
  "readRefreshFromRequest rq =
     (let cookie = present (map_of (rq_cookies rq) REFRESH_COOKIE_NAME)
      in if cookie \<noteq> None then cookie else present (rq_refreshToken rq))"

definition readDeviceMeta :: "request \<Rightarrow> device_meta" where
  "readDeviceMeta rq =
     \<lparr>deviceCookie = present (map_of (rq_cookies rq) DEVICE_COOKIE_NAME),
      ipAddress = present (rq_ip rq), userAgent = present (rq_userAgent rq)\<rparr>"

section \<open>The handlers of \<open>AuthController\<close>\<close>

text \<open>\<open>refreshCookieMaxAgeSeconds\<close> throws on a duration it cannot parse.\<close>

definition setRefreshCookie :: "auth_env \<Rightarrow> string option \<Rightarrow> string \<Rightarrow> http_error + cookie_header list" where
  "setRefreshCookie env ttlOverride token =
     (case refreshCookieMaxAgeSeconds env ttlOverride of
        None \<Rightarrow> Inl (UpstreamError (''Invalid duration: '' @ (case ttlOverride of Some t \<Rightarrow> t | None \<Rightarrow> jwtRefreshTtl env)))
      | Some s \<Rightarrow> Inr [Set_Cookie REFRESH_COOKIE_NAME token (refreshCookieOptions s (isProduction env))])"

definition setDeviceCookie :: "auth_env \<Rightarrow> string \<Rightarrow> cookie_header list" where
  "setDeviceCookie env dev =
     (if dev = [] then []
      else [Set_Cookie DEVICE_COOKIE_NAME dev
              \<lparr>co_httpOnly = True, co_secure = isProduction env, co_sameSite = ''strict'',
               co_path = ''/api/v1/auth'', co_maxAge = Some (DEVICE_COOKIE_MAX_AGE_SECONDS * 1000)\<rparr>])"

definition clearRefreshCookie :: "auth_env \<Rightarrow> cookie_header" where
  "clearRefreshCookie env = Clear_Cookie REFRESH_COOKIE_NAME
     \<lparr>co_httpOnly = True, co_secure = isProduction env, co_sameSite = ''strict'',
      co_path = ''/api/v1/auth'', co_maxAge = None\<rparr>"

text \<open>The body of \<open>verifyOtp\<close> and \<open>refresh\<close>: the two tokens, not the device id.\<close>

datatype token_body = Token_Body string string

definition with_cookies ::
  "auth_env \<Rightarrow> (issued_tokens, auth_world) outcome \<Rightarrow> (token_body \<times> cookie_header list, auth_world) outcome" where
  "with_cookies env out =
     (case out of
        (Inl e, w) \<Rightarrow> (Inl e, w)
      | (Inr t, w) \<Rightarrow>
          (case setRefreshCookie env None (refreshToken t) of
             Inl e \<Rightarrow> (Inl e, w)
           | Inr hs \<Rightarrow> (Inr (Token_Body (accessToken t) (refreshToken t), hs @ setDeviceCookie env (deviceId t)), w)))"

definition web_verifyOtp ::
  "auth_env \<Rightarrow> draws \<Rightarrow> string \<Rightarrow> string \<Rightarrow> request \<Rightarrow> time \<Rightarrow> auth_world
   \<Rightarrow> (token_body \<times> cookie_header list, auth_world) outcome" where
  "web_verifyOtp env rnd phone code rq now w =
     with_cookies env (verifyOtp env rnd phone code (readDeviceMeta rq) now w)"

text \<open>
  \<open>refresh\<close> behind \<open>JwtRefreshGuard\<close>: \<open>claims\<close> are subject and role of the token, None when passport
  finds none or its signature or expiry does not check; every failure there has the same body.
\<close>

definition web_refresh ::
  "auth_env \<Rightarrow> draws \<Rightarrow> (uuid \<times> UserRole) option \<Rightarrow> request \<Rightarrow> time \<Rightarrow> auth_world
   \<Rightarrow> (token_body \<times> cookie_header list, auth_world) outcome" where
  "web_refresh env rnd claims rq now w =
     (case claims of
        None \<Rightarrow> (Inl (Unauthorized ''refresh_invalid_or_expired''), w)
      | Some (sub, role) \<Rightarrow>
          (case refresh_validate (map_of (rq_cookies rq) REFRESH_COOKIE_NAME) (rq_refreshToken rq) sub role now w of
             Inl _ \<Rightarrow> (Inl (Unauthorized ''refresh_invalid_or_expired''), w)
           | Inr (u, r, raw) \<Rightarrow> with_cookies env (refresh env rnd u r raw (readDeviceMeta rq) now w)))"

definition web_logout :: "auth_env \<Rightarrow> request \<Rightarrow> time \<Rightarrow> auth_world \<Rightarrow> cookie_header list \<times> auth_world" where
  "web_logout env rq now w =
     ([clearRefreshCookie env],
      case readRefreshFromRequest rq of None \<Rightarrow> w | Some raw \<Rightarrow> logout env raw now w)"

definition web_revokeAllSessions :: "auth_env \<Rightarrow> uuid \<Rightarrow> time \<Rightarrow> auth_world \<Rightarrow> cookie_header list \<times> auth_world" where
  "web_revokeAllSessions env userId now w =
     ([clearRefreshCookie env], snd (revokeAllSessions userId now w))"

section \<open>The handlers of \<open>AdminAuthController\<close>\<close>

definition maybeSetSessionCookies :: "auth_env \<Rightarrow> login_result \<Rightarrow> http_error + cookie_header list" where
  "maybeSetSessionCookies env res =
     (case res of
        TotpRequired _ _ \<Rightarrow> Inr []
      | LoginSuccess t _ _ _ \<Rightarrow>
          (case setRefreshCookie env (Some (jwtAdminRefreshTtl env)) (refreshToken t) of
             Inl e \<Rightarrow> Inl e
           | Inr hs \<Rightarrow> Inr (hs @ [Set_Cookie DEVICE_COOKIE_NAME (deviceId t)
                           (refreshCookieOptions DEVICE_COOKIE_MAX_AGE_SECONDS (isProduction env))])))"

text \<open>\<open>scrubBody\<close>: the access token, role, address and lifetime are what is left of a success.\<close>

datatype admin_body =
    Totp_Required_Body string int
  | Success_Body string UserRole string int

fun scrubBody :: "login_result \<Rightarrow> admin_body" where
  "scrubBody (TotpRequired challenge expiresIn) = Totp_Required_Body challenge expiresIn"
| "scrubBody (LoginSuccess t role email expiresIn) = Success_Body (accessToken t) role email expiresIn"

definition with_session ::
  "auth_env \<Rightarrow> (login_result, auth_world) outcome \<Rightarrow> (admin_body \<times> cookie_header list, auth_world) outcome" where
  "with_session env out =
     (case out of
        (Inl e, w) \<Rightarrow> (Inl e, w)
      | (Inr res, w) \<Rightarrow>
          (case maybeSetSessionCookies env res of
             Inl e \<Rightarrow> (Inl e, w)
           | Inr hs \<Rightarrow> (Inr (scrubBody res, hs), w)))"

definition web_login ::
  "auth_env \<Rightarrow> draws \<Rightarrow> string \<Rightarrow> string \<Rightarrow> string \<Rightarrow> request \<Rightarrow> time \<Rightarrow> auth_world
   \<Rightarrow> (admin_body \<times> cookie_header list, auth_world) outcome" where
  "web_login env rnd challenge email password rq now w =
     with_session env (login env rnd challenge email password (readDeviceMeta rq) now w)"

definition web_verify2fa ::
  "auth_env \<Rightarrow> draws \<Rightarrow> string \<Rightarrow> string \<Rightarrow> bool \<Rightarrow> request \<Rightarrow> time \<Rightarrow> auth_world
   \<Rightarrow> (admin_body \<times> cookie_header list, auth_world) outcome" where
  "web_verify2fa env rnd challenge code isRecoveryCode rq now w =
     with_session env (verifyTotpChallenge env rnd challenge code isRecoveryCode (readDeviceMeta rq) now w)"

section \<open>A browser\<close>

text \<open>
  The jar keeps one cookie per name and path, newest value last written; a request carries the
  cookies whose path matches its own.
\<close>

type_synonym jar = "((string \<times> string) \<times> string) list"

fun store :: "cookie_header \<Rightarrow> jar \<Rightarrow> jar" where
  "store (Set_Cookie name v opts) j = ((name, co_path opts), v) # filter (\<lambda>c. fst c \<noteq> (name, co_path opts)) j"
| "store (Clear_Cookie name opts) j = filter (\<lambda>c. fst c \<noteq> (name, co_path opts)) j"

definition sent :: "(string \<Rightarrow> string \<Rightarrow> bool) \<Rightarrow> string \<Rightarrow> jar \<Rightarrow> (string \<times> string) list" where
  "sent path_match path j = map (\<lambda>((n, _), v). (n, v)) (filter (\<lambda>((_, p), _). path_match p path) j)"

definition rfc6265_path :: "(string \<Rightarrow> string \<Rightarrow> bool) \<Rightarrow> bool" where
  "rfc6265_path path_match \<longleftrightarrow>
     (\<forall>c r. path_match c r \<longleftrightarrow> c = r \<or> (\<exists>s. r = c @ s \<and> (last c = CHR ''/'' \<or> hd s = CHR ''/'') \<and> s \<noteq> []))"

definition request_of :: "(string \<times> string) list \<Rightarrow> string option \<Rightarrow> string option \<Rightarrow> request" where
  "request_of cs ua ip = \<lparr>rq_cookies = cs, rq_refreshToken = None, rq_userAgent = ua, rq_ip = ip\<rparr>"


text \<open>A jar in which this application's two names only occur under its own cookie path.\<close>

definition app_jar :: "jar \<Rightarrow> bool" where
  "app_jar j \<longleftrightarrow>
     (\<forall>c \<in> set j. fst (fst c) \<in> {REFRESH_COOKIE_NAME, DEVICE_COOKIE_NAME} \<longrightarrow> snd (fst c) = ''/api/v1/auth'')"

lemma cookie_names [simp]: "REFRESH_COOKIE_NAME \<noteq> DEVICE_COOKIE_NAME" "DEVICE_COOKIE_NAME \<noteq> REFRESH_COOKIE_NAME"
  by (simp_all add: REFRESH_COOKIE_NAME_def DEVICE_COOKIE_NAME_def)

lemma app_jar_filter [simp]: "app_jar j \<Longrightarrow> app_jar (filter P j)"
  by (auto simp: app_jar_def)

lemma app_jar_Cons [simp]: "app_jar (((n, ''/api/v1/auth''), v) # j) \<longleftrightarrow> app_jar j"
  by (simp add: app_jar_def)

lemma sent_absent:
  assumes "app_jar j" and "n \<in> {REFRESH_COOKIE_NAME, DEVICE_COOKIE_NAME}"
    and "(n, ''/api/v1/auth'') \<notin> fst ` set j \<or> \<not> pm ''/api/v1/auth'' path"
  shows "map_of (sent pm path j) n = None"
proof -
  have "\<not> pm (snd (fst c)) path" if "c \<in> set j" "fst (fst c) = n" for c
  proof -
    have "fst c = (n, ''/api/v1/auth'')" using assms(1,2) that by (auto simp: app_jar_def prod_eq_iff)
    moreover have "fst c \<in> fst ` set j" using that(1) by (rule imageI)
    ultimately show ?thesis using assms(3) by auto
  qed
  then have "n \<notin> fst ` set (sent pm path j)" by (force simp: sent_def)
  then show ?thesis by (simp add: map_of_eq_None_iff)
qed

lemma sent_Cons: "sent pm path (((n, p), v) # j) = (if pm p path then (n, v) # sent pm path j else sent pm path j)"
  by (simp add: sent_def)

lemma refresh_path: "rfc6265_path pm \<Longrightarrow> pm ''/api/v1/auth'' ''/api/v1/auth/refresh''"
  unfolding rfc6265_path_def by (drule spec [of _ "''/api/v1/auth''"], drule spec [of _ "''/api/v1/auth/refresh''"])
    (auto intro: exI [of _ "''/refresh''"])

lemma admin_path:
  assumes "rfc6265_path pm"
  shows "\<not> pm ''/api/v1/auth'' (''/api/v1/admin/auth/'' @ p)"
  using assms by (simp add: rfc6265_path_def)

section \<open>Sessions and cookies\<close>

lemma signTokens_ttl:
  "signTokens env rnd u r x d ttl now w = (Inr t, w')
   \<Longrightarrow> \<exists>s. refreshCookieMaxAgeSeconds env ttl = Some s"
  by (auto simp: signTokens_def refreshCookieMaxAgeSeconds_def Let_def split: option.splits)

lemma verifyOtp_ttl:
  assumes "verifyOtp env rnd phone code m now w = (Inr t, w')"
  shows "\<exists>s. refreshCookieMaxAgeSeconds env None = Some s"
  using assms
  by (auto simp: verifyOtp_def sign_in_def split: option.splits sum.splits prod.splits dest: signTokens_ttl)

text \<open>The headers of a sign-in, in a jar: the refresh token comes back, and so does the device.\<close>

lemma jar_after_sign_in:
  assumes "app_jar j" and "rfc6265_path pm" and "setRefreshCookie env ttl raw = Inr hs" and "dev \<noteq> []"
  shows "let rq = request_of (sent pm ''/api/v1/auth/refresh'' (fold store (hs @ setDeviceCookie env dev) j)) ua ip
    in readRefreshFromRequest rq = present (Some raw) \<and> deviceCookie (readDeviceMeta rq) = Some dev"
  using assms refresh_path [OF assms(2)]
  by (auto simp: setRefreshCookie_def setDeviceCookie_def refreshCookieOptions_def readRefreshFromRequest_def
      readDeviceMeta_def request_of_def sent_Cons present_def Let_def split: option.splits if_splits)

section \<open>Concrete browsers\<close>

definition rfc_match :: "string \<Rightarrow> string \<Rightarrow> bool" where
  "rfc_match c r = (c = r \<or> take (length c) r = c \<and> drop (length c) r \<noteq> []
     \<and> (last c = CHR ''/'' \<or> hd (drop (length c) r) = CHR ''/''))"

lemma rfc_match_ok: "rfc6265_path rfc_match"
proof -
  have "(\<exists>s. r = c @ s \<and> (last c = CHR ''/'' \<or> hd s = CHR ''/'') \<and> s \<noteq> [])
      \<longleftrightarrow> take (length c) r = c \<and> drop (length c) r \<noteq> [] \<and> (last c = CHR ''/'' \<or> hd (drop (length c) r) = CHR ''/'')" for c r :: string
    by (metis append_eq_conv_conj)
  then show ?thesis unfolding rfc6265_path_def rfc_match_def by blast
qed

definition used_jar :: jar where
  "used_jar = [((''chopnow_did'', ''/api/v1/auth''), ''D0''), ((''chopnow_rt'', ''/api/v1/auth''), ''old'')]"

lemma used_jar_ok: "app_jar used_jar"
  by (simp add: app_jar_def used_jar_def)


section \<open>Round trips through a browser\<close>

text \<open>
  C20.  A sign-in by one-time code answers 200 with both tokens, and the browser's next call of
  \<open>/api/v1/auth/refresh\<close> presents exactly the refresh token just issued and the device just resolved,
  whatever else its jar holds.
\<close>

theorem session_cookie_roundtrip:
  assumes "verifyOtp env rnd phone code (readDeviceMeta rq) now w = (Inr t, w')" and "deviceId t \<noteq> []"
    and "app_jar j" and "rfc6265_path pm"
  shows "\<exists>hs. web_verifyOtp env rnd phone code rq now w = (Inr (Token_Body (accessToken t) (refreshToken t), hs), w')
    \<and> (let next = request_of (sent pm ''/api/v1/auth/refresh'' (fold store hs j)) ua ip
       in readRefreshFromRequest next = present (Some (refreshToken t))
          \<and> deviceCookie (readDeviceMeta next) = Some (deviceId t))"
proof -
  obtain s where "refreshCookieMaxAgeSeconds env None = Some s" using verifyOtp_ttl [OF assms(1)] by blast
  then obtain hs where hs: "setRefreshCookie env None (refreshToken t) = Inr hs"
    by (simp add: setRefreshCookie_def)
  then have "web_verifyOtp env rnd phone code rq now w =
      (Inr (Token_Body (accessToken t) (refreshToken t), hs @ setDeviceCookie env (deviceId t)), w')"
    using assms(1) by (simp add: web_verifyOtp_def with_cookies_def)
  then show ?thesis using jar_after_sign_in [OF assms(3,4) hs assms(2)] by blast
qed

theorem session_cookie_roundtrip_witness:
  "\<exists>a r hs w'. web_verifyOtp plain_env demo_draws ''+237670000000'' ''123456'' (request_of [] None None) 5
       (demo_auth [demo_user] [demo_otp] []) = (Inr (Token_Body a r, hs), w')
     \<and> deviceCookie (readDeviceMeta (request_of (sent rfc_match ''/api/v1/auth/refresh'' (fold store hs used_jar)) None None)) = Some ''D''"
proof -
  let ?v = "verifyOtp plain_env demo_draws ''+237670000000'' ''123456'' (readDeviceMeta (request_of [] None None)) 5
       (demo_auth [demo_user] [demo_otp] [])"
  have ok: "\<not> isl (fst ?v)" "deviceId (projr (fst ?v)) = ''D''" by code_simp+
  then obtain t where v: "?v = (Inr t, snd ?v)" and t: "deviceId t = ''D''" by (cases ?v; cases "fst ?v") auto
  show ?thesis
    using session_cookie_roundtrip [OF v _ used_jar_ok rfc_match_ok, of None None] t by (auto simp: Let_def)
qed

lemma admin_device_forgotten:
  assumes "app_jar j" and "rfc6265_path pm"
  shows "deviceCookie (readDeviceMeta (request_of (sent pm (''/api/v1/admin/auth/'' @ p) j) ua ip)) = None"
  using sent_absent [OF assms(1), of DEVICE_COOKIE_NAME pm "''/api/v1/admin/auth/'' @ p"] admin_path [OF assms(2), of p]
  by (simp add: readDeviceMeta_def request_of_def present_def)

lemma issueSession_without_device:
  assumes "issueSession env rnd u r e m now w = (Inr (LoginSuccess t role email x), w')" and "deviceCookie m = None"
  shows "\<exists>d. a_devices w' = a_devices w @ [d] \<and> dv_id d = newDeviceId rnd \<and> deviceId t = newDeviceId rnd"
  using assms
  by (auto simp: issueSession_def issueAdminSession_def signTokens_def rotate_tx_def resolveDevice_def fresh_device_def
      Let_def split: option.splits sum.splits prod.splits if_splits)

lemma login_success_session:
  assumes "login env rnd challenge email password m now w = (Inr (LoginSuccess t role e x), w')"
  shows "\<exists>(u :: user) w1. issueSession env rnd (us_id u) (us_role u) (trim (to_lower email)) m now w1 = (Inr (LoginSuccess t role e x), w')
    \<and> a_devices w1 = a_devices w"
proof -
  have "\<exists>u. login_right_password env rnd challenge u (trim (to_lower email)) m now w = (Inr (LoginSuccess t role e x), w')"
    using assms by (auto simp: login_def login_wrong_password_def Let_def split_beta split: option.splits if_splits)
  then obtain u where u: "login_right_password env rnd challenge u (trim (to_lower email)) m now w = (Inr (LoginSuccess t role e x), w')"
    by blast
  let ?w = "on_world (redis_del (attemptsKey (us_id u))) w"
  have "issueSession env rnd (us_id u) (us_role u) (trim (to_lower email)) m now ?w = (Inr (LoginSuccess t role e x), w')"
    using u by (auto simp: login_right_password_def Let_def split: if_splits)
  moreover have "a_devices ?w = a_devices w" by (simp add: on_world_def)
  ultimately show ?thesis by blast
qed

text \<open>
  The cookies' path is \<open>/api/v1/auth\<close>, the admin sign-in lives under \<open>/api/v1/admin/auth\<close>: no browser
  sends the device cookie there.  Whatever the jar holds, an admin login that opens a session
  creates a new device row, and replaces the cookie of the old one.
\<close>

theorem admin_login_forgets_the_device:
  assumes "app_jar j" and "rfc6265_path pm"
    and "web_login env rnd challenge email password (request_of (sent pm ''/api/v1/admin/auth/login'' j) ua ip) now w
      = (Inr (Success_Body a role e x, hs), w')"
  shows "\<exists>d opts. a_devices w' = a_devices w @ [d] \<and> dv_id d = newDeviceId rnd
    \<and> Set_Cookie DEVICE_COOKIE_NAME (newDeviceId rnd) opts \<in> set hs"
proof -
  let ?m = "readDeviceMeta (request_of (sent pm (''/api/v1/admin/auth/'' @ ''login'') j) ua ip)"
  obtain t role' e' x' where l: "login env rnd challenge email password ?m now w = (Inr (LoginSuccess t role' e' x'), w')"
    and hs: "maybeSetSessionCookies env (LoginSuccess t role' e' x') = Inr hs"
    using assms(3)
    by (auto simp: web_login_def with_session_def split: prod.splits sum.splits elim: scrubBody.elims)
  obtain u :: user and w1 where "issueSession env rnd (us_id u) (us_role u) (trim (to_lower email)) ?m now w1 = (Inr (LoginSuccess t role' e' x'), w')"
    and d: "a_devices w1 = a_devices w"
    using login_success_session [OF l] by blast
  from issueSession_without_device [OF this(1) admin_device_forgotten [OF assms(1,2)]]
  show ?thesis using hs d by (auto simp: maybeSetSessionCookies_def setRefreshCookie_def split: option.splits)
qed

theorem admin_login_forgets_the_device_witness:
  "let w = (admin_world [])\<lparr>a_devices := [\<lparr>dv_id = ''D0'', dv_userId = ''U'', dv_userAgentHash = None,
         dv_userAgentLabel = None, dv_ipAddress = None, dv_firstSeenAt = 0, dv_lastSeenAt = 0\<rparr>]\<rparr>;
       r = web_login plain_env demo_draws ''ch'' ''A@b.c '' ''pw''
             (request_of (sent rfc_match ''/api/v1/admin/auth/login'' used_jar) None None) 5 w
   in \<not> isl (fst r) \<and> length (a_devices (snd r)) = 2"
proof -
  let ?w = "(admin_world [])\<lparr>a_devices := [\<lparr>dv_id = ''D0'', dv_userId = ''U'', dv_userAgentHash = None,
         dv_userAgentLabel = None, dv_ipAddress = None, dv_firstSeenAt = 0, dv_lastSeenAt = 0\<rparr>]\<rparr>"
  let ?r = "web_login plain_env demo_draws ''ch'' ''A@b.c '' ''pw''
             (request_of (sent rfc_match ''/api/v1/admin/auth/login'' used_jar) None None) 5 ?w"
  have ok: "case fst ?r of Inr (Success_Body a r e x, hs) \<Rightarrow> True | _ \<Rightarrow> False" by code_simp
  then obtain a r e x hs where r: "?r = (Inr (Success_Body a r e x, hs), snd ?r)"
    by (cases ?r; cases "fst ?r") (auto split: admin_body.splits)
  show ?thesis
    using admin_login_forgets_the_device [OF used_jar_ok rfc_match_ok r] arg_cong [OF r, of fst]
    by (auto simp: Let_def admin_world_def)
qed

text \<open>
  C21.  Logging out revokes the row of the presented token and takes the token out of the jar: the next
  request to any route carries none; the device cookie stays.
\<close>

theorem logout_ends_the_session:
  assumes "app_jar j" and "readRefreshFromRequest (request_of (sent pm path j) ua ip) = Some raw"
    and "jwt_verify env (jwtRefreshSecret env) now raw = Some u" and "presents env u raw now r w"
    and "rt_revokedAt r = None" and "distinct (map rt_id (a_tokens w))"
  shows "let (hs, w') = web_logout env (request_of (sent pm path j) ua ip) now w;
             next = (\<lambda>p. request_of (sent pm p (fold store hs j)) ua ip)
    in a_tokens w' = upd_where (\<lambda>x. x = r) (\<lambda>x. x\<lparr>rt_revokedAt := Some now\<rparr>) (a_tokens w)
       \<and> (\<forall>p. readRefreshFromRequest (next p) = None
              \<and> readDeviceMeta (next p) = readDeviceMeta (request_of (sent pm p j) ua ip))"
proof -
  let ?k = "filter (\<lambda>c. fst c \<noteq> (REFRESH_COOKIE_NAME, ''/api/v1/auth'')) j"
  have a: "map_of (sent pm p ?k) REFRESH_COOKIE_NAME = None" for p
    by (rule sent_absent) (use assms(1) in auto)
  have b: "map_of (sent pm p ?k) DEVICE_COOKIE_NAME = map_of (sent pm p j) DEVICE_COOKIE_NAME" for p
    by (induction j) (auto simp: sent_def)
  show ?thesis
    using a b logout_revokes [OF assms(3-6)] assms(2)
    by (simp add: web_logout_def clearRefreshCookie_def readRefreshFromRequest_def readDeviceMeta_def present_def
        request_of_def Let_def)
qed

theorem logout_ends_the_session_witness:
  "let t = demo_token\<lparr>rt_userId := ''l''\<rparr>;
       (hs, w') = web_logout plain_env (request_of (sent rfc_match ''/api/v1/auth/logout'' used_jar) None None) 5
                    (demo_auth [demo_user] [] [t])
   in a_tokens w' = [t\<lparr>rt_revokedAt := Some 5\<rparr>]
      \<and> readRefreshFromRequest (request_of (sent rfc_match ''/api/v1/auth/refresh'' (fold store hs used_jar)) None None) = None"
proof -
  let ?t = "demo_token\<lparr>rt_userId := ''l''\<rparr>" and ?w = "demo_auth [demo_user] [] [demo_token\<lparr>rt_userId := ''l''\<rparr>]"
  let ?q = "request_of (sent rfc_match ''/api/v1/auth/logout'' used_jar) None None"
  have q: "readRefreshFromRequest ?q = Some ''old''" by code_simp
  have p: "presents plain_env ''l'' ''old'' 5 ?t ?w"
    by (simp add: presents_def demo_auth_def demo_token_def plain_env_def)
  have j: "jwt_verify plain_env (jwtRefreshSecret plain_env) 5 ''old'' = Some ''l''" by (simp add: plain_env_def demo_env_def)
  show ?thesis
    using logout_ends_the_session [OF used_jar_ok q j p] by (auto simp: demo_auth_def demo_token_def Let_def split_beta upd_where_def)
qed

end
