(* ===== verification/Routes.thy ===== *)
theory Routes
  imports Redis
begin

text \<open>
  The HTTP surface: every route of every controller, with the decorators that decide who gets
  through (\<open>@Public\<close>, \<open>@Roles\<close>, \<open>@UseGuards\<close>, \<open>@Throttle\<close>, the audit interceptor of its class), the
  parameters that must be UUIDs, the status of a success and the operation the handler calls
  first.  One list per controller, in the order of its methods; \<open>routes\<close> is the application.
  In front of every route stand the three global guards of \<open>app.module.ts\<close>: throttling, the access
  token (\<open>shared/guards/jwt-auth.guard.ts\<close>), the roles (\<open>canActivate\<close> of \<open>Redis\<close>).  Who each
  operation is meant for is stated apart from the decorators, as a \<open>policy\<close>, and compared with them.
\<close>

section \<open>Routes\<close>

datatype http_method = GET | POST | PUT | PATCH | DELETE

datatype segment = Lit string | Param string

datatype route_guard =
    Turnstile
  | Phone_Rate_Limit nat nat          \<comment> \<open>limit, seconds\<close>
  | Jwt_Refresh
  | Campay_Webhook
  | Twilio_Webhook

record route =
  ro_method :: http_method
  ro_path :: "segment list"
  ro_neutral :: bool
  ro_public :: bool
  ro_roles :: "UserRole list option"
  ro_guards :: "route_guard list"
  ro_throttle :: "(string \<times> nat \<times> nat) list"   \<comment> \<open>throttler, limit, milliseconds\<close>
  ro_audited :: bool
  ro_uuids :: "string list"
  ro_status :: nat
  ro_calls :: string

definition ADMIN_WRITE_ROLES :: "UserRole list" where "ADMIN_WRITE_ROLES = [OPERATOR, ADMIN]"
definition ADMIN_ANY_ROLE :: "UserRole list" where "ADMIN_ANY_ROLE = [OPERATOR, ADMIN, VIEWER]"

text \<open>The shapes that recur: open to everybody, for any signed-in user, for a role.\<close>

definition public_route :: "http_method \<Rightarrow> segment list \<Rightarrow> nat \<Rightarrow> string \<Rightarrow> route" where
  "public_route m p status op =
     \<lparr>ro_method = m, ro_path = p, ro_neutral = False, ro_public = True, ro_roles = None, ro_guards = [],
      ro_throttle = [], ro_audited = False, ro_uuids = [], ro_status = status, ro_calls = op\<rparr>"

definition user_route :: "http_method \<Rightarrow> segment list \<Rightarrow> string list \<Rightarrow> nat \<Rightarrow> string \<Rightarrow> route" where
  "user_route m p uuids status op =
     \<lparr>ro_method = m, ro_path = p, ro_neutral = False, ro_public = False, ro_roles = None, ro_guards = [],
      ro_throttle = [], ro_audited = False, ro_uuids = uuids, ro_status = status, ro_calls = op\<rparr>"

definition role_route :: "UserRole list \<Rightarrow> http_method \<Rightarrow> segment list \<Rightarrow> string list \<Rightarrow> nat \<Rightarrow> string \<Rightarrow> route" where
  "role_route roles m p uuids status op =
     \<lparr>ro_method = m, ro_path = p, ro_neutral = False, ro_public = False, ro_roles = Some roles, ro_guards = [],
      ro_throttle = [], ro_audited = False, ro_uuids = uuids, ro_status = status, ro_calls = op\<rparr>"

definition audited :: "route \<Rightarrow> route" where
  "audited r = r\<lparr>ro_audited := True\<rparr>"

section \<open>The controllers\<close>

definition twilio_webhook_routes :: "route list" where
  "twilio_webhook_routes =
     [(public_route POST [Lit ''twilio'', Lit ''status''] 204 ''OtpDeliveryService.handleTwilioStatus'')
         \<lparr>ro_neutral := True, ro_guards := [Twilio_Webhook]\<rparr>]"

definition media_routes :: "route list" where
  "media_routes =
     [(public_route GET [Lit ''media'', Param ''prefix'', Param ''name''] 200 ''MediaController.streamObject'')
         \<lparr>ro_neutral := True, ro_throttle := [(''default'', 60, 60000)]\<rparr>]"

definition auth_routes :: "route list" where
  "auth_routes =
     [(public_route POST [Lit ''auth'', Lit ''request-otp''] 200 ''AuthService.requestOtp'')
         \<lparr>ro_guards := [Turnstile, Phone_Rate_Limit 5 900], ro_throttle := [(''otp'', 20, 900000)]\<rparr>,
      (public_route POST [Lit ''auth'', Lit ''verify-otp''] 200 ''AuthService.verifyOtp'')
         \<lparr>ro_guards := [Phone_Rate_Limit 10 900], ro_throttle := [(''otp'', 40, 900000)]\<rparr>,
      (public_route POST [Lit ''auth'', Lit ''refresh''] 200 ''AuthService.refresh'')
         \<lparr>ro_guards := [Jwt_Refresh]\<rparr>,
      public_route POST [Lit ''auth'', Lit ''logout''] 204 ''AuthService.logout'',
      user_route POST [Lit ''auth'', Lit ''sessions'', Lit ''revoke-all''] [] 204 ''AuthService.revokeAllSessions'']"

definition auth_captcha_config_routes :: "route list" where
  "auth_captcha_config_routes =
     [public_route GET [Lit ''auth'', Lit ''captcha-config''] 200 ''AuthCaptchaConfigController.captchaConfig'']"

definition users_routes :: "route list" where
  "users_routes =
     [user_route GET [Lit ''users'', Lit ''me''] [] 200 ''UsersService.findById'',
      user_route PATCH [Lit ''users'', Lit ''me''] [] 200 ''UsersService.updateProfile'']"

definition addresses_routes :: "route list" where
  "addresses_routes =
     [user_route GET [Lit ''users'', Lit ''me'', Lit ''addresses''] [] 200 ''AddressesService.list'',
      user_route POST [Lit ''users'', Lit ''me'', Lit ''addresses''] [] 201 ''AddressesService.create'',
      user_route PUT [Lit ''users'', Lit ''me'', Lit ''addresses'', Param ''addressId''] [''addressId''] 200 ''AddressesService.update'',
      user_route DELETE [Lit ''users'', Lit ''me'', Lit ''addresses'', Param ''addressId''] [''addressId''] 200 ''AddressesService.delete'']"

definition orders_routes :: "route list" where
  "orders_routes =
     [user_route POST [Lit ''orders''] [] 201 ''OrderCreationService.createOrder'',
      user_route GET [Lit ''orders''] [] 200 ''OrdersService.listConsumerOrders'',
      user_route GET [Lit ''orders'', Param ''orderId''] [''orderId''] 200 ''OrdersService.getOrder'',
      (public_route GET [Lit ''orders'', Param ''orderId'', Lit ''public''] 200 ''OrdersService.getOrderPublic'')
         \<lparr>ro_uuids := [''orderId'']\<rparr>,
      user_route PATCH [Lit ''orders'', Param ''orderId'', Lit ''cancel''] [''orderId''] 200 ''OrdersService.cancelOrder'',
      user_route POST [Lit ''orders'', Param ''orderId'', Lit ''rating''] [''orderId''] 201 ''OrdersService.rateOrder'',
      role_route [VENDOR] GET [Lit ''orders'', Lit ''vendor'', Lit ''me''] [] 200 ''OrdersService.listVendorOrders'',
      role_route [VENDOR] PATCH [Lit ''orders'', Param ''orderId'', Lit ''accept''] [''orderId''] 200 ''OrderVendorActionsService.acceptOrder'',
      role_route [VENDOR] PATCH [Lit ''orders'', Param ''orderId'', Lit ''refuse''] [''orderId''] 200 ''OrderVendorActionsService.refuseOrder'',
      role_route [VENDOR] PATCH [Lit ''orders'', Param ''orderId'', Lit ''items'', Param ''itemId'', Lit ''prepared''] [''orderId'', ''itemId''] 200 ''OrderVendorActionsService.setItemPrepared'',
      role_route [VENDOR] PATCH [Lit ''orders'', Param ''orderId'', Lit ''ready''] [''orderId''] 200 ''OrderVendorActionsService.markOrderReady'',
      role_route [VENDOR] PATCH [Lit ''orders'', Param ''orderId'', Lit ''vendor-cancel-preorder''] [''orderId''] 200 ''OrderVendorActionsService.vendorCancelPreOrder'']"

definition vendor_routes :: "route list" where
  "vendor_routes =
     [(public_route POST [Lit ''vendors''] 201 ''VendorService.submitInformal'')
         \<lparr>ro_throttle := [(''default'', 5, 3600000)]\<rparr>,
      role_route [VENDOR] GET [Lit ''vendors'', Lit ''me''] [] 200 ''VendorService.getOwn'',
      role_route [VENDOR] PATCH [Lit ''vendors'', Lit ''me''] [] 200 ''VendorService.updateOwn'',
      role_route [VENDOR] GET [Lit ''vendors'', Lit ''me'', Lit ''balance''] [] 200 ''VendorService.getOwn'',
      role_route [VENDOR] POST [Lit ''vendors'', Lit ''me'', Lit ''cashout-request''] [] 201 ''VendorService.getOwn'',
      role_route [VENDOR] PATCH [Lit ''vendors'', Lit ''me'', Lit ''photo''] [] 200 ''VendorService.updateOwnProfilePhoto'',
      role_route [VENDOR] PATCH [Lit ''vendors'', Lit ''me'', Lit ''cover''] [] 200 ''VendorService.updateOwnCoverPhoto'',
      (public_route GET [Lit ''vendors'', Lit ''status''] 200 ''VendorService.getStatusByPhone'')
         \<lparr>ro_throttle := [(''default'', 5, 60000)]\<rparr>]"

definition menu_routes :: "route list" where
  "menu_routes =
     [role_route [VENDOR] GET [Lit ''vendors'', Lit ''me'', Lit ''items''] [] 200 ''MenuService.listItems'',
      role_route [VENDOR] POST [Lit ''vendors'', Lit ''me'', Lit ''items''] [] 201 ''MenuService.createItem'',
      role_route [VENDOR] PUT [Lit ''vendors'', Lit ''me'', Lit ''items'', Param ''itemId''] [''itemId''] 200 ''MenuService.updateItem'',
      role_route [VENDOR] DELETE [Lit ''vendors'', Lit ''me'', Lit ''items'', Param ''itemId''] [''itemId''] 200 ''MenuService.deleteItem'',
      role_route [VENDOR] PATCH [Lit ''vendors'', Lit ''me'', Lit ''items'', Param ''itemId'', Lit ''stock''] [''itemId''] 200 ''MenuService.setItemStock'',
      role_route [VENDOR] PATCH [Lit ''vendors'', Lit ''me'', Lit ''items'', Param ''itemId'', Lit ''photo''] [''itemId''] 200 ''MenuService.setItemPhoto'',
      role_route [VENDOR] GET [Lit ''vendors'', Lit ''me'', Lit ''categories''] [] 200 ''MenuService.listCategories'',
      role_route [VENDOR] POST [Lit ''vendors'', Lit ''me'', Lit ''categories''] [] 201 ''MenuService.createCategory'',
      role_route [VENDOR] PATCH [Lit ''vendors'', Lit ''me'', Lit ''categories'', Param ''categoryId''] [''categoryId''] 200 ''MenuService.updateCategory'',
      role_route [VENDOR] DELETE [Lit ''vendors'', Lit ''me'', Lit ''categories'', Param ''categoryId''] [''categoryId''] 200 ''MenuService.deleteCategory'']"

definition availability_routes :: "route list" where
  "availability_routes =
     [role_route [VENDOR] GET [Lit ''vendors'', Lit ''me'', Lit ''availability''] [] 200 ''AvailabilityService.getOwn'',
      role_route [VENDOR] PATCH [Lit ''vendors'', Lit ''me'', Lit ''availability''] [] 200 ''AvailabilityService.setAvailability'',
      role_route [VENDOR] PUT [Lit ''vendors'', Lit ''me'', Lit ''hours''] [] 200 ''AvailabilityService.setHours'']"

definition browse_routes :: "route list" where
  "browse_routes =
     [public_route GET [Lit ''catalogue''] 200 ''BrowseService.browse'',
      (public_route GET [Lit ''vendors'', Param ''vendorId''] 200 ''BrowseService.getVendorPublic'')
         \<lparr>ro_uuids := [''vendorId'']\<rparr>]"

definition riders_routes :: "route list" where
  "riders_routes =
     [(public_route POST [Lit ''riders''] 201 ''RidersService.submit'')
         \<lparr>ro_throttle := [(''default'', 5, 3600000)]\<rparr>,
      role_route [RIDER] PATCH [Lit ''riders'', Lit ''me''] [] 200 ''RidersService.updateOwn'',
      role_route [RIDER] GET [Lit ''riders'', Lit ''me'', Lit ''balance''] [] 200 ''RidersService.getOwnId'',
      role_route [RIDER] PATCH [Lit ''riders'', Lit ''me'', Lit ''availability''] [] 200 ''RidersService.setAvailability'',
      (role_route [RIDER] POST [Lit ''riders'', Lit ''me'', Lit ''location''] [] 200 ''RidersService.pushHeartbeat'')
         \<lparr>ro_throttle := [(''default'', 12, 60000)]\<rparr>,
      role_route [RIDER] GET [Lit ''riders'', Lit ''me'', Lit ''courses''] [] 200 ''RidersService.listCourses'',
      role_route [RIDER] PATCH [Lit ''riders'', Lit ''me'', Lit ''courses'', Param ''orderId'', Lit ''picked-up''] [''orderId''] 200 ''RidersService.markPickedUp'',
      role_route [RIDER] PATCH [Lit ''riders'', Lit ''me'', Lit ''courses'', Param ''orderId'', Lit ''delivered''] [''orderId''] 200 ''RidersService.markDelivered'',
      (public_route GET [Lit ''riders'', Lit ''status''] 200 ''RidersService.getStatusByPhone'')
         \<lparr>ro_throttle := [(''default'', 5, 60000)]\<rparr>]"

definition admin_auth_routes :: "route list" where
  "admin_auth_routes =
     [(public_route POST [Lit ''admin'', Lit ''auth'', Lit ''login''] 200 ''AdminAuthService.login'')
         \<lparr>ro_throttle := [(''default'', 5, 60000)]\<rparr>,
      (public_route POST [Lit ''admin'', Lit ''auth'', Lit ''2fa''] 200 ''AdminAuthService.verifyTotpChallenge'')
         \<lparr>ro_throttle := [(''default'', 10, 60000)]\<rparr>,
      role_route ADMIN_ANY_ROLE POST [Lit ''admin'', Lit ''auth'', Lit ''2fa'', Lit ''setup''] [] 200 ''AdminTotpService.startEnrollment'',
      role_route ADMIN_ANY_ROLE POST [Lit ''admin'', Lit ''auth'', Lit ''2fa'', Lit ''confirm''] [] 200 ''AdminTotpService.confirmEnrollment'']"

definition admin_validation_routes :: "route list" where
  "admin_validation_routes =
     [audited (role_route ADMIN_WRITE_ROLES GET [Lit ''admin'', Lit ''vendors'', Lit ''pending''] [] 200 ''AdminValidationService.listPendingVendors''),
      audited (role_route ADMIN_WRITE_ROLES POST [Lit ''admin'', Lit ''vendors'', Param ''vendorId'', Lit ''approve''] [''vendorId''] 200 ''AdminValidationService.approveVendor''),
      audited (role_route ADMIN_WRITE_ROLES POST [Lit ''admin'', Lit ''vendors'', Param ''vendorId'', Lit ''reject''] [''vendorId''] 200 ''AdminValidationService.rejectVendor''),
      audited (role_route ADMIN_WRITE_ROLES POST [Lit ''admin'', Lit ''vendors'', Param ''vendorId'', Lit ''suspend''] [''vendorId''] 200 ''AdminValidationService.suspendVendor''),
      audited (role_route ADMIN_WRITE_ROLES POST [Lit ''admin'', Lit ''vendors'', Param ''vendorId'', Lit ''unsuspend''] [''vendorId''] 200 ''AdminValidationService.unsuspendVendor''),
      audited (role_route ADMIN_WRITE_ROLES PATCH [Lit ''admin'', Lit ''vendors'', Param ''vendorId'', Lit ''pre-orders''] [''vendorId''] 200 ''AdminValidationService.setVendorPreOrders''),
      audited (role_route ADMIN_WRITE_ROLES GET [Lit ''admin'', Lit ''riders'', Lit ''pending''] [] 200 ''AdminValidationService.listPendingRiders''),
      audited (role_route ADMIN_WRITE_ROLES POST [Lit ''admin'', Lit ''riders'', Param ''riderId'', Lit ''approve''] [''riderId''] 200 ''AdminValidationService.approveRider''),
      audited (role_route ADMIN_WRITE_ROLES POST [Lit ''admin'', Lit ''riders'', Param ''riderId'', Lit ''reject''] [''riderId''] 200 ''AdminValidationService.rejectRider''),
      audited (role_route ADMIN_WRITE_ROLES POST [Lit ''admin'', Lit ''riders'', Param ''riderId'', Lit ''suspend''] [''riderId''] 200 ''AdminValidationService.suspendRider''),
      audited (role_route ADMIN_WRITE_ROLES POST [Lit ''admin'', Lit ''riders'', Param ''riderId'', Lit ''unsuspend''] [''riderId''] 200 ''AdminValidationService.unsuspendRider'')]"

definition admin_metrics_routes :: "route list" where
  "admin_metrics_routes =
     [role_route ADMIN_WRITE_ROLES GET [Lit ''admin'', Lit ''metrics''] [] 200 ''AdminMetricsService.getPilotMetrics'']"

definition admin_finance_routes :: "route list" where
  "admin_finance_routes =
     [audited (role_route ADMIN_WRITE_ROLES GET [Lit ''admin'', Lit ''vendors'', Param ''vendorId'', Lit ''balance''] [''vendorId''] 200 ''FinanceService.getVendorBalance''),
      audited (role_route ADMIN_WRITE_ROLES GET [Lit ''admin'', Lit ''riders'', Param ''riderId'', Lit ''balance''] [''riderId''] 200 ''FinanceService.getRiderBalance''),
      audited (role_route ADMIN_WRITE_ROLES GET [Lit ''admin'', Lit ''finance'', Lit ''vendor-balances''] [] 200 ''FinanceService.listVendorBalances''),
      audited (role_route ADMIN_WRITE_ROLES GET [Lit ''admin'', Lit ''finance'', Lit ''rider-balances''] [] 200 ''FinanceService.listRiderBalances''),
      audited (role_route ADMIN_WRITE_ROLES GET [Lit ''admin'', Lit ''finance'', Lit ''refund-queue''] [] 200 ''FinanceService.listRefundQueue''),
      audited (role_route ADMIN_WRITE_ROLES GET [Lit ''admin'', Lit ''finance'', Lit ''cashout-requests''] [] 200 ''FinanceService.listCashoutRequests''),
      audited (role_route ADMIN_WRITE_ROLES POST [Lit ''admin'', Lit ''finance'', Lit ''cashout-requests'', Param ''requestId'', Lit ''approve''] [''requestId''] 200 ''FinanceService.approveCashoutRequest''),
      audited (role_route ADMIN_WRITE_ROLES POST [Lit ''admin'', Lit ''finance'', Lit ''cashout-requests'', Param ''requestId'', Lit ''reject''] [''requestId''] 200 ''FinanceService.rejectCashoutRequest''),
      audited (role_route ADMIN_WRITE_ROLES GET [Lit ''admin'', Lit ''finance'', Lit ''campay-circuit''] [] 200 ''CampayCircuitBreakerService.getState''),
      audited (role_route ADMIN_WRITE_ROLES GET [Lit ''admin'', Lit ''finance'', Lit ''escalations''] [] 200 ''PayoutEscalationService.listEscalations''),
      audited (role_route ADMIN_WRITE_ROLES POST [Lit ''admin'', Lit ''finance'', Lit ''vendor-payouts'', Param ''payoutId'', Lit ''retry''] [''payoutId''] 200 ''FinanceService.retryVendorPayout''),
      audited (role_route ADMIN_WRITE_ROLES POST [Lit ''admin'', Lit ''finance'', Lit ''rider-payouts'', Param ''payoutId'', Lit ''retry''] [''payoutId''] 200 ''FinanceService.retryRiderPayout''),
      audited (role_route ADMIN_WRITE_ROLES POST [Lit ''admin'', Lit ''finance'', Lit ''vendor-payouts'', Param ''payoutId'', Lit ''manual-mark-paid''] [''payoutId''] 200 ''FinanceService.manualMarkVendorPayoutPaid''),
      audited (role_route ADMIN_WRITE_ROLES POST [Lit ''admin'', Lit ''finance'', Lit ''rider-payouts'', Param ''payoutId'', Lit ''manual-mark-paid''] [''payoutId''] 200 ''FinanceService.manualMarkRiderPayoutPaid'')]"

definition admin_rider_fraud_routes :: "route list" where
  "admin_rider_fraud_routes =
     [audited (role_route ADMIN_WRITE_ROLES GET [Lit ''admin'', Lit ''orders'', Lit ''stuck-pickup''] [] 200 ''AdminRiderFraudService.listStuckPickups''),
      audited (role_route ADMIN_WRITE_ROLES POST [Lit ''admin'', Lit ''orders'', Param ''orderId'', Lit ''resolve-rider-fraud''] [''orderId''] 200 ''AdminRiderFraudService.resolveRiderFraud'')]"

definition admin_audit_routes :: "route list" where
  "admin_audit_routes =
     [role_route [SUPER_ADMIN] GET [Lit ''admin'', Lit ''audit-logs''] [] 200 ''AdminAuditService.list'']"

definition payments_routes :: "route list" where
  "payments_routes =
     [user_route POST [Lit ''orders'', Param ''orderId'', Lit ''pay'', Lit ''momo''] [''orderId''] 202 ''PaymentsService.initiateMomo'']"

definition campay_webhook_routes :: "route list" where
  "campay_webhook_routes =
     [(public_route POST [Lit ''webhooks'', Lit ''campay''] 200 ''PaymentsService.handleWebhook'')
         \<lparr>ro_neutral := True, ro_guards := [Campay_Webhook]\<rparr>]"

definition push_subscriptions_routes :: "route list" where
  "push_subscriptions_routes =
     [(user_route POST [Lit ''notifications'', Lit ''push'', Lit ''subscribe''] [] 201 ''PushSubscriptionsService.upsert'')
         \<lparr>ro_throttle := [(''default'', 10, 60000)]\<rparr>,
      user_route DELETE [Lit ''notifications'', Lit ''push'', Lit ''subscribe''] [] 204 ''PushSubscriptionsService.deactivateByEndpoint'']"

definition voice_proxy_routes :: "route list" where
  "voice_proxy_routes =
     [role_route [RIDER] POST [Lit ''orders'', Param ''orderId'', Lit ''call-consumer''] [''orderId''] 202 ''VoiceProxyService.startRiderToConsumer'',
      role_route [VENDOR] POST [Lit ''orders'', Param ''orderId'', Lit ''vendor-call-consumer''] [''orderId''] 202 ''VoiceProxyService.startVendorToConsumer'',
      role_route [VENDOR] POST [Lit ''orders'', Param ''orderId'', Lit ''vendor-call-rider''] [''orderId''] 202 ''VoiceProxyService.startVendorToRider'',
      role_route [CONSUMER] POST [Lit ''orders'', Param ''orderId'', Lit ''call-vendor''] [''orderId''] 202 ''VoiceProxyService.startConsumerToVendor'',
      role_route [CONSUMER] POST [Lit ''orders'', Param ''orderId'', Lit ''call-rider''] [''orderId''] 202 ''VoiceProxyService.startConsumerToRider'',
      (public_route POST [Lit ''webhooks'', Lit ''twilio'', Lit ''voice'', Lit ''bridge''] 201 ''VoiceProxyService.buildBridgeTwiml'')
         \<lparr>ro_neutral := True, ro_guards := [Twilio_Webhook]\<rparr>,
      (public_route GET [Lit ''webhooks'', Lit ''twilio'', Lit ''voice'', Lit ''bridge''] 200 ''VoiceProxyService.buildBridgeTwiml'')
         \<lparr>ro_neutral := True, ro_guards := [Twilio_Webhook]\<rparr>]"

definition campay_transfer_webhook_routes :: "route list" where
  "campay_transfer_webhook_routes =
     [(public_route POST [Lit ''webhooks'', Lit ''campay'', Lit ''transfer''] 200 ''FinanceService.handleTransferWebhook'')
         \<lparr>ro_neutral := True, ro_guards := [Campay_Webhook]\<rparr>]"

definition campay_refund_webhook_routes :: "route list" where
  "campay_refund_webhook_routes =
     [(public_route POST [Lit ''webhooks'', Lit ''campay'', Lit ''refund''] 200 ''FinanceService.handleRefundWebhook'')
         \<lparr>ro_neutral := True, ro_guards := [Campay_Webhook]\<rparr>]"

definition coupons_routes :: "route list" where
  "coupons_routes =
     [user_route POST [Lit ''coupons'', Lit ''validate''] [] 201 ''CouponsService.validateForUser'']"

definition health_routes :: "route list" where
  "health_routes =
     [(public_route GET [Lit ''health''] 200 ''HealthController.health'')
         \<lparr>ro_neutral := True\<rparr>,
      (public_route GET [Lit ''ready''] 200 ''CampayCircuitBreakerService.getState'')
         \<lparr>ro_neutral := True\<rparr>]"

definition metrics_routes :: "route list" where
  "metrics_routes =
     [(public_route GET [Lit ''metrics''] 200 ''MetricsController.index'')
         \<lparr>ro_neutral := True\<rparr>]"

definition open_api_routes :: "route list" where
  "open_api_routes =
     [(public_route GET [Lit ''openapi.json''] 200 ''OpenApiController.get'')
         \<lparr>ro_neutral := True\<rparr>]"

definition routes :: "route list" where
  "routes =
     twilio_webhook_routes @ media_routes @ auth_routes
     @ auth_captcha_config_routes @ users_routes @ addresses_routes
     @ orders_routes @ vendor_routes @ menu_routes
     @ availability_routes @ browse_routes @ riders_routes
     @ admin_auth_routes @ admin_validation_routes @ admin_metrics_routes
     @ admin_finance_routes @ admin_rider_fraud_routes @ admin_audit_routes
     @ payments_routes @ campay_webhook_routes @ push_subscriptions_routes
     @ voice_proxy_routes @ campay_transfer_webhook_routes @ campay_refund_webhook_routes
     @ coupons_routes @ health_routes @ metrics_routes
     @ open_api_routes"


text \<open>
  Express tries the routes in the order they were registered; the first whose method and path fit
  answers.  \<open>GET vendors/me\<close> and \<open>GET vendors/status\<close> also fit \<open>GET vendors/:vendorId\<close>, which the
  catalogue module registers after them.
\<close>

fun fits :: "segment list \<Rightarrow> string list \<Rightarrow> bool" where
  "fits [] [] = True"
| "fits (Lit s # p) (x # q) = (s = x \<and> fits p q)"
| "fits (Param _ # p) (x # q) = fits p q"
| "fits _ _ = False"

definition find_route :: "http_method \<Rightarrow> string list \<Rightarrow> route option" where
  "find_route m q = List.find (\<lambda>r. ro_method r = m \<and> fits (ro_path r) q) routes"

section \<open>The global guards\<close>



text \<open>
  The throttler guard walks over the throttlers \<open>app.module.ts\<close> configures: one, without a name, which
  the library calls \<open>default\<close>.  A route's own limit counts only under the name of a configured one.
\<close>

definition configured_throttlers :: "nat \<Rightarrow> nat \<Rightarrow> (string \<times> nat \<times> nat) list" where
  "configured_throttlers maxHits ttlSeconds = [(''default'', maxHits, ttlSeconds * 1000)]"

definition effective_limits :: "nat \<Rightarrow> nat \<Rightarrow> route \<Rightarrow> (nat \<times> nat) list" where
  "effective_limits maxHits ttlSeconds r =
     map (\<lambda>(name, g). case map_of (ro_throttle r) name of Some own \<Rightarrow> own | None \<Rightarrow> g)
         (configured_throttlers maxHits ttlSeconds)"

section \<open>What the table shows\<close>

lemmas route_shapes = public_route_def user_route_def role_route_def audited_def

lemmas controller_routes =
  twilio_webhook_routes_def media_routes_def auth_routes_def auth_captcha_config_routes_def
  users_routes_def addresses_routes_def orders_routes_def vendor_routes_def menu_routes_def
  availability_routes_def browse_routes_def riders_routes_def admin_auth_routes_def
  admin_validation_routes_def admin_metrics_routes_def admin_finance_routes_def
  admin_rider_fraud_routes_def admin_audit_routes_def payments_routes_def campay_webhook_routes_def
  push_subscriptions_routes_def voice_proxy_routes_def campay_transfer_webhook_routes_def
  campay_refund_webhook_routes_def coupons_routes_def health_routes_def metrics_routes_def
  open_api_routes_def

definition is_admin :: "route \<Rightarrow> bool" where
  "is_admin r = (case ro_path r of Lit s # _ \<Rightarrow> s = ''admin'' | _ \<Rightarrow> False)"

definition is_write :: "route \<Rightarrow> bool" where
  "is_write r = (ro_method r \<noteq> GET)"


lemma shape_sel [simp]:
  "ro_method (public_route m p st op) = m" "ro_path (public_route m p st op) = p" "ro_public (public_route m p st op)"
  "ro_roles (public_route m p st op) = None" "ro_guards (public_route m p st op) = []"
  "ro_throttle (public_route m p st op) = []" "\<not> ro_audited (public_route m p st op)" "ro_calls (public_route m p st op) = op"
  "ro_method (user_route m p us st op) = m" "ro_path (user_route m p us st op) = p" "\<not> ro_public (user_route m p us st op)"
  "ro_roles (user_route m p us st op) = None" "ro_guards (user_route m p us st op) = []"
  "ro_throttle (user_route m p us st op) = []" "\<not> ro_audited (user_route m p us st op)" "ro_calls (user_route m p us st op) = op"
  "ro_method (role_route rs m p us st op) = m" "ro_path (role_route rs m p us st op) = p" "\<not> ro_public (role_route rs m p us st op)"
  "ro_roles (role_route rs m p us st op) = Some rs" "ro_guards (role_route rs m p us st op) = []"
  "ro_throttle (role_route rs m p us st op) = []" "\<not> ro_audited (role_route rs m p us st op)" "ro_calls (role_route rs m p us st op) = op"
  "ro_method (audited r) = ro_method r" "ro_path (audited r) = ro_path r" "ro_public (audited r) = ro_public r"
  "ro_roles (audited r) = ro_roles r" "ro_guards (audited r) = ro_guards r" "ro_throttle (audited r) = ro_throttle r"
  "ro_audited (audited r)" "ro_calls (audited r) = ro_calls r"
  by (simp_all add: route_shapes)

text \<open>The first segment decides which part of the interface a route belongs to.\<close>

lemma is_admin_path: "is_admin r = (case ro_path r of Lit s # _ \<Rightarrow> s = ''admin'' | _ \<Rightarrow> False)"
  by (simp add: is_admin_def)

lemma ADMIN_ROLES_ne [simp]: "ADMIN_WRITE_ROLES \<noteq> ADMIN_ANY_ROLE" "ADMIN_ANY_ROLE \<noteq> ADMIN_WRITE_ROLES"
  "ADMIN_WRITE_ROLES \<noteq> [SUPER_ADMIN]" "ADMIN_ANY_ROLE \<noteq> [SUPER_ADMIN]" "[SUPER_ADMIN] \<noteq> ADMIN_WRITE_ROLES"
  by (simp_all add: ADMIN_WRITE_ROLES_def ADMIN_ANY_ROLE_def)


text \<open>
  A fact about the table is checked route by route; a search or a filter that only concerns one
  controller is evaluated on that controller's routes.
\<close>

lemma list_all_rules:
  "list_all P []" "P x \<Longrightarrow> list_all P xs \<Longrightarrow> list_all P (x # xs)"
  "list_all P xs \<Longrightarrow> list_all P ys \<Longrightarrow> list_all P (xs @ ys)"
  by simp_all

lemma filter_in_part:
  "rs = a @ b @ c \<Longrightarrow> list_all (\<lambda>r. \<not> P r) (a @ c) \<Longrightarrow> filter P b = d \<Longrightarrow> filter P rs = d"
  by (auto simp: list_all_iff filter_empty_conv)

lemma find_in_part:
  "rs = a @ b @ c \<Longrightarrow> list_all (\<lambda>r. \<not> P r) a \<Longrightarrow> List.find P b = Some r \<Longrightarrow> List.find P rs = Some r"
proof (induction a arbitrary: rs)
  case Nil
  then show ?case by (induction b arbitrary: rs) (auto split: if_splits)
qed simp

lemma routes_parts:
  "routes =
     (twilio_webhook_routes @ media_routes)
     @ auth_routes
     @ (auth_captcha_config_routes @ users_routes @ addresses_routes @ orders_routes @ vendor_routes @
      menu_routes @ availability_routes @ browse_routes @ riders_routes @ admin_auth_routes @
      admin_validation_routes @ admin_metrics_routes @ admin_finance_routes @
      admin_rider_fraud_routes @ admin_audit_routes @ payments_routes @ campay_webhook_routes @
      push_subscriptions_routes @ voice_proxy_routes @ campay_transfer_webhook_routes @
      campay_refund_webhook_routes @ coupons_routes @ health_routes @ metrics_routes @
      open_api_routes)"
  "routes =
     (twilio_webhook_routes @ media_routes @ auth_routes @ auth_captcha_config_routes @
      users_routes @ addresses_routes @ orders_routes)
     @ vendor_routes
     @ (menu_routes @ availability_routes @ browse_routes @ riders_routes @ admin_auth_routes @
      admin_validation_routes @ admin_metrics_routes @ admin_finance_routes @
      admin_rider_fraud_routes @ admin_audit_routes @ payments_routes @ campay_webhook_routes @
      push_subscriptions_routes @ voice_proxy_routes @ campay_transfer_webhook_routes @
      campay_refund_webhook_routes @ coupons_routes @ health_routes @ metrics_routes @
      open_api_routes)"
  "routes =
     (twilio_webhook_routes @ media_routes @ auth_routes @ auth_captcha_config_routes @
      users_routes @ addresses_routes @ orders_routes @ vendor_routes @ menu_routes @
      availability_routes @ browse_routes @ riders_routes)
     @ admin_auth_routes
     @ (admin_validation_routes @ admin_metrics_routes @ admin_finance_routes @
      admin_rider_fraud_routes @ admin_audit_routes @ payments_routes @ campay_webhook_routes @
      push_subscriptions_routes @ voice_proxy_routes @ campay_transfer_webhook_routes @
      campay_refund_webhook_routes @ coupons_routes @ health_routes @ metrics_routes @
      open_api_routes)"
  "routes =
     (twilio_webhook_routes @ media_routes @ auth_routes @ auth_captcha_config_routes @
      users_routes @ addresses_routes @ orders_routes @ vendor_routes @ menu_routes @
      availability_routes @ browse_routes @ riders_routes @ admin_auth_routes)
     @ admin_validation_routes
     @ (admin_metrics_routes @ admin_finance_routes @ admin_rider_fraud_routes @ admin_audit_routes @
      payments_routes @ campay_webhook_routes @ push_subscriptions_routes @ voice_proxy_routes @
      campay_transfer_webhook_routes @ campay_refund_webhook_routes @ coupons_routes @
      health_routes @ metrics_routes @ open_api_routes)"
  by (simp_all only: routes_def append_assoc)

lemma vendors_me_is_not_a_vendor_id:
  "map_option ro_calls (find_route GET [''vendors'', ''me'']) = Some ''VendorService.getOwn''"
  "map_option ro_calls (find_route GET [''vendors'', ''status'']) = Some ''VendorService.getStatusByPhone''"
proof -
  show "map_option ro_calls (find_route GET [''vendors'', ''me'']) = Some ''VendorService.getOwn''"
    unfolding find_route_def
    by (subst find_in_part [OF routes_parts(2), where r = "vendor_routes ! 1"])
      (unfold controller_routes, (intro list_all_rules; simp), simp_all)
  show "map_option ro_calls (find_route GET [''vendors'', ''status'']) = Some ''VendorService.getStatusByPhone''"
    unfolding find_route_def
    by (subst find_in_part [OF routes_parts(2), where r = "vendor_routes ! 7"])
      (unfold controller_routes, (intro list_all_rules; simp), simp_all)
qed

lemma admin_routes_public: "filter (\<lambda>r. is_admin r \<and> ro_public r) routes = take 2 admin_auth_routes"
  by (rule filter_in_part [OF routes_parts(3)], unfold controller_routes)
    ((intro list_all_rules; simp add: is_admin_path), simp add: is_admin_path)






















text \<open>
  Every write an administrator makes is recorded in the audit log, except for enrolling a second
  factor: \<open>AdminAuthController\<close> does not carry the interceptor.
\<close>

theorem admin_writes_audited:
  "map ro_calls (filter (\<lambda>r. is_admin r \<and> is_write r \<and> \<not> ro_public r \<and> \<not> ro_audited r) routes)
     = [''AdminTotpService.startEnrollment'', ''AdminTotpService.confirmEnrollment'']"
proof -
  have "filter (\<lambda>r. is_admin r \<and> is_write r \<and> \<not> ro_public r \<and> \<not> ro_audited r) routes = drop 2 admin_auth_routes"
    by (rule filter_in_part [OF routes_parts(3)], unfold controller_routes)
      ((intro list_all_rules; simp add: is_admin_path is_write_def), simp add: is_admin_path is_write_def)
  then show ?thesis by (simp add: controller_routes)
qed

text \<open>Of the public writes only logging out has neither a guard nor a limit of its own.\<close>

lemma public_writes_guarded:
  "map ro_calls (filter (\<lambda>r. ro_public r \<and> is_write r \<and> ro_guards r = [] \<and> map_of (ro_throttle r) ''default'' = None) routes)
     = [''AuthService.logout'']"
proof -
  let ?open = "\<lambda>r. ro_public r \<and> is_write r \<and> ro_guards r = [] \<and> map_of (ro_throttle r) ''default'' = None"
  have "filter ?open routes = filter ?open auth_routes"
    by (rule filter_in_part [OF routes_parts(1) _ refl], unfold controller_routes) (intro list_all_rules; simp add: is_write_def)
  then show ?thesis by (simp add: controller_routes is_write_def)
qed

text \<open>The limits of the one-time-code routes are filed under a throttler that is not configured: the global one holds.\<close>

lemma otp_limits_ignored:
  "map (effective_limits maxHits ttl) (take 2 auth_routes) = [[(maxHits, ttl * 1000)], [(maxHits, ttl * 1000)]]"
  by (simp add: effective_limits_def configured_throttlers_def controller_routes)

end
