(* ===== verification/Admin_Audit.thy ===== *)
theory Admin_Audit
  imports Text_Codecs
begin

text \<open>
  The audit trail of the back office: \<open>sanitize\<close> of \<open>admin/admin-audit.service.ts\<close> over JSON values,
  the paging of its list, and the derivation of action and target in
  \<open>admin/admin-audit.interceptor.ts\<close>.
\<close>

section \<open>Redaction\<close>

datatype json =
    JNull
  | JBool bool
  | JNumber int
  | JString string
  | JArray "json list"
  | JObject "(string \<times> json) list"

definition SENSITIVE_KEYS :: "string list" where
  "SENSITIVE_KEYS =
     [''password'', ''passwordhash'', ''passwordHash'', ''code'', ''recoveryCode'', ''recoverycode'', ''token'',
      ''accessToken'', ''refreshToken'', ''tokenHash'', ''secret'', ''pin'', ''twofactorcode'', ''twoFactorCode'']"

definition sensitive :: "string \<Rightarrow> bool" where
  "sensitive k \<longleftrightarrow> k \<in> set SENSITIVE_KEYS \<or> to_lower k \<in> set SENSITIVE_KEYS"

fun sanitize :: "json \<Rightarrow> json" where
  "sanitize (JArray vs) = JArray (map sanitize vs)"
| "sanitize (JObject kvs) = JObject (map (\<lambda>(k, v). if sensitive k then (k, JString ''[REDACTED]'') else (k, sanitize v)) kvs)"
| "sanitize v = v"

text \<open>The values that sit under a sensitive key, at any depth.\<close>

fun exposed :: "json \<Rightarrow> json list" where
  "exposed (JArray vs) = concat (map exposed vs)"
| "exposed (JObject kvs) = concat (map (\<lambda>(k, v). if sensitive k then [v] else exposed v) kvs)"
| "exposed v = []"

text \<open>The shape of a value: everything but the leaves.\<close>

fun keys_of :: "json \<Rightarrow> string list" where
  "keys_of (JArray vs) = concat (map keys_of vs)"
| "keys_of (JObject kvs) = concat (map (\<lambda>(k, v). k # (if sensitive k then [] else keys_of v)) kvs)"
| "keys_of v = []"

lemma sanitize_redacted:
  "set (exposed (sanitize v)) \<subseteq> {JString ''[REDACTED]''} \<and> keys_of (sanitize v) = keys_of v
   \<and> sanitize (sanitize v) = sanitize v"
proof (induction v rule: sanitize.induct)
  case (1 vs)
  then show ?case by (fastforce simp: comp_def intro: arg_cong [where f = concat])
next
  case (2 kvs)
  have "set (exposed (sanitize v)) \<subseteq> {JString ''[REDACTED]''} \<and> keys_of (sanitize v) = keys_of v
      \<and> sanitize (sanitize v) = sanitize v" if "(k, v) \<in> set kvs" "\<not> sensitive k" for k v
    using 2 [OF that(1) refl that(2)] .
  then show ?case
  proof (induction kvs)
    case (Cons p kvs)
    obtain k v where p: "p = (k, v)" by (cases p)
    have rest: "set (exposed (sanitize (JObject kvs))) \<subseteq> {JString ''[REDACTED]''} \<and> keys_of (sanitize (JObject kvs)) = keys_of (JObject kvs)
        \<and> sanitize (sanitize (JObject kvs)) = sanitize (JObject kvs)"
      by (rule Cons.IH) (use Cons.prems in auto)
    show ?case
    proof (cases "sensitive k")
      case True
      then show ?thesis using rest p by simp
    next
      case False
      then show ?thesis using rest p Cons.prems [of k v] by simp
    qed
  qed simp
qed simp_all

text \<open>
  Whatever the nesting, after \<open>sanitize\<close> every sensitive key holds the marker and nothing else,
  the keys themselves are all still there, in order, and redacting twice changes nothing.
\<close>

theorem sanitize_redacts:
  "set (exposed (sanitize v)) \<subseteq> {JString ''[REDACTED]''} \<and> keys_of (sanitize v) = keys_of v
   \<and> sanitize (sanitize v) = sanitize v"
  by (rule sanitize_redacted)

text \<open>
  The comparison ignores case only towards the lower-case spellings of the list: a camel-case key in
  another case, or in snake case, is stored as it came.
\<close>

lemma sanitize_misses_spellings:
  "sanitize (JObject [(''AccessToken'', JString t), (''refresh_token'', JString t)])
     = JObject [(''AccessToken'', JString t), (''refresh_token'', JString t)]"
proof -
  have "\<not> sensitive ''AccessToken''" "\<not> sensitive ''refresh_token''" by code_simp+
  then show ?thesis by simp
qed

section \<open>Paging\<close>

definition audit_take :: "int option \<Rightarrow> int" where
  "audit_take limit = min (max (case limit of Some n \<Rightarrow> n | None \<Rightarrow> 50) 1) 200"

definition audit_skip :: "int option \<Rightarrow> int" where
  "audit_skip offset = max (case offset of Some n \<Rightarrow> n | None \<Rightarrow> 0) 0"

definition audit_page :: "int option \<Rightarrow> int option \<Rightarrow> 'r list \<Rightarrow> nat \<times> 'r list" where
  "audit_page limit offset rows =
     (length rows, take (nat (audit_take limit)) (drop (nat (audit_skip offset)) rows))"

lemma audit_page_bounds:
  "length (snd (audit_page limit offset rows)) \<le> 200 \<and> (rows \<noteq> [] \<and> offset = None \<longrightarrow> snd (audit_page limit offset rows) \<noteq> [])"
  by (auto simp: audit_page_def audit_take_def audit_skip_def)

section \<open>The interceptor\<close>

text \<open>\<open>shortController\<close>: drop \<open>Admin\<close> in front and \<open>Controller\<close> at the end, lower the first letter.\<close>

definition shortController :: "string \<Rightarrow> string" where
  "shortController name =
     (let a = (if starts_with ''Admin'' name then drop 5 name else name);
          n = length a - 10;
          b = (if 10 \<le> length a \<and> drop n a = ''Controller'' then take n a else a)
      in to_lower (take 1 b) @ drop 1 b)"

definition uuid_shaped :: "string \<Rightarrow> bool" where
  "uuid_shaped v \<longleftrightarrow> length v = 36 \<and> list_all (\<lambda>c. c = CHR ''-'' \<or> hex_value c \<noteq> None) v"

definition refine_target :: "string \<Rightarrow> string option \<Rightarrow> string option" where
  "refine_target key t =
     (if key = ''riderId'' then Some ''rider'' else if key = ''vendorId'' then Some ''vendor''
      else if key = ''orderId'' then Some ''order'' else if key = ''requestId'' then Some ''cashoutRequest''
      else if key = ''payoutId'' then Some ''payout'' else t)"

definition deriveTarget :: "string \<Rightarrow> (string \<times> string) list option \<Rightarrow> string option \<times> string option" where
  "deriveTarget controllerName params =
     (case params of
        None \<Rightarrow> (None, None)
      | Some ps \<Rightarrow>
          let targetType = map_of [(''AdminValidationController'', ''vendor''), (''AdminFinanceController'', ''finance''),
                 (''AdminRiderFraudController'', ''order''), (''AdminAuthController'', ''admin'')] controllerName
          in case List.find (\<lambda>(k, v). uuid_shaped v) ps of
               None \<Rightarrow> (targetType, None)
             | Some (k, v) \<Rightarrow> (refine_target k targetType, Some v))"

definition audit_skipped :: "string \<Rightarrow> string option \<Rightarrow> bool" where
  "audit_skipped httpMethod adminId \<longleftrightarrow> httpMethod = ''GET'' \<or> httpMethod = ''HEAD'' \<or> (adminId = None \<or> adminId = Some [])"

lemma shortController_examples:
  "shortController ''AdminRiderFraudController'' = ''riderFraud''"
  "shortController ''AdminValidationController'' = ''validation''"
  by code_simp+

end
