(* ===== verification/Http_Errors.thy ===== *)
theory Http_Errors
  imports Admin_Audit
begin

text \<open>
  The two places every failing request passes: the audit interceptor of the back office
  (\<open>admin/admin-audit.interceptor.ts\<close>, \<open>record\<close> and \<open>list\<close> of the audit service) and, after it, the
  exception filter (\<open>shared/filters/all-exceptions.filter.ts\<close>) that turns whatever was thrown into
  the response.
\<close>

section \<open>Exceptions\<close>

text \<open>
  \<open>th_http\<close> is the status and the \<open>getResponse()\<close> of an \<open>HttpException\<close>; \<open>th_code\<close> is a \<open>code\<close> property
  of the error itself when it is a string (Prisma, Node).
\<close>

datatype http_response = Response_Text string | Response_Object "(string \<times> json) list"

record thrown =
  th_class :: string
  th_code :: "string option"
  th_http :: "(nat \<times> http_response) option"

text \<open>
  \<open>throw new NotFoundException(arg)\<close> and its siblings: without an argument and with a string NestJS
  builds its default object, an object is taken as it is.
\<close>

datatype throw_arg = No_Arg | Bare string | Structured "(string \<times> json) list"

definition nest_throw :: "string \<Rightarrow> nat \<Rightarrow> string \<Rightarrow> throw_arg \<Rightarrow> thrown" where
  "nest_throw cls status description arg =
     \<lparr>th_class = cls, th_code = None,
      th_http = Some (status, case arg of
          No_Arg \<Rightarrow> Response_Object [(''message'', JString description), (''statusCode'', JNumber (int status))]
        | Bare s \<Rightarrow> Response_Object [(''message'', JString s), (''error'', JString description), (''statusCode'', JNumber (int status))]
        | Structured kvs \<Rightarrow> Response_Object kvs)\<rparr>"

text \<open>
  The errors of the handlers as they are thrown: with the bare text, or as an object with the text as
  its \<open>code\<close> and further fields (\<open>message\<close>, the price that changed, the seconds to wait).  The limit per
  phone throws an \<open>HttpException\<close> whose object carries the text as its message.
\<close>

definition throw_form :: "(string \<times> json) list option \<Rightarrow> string \<Rightarrow> throw_arg" where
  "throw_form form code =
     (case form of None \<Rightarrow> Bare code | Some rest \<Rightarrow> Structured ((''code'', JString code) # rest))"

definition rate_limit_object :: "(string \<times> json) list option \<Rightarrow> string \<Rightarrow> throw_arg" where
  "rate_limit_object form text =
     Structured ([(''statusCode'', JNumber 429), (''message'', JString text)] @ (case form of None \<Rightarrow> [] | Some rest \<Rightarrow> rest))"

fun thrown_of :: "(string \<times> json) list option \<Rightarrow> http_error \<Rightarrow> thrown" where
  "thrown_of f (BadRequest c) = nest_throw ''BadRequestException'' 400 ''Bad Request'' (throw_form f c)"
| "thrown_of f (Unauthorized c) = nest_throw ''UnauthorizedException'' 401 ''Unauthorized'' (throw_form f c)"
| "thrown_of f (Forbidden c) = nest_throw ''ForbiddenException'' 403 ''Forbidden'' (throw_form f c)"
| "thrown_of f (NotFound c) = nest_throw ''NotFoundException'' 404 ''Not Found'' (throw_form f c)"
| "thrown_of f (Conflict c) = nest_throw ''ConflictException'' 409 ''Conflict'' (throw_form f c)"
| "thrown_of f (TooManyRequests c) = nest_throw ''HttpException'' 429 ''Too Many Requests'' (rate_limit_object f c)"
| "thrown_of f (PrismaError c) = \<lparr>th_class = ''PrismaClientKnownRequestError'', th_code = Some c, th_http = None\<rparr>"
| "thrown_of f (UpstreamError m) = \<lparr>th_class = ''Error'', th_code = None, th_http = None\<rparr>"



section \<open>The filter\<close>

definition get_field :: "string \<Rightarrow> (string \<times> json) list \<Rightarrow> json option" where
  "get_field k kvs = map_of kvs k"



fun truthy :: "json option \<Rightarrow> bool" where
  "truthy None = False"
| "truthy (Some JNull) = False"
| "truthy (Some (JBool b)) = b"
| "truthy (Some (JNumber n)) = (n \<noteq> 0)"
| "truthy (Some (JString s)) = (s \<noteq> [])"
| "truthy (Some _) = True"









section \<open>The audit row\<close>

record audit_row =
  ar_adminId :: uuid
  ar_action :: string
  ar_targetType :: "string option"
  ar_targetId :: "string option"
  ar_payload :: json
  ar_ip :: "string option"
  ar_userAgent :: "string option"
  ar_outcome :: string
  ar_errorCode :: "string option"

text \<open>\<open>record\<close>: redacted, and a failing insert (\<open>db = False\<close>) is swallowed.\<close>

definition record_audit :: "bool \<Rightarrow> audit_row \<Rightarrow> audit_row list \<Rightarrow> audit_row list" where
  "record_audit db r rows =
     (if db then rows @ [r\<lparr>ar_payload := (if truthy (Some (ar_payload r)) then sanitize (ar_payload r) else JNull)\<rparr>]
      else rows)"

record audit_query =
  aq_adminId :: "string option"
  aq_action :: "string option"
  aq_targetType :: "string option"
  aq_targetId :: "string option"

definition matches :: "string option \<Rightarrow> string option \<Rightarrow> bool" where
  "matches wanted actual = (falsy wanted \<or> actual = wanted)"

definition audit_where :: "audit_query \<Rightarrow> audit_row \<Rightarrow> bool" where
  "audit_where q r =
     (matches (aq_adminId q) (Some (ar_adminId r)) \<and> matches (aq_action q) (Some (ar_action r))
      \<and> matches (aq_targetType q) (ar_targetType r) \<and> matches (aq_targetId q) (ar_targetId r))"

text \<open>Newest first; the table is in order of insertion.\<close>

definition list_audit :: "audit_query \<Rightarrow> int option \<Rightarrow> int option \<Rightarrow> audit_row list \<Rightarrow> nat \<times> audit_row list" where
  "list_audit q limit offset rows = audit_page limit offset (rev (filter (audit_where q) rows))"

text \<open>\<open>String(code)\<close>; an array is its elements between commas, a null among them is empty.\<close>

fun commas :: "string list \<Rightarrow> string" where
  "commas [] = []"
| "commas [s] = s"
| "commas (s # ss) = s @ CHR '','' # commas ss"

fun js_string :: "json \<Rightarrow> string" where
  "js_string (JString c) = c"
| "js_string (JNumber n) = show_int n"
| "js_string (JBool b) = (if b then ''true'' else ''false'')"
| "js_string JNull = ''null''"
| "js_string (JArray vs) = commas (map (\<lambda>v. if v = JNull then [] else js_string v) vs)"
| "js_string (JObject kvs) = ''[object Object]''"

definition audit_errorCode :: "thrown \<Rightarrow> string" where
  "audit_errorCode e =
     (case (case th_http e of Some (s, Response_Object kvs) \<Rightarrow> get_field ''code'' kvs | _ \<Rightarrow> None) of
        Some v \<Rightarrow> js_string v
      | None \<Rightarrow> (case th_code e of Some c \<Rightarrow> c | None \<Rightarrow> th_class e))"

record audit_request =
  aud_method :: string
  aud_adminId :: "string option"
  aud_controller :: string
  aud_handler :: string
  aud_params :: "(string \<times> string) list option"
  aud_body :: "json option"
  aud_query :: "(string \<times> json) list option"
  aud_ip :: "string option"
  aud_userAgent :: "string option"

definition mergedPayload :: "audit_request \<Rightarrow> json option" where
  "mergedPayload req =
     (if aud_body req = None \<and> (aud_query req = None \<or> aud_query req = Some []) then None
      else Some (JObject ((case aud_body req of Some b \<Rightarrow> [(''body'', b)] | None \<Rightarrow> [])
                   @ (case aud_query req of Some q \<Rightarrow> [(''query'', JObject q)] | None \<Rightarrow> []))))"

definition audit_intercept ::
  "bool \<Rightarrow> audit_request \<Rightarrow> thrown + 'a \<Rightarrow> audit_row list \<Rightarrow> (thrown + 'a) \<times> audit_row list" where
  "audit_intercept db req outcome rows =
     (if audit_skipped (aud_method req) (aud_adminId req) then (outcome, rows)
      else let (targetType, targetId) = deriveTarget (aud_controller req) (aud_params req);
               r = \<lparr>ar_adminId = the (aud_adminId req),
                    ar_action = shortController (aud_controller req) @ ''.'' @ aud_handler req,
                    ar_targetType = targetType, ar_targetId = targetId,
                    ar_payload = (case mergedPayload req of Some p \<Rightarrow> p | None \<Rightarrow> JNull),
                    ar_ip = aud_ip req, ar_userAgent = aud_userAgent req,
                    ar_outcome = (case outcome of Inl _ \<Rightarrow> ''error'' | Inr _ \<Rightarrow> ''success''),
                    ar_errorCode = (case outcome of Inl e \<Rightarrow> Some (audit_errorCode e) | Inr _ \<Rightarrow> None)\<rparr>
           in (outcome, record_audit db r rows))"

section \<open>Properties\<close>

















text \<open>
  The interceptor hands on what the handler returned or threw, and writes at most one row; the row
  carries the administrator, and nothing that sits under a sensitive key survives in it.
\<close>

theorem audit_is_transparent_and_redacted:
  "fst (audit_intercept db req outcome rows) = outcome
   \<and> (snd (audit_intercept db req outcome rows) = rows
      \<or> (\<exists>r. snd (audit_intercept db req outcome rows) = rows @ [r]
            \<and> aud_adminId req = Some (ar_adminId r) \<and> aud_method req \<notin> {''GET'', ''HEAD''}
            \<and> set (exposed (ar_payload r)) \<subseteq> {JString ''[REDACTED]''}
            \<and> ar_outcome r = (case outcome of Inl _ \<Rightarrow> ''error'' | Inr _ \<Rightarrow> ''success'')))"
proof (cases "audit_skipped (aud_method req) (aud_adminId req)")
  case True
  then show ?thesis by (simp add: audit_intercept_def)
next
  case False
  then obtain a where a: "aud_adminId req = Some a" "aud_method req \<notin> {''GET'', ''HEAD''}"
    by (cases "aud_adminId req") (auto simp: audit_skipped_def)
  have "set (exposed (sanitize v)) \<subseteq> {JString ''[REDACTED]''}" for v using sanitize_redacted by blast
  then show ?thesis using False a
    by (cases "deriveTarget (aud_controller req) (aud_params req)") (simp add: audit_intercept_def record_audit_def Let_def)
qed

text \<open>The interceptor runs before the filter promotes the code: a bare throw is audited under the
  name of its class, not under the code the client sees.\<close>

lemma audited_code_is_the_class:
  "audit_errorCode (thrown_of None (NotFound ''vendor_not_found'')) = ''NotFoundException''"
  "audit_errorCode (thrown_of (Some rest) (NotFound ''vendor_not_found'')) = ''vendor_not_found''"
  by (simp_all add: audit_errorCode_def nest_throw_def throw_form_def get_field_def)

lemma audit_list_matches:
  "\<forall>r \<in> set (snd (list_audit q limit offset rows)). r \<in> set rows \<and> audit_where q r"
  by (auto simp: list_audit_def audit_page_def dest!: in_set_takeD in_set_dropD)

end
