(* ===== verification/Addresses.thy ===== *)
theory Addresses
  imports Text_Utils
begin

text \<open>
  The address book (\<open>users/addresses.service.ts\<close>): at most three saved addresses per user, at most
  one of them the default.  \<open>createAddress\<close> counts, demotes and inserts in separate statements
  without a transaction, so its three steps are definitions of their own: composed they are the
  sequential operation, and \<open>book_step\<close> lets the requests of one user interleave between them.
\<close>

section \<open>Rows and requests\<close>

record address =
  ad_id :: uuid
  ad_userId :: uuid
  ad_label :: "string option"
  ad_description :: "string option"
  ad_quartier :: "string option"
  ad_landmarkId :: "uuid option"
  ad_lat :: rat
  ad_lng :: rat
  ad_phone :: "string option"
  ad_isDefault :: bool
  ad_createdAt :: time
  ad_updatedAt :: time

record upsert_address =
  ua_label :: "string option"
  ua_description :: "string option"
  ua_quartier :: "string option"
  ua_landmarkId :: "uuid option"
  ua_lat :: rat
  ua_lng :: rat
  ua_phone :: "string option"
  ua_isDefault :: "bool option"

record address_view =
  av_id :: uuid
  av_label :: "string option"
  av_description :: "string option"
  av_quartier :: "string option"
  av_landmarkId :: "uuid option"
  av_lat :: rat
  av_lng :: rat
  av_phone :: "string option"
  av_isDefault :: bool
  av_createdAt :: time
  av_updatedAt :: time

type_synonym book = "address list"

definition MAX_SAVED_ADDRESSES :: nat where "MAX_SAVED_ADDRESSES = 3"

definition addresses_of :: "uuid \<Rightarrow> book \<Rightarrow> address list" where
  "addresses_of u b = filter (\<lambda>a. ad_userId a = u) b"

definition toView :: "address \<Rightarrow> address_view" where
  "toView a = \<lparr>av_id = ad_id a, av_label = ad_label a, av_description = ad_description a,
     av_quartier = ad_quartier a, av_landmarkId = ad_landmarkId a, av_lat = ad_lat a, av_lng = ad_lng a,
     av_phone = ad_phone a, av_isDefault = ad_isDefault a, av_createdAt = ad_createdAt a,
     av_updatedAt = ad_updatedAt a\<rparr>"

text \<open>\<open>ORDER BY "isDefault" DESC, "createdAt" DESC\<close>; the sorts are stable, the last one is the major key.\<close>

definition list_addresses :: "uuid \<Rightarrow> book \<Rightarrow> address_view list" where
  "list_addresses u b =
     List.map toView
       (sort_key (\<lambda>a. if ad_isDefault a then 0 else 1 :: nat)
          (sort_key (\<lambda>a. - ad_createdAt a) (addresses_of u b)))"

text \<open>\<open>dto.phone ? normalizePhone(dto.phone) : null\<close>.\<close>

definition stored_phone :: "string option \<Rightarrow> string option" where
  "stored_phone p = (if falsy p then None else Some (normalizePhone (the p)))"

section \<open>The statements\<close>

text \<open>\<open>updateMany({ where: { userId, isDefault: true } })\<close>; an update spares its own row.\<close>

definition demote :: "uuid \<Rightarrow> uuid option \<Rightarrow> book \<Rightarrow> book" where
  "demote u spared b =
     upd_where (\<lambda>a. ad_userId a = u \<and> ad_isDefault a \<and> Some (ad_id a) \<noteq> spared)
       (\<lambda>a. a\<lparr>ad_isDefault := False\<rparr>) b"

definition new_address :: "uuid \<Rightarrow> uuid \<Rightarrow> upsert_address \<Rightarrow> bool \<Rightarrow> time \<Rightarrow> address" where
  "new_address newId u dto isDefault now =
     \<lparr>ad_id = newId, ad_userId = u, ad_label = ua_label dto, ad_description = ua_description dto,
      ad_quartier = ua_quartier dto, ad_landmarkId = ua_landmarkId dto, ad_lat = ua_lat dto,
      ad_lng = ua_lng dto, ad_phone = stored_phone (ua_phone dto), ad_isDefault = isDefault,
      ad_createdAt = now, ad_updatedAt = now\<rparr>"

text \<open>A raw \<open>INSERT\<close> or \<open>UPDATE\<close> fails at the database (\<open>P2010\<close>) on a duplicate primary key and on a
  landmark that does not exist.\<close>

definition bad_landmark :: "uuid set \<Rightarrow> upsert_address \<Rightarrow> bool" where
  "bad_landmark landmarks dto = (case ua_landmarkId dto of None \<Rightarrow> False | Some l \<Rightarrow> l \<notin> landmarks)"

definition insertRaw ::
  "uuid set \<Rightarrow> uuid \<Rightarrow> uuid \<Rightarrow> upsert_address \<Rightarrow> bool \<Rightarrow> time \<Rightarrow> book \<Rightarrow> (uuid, book) outcome" where
  "insertRaw landmarks newId u dto isDefault now b =
     (if bad_landmark landmarks dto \<or> newId \<in> ad_id ` set b then (Inl (PrismaError ''P2010''), b)
      else (Inr newId, b @ [new_address newId u dto isDefault now]))"

section \<open>The operations\<close>

definition address_limit :: "uuid \<Rightarrow> book \<Rightarrow> http_error + unit" where
  "address_limit u b =
     (if MAX_SAVED_ADDRESSES \<le> count_where (\<lambda>a. ad_userId a = u) b
      then Inl (Conflict ''address_limit_reached'') else Inr ())"

definition claims_default :: "upsert_address \<Rightarrow> bool" where
  "claims_default dto = (ua_isDefault dto = Some True)"

definition create_demote :: "uuid \<Rightarrow> upsert_address \<Rightarrow> book \<Rightarrow> book" where
  "create_demote u dto b = (if claims_default dto then demote u None b else b)"

definition create_insert ::
  "uuid set \<Rightarrow> uuid \<Rightarrow> uuid \<Rightarrow> upsert_address \<Rightarrow> time \<Rightarrow> book \<Rightarrow> (address_view option, book) outcome" where
  "create_insert landmarks newId u dto now b =
     (case insertRaw landmarks newId u dto (claims_default dto) now b of
        (Inl e, b') \<Rightarrow> (Inl e, b')
      | (Inr i, b') \<Rightarrow> (Inr (find_row (\<lambda>v. av_id v = i) (list_addresses u b')), b'))"

definition createAddress ::
  "uuid set \<Rightarrow> uuid \<Rightarrow> uuid \<Rightarrow> upsert_address \<Rightarrow> time \<Rightarrow> book \<Rightarrow> (address_view option, book) outcome" where
  "createAddress landmarks newId u dto now b =
     (case address_limit u b of
        Inl e \<Rightarrow> (Inl e, b)
      | Inr _ \<Rightarrow> create_insert landmarks newId u dto now (create_demote u dto b))"

definition require_address :: "uuid \<Rightarrow> uuid \<Rightarrow> book \<Rightarrow> http_error + unit" where
  "require_address u addressId b =
     (case find_row (\<lambda>a. ad_id a = addressId) b of
        None \<Rightarrow> Inl (NotFound ''address_not_found'')
      | Some a \<Rightarrow> if ad_userId a \<noteq> u then Inl (Forbidden ''address_not_yours'') else Inr ())"

definition address_patch :: "upsert_address \<Rightarrow> time \<Rightarrow> address \<Rightarrow> address" where
  "address_patch dto now a =
     a\<lparr>ad_label := ua_label dto, ad_description := ua_description dto, ad_quartier := ua_quartier dto,
       ad_landmarkId := ua_landmarkId dto, ad_lat := ua_lat dto, ad_lng := ua_lng dto,
       ad_phone := stored_phone (ua_phone dto),
       ad_isDefault := (case ua_isDefault dto of Some d \<Rightarrow> d | None \<Rightarrow> False), ad_updatedAt := now\<rparr>"

definition update_demote :: "uuid \<Rightarrow> uuid \<Rightarrow> upsert_address \<Rightarrow> book \<Rightarrow> book" where
  "update_demote u addressId dto b = (if claims_default dto then demote u (Some addressId) b else b)"

definition update_write ::
  "uuid set \<Rightarrow> uuid \<Rightarrow> uuid \<Rightarrow> upsert_address \<Rightarrow> time \<Rightarrow> book \<Rightarrow> (address_view option, book) outcome" where
  "update_write landmarks u addressId dto now b =
     (if bad_landmark landmarks dto then (Inl (PrismaError ''P2010''), b)
      else let b' = upd_where (\<lambda>a. ad_id a = addressId) (address_patch dto now) b
           in (Inr (find_row (\<lambda>v. av_id v = addressId) (list_addresses u b')), b'))"

definition updateAddress ::
  "uuid set \<Rightarrow> uuid \<Rightarrow> uuid \<Rightarrow> upsert_address \<Rightarrow> time \<Rightarrow> book \<Rightarrow> (address_view option, book) outcome" where
  "updateAddress landmarks u addressId dto now b =
     (case require_address u addressId b of
        Inl e \<Rightarrow> (Inl e, b)
      | Inr _ \<Rightarrow> update_write landmarks u addressId dto now (update_demote u addressId dto b))"

definition deleteAddress :: "uuid \<Rightarrow> uuid \<Rightarrow> book \<Rightarrow> (unit, book) outcome" where
  "deleteAddress u addressId b =
     (case require_address u addressId b of
        Inl e \<Rightarrow> (Inl e, b)
      | Inr _ \<Rightarrow> (Inr (), filter (\<lambda>a. ad_id a \<noteq> addressId) b))"

datatype address_request =
    Create_Address uuid uuid upsert_address time
  | Update_Address uuid uuid upsert_address time
  | Delete_Address uuid uuid

fun requester :: "address_request \<Rightarrow> uuid" where
  "requester (Create_Address newId u dto now) = u"
| "requester (Update_Address u i dto now) = u"
| "requester (Delete_Address u i) = u"

fun address_apply :: "uuid set \<Rightarrow> address_request \<Rightarrow> book \<Rightarrow> book" where
  "address_apply landmarks (Create_Address newId u dto now) b = snd (createAddress landmarks newId u dto now b)"
| "address_apply landmarks (Update_Address u i dto now) b = snd (updateAddress landmarks u i dto now b)"
| "address_apply landmarks (Delete_Address u i) b = snd (deleteAddress u i b)"

definition address_run :: "uuid set \<Rightarrow> address_request list \<Rightarrow> book \<Rightarrow> book" where
  "address_run landmarks rs b = fold (address_apply landmarks) rs b"

section \<open>The invariant of sequential requests\<close>

definition saved :: "uuid \<Rightarrow> book \<Rightarrow> nat" where
  "saved u b = count_where (\<lambda>a. ad_userId a = u) b"

definition defaults :: "uuid \<Rightarrow> book \<Rightarrow> nat" where
  "defaults u b = count_where (\<lambda>a. ad_userId a = u \<and> ad_isDefault a) b"

definition book_ok :: "book \<Rightarrow> bool" where
  "book_ok b = (distinct (List.map ad_id b)
     \<and> (\<forall>u \<in> ad_userId ` set b. saved u b \<le> MAX_SAVED_ADDRESSES \<and> defaults u b \<le> 1))"

lemma absent_user:
  assumes "u \<notin> ad_userId ` set b"
  shows "saved u b = 0" and "defaults u b = 0"
  using assms by (auto simp: saved_def defaults_def count_where_0)

lemma book_okD:
  assumes "book_ok b"
  shows "distinct (List.map ad_id b)" and "saved u b \<le> MAX_SAVED_ADDRESSES" and "defaults u b \<le> 1"
  using assms absent_user [of u b] by (auto simp: book_ok_def) fastforce+

lemma book_okI:
  assumes "distinct (List.map ad_id b)" and "\<And>u. saved u b \<le> MAX_SAVED_ADDRESSES" and "\<And>u. defaults u b \<le> 1"
  shows "book_ok b"
  using assms by (simp add: book_ok_def)

lemma ids_demote [simp]: "List.map ad_id (demote u s b) = List.map ad_id b"
  by (simp add: demote_def map_key_upd_where)

lemma saved_demote [simp]: "saved u' (demote u s b) = saved u' b"
  by (induction b) (auto simp: saved_def demote_def)

lemma defaults_demote_le: "defaults u' (demote u s b) \<le> defaults u' b"
  by (induction b) (auto simp: defaults_def demote_def)

lemma defaults_demote_None [simp]: "defaults u (demote u None b) = 0"
  by (induction b) (auto simp: defaults_def demote_def)

lemma defaults_demote_Some:
  "\<forall>a \<in> set b. ad_id a = i \<longrightarrow> \<not> ad_isDefault a \<Longrightarrow> defaults u (demote u (Some i) b) = 0"
  by (induction b) (auto simp: defaults_def demote_def)

lemma book_ok_demote: "book_ok b \<Longrightarrow> book_ok (demote u s b)"
  using book_okD [of b] by (intro book_okI) (auto intro: le_trans [OF defaults_demote_le] simp del: One_nat_def)

text \<open>Counting around one row, picked out by its id.\<close>

lemma count_upd_one:
  assumes "distinct (List.map ad_id b)" and "\<And>a. ad_id (f a) = ad_id a"
    and "\<forall>a \<in> set b. ad_id a \<noteq> i \<longrightarrow> \<not> p a"
  shows "count_where p (upd_where (\<lambda>a. ad_id a = i) f b) \<le> 1"
  using assms
proof (induction b)
  case Nil
  then show ?case by simp
next
  case (Cons a b)
  show ?case
  proof (cases "ad_id a = i")
    case True
    then have "\<forall>x \<in> set b. ad_id x \<noteq> i" using distinct_key_Cons [OF Cons.prems(1)] True by metis
    then have "upd_where (\<lambda>a. ad_id a = i) f b = b" "count_where p b = 0"
      using Cons.prems(3) by (auto intro: upd_where_none simp: count_where_0)
    then show ?thesis by simp
  next
    case False
    then show ?thesis using Cons by auto
  qed
qed

lemma defaults_after_patch:
  assumes "distinct (List.map ad_id b)" and "defaults u b \<le> 1"
    and "claims_default dto \<Longrightarrow> \<forall>a \<in> set b. ad_id a \<noteq> i \<longrightarrow> \<not> (ad_userId a = u \<and> ad_isDefault a)"
  shows "defaults u (upd_where (\<lambda>a. ad_id a = i) (address_patch dto now) b) \<le> 1"
proof (cases "claims_default dto")
  case True
  then show ?thesis
    unfolding defaults_def using assms by (intro count_upd_one) (auto simp: address_patch_def)
next
  case False
  then have "\<not> ad_isDefault (address_patch dto now a)" for a
    by (auto simp: address_patch_def claims_default_def split: option.splits)
  then have "defaults u (upd_where (\<lambda>a. ad_id a = i) (address_patch dto now) b) \<le> defaults u b"
    by (induction b) (auto simp: defaults_def)
  then show ?thesis using assms(2) by simp
qed

lemma address_patch_keys [simp]:
  "ad_id (address_patch dto now a) = ad_id a" "ad_userId (address_patch dto now a) = ad_userId a"
  by (simp_all add: address_patch_def)

lemma defaults_others:
  assumes "\<forall>a \<in> set b. ad_id a = i \<longrightarrow> ad_userId a = u" and "v \<noteq> u"
  shows "defaults v (upd_where (\<lambda>a. ad_id a = i) (address_patch dto now) b) = defaults v b"
  using assms by (induction b) (auto simp: defaults_def)

lemma demoted_others:
  "\<forall>a \<in> set (demote u (Some i) b). ad_id a \<noteq> i \<longrightarrow> \<not> (ad_userId a = u \<and> ad_isDefault a)"
  by (induction b) (auto simp: demote_def)

lemma saved_patch [simp]:
  "saved u (upd_where p (address_patch dto now) b) = saved u b"
  by (induction b) (auto simp: saved_def)

lemma snd_create_insert:
  "snd (create_insert landmarks newId u dto now b) =
     (if bad_landmark landmarks dto \<or> newId \<in> ad_id ` set b then b
      else b @ [new_address newId u dto (claims_default dto) now])"
  by (simp add: create_insert_def insertRaw_def)

lemma snd_update_write:
  "snd (update_write landmarks u i dto now b) =
     (if bad_landmark landmarks dto then b else upd_where (\<lambda>a. ad_id a = i) (address_patch dto now) b)"
  by (simp add: update_write_def Let_def)

lemma defaults_snoc:
  "defaults v (b @ [new_address i u dto d now]) = defaults v b + (if v = u \<and> d then 1 else 0)"
  "saved v (b @ [new_address i u dto d now]) = saved v b + (if v = u then 1 else 0)"
  by (auto simp: defaults_def saved_def new_address_def)

lemma createAddress_ok:
  assumes "book_ok b"
  shows "book_ok (snd (createAddress landmarks newId u dto now b))"
proof (cases "address_limit u b")
  case (Inl e)
  then show ?thesis using assms by (simp add: createAddress_def)
next
  case (Inr x)
  then have room: "saved u b < MAX_SAVED_ADDRESSES"
    by (auto simp: address_limit_def saved_def split: if_splits)
  let ?b = "create_demote u dto b"
  have ok: "book_ok ?b" and s: "saved v ?b = saved v b" for v
    using assms by (auto simp: create_demote_def book_ok_demote)
  have d: "claims_default dto \<Longrightarrow> defaults u ?b = 0" by (simp add: create_demote_def)
  have "book_ok (?b @ [new_address newId u dto (claims_default dto) now])" if "newId \<notin> ad_id ` set ?b"
  proof (rule book_okI)
    show "distinct (List.map ad_id (?b @ [new_address newId u dto (claims_default dto) now]))"
      using that book_okD(1) [OF ok] by (simp add: new_address_def)
  qed (use room book_okD(2,3) [OF ok] d s in \<open>auto simp: defaults_snoc\<close>)
  then show ?thesis using Inr ok by (auto simp: createAddress_def snd_create_insert)
qed

lemma updateAddress_ok:
  assumes "book_ok b"
  shows "book_ok (snd (updateAddress landmarks u i dto now b))"
proof (cases "require_address u i b")
  case (Inl e)
  then show ?thesis using assms by (simp add: updateAddress_def)
next
  case (Inr x)
  let ?b = "update_demote u i dto b"
  let ?c = "upd_where (\<lambda>a. ad_id a = i) (address_patch dto now) ?b"
  have ok: "book_ok ?b" using assms by (simp add: update_demote_def book_ok_demote)
  have own: "\<forall>a \<in> set b. ad_id a = i \<longrightarrow> ad_userId a = u"
    using Inr book_okD(1) [OF assms]
    by (auto simp: require_address_def find_row_key_unique split: option.splits if_splits)
  have "defaults v ?c \<le> 1" for v
  proof (cases "v = u")
    case True
    show ?thesis unfolding True
      by (rule defaults_after_patch [OF book_okD(1,3) [OF ok]])
        (use demoted_others in \<open>auto simp: update_demote_def\<close>)
  next
    case False
    have "\<forall>a \<in> set ?b. ad_id a = i \<longrightarrow> ad_userId a = u"
      using own by (auto simp: update_demote_def demote_def set_upd_where)
    then have "defaults v ?c = defaults v ?b" by (rule defaults_others [OF _ False])
    then show ?thesis using book_okD(3) [OF ok] by simp
  qed
  moreover have "distinct (List.map ad_id ?c)" using book_okD(1) [OF ok] by (simp add: map_key_upd_where)
  ultimately have "book_ok ?c" using book_okD [OF ok] by (intro book_okI) auto
  then show ?thesis using Inr ok by (simp add: updateAddress_def snd_update_write)
qed

lemma deleteAddress_ok:
  assumes "book_ok b"
  shows "book_ok (snd (deleteAddress u i b))"
proof -
  have "book_ok (filter (\<lambda>a. ad_id a \<noteq> i) b)"
    using book_okD [OF assms]
    by (intro book_okI) (auto simp: distinct_map inj_on_def saved_def defaults_def intro: le_trans [OF count_where_filter])
  then show ?thesis using assms by (simp add: deleteAddress_def split: sum.splits)
qed

lemma address_apply_ok: "book_ok b \<Longrightarrow> book_ok (address_apply landmarks r b)"
  by (cases r) (simp_all add: createAddress_ok updateAddress_ok deleteAddress_ok)

lemma address_run_ok: "book_ok b \<Longrightarrow> book_ok (address_run landmarks rs b)"
  unfolding address_run_def by (induction rs arbitrary: b) (simp_all add: address_apply_ok)

section \<open>Other users\<close>

lemma addresses_demote:
  "u' \<noteq> u \<Longrightarrow> addresses_of u' (demote u s b) = addresses_of u' b"
  by (induction b) (auto simp: addresses_of_def demote_def)

lemma addresses_snoc:
  "u' \<noteq> u \<Longrightarrow> addresses_of u' (b @ [new_address i u dto d now]) = addresses_of u' b"
  by (simp add: addresses_of_def new_address_def)

lemma addresses_upd_owned:
  assumes "\<forall>a \<in> set b. ad_id a = i \<longrightarrow> ad_userId a = u" and "u' \<noteq> u"
  shows "addresses_of u' (upd_where (\<lambda>a. ad_id a = i) (address_patch dto now) b) = addresses_of u' b"
  using assms by (induction b) (auto simp: addresses_of_def)

lemma require_addressD:
  assumes "require_address u i b = Inr x" and "distinct (List.map ad_id b)"
  shows "\<forall>a \<in> set b. ad_id a = i \<longrightarrow> ad_userId a = u"
  using assms by (auto simp: require_address_def find_row_key_unique split: option.splits if_splits)

lemma owned_after_demote:
  "\<forall>a \<in> set b. ad_id a = i \<longrightarrow> ad_userId a = u \<Longrightarrow>
   \<forall>a \<in> set (update_demote v j dto b). ad_id a = i \<longrightarrow> ad_userId a = u"
  by (auto simp: update_demote_def demote_def set_upd_where)

lemma address_apply_others:
  assumes "book_ok b" and "requester r \<noteq> u'"
  shows "addresses_of u' (address_apply landmarks r b) = addresses_of u' b"
proof (cases r)
  case (Create_Address newId u dto now)
  then show ?thesis using assms(2)
    by (auto simp: createAddress_def snd_create_insert create_demote_def addresses_demote addresses_snoc split: sum.splits)
next
  case (Update_Address u i dto now)
  show ?thesis
  proof (cases "require_address u i b")
    case (Inr x)
    have own: "\<forall>a \<in> set (update_demote u i dto b). ad_id a = i \<longrightarrow> ad_userId a = u"
      using require_addressD [OF Inr book_okD(1) [OF assms(1)]] by (rule owned_after_demote)
    have "addresses_of u' (update_demote u i dto b) = addresses_of u' b"
      using assms(2) Update_Address by (simp add: update_demote_def addresses_demote)
    then show ?thesis
      using Update_Address Inr assms(2) addresses_upd_owned [OF own]
      by (simp add: updateAddress_def snd_update_write)
  qed (simp add: Update_Address updateAddress_def)
next
  case (Delete_Address u i)
  show ?thesis
  proof (cases "require_address u i b")
    case (Inr x)
    then show ?thesis
      using require_addressD [OF Inr book_okD(1) [OF assms(1)]] Delete_Address assms(2)
      by (auto simp: deleteAddress_def addresses_of_def intro!: filter_cong)
  qed (simp add: Delete_Address deleteAddress_def)
qed

lemma address_run_others:
  "book_ok b \<Longrightarrow> u \<in> requester ` set rs \<or> addresses_of u (address_run landmarks rs b) = addresses_of u b"
  unfolding address_run_def
proof (induction rs arbitrary: b)
  case (Cons r rs)
  have "requester r = u \<or> addresses_of u (address_apply landmarks r b) = addresses_of u b"
    using address_apply_others [OF Cons.prems] by blast
  moreover have "u \<in> requester ` set rs
      \<or> addresses_of u (fold (address_apply landmarks) rs (address_apply landmarks r b))
        = addresses_of u (address_apply landmarks r b)"
    by (rule Cons.IH [OF address_apply_ok [OF Cons.prems]])
  ultimately show ?case by auto
qed simp

section \<open>Requests that overlap\<close>

text \<open>
  A creation in flight has passed the count (\<open>False\<close>) or also the demotion (\<open>True\<close>); at most \<open>k\<close>
  creations of one user are in flight at a time.  Updates and deletions are single steps here.
\<close>

type_synonym in_flight = "(uuid \<times> uuid \<times> upsert_address \<times> bool) list"

definition pending :: "uuid \<Rightarrow> in_flight \<Rightarrow> nat" where
  "pending u ps = count_where (\<lambda>(i, v, dto, d). v = u) ps"

inductive book_step :: "uuid set \<Rightarrow> nat \<Rightarrow> in_flight \<times> book \<Rightarrow> in_flight \<times> book \<Rightarrow> bool"
  for landmarks :: "uuid set" and k :: nat where
  Admit: "address_limit u b = Inr () \<Longrightarrow> pending u ps < k \<Longrightarrow>
            book_step landmarks k (ps, b) (ps @ [(i, u, dto, False)], b)"
| Demote: "book_step landmarks k (ps @ (i, u, dto, False) # qs, b) (ps @ (i, u, dto, True) # qs, create_demote u dto b)"
| Insert: "book_step landmarks k (ps @ (i, u, dto, True) # qs, b)
             (ps @ qs, snd (create_insert landmarks i u dto now b))"
| Update: "book_step landmarks k (ps, b) (ps, snd (updateAddress landmarks u i dto now b))"
| Delete: "book_step landmarks k (ps, b) (ps, snd (deleteAddress u i b))"

lemma pending_simps [simp]:
  "pending u [] = 0" "pending u (ps @ qs) = pending u ps + pending u qs"
  "pending u ((i, v, dto, d) # ps) = (if v = u then Suc (pending u ps) else pending u ps)"
  by (simp_all add: pending_def)

lemma saved_snd [simp]:
  "saved u' (create_demote u dto b) = saved u' b"
  "saved u' (snd (updateAddress landmarks u i dto now b)) = saved u' b"
  "saved u' (snd (deleteAddress u i b)) \<le> saved u' b"
  "saved u' (snd (create_insert landmarks i u dto now b)) \<le> saved u' b + (if u = u' then 1 else 0)"
proof -
  show "saved u' (snd (deleteAddress u i b)) \<le> saved u' b"
    by (simp add: deleteAddress_def saved_def count_where_filter split: sum.splits)
qed (auto simp: create_demote_def updateAddress_def snd_update_write update_demote_def
      snd_create_insert defaults_snoc split: sum.splits)

lemma book_step_bound:
  assumes "book_step landmarks k s t" and "pending u (fst s) + saved u (snd s) \<le> MAX_SAVED_ADDRESSES + (k - 1)"
  shows "pending u (fst t) + saved u (snd t) \<le> MAX_SAVED_ADDRESSES + (k - 1)"
  using assms
proof (induction rule: book_step.induct)
  case (Admit v b ps i dto)
  then show ?case by (auto simp: address_limit_def saved_def split: if_splits)
next
  case (Insert ps i v dto qs b now)
  then show ?case using saved_snd(4) [of u landmarks i v dto now b]
    by (auto simp del: saved_snd(4) split: if_splits)
next
  case (Delete ps b v i)
  then show ?case using saved_snd(3) [of u v i b] by (auto simp del: saved_snd(3))
qed simp_all

lemma book_reach_bound:
  assumes "(book_step landmarks k)\<^sup>*\<^sup>* s t" and "pending u (fst s) + saved u (snd s) \<le> MAX_SAVED_ADDRESSES + (k - 1)"
  shows "pending u (fst t) + saved u (snd t) \<le> MAX_SAVED_ADDRESSES + (k - 1)"
  using assms(1)
proof (induction rule: rtranclp_induct)
  case base
  show ?case by (rule assms(2))
next
  case (step t t')
  show ?case by (rule book_step_bound [OF step.hyps(2) step.IH])
qed

section \<open>Properties\<close>

definition address_dto :: "uuid option \<Rightarrow> bool option \<Rightarrow> upsert_address" where
  "address_dto landmark isDefault = \<lparr>ua_label = None, ua_description = None, ua_quartier = None,
     ua_landmarkId = landmark, ua_lat = 4, ua_lng = 9, ua_phone = Some ''670000000'', ua_isDefault = isDefault\<rparr>"

text \<open>
  C34.  Whatever requests the users send one after the other, nobody has more than three addresses or
  more than one default, and the addresses of a user who sent none of them are what they were.
\<close>

theorem address_book_invariant:
  assumes "book_ok b"
  shows "book_ok (address_run landmarks rs b)
    \<and> (\<forall>u. u \<in> requester ` set rs \<or> addresses_of u (address_run landmarks rs b) = addresses_of u b)"
proof -
  have "u \<in> requester ` set rs \<or> addresses_of u (address_run landmarks rs b) = addresses_of u b" for u
    by (rule address_run_others [OF assms])
  then show ?thesis using address_run_ok [OF assms] by blast
qed

definition demo_requests :: "address_request list" where
  "demo_requests = [Create_Address ''a'' ''U'' (address_dto None (Some True)) 1,
     Create_Address ''b'' ''U'' (address_dto None (Some True)) 2, Create_Address ''c'' ''V'' (address_dto None None) 3,
     Update_Address ''U'' ''c'' (address_dto None None) 4, Create_Address ''d'' ''U'' (address_dto None None) 5,
     Create_Address ''e'' ''U'' (address_dto None None) 6, Delete_Address ''U'' ''a'']"

theorem address_book_invariant_witness:
  "book_ok (address_run {} demo_requests [])
   \<and> List.map (\<lambda>a. (ad_id a, ad_userId a, ad_isDefault a)) (address_run {} demo_requests []) =
       [(''b'', ''U'', True), (''c'', ''V'', False), (''d'', ''U'', False)]"
proof -
  have "book_ok []" by (simp add: book_ok_def)
  from address_book_invariant [OF this, of "{}" demo_requests]
  have "book_ok (address_run {} demo_requests [])" by (rule conjunct1)
  moreover have "List.map (\<lambda>a. (ad_id a, ad_userId a, ad_isDefault a)) (address_run {} demo_requests []) =
       [(''b'', ''U'', True), (''c'', ''V'', False), (''d'', ''U'', False)]"
    by (simp add: address_run_def demo_requests_def createAddress_def snd_create_insert address_limit_def
        create_demote_def claims_default_def address_dto_def MAX_SAVED_ADDRESSES_def bad_landmark_def
        demote_def new_address_def updateAddress_def deleteAddress_def require_address_def)
  ultimately show ?thesis by blast
qed

text \<open>
  The count is not atomic with the insert: with \<open>k\<close> creations of a user in flight at a time the
  limit is \<open>k - 1\<close> higher, however the requests interleave.
\<close>

theorem overlapping_creations_bound:
  assumes "(book_step landmarks k)\<^sup>*\<^sup>* ([], b) (ps, b')" and "saved u b \<le> MAX_SAVED_ADDRESSES"
  shows "saved u b' + pending u ps \<le> MAX_SAVED_ADDRESSES + (k - 1)"
  using book_reach_bound [OF assms(1), of u] assms(2) by simp

text \<open>Two creations at once, from two saved addresses: both pass the count, four are saved.\<close>

definition two_saved :: book where
  "two_saved = [new_address ''a'' ''U'' (address_dto None None) False 1, new_address ''b'' ''U'' (address_dto None None) False 2]"

definition four_saved :: book where
  "four_saved = two_saved @ [new_address ''c'' ''U'' (address_dto None (Some True)) True 3,
     new_address ''d'' ''U'' (address_dto None (Some True)) True 3]"

lemma overlapping_creations_run: "(book_step {} 2)\<^sup>*\<^sup>* ([], two_saved) ([], four_saved)"
proof -
  let ?D = "address_dto None (Some True)" and ?b = "two_saved"
  let ?c = "?b @ [new_address ''c'' ''U'' ?D True 3]"
  note compute = two_saved_def four_saved_def address_limit_def MAX_SAVED_ADDRESSES_def new_address_def create_demote_def
    claims_default_def address_dto_def demote_def snd_create_insert bad_landmark_def
  have room: "address_limit ''U'' ?b = Inr ()" by (simp add: compute)
  have quiet: "create_demote ''U'' ?D ?b = ?b" by (simp add: compute)
  have first: "snd (create_insert {} ''c'' ''U'' ?D 3 ?b) = ?c" by (simp add: compute)
  have second: "snd (create_insert {} ''d'' ''U'' ?D 3 ?c) = four_saved" by (simp add: compute)
  have 1: "book_step {} 2 ([], ?b) ([(''c'', ''U'', ?D, False)], ?b)"
    using Admit [OF room, of "[]" 2 "{}" "''c''" ?D] by simp
  have 2: "book_step {} 2 ([(''c'', ''U'', ?D, False)], ?b) ([(''c'', ''U'', ?D, False), (''d'', ''U'', ?D, False)], ?b)"
    using Admit [OF room, of "[(''c'', ''U'', ?D, False)]" 2 "{}" "''d''" ?D] by simp
  have 3: "book_step {} 2 ([(''c'', ''U'', ?D, False), (''d'', ''U'', ?D, False)], ?b)
             ([(''c'', ''U'', ?D, True), (''d'', ''U'', ?D, False)], ?b)"
    using Demote [of "{}" 2 "[]" "''c''" "''U''" ?D "[(''d'', ''U'', ?D, False)]" ?b] by (simp add: quiet)
  have 4: "book_step {} 2 ([(''c'', ''U'', ?D, True), (''d'', ''U'', ?D, False)], ?b)
             ([(''c'', ''U'', ?D, True), (''d'', ''U'', ?D, True)], ?b)"
    using Demote [of "{}" 2 "[(''c'', ''U'', ?D, True)]" "''d''" "''U''" ?D "[]" ?b] by (simp add: quiet)
  have 5: "book_step {} 2 ([(''c'', ''U'', ?D, True), (''d'', ''U'', ?D, True)], ?b) ([(''d'', ''U'', ?D, True)], ?c)"
    using Insert [of "{}" 2 "[]" "''c''" "''U''" ?D "[(''d'', ''U'', ?D, True)]" ?b 3] by (simp add: first)
  have 6: "book_step {} 2 ([(''d'', ''U'', ?D, True)], ?c) ([], four_saved)"
    using Insert [of "{}" 2 "[]" "''d''" "''U''" ?D "[]" ?c 3] by (simp add: second)
  from 1 2 3 4 5 6 show ?thesis by (meson converse_rtranclp_into_rtranclp rtranclp.rtrancl_refl)
qed

theorem overlapping_creations_bound_witness:
  "saved ''U'' four_saved + pending ''U'' [] \<le> MAX_SAVED_ADDRESSES + (2 - 1)
   \<and> saved ''U'' four_saved = 4 \<and> defaults ''U'' four_saved = 2"
proof -
  have "saved ''U'' two_saved \<le> MAX_SAVED_ADDRESSES"
    by (simp add: saved_def two_saved_def new_address_def MAX_SAVED_ADDRESSES_def)
  from overlapping_creations_bound [OF overlapping_creations_run this]
  have "saved ''U'' four_saved + pending ''U'' [] \<le> MAX_SAVED_ADDRESSES + (2 - 1)" .
  moreover have "saved ''U'' four_saved = 4 \<and> defaults ''U'' four_saved = 2"
    by (simp add: saved_def defaults_def four_saved_def two_saved_def new_address_def)
  ultimately show ?thesis by blast
qed

text \<open>The demotion is committed before the write it prepares: a write that fails leaves the user
  without a default address.\<close>

lemma failed_update_drops_default:
  assumes "require_address u i b = Inr ()" and "claims_default dto" and "bad_landmark landmarks dto"
    and "\<forall>a \<in> set b. ad_id a = i \<longrightarrow> \<not> ad_isDefault a"
  shows "failed (updateAddress landmarks u i dto now b)"
    and "defaults u (snd (updateAddress landmarks u i dto now b)) = 0"
  using assms(1-3) defaults_demote_Some [OF assms(4)]
  by (simp_all add: updateAddress_def update_write_def update_demote_def)

end
