(* ===== verification/Voice_Proxy.thy ===== *)
theory Voice_Proxy
  imports Accounts
begin

text \<open>
  The masked voice calls (\<open>voice-proxy/voice-proxy.service.ts\<close>, the target parsing of its
  controller, \<open>twilio.service.ts\<close> and the webhook guard).  A call is placed to the caller with a
  bridge URL; when the caller answers, Twilio fetches the URL and dials whom the answer names.
  \<open>vp_calls\<close> is what reached Twilio: the number rung and the bridge URL, in order.  Text is UTF-8
  bytes.  Twilio is the argument \<open>place\<close>: the call id or the error it answers with.
\<close>

section \<open>State\<close>

record voice_state =
  vp_auth :: auth_world
  vp_calls :: "(string \<times> string) list"

record voice_env =
  ve_appUrl :: string
  ve_voiceFrom :: "string option"
  ve_authToken :: "string option"
  ve_production :: bool
  ve_place :: "string \<Rightarrow> string \<Rightarrow> http_error + string"

datatype CallTarget = To_Consumer | To_Vendor | To_Rider

definition ALL_LIVE_STATUSES :: "OrderStatus list" where
  "ALL_LIVE_STATUSES = [OS_ACCEPTED, OS_IN_PREP, OS_READY_PICKUP, OS_PICKED_UP]"

definition RIDER_INVOLVED_STATUSES :: "OrderStatus list" where
  "RIDER_INVOLVED_STATUSES = ALL_LIVE_STATUSES"

section \<open>URLs\<close>

fun target_name :: "CallTarget \<Rightarrow> string" where
  "target_name To_Consumer = ''consumer''"
| "target_name To_Vendor = ''vendor''"
| "target_name To_Rider = ''rider''"

definition unreserved :: "char \<Rightarrow> bool" where
  "unreserved c =
     (let n = of_char c :: nat
      in (48 \<le> n \<and> n \<le> 57) \<or> (65 \<le> n \<and> n \<le> 90) \<or> (97 \<le> n \<and> n \<le> 122) \<or> c \<in> set ''-_.!~*'' \<or> n \<in> {39, 40, 41})"

definition upper_hex_digit :: "nat \<Rightarrow> char" where
  "upper_hex_digit n = char_of (if n < 10 then 48 + n else 55 + n)"

definition encodeURIComponent :: "string \<Rightarrow> string" where
  "encodeURIComponent s =
     concat (List.map (\<lambda>c. if unreserved c then [c]
       else [CHR ''%'', upper_hex_digit (of_char c div 16), upper_hex_digit (of_char c mod 16)]) s)"

text \<open>How a query value is read back: \<open>+\<close> is a space, a malformed escape stays as it is.\<close>

fun decode_query :: "string \<Rightarrow> string" where
  "decode_query [] = []"
| "decode_query (c # s) =
     (if c = CHR ''+'' then CHR '' '' # decode_query s
      else if c \<noteq> CHR ''%'' then c # decode_query s
      else case s of
             a # b # t \<Rightarrow> (case (hex_value a, hex_value b) of
                             (Some h, Some l) \<Rightarrow> char_of (16 * h + l) # decode_query t
                           | _ \<Rightarrow> c # decode_query s)
           | _ \<Rightarrow> c # decode_query s)"

definition bridge_path :: string where "bridge_path = ''/api/webhooks/twilio/voice/bridge''"

definition buildBridgeUrl :: "voice_env \<Rightarrow> uuid \<Rightarrow> CallTarget \<Rightarrow> string" where
  "buildBridgeUrl env orderId target =
     ve_appUrl env @ bridge_path @ ''?orderId='' @ encodeURIComponent orderId
       @ ''&to='' @ encodeURIComponent (target_name target)"

text \<open>The query of a request: \<open>name=value\<close> pairs separated by \<open>&\<close>; the first value of a name counts here.\<close>

definition query_param :: "string \<Rightarrow> string \<Rightarrow> string option" where
  "query_param name query =
     map_option (\<lambda>p. decode_query (drop (Suc (length name)) p))
       (find_row (starts_with (name @ ''='')) (split_on (CHR ''&'') query))"

definition parseTarget :: "string option \<Rightarrow> http_error + CallTarget" where
  "parseTarget raw =
     (let value = to_lower (case raw of Some s \<Rightarrow> s | None \<Rightarrow> ''consumer'')
      in if value = ''consumer'' then Inr To_Consumer
         else if value = ''vendor'' then Inr To_Vendor
         else if value = ''rider'' then Inr To_Rider
         else Inl (BadRequest ''invalid_call_target''))"

section \<open>Placing a call\<close>

definition startBridgedCall :: "voice_env \<Rightarrow> string \<Rightarrow> string \<Rightarrow> voice_state \<Rightarrow> (string, voice_state) outcome" where
  "startBridgedCall env toE164 bridgeUrl w =
     (if falsy (ve_voiceFrom env) then (Inl (UpstreamError ''TWILIO_VOICE_FROM is not set''), w)
      else case ve_place env toE164 bridgeUrl of
             Inl e \<Rightarrow> (Inl e, w)
           | Inr callSid \<Rightarrow> (Inr callSid, w\<lparr>vp_calls := vp_calls w @ [(toE164, bridgeUrl)]\<rparr>))"

definition bridgeCall ::
  "voice_env \<Rightarrow> string option \<Rightarrow> CallTarget \<Rightarrow> uuid \<Rightarrow> voice_state \<Rightarrow> (string, voice_state) outcome" where
  "bridgeCall env fromUserPhone target orderId w =
     (if falsy fromUserPhone then (Inl (NotFound ''caller_phone_missing''), w)
      else startBridgedCall env (normalizePhone (the fromUserPhone)) (buildBridgeUrl env orderId target) w)"

definition user_of :: "uuid \<Rightarrow> auth_world \<Rightarrow> user option" where
  "user_of i a = find_row (\<lambda>u. us_id u = i) (a_users a)"

definition user_phone :: "uuid \<Rightarrow> auth_world \<Rightarrow> string option" where
  "user_phone i a = (case user_of i a of Some u \<Rightarrow> us_phone u | None \<Rightarrow> None)"

definition call_requireRider :: "uuid \<Rightarrow> auth_world \<Rightarrow> http_error + rider" where
  "call_requireRider userId a =
     (case find_row (\<lambda>r. r_userId r = userId) (w_riders (a_world a)) of
        None \<Rightarrow> Inl (NotFound ''rider_not_found'') | Some r \<Rightarrow> Inr r)"

definition call_requireVendor :: "uuid \<Rightarrow> auth_world \<Rightarrow> http_error + vendor" where
  "call_requireVendor userId a =
     (case find_row (\<lambda>v. v_userId v = userId) (w_vendors (a_world a)) of
        None \<Rightarrow> Inl (NotFound ''vendor_not_found'') | Some v \<Rightarrow> Inr v)"

definition requireConsumer :: "uuid \<Rightarrow> auth_world \<Rightarrow> http_error + user" where
  "requireConsumer userId a =
     (case user_of userId a of None \<Rightarrow> Inl (NotFound ''user_not_found'') | Some u \<Rightarrow> Inr u)"

definition requireOrderAssignedToRider :: "uuid \<Rightarrow> uuid \<Rightarrow> auth_world \<Rightarrow> http_error + order" where
  "requireOrderAssignedToRider orderId riderId a =
     (case order_by_id orderId (a_world a) of
        None \<Rightarrow> Inl (NotFound ''order_not_found'')
      | Some r \<Rightarrow>
          if o_riderId r \<noteq> Some riderId then Inl (NotFound ''order_not_found'')
          else if o_status r \<notin> set ALL_LIVE_STATUSES then Inl (NotFound ''order_not_found'')
          else Inr r)"

text \<open>What \<open>requireOrderForVendor\<close> and \<open>requireOrderForConsumer\<close> check after the owner.\<close>

definition call_window :: "bool \<Rightarrow> order \<Rightarrow> http_error + order" where
  "call_window needRider r =
     (if o_status r \<notin> set ALL_LIVE_STATUSES then Inl (NotFound ''order_not_found'')
      else if needRider \<and> falsy (o_riderId r) then Inl (NotFound ''rider_not_assigned'')
      else if needRider \<and> o_status r \<notin> set RIDER_INVOLVED_STATUSES then Inl (NotFound ''order_not_found'')
      else Inr r)"

definition requireOrderForVendor :: "uuid \<Rightarrow> uuid \<Rightarrow> bool \<Rightarrow> auth_world \<Rightarrow> http_error + order" where
  "requireOrderForVendor orderId vendorId needRider a =
     (case order_by_id orderId (a_world a) of
        None \<Rightarrow> Inl (NotFound ''order_not_found'')
      | Some r \<Rightarrow> if o_vendorId r \<noteq> vendorId then Inl (NotFound ''order_not_found'') else call_window needRider r)"

definition requireOrderForConsumer :: "uuid \<Rightarrow> uuid \<Rightarrow> bool \<Rightarrow> auth_world \<Rightarrow> http_error + order" where
  "requireOrderForConsumer orderId userId needRider a =
     (case order_by_id orderId (a_world a) of
        None \<Rightarrow> Inl (NotFound ''order_not_found'')
      | Some r \<Rightarrow> if o_userId r \<noteq> userId then Inl (NotFound ''order_not_found'') else call_window needRider r)"

definition startRiderToConsumer :: "voice_env \<Rightarrow> uuid \<Rightarrow> uuid \<Rightarrow> voice_state \<Rightarrow> (string, voice_state) outcome" where
  "startRiderToConsumer env orderId riderUserId w =
     (case call_requireRider riderUserId (vp_auth w) of
        Inl e \<Rightarrow> (Inl e, w)
      | Inr rider \<Rightarrow>
          (case requireOrderAssignedToRider orderId (r_id rider) (vp_auth w) of
             Inl e \<Rightarrow> (Inl e, w)
           | Inr _ \<Rightarrow> bridgeCall env (user_phone (r_userId rider) (vp_auth w)) To_Consumer orderId w))"

definition startVendorToConsumer :: "voice_env \<Rightarrow> uuid \<Rightarrow> uuid \<Rightarrow> voice_state \<Rightarrow> (string, voice_state) outcome" where
  "startVendorToConsumer env orderId vendorUserId w =
     (case call_requireVendor vendorUserId (vp_auth w) of
        Inl e \<Rightarrow> (Inl e, w)
      | Inr vendor \<Rightarrow>
          (case requireOrderForVendor orderId (v_id vendor) False (vp_auth w) of
             Inl e \<Rightarrow> (Inl e, w)
           | Inr _ \<Rightarrow> bridgeCall env (Some (v_whatsappPhone vendor)) To_Consumer orderId w))"

definition startVendorToRider :: "voice_env \<Rightarrow> uuid \<Rightarrow> uuid \<Rightarrow> voice_state \<Rightarrow> (string, voice_state) outcome" where
  "startVendorToRider env orderId vendorUserId w =
     (case call_requireVendor vendorUserId (vp_auth w) of
        Inl e \<Rightarrow> (Inl e, w)
      | Inr vendor \<Rightarrow>
          (case requireOrderForVendor orderId (v_id vendor) True (vp_auth w) of
             Inl e \<Rightarrow> (Inl e, w)
           | Inr _ \<Rightarrow> bridgeCall env (Some (v_whatsappPhone vendor)) To_Rider orderId w))"

definition startConsumerToVendor :: "voice_env \<Rightarrow> uuid \<Rightarrow> uuid \<Rightarrow> voice_state \<Rightarrow> (string, voice_state) outcome" where
  "startConsumerToVendor env orderId consumerUserId w =
     (case requireOrderForConsumer orderId consumerUserId False (vp_auth w) of
        Inl e \<Rightarrow> (Inl e, w)
      | Inr order \<Rightarrow>
          (case requireConsumer consumerUserId (vp_auth w) of
             Inl e \<Rightarrow> (Inl e, w)
           | Inr consumer \<Rightarrow> bridgeCall env (us_phone consumer) To_Vendor (o_id order) w))"

definition startConsumerToRider :: "voice_env \<Rightarrow> uuid \<Rightarrow> uuid \<Rightarrow> voice_state \<Rightarrow> (string, voice_state) outcome" where
  "startConsumerToRider env orderId consumerUserId w =
     (case requireOrderForConsumer orderId consumerUserId True (vp_auth w) of
        Inl e \<Rightarrow> (Inl e, w)
      | Inr order \<Rightarrow>
          (case requireConsumer consumerUserId (vp_auth w) of
             Inl e \<Rightarrow> (Inl e, w)
           | Inr consumer \<Rightarrow> bridgeCall env (us_phone consumer) To_Rider (o_id order) w))"

datatype direction =
  Rider_To_Consumer | Vendor_To_Consumer | Vendor_To_Rider | Consumer_To_Vendor | Consumer_To_Rider

text \<open>The five routes of the controller, behind the role of each.\<close>

fun call_role :: "direction \<Rightarrow> UserRole" where
  "call_role Rider_To_Consumer = RIDER"
| "call_role Vendor_To_Consumer = VENDOR"
| "call_role Vendor_To_Rider = VENDOR"
| "call_role Consumer_To_Vendor = CONSUMER"
| "call_role Consumer_To_Rider = CONSUMER"

fun start_call :: "direction \<Rightarrow> voice_env \<Rightarrow> uuid \<Rightarrow> uuid \<Rightarrow> voice_state \<Rightarrow> (string, voice_state) outcome" where
  "start_call Rider_To_Consumer = startRiderToConsumer"
| "start_call Vendor_To_Consumer = startVendorToConsumer"
| "start_call Vendor_To_Rider = startVendorToRider"
| "start_call Consumer_To_Vendor = startConsumerToVendor"
| "start_call Consumer_To_Rider = startConsumerToRider"

fun callee :: "direction \<Rightarrow> CallTarget" where
  "callee Rider_To_Consumer = To_Consumer"
| "callee Vendor_To_Consumer = To_Consumer"
| "callee Vendor_To_Rider = To_Rider"
| "callee Consumer_To_Vendor = To_Vendor"
| "callee Consumer_To_Rider = To_Rider"

section \<open>The bridge\<close>

definition twiml :: "string \<Rightarrow> string \<Rightarrow> string" where
  "twiml say rest =
     ''<?xml version='' @ [CHR 0x22] @ ''1.0'' @ [CHR 0x22] @ '' encoding='' @ [CHR 0x22] @ ''UTF-8'' @ [CHR 0x22] @ ''?>''
     @ ''<Response>'' @ ''  <Say language='' @ [CHR 0x22] @ ''fr-FR'' @ [CHR 0x22] @ ''>'' @ say @ ''</Say>''
     @ rest @ ''</Response>''"

definition hangupTwiml :: "string \<Rightarrow> string" where
  "hangupTwiml message = twiml message ''  <Hangup/>''"

definition dialTwiml :: "voice_env \<Rightarrow> string \<Rightarrow> string \<Rightarrow> string" where
  "dialTwiml env say dialNumber =
     twiml say (''  <Dial callerId='' @ [CHR 0x22] @ (case ve_voiceFrom env of Some n \<Rightarrow> n | None \<Rightarrow> []) @ [CHR 0x22]
       @ '' timeout='' @ [CHR 0x22] @ ''30'' @ [CHR 0x22] @ '' timeLimit='' @ [CHR 0x22] @ ''170'' @ [CHR 0x22] @ ''>''
       @ ''    <Number>'' @ normalizePhone dialNumber @ ''</Number>'' @ ''  </Dial>'')"

definition dialNumber :: "order \<Rightarrow> CallTarget \<Rightarrow> auth_world \<Rightarrow> string option" where
  "dialNumber r target a =
     (case target of
        To_Consumer \<Rightarrow> Some (da_phone (o_delivery r))
      | To_Vendor \<Rightarrow> map_option v_whatsappPhone (find_row (\<lambda>v. v_id v = o_vendorId r) (w_vendors (a_world a)))
      | To_Rider \<Rightarrow>
          (case o_riderId r of
             None \<Rightarrow> None
           | Some i \<Rightarrow> (case find_row (\<lambda>x. r_id x = i) (w_riders (a_world a)) of
                          None \<Rightarrow> None | Some x \<Rightarrow> user_phone (r_userId x) a)))"

fun bridge_copy :: "CallTarget \<Rightarrow> string" where
  "bridge_copy To_Consumer = ''Connexion avec votre client TchopNow.''"
| "bridge_copy To_Vendor = ''Connexion avec le restaurant TchopNow.''"
| "bridge_copy To_Rider = ''Connexion avec votre livreur TchopNow.''"

definition no_longer_active :: string where
  "no_longer_active = ''La commande n'' @ [CHR 0x27] @ ''est plus active.''"

definition number_unavailable :: string where
  "number_unavailable = ''Num'' @ [CHR 0xC3, CHR 0xA9] @ ''ro indisponible.''"

definition buildBridgeTwiml :: "voice_env \<Rightarrow> uuid \<Rightarrow> CallTarget \<Rightarrow> auth_world \<Rightarrow> string" where
  "buildBridgeTwiml env orderId target a =
     (case order_by_id orderId (a_world a) of
        None \<Rightarrow> hangupTwiml no_longer_active
      | Some r \<Rightarrow>
          if o_status r \<notin> set ALL_LIVE_STATUSES then hangupTwiml no_longer_active
          else if falsy (dialNumber r target a) then hangupTwiml number_unavailable
          else dialTwiml env (bridge_copy target) (the (dialNumber r target a)))"

text \<open>
  The guard in front of the bridge.  \<open>valid_sig token signature url\<close> is Twilio's
  \<open>validateRequest\<close> on the request at hand.
\<close>

definition twilioWebhookGuard ::
  "voice_env \<Rightarrow> (string \<Rightarrow> string \<Rightarrow> string \<Rightarrow> bool) \<Rightarrow> string option \<Rightarrow> string \<Rightarrow> http_error + unit" where
  "twilioWebhookGuard env valid_sig signature originalUrl =
     (if \<not> ve_production env then Inr ()
      else if falsy (ve_authToken env) then Inl (Forbidden ''webhook not configured'')
      else if falsy signature then Inl (Forbidden ''invalid twilio signature'')
      else if \<not> valid_sig (the (ve_authToken env)) (the signature) (ve_appUrl env @ originalUrl)
        then Inl (Forbidden ''invalid twilio signature'')
      else Inr ())"

text \<open>\<open>GET|POST /api/webhooks/twilio/voice/bridge?query\<close>.\<close>

definition bridge ::
  "voice_env \<Rightarrow> (string \<Rightarrow> string \<Rightarrow> string \<Rightarrow> bool) \<Rightarrow> string option \<Rightarrow> string \<Rightarrow> auth_world \<Rightarrow> http_error + string" where
  "bridge env valid_sig signature query a =
     (case twilioWebhookGuard env valid_sig signature (bridge_path @ ''?'' @ query) of
        Inl e \<Rightarrow> Inl e
      | Inr _ \<Rightarrow>
          (case parseTarget (query_param ''to'' query) of
             Inl e \<Rightarrow> Inl e
           | Inr target \<Rightarrow>
               (case query_param ''orderId'' query of
                  None \<Rightarrow> Inl (PrismaError ''id missing'')
                | Some orderId \<Rightarrow> Inr (buildBridgeTwiml env orderId target a))))"

section \<open>Reading the URL back\<close>

lemma hex_value_upper: "n < 16 \<Longrightarrow> hex_value (upper_hex_digit n) = Some n"
  by (auto simp: hex_value_def upper_hex_digit_def Let_def)

lemma unreserved_plain: "unreserved c \<Longrightarrow> c \<noteq> CHR ''%'' \<and> c \<noteq> CHR ''+'' \<and> c \<noteq> CHR ''&''"
  by (auto simp: unreserved_def)

lemma encode_Cons:
  "encodeURIComponent (c # s) =
     (if unreserved c then c # encodeURIComponent s
      else CHR ''%'' # upper_hex_digit (of_char c div 16) # upper_hex_digit (of_char c mod 16) # encodeURIComponent s)"
  by (simp add: encodeURIComponent_def)

lemma decode_encode: "decode_query (encodeURIComponent s) = s"
proof (induction s)
  case (Cons c s)
  have "hex_value (upper_hex_digit (of_char c div 16)) = Some (of_char c div 16)"
    "hex_value (upper_hex_digit (of_char c mod 16)) = Some (of_char c mod 16)"
    by (rule hex_value_upper [OF of_char_div_lt]) (simp add: hex_value_upper)
  then show ?case using Cons unreserved_plain [of c] by (simp add: encode_Cons)
qed (simp add: encodeURIComponent_def)

lemma upper_hex_digit_plain: "n < 16 \<Longrightarrow> upper_hex_digit n \<noteq> CHR ''&''"
  using hex_value_upper [of n] by (auto simp: hex_value_def)

lemma encode_no_amp: "CHR ''&'' \<notin> set (encodeURIComponent s)"
proof (induction s)
  case (Cons c s)
  have "upper_hex_digit (of_char c div 16) \<noteq> CHR ''&''" by (rule upper_hex_digit_plain [OF of_char_div_lt])
  moreover have "upper_hex_digit (of_char c mod 16) \<noteq> CHR ''&''" by (rule upper_hex_digit_plain) simp
  ultimately show ?case using Cons unreserved_plain [of c] by (auto simp: encode_Cons)
qed (simp add: encodeURIComponent_def)

definition bridge_query :: "uuid \<Rightarrow> CallTarget \<Rightarrow> string" where
  "bridge_query orderId target =
     ''orderId='' @ encodeURIComponent orderId @ ''&to='' @ encodeURIComponent (target_name target)"

lemma split_bridge_query:
  "split_on (CHR ''&'') (bridge_query i t) =
     [''orderId='' @ encodeURIComponent i, ''to='' @ encodeURIComponent (target_name t)]"
proof -
  have "split_on (CHR ''&'') ((''orderId='' @ encodeURIComponent i) @ CHR ''&'' # (''to='' @ encodeURIComponent (target_name t))) =
     [''orderId='' @ encodeURIComponent i, ''to='' @ encodeURIComponent (target_name t)]"
    by (subst split_on_append) (auto simp: encode_no_amp split_on_free)
  then show ?thesis by (simp add: bridge_query_def)
qed

lemma bridge_query_params:
  "query_param ''orderId'' (bridge_query i t) = Some i"
  "query_param ''to'' (bridge_query i t) = Some (target_name t)"
  by (simp_all add: query_param_def split_bridge_query starts_with_def decode_encode)

lemma parse_target_name: "parseTarget (Some (target_name t)) = Inr t"
  by (cases t) (simp_all add: parseTarget_def to_lower_def Let_def)

section \<open>Properties\<close>

text \<open>
  The URL handed to Twilio, read back by the webhook, is the order and the party that were
  checked when the call was started; the answer is the bridge to that party, once the request
  carries a signature that verifies.
\<close>

theorem bridge_url_roundtrip:
  "buildBridgeUrl env i t = ve_appUrl env @ bridge_path @ ''?'' @ bridge_query i t
   \<and> bridge env valid_sig signature (bridge_query i t) a =
       (case twilioWebhookGuard env valid_sig signature (bridge_path @ ''?'' @ bridge_query i t) of
          Inl e \<Rightarrow> Inl e
        | Inr _ \<Rightarrow> Inr (buildBridgeTwiml env i t a))"
proof
  show "buildBridgeUrl env i t = ve_appUrl env @ bridge_path @ ''?'' @ bridge_query i t"
    by (simp add: buildBridgeUrl_def bridge_query_def)
qed (simp add: bridge_def bridge_query_params parse_target_name cong: sum.case_cong)

text \<open>Who may start which call, and on whose number the caller is rung.\<close>

fun is_party :: "direction \<Rightarrow> uuid \<Rightarrow> order \<Rightarrow> auth_world \<Rightarrow> bool" where
  "is_party Rider_To_Consumer u r a =
     (\<exists>x \<in> set (w_riders (a_world a)). r_userId x = u \<and> o_riderId r = Some (r_id x))"
| "is_party Vendor_To_Consumer u r a = (\<exists>v \<in> set (w_vendors (a_world a)). v_userId v = u \<and> o_vendorId r = v_id v)"
| "is_party Vendor_To_Rider u r a =
     ((\<exists>v \<in> set (w_vendors (a_world a)). v_userId v = u \<and> o_vendorId r = v_id v) \<and> o_riderId r \<noteq> None)"
| "is_party Consumer_To_Vendor u r a = (o_userId r = u)"
| "is_party Consumer_To_Rider u r a = (o_userId r = u \<and> o_riderId r \<noteq> None)"

fun own_number :: "direction \<Rightarrow> uuid \<Rightarrow> auth_world \<Rightarrow> string option" where
  "own_number Vendor_To_Consumer u a = map_option v_whatsappPhone (find_row (\<lambda>v. v_userId v = u) (w_vendors (a_world a)))"
| "own_number Vendor_To_Rider u a = map_option v_whatsappPhone (find_row (\<lambda>v. v_userId v = u) (w_vendors (a_world a)))"
| "own_number _ u a = user_phone u a"

lemma bridgeCall_cases:
  assumes "bridgeCall env ph t i w = (res, w')"
  shows "(\<exists>e. res = Inl e \<and> w' = w)
    \<or> (\<exists>sid n. res = Inr sid \<and> ph = Some n \<and> w' = w\<lparr>vp_calls := vp_calls w @ [(normalizePhone n, buildBridgeUrl env i t)]\<rparr>)"
  using assms
  by (cases ph; cases res) (auto simp: bridgeCall_def startBridgedCall_def split: if_splits sum.splits)

lemmas call_checks = call_requireRider_def call_requireVendor_def requireConsumer_def requireOrderAssignedToRider_def
  requireOrderForVendor_def requireOrderForConsumer_def call_window_def

lemmas start_defs = startRiderToConsumer_def startVendorToConsumer_def startVendorToRider_def
  startConsumerToVendor_def startConsumerToRider_def

lemma order_by_id_key: "order_by_id i w = Some r \<Longrightarrow> o_id r = i"
  by (auto simp: order_by_id_def dest: find_row_Some)

text \<open>Every start is a refusal that leaves the state, or the bridged call of a party of a live order.\<close>

lemma start_call_shape:
  "(\<exists>e. start_call d env i u w = (Inl e, w))
   \<or> (\<exists>r. order_by_id i (a_world (vp_auth w)) = Some r \<and> o_status r \<in> set ALL_LIVE_STATUSES
        \<and> is_party d u r (vp_auth w)
        \<and> start_call d env i u w = bridgeCall env (own_number d u (vp_auth w)) (callee d) i w)"
proof (cases d)
  case Rider_To_Consumer
  then show ?thesis
    by (auto simp: start_defs call_checks split: option.splits if_splits dest: find_row_Some)
next
  case Vendor_To_Consumer
  then show ?thesis
    by (auto simp: start_defs call_checks split: option.splits if_splits dest: find_row_Some)
next
  case Vendor_To_Rider
  then show ?thesis
    by (auto simp: start_defs call_checks split: option.splits if_splits dest: find_row_Some)
next
  case Consumer_To_Vendor
  then show ?thesis
    by (auto simp: start_defs call_checks user_phone_def split: option.splits if_splits dest: order_by_id_key)
next
  case Consumer_To_Rider
  then show ?thesis
    by (auto simp: start_defs call_checks user_phone_def split: option.splits if_splits dest: order_by_id_key)
qed

text \<open>
  A call is placed only for a party of a live order: the caller is rung on their own number, the
  bridge names the order and the other party, and a refused start leaves everything as it was.
\<close>

theorem voice_call_authorised:
  assumes "start_call d env i u w = (res, w')"
  shows "case res of
      Inl e \<Rightarrow> w' = w
    | Inr sid \<Rightarrow> \<exists>r n. order_by_id i (a_world (vp_auth w)) = Some r
        \<and> o_status r \<in> set [OS_ACCEPTED, OS_IN_PREP, OS_READY_PICKUP, OS_PICKED_UP]
        \<and> is_party d u r (vp_auth w) \<and> own_number d u (vp_auth w) = Some n
        \<and> w' = w\<lparr>vp_calls := vp_calls w @ [(normalizePhone n, buildBridgeUrl env i (callee d))]\<rparr>"
  using start_call_shape [of d env i u w] bridgeCall_cases [of env "own_number d u (vp_auth w)" "callee d" i w res w'] assms
  by (auto simp: ALL_LIVE_STATUSES_def)

definition demo_voice_env :: voice_env where
  "demo_voice_env = \<lparr>ve_appUrl = ''https://a'', ve_voiceFrom = Some ''+1'', ve_authToken = Some ''T'',
     ve_production = True, ve_place = (\<lambda>to url. Inr ''CA1'')\<rparr>"

definition demo_voice :: "OrderStatus \<Rightarrow> voice_state" where
  "demo_voice s = \<lparr>vp_auth = (demo_auth [demo_user\<lparr>us_id := ''U''\<rparr>] [] [])
     \<lparr>a_world := demo_world [(demo_order s PS_PAID)\<lparr>o_id := ''O 1'', o_userId := ''U'', o_riderId := Some ''R''\<rparr>] []\<rparr>, vp_calls = []\<rparr>"

theorem voice_call_authorised_witness:
  "(let r = start_call Consumer_To_Rider demo_voice_env ''O 1'' ''U'' (demo_voice OS_PICKED_UP)
    in fst r = Inr ''CA1''
       \<and> vp_calls (snd r) = [(''+237670000000'', ''https://a/api/webhooks/twilio/voice/bridge?orderId=O%201&to=rider'')])
   \<and> failed (start_call Consumer_To_Rider demo_voice_env ''O 1'' ''U'' (demo_voice OS_DELIVERED))"
proof -
  let ?w = "demo_voice OS_PICKED_UP"
  let ?r = "start_call Consumer_To_Rider demo_voice_env ''O 1'' ''U'' ?w"
  have sid: "fst ?r = Inr ''CA1''" by code_simp
  have own: "own_number Consumer_To_Rider ''U'' (vp_auth ?w) = Some ''+237670000000''" by code_simp
  have url: "buildBridgeUrl demo_voice_env ''O 1'' (callee Consumer_To_Rider) =
      ''https://a/api/webhooks/twilio/voice/bridge?orderId=O%201&to=rider''" by code_simp
  have np: "normalizePhone ''+237670000000'' = ''+237670000000''" by code_simp
  have "vp_calls (snd ?r) = [(normalizePhone ''+237670000000'', buildBridgeUrl demo_voice_env ''O 1'' (callee Consumer_To_Rider))]"
    using voice_call_authorised [of Consumer_To_Rider demo_voice_env "''O 1''" "''U''" ?w "fst ?r" "snd ?r"] sid own
    by (auto simp: demo_voice_def)
  moreover have "failed (start_call Consumer_To_Rider demo_voice_env ''O 1'' ''U'' (demo_voice OS_DELIVERED))" by code_simp
  ultimately show ?thesis using sid url np by simp
qed

text \<open>The same state in which everybody but \<open>u\<close> has the number \<open>n\<close>.\<close>

definition renumber_others :: "uuid \<Rightarrow> string \<Rightarrow> auth_world \<Rightarrow> auth_world" where
  "renumber_others u n a = a
     \<lparr>a_users := List.map (\<lambda>x. if us_id x = u then x else x\<lparr>us_phone := Some n\<rparr>) (a_users a),
      a_world := (a_world a)
        \<lparr>w_orders := List.map (\<lambda>r. r\<lparr>o_delivery := (o_delivery r)\<lparr>da_phone := n\<rparr>\<rparr>) (w_orders (a_world a)),
         w_vendors := List.map (\<lambda>v. if v_userId v = u then v else v\<lparr>v_whatsappPhone := n\<rparr>) (w_vendors (a_world a))\<rparr>\<rparr>"

lemma renumbered_lookups:
  "user_of u (renumber_others u n a) = user_of u a"
  "find_row (\<lambda>v. v_userId v = u) (w_vendors (a_world (renumber_others u n a))) =
     find_row (\<lambda>v. v_userId v = u) (w_vendors (a_world a))"
  "w_riders (a_world (renumber_others u n a)) = w_riders (a_world a)"
  "order_by_id i (a_world (renumber_others u n a)) =
     map_option (\<lambda>r. r\<lparr>o_delivery := (o_delivery r)\<lparr>da_phone := n\<rparr>\<rparr>) (order_by_id i (a_world a))"
proof -
  have "find_row (\<lambda>x. us_id x = u) (List.map (\<lambda>x. if us_id x = u then x else x\<lparr>us_phone := Some n\<rparr>) us) =
      find_row (\<lambda>x. us_id x = u) us" for us
    by (induction us) auto
  then show "user_of u (renumber_others u n a) = user_of u a" by (simp add: user_of_def renumber_others_def)
  show "order_by_id i (a_world (renumber_others u n a)) =
     map_option (\<lambda>r. r\<lparr>o_delivery := (o_delivery r)\<lparr>da_phone := n\<rparr>\<rparr>) (order_by_id i (a_world a))"
    by (simp add: renumber_others_def order_by_id_def find_row_map)
  show "w_riders (a_world (renumber_others u n a)) = w_riders (a_world a)" by (simp add: renumber_others_def)
  have "find_row (\<lambda>v. v_userId v = u) (List.map (\<lambda>v. if v_userId v = u then v else v\<lparr>v_whatsappPhone := n\<rparr>) vs) =
      find_row (\<lambda>v. v_userId v = u) vs" for vs
    by (induction vs) auto
  then show "find_row (\<lambda>v. v_userId v = u) (w_vendors (a_world (renumber_others u n a))) =
     find_row (\<lambda>v. v_userId v = u) (w_vendors (a_world a))"
    by (simp add: renumber_others_def)
qed

lemma renumbered_checks:
  "own_number d u (renumber_others u n a) = own_number d u a"
  "call_requireRider u (renumber_others u n a) = call_requireRider u a"
  "call_requireVendor u (renumber_others u n a) = call_requireVendor u a"
  "requireConsumer u (renumber_others u n a) = requireConsumer u a"
  by (cases d; simp add: call_checks user_phone_def renumbered_lookups)
    (simp_all add: call_checks renumbered_lookups)

definition renumber :: "string \<Rightarrow> order \<Rightarrow> order" where
  "renumber n r = r\<lparr>o_delivery := (o_delivery r)\<lparr>da_phone := n\<rparr>\<rparr>"

lemma renumbered_orders:
  "requireOrderAssignedToRider i x (renumber_others u n a) = map_sum id (renumber n) (requireOrderAssignedToRider i x a)"
  "requireOrderForVendor i x b (renumber_others u n a) = map_sum id (renumber n) (requireOrderForVendor i x b a)"
  "requireOrderForConsumer i x b (renumber_others u n a) = map_sum id (renumber n) (requireOrderForConsumer i x b a)"
  by (simp_all add: call_checks renumber_def renumbered_lookups split: option.splits)

lemma bridgeCall_same:
  "fst (bridgeCall env ph t i (w\<lparr>vp_auth := a\<rparr>)) = fst (bridgeCall env ph t i w)
   \<and> vp_calls (snd (bridgeCall env ph t i (w\<lparr>vp_auth := a\<rparr>))) = vp_calls (snd (bridgeCall env ph t i w))"
  by (auto simp: bridgeCall_def startBridgedCall_def split: sum.splits)

lemma start_masks:
  "fst (start_call d env i u (w\<lparr>vp_auth := renumber_others u n (vp_auth w)\<rparr>)) = fst (start_call d env i u w)
   \<and> vp_calls (snd (start_call d env i u (w\<lparr>vp_auth := renumber_others u n (vp_auth w)\<rparr>)))
       = vp_calls (snd (start_call d env i u w))"
proof (cases d)
  case Rider_To_Consumer
  have "user_phone (r_userId r) (renumber_others u n (vp_auth w)) = user_phone (r_userId r) (vp_auth w)"
    if "call_requireRider u (vp_auth w) = Inr r" for r
    using that by (auto simp: call_requireRider_def user_phone_def renumbered_lookups split: option.splits dest: find_row_Some)
  then show ?thesis using Rider_To_Consumer
    by (auto simp: start_defs renumbered_checks renumbered_orders bridgeCall_same split: sum.splits)
qed (auto simp: start_defs renumbered_checks renumbered_orders bridgeCall_same renumber_def split: sum.splits)

text \<open>The same state in which the numbers of \<open>u\<close> are all \<open>n\<close>: as an account, as a vendor, on own orders.\<close>

definition renumber_own :: "uuid \<Rightarrow> string \<Rightarrow> auth_world \<Rightarrow> auth_world" where
  "renumber_own u n a = a
     \<lparr>a_users := List.map (\<lambda>x. if us_id x = u then x\<lparr>us_phone := Some n\<rparr> else x) (a_users a),
      a_world := (a_world a)
        \<lparr>w_orders := List.map (\<lambda>r. if o_userId r = u then renumber n r else r) (w_orders (a_world a)),
         w_vendors := List.map (\<lambda>v. if v_userId v = u then v\<lparr>v_whatsappPhone := n\<rparr> else v) (w_vendors (a_world a))\<rparr>\<rparr>"

text \<open>The account that a target of an order stands for.\<close>

fun called_user :: "CallTarget \<Rightarrow> order \<Rightarrow> auth_world \<Rightarrow> uuid option" where
  "called_user To_Consumer r a = Some (o_userId r)"
| "called_user To_Vendor r a = map_option v_userId (find_row (\<lambda>v. v_id v = o_vendorId r) (w_vendors (a_world a)))"
| "called_user To_Rider r a =
     (case o_riderId r of None \<Rightarrow> None | Some i \<Rightarrow> map_option r_userId (find_row (\<lambda>x. r_id x = i) (w_riders (a_world a))))"

lemma find_row_changed:
  assumes "\<And>x. P (if c x then f x else x) = P x"
  shows "find_row P (List.map (\<lambda>x. if c x then f x else x) xs) = map_option (\<lambda>x. if c x then f x else x) (find_row P xs)"
  using assms by (induction xs) auto

lemma bridge_masks:
  assumes "\<And>r. order_by_id i (a_world a) = Some r \<Longrightarrow> called_user t r a \<noteq> Some u"
  shows "buildBridgeTwiml env i t (renumber_own u n a) = buildBridgeTwiml env i t a"
proof -
  have order: "order_by_id i (a_world (renumber_own u n a)) =
      map_option (\<lambda>r. if o_userId r = u then renumber n r else r) (order_by_id i (a_world a))"
    unfolding order_by_id_def renumber_own_def by (simp add: find_row_changed renumber_def)
  show ?thesis
  proof (cases "order_by_id i (a_world a)")
    case None
    then show ?thesis by (simp add: buildBridgeTwiml_def order)
  next
    case (Some r)
    let ?r = "if o_userId r = u then renumber n r else r"
    have kept: "o_status ?r = o_status r" "o_vendorId ?r = o_vendorId r" "o_riderId ?r = o_riderId r"
      by (simp_all add: renumber_def)
    have vendor: "find_row (\<lambda>v. v_id v = j) (w_vendors (a_world (renumber_own u n a))) =
        map_option (\<lambda>v. if v_userId v = u then v\<lparr>v_whatsappPhone := n\<rparr> else v) (find_row (\<lambda>v. v_id v = j) (w_vendors (a_world a)))" for j
      unfolding renumber_own_def by (simp add: find_row_changed)
    have phone: "user_phone j (renumber_own u n a) = user_phone j a" if "j \<noteq> u" for j
    proof -
      have "find_row (\<lambda>x. us_id x = j) (List.map (\<lambda>x. if us_id x = u then x\<lparr>us_phone := Some n\<rparr> else x) us) =
          find_row (\<lambda>x. us_id x = j) us" for us :: "user list"
        using that by (induction us) auto
      then show ?thesis by (simp add: user_phone_def user_of_def renumber_own_def)
    qed
    have riders: "w_riders (a_world (renumber_own u n a)) = w_riders (a_world a)" by (simp add: renumber_own_def)
    have "dialNumber ?r t (renumber_own u n a) = dialNumber r t a"
    proof (cases t)
      case To_Consumer
      then show ?thesis using assms [OF Some] by (simp add: dialNumber_def)
    next
      case To_Vendor
      then show ?thesis using assms [OF Some] kept
        by (cases "find_row (\<lambda>v. v_id v = o_vendorId r) (w_vendors (a_world a))") (simp_all add: dialNumber_def vendor)
    next
      case To_Rider
      then show ?thesis using assms [OF Some] kept phone
        by (auto simp: dialNumber_def riders split: option.splits)
    qed
    then show ?thesis using Some kept by (simp add: buildBridgeTwiml_def order)
  qed
qed

text \<open>
  C31.  The masking, on both legs.  What a caller gets back when a call is started, and the call that is
  ordered from Twilio then, do not depend on anybody else's number.  When Twilio fetches the bridge,
  its answer has to name the number to dial, and names it to Twilio only: it is a hang-up, or the
  dialling of the called party of the live order with the platform's number as caller id, and it does
  not depend on any number of the caller.
\<close>

theorem voice_call_masks_numbers:
  assumes "\<And>r. order_by_id i (a_world (vp_auth w)) = Some r \<Longrightarrow> called_user (callee d) r (vp_auth w) \<noteq> Some u"
  shows "fst (start_call d env i u (w\<lparr>vp_auth := renumber_others u n (vp_auth w)\<rparr>)) = fst (start_call d env i u w)
   \<and> vp_calls (snd (start_call d env i u (w\<lparr>vp_auth := renumber_others u n (vp_auth w)\<rparr>)))
       = vp_calls (snd (start_call d env i u w))
   \<and> buildBridgeTwiml env i (callee d) (renumber_own u n (vp_auth w)) = buildBridgeTwiml env i (callee d) (vp_auth w)
   \<and> (buildBridgeTwiml env i (callee d) (vp_auth w) \<in> {hangupTwiml no_longer_active, hangupTwiml number_unavailable}
      \<or> (\<exists>r m. order_by_id i (a_world (vp_auth w)) = Some r \<and> o_status r \<in> set ALL_LIVE_STATUSES
           \<and> dialNumber r (callee d) (vp_auth w) = Some m
           \<and> buildBridgeTwiml env i (callee d) (vp_auth w) =
               twiml (bridge_copy (callee d))
                 (''  <Dial callerId='' @ [CHR 0x22] @ (case ve_voiceFrom env of Some v \<Rightarrow> v | None \<Rightarrow> []) @ [CHR 0x22]
                  @ '' timeout='' @ [CHR 0x22] @ ''30'' @ [CHR 0x22] @ '' timeLimit='' @ [CHR 0x22] @ ''170'' @ [CHR 0x22] @ ''>''
                  @ ''    <Number>'' @ normalizePhone m @ ''</Number>'' @ ''  </Dial>'')))"
proof -
  have "buildBridgeTwiml env i (callee d) (vp_auth w) \<in> {hangupTwiml no_longer_active, hangupTwiml number_unavailable}
      \<or> (\<exists>r m. order_by_id i (a_world (vp_auth w)) = Some r \<and> o_status r \<in> set ALL_LIVE_STATUSES
           \<and> dialNumber r (callee d) (vp_auth w) = Some m
           \<and> buildBridgeTwiml env i (callee d) (vp_auth w) = dialTwiml env (bridge_copy (callee d)) m)"
    by (cases "order_by_id i (a_world (vp_auth w))"; cases "dialNumber (the (order_by_id i (a_world (vp_auth w)))) (callee d) (vp_auth w)")
      (auto simp: buildBridgeTwiml_def)
  moreover have "buildBridgeTwiml env i (callee d) (renumber_own u n (vp_auth w)) = buildBridgeTwiml env i (callee d) (vp_auth w)"
    by (rule bridge_masks) (rule assms)
  ultimately show ?thesis
    using start_masks [where d = d and env = env and i = i and u = u and w = w and n = n] by (simp add: dialTwiml_def)
qed

theorem voice_call_masks_numbers_witness:
  "fst (start_call Consumer_To_Rider demo_voice_env ''O 1'' ''U''
      ((demo_voice OS_PICKED_UP)\<lparr>vp_auth := renumber_others ''U'' ''600'' (vp_auth (demo_voice OS_PICKED_UP))\<rparr>)) = Inr ''CA1''
   \<and> buildBridgeTwiml demo_voice_env ''O 1'' To_Rider (renumber_own ''U'' ''600'' (vp_auth (demo_voice OS_PICKED_UP)))
     = buildBridgeTwiml demo_voice_env ''O 1'' To_Rider (vp_auth (demo_voice OS_PICKED_UP))"
proof -
  have "called_user (callee Consumer_To_Rider) r (vp_auth (demo_voice OS_PICKED_UP)) \<noteq> Some ''U''"
    if "order_by_id ''O 1'' (a_world (vp_auth (demo_voice OS_PICKED_UP))) = Some r" for r
    using that by (auto simp: demo_voice_def order_by_id_def demo_world_def demo_auth_def split: option.splits)
  note masks = voice_call_masks_numbers [OF this, where env = demo_voice_env and n = "''600''"]
  have "fst (start_call Consumer_To_Rider demo_voice_env ''O 1'' ''U'' (demo_voice OS_PICKED_UP)) = Inr ''CA1''" by code_simp
  with masks show ?thesis by simp
qed

text \<open>
  What the bridge tells: in production only a signed request is answered, and the answer is a
  hang-up or the dialling of one party of an order that is live at that moment.
\<close>

theorem bridge_reveals_one_live_party:
  assumes "bridge env valid_sig signature query a = Inr s" and "ve_production env"
  shows "(\<exists>token sig. ve_authToken env = Some token \<and> signature = Some sig
            \<and> valid_sig token sig (ve_appUrl env @ bridge_path @ ''?'' @ query))
    \<and> (s \<in> {hangupTwiml no_longer_active, hangupTwiml number_unavailable}
       \<or> (\<exists>i t r n. query_param ''orderId'' query = Some i \<and> order_by_id i (a_world a) = Some r
            \<and> o_status r \<in> set ALL_LIVE_STATUSES \<and> dialNumber r t a = Some n
            \<and> s = dialTwiml env (bridge_copy t) n))"
proof
  show "\<exists>token sig. ve_authToken env = Some token \<and> signature = Some sig
            \<and> valid_sig token sig (ve_appUrl env @ bridge_path @ ''?'' @ query)"
    using assms by (cases "ve_authToken env"; cases signature)
      (auto simp: bridge_def twilioWebhookGuard_def split: if_splits sum.splits option.splits)
  obtain i t where i: "query_param ''orderId'' query = Some i" and s: "s = buildBridgeTwiml env i t a"
    using assms(1) by (auto simp: bridge_def split: sum.splits option.splits)
  have "s \<in> {hangupTwiml no_longer_active, hangupTwiml number_unavailable}
      \<or> (\<exists>r n. order_by_id i (a_world a) = Some r \<and> o_status r \<in> set ALL_LIVE_STATUSES
            \<and> dialNumber r t a = Some n \<and> s = dialTwiml env (bridge_copy t) n)"
  proof (cases "order_by_id i (a_world a)")
    case (Some r)
    then show ?thesis unfolding s by (cases "dialNumber r t a") (auto simp: buildBridgeTwiml_def)
  qed (simp add: s buildBridgeTwiml_def)
  then show "s \<in> {hangupTwiml no_longer_active, hangupTwiml number_unavailable}
       \<or> (\<exists>i t r n. query_param ''orderId'' query = Some i \<and> order_by_id i (a_world a) = Some r
            \<and> o_status r \<in> set ALL_LIVE_STATUSES \<and> dialNumber r t a = Some n
            \<and> s = dialTwiml env (bridge_copy t) n)"
    using i by blast
qed

end
