(* ===== verification/Notifications.thy ===== *)
theory Notifications
  imports Sessions
begin

text \<open>
  Notifications: the push subscriptions and their fan-out (\<open>notifications/push-subscriptions.service.ts\<close>,
  \<open>web-push.service.ts\<close>), and the order notifications, enqueued from the domain events
  (\<open>orders/order-notifications.service.ts\<close>) and delivered by the worker
  (\<open>order-notifications.processor.ts\<close>).  The push services, Twilio and the mail provider are the
  record \<open>channels\<close>: what each answers to one message.  \<open>n_pushed\<close>, \<open>n_whatsapp\<close> and \<open>n_mail\<close> are the
  messages they accepted.  The queue is BullMQ's and a parameter: \<open>add\<close> is what \<open>queue.add\<close> does to it,
  or the error it answers with.  Text is UTF-8 bytes.
\<close>

section \<open>State\<close>

record push_subscription =
  ps_id :: uuid
  ps_userId :: uuid
  ps_deviceFingerprint :: string
  ps_endpoint :: string
  ps_p256dh :: string
  ps_auth :: string
  ps_createdAt :: time
  ps_lastUsedAt :: time

record push_payload =
  pp_title :: string
  pp_body :: string
  pp_data :: "(string \<times> string) list"

record mail =
  ml_to :: string
  ml_subject :: string
  ml_html :: string
  ml_text :: string

datatype push_result = Fulfilled | Rejected "nat option"

record channels =
  ch_vapid :: bool
  ch_push :: "push_subscription \<Rightarrow> push_payload \<Rightarrow> push_result"
  ch_whatsapp :: "string \<Rightarrow> string \<Rightarrow> http_error + string"
  ch_mail :: "mail \<Rightarrow> http_error + string"

record notify_state =
  n_auth :: auth_world
  n_subs :: "push_subscription list"
  n_pushed :: "(string \<times> push_payload) list"
  n_whatsapp :: "(string \<times> string) list"
  n_mail :: "mail list"

section \<open>Push subscriptions\<close>

record subscribe_push =
  sp_endpoint :: string
  sp_p256dh :: string
  sp_auth :: string
  sp_deviceFingerprint :: string

definition same_browser :: "uuid \<Rightarrow> string \<Rightarrow> push_subscription \<Rightarrow> bool" where
  "same_browser userId fp s = (ps_userId s = userId \<and> ps_deviceFingerprint s = fp)"

definition upsert_push ::
  "uuid \<Rightarrow> uuid \<Rightarrow> subscribe_push \<Rightarrow> time \<Rightarrow> push_subscription list \<Rightarrow> uuid \<times> push_subscription list" where
  "upsert_push newId userId dto now subs =
     (case find_row (same_browser userId (sp_deviceFingerprint dto)) subs of
        Some s \<Rightarrow> (ps_id s, upd_where (same_browser userId (sp_deviceFingerprint dto))
                     (\<lambda>s. s\<lparr>ps_endpoint := sp_endpoint dto, ps_p256dh := sp_p256dh dto, ps_auth := sp_auth dto,
                            ps_lastUsedAt := now\<rparr>) subs)
      | None \<Rightarrow> (newId, subs @ [\<lparr>ps_id = newId, ps_userId = userId, ps_deviceFingerprint = sp_deviceFingerprint dto,
                                ps_endpoint = sp_endpoint dto, ps_p256dh = sp_p256dh dto, ps_auth = sp_auth dto,
                                ps_createdAt = now, ps_lastUsedAt = now\<rparr>]))"

definition deactivateByEndpoint :: "uuid \<Rightarrow> string \<Rightarrow> push_subscription list \<Rightarrow> push_subscription list" where
  "deactivateByEndpoint userId endpoint subs = filter (\<lambda>s. \<not> (ps_userId s = userId \<and> ps_endpoint s = endpoint)) subs"

definition deactivateById :: "uuid \<Rightarrow> push_subscription list \<Rightarrow> push_subscription list" where
  "deactivateById i subs = filter (\<lambda>s. ps_id s \<noteq> i) subs"

definition listForUser :: "uuid \<Rightarrow> push_subscription list \<Rightarrow> push_subscription list" where
  "listForUser userId subs = filter (\<lambda>s. ps_userId s = userId) subs"

section \<open>Web push\<close>

fun retired :: "push_result \<Rightarrow> bool" where
  "retired (Rejected (Some code)) = (code = 404 \<or> code = 410)"
| "retired _ = False"

text \<open>The pass over the settled results: it may run on a table that changed since the list was read.\<close>

definition settle_results ::
  "(push_subscription \<times> push_result) list \<Rightarrow> push_subscription list \<Rightarrow> nat \<times> nat \<times> push_subscription list" where
  "settle_results results subs =
     (count_where (\<lambda>(s, r). r = Fulfilled) results, count_where (\<lambda>(s, r). retired r) results,
      fold (\<lambda>(s, r) t. if retired r then deactivateById (ps_id s) t else t) results subs)"

definition sendToUser :: "channels \<Rightarrow> uuid \<Rightarrow> push_payload \<Rightarrow> notify_state \<Rightarrow> (nat \<times> nat) \<times> notify_state" where
  "sendToUser ch userId payload w =
     (if \<not> ch_vapid ch then ((0, 0), w)
      else let subscriptions = listForUser userId (n_subs w)
           in if subscriptions = [] then ((0, 0), w)
              else let results = List.map (\<lambda>s. (s, ch_push ch s payload)) subscriptions;
                       (sent, deactivated, subs') = settle_results results (n_subs w)
                   in ((sent, deactivated),
                       w\<lparr>n_subs := subs',
                         n_pushed := n_pushed w
                           @ List.map (\<lambda>(s, r). (ps_endpoint s, payload)) (filter (\<lambda>(s, r). r = Fulfilled) results)\<rparr>))"

section \<open>Texts\<close>

definition eacute :: string where "eacute = [CHR 0xC3, CHR 0xA9]"
definition middle_dot :: string where "middle_dot = [CHR 0xC2, CHR 0xB7]"
definition pot_emoji :: string where "pot_emoji = [CHR 0xF0, CHR 0x9F, CHR 0x8D, CHR 0xB2]"
definition wave_emoji :: string where "wave_emoji = [CHR 0xF0, CHR 0x9F, CHR 0x91, CHR 0x8B]"
definition em_dash :: string where "em_dash = [CHR 0xE2, CHR 0x80, CHR 0x94]"
definition newline :: string where "newline = [CHR 0x0A]"
definition apostrophe :: string where "apostrophe = [CHR 0x27]"

text \<open>\<open>toLocaleString('fr-FR')\<close>: groups of three digits, separated by a narrow no-break space.\<close>

fun group_digits :: "string \<Rightarrow> string" where
  "group_digits (a # b # c # d # rest) = a # b # c # [CHR 0xAF, CHR 0x80, CHR 0xE2] @ group_digits (d # rest)"
| "group_digits short = short"

definition fr_number :: "int \<Rightarrow> string" where
  "fr_number i =
     (if i < 0 then ''-'' else []) @ rev (group_digits (rev (show_nat (nat (if i < 0 then - i else i)))))"

definition humanizeReason :: "string \<Rightarrow> string" where
  "humanizeReason reason =
     (let parts = split_on (CHR '':'') reason;
          code = trim (hd parts);
          note_text = trim (concat (case tl parts of [] \<Rightarrow> [] | p # ps \<Rightarrow> p # List.map (\<lambda>q. CHR '':'' # q) ps));
          label =
            (if code = ''ITEM_OUT_OF_STOCK'' then ''Le plat command'' @ eacute @ '' est '' @ eacute @ ''puis'' @ eacute @ ''.''
             else if code = ''CLOSED'' then ''Le restaurant est actuellement ferm'' @ eacute @ ''.''
             else if code = ''TOO_MANY_ORDERS'' then ''Le restaurant est trop charg'' @ eacute @ '' pour le moment.''
             else if code = ''POWER_OUTAGE'' then ''Le restaurant fait face '' @ [CHR 0xC3, CHR 0xA0] @ '' une coupure de courant.''
             else if code = ''OTHER'' then ''Autre motif (voir d'' @ eacute @ ''tail dans l'' @ apostrophe @ ''app).''
             else if code = ''EXPIRED_NO_VENDOR_RESPONSE''
               then ''Le restaurant n'' @ apostrophe @ ''a pas r'' @ eacute @ ''pondu dans le temps imparti '' @ em_dash
                    @ '' il '' @ eacute @ ''tait probablement tr'' @ [CHR 0xC3, CHR 0xA8] @ ''s occup'' @ eacute @ ''.''
             else ''La commande a '' @ eacute @ ''t'' @ eacute @ '' refus'' @ eacute @ ''e.'')
      in if note_text = [] then label else label @ '' ('' @ note_text @ '')'')"

section \<open>The worker\<close>

datatype notification_data =
    Vendor_New_Order uuid
  | Consumer_Order_Refused uuid string
  | Other_Job string

definition order_items :: "uuid \<Rightarrow> world \<Rightarrow> order_item list" where
  "order_items i w = filter (\<lambda>l. oi_orderId l = i) (w_orderItems w)"

definition notification_line :: "order \<Rightarrow> world \<Rightarrow> string" where
  "notification_line r w =
     (let itemCount = sum_list (List.map oi_quantity (order_items (o_id r) w));
          paymentLabel = ''Pay'' @ eacute @ (if o_paymentMethod r = ORANGE_MONEY then '' via Orange Money'' else '' via MTN MoMo'')
      in show_int itemCount @ '' plat'' @ (if 1 < itemCount then ''s'' else []) @ '' '' @ middle_dot @ '' ''
         @ fr_number (o_totalXAF r) @ '' FCFA '' @ middle_dot @ '' '' @ paymentLabel)"

definition new_order_title :: "order \<Rightarrow> string" where
  "new_order_title r = pot_emoji @ '' Nouvelle commande '' @ o_code r"

definition new_order_push :: "order \<Rightarrow> world \<Rightarrow> push_payload" where
  "new_order_push r w =
     \<lparr>pp_title = new_order_title r, pp_body = notification_line r w,
      pp_data = [(''kind'', ''ORDER_CREATED''), (''orderId'', o_id r),
                 (''deepLink'', ''/vendor/commande/'' @ o_id r)]\<rparr>"

definition new_order_whatsapp :: "order \<Rightarrow> world \<Rightarrow> string" where
  "new_order_whatsapp r w =
     new_order_title r @ newline @ notification_line r w @ newline @ newline
     @ ''Tu as 60 secondes pour accepter :'' @ newline @ ''tchopnow.app/vendor/commande/'' @ o_id r"

definition notify_vendor_of :: "order \<Rightarrow> notify_state \<Rightarrow> vendor option" where
  "notify_vendor_of r w = find_row (\<lambda>v. v_id v = o_vendorId r) (w_vendors (a_world (n_auth w)))"

definition send_whatsapp :: "channels \<Rightarrow> string \<Rightarrow> string \<Rightarrow> notify_state \<Rightarrow> (unit, notify_state) outcome" where
  "send_whatsapp ch to body w =
     (case ch_whatsapp ch to body of
        Inl e \<Rightarrow> (Inl e, w)
      | Inr sid \<Rightarrow> (Inr (), w\<lparr>n_whatsapp := n_whatsapp w @ [(to, body)]\<rparr>))"

definition handleVendorNewOrder :: "channels \<Rightarrow> uuid \<Rightarrow> notify_state \<Rightarrow> (unit, notify_state) outcome" where
  "handleVendorNewOrder ch orderId w =
     (case order_by_id orderId (a_world (n_auth w)) of
        None \<Rightarrow> (Inr (), w)
      | Some r \<Rightarrow>
          (case notify_vendor_of r w of
             None \<Rightarrow> (Inl (PrismaError ''vendor required''), w)
           | Some vendor \<Rightarrow>
               (let ((sent, deactivated), w1) = sendToUser ch (v_userId vendor) (new_order_push r (a_world (n_auth w))) w
                in if 0 < sent then (Inr (), w1)
                   else if v_whatsappPhone vendor = [] then (Inr (), w1)
                   else send_whatsapp ch (v_whatsappPhone vendor) (new_order_whatsapp r (a_world (n_auth w))) w1)))"

definition refused_whatsapp :: "order \<Rightarrow> vendor \<Rightarrow> string \<Rightarrow> string" where
  "refused_whatsapp r vendor reason =
     ''Bonjour '' @ wave_emoji @ '' D'' @ eacute @ ''sol'' @ eacute @ '', '' @ v_name vendor @ '' n'' @ apostrophe
     @ ''a pas pu prendre ta commande '' @ o_code r @ ''.'' @ newline @ humanizeReason reason @ newline
     @ ''Aucun montant d'' @ eacute @ ''bit'' @ eacute @ ''. Tu peux r'' @ eacute
     @ ''essayer avec un autre restaurant : tchopnow.app/restaurants '' @ pot_emoji"

definition handleConsumerOrderRefused :: "channels \<Rightarrow> uuid \<Rightarrow> string \<Rightarrow> notify_state \<Rightarrow> (unit, notify_state) outcome" where
  "handleConsumerOrderRefused ch orderId reason w =
     (case order_by_id orderId (a_world (n_auth w)) of
        None \<Rightarrow> (Inr (), w)
      | Some r \<Rightarrow>
          (case (notify_vendor_of r w, find_row (\<lambda>u. us_id u = o_userId r) (a_users (n_auth w))) of
             (Some vendor, Some user) \<Rightarrow>
               if falsy (us_phone user) then (Inr (), w)
               else send_whatsapp ch (the (us_phone user)) (refused_whatsapp r vendor reason) w
           | _ \<Rightarrow> (Inl (PrismaError ''relation required''), w)))"

fun process_notification :: "channels \<Rightarrow> notification_data \<Rightarrow> notify_state \<Rightarrow> (unit, notify_state) outcome" where
  "process_notification ch (Vendor_New_Order i) w = handleVendorNewOrder ch i w"
| "process_notification ch (Consumer_Order_Refused i reason) w = handleConsumerOrderRefused ch i reason w"
| "process_notification ch (Other_Job n) w = (Inr (), w)"

section \<open>The queue\<close>

record job_opts =
  jo_attempts :: nat
  jo_backoff :: "string \<times> nat"   \<comment> \<open>type, delay in milliseconds\<close>
  jo_removeOnComplete :: bool
  jo_removeOnFail :: nat

record notification_job =
  nj_id :: string
  nj_data :: notification_data
  nj_opts :: job_opts

definition DEFAULT_JOB_OPTS :: job_opts where
  "DEFAULT_JOB_OPTS = \<lparr>jo_attempts = 3, jo_backoff = (''exponential'', 5000), jo_removeOnComplete = True, jo_removeOnFail = 1000\<rparr>"

text \<open>A failing \<open>add\<close> is logged and swallowed.\<close>

definition enqueue_notification ::
  "(notification_job \<Rightarrow> 'q \<Rightarrow> http_error + 'q) \<Rightarrow> string \<Rightarrow> notification_data \<Rightarrow> 'q \<Rightarrow> 'q" where
  "enqueue_notification add i d q =
     (case add \<lparr>nj_id = i, nj_data = d, nj_opts = DEFAULT_JOB_OPTS\<rparr> q of Inl _ \<Rightarrow> q | Inr q' \<Rightarrow> q')"

definition onOrderCreated :: "(notification_job \<Rightarrow> 'q \<Rightarrow> http_error + 'q) \<Rightarrow> uuid \<Rightarrow> 'q \<Rightarrow> 'q" where
  "onOrderCreated add orderId q = enqueue_notification add (''vno:'' @ orderId) (Vendor_New_Order orderId) q"

definition onOrderRefused :: "(notification_job \<Rightarrow> 'q \<Rightarrow> http_error + 'q) \<Rightarrow> uuid \<Rightarrow> string \<Rightarrow> 'q \<Rightarrow> 'q" where
  "onOrderRefused add orderId reason q =
     enqueue_notification add (''cor:'' @ orderId) (Consumer_Order_Refused orderId reason) q"

fun on_domain_event :: "(notification_job \<Rightarrow> 'q \<Rightarrow> http_error + 'q) \<Rightarrow> domain_event \<Rightarrow> 'q \<Rightarrow> 'q" where
  "on_domain_event add (ORDER_CREATED i) q = onOrderCreated add i q"
| "on_domain_event add (ORDER_REFUSED i reason) q = onOrderRefused add i reason q"
| "on_domain_event add _ q = q"

section \<open>Subscriptions: lemmas\<close>

definition browser_of :: "push_subscription \<Rightarrow> uuid \<times> string" where
  "browser_of s = (ps_userId s, ps_deviceFingerprint s)"

definition subs_ok :: "push_subscription list \<Rightarrow> bool" where
  "subs_ok subs = (distinct (List.map ps_id subs) \<and> distinct (List.map browser_of subs))"

lemma same_browser_of: "same_browser u fp s \<longleftrightarrow> browser_of s = (u, fp)"
  by (simp add: same_browser_def browser_of_def)

lemma upsert_push_spec:
  assumes "subs_ok subs" and "newId \<notin> ps_id ` set subs" and "upsert_push newId u dto now subs = (i, subs')"
  shows "subs_ok subs'"
    and "\<exists>s. filter (same_browser u (sp_deviceFingerprint dto)) subs' = [s] \<and> ps_id s = i
           \<and> ps_endpoint s = sp_endpoint dto \<and> ps_p256dh s = sp_p256dh dto \<and> ps_auth s = sp_auth dto \<and> ps_lastUsedAt s = now"
    and "filter (\<lambda>s. \<not> same_browser u (sp_deviceFingerprint dto) s) subs' =
         filter (\<lambda>s. \<not> same_browser u (sp_deviceFingerprint dto) s) subs"
proof -
  let ?p = "same_browser u (sp_deviceFingerprint dto)"
  let ?f = "\<lambda>s. s\<lparr>ps_endpoint := sp_endpoint dto, ps_p256dh := sp_p256dh dto, ps_auth := sp_auth dto, ps_lastUsedAt := now\<rparr>"
  have keep: "?p (?f s) = ?p s" "ps_id (?f s) = ps_id s" "browser_of (?f s) = browser_of s" for s
    by (simp_all add: same_browser_def browser_of_def)
  have "subs_ok subs' \<and> (\<exists>s. filter ?p subs' = [s] \<and> ps_id s = i
           \<and> ps_endpoint s = sp_endpoint dto \<and> ps_p256dh s = sp_p256dh dto \<and> ps_auth s = sp_auth dto \<and> ps_lastUsedAt s = now)
      \<and> filter (\<lambda>s. \<not> ?p s) subs' = filter (\<lambda>s. \<not> ?p s) subs"
  proof (cases "find_row ?p subs")
    case None
    then have none: "\<forall>s \<in> set subs. \<not> ?p s" by (simp add: find_row_None)
    have "subs' = subs @ [\<lparr>ps_id = newId, ps_userId = u, ps_deviceFingerprint = sp_deviceFingerprint dto,
            ps_endpoint = sp_endpoint dto, ps_p256dh = sp_p256dh dto, ps_auth = sp_auth dto,
            ps_createdAt = now, ps_lastUsedAt = now\<rparr>]" "i = newId"
      using assms(3) None by (auto simp: upsert_push_def)
    then show ?thesis
      using assms(1,2) none by (auto simp: subs_ok_def same_browser_of browser_of_def filter_False)
  next
    case (Some s)
    have s: "s \<in> set subs" "?p s" using find_row_Some [OF Some] by auto
    have subs': "subs' = upd_where ?p ?f subs" "i = ps_id s" using assms(3) Some by (auto simp: upsert_push_def)
    have one: "filter ?p subs = [s]"
      using filter_key_single [of browser_of subs s] assms(1) s by (simp add: subs_ok_def same_browser_of [abs_def])
    have "filter ?p subs' = [?f s]" unfolding subs' using keep(1) s(2) by (simp add: filter_upd_where one)
    moreover have "filter (\<lambda>s. \<not> ?p s) subs' = filter (\<lambda>s. \<not> ?p s) subs"
    proof -
      have "filter (\<lambda>s. \<not> ?p s) subs' = upd_where ?p ?f (filter (\<lambda>s. \<not> ?p s) subs)"
        unfolding subs' by (rule filter_upd_where) (simp add: keep(1))
      also have "\<dots> = filter (\<lambda>s. \<not> ?p s) subs" by (rule upd_where_none) simp
      finally show ?thesis .
    qed
    moreover have "subs_ok subs'" unfolding subs' subs_ok_def
      using assms(1) keep by (simp add: map_key_upd_where subs_ok_def)
    ultimately show ?thesis using subs'(2) keep(2) by auto
  qed
  then show "subs_ok subs'" "\<exists>s. filter ?p subs' = [s] \<and> ps_id s = i
           \<and> ps_endpoint s = sp_endpoint dto \<and> ps_p256dh s = sp_p256dh dto \<and> ps_auth s = sp_auth dto \<and> ps_lastUsedAt s = now"
      "filter (\<lambda>s. \<not> ?p s) subs' = filter (\<lambda>s. \<not> ?p s) subs"
    by blast+
qed

section \<open>Fan-out: lemmas\<close>

lemma fold_deactivate:
  "fold (\<lambda>(s, r) t. if retired r then deactivateById (ps_id s) t else t) results subs =
     filter (\<lambda>t. \<forall>(s, r) \<in> set results. retired r \<longrightarrow> ps_id s \<noteq> ps_id t) subs"
proof (induction results arbitrary: subs)
  case (Cons x results)
  obtain s r where x: "x = (s, r)" by (cases x)
  have "filter (\<lambda>t. \<forall>(s, r) \<in> set results. retired r \<longrightarrow> ps_id s \<noteq> ps_id t)
          (if retired r then deactivateById (ps_id s) subs else subs) =
        filter (\<lambda>t. \<forall>(s, r) \<in> set (x # results). retired r \<longrightarrow> ps_id s \<noteq> ps_id t) subs"
    unfolding deactivateById_def x by (cases "retired r") (auto simp: filter_filter intro: filter_cong)
  then show ?case using Cons.IH x by simp
qed simp

lemma sendToUser_spec:
  assumes "subs_ok (n_subs w)" and "ch_vapid ch"
  shows "fst (fst (sendToUser ch u payload w)) = count_where (\<lambda>s. ch_push ch s payload = Fulfilled) (listForUser u (n_subs w))"
    and "n_pushed (snd (sendToUser ch u payload w)) =
         n_pushed w @ List.map (\<lambda>s. (ps_endpoint s, payload))
           (filter (\<lambda>s. ch_push ch s payload = Fulfilled) (listForUser u (n_subs w)))"
    and "n_subs (snd (sendToUser ch u payload w)) =
         filter (\<lambda>s. \<not> (ps_userId s = u \<and> retired (ch_push ch s payload))) (n_subs w)"
    and "n_whatsapp (snd (sendToUser ch u payload w)) = n_whatsapp w"
    and "n_auth (snd (sendToUser ch u payload w)) = n_auth w"
    and "n_mail (snd (sendToUser ch u payload w)) = n_mail w"
proof -
  have count: "count_where (\<lambda>(s, r). r = Fulfilled) (List.map (\<lambda>s. (s, g s)) xs) = count_where (\<lambda>s. g s = Fulfilled) xs"
    for g :: "push_subscription \<Rightarrow> push_result" and xs
    by (induction xs) auto
  have pushed: "List.map (\<lambda>(s, r). (ps_endpoint s, payload)) (filter (\<lambda>(s, r). r = Fulfilled) (List.map (\<lambda>s. (s, g s)) xs))
      = List.map (\<lambda>s. (ps_endpoint s, payload)) (filter (\<lambda>s. g s = Fulfilled) xs)"
    for g :: "push_subscription \<Rightarrow> push_result" and xs
    by (induction xs) auto
  have same: "s = t" if "s \<in> set (n_subs w)" "t \<in> set (n_subs w)" "ps_id s = ps_id t" for s t
    using assms(1) that by (auto simp: subs_ok_def distinct_map dest: inj_onD)
  have clean: "filter (\<lambda>t. \<forall>x \<in> set (listForUser u (n_subs w)). retired (ch_push ch x payload) \<longrightarrow> ps_id x \<noteq> ps_id t) (n_subs w)
      = filter (\<lambda>s. ps_userId s = u \<longrightarrow> \<not> retired (ch_push ch s payload)) (n_subs w)"
    by (rule filter_cong) (auto simp: listForUser_def dest: same)
  have none: "filter (\<lambda>s. \<not> (ps_userId s = u \<and> retired (ch_push ch s payload))) (n_subs w) = n_subs w"
    if "listForUser u (n_subs w) = []"
    using that by (auto simp: listForUser_def filter_empty_conv intro: filter_True)
  show "fst (fst (sendToUser ch u payload w)) = count_where (\<lambda>s. ch_push ch s payload = Fulfilled) (listForUser u (n_subs w))"
    "n_pushed (snd (sendToUser ch u payload w)) =
         n_pushed w @ List.map (\<lambda>s. (ps_endpoint s, payload))
           (filter (\<lambda>s. ch_push ch s payload = Fulfilled) (listForUser u (n_subs w)))"
    using assms(2) by (auto simp: sendToUser_def Let_def settle_results_def count pushed)
  show "n_subs (snd (sendToUser ch u payload w)) =
         filter (\<lambda>s. \<not> (ps_userId s = u \<and> retired (ch_push ch s payload))) (n_subs w)"
    using assms(2) none by (auto simp: sendToUser_def Let_def settle_results_def fold_deactivate clean)
  show "n_whatsapp (snd (sendToUser ch u payload w)) = n_whatsapp w" "n_auth (snd (sendToUser ch u payload w)) = n_auth w"
    "n_mail (snd (sendToUser ch u payload w)) = n_mail w"
    by (auto simp: sendToUser_def Let_def settle_results_def)
qed

section \<open>One attempt of a job\<close>

lemma no_push_unconfigured: "\<not> ch_vapid ch \<Longrightarrow> sendToUser ch u payload w = ((0, 0), w)"
  by (simp add: sendToUser_def)

lemma sendToUser_frame [simp]:
  "n_whatsapp (snd (sendToUser ch u payload w)) = n_whatsapp w" "n_auth (snd (sendToUser ch u payload w)) = n_auth w"
  "n_mail (snd (sendToUser ch u payload w)) = n_mail w"
  by (auto simp: sendToUser_def Let_def settle_results_def)

text \<open>What a push fan-out to a user delivers: the subscriptions of that user that the push service accepts.\<close>

definition reached_by_push :: "channels \<Rightarrow> uuid \<Rightarrow> push_payload \<Rightarrow> notify_state \<Rightarrow> push_subscription list" where
  "reached_by_push ch u payload w =
     (if ch_vapid ch then filter (\<lambda>s. ps_userId s = u \<and> ch_push ch s payload = Fulfilled) (n_subs w) else [])"

lemma sendToUser_reaches:
  "n_pushed (snd (sendToUser ch u payload w)) = n_pushed w @ List.map (\<lambda>s. (ps_endpoint s, payload)) (reached_by_push ch u payload w)"
  "fst (fst (sendToUser ch u payload w)) = length (reached_by_push ch u payload w)"
proof -
  have pushed: "List.map (\<lambda>(s, r). (ps_endpoint s, payload)) (filter (\<lambda>(s, r). r = Fulfilled) (List.map (\<lambda>s. (s, g s)) xs))
      = List.map (\<lambda>s. (ps_endpoint s, payload)) (filter (\<lambda>s. g s = Fulfilled) xs)"
    "count_where (\<lambda>(s, r). r = Fulfilled) (List.map (\<lambda>s. (s, g s)) xs) = length (filter (\<lambda>s. g s = Fulfilled) xs)"
    for g :: "push_subscription \<Rightarrow> push_result" and xs
    by (induction xs) (auto simp: count_where_def)
  have "filter (\<lambda>s. ch_push ch s payload = Fulfilled) (listForUser u (n_subs w)) =
      filter (\<lambda>s. ps_userId s = u \<and> ch_push ch s payload = Fulfilled) (n_subs w)"
    by (simp add: listForUser_def conj_commute)
  then show "n_pushed (snd (sendToUser ch u payload w)) = n_pushed w @ List.map (\<lambda>s. (ps_endpoint s, payload)) (reached_by_push ch u payload w)"
    "fst (fst (sendToUser ch u payload w)) = length (reached_by_push ch u payload w)"
    by (auto simp: sendToUser_def Let_def settle_results_def pushed reached_by_push_def)
qed

text \<open>
  C33.  One attempt of the new-order job, case by case.  The push goes to the subscriptions of the
  vendor's own account that the push service accepts, and says that order.  When it reached one, the
  attempt succeeds and no text is sent; when it reached none, one text about that order goes to the
  vendor's own number if there is one, and the attempt fails exactly when that text fails.  So the
  vendor hears of the order on at most one channel, an attempt that fails reached nobody, and nobody
  but the vendor of the order is written to.  A job for an order that is gone does nothing.
\<close>

theorem vendor_reached_on_one_channel:
  assumes "handleVendorNewOrder ch i w = (res, w')"
  shows "n_auth w' = n_auth w \<and> n_mail w' = n_mail w
    \<and> (case order_by_id i (a_world (n_auth w)) of
         None \<Rightarrow> res = Inr () \<and> w' = w
       | Some r \<Rightarrow>
           (case notify_vendor_of r w of
              None \<Rightarrow> failed (res, w') \<and> w' = w
            | Some v \<Rightarrow>
                n_pushed w' = n_pushed w @ List.map (\<lambda>s. (ps_endpoint s, new_order_push r (a_world (n_auth w))))
                  (reached_by_push ch (v_userId v) (new_order_push r (a_world (n_auth w))) w)
                \<and> (if reached_by_push ch (v_userId v) (new_order_push r (a_world (n_auth w))) w \<noteq> [] \<or> v_whatsappPhone v = []
                   then res = Inr () \<and> n_whatsapp w' = n_whatsapp w
                   else case ch_whatsapp ch (v_whatsappPhone v) (new_order_whatsapp r (a_world (n_auth w))) of
                          Inl e \<Rightarrow> res = Inl e \<and> n_whatsapp w' = n_whatsapp w
                        | Inr _ \<Rightarrow> res = Inr ()
                            \<and> n_whatsapp w' = n_whatsapp w @ [(v_whatsappPhone v, new_order_whatsapp r (a_world (n_auth w)))])))"
proof (cases "order_by_id i (a_world (n_auth w))")
  case None
  then show ?thesis using assms by (auto simp: handleVendorNewOrder_def)
next
  case (Some r)
  note r = this
  show ?thesis
  proof (cases "notify_vendor_of r w")
    case None
    then show ?thesis using assms r by (auto simp: handleVendorNewOrder_def)
  next
    case (Some v)
    let ?push = "sendToUser ch (v_userId v) (new_order_push r (a_world (n_auth w))) w"
    have h: "(res, w') = (if 0 < fst (fst ?push) \<or> v_whatsappPhone v = [] then (Inr (), snd ?push)
        else send_whatsapp ch (v_whatsappPhone v) (new_order_whatsapp r (a_world (n_auth w))) (snd ?push))"
      using assms [symmetric] r Some by (simp add: handleVendorNewOrder_def split_beta Let_def)
    show ?thesis
      using h r Some by (simp add: sendToUser_reaches send_whatsapp_def split: if_splits sum.splits)
  qed
qed

definition demo_channels :: "push_result \<Rightarrow> http_error + string \<Rightarrow> channels" where
  "demo_channels p t = \<lparr>ch_vapid = True, ch_push = (\<lambda>s m. p), ch_whatsapp = (\<lambda>to body. t), ch_mail = (\<lambda>m. Inr ''M'')\<rparr>"

definition demo_notify :: notify_state where
  "demo_notify = \<lparr>n_auth = (demo_auth [] [] [])\<lparr>a_world := demo_world [demo_order OS_CONFIRMED PS_PAID] [demo_line ''L'' None]\<rparr>,
     n_subs = [\<lparr>ps_id = ''S'', ps_userId = ''U'', ps_deviceFingerprint = ''F'', ps_endpoint = ''E'', ps_p256dh = ''P'',
                ps_auth = ''A'', ps_createdAt = 0, ps_lastUsedAt = 0\<rparr>],
     n_pushed = [], n_whatsapp = [], n_mail = []\<rparr>"

lemmas demo_delivery = handleVendorNewOrder_def demo_notify_def demo_channels_def demo_auth_def demo_world_def
  demo_order_def demo_vendor_def order_by_id_def notify_vendor_of_def sendToUser_def listForUser_def
  settle_results_def deactivateById_def send_whatsapp_def Let_def

theorem vendor_reached_on_one_channel_witness:
  "(let r = handleVendorNewOrder (demo_channels (Rejected (Some 410)) (Inr ''SM'')) ''O'' demo_notify
    in fst r = Inr () \<and> n_subs (snd r) = [] \<and> n_pushed (snd r) = []
       \<and> List.map fst (n_whatsapp (snd r)) = [''+237670000001''])
   \<and> (let r = handleVendorNewOrder (demo_channels Fulfilled (Inr ''SM'')) ''O'' demo_notify
      in List.map fst (n_pushed (snd r)) = [''E''] \<and> n_whatsapp (snd r) = [])"
proof -
  let ?a = "handleVendorNewOrder (demo_channels (Rejected (Some 410)) (Inr ''SM'')) ''O'' demo_notify"
  let ?b = "handleVendorNewOrder (demo_channels Fulfilled (Inr ''SM'')) ''O'' demo_notify"
  let ?r = "demo_order OS_CONFIRMED PS_PAID"
  have f: "order_by_id ''O'' (a_world (n_auth demo_notify)) = Some ?r" "notify_vendor_of ?r demo_notify = Some demo_vendor"
    "v_userId demo_vendor = ''U''" "v_whatsappPhone demo_vendor = ''+237670000001''" "n_pushed demo_notify = []" "n_whatsapp demo_notify = []"
    by (simp_all add: demo_notify_def demo_auth_def demo_world_def demo_order_def demo_vendor_def order_by_id_def notify_vendor_of_def)
  have reach: "reached_by_push (demo_channels Fulfilled t) ''U'' p demo_notify = n_subs demo_notify"
    "reached_by_push (demo_channels (Rejected c) t) ''U'' p demo_notify = []" "n_subs demo_notify \<noteq> []"
    "List.map ps_endpoint (n_subs demo_notify) = [''E'']" for p t c
    by (simp_all add: reached_by_push_def demo_channels_def demo_notify_def)
  have answer: "ch_whatsapp (demo_channels q t) to body = t" for q t to body by (simp add: demo_channels_def)
  have subs: "n_subs (snd ?a) = []" by (simp add: demo_delivery)
  have "fst ?a = Inr () \<and> n_pushed (snd ?a) = [] \<and> List.map fst (n_whatsapp (snd ?a)) = [''+237670000001'']"
    using vendor_reached_on_one_channel [OF surjective_pairing [of ?a]] by (simp add: f reach answer)
  moreover have "List.map fst (n_pushed (snd ?b)) = [''E''] \<and> n_whatsapp (snd ?b) = []"
    using vendor_reached_on_one_channel [OF surjective_pairing [of ?b]] by (simp add: f reach answer comp_def)
  ultimately show ?thesis using subs by (simp add: Let_def)
qed

section \<open>What the texts and the ids really do\<close>

text \<open>\<open>refuseOrder\<close> emits the bare reason: the vendor's note, which the text could show, is not in it.\<close>

lemma humanizeReason_without_note:
  assumes "CHR '':'' \<notin> set reason"
  shows "CHR ''('' \<in> set (humanizeReason reason) \<longrightarrow> trim reason = ''OTHER''"
  using assms by (simp add: humanizeReason_def Let_def split_on_free trim_def eacute_def apostrophe_def em_dash_def)

text \<open>
  BullMQ's documented behaviour: an id that is in the queue is not added again, another one is.  The
  options ask it to remove a job that is done, which gives the id back: the same event then enqueues
  the notification once more.
\<close>

definition queue_documented :: "(notification_job \<Rightarrow> 'q \<Rightarrow> http_error + 'q) \<Rightarrow> ('q \<Rightarrow> string set) \<Rightarrow> bool" where
  "queue_documented add ids \<longleftrightarrow>
     (\<forall>j q q'. add j q = Inr q' \<longrightarrow> (if nj_id j \<in> ids q then q' = q else ids q' = insert (nj_id j) (ids q)))"

lemma queue_of_ids_documented:
  "queue_documented (\<lambda>j q. Inr (if nj_id j \<in> set q then q else nj_id j # q)) set"
  by (simp add: queue_documented_def)

lemma duplicate_event_collapses:
  assumes "queue_documented add ids" and "''vno:'' @ i \<in> ids q"
  shows "onOrderCreated add i q = q"
  using assms by (auto simp: queue_documented_def onOrderCreated_def enqueue_notification_def split: sum.split)

lemma completed_job_enqueued_again:
  assumes "queue_documented add ids" and "''vno:'' @ i \<notin> ids q"
    and "add \<lparr>nj_id = ''vno:'' @ i, nj_data = Vendor_New_Order i, nj_opts = DEFAULT_JOB_OPTS\<rparr> q = Inr q'"
  shows "onOrderCreated add i q = q' \<and> ids q' = insert (''vno:'' @ i) (ids q) \<and> jo_removeOnComplete DEFAULT_JOB_OPTS"
proof -
  let ?j = "\<lparr>nj_id = ''vno:'' @ i, nj_data = Vendor_New_Order i, nj_opts = DEFAULT_JOB_OPTS\<rparr>"
  have "if nj_id ?j \<in> ids q then q' = q else ids q' = insert (nj_id ?j) (ids q)"
    using assms(1,3) unfolding queue_documented_def by blast
  with assms show ?thesis by (simp add: onOrderCreated_def enqueue_notification_def DEFAULT_JOB_OPTS_def)
qed

text \<open>A browser that subscribes again while a fan-out is in flight keeps its row id, so the
  clean-up of the retired endpoint deletes the fresh one.\<close>

lemma resubscribed_row_deleted:
  assumes "subs_ok subs" and "s \<in> set subs" and "retired r"
    and "ps_userId s = u" and "ps_deviceFingerprint s = sp_deviceFingerprint dto"
  shows "filter (same_browser u (sp_deviceFingerprint dto)) (snd (snd (settle_results [(s, r)] (snd (upsert_push newId u dto now subs))))) = []"
proof -
  have find: "find_row (same_browser u (sp_deviceFingerprint dto)) subs = Some s"
    using find_row_key_unique [of browser_of subs s] assms by (simp add: subs_ok_def same_browser_of [abs_def] browser_of_def)
  show ?thesis
    using assms(1-3) find
    by (auto simp: settle_results_def upsert_push_def deactivateById_def filter_empty_conv set_upd_where
        same_browser_of subs_ok_def distinct_map dest: inj_onD) (metis assms(4,5) browser_of_def inj_onD)+
qed

end
