(* ===== verification/Security_Alerts.thy ===== *)
theory Security_Alerts
  imports Notifications
begin

text \<open>
  The alerts of \<open>auth/device.service.ts\<close>: the mail after a refresh with a foreign fingerprint, the mail
  and the push after a sign-in from a new device.  All three are fire-and-forget.  The templates are
  the source's, cut at their \<open>${...}\<close>; the base URL and the formatted date are arguments, the name,
  the device and the origin are what a user or a client supplied.
\<close>

section \<open>The suspicious-activity mail\<close>

text \<open>\<open>Salut${user.displayName ? ` ${escapeHtml(user.displayName)}` : ''}\<close>.\<close>

definition greeting :: "string option \<Rightarrow> string" where
  "greeting displayName = (if falsy displayName then [] else '' '' @ escapeHtml (the displayName))"

definition suspicious_1 :: string where
  "suspicious_1 =
     newline
     @ ''      <div style='' @ [CHR 0x22] @ ''font-family: system-ui, sans-serif; max-width: 480px; margin: 0 auto;'' @ [CHR 0x22] @ ''>'' @ newline
     @ ''        <h2 style='' @ [CHR 0x22] @ ''color: #E11D2A; margin: 0 0 8px;'' @ [CHR 0x22] @ ''>Activit'' @ [CHR 0xC3, CHR 0xA9] @ '' suspecte d'' @ [CHR 0xC3, CHR 0xA9] @ ''tect'' @ [CHR 0xC3, CHR 0xA9] @ ''e</h2>'' @ newline
     @ ''        <p>Salut''"

definition suspicious_2 :: string where
  "suspicious_2 =
     '',</p>'' @ newline
     @ ''        <p>'' @ newline
     @ ''          Une tentative de connexion '' @ [CHR 0xC3, CHR 0xA0] @ '' ton compte ChopNow vient d'' @ [CHR 0x27] @ ''utiliser'' @ newline
     @ ''          des identifiants <strong>depuis un appareil diff'' @ [CHR 0xC3, CHR 0xA9] @ ''rent</strong> de'' @ newline
     @ ''          celui qui les a obtenus '' @ [CHR 0xC3, CHR 0xA0] @ '' l'' @ [CHR 0x27] @ ''origine. Par s'' @ [CHR 0xC3, CHR 0xA9] @ ''curit'' @ [CHR 0xC3, CHR 0xA9] @ '', nous avons'' @ newline
     @ ''          d'' @ [CHR 0xC3, CHR 0xA9] @ ''connect'' @ [CHR 0xC3, CHR 0xA9] @ '' toutes tes sessions actives.'' @ newline
     @ ''        </p>'' @ newline
     @ ''        <ul style='' @ [CHR 0x22] @ ''line-height: 1.6;'' @ [CHR 0x22] @ ''>'' @ newline
     @ ''          <li><strong>Quand&nbsp;:</strong> ''"

definition suspicious_3 :: string where
  "suspicious_3 =
     ''</li>'' @ newline
     @ ''          <li><strong>Appareil utilis'' @ [CHR 0xC3, CHR 0xA9] @ ''&nbsp;:</strong> ''"

definition suspicious_4 :: string where
  "suspicious_4 =
     ''</li>'' @ newline
     @ ''          <li><strong>Origine&nbsp;:</strong> ''"

definition suspicious_5 :: string where
  "suspicious_5 =
     ''</li>'' @ newline
     @ ''        </ul>'' @ newline
     @ ''        <p>'' @ newline
     @ ''          <strong>Ce qu'' @ [CHR 0x27] @ ''il faut faire&nbsp;:</strong> reconnecte-toi sur'' @ newline
     @ ''          <a href='' @ [CHR 0x22]"

definition suspicious_6 :: string where
  "suspicious_6 =
     ''/login'' @ [CHR 0x22] @ ''>''"

definition suspicious_7 :: string where
  "suspicious_7 =
     ''/login</a>. Si tu utilises un'' @ newline
     @ ''          mot de passe, change-le. Si tu reconnais cette activit'' @ [CHR 0xC3, CHR 0xA9] @ '', tu peux'' @ newline
     @ ''          ignorer ce message.'' @ newline
     @ ''        </p>'' @ newline
     @ ''        <p style='' @ [CHR 0x22] @ ''color: #6B7280; font-size: 12px; margin-top: 24px;'' @ [CHR 0x22] @ ''>'' @ newline
     @ ''          ChopNow '' @ [CHR 0xE2, CHR 0x80, CHR 0x94] @ '' Mange sans attendre.'' @ newline
     @ ''        </p>'' @ newline
     @ ''      </div>'' @ newline
     @ ''    ''"

definition suspicious_html :: "string \<Rightarrow> string option \<Rightarrow> string \<Rightarrow> string \<Rightarrow> string \<Rightarrow> string" where
  "suspicious_html appUrl displayName whenText ua whence =
     suspicious_1
     @ greeting displayName
     @ suspicious_2
     @ whenText
     @ suspicious_3
     @ escapeHtml ua
     @ suspicious_4
     @ escapeHtml whence
     @ suspicious_5
     @ appUrl
     @ suspicious_6
     @ appUrl
     @ suspicious_7"

definition suspicious_text_1 :: string where
  "suspicious_text_1 =
     ''Activit'' @ [CHR 0xC3, CHR 0xA9] @ '' suspecte sur ton compte ChopNow'' @ newline
     @ newline
     @ ''Quand : ''"

definition suspicious_text_2 :: string where
  "suspicious_text_2 =
     newline
     @ ''Appareil utilis'' @ [CHR 0xC3, CHR 0xA9] @ '' : ''"

definition suspicious_text_3 :: string where
  "suspicious_text_3 =
     newline
     @ ''Origine : ''"

definition suspicious_text_4 :: string where
  "suspicious_text_4 =
     newline
     @ newline
     @ ''Toutes tes sessions ont '' @ [CHR 0xC3, CHR 0xA9] @ ''t'' @ [CHR 0xC3, CHR 0xA9] @ '' d'' @ [CHR 0xC3, CHR 0xA9] @ ''connect'' @ [CHR 0xC3, CHR 0xA9] @ ''es par s'' @ [CHR 0xC3, CHR 0xA9] @ ''curit'' @ [CHR 0xC3, CHR 0xA9] @ ''. Reconnecte-toi sur ''"

definition suspicious_text_5 :: string where
  "suspicious_text_5 =
     ''/login.''"

definition suspicious_plain :: "string \<Rightarrow> string \<Rightarrow> string \<Rightarrow> string \<Rightarrow> string" where
  "suspicious_plain appUrl whenText ua whence =
     suspicious_text_1
     @ whenText
     @ suspicious_text_2
     @ ua
     @ suspicious_text_3
     @ whence
     @ suspicious_text_4
     @ appUrl
     @ suspicious_text_5"

section \<open>The new-device mail\<close>

definition new_device_1 :: string where
  "new_device_1 =
     newline
     @ ''      <div style='' @ [CHR 0x22] @ ''font-family: system-ui, sans-serif; max-width: 480px; margin: 0 auto;'' @ [CHR 0x22] @ ''>'' @ newline
     @ ''        <h2 style='' @ [CHR 0x22] @ ''color: #E11D2A; margin: 0 0 8px;'' @ [CHR 0x22] @ ''>Nouvelle connexion sur ton compte</h2>'' @ newline
     @ ''        <p>Salut''"

definition new_device_2 :: string where
  "new_device_2 =
     '',</p>'' @ newline
     @ ''        <p>Une nouvelle connexion vient d'' @ [CHR 0x27, CHR 0xC3, CHR 0xAA] @ ''tre enregistr'' @ [CHR 0xC3, CHR 0xA9] @ ''e sur ton compte&nbsp;:</p>'' @ newline
     @ ''        <ul style='' @ [CHR 0x22] @ ''line-height: 1.6;'' @ [CHR 0x22] @ ''>'' @ newline
     @ ''          <li><strong>Date&nbsp;:</strong> ''"

definition new_device_3 :: string where
  "new_device_3 =
     ''</li>'' @ newline
     @ ''          <li><strong>Appareil&nbsp;:</strong> ''"

definition new_device_4 :: string where
  "new_device_4 =
     ''</li>'' @ newline
     @ ''          <li><strong>Origine&nbsp;:</strong> ''"

definition new_device_5 :: string where
  "new_device_5 =
     ''</li>'' @ newline
     @ ''        </ul>'' @ newline
     @ ''        <p>Si c'' @ [CHR 0x27, CHR 0xC3, CHR 0xA9] @ ''tait toi, tu peux ignorer ce message.</p>'' @ newline
     @ ''        <p>'' @ newline
     @ ''          Si ce n'' @ [CHR 0x27, CHR 0xC3, CHR 0xA9] @ ''tait <strong>pas toi</strong>, d'' @ [CHR 0xC3, CHR 0xA9] @ ''connecte-toi de tous les appareils'' @ newline
     @ ''          tout de suite&nbsp;: <a href='' @ [CHR 0x22]"

definition new_device_6 :: string where
  "new_device_6 =
     ''/account?next=revoke-all'' @ [CHR 0x22] @ ''>''"

definition new_device_7 :: string where
  "new_device_7 =
     ''/account</a>'' @ newline
     @ ''          puis change ton num'' @ [CHR 0xC3, CHR 0xA9] @ ''ro avec un super-admin.'' @ newline
     @ ''        </p>'' @ newline
     @ ''        <p style='' @ [CHR 0x22] @ ''color: #6B7280; font-size: 12px; margin-top: 24px;'' @ [CHR 0x22] @ ''>'' @ newline
     @ ''          ChopNow '' @ [CHR 0xE2, CHR 0x80, CHR 0x94] @ '' Mange sans attendre.'' @ newline
     @ ''        </p>'' @ newline
     @ ''      </div>'' @ newline
     @ ''    ''"

definition new_device_html :: "string \<Rightarrow> string option \<Rightarrow> string \<Rightarrow> string \<Rightarrow> string \<Rightarrow> string" where
  "new_device_html appUrl displayName whenText ua whence =
     new_device_1
     @ greeting displayName
     @ new_device_2
     @ whenText
     @ new_device_3
     @ escapeHtml ua
     @ new_device_4
     @ escapeHtml whence
     @ new_device_5
     @ appUrl
     @ new_device_6
     @ appUrl
     @ new_device_7"

definition new_device_text_1 :: string where
  "new_device_text_1 =
     ''Nouvelle connexion sur ton compte ChopNow'' @ newline
     @ newline
     @ ''Date : ''"

definition new_device_text_2 :: string where
  "new_device_text_2 =
     newline
     @ ''Appareil : ''"

definition new_device_text_3 :: string where
  "new_device_text_3 =
     newline
     @ ''Origine : ''"

definition new_device_text_4 :: string where
  "new_device_text_4 =
     newline
     @ newline
     @ ''Si ce n'' @ [CHR 0x27, CHR 0xC3, CHR 0xA9] @ ''tait pas toi, d'' @ [CHR 0xC3, CHR 0xA9] @ ''connecte-toi de tous les appareils : ''"

definition new_device_text_5 :: string where
  "new_device_text_5 =
     ''/account''"

definition new_device_plain :: "string \<Rightarrow> string \<Rightarrow> string \<Rightarrow> string \<Rightarrow> string" where
  "new_device_plain appUrl whenText ua whence =
     new_device_text_1
     @ whenText
     @ new_device_text_2
     @ ua
     @ new_device_text_3
     @ whence
     @ new_device_text_4
     @ appUrl
     @ new_device_text_5"

section \<open>Sending\<close>

record alert_env =
  al_appUrl :: string
  al_when :: "time \<Rightarrow> string"

definition origin_text :: "string \<Rightarrow> string option \<Rightarrow> string" where
  "origin_text unknown ip = (if falsy ip then unknown else ''IP '' @ the ip)"

definition mail_recipient :: "uuid \<Rightarrow> notify_state \<Rightarrow> (string \<times> string option) option" where
  "mail_recipient userId w =
     (case find_row (\<lambda>u. us_id u = userId) (a_users (n_auth w)) of
        None \<Rightarrow> None
      | Some u \<Rightarrow> if falsy (us_email u) then None else Some (the (us_email u), us_displayName u))"

definition send_mail :: "channels \<Rightarrow> mail \<Rightarrow> notify_state \<Rightarrow> notify_state" where
  "send_mail ch m w = (case ch_mail ch m of Inl _ \<Rightarrow> w | Inr _ \<Rightarrow> w\<lparr>n_mail := n_mail w @ [m]\<rparr>)"

definition suspicious_mail :: "alert_env \<Rightarrow> string \<Rightarrow> string option \<Rightarrow> string option \<Rightarrow> string option \<Rightarrow> time \<Rightarrow> mail" where
  "suspicious_mail env to displayName ip agent now =
     (let whenText = al_when env now; whence = origin_text ''adresse IP inconnue'' ip;
          ua = (if falsy agent then ''appareil inconnu'' else summarizeUserAgent (the agent))
      in \<lparr>ml_to = to, ml_subject = ''Alerte s'' @ [CHR 0xC3, CHR 0xA9] @ ''curit'' @ [CHR 0xC3, CHR 0xA9] @ '' '' @ [CHR 0xE2, CHR 0x80, CHR 0x94] @ '' connexion suspecte sur ton compte ChopNow'',
          ml_html = suspicious_html (al_appUrl env) displayName whenText ua whence,
          ml_text = suspicious_plain (al_appUrl env) whenText ua whence\<rparr>)"

definition sendDeviceMismatchAlert ::
  "channels \<Rightarrow> alert_env \<Rightarrow> uuid \<Rightarrow> string option \<Rightarrow> string option \<Rightarrow> time \<Rightarrow> notify_state \<Rightarrow> notify_state" where
  "sendDeviceMismatchAlert ch env userId ip agent now w =
     (case mail_recipient userId w of
        None \<Rightarrow> w
      | Some (to, displayName) \<Rightarrow> send_mail ch (suspicious_mail env to displayName ip agent now) w)"

definition device_label :: "device \<Rightarrow> string" where
  "device_label d = (case dv_userAgentLabel d of None \<Rightarrow> ''appareil inconnu'' | Some l \<Rightarrow> l)"

definition new_device_mail :: "alert_env \<Rightarrow> string \<Rightarrow> string option \<Rightarrow> device \<Rightarrow> mail" where
  "new_device_mail env to displayName d =
     (let whenText = al_when env (dv_firstSeenAt d); whence = origin_text ''adresse IP inconnue'' (dv_ipAddress d)
      in \<lparr>ml_to = to, ml_subject = ''Nouvelle connexion d'' @ [CHR 0xC3, CHR 0xA9] @ ''tect'' @ [CHR 0xC3, CHR 0xA9] @ ''e '' @ [CHR 0xE2, CHR 0x80, CHR 0x94] @ '' ChopNow'',
          ml_html = new_device_html (al_appUrl env) displayName whenText (device_label d) whence,
          ml_text = new_device_plain (al_appUrl env) whenText (device_label d) whence\<rparr>)"

definition sendNewDeviceAlert :: "channels \<Rightarrow> alert_env \<Rightarrow> uuid \<Rightarrow> device \<Rightarrow> notify_state \<Rightarrow> notify_state" where
  "sendNewDeviceAlert ch env userId d w =
     (case mail_recipient userId w of
        None \<Rightarrow> w
      | Some (to, displayName) \<Rightarrow> send_mail ch (new_device_mail env to displayName d) w)"

definition new_device_push :: "alert_env \<Rightarrow> device \<Rightarrow> push_payload" where
  "new_device_push env d =
     \<lparr>pp_title = ''Nouvelle connexion d'' @ eacute @ ''tect'' @ eacute @ ''e'',
      pp_body = device_label d @ '' '' @ middle_dot @ '' '' @ origin_text ''origine inconnue'' (dv_ipAddress d)
        @ ''. Si ce n'' @ apostrophe @ ''est pas toi, d'' @ eacute @ ''connecte-toi partout depuis /account.'',
      pp_data = [(''kind'', ''new_device_signin''), (''deviceId'', dv_id d),
                 (''url'', al_appUrl env @ ''/account?next=revoke-all'')]\<rparr>"

definition sendNewDevicePush :: "channels \<Rightarrow> alert_env \<Rightarrow> uuid \<Rightarrow> device \<Rightarrow> notify_state \<Rightarrow> notify_state" where
  "sendNewDevicePush ch env userId d w = snd (sendToUser ch userId (new_device_push env d) w)"

section \<open>No markup from outside\<close>

definition markup :: "string \<Rightarrow> string" where
  "markup s = filter (\<lambda>c. c \<in> set [CHR ''<'', CHR ''>'', CHR 0x22, CHR 0x27]) s"

lemma markup_append [simp]: "markup (s @ t) = markup s @ markup t"
  by (simp add: markup_def)

lemma markup_escaped [simp]: "markup (escapeHtml s) = []"
proof -
  have "c \<notin> set [CHR ''<'', CHR ''>'', CHR 0x22, CHR 0x27]" if "c \<in> set (escapeHtml s)" for c
    using that escapeHtml_no_markup [of s] by blast
  then show ?thesis unfolding markup_def by (simp add: filter_empty_conv)
qed

lemma markup_greeting [simp]: "markup (greeting displayName) = []"
proof -
  have "markup '' '' = []" by (simp add: markup_def)
  then show ?thesis unfolding greeting_def by (simp only: markup_append markup_escaped append_Nil split: if_split) (simp add: markup_def)
qed

lemma markup_suspicious:
  "markup (suspicious_html appUrl displayName whenText ua whence) = markup (suspicious_html appUrl None whenText [] [])"
  unfolding suspicious_html_def by (simp only: markup_append markup_escaped markup_greeting)

lemma markup_new_device:
  "markup (new_device_html appUrl displayName whenText ua whence) = markup (new_device_html appUrl None whenText [] [])"
  unfolding new_device_html_def by (simp only: markup_append markup_escaped markup_greeting)

text \<open>
  Whatever name a user chose and whatever user agent and address a client sent, the tags, the
  attributes and the links of both mails are those of the template.
\<close>

theorem alert_markup_is_fixed:
  "markup (ml_html (suspicious_mail env to displayName ip agent now))
     = markup (suspicious_html (al_appUrl env) None (al_when env now) [] [])
   \<and> markup (ml_html (new_device_mail env to displayName d))
     = markup (new_device_html (al_appUrl env) None (al_when env (dv_firstSeenAt d)) [] [])"
  unfolding suspicious_mail_def new_device_mail_def Let_def
  by (simp only: mail.select_convs) (rule conjI [OF markup_suspicious markup_new_device])

text \<open>An alert is at most one message to the address of the account, and changes nothing else.\<close>

lemma alert_frame:
  "n_auth (sendDeviceMismatchAlert ch env u ip agent now w) = n_auth w"
  "n_auth (sendNewDeviceAlert ch env u d w) = n_auth w"
  "n_auth (sendNewDevicePush ch env u d w) = n_auth w"
  "n_subs (sendDeviceMismatchAlert ch env u ip agent now w) = n_subs w"
  "n_subs (sendNewDeviceAlert ch env u d w) = n_subs w"
  by (auto simp: sendDeviceMismatchAlert_def sendNewDeviceAlert_def sendNewDevicePush_def send_mail_def
      split: option.splits prod.splits sum.splits)

lemma no_mail_without_address:
  assumes "mail_recipient u w = None"
  shows "sendDeviceMismatchAlert ch env u ip agent now w = w" and "sendNewDeviceAlert ch env u d w = w"
  using assms by (simp_all add: sendDeviceMismatchAlert_def sendNewDeviceAlert_def)

end
