(* ===== verification/Reports.thy ===== *)
theory Reports
  imports Accounts "HOL-Library.Multiset"
begin

text \<open>
  The read models: the pilot metrics of the back office (\<open>admin/admin-metrics.service.ts\<close>) and the
  public status of a rider's dossier (\<open>riders/riders.service.ts\<close>).
  Averages and percentages are exact rationals where the code has floats.
\<close>

section \<open>Orders in the window\<close>

definition in_window :: "time \<Rightarrow> time \<Rightarrow> time \<Rightarrow> bool" where
  "in_window since to t = (since \<le> t \<and> t < to)"

definition placed_in :: "time \<Rightarrow> time \<Rightarrow> order list \<Rightarrow> order list" where
  "placed_in since to os = filter (\<lambda>r. in_window since to (o_placedAt r)) os"

text \<open>\<open>groupBy({ by: [key], _count: true })\<close>: one row per value that occurs.\<close>

definition group_count :: "('r \<Rightarrow> 'k) \<Rightarrow> 'r list \<Rightarrow> ('k \<times> nat) list" where
  "group_count key rs = List.map (\<lambda>k. (k, count_where (\<lambda>r. key r = k) rs)) (remdups (List.map key rs))"

definition percent :: "nat \<Rightarrow> nat \<Rightarrow> rat" where
  "percent part whole = (if whole = 0 then 0 else of_nat part / of_nat whole * 100)"

text \<open>\<open>AVG\<close> is null over no rows.\<close>

definition sql_avg :: "int list \<Rightarrow> rat option" where
  "sql_avg xs = (if xs = [] then None else Some (of_int (sum_list xs) / of_nat (length xs)))"

definition delivery_times :: "order list \<Rightarrow> int list" where
  "delivery_times os =
     List.map (\<lambda>r. the (o_deliveredAt r) - the (o_pickedUpAt r))
       (filter (\<lambda>r. o_status r = OS_DELIVERED \<and> o_deliveredAt r \<noteq> None \<and> o_pickedUpAt r \<noteq> None) os)"

definition accept_times :: "order list \<Rightarrow> int list" where
  "accept_times os = List.map (\<lambda>r. the (o_acceptedAt r) - o_placedAt r) (filter (\<lambda>r. o_acceptedAt r \<noteq> None) os)"

section \<open>The dispatch funnel\<close>

text \<open>A dispatch event with its \<open>createdAt\<close>.\<close>

type_synonym logged_event = "time \<times> dispatch_event"

record dispatch_funnel =
  df_ordersAssigned :: nat
  df_assignedOnFirstAttempt :: nat
  df_expiredNoRider :: nat
  df_avgAttemptsToAssign :: "rat option"
  df_topRiders :: "(uuid \<times> nat) list"

definition assigned_in :: "time \<Rightarrow> time \<Rightarrow> logged_event list \<Rightarrow> dispatch_event list" where
  "assigned_in since to es =
     List.map snd (filter (\<lambda>(t, e). de_outcome e = ASSIGNED \<and> in_window since to t) es)"

text \<open>\<open>SELECT orderId, MIN(attempt) ... GROUP BY orderId\<close>.\<close>

definition first_assignments :: "time \<Rightarrow> time \<Rightarrow> logged_event list \<Rightarrow> (uuid \<times> nat) list" where
  "first_assignments since to es =
     (let as = assigned_in since to es
      in List.map (\<lambda>i. (i, Min (set (List.map de_attempt (filter (\<lambda>e. de_orderId e = i) as)))))
           (remdups (List.map de_orderId as)))"

text \<open>\<open>COUNT(DISTINCT orderId)\<close> of the exhausted searches of the window, less the orders assigned at any time.\<close>

definition expired_orders :: "time \<Rightarrow> time \<Rightarrow> logged_event list \<Rightarrow> uuid list" where
  "expired_orders since to es =
     remdups (List.map (\<lambda>(t, e). de_orderId e)
       (filter (\<lambda>(t, e). de_outcome e = NO_CANDIDATE \<and> 10 \<le> de_attempt e \<and> in_window since to t
          \<and> list_all (\<lambda>(t2, e2). \<not> (de_orderId e2 = de_orderId e \<and> de_outcome e2 = ASSIGNED)) es) es))"

definition top_riders :: "time \<Rightarrow> time \<Rightarrow> logged_event list \<Rightarrow> (uuid \<times> nat) list" where
  "top_riders since to es =
     take 5 (sort_key (\<lambda>(i, n). - int n)
       (group_count (\<lambda>e. the (de_riderId e)) (filter (\<lambda>e. de_riderId e \<noteq> None) (assigned_in since to es))))"

definition computeDispatchFunnel :: "time \<Rightarrow> time \<Rightarrow> logged_event list \<Rightarrow> dispatch_funnel" where
  "computeDispatchFunnel since to es =
     (let assignedRows = first_assignments since to es;
          ordersAssigned = length assignedRows;
          totalAttempts = sum_list (List.map snd assignedRows)
      in \<lparr>df_ordersAssigned = ordersAssigned,
          df_assignedOnFirstAttempt = count_where (\<lambda>(i, n). n = 1) assignedRows,
          df_expiredNoRider = length (expired_orders since to es),
          df_avgAttemptsToAssign = (if ordersAssigned = 0 then None else Some (of_nat totalAttempts / of_nat ordersAssigned)),
          df_topRiders = top_riders since to es\<rparr>)"

record pilot_metrics =
  pm_reorderers :: nat
  pm_uniqueCustomers :: nat
  pm_reorderPercent :: rat
  pm_delivered :: nat
  pm_total :: nat
  pm_completionPercent :: rat
  pm_avgDeliveryTimeMs :: "rat option"
  pm_avgVendorAcceptTimeMs :: "rat option"
  pm_dispatchFunnel :: dispatch_funnel

definition getPilotMetrics :: "time \<Rightarrow> time \<Rightarrow> order list \<Rightarrow> logged_event list \<Rightarrow> pilot_metrics" where
  "getPilotMetrics since to os es =
     (let placed = placed_in since to os;
          grouped = group_count o_userId placed;
          uniqueCustomers = length grouped;
          reorderers = count_where (\<lambda>(u, n). 2 \<le> n) grouped;
          all_orders = length placed;
          delivered = count_where (\<lambda>r. o_status r = OS_DELIVERED) placed
      in \<lparr>pm_reorderers = reorderers, pm_uniqueCustomers = uniqueCustomers,
          pm_reorderPercent = percent reorderers uniqueCustomers,
          pm_delivered = delivered, pm_total = all_orders, pm_completionPercent = percent delivered all_orders,
          pm_avgDeliveryTimeMs = sql_avg (delivery_times placed),
          pm_avgVendorAcceptTimeMs = sql_avg (accept_times placed),
          pm_dispatchFunnel = computeDispatchFunnel since to es\<rparr>)"

section \<open>The public status of a dossier\<close>

record rider_dossier_status =
  rd_status :: RiderStatus
  rd_submittedAt :: time
  rd_validatedAt :: "time option"
  rd_rejectedAt :: "time option"
  rd_rejectionReason :: "string option"

definition rider_getStatusByPhone :: "string \<Rightarrow> auth_world \<Rightarrow> http_error + rider_dossier_status" where
  "rider_getStatusByPhone phone a =
     (case find_row (\<lambda>u. us_phone u = Some (normalizePhone phone)) (a_users a) of
        None \<Rightarrow> Inl (NotFound ''rider_not_found'')
      | Some u \<Rightarrow>
          (case find_row (\<lambda>r. r_userId r = us_id u) (w_riders (a_world a)) of
             None \<Rightarrow> Inl (NotFound ''rider_not_found'')
           | Some r \<Rightarrow> Inr \<lparr>rd_status = r_status r, rd_submittedAt = r_submittedAt r, rd_validatedAt = r_validatedAt r,
                           rd_rejectedAt = r_rejectedAt r, rd_rejectionReason = r_rejectionReason r\<rparr>))"

section \<open>Counting lemmas\<close>

lemma length_group_count: "length (group_count key rs) = card (key ` set rs)"
  by (simp add: group_count_def length_remdups_card_conv)

lemma count_where_distinct: "distinct xs \<Longrightarrow> count_where p xs = card {x \<in> set xs. p x}"
  by (simp add: count_where_def distinct_length_filter Int_def conj_commute)

lemma group_count_reorder:
  "count_where (\<lambda>(k, n). m \<le> n) (group_count key rs) = card {k \<in> key ` set rs. m \<le> count_where (\<lambda>r. key r = k) rs}"
proof -
  have "count_where (\<lambda>(k, n). m \<le> n) (group_count key rs)
      = count_where (\<lambda>k. m \<le> count_where (\<lambda>r. key r = k) rs) (remdups (List.map key rs))"
    by (simp add: group_count_def count_where_map)
  also have "\<dots> = card {k \<in> set (remdups (List.map key rs)). m \<le> count_where (\<lambda>r. key r = k) rs}"
    by (rule count_where_distinct) simp
  finally show ?thesis by simp
qed

text \<open>The groups partition the rows.\<close>

lemma count_where_sum:
  assumes "finite K" and "key ` set rs \<subseteq> K"
  shows "(\<Sum>k \<in> K. count_where (\<lambda>r. key r = k) rs) = length rs"
  using assms(2)
proof (induction rs)
  case (Cons r rs)
  have "(\<Sum>k \<in> K. count_where (\<lambda>r. key r = k) (r # rs))
      = (\<Sum>k \<in> K. count_where (\<lambda>r. key r = k) rs + (if key r = k then 1 else 0))"
    by (rule sum.cong) auto
  also have "\<dots> = length rs + 1"
    using Cons assms(1) by (simp add: sum.distrib)
  finally show ?case by simp
qed simp

lemma group_count_total: "sum_list (List.map snd (group_count key rs)) = length rs"
proof -
  have "sum_list (List.map snd (group_count key rs)) = (\<Sum>k \<in> key ` set rs. count_where (\<lambda>r. key r = k) rs)"
    by (simp add: group_count_def comp_def sum_list_distinct_conv_sum_set)
  then show ?thesis by (simp add: count_where_sum)
qed

lemma percent_bounds: "part \<le> whole \<Longrightarrow> 0 \<le> percent part whole \<and> percent part whole \<le> 100"
  by (auto simp: percent_def divide_simps)

lemma first_assignments_set:
  "(i, n) \<in> set (first_assignments since to es) \<Longrightarrow>
     (\<exists>e \<in> set (assigned_in since to es). de_orderId e = i \<and> de_attempt e = n)
     \<and> (\<forall>e \<in> set (assigned_in since to es). de_orderId e = i \<longrightarrow> n \<le> de_attempt e)"
proof -
  assume "(i, n) \<in> set (first_assignments since to es)"
  then have i: "i \<in> de_orderId ` set (assigned_in since to es)"
    and n: "n = Min (de_attempt ` {e \<in> set (assigned_in since to es). de_orderId e = i})"
    by (auto simp: first_assignments_def Let_def)
  let ?S = "de_attempt ` {e \<in> set (assigned_in since to es). de_orderId e = i}"
  have "finite ?S" "?S \<noteq> {}" using i by auto
  then have "n \<in> ?S" "\<forall>x \<in> ?S. n \<le> x" unfolding n by auto
  then show ?thesis by auto
qed

section \<open>Properties\<close>

lemma placed_window: "r \<in> set (placed_in since to os) \<longleftrightarrow> r \<in> set os \<and> since \<le> o_placedAt r \<and> o_placedAt r < to"
  by (auto simp: placed_in_def in_window_def)

text \<open>
  The headline figures against their definitions: the customers are the distinct users with an
  order in the window, the reorderers those with two or more of them, the percentages are
  percentages, and with nothing in the window they are zero and the averages null.
\<close>

theorem pilot_metrics_sound:
  "let m = getPilotMetrics since to os es;
       P = {r \<in> set os. since \<le> o_placedAt r \<and> o_placedAt r < to};
       n = (\<lambda>u. count_where (\<lambda>r. o_userId r = u) (placed_in since to os))
   in pm_uniqueCustomers m = card (o_userId ` P)
      \<and> pm_reorderers m = card {u \<in> o_userId ` P. 2 \<le> n u}
      \<and> (\<Sum>u \<in> o_userId ` P. n u) = pm_total m
      \<and> pm_delivered m \<le> pm_total m
      \<and> 0 \<le> pm_reorderPercent m \<and> pm_reorderPercent m \<le> 100
      \<and> 0 \<le> pm_completionPercent m \<and> pm_completionPercent m \<le> 100
      \<and> (P \<noteq> {} \<or> pm_reorderPercent m = 0 \<and> pm_avgDeliveryTimeMs m = None \<and> pm_avgVendorAcceptTimeMs m = None)"
proof -
  let ?placed = "placed_in since to os"
  let ?P = "{r \<in> set os. since \<le> o_placedAt r \<and> o_placedAt r < to}"
  have set: "set ?placed = ?P" using placed_window by blast
  have users: "length (group_count o_userId ?placed) = card (o_userId ` ?P)" by (simp add: length_group_count set)
  have re: "count_where (\<lambda>(u, n). 2 \<le> n) (group_count o_userId ?placed)
      = card {u \<in> o_userId ` ?P. 2 \<le> count_where (\<lambda>r. o_userId r = u) ?placed}"
    by (simp add: group_count_reorder set)
  have le: "count_where (\<lambda>(u, n). 2 \<le> n) (group_count o_userId ?placed) \<le> length (group_count o_userId ?placed)"
    by (rule count_where_le)
  have total: "(\<Sum>u \<in> o_userId ` ?P. count_where (\<lambda>r. o_userId r = u) ?placed) = length ?placed"
    using count_where_sum [of "o_userId ` set ?placed" o_userId ?placed] by (simp add: set)
  have empty: "?placed = []" if "?P = {}" using set that by simp
  show ?thesis
    using percent_bounds [OF le] percent_bounds [OF count_where_le, of "\<lambda>r. o_status r = OS_DELIVERED" ?placed] users re total empty
    by (auto simp: getPilotMetrics_def Let_def count_where_le group_count_def percent_def sql_avg_def
        delivery_times_def accept_times_def)
qed

text \<open>
  The funnel: no order is counted as assigned and as given up, the happy path is part of the
  assigned orders, an order's first attempt is the least of its assignments in the window, and the
  leader board has at most five riders, the busiest first, with no more offers than there were.
\<close>

lemma expired_not_assigned:
  assumes "i \<in> set (expired_orders since to es)"
  shows "i \<notin> fst ` set (first_assignments since to es)"
proof
  assume "i \<in> fst ` set (first_assignments since to es)"
  then obtain n where "(i, n) \<in> set (first_assignments since to es)" by auto
  then obtain e where e: "e \<in> set (assigned_in since to es)" "de_orderId e = i"
    using first_assignments_set by blast
  obtain t where "(t, e) \<in> set es" "de_outcome e = ASSIGNED" using e(1) by (auto simp: assigned_in_def)
  moreover obtain t0 e0 where "(t0, e0) \<in> set es" "de_orderId e0 = i"
    "list_all (\<lambda>(t2, e2). \<not> (de_orderId e2 = i \<and> de_outcome e2 = ASSIGNED)) es"
    using assms by (auto simp: expired_orders_def)
  ultimately show False using e(2) by (auto simp: list_all_iff)
qed

lemma top_riders_sorted: "sorted (List.map (\<lambda>(i, n). - int n) (top_riders since to es))"
  unfolding top_riders_def take_map [symmetric] by (rule sorted_wrt_take) (rule sorted_sort_key)

lemma sum_list_take_le: "sum_list (take k (xs :: nat list)) \<le> sum_list xs"
proof -
  have "sum_list xs = sum_list (take k xs) + sum_list (drop k xs)"
    by (metis append_take_drop_id sum_list_append)
  then show ?thesis by simp
qed

lemma sum_list_sort_key: "sum_list (List.map f (sort_key k xs)) = sum_list (List.map (f :: 'a \<Rightarrow> nat) xs)"
  by (metis mset_map mset_sort sum_mset_sum_list)

lemma top_riders_total: "sum_list (List.map snd (top_riders since to es)) \<le> length (assigned_in since to es)"
proof -
  let ?g = "group_count (\<lambda>e. the (de_riderId e)) (filter (\<lambda>e. de_riderId e \<noteq> None) (assigned_in since to es))"
  have "sum_list (List.map snd (top_riders since to es)) \<le> sum_list (List.map snd (sort_key (\<lambda>(i, n). - int n) ?g))"
    unfolding top_riders_def take_map [symmetric] by (rule sum_list_take_le)
  also have "\<dots> = sum_list (List.map snd ?g)" by (rule sum_list_sort_key)
  also have "\<dots> \<le> length (assigned_in since to es)" unfolding group_count_total by (rule length_filter_le)
  finally show ?thesis .
qed

theorem dispatch_funnel_sound:
  "let f = computeDispatchFunnel since to es; A = first_assignments since to es
   in set (expired_orders since to es) \<inter> fst ` set A = {}
      \<and> df_ordersAssigned f = card (de_orderId ` set (assigned_in since to es))
      \<and> df_assignedOnFirstAttempt f \<le> df_ordersAssigned f
      \<and> (\<forall>(i, n) \<in> set A. (\<exists>e \<in> set (assigned_in since to es). de_orderId e = i \<and> de_attempt e = n)
           \<and> (\<forall>e \<in> set (assigned_in since to es). de_orderId e \<noteq> i \<or> n \<le> de_attempt e))
      \<and> length (df_topRiders f) \<le> 5
      \<and> sorted (List.map (\<lambda>(i, n). - int n) (df_topRiders f))
      \<and> sum_list (List.map snd (df_topRiders f)) \<le> length (assigned_in since to es)"
proof -
  have "length (first_assignments since to es) = card (de_orderId ` set (assigned_in since to es))"
    by (simp add: first_assignments_def Let_def length_remdups_card_conv)
  moreover have "set (expired_orders since to es) \<inter> fst ` set (first_assignments since to es) = {}"
    using expired_not_assigned by blast
  moreover have "length (top_riders since to es) \<le> 5" by (simp add: top_riders_def)
  moreover have "\<forall>(i, n) \<in> set (first_assignments since to es).
      (\<exists>e \<in> set (assigned_in since to es). de_orderId e = i \<and> de_attempt e = n)
      \<and> (\<forall>e \<in> set (assigned_in since to es). de_orderId e \<noteq> i \<or> n \<le> de_attempt e)"
    using first_assignments_set by blast
  ultimately show ?thesis
    using top_riders_sorted [of since to es] top_riders_total [of since to es]
      count_where_le [of "\<lambda>(i, n). n = 1" "first_assignments since to es"]
    by (simp add: computeDispatchFunnel_def Let_def)
qed

end
