(* ===== verification/Env_Config.thy ===== *)
theory Env_Config
  imports Text_Codecs
begin

text \<open>
  The configuration: the Joi schema the process is validated against at boot
  (\<open>infra/config/env.validation.ts\<close>) and the typed accessor every service reads it through
  (\<open>infra/config/env.service.ts\<close>).  Joi's URI and number recognisers are the arguments of
  \<open>joi\<close>; a default is taken when the variable is absent, an empty string is an error unless the key
  allows it, unknown variables pass.
\<close>

section \<open>The schema\<close>

datatype env_value = Str string | Num rat

record joi =
  is_uri :: "string \<Rightarrow> bool"
  is_pg_uri :: "string \<Rightarrow> bool"
  to_number :: "string \<Rightarrow> rat option"

datatype key_type =
    Text_Type nat                       \<comment> \<open>least length\<close>
  | One_Of "string list"
  | Uri_Type
  | Pg_Uri_Type
  | Number_Type "(int \<times> int) option"     \<comment> \<open>integer bounds\<close>
  | Digits_Type
  | Rate_Type

datatype presence = Required | Optional | Default env_value | Required_In_Production

record env_key =
  ek_name :: string
  ek_type :: key_type
  ek_allowEmpty :: bool
  ek_presence :: presence

definition key :: "string \<Rightarrow> key_type \<Rightarrow> bool \<Rightarrow> presence \<Rightarrow> env_key" where
  "key n t e p = \<lparr>ek_name = n, ek_type = t, ek_allowEmpty = e, ek_presence = p\<rparr>"

definition app_keys :: "env_key list" where
  "app_keys =
     [key ''NODE_ENV'' (One_Of [''development'', ''production'', ''test'']) False (Default (Str ''development'')),
      key ''PORT'' (Number_Type None) False (Default (Num 3001)),
      key ''APP_URL'' Uri_Type False Required,
      key ''DATABASE_URL'' Pg_Uri_Type False Required,
      key ''REDIS_HOST'' (Text_Type 0) False (Default (Str ''localhost'')),
      key ''REDIS_PORT'' (Number_Type None) False (Default (Num 6379)),
      key ''REDIS_PASSWORD'' (Text_Type 0) True Optional,
      key ''JWT_ACCESS_SECRET'' (Text_Type 32) False Required,
      key ''JWT_REFRESH_SECRET'' (Text_Type 32) False Required,
      key ''JWT_ACCESS_TTL'' (Text_Type 0) False (Default (Str ''15m'')),
      key ''JWT_REFRESH_TTL'' (Text_Type 0) False (Default (Str ''30d'')),
      key ''JWT_ADMIN_REFRESH_TTL'' (Text_Type 0) False (Default (Str ''24h'')),
      key ''APP_SECRET_ENVELOPE_KEY'' (Text_Type 32) False Required]"

definition provider_keys :: "env_key list" where
  "provider_keys =
     [key ''TWILIO_ACCOUNT_SID'' (Text_Type 0) False Optional,
      key ''TWILIO_AUTH_TOKEN'' (Text_Type 0) False Optional,
      key ''TWILIO_WHATSAPP_FROM'' (Text_Type 0) False Optional,
      key ''TWILIO_SMS_FROM'' (Text_Type 0) False Optional,
      key ''TWILIO_VOICE_FROM'' (Text_Type 0) False Optional,
      key ''TWILIO_STATUS_CALLBACK_URL'' Uri_Type True Optional,
      key ''CAMPAY_API_URL'' Uri_Type False Optional,
      key ''CAMPAY_USERNAME'' (Text_Type 0) False Optional,
      key ''CAMPAY_PASSWORD'' (Text_Type 0) False Optional,
      key ''CAMPAY_WEBHOOK_SECRET'' (Text_Type 16) False Required_In_Production,
      key ''VAPID_PUBLIC_KEY'' (Text_Type 0) False Optional,
      key ''VAPID_PRIVATE_KEY'' (Text_Type 0) False Optional,
      key ''VAPID_SUBJECT'' (Text_Type 0) False Optional,
      key ''R2_ACCOUNT_ID'' (Text_Type 0) True Optional,
      key ''R2_ACCESS_KEY_ID'' (Text_Type 0) True Optional,
      key ''R2_SECRET_ACCESS_KEY'' (Text_Type 0) True Optional,
      key ''R2_BUCKET'' (Text_Type 0) False Optional,
      key ''RESEND_API_KEY'' (Text_Type 0) True Optional,
      key ''MAIL_FROM'' (Text_Type 0) False (Default (Str ''ChopNow <noreply@chopnow.app>''))]"

definition platform_keys :: "env_key list" where
  "platform_keys =
     [key ''THROTTLE_TTL_SECONDS'' (Number_Type None) False (Default (Num 60)),
      key ''THROTTLE_LIMIT'' (Number_Type None) False (Default (Num 100)),
      key ''CAPTCHA_ENABLED'' (One_Of [''true'', ''false'']) False (Default (Str ''false'')),
      key ''TURNSTILE_SECRET_KEY'' (Text_Type 0) True Optional,
      key ''TURNSTILE_SITE_KEY'' (Text_Type 0) True Optional,
      key ''TRUST_PROXY'' (Number_Type (Some (0, 5))) False (Default (Num 0)),
      key ''CORS_ORIGINS'' (Text_Type 0) False (Default (Str ''http://localhost:3000'')),
      key ''OPENAPI_EXPORT'' (One_Of [''true'', ''false'']) False (Default (Str ''false'')),
      key ''SENTRY_DSN'' Uri_Type True Optional,
      key ''SENTRY_ENVIRONMENT'' (Text_Type 0) True Optional,
      key ''SENTRY_RELEASE'' (Text_Type 0) True Optional,
      key ''SENTRY_TRACES_SAMPLE_RATE'' Rate_Type False Optional,
      key ''METRICS_AUTH_TOKEN'' (Text_Type 16) True Optional,
      key ''PRISMA_SLOW_QUERY_MS'' Digits_Type False Optional,
      key ''LOKI_URL'' Uri_Type True Optional,
      key ''LOKI_USERNAME'' (Text_Type 0) True Optional,
      key ''LOKI_TOKEN'' (Text_Type 0) True Optional]"

definition envSchema :: "env_key list" where
  "envSchema = app_keys @ provider_keys @ platform_keys"

section \<open>Validation\<close>

text \<open>\<open>/^0(\.\d+)?$|^1(\.0+)?$/\<close>.\<close>

definition sample_rate :: "string \<Rightarrow> bool" where
  "sample_rate s =
     (s = ''0'' \<or> s = ''1''
      \<or> take 2 s = ''0.'' \<and> drop 2 s \<noteq> [] \<and> list_all is_digit (drop 2 s)
      \<or> take 2 s = ''1.'' \<and> drop 2 s \<noteq> [] \<and> list_all (\<lambda>c. c = CHR ''0'') (drop 2 s))"

fun typed :: "joi \<Rightarrow> key_type \<Rightarrow> string \<Rightarrow> env_value option" where
  "typed j (Text_Type n) s = (if n \<le> length s then Some (Str s) else None)"
| "typed j (One_Of vs) s = (if s \<in> set vs then Some (Str s) else None)"
| "typed j Uri_Type s = (if is_uri j s then Some (Str s) else None)"
| "typed j Pg_Uri_Type s = (if is_pg_uri j s then Some (Str s) else None)"
| "typed j (Number_Type b) s =
     (case to_number j s of
        None \<Rightarrow> None
      | Some r \<Rightarrow>
          (case b of
             None \<Rightarrow> Some (Num r)
           | Some (lo, hi) \<Rightarrow> if r = of_int \<lfloor>r\<rfloor> \<and> of_int lo \<le> r \<and> r \<le> of_int hi then Some (Num r) else None))"
| "typed j Digits_Type s = (if s \<noteq> [] \<and> list_all is_digit s then Some (Str s) else None)"
| "typed j Rate_Type s = (if sample_rate s then Some (Str s) else None)"

text \<open>The value of one key: absent is \<open>Inr None\<close>; \<open>Inl\<close> names the key that fails.\<close>

definition check_key :: "joi \<Rightarrow> bool \<Rightarrow> env_key \<Rightarrow> string option \<Rightarrow> string + env_value option" where
  "check_key j production k raw =
     (case raw of
        None \<Rightarrow>
          (case ek_presence k of
             Required \<Rightarrow> Inl (ek_name k)
           | Optional \<Rightarrow> Inr None
           | Default v \<Rightarrow> Inr (Some v)
           | Required_In_Production \<Rightarrow> if production then Inl (ek_name k) else Inr None)
      | Some s \<Rightarrow>
          if s = [] then (if ek_allowEmpty k then Inr (Some (Str [])) else Inl (ek_name k))
          else case typed j (ek_type k) s of None \<Rightarrow> Inl (ek_name k) | Some v \<Rightarrow> Inr (Some v))"

type_synonym config = "string \<Rightarrow> env_value option"

fun check_keys ::
  "joi \<Rightarrow> bool \<Rightarrow> (string \<Rightarrow> string option) \<Rightarrow> env_key list \<Rightarrow> string + (string \<times> env_value) list" where
  "check_keys j production raw [] = Inr []"
| "check_keys j production raw (k # ks) =
     (case check_key j production k (raw (ek_name k)) of
        Inl e \<Rightarrow> Inl e
      | Inr v \<Rightarrow>
          (case check_keys j production raw ks of
             Inl e \<Rightarrow> Inl e
           | Inr cfg \<Rightarrow> Inr ((case v of None \<Rightarrow> [] | Some x \<Rightarrow> [(ek_name k, x)]) @ cfg)))"

text \<open>A variable the schema does not know is readable as it is.\<close>

definition validate_env :: "joi \<Rightarrow> (string \<Rightarrow> string option) \<Rightarrow> string + config" where
  "validate_env j raw =
     (case check_keys j (raw ''NODE_ENV'' = Some ''production'') raw envSchema of
        Inl e \<Rightarrow> Inl e
      | Inr checked \<Rightarrow>
          Inr (\<lambda>k. case map_of checked k of Some v \<Rightarrow> Some v | None \<Rightarrow> map_option Str (raw k)))"

section \<open>The accessor\<close>

definition cfg_get :: "config \<Rightarrow> string \<Rightarrow> env_value option" where
  "cfg_get cfg k = cfg k"

text \<open>\<open>None\<close> is the \<open>TypeError\<close> of \<open>getOrThrow\<close>.\<close>

definition getOrThrow :: "config \<Rightarrow> string \<Rightarrow> env_value option" where
  "getOrThrow cfg k = cfg_get cfg k"

fun as_text :: "env_value option \<Rightarrow> string option" where
  "as_text (Some (Str s)) = Some s"
| "as_text _ = None"

fun as_number :: "env_value option \<Rightarrow> rat option" where
  "as_number (Some (Num r)) = Some r"
| "as_number _ = None"

definition text_of :: "config \<Rightarrow> string \<Rightarrow> string option" where
  "text_of cfg k = as_text (cfg_get cfg k)"

definition nonempty_text :: "config \<Rightarrow> string \<Rightarrow> string option" where
  "nonempty_text cfg k = (if falsy (text_of cfg k) then None else text_of cfg k)"

definition env_nodeEnv :: "config \<Rightarrow> string option" where "env_nodeEnv cfg = as_text (getOrThrow cfg ''NODE_ENV'')"
definition env_port :: "config \<Rightarrow> rat option" where "env_port cfg = as_number (getOrThrow cfg ''PORT'')"
definition env_appUrl :: "config \<Rightarrow> string option" where "env_appUrl cfg = as_text (getOrThrow cfg ''APP_URL'')"
definition env_isProduction :: "config \<Rightarrow> bool" where "env_isProduction cfg = (env_nodeEnv cfg = Some ''production'')"
definition env_secretEnvelopeKey :: "config \<Rightarrow> string option" where
  "env_secretEnvelopeKey cfg = as_text (getOrThrow cfg ''APP_SECRET_ENVELOPE_KEY'')"

definition env_corsOrigins :: "config \<Rightarrow> string list option" where
  "env_corsOrigins cfg =
     map_option (\<lambda>s. filter (\<lambda>o1. o1 \<noteq> []) (map trim (split_on (CHR '','') s))) (as_text (getOrThrow cfg ''CORS_ORIGINS''))"

definition env_database_redis :: "config \<Rightarrow> string option \<times> string option \<times> rat option \<times> string option" where
  "env_database_redis cfg =
     (as_text (getOrThrow cfg ''DATABASE_URL''), as_text (getOrThrow cfg ''REDIS_HOST''),
      as_number (getOrThrow cfg ''REDIS_PORT''), nonempty_text cfg ''REDIS_PASSWORD'')"

definition env_jwt :: "config \<Rightarrow> string option list" where
  "env_jwt cfg = map (\<lambda>k. as_text (getOrThrow cfg k))
     [''JWT_ACCESS_SECRET'', ''JWT_REFRESH_SECRET'', ''JWT_ACCESS_TTL'', ''JWT_REFRESH_TTL'', ''JWT_ADMIN_REFRESH_TTL'']"

record twilio_config =
  tw_sid :: "string option"
  tw_authToken :: "string option"
  tw_whatsappFrom :: "string option"
  tw_smsFrom :: "string option"
  tw_voiceFrom :: "string option"
  tw_statusCallbackUrl :: "string option"

definition env_twilio :: "config \<Rightarrow> twilio_config" where
  "env_twilio cfg =
     \<lparr>tw_sid = text_of cfg ''TWILIO_ACCOUNT_SID'', tw_authToken = text_of cfg ''TWILIO_AUTH_TOKEN'',
      tw_whatsappFrom = text_of cfg ''TWILIO_WHATSAPP_FROM'', tw_smsFrom = text_of cfg ''TWILIO_SMS_FROM'',
      tw_voiceFrom = text_of cfg ''TWILIO_VOICE_FROM'',
      tw_statusCallbackUrl = nonempty_text cfg ''TWILIO_STATUS_CALLBACK_URL''\<rparr>"

text \<open>\<open>None\<close> is the thrown \<open>not configured\<close>.\<close>

definition require_all :: "string option list \<Rightarrow> string list option" where
  "require_all vs = (if list_ex falsy vs then None else Some (map the vs))"

definition requireTwilio :: "config \<Rightarrow> string list option" where
  "requireTwilio cfg =
     (let t = env_twilio cfg in require_all [tw_sid t, tw_authToken t, tw_whatsappFrom t, tw_smsFrom t])"

record campay_config =
  cp_credentials :: "string option list"
  cp_transfersEnabled :: bool
  cp_refundsEnabled :: bool

definition env_campay :: "config \<Rightarrow> campay_config" where
  "env_campay cfg =
     \<lparr>cp_credentials = map (text_of cfg) [''CAMPAY_API_URL'', ''CAMPAY_USERNAME'', ''CAMPAY_PASSWORD'', ''CAMPAY_WEBHOOK_SECRET''],
      cp_transfersEnabled = (text_of cfg ''CAMPAY_TRANSFERS_ENABLED'' = Some ''true''),
      cp_refundsEnabled = (text_of cfg ''CAMPAY_REFUNDS_ENABLED'' = Some ''true'')\<rparr>"

definition requireCampay :: "config \<Rightarrow> string list option" where
  "requireCampay cfg = require_all (cp_credentials (env_campay cfg))"

definition requireVapid :: "config \<Rightarrow> string list option" where
  "requireVapid cfg = require_all (map (text_of cfg) [''VAPID_PUBLIC_KEY'', ''VAPID_PRIVATE_KEY'', ''VAPID_SUBJECT''])"

definition env_r2 :: "config \<Rightarrow> string option list" where
  "env_r2 cfg = map (text_of cfg) [''R2_ACCOUNT_ID'', ''R2_ACCESS_KEY_ID'', ''R2_SECRET_ACCESS_KEY'', ''R2_BUCKET'']"

definition requireMail :: "config \<Rightarrow> (string \<times> string option) option" where
  "requireMail cfg =
     (if falsy (text_of cfg ''RESEND_API_KEY'') then None
      else Some (the (text_of cfg ''RESEND_API_KEY''), as_text (getOrThrow cfg ''MAIL_FROM'')))"

definition env_throttle :: "config \<Rightarrow> rat option \<times> rat option" where
  "env_throttle cfg = (as_number (getOrThrow cfg ''THROTTLE_TTL_SECONDS''), as_number (getOrThrow cfg ''THROTTLE_LIMIT''))"

definition env_trustProxy :: "config \<Rightarrow> rat option" where
  "env_trustProxy cfg = as_number (getOrThrow cfg ''TRUST_PROXY'')"

definition env_openApiExport :: "config \<Rightarrow> bool" where
  "env_openApiExport cfg = (text_of cfg ''OPENAPI_EXPORT'' = Some ''true'')"

record captcha_config =
  cc_enabled :: bool
  cc_turnstileSecret :: "string option"
  cc_turnstileSiteKey :: "string option"

definition env_captcha :: "config \<Rightarrow> captcha_config" where
  "env_captcha cfg =
     \<lparr>cc_enabled = (text_of cfg ''CAPTCHA_ENABLED'' = Some ''true''),
      cc_turnstileSecret = nonempty_text cfg ''TURNSTILE_SECRET_KEY'',
      cc_turnstileSiteKey = nonempty_text cfg ''TURNSTILE_SITE_KEY''\<rparr>"

section \<open>After validation\<close>

lemma check_keys_names: "check_keys j p raw ks = Inr cfg \<Longrightarrow> fst ` set cfg \<subseteq> ek_name ` set ks"
proof (induction ks arbitrary: cfg)
  case (Cons k ks)
  obtain v cfg' where v: "check_keys j p raw ks = Inr cfg'" "cfg = (case v of None \<Rightarrow> [] | Some x \<Rightarrow> [(ek_name k, x)]) @ cfg'"
    using Cons.prems by (auto split: sum.splits)
  show ?case using Cons.IH [OF v(1)] v(2) by (cases v) auto
qed simp

lemma check_keys_value:
  assumes "check_keys j p raw ks = Inr cfg" and "distinct (map ek_name ks)" and "k \<in> set ks"
  shows "check_key j p k (raw (ek_name k)) = Inr (map_of cfg (ek_name k))"
  using assms
proof (induction ks arbitrary: cfg)
  case (Cons k' ks)
  obtain v cfg' where v: "check_key j p k' (raw (ek_name k')) = Inr v" "check_keys j p raw ks = Inr cfg'"
    and cfg: "cfg = (case v of None \<Rightarrow> [] | Some x \<Rightarrow> [(ek_name k', x)]) @ cfg'"
    using Cons.prems(1) by (auto split: sum.splits)
  show ?case
  proof (cases "k = k'")
    case True
    have "ek_name k' \<notin> fst ` set cfg'" using check_keys_names [OF v(2)] Cons.prems(2) by auto
    then have "map_of cfg' (ek_name k') = None" by (simp add: map_of_eq_None_iff)
    then show ?thesis using True v(1) cfg by (cases v) simp_all
  next
    case False
    then have k: "k \<in> set ks" using Cons.prems(3) by simp
    then have "ek_name k \<noteq> ek_name k'" using distinct_key_Cons [OF Cons.prems(2)] by metis
    then have "map_of cfg (ek_name k) = map_of cfg' (ek_name k)" using cfg by (cases v) simp_all
    then show ?thesis using Cons.IH [OF v(2) _ k] Cons.prems(2) by simp
  qed
qed simp

text \<open>The names are told apart by a checksum, which is cheaper to compare.\<close>

definition checksum :: "string \<Rightarrow> nat" where
  "checksum s = foldr (\<lambda>c h. of_char c + 31 * h) s 0"

lemma schema_names: "distinct (map ek_name envSchema)"
proof -
  have "distinct (map checksum (map ek_name envSchema))"
    unfolding envSchema_def by (simp add: app_keys_def provider_keys_def platform_keys_def key_def checksum_def)
  then show ?thesis unfolding distinct_map [of checksum] by (rule conjunct1)
qed

lemma validated_key:
  assumes "validate_env j raw = Inr cfg" and "k \<in> set envSchema"
  shows "\<exists>v. check_key j (raw ''NODE_ENV'' = Some ''production'') k (raw (ek_name k)) = Inr v \<and> cfg_get cfg (ek_name k) = v"
proof -
  obtain checked where c: "check_keys j (raw ''NODE_ENV'' = Some ''production'') raw envSchema = Inr checked"
    and cfg: "cfg = (\<lambda>k. case map_of checked k of Some v \<Rightarrow> Some v | None \<Rightarrow> map_option Str (raw k))"
    using assms(1) by (auto simp: validate_env_def split: sum.splits)
  have v: "check_key j (raw ''NODE_ENV'' = Some ''production'') k (raw (ek_name k)) = Inr (map_of checked (ek_name k))"
    by (rule check_keys_value [OF c schema_names assms(2)])
  then have "map_of checked (ek_name k) = None \<Longrightarrow> raw (ek_name k) = None"
    by (auto simp: check_key_def split: option.splits if_splits)
  then show ?thesis using v cfg by (auto simp: cfg_get_def split: option.splits)
qed

text \<open>What one key of each shape is worth after validation.\<close>

lemma required_text:
  assumes "validate_env j raw = Inr cfg" and "key n t False Required \<in> set envSchema"
    and "t = Text_Type m \<or> t = Uri_Type \<or> t = Pg_Uri_Type"
  shows "\<exists>s. cfg_get cfg n = Some (Str s) \<and> (t = Text_Type m \<longrightarrow> m \<le> length s)"
  using validated_key [OF assms(1,2)] assms(3)
  by (auto simp: check_key_def key_def split: option.splits if_splits dest!: sym [of "Some v" for v])

lemma default_text:
  assumes "validate_env j raw = Inr cfg" and "key n t False (Default (Str d)) \<in> set envSchema"
    and "t = Text_Type m \<or> t = One_Of vs"
  shows "\<exists>s. cfg_get cfg n = Some (Str s) \<and> (t = One_Of vs \<longrightarrow> s = d \<or> s \<in> set vs)"
  using validated_key [OF assms(1,2)] assms(3)
  by (auto simp: check_key_def key_def split: option.splits if_splits dest!: sym [of "Some v" for v])

lemma default_number:
  assumes "validate_env j raw = Inr cfg" and "key n (Number_Type b) False (Default (Num d)) \<in> set envSchema"
  shows "\<exists>r. cfg_get cfg n = Some (Num r)
    \<and> (\<forall>lo hi. b = Some (lo, hi) \<longrightarrow> r = d \<or> (r = of_int \<lfloor>r\<rfloor> \<and> of_int lo \<le> r \<and> r \<le> of_int hi))"
  using validated_key [OF assms]
  by (auto simp: check_key_def key_def split: option.splits if_splits prod.splits dest!: sym [of "Some v" for v])

lemma production_secret:
  assumes "validate_env j raw = Inr cfg" and "raw ''NODE_ENV'' = Some ''production''"
  shows "\<exists>s. cfg_get cfg ''CAMPAY_WEBHOOK_SECRET'' = Some (Str s) \<and> 16 \<le> length s"
proof -
  have k: "key ''CAMPAY_WEBHOOK_SECRET'' (Text_Type 16) False Required_In_Production \<in> set envSchema"
    by (simp add: envSchema_def provider_keys_def)
  show ?thesis using validated_key [OF assms(1) k] assms(2)
    by (auto simp: check_key_def key_def split: option.splits if_splits dest!: sym [of "Some v" for v])
qed

lemma node_env_raw:
  assumes "validate_env j raw = Inr cfg" and "cfg_get cfg ''NODE_ENV'' = Some (Str ''production'')"
  shows "raw ''NODE_ENV'' = Some ''production''"
proof -
  have k: "key ''NODE_ENV'' (One_Of [''development'', ''production'', ''test'']) False (Default (Str ''development'')) \<in> set envSchema"
    by (simp add: envSchema_def app_keys_def)
  show ?thesis using validated_key [OF assms(1) k] assms(2)
    by (auto simp: check_key_def key_def split: option.splits if_splits dest!: sym [of "Some v" for v])
qed

lemmas schema_tables = envSchema_def app_keys_def provider_keys_def platform_keys_def

lemma config_secrets:
  assumes "validate_env j raw = Inr cfg"
    and "n \<in> {''JWT_ACCESS_SECRET'', ''JWT_REFRESH_SECRET'', ''APP_SECRET_ENVELOPE_KEY''}"
  shows "\<exists>s. cfg_get cfg n = Some (Str s) \<and> 32 \<le> length s"
proof -
  have "key n (Text_Type 32) False Required \<in> set envSchema"
    using assms(2) by (elim insertE emptyE) (simp_all add: schema_tables)
  from required_text [OF assms(1) this, of 32] show ?thesis by simp
qed

lemma config_addresses:
  assumes "validate_env j raw = Inr cfg"
  shows "\<exists>s. cfg_get cfg ''APP_URL'' = Some (Str s)" and "\<exists>s. cfg_get cfg ''DATABASE_URL'' = Some (Str s)"
proof -
  have "key ''APP_URL'' Uri_Type False Required \<in> set envSchema"
    and "key ''DATABASE_URL'' Pg_Uri_Type False Required \<in> set envSchema" by (simp_all add: schema_tables)
  then show "\<exists>s. cfg_get cfg ''APP_URL'' = Some (Str s)" and "\<exists>s. cfg_get cfg ''DATABASE_URL'' = Some (Str s)"
    using required_text [OF assms] by blast+
qed

lemma config_texts:
  assumes "validate_env j raw = Inr cfg"
    and "(n, d) \<in> {(''REDIS_HOST'', ''localhost''), (''JWT_ACCESS_TTL'', ''15m''), (''JWT_REFRESH_TTL'', ''30d''),
      (''JWT_ADMIN_REFRESH_TTL'', ''24h''), (''CORS_ORIGINS'', ''http://localhost:3000''),
      (''MAIL_FROM'', ''ChopNow <noreply@chopnow.app>'')}"
  shows "\<exists>s. cfg_get cfg n = Some (Str s)"
proof -
  have "key n (Text_Type 0) False (Default (Str d)) \<in> set envSchema"
    using assms(2) by (elim insertE emptyE) (simp_all add: schema_tables)
  from default_text [OF assms(1) this, of 0] show ?thesis by blast
qed

lemma config_numbers:
  fixes d :: rat
  assumes "validate_env j raw = Inr cfg"
    and "(n, d) \<in> {(''PORT'', 3001), (''REDIS_PORT'', 6379), (''THROTTLE_TTL_SECONDS'', 60), (''THROTTLE_LIMIT'', 100)}"
  shows "\<exists>r. cfg_get cfg n = Some (Num r)"
proof -
  have "key n (Number_Type None) False (Default (Num d)) \<in> set envSchema"
    using assms(2) by (elim insertE emptyE) (simp_all add: schema_tables)
  from default_number [OF assms(1) this] show ?thesis by blast
qed

lemma config_environment:
  assumes "validate_env j raw = Inr cfg"
  shows "env_nodeEnv cfg \<in> {Some ''development'', Some ''production'', Some ''test''}"
proof -
  have "\<exists>s. cfg_get cfg ''NODE_ENV'' = Some (Str s) \<and> s \<in> {''development'', ''production'', ''test''}"
    using default_text [OF assms, of "''NODE_ENV''" "One_Of [''development'', ''production'', ''test'']" "''development''" 0
        "[''development'', ''production'', ''test'']"] by (auto simp: schema_tables)
  then show ?thesis by (auto simp: env_nodeEnv_def getOrThrow_def)
qed

lemma config_hops:
  assumes "validate_env j raw = Inr cfg"
  shows "\<exists>r. cfg_get cfg ''TRUST_PROXY'' = Some (Num r) \<and> 0 \<le> r \<and> r \<le> 5"
  using default_number [OF assms, of "''TRUST_PROXY''" "Some (0, 5)" 0] by (auto simp: schema_tables)

lemma config_production_secret:
  assumes "validate_env j raw = Inr cfg" and "env_isProduction cfg"
  shows "\<exists>s. text_of cfg ''CAMPAY_WEBHOOK_SECRET'' = Some s \<and> 16 \<le> length s"
proof -
  have "cfg_get cfg ''NODE_ENV'' = Some (Str ''production'')"
    using config_environment [OF assms(1)] assms(2)
    by (cases "cfg_get cfg ''NODE_ENV''")
      (auto simp: env_isProduction_def env_nodeEnv_def getOrThrow_def elim!: as_text.elims)
  then have "raw ''NODE_ENV'' = Some ''production''" by (rule node_env_raw [OF assms(1)])
  from production_secret [OF assms(1) this] show ?thesis by (auto simp: text_of_def)
qed

lemma config_jwt:
  assumes "validate_env j raw = Inr cfg"
  shows "\<exists>access refresh ttls. env_jwt cfg = map Some (access # refresh # ttls) \<and> length ttls = 3
    \<and> 32 \<le> length access \<and> 32 \<le> length refresh"
proof -
  obtain a r where secrets: "cfg_get cfg ''JWT_ACCESS_SECRET'' = Some (Str a)" "32 \<le> length a"
      "cfg_get cfg ''JWT_REFRESH_SECRET'' = Some (Str r)" "32 \<le> length r"
    using config_secrets [OF assms, of "''JWT_ACCESS_SECRET''"] config_secrets [OF assms, of "''JWT_REFRESH_SECRET''"] by auto
  obtain t1 t2 t3 where "cfg_get cfg ''JWT_ACCESS_TTL'' = Some (Str t1)" "cfg_get cfg ''JWT_REFRESH_TTL'' = Some (Str t2)"
      "cfg_get cfg ''JWT_ADMIN_REFRESH_TTL'' = Some (Str t3)"
    using config_texts [OF assms, of "''JWT_ACCESS_TTL''" "''15m''"] config_texts [OF assms, of "''JWT_REFRESH_TTL''" "''30d''"]
      config_texts [OF assms, of "''JWT_ADMIN_REFRESH_TTL''" "''24h''"] by auto
  then have "env_jwt cfg = map Some (a # r # [t1, t2, t3])" by (simp add: env_jwt_def getOrThrow_def secrets)
  with secrets show ?thesis by (metis length_Cons list.size(3) numeral_3_eq_3)
qed

text \<open>
  C35.  A process that boots never fails on a mandatory variable later: after validation every
  \<open>getOrThrow\<close> of the accessor has a value of its type, the secrets have their length, the trusted
  hops are between 0 and 5, and in production the webhook secret is there.
\<close>

theorem validated_config_is_total:
  assumes "validate_env j raw = Inr cfg"
  shows "env_nodeEnv cfg \<in> {Some ''development'', Some ''production'', Some ''test''}
    \<and> env_port cfg \<noteq> None \<and> env_appUrl cfg \<noteq> None
    \<and> (\<exists>s. env_secretEnvelopeKey cfg = Some s \<and> 32 \<le> length s)
    \<and> env_corsOrigins cfg \<noteq> None
    \<and> (\<exists>db host port pw. env_database_redis cfg = (Some db, Some host, Some port, pw))
    \<and> (\<exists>access refresh ttls. env_jwt cfg = map Some (access # refresh # ttls) \<and> length ttls = 3
          \<and> 32 \<le> length access \<and> 32 \<le> length refresh)
    \<and> (\<exists>ttl limit. env_throttle cfg = (Some ttl, Some limit))
    \<and> (\<exists>n. env_trustProxy cfg = Some n \<and> 0 \<le> n \<and> n \<le> 5)
    \<and> as_text (getOrThrow cfg ''MAIL_FROM'') \<noteq> None
    \<and> (env_isProduction cfg \<longrightarrow> (\<exists>s. text_of cfg ''CAMPAY_WEBHOOK_SECRET'' = Some s \<and> 16 \<le> length s))"
proof -
  obtain s where s: "cfg_get cfg ''APP_SECRET_ENVELOPE_KEY'' = Some (Str s)" "32 \<le> length s"
    using config_secrets [OF assms, of "''APP_SECRET_ENVELOPE_KEY''"] by auto
  obtain t1 t2 t3 t4 t5 where t: "cfg_get cfg ''APP_URL'' = Some (Str t1)" "cfg_get cfg ''DATABASE_URL'' = Some (Str t2)"
      "cfg_get cfg ''REDIS_HOST'' = Some (Str t3)" "cfg_get cfg ''CORS_ORIGINS'' = Some (Str t4)"
      "cfg_get cfg ''MAIL_FROM'' = Some (Str t5)"
    using config_addresses [OF assms] config_texts [OF assms, of "''REDIS_HOST''" "''localhost''"]
      config_texts [OF assms, of "''CORS_ORIGINS''" "''http://localhost:3000''"]
      config_texts [OF assms, of "''MAIL_FROM''" "''ChopNow <noreply@chopnow.app>''"] by auto
  obtain n1 n2 n3 n4 where n: "cfg_get cfg ''PORT'' = Some (Num n1)" "cfg_get cfg ''REDIS_PORT'' = Some (Num n2)"
      "cfg_get cfg ''THROTTLE_TTL_SECONDS'' = Some (Num n3)" "cfg_get cfg ''THROTTLE_LIMIT'' = Some (Num n4)"
    using config_numbers [OF assms, of "''PORT''" 3001] config_numbers [OF assms, of "''REDIS_PORT''" 6379]
      config_numbers [OF assms, of "''THROTTLE_TTL_SECONDS''" 60] config_numbers [OF assms, of "''THROTTLE_LIMIT''" 100] by auto
  obtain h where h: "cfg_get cfg ''TRUST_PROXY'' = Some (Num h)" "0 \<le> h" "h \<le> 5" using config_hops [OF assms] by blast
  show ?thesis
    using config_environment [OF assms] config_jwt [OF assms] config_production_secret [OF assms] s h
    by (simp add: env_port_def env_appUrl_def env_secretEnvelopeKey_def env_corsOrigins_def
        env_database_redis_def env_throttle_def env_trustProxy_def getOrThrow_def t n)
qed

definition demo_joi :: joi where
  "demo_joi = \<lparr>is_uri = starts_with ''http'', is_pg_uri = starts_with ''postgres'',
     to_number = (\<lambda>s. if s \<noteq> [] \<and> list_all is_digit s then Some (of_nat (read_nat s)) else None)\<rparr>"

definition demo_vars :: "(string \<times> string) list" where
  "demo_vars =
     [(''NODE_ENV'', ''production''), (''APP_URL'', ''https://a''), (''DATABASE_URL'', ''postgres://d''),
      (''JWT_ACCESS_SECRET'', replicate 32 (CHR ''a'')), (''JWT_REFRESH_SECRET'', replicate 32 (CHR ''r'')),
      (''APP_SECRET_ENVELOPE_KEY'', replicate 32 (CHR ''k'')), (''CAMPAY_WEBHOOK_SECRET'', replicate 16 (CHR ''w'')),
      (''TRUST_PROXY'', ''1'')]"

lemmas compute_keys = check_key_def key_def demo_joi_def demo_vars_def starts_with_def

lemma check_keys_append:
  "check_keys j p raw (ks @ ls) =
     (case check_keys j p raw ks of
        Inl e \<Rightarrow> Inl e
      | Inr xs \<Rightarrow> (case check_keys j p raw ls of Inl e \<Rightarrow> Inl e | Inr ys \<Rightarrow> Inr (xs @ ys)))"
  by (induction ks) (auto split: sum.splits option.splits)

lemma demo_app: "\<exists>c. check_keys demo_joi True (map_of demo_vars) app_keys = Inr c
    \<and> map_of c ''TRUST_PROXY'' = None \<and> map_of c ''NODE_ENV'' = Some (Str ''production'')"
  by (simp add: app_keys_def compute_keys numeral_eq_Suc)

lemma demo_provider: "\<exists>c. check_keys demo_joi True (map_of demo_vars) provider_keys = Inr c \<and> map_of c ''TRUST_PROXY'' = None"
  by (simp add: provider_keys_def compute_keys numeral_eq_Suc)

lemma demo_platform: "\<exists>c. check_keys demo_joi True (map_of demo_vars) platform_keys = Inr c \<and> map_of c ''TRUST_PROXY'' = Some (Num 1)"
  by (simp add: platform_keys_def compute_keys is_digit_def read_nat_def)

lemma demo_boots:
  "\<exists>cfg. validate_env demo_joi (map_of demo_vars) = Inr cfg \<and> env_isProduction cfg \<and> env_trustProxy cfg = Some 1"
proof -
  have prod: "map_of demo_vars ''NODE_ENV'' = Some ''production''" by (simp add: demo_vars_def)
  obtain a b c where "check_keys demo_joi True (map_of demo_vars) app_keys = Inr a" "map_of a ''TRUST_PROXY'' = None"
      "map_of a ''NODE_ENV'' = Some (Str ''production'')"
      "check_keys demo_joi True (map_of demo_vars) provider_keys = Inr b" "map_of b ''TRUST_PROXY'' = None"
      "check_keys demo_joi True (map_of demo_vars) platform_keys = Inr c" "map_of c ''TRUST_PROXY'' = Some (Num 1)"
    using demo_app demo_provider demo_platform by blast
  then show ?thesis
    by (simp add: validate_env_def prod envSchema_def check_keys_append env_isProduction_def env_nodeEnv_def
        getOrThrow_def cfg_get_def env_trustProxy_def map_add_def)
qed

theorem validated_config_is_total_witness:
  "\<exists>cfg. validate_env demo_joi (map_of demo_vars) = Inr cfg \<and> env_isProduction cfg \<and> env_trustProxy cfg = Some 1
     \<and> (\<exists>s. text_of cfg ''CAMPAY_WEBHOOK_SECRET'' = Some s \<and> 16 \<le> length s)
     \<and> (\<exists>s. env_secretEnvelopeKey cfg = Some s \<and> 32 \<le> length s)"
proof -
  obtain cfg where cfg: "validate_env demo_joi (map_of demo_vars) = Inr cfg" "env_isProduction cfg" "env_trustProxy cfg = Some 1"
    using demo_boots by blast
  show ?thesis using cfg validated_config_is_total [OF cfg(1)] by blast
qed

text \<open>Joi takes any text as a duration: such a process boots and fails when it signs its first token.\<close>

lemma bad_duration_boots:
  "key ''JWT_REFRESH_TTL'' (Text_Type 0) False (Default (Str ''30d'')) \<in> set envSchema"
  "check_key j p (key ''JWT_REFRESH_TTL'' (Text_Type 0) False (Default (Str ''30d''))) (Some ''30 days'') = Inr (Some (Str ''30 days''))"
  "parseDurationMs ''30 days'' = None"
  by (simp add: envSchema_def app_keys_def, simp add: check_key_def key_def, code_simp)

text \<open>The kill switches of the transfers and refunds are not in the schema: any spelling but
  \<open>true\<close> boots and means off.\<close>

lemma kill_switch_unchecked:
  "''CAMPAY_TRANSFERS_ENABLED'' \<notin> ek_name ` set envSchema"
  "text_of cfg ''CAMPAY_TRANSFERS_ENABLED'' = Some ''TRUE'' \<Longrightarrow> \<not> cp_transfersEnabled (env_campay cfg)"
  by (simp add: envSchema_def app_keys_def provider_keys_def platform_keys_def key_def, simp add: env_campay_def)

end
