(* ===== verification/Media.thy ===== *)
theory Media
  imports Env_Config
begin

text \<open>
  Photos: the upload side of \<open>infra/r2/r2.service.ts\<close>, the public read proxy of
  \<open>infra/r2/media.controller.ts\<close>, and the places that upload.  A bucket maps keys to bytes; \<open>sharp\<close> is
  the image library (None when it throws), \<open>up\<close> tells whether R2 takes the write, \<open>sign\<close> is the
  presigner of the SDK.  Reading a key that does not exist is an error of R2.
\<close>

section \<open>The client\<close>

type_synonym bucket = "string \<rightharpoonup> string"

definition r2_client :: "config \<Rightarrow> bool" where
  "r2_client cfg \<longleftrightarrow> \<not> falsy (text_of cfg ''R2_ACCOUNT_ID'') \<and> \<not> falsy (text_of cfg ''R2_ACCESS_KEY_ID'')
     \<and> \<not> falsy (text_of cfg ''R2_SECRET_ACCESS_KEY'')"

definition requireBucket :: "config \<Rightarrow> http_error + string" where
  "requireBucket cfg =
     (if falsy (text_of cfg ''R2_BUCKET'') then Inl (UpstreamError ''R2_BUCKET is not set'')
      else Inr (the (text_of cfg ''R2_BUCKET'')))"

text \<open>One command: the bucket name first, then the client, then R2 itself.\<close>

definition r2_send :: "config \<Rightarrow> bool \<Rightarrow> ('a, bucket) outcome \<Rightarrow> bucket \<Rightarrow> ('a, bucket) outcome" where
  "r2_send cfg up command b =
     (case requireBucket cfg of
        Inl e \<Rightarrow> (Inl e, b)
      | Inr _ \<Rightarrow>
          if \<not> r2_client cfg then (Inl (UpstreamError ''R2 is not configured''), b)
          else if \<not> up then (Inl (UpstreamError ''R2''), b)
          else command)"

definition image_key :: "string \<Rightarrow> uuid \<Rightarrow> string" where
  "image_key keyPrefix i = keyPrefix @ ''/'' @ i @ ''.webp''"

definition uploadImage ::
  "config \<Rightarrow> (string \<Rightarrow> nat \<Rightarrow> nat \<Rightarrow> string option) \<Rightarrow> bool \<Rightarrow> uuid \<Rightarrow> string \<Rightarrow> string \<Rightarrow> nat option \<Rightarrow> nat option
   \<Rightarrow> bucket \<Rightarrow> (string, bucket) outcome" where
  "uploadImage cfg sharp up newId input keyPrefix maxEdge quality b =
     (case sharp input (case maxEdge of Some m \<Rightarrow> m | None \<Rightarrow> 1280) (case quality of Some q \<Rightarrow> q | None \<Rightarrow> 80) of
        None \<Rightarrow> (Inl (UpstreamError ''sharp''), b)
      | Some optimized \<Rightarrow>
          r2_send cfg up (Inr (image_key keyPrefix newId), b(image_key keyPrefix newId \<mapsto> optimized)) b)"

definition uploadRaw :: "config \<Rightarrow> bool \<Rightarrow> string \<Rightarrow> string \<Rightarrow> bucket \<Rightarrow> (string, bucket) outcome" where
  "uploadRaw cfg up buffer k b = r2_send cfg up (Inr k, b(k \<mapsto> buffer)) b"

definition signedDownloadUrl :: "config \<Rightarrow> (string \<Rightarrow> nat \<Rightarrow> string) \<Rightarrow> string \<Rightarrow> nat option \<Rightarrow> bucket \<Rightarrow> (string, bucket) outcome" where
  "signedDownloadUrl cfg sign k ttlSeconds b =
     r2_send cfg True (Inr (sign k (case ttlSeconds of Some t \<Rightarrow> t | None \<Rightarrow> 300)), b) b"

definition deleteObject :: "config \<Rightarrow> bool \<Rightarrow> string \<Rightarrow> bucket \<Rightarrow> (unit, bucket) outcome" where
  "deleteObject cfg up k b = r2_send cfg up (Inr (), b(k := None)) b"

section \<open>What is uploaded where\<close>

datatype photo_slot =
  Rider_Id_Card | Rider_Selfie | Rider_Vehicle | Vendor_Enseigne | Vendor_Profile | Vendor_Cover | Item_Photo

fun rider_prefix :: "photo_slot \<Rightarrow> string option" where
  "rider_prefix Rider_Id_Card = Some ''rider-kyc/id-card''"
| "rider_prefix Rider_Selfie = Some ''rider-kyc/selfie''"
| "rider_prefix Rider_Vehicle = Some ''rider-kyc/vehicle''"
| "rider_prefix _ = None"

fun vendor_prefix :: "photo_slot \<Rightarrow> string option" where
  "vendor_prefix Vendor_Enseigne = Some ''vendor-kyc''"
| "vendor_prefix Vendor_Profile = Some ''vendor-profile''"
| "vendor_prefix Item_Photo = Some ''item-photo''"
| "vendor_prefix Vendor_Cover = Some ''vendor-cover''"
| "vendor_prefix _ = None"

definition slot_prefix :: "photo_slot \<Rightarrow> string" where
  "slot_prefix s = (case rider_prefix s of Some p \<Rightarrow> p | None \<Rightarrow> (case vendor_prefix s of Some p \<Rightarrow> p | None \<Rightarrow> []))"

section \<open>The public proxy\<close>

definition ALLOWED_PREFIXES :: "string list" where
  "ALLOWED_PREFIXES = [''vendor-profile/'', ''item-photo/'']"

definition streamObject :: "config \<Rightarrow> string \<Rightarrow> string \<Rightarrow> bucket \<Rightarrow> http_error + string" where
  "streamObject cfg prefix name b =
     (let k = prefix @ ''/'' @ name
      in if \<not> list_ex (\<lambda>p. starts_with p k) ALLOWED_PREFIXES then Inl (NotFound ''Not Found'')
         else if falsy (text_of cfg ''R2_BUCKET'') then Inl (NotFound ''Not Found'')
         else if \<not> r2_client cfg then Inl (NotFound ''Not Found'')
         else case b k of None \<Rightarrow> Inl (UpstreamError ''NoSuchKey'') | Some body \<Rightarrow> Inr body)"

section \<open>Who sees what\<close>

definition public_slot :: "photo_slot \<Rightarrow> bool" where
  "public_slot s \<longleftrightarrow> s \<in> {Vendor_Profile, Item_Photo}"

lemma allowed_key: "list_ex (\<lambda>p. starts_with p (image_key (slot_prefix s) i)) ALLOWED_PREFIXES \<longleftrightarrow> public_slot s"
  by (cases s) (simp_all add: ALLOWED_PREFIXES_def image_key_def slot_prefix_def public_slot_def starts_with_def)

lemma uploaded:
  assumes "uploadImage cfg sharp up i input (slot_prefix s) m q b = (Inr k, b')"
  shows "k = image_key (slot_prefix s) i \<and> r2_client cfg \<and> \<not> falsy (text_of cfg ''R2_BUCKET'')
    \<and> (\<exists>bytes. sharp input (case m of Some m \<Rightarrow> m | None \<Rightarrow> 1280) (case q of Some q \<Rightarrow> q | None \<Rightarrow> 80) = Some bytes
         \<and> b' = b(k \<mapsto> bytes))"
  using assms
  by (auto simp: uploadImage_def r2_send_def requireBucket_def split: option.splits sum.splits if_splits)

text \<open>
  C23.  A photo of a dish or of a vendor's profile can be fetched by everybody under its key, as the
  optimised bytes; any other upload (identity cards, selfies, licences, shop fronts, covers) changes
  no answer of the proxy, whatever is asked.
\<close>

theorem proxy_serves_public_photos_only:
  assumes "uploadImage cfg sharp up i input (slot_prefix s) m q b = (Inr k, b')"
  shows "(public_slot s \<longrightarrow>
       (\<exists>bytes. sharp input (case m of Some m \<Rightarrow> m | None \<Rightarrow> 1280) (case q of Some q \<Rightarrow> q | None \<Rightarrow> 80) = Some bytes
          \<and> streamObject cfg (slot_prefix s) (i @ ''.webp'') b' = Inr bytes))
    \<and> (\<not> public_slot s \<longrightarrow> (\<forall>prefix name. streamObject cfg prefix name b' = streamObject cfg prefix name b))"
proof -
  obtain bytes where k: "k = image_key (slot_prefix s) i" and c: "r2_client cfg" "\<not> falsy (text_of cfg ''R2_BUCKET'')"
    and b: "sharp input (case m of Some m \<Rightarrow> m | None \<Rightarrow> 1280) (case q of Some q \<Rightarrow> q | None \<Rightarrow> 80) = Some bytes"
      "b' = b(k \<mapsto> bytes)"
    using uploaded [OF assms] by blast
  have key_of: "image_key (slot_prefix s) i = slot_prefix s @ ''/'' @ i @ ''.webp''" by (simp add: image_key_def)
  have "streamObject cfg (slot_prefix s) (i @ ''.webp'') b' = Inr bytes" if "public_slot s"
    using allowed_key [of s i] that c b(2) unfolding k key_of by (simp add: streamObject_def)
  moreover have "streamObject cfg prefix name b' = streamObject cfg prefix name b" if "\<not> public_slot s" for prefix name
  proof (cases "prefix @ ''/'' @ name = k")
    case True
    then show ?thesis using allowed_key [of s i] that unfolding k by (simp add: streamObject_def)
  qed (simp add: streamObject_def b(2) Let_def)
  ultimately show ?thesis using b(1) by blast
qed

definition media_config :: config where
  "media_config = (\<lambda>k. Some (Str ''x''))"

theorem proxy_serves_public_photos_only_witness:
  "let up = (\<lambda>s b. uploadImage media_config (\<lambda>x m q. Some (''webp:'' @ x)) True ''i'' ''raw'' (slot_prefix s) None None b);
       b = snd (up Rider_Selfie (snd (up Item_Photo (\<lambda>k. None))))
   in streamObject media_config ''item-photo'' ''i.webp'' b = Inr ''webp:raw''
      \<and> streamObject media_config ''rider-kyc'' ''selfie/i.webp'' b = Inl (NotFound ''Not Found'')"
proof -
  let ?up = "\<lambda>s b. uploadImage media_config (\<lambda>x m q. Some (''webp:'' @ x)) True ''i'' ''raw'' (slot_prefix s) None None b"
  have c: "text_of media_config k = Some ''x''" for k by (simp add: text_of_def cfg_get_def media_config_def)
  have u: "?up s b = (Inr (image_key (slot_prefix s) ''i''), snd (?up s b))" for s b
    by (simp add: uploadImage_def r2_send_def requireBucket_def r2_client_def c)
  note one = proxy_serves_public_photos_only [OF u [of Item_Photo "\<lambda>k. None"]]
    and two = proxy_serves_public_photos_only [OF u [of Rider_Selfie "snd (?up Item_Photo (\<lambda>k. None))"]]
  have "streamObject media_config ''item-photo'' ''i.webp'' (snd (?up Item_Photo (\<lambda>k. None))) = Inr ''webp:raw''"
    using one by (simp add: public_slot_def slot_prefix_def)
  moreover have "streamObject media_config p n (snd (?up Rider_Selfie (snd (?up Item_Photo (\<lambda>k. None)))))
      = streamObject media_config p n (snd (?up Item_Photo (\<lambda>k. None)))" for p n
    using two by (simp add: public_slot_def)
  ultimately show ?thesis
    by (simp add: Let_def streamObject_def [of _ "''rider-kyc''"] ALLOWED_PREFIXES_def starts_with_def)
qed

text \<open>Cover photos are uploaded for the public page, under a prefix the proxy does not serve.\<close>

lemma covers_are_not_served: "streamObject cfg ''vendor-cover'' name b = Inl (NotFound ''Not Found'')"
  by (simp add: streamObject_def ALLOWED_PREFIXES_def starts_with_def)

text \<open>A key that no upload has written is a server error, not a 404.\<close>

lemma missing_photo_is_500:
  assumes "r2_client cfg" and "\<not> falsy (text_of cfg ''R2_BUCKET'')" and "b (''item-photo/'' @ name) = None"
  shows "streamObject cfg ''item-photo'' name b = Inl (UpstreamError ''NoSuchKey'')"
  using assms by (simp add: streamObject_def ALLOWED_PREFIXES_def starts_with_def)

end
