(* ===== verification/Request_Validation.thy ===== *)
theory Request_Validation
  imports Catalogue Order_Creation Admin_Auth
begin

text \<open>
  \<open>main.ts\<close> (the global \<open>ValidationPipe\<close>) and the classes of \<open>modules/*/dto\<close>: what a request body
  has to be before a handler sees it.  A DTO class is a table of fields, each with its TypeScript
  type, whether it is optional, its \<open>@ValidateIf\<close> condition, its decorators in order and the table of
  the class below it.  What a decorator decides and what the conversion does is class-validator and
  class-transformer: the record \<open>pipe\<close>, with what the code relies on in \<open>documented\<close>.  The regular
  expressions and the bounds are the code's own and are translated.
\<close>

section \<open>Bodies, fields, decorators\<close>

text \<open>
  A property of a body: absent, null, or what JSON carries; \<open>PNotFinite\<close> is what \<open>Number\<close> makes of a
  text that is no number, \<open>PDate\<close> a date object (epoch milliseconds).
\<close>

datatype plain =
    Undefined
  | Null
  | PBool bool
  | PNum rat
  | PNotFinite
  | PStr string
  | PDate int
  | PList "plain list"
  | PObj "(string \<times> plain) list"

datatype ts_type = T_String | T_Number | T_Boolean | T_Date | T_Class

datatype pattern =
    Phone_Pattern
  | Plate_Pattern
  | Time_Pattern
  | Digits_Pattern nat
  | Has_Upper
  | Has_Digit
  | Has_Special
  | Totp_Or_Recovery

datatype decorator =
    IsString | IsInt | IsNumber | IsBoolean | IsUUID | IsEmail | IsLatitude | IsLongitude
  | IsDate | IsArray | IsObject
  | IsEnum "string list"
  | MinValue rat
  | MaxValue rat
  | MinLength nat
  | MaxLength nat
  | ArrayMinSize nat
  | ArrayMaxSize nat
  | Matches pattern

text \<open>Name, type, \<open>@IsOptional\<close>, \<open>@ValidateIf (o.key = value)\<close>, decorators, nested class.\<close>

datatype field = Field string ts_type bool "(string \<times> string) option" "decorator list" "field list"

fun field_name :: "field \<Rightarrow> string" where "field_name (Field n _ _ _ _ _) = n"

section \<open>The regular expressions\<close>

definition is_upper :: "char \<Rightarrow> bool" where
  "is_upper c \<longleftrightarrow> 65 \<le> (of_char c :: nat) \<and> (of_char c :: nat) \<le> 90"

definition is_lower :: "char \<Rightarrow> bool" where
  "is_lower c \<longleftrightarrow> 97 \<le> (of_char c :: nat) \<and> (of_char c :: nat) \<le> 122"

text \<open>\<open>^(?:6[5-9]\d{7}|\+?[1-9]\d{7,14})$\<close>\<close>

definition PHONE_PATTERN :: "string \<Rightarrow> bool" where
  "PHONE_PATTERN s \<longleftrightarrow>
     cameroon_local s
     \<or> (let t = (if take 1 s = ''+'' then drop 1 s else s)
        in 8 \<le> length t \<and> length t \<le> 15 \<and> list_all is_digit t \<and> t ! 0 \<noteq> CHR ''0'')"

text \<open>\<open>^[A-Z0-9 -]{4,15}$\<close>\<close>

definition PLATE_PATTERN :: "string \<Rightarrow> bool" where
  "PLATE_PATTERN s \<longleftrightarrow>
     4 \<le> length s \<and> length s \<le> 15
     \<and> list_all (\<lambda>c. is_upper c \<or> is_digit c \<or> c = CHR '' '' \<or> c = CHR ''-'') s"

text \<open>\<open>[A-Z2-9]\<close>\<close>

definition recovery_char :: "char \<Rightarrow> bool" where
  "recovery_char c \<longleftrightarrow> is_upper c \<or> (50 \<le> (of_char c :: nat) \<and> (of_char c :: nat) \<le> 57)"

text \<open>\<open>^(\d{6}|[A-Z2-9]{4}-[A-Z2-9]{4})$\<close>\<close>

definition totp_or_recovery :: "string \<Rightarrow> bool" where
  "totp_or_recovery s \<longleftrightarrow>
     (length s = 6 \<and> list_all is_digit s)
     \<or> (length s = 9 \<and> s ! 4 = CHR ''-'' \<and> list_all recovery_char (take 4 s @ drop 5 s))"

fun pattern_ok :: "pattern \<Rightarrow> string \<Rightarrow> bool" where
  "pattern_ok Phone_Pattern s = PHONE_PATTERN s"
| "pattern_ok Plate_Pattern s = PLATE_PATTERN s"
| "pattern_ok Time_Pattern s = time_pattern s"
| "pattern_ok (Digits_Pattern n) s = (length s = n \<and> list_all is_digit s)"
| "pattern_ok Has_Upper s = list_ex is_upper s"
| "pattern_ok Has_Digit s = list_ex is_digit s"
| "pattern_ok Has_Special s = list_ex (\<lambda>c. \<not> is_upper c \<and> \<not> is_lower c \<and> \<not> is_digit c) s"
| "pattern_ok Totp_Or_Recovery s = totp_or_recovery s"

section \<open>The pipe\<close>

text \<open>
  \<open>convert\<close>: \<open>transform\<close> with \<open>enableImplicitConversion\<close>, by the declared type; \<open>holds\<close>: a decorator on
  the converted value; \<open>missing_element\<close>: whether a null inside a list of nested objects is let
  through, on which nothing is assumed.
\<close>

record pipe =
  convert :: "ts_type \<Rightarrow> plain \<Rightarrow> plain"
  holds :: "decorator \<Rightarrow> plain \<Rightarrow> bool"
  missing_element :: bool

text \<open>
  What the code relies on.  class-transformer looks at the value before it looks at the target type:
  a list becomes the list of its converted elements whatever type is declared, undefined and null
  stay, and anything else goes through \<open>String\<close>, \<open>Number\<close> or \<open>Boolean\<close>.  A decorator of class-validator
  first asks for the type of the value: \<open>IsLatitude\<close> and \<open>IsLongitude\<close> hold of numbers and texts only.
\<close>

definition documented :: "pipe \<Rightarrow> bool" where
  "documented v \<longleftrightarrow>
     (\<forall>ty. convert v ty Undefined = Undefined \<and> convert v ty Null = Null)
   \<and> (\<forall>ty xs. convert v ty (PList xs) = PList (map (convert v ty) xs))
   \<and> (\<forall>s. convert v T_String (PStr s) = PStr s)
   \<and> (\<forall>x. x \<in> range PList \<or> convert v T_Number x \<in> {Undefined, Null, PNotFinite} \<union> range PNum)
   \<and> (\<forall>r. convert v T_Number (PNum r) = PNum r)
   \<and> (\<forall>b. convert v T_Boolean (PBool b) = PBool b)
   \<and> (\<forall>s. convert v T_Boolean (PStr s) = PBool (s \<noteq> []))
   \<and> (\<forall>x. convert v T_Class x = x)
   \<and> (\<forall>x. holds v IsString x \<longleftrightarrow> x \<in> range PStr)
   \<and> (\<forall>x. holds v IsInt x \<longleftrightarrow> x \<in> range (\<lambda>i. PNum (of_int i)))
   \<and> (\<forall>x. holds v IsBoolean x \<longleftrightarrow> x \<in> range PBool)
   \<and> (\<forall>x. holds v IsArray x \<longleftrightarrow> x \<in> range PList)
   \<and> (\<forall>x. holds v IsDate x \<longrightarrow> x \<in> range PDate)
   \<and> (\<forall>x. holds v IsUUID x \<longrightarrow> x \<in> range PStr)
   \<and> (\<forall>vs x. holds v (IsEnum vs) x \<longleftrightarrow> x \<in> PStr ` set vs)
   \<and> (\<forall>x. holds v IsLatitude x \<longrightarrow> x \<in> range PNum \<union> range PStr)
   \<and> (\<forall>r. holds v IsLatitude (PNum r) \<longrightarrow> \<bar>r\<bar> \<le> 90)
   \<and> (\<forall>x. holds v IsLongitude x \<longrightarrow> x \<in> range PNum \<union> range PStr)
   \<and> (\<forall>r. holds v IsLongitude (PNum r) \<longrightarrow> \<bar>r\<bar> \<le> 180)
   \<and> (\<forall>n r. holds v (MinValue n) (PNum r) \<longleftrightarrow> n \<le> r)
   \<and> (\<forall>n r. holds v (MaxValue n) (PNum r) \<longleftrightarrow> r \<le> n)
   \<and> (\<forall>n s. holds v (MinLength n) (PStr s) \<longleftrightarrow> n \<le> length s)
   \<and> (\<forall>n s. holds v (MaxLength n) (PStr s) \<longleftrightarrow> length s \<le> n)
   \<and> (\<forall>n xs. holds v (ArrayMinSize n) (PList xs) \<longleftrightarrow> n \<le> length xs)
   \<and> (\<forall>n xs. holds v (ArrayMaxSize n) (PList xs) \<longleftrightarrow> length xs \<le> n)
   \<and> (\<forall>p s. holds v (Matches p) (PStr s) \<longleftrightarrow> pattern_ok p s)"

text \<open>A property of the object as sent; a key that is not there is undefined.\<close>

definition property :: "string \<Rightarrow> (string \<times> plain) list \<Rightarrow> plain" where
  "property k kvs = (case map_of kvs k of None \<Rightarrow> Undefined | Some x \<Rightarrow> x)"

text \<open>\<open>@ValidateNested\<close>: the object itself, or each element of a list of objects.\<close>

fun each_object :: "((string \<times> plain) list \<Rightarrow> bool) \<Rightarrow> bool \<Rightarrow> plain \<Rightarrow> bool" where
  "each_object ok missing (PObj kvs) = ok kvs"
| "each_object ok missing (PList xs) = list_all (each_object ok missing) xs"
| "each_object ok missing Undefined = missing"
| "each_object ok missing Null = missing"
| "each_object ok missing _ = False"

text \<open>\<open>whitelist\<close> with \<open>forbidNonWhitelisted\<close>: no property outside the class.\<close>

definition whitelisted :: "field list \<Rightarrow> (string \<times> plain) list \<Rightarrow> bool" where
  "whitelisted fs kvs = list_all (\<lambda>kv. fst kv \<in> set (map field_name fs)) kvs"

text \<open>\<open>@IsOptional\<close> and \<open>@ValidateIf\<close>: when one says no, none of the other decorators is asked.\<close>

definition ignored :: "pipe \<Rightarrow> (string \<times> plain) list \<Rightarrow> bool \<Rightarrow> (string \<times> string) option \<Rightarrow> plain \<Rightarrow> bool" where
  "ignored v kvs optional cond x \<longleftrightarrow>
     (optional \<and> (x = Undefined \<or> x = Null))
     \<or> (case cond of None \<Rightarrow> False | Some (k, s) \<Rightarrow> convert v T_String (property k kvs) \<noteq> PStr s)"

fun field_ok :: "pipe \<Rightarrow> (string \<times> plain) list \<Rightarrow> field \<Rightarrow> bool" where
  "field_ok v kvs (Field n ty optional cond ds sub) =
     (let x = convert v ty (property n kvs)
      in ignored v kvs optional cond x
         \<or> (list_all (\<lambda>d. holds v d x) ds
            \<and> (sub = [] \<or> each_object (\<lambda>o'. whitelisted sub o' \<and> list_all (field_ok v o') sub) (missing_element v) x)))"

text \<open>The body itself.\<close>

fun accepts :: "pipe \<Rightarrow> field list \<Rightarrow> plain \<Rightarrow> bool" where
  "accepts v fs (PObj kvs) = (whitelisted fs kvs \<and> list_all (field_ok v kvs) fs)"
| "accepts v fs _ = False"

section \<open>The classes\<close>

definition VerifyAdminTotpDto_fields :: "field list" where
  "VerifyAdminTotpDto_fields =
     [Field ''challenge'' T_String False None
        [IsString, MinLength 20, MaxLength 64] [],
      Field ''code'' T_String False None
        [IsString, Matches Totp_Or_Recovery] [],
      Field ''isRecoveryCode'' T_Boolean True None
        [IsBoolean] []]"

definition ConfirmAdminTotpDto_fields :: "field list" where
  "ConfirmAdminTotpDto_fields =
     [Field ''code'' T_String False None
        [IsString, Matches (Digits_Pattern 6)] []]"

definition AdminDecisionDto_fields :: "field list" where
  "AdminDecisionDto_fields =
     [Field ''reason'' T_String True None
        [IsString, MaxLength 200] []]"

definition AdminLoginDto_fields :: "field list" where
  "AdminLoginDto_fields =
     [Field ''email'' T_String False None
        [IsEmail, MaxLength 120] [],
      Field ''password'' T_String False None
        [IsString, MinLength 12, MaxLength 128, Matches Has_Upper, Matches Has_Digit, Matches Has_Special] []]"

definition ListCashoutRequestsDto_fields :: "field list" where
  "ListCashoutRequestsDto_fields =
     [Field ''status'' T_String True None
        [IsEnum [''PENDING_APPROVAL'', ''APPROVED'', ''REJECTED'', ''CANCELLED'']] [],
      Field ''limit'' T_Number True None
        [IsInt, MinValue 1, MaxValue 200] [],
      Field ''offset'' T_Number True None
        [IsInt, MinValue 0] []]"

definition RejectCashoutRequestDto_fields :: "field list" where
  "RejectCashoutRequestDto_fields =
     [Field ''reason'' T_String False None
        [IsString, MaxLength 200] []]"

definition ListVendorBalancesDto_fields :: "field list" where
  "ListVendorBalancesDto_fields =
     [Field ''status'' T_String True None
        [IsEnum [''PENDING_REVIEW'', ''CORRECTION_REQUESTED'', ''ACTIVE'', ''SUSPENDED'', ''REJECTED'']] [],
      Field ''type'' T_String True None
        [IsEnum [''INFORMAL'', ''SEMI_FORMAL'', ''RESTAURANT'']] [],
      Field ''minBalanceXAF'' T_Number True None
        [IsInt] [],
      Field ''limit'' T_Number True None
        [IsInt, MinValue 1, MaxValue 200] [],
      Field ''offset'' T_Number True None
        [IsInt, MinValue 0] []]"

definition ListRiderBalancesDto_fields :: "field list" where
  "ListRiderBalancesDto_fields =
     [Field ''vehicleType'' T_String True None
        [IsEnum [''MOTO'', ''BICYCLE'', ''CAR'', ''ON_FOOT'']] [],
      Field ''minBalanceXAF'' T_Number True None
        [IsInt] [],
      Field ''limit'' T_Number True None
        [IsInt, MinValue 1, MaxValue 200] [],
      Field ''offset'' T_Number True None
        [IsInt, MinValue 0] []]"

definition ListRefundQueueDto_fields :: "field list" where
  "ListRefundQueueDto_fields =
     [Field ''limit'' T_Number True None
        [IsInt, MinValue 1, MaxValue 200] [],
      Field ''offset'' T_Number True None
        [IsInt, MinValue 0] []]"

definition ListAuditLogsDto_fields :: "field list" where
  "ListAuditLogsDto_fields =
     [Field ''adminId'' T_String True None
        [IsUUID] [],
      Field ''action'' T_String True None
        [IsString] [],
      Field ''targetType'' T_String True None
        [IsString] [],
      Field ''targetId'' T_String True None
        [IsUUID] [],
      Field ''limit'' T_Number True None
        [IsInt, MinValue 1, MaxValue 200] [],
      Field ''offset'' T_Number True None
        [IsInt, MinValue 0] []]"

definition ManualMarkPaidDto_fields :: "field list" where
  "ManualMarkPaidDto_fields =
     [Field ''campayRef'' T_String False None
        [IsString, MinLength 3, MaxLength 120] [],
      Field ''note'' T_String True None
        [IsString, MaxLength 200] []]"

definition ResolveRiderFraudDto_fields :: "field list" where
  "ResolveRiderFraudDto_fields =
     [Field ''riderAction'' T_String False None
        [IsEnum [''SUSPEND'', ''WARN'']] [],
      Field ''vendorCompensation'' T_Boolean False None
        [IsBoolean] [],
      Field ''consumerRefund'' T_Boolean False None
        [IsBoolean] [],
      Field ''note'' T_String False None
        [IsString, MinLength 3, MaxLength 200] []]"

definition SetVendorPreOrdersDto_fields :: "field list" where
  "SetVendorPreOrdersDto_fields =
     [Field ''acceptsPreOrders'' T_Boolean False None
        [IsBoolean] []]"

definition RefreshTokenDto_fields :: "field list" where
  "RefreshTokenDto_fields =
     [Field ''refreshToken'' T_String True None
        [IsString, MinLength 1] []]"

definition RequestOtpDto_fields :: "field list" where
  "RequestOtpDto_fields =
     [Field ''phone'' T_String False None
        [IsString, Matches Phone_Pattern] [],
      Field ''cfTurnstileResponse'' T_String True None
        [IsString] []]"

definition VerifyOtpDto_fields :: "field list" where
  "VerifyOtpDto_fields =
     [Field ''phone'' T_String False None
        [IsString, Matches Phone_Pattern] [],
      Field ''code'' T_String False None
        [IsString, MinLength 6, MaxLength 6, Matches (Digits_Pattern 6)] []]"

definition UpdateAvailabilityDto_fields :: "field list" where
  "UpdateAvailabilityDto_fields =
     [Field ''isOpen'' T_Boolean False None
        [IsBoolean] []]"

definition DayHours_fields :: "field list" where
  "DayHours_fields =
     [Field ''open'' T_String False None
        [IsString, Matches Time_Pattern] [],
      Field ''close'' T_String False None
        [IsString, Matches Time_Pattern] []]"

definition UpdateHoursDto_fields :: "field list" where
  "UpdateHoursDto_fields =
     [Field ''mon'' T_Class True None
        [IsObject] DayHours_fields,
      Field ''tue'' T_Class True None
        [IsObject] DayHours_fields,
      Field ''wed'' T_Class True None
        [IsObject] DayHours_fields,
      Field ''thu'' T_Class True None
        [IsObject] DayHours_fields,
      Field ''fri'' T_Class True None
        [IsObject] DayHours_fields,
      Field ''sat'' T_Class True None
        [IsObject] DayHours_fields,
      Field ''sun'' T_Class True None
        [IsObject] DayHours_fields]"

definition BrowseCatalogueDto_fields :: "field list" where
  "BrowseCatalogueDto_fields =
     [Field ''lat'' T_Number False None
        [IsNumber, MinValue (- 90), MaxValue 90] [],
      Field ''lng'' T_Number False None
        [IsNumber, MinValue (- 180), MaxValue 180] [],
      Field ''radiusKm'' T_Number True None
        [IsNumber, MinValue (1 / 2), MaxValue 50] [],
      Field ''q'' T_String True None
        [IsString, MaxLength 80] []]"

definition UpsertItemDto_fields :: "field list" where
  "UpsertItemDto_fields =
     [Field ''name'' T_String False None
        [IsString, MinLength 2, MaxLength 80] [],
      Field ''description'' T_String True None
        [IsString, MaxLength 500] [],
      Field ''priceXAF'' T_Number False None
        [IsInt, MinValue 100, MaxValue 1000000] [],
      Field ''categoryId'' T_String True None
        [IsUUID] [],
      Field ''preparationMinutes'' T_Number True None
        [IsInt, MinValue 1, MaxValue 180] [],
      Field ''sortOrder'' T_Number True None
        [IsInt, MinValue 0] [],
      Field ''kind'' T_String True None
        [IsEnum [''FOOD'', ''DRINK'']] [],
      Field ''stockLevel'' T_String True None
        [IsEnum [''IN_STOCK'', ''LOW_STOCK'', ''OUT_OF_STOCK'']] []]"

definition UpdateItemStockDto_fields :: "field list" where
  "UpdateItemStockDto_fields =
     [Field ''isInStock'' T_Boolean True None
        [IsBoolean] [],
      Field ''stockLevel'' T_String True None
        [IsEnum [''IN_STOCK'', ''LOW_STOCK'', ''OUT_OF_STOCK'']] []]"

definition UpsertCategoryDto_fields :: "field list" where
  "UpsertCategoryDto_fields =
     [Field ''name'' T_String False None
        [IsString, MinLength 2, MaxLength 40] [],
      Field ''sortOrder'' T_Number True None
        [IsInt, MinValue 0] []]"

definition SubmitVendorDto_fields :: "field list" where
  "SubmitVendorDto_fields =
     [Field ''name'' T_String False None
        [IsString, MinLength 2, MaxLength 80] [],
      Field ''ownerName'' T_String False None
        [IsString, MinLength 2, MaxLength 80] [],
      Field ''type'' T_String True None
        [IsEnum [''INFORMAL'', ''SEMI_FORMAL'', ''RESTAURANT'']] [],
      Field ''quartier'' T_String False None
        [IsString, MinLength 2, MaxLength 80] [],
      Field ''latitude'' T_Number True None
        [IsLatitude] [],
      Field ''longitude'' T_Number True None
        [IsLongitude] [],
      Field ''pointOfReference'' T_String True None
        [IsString, MaxLength 200] [],
      Field ''whatsappPhone'' T_String False None
        [IsString, Matches Phone_Pattern] [],
      Field ''momoPhone'' T_String False None
        [IsString, Matches Phone_Pattern] [],
      Field ''declaredCapacity'' T_String False None
        [IsEnum [''LT_10'', ''R_10_30'', ''GT_30'']] [],
      Field ''firstItemName'' T_String False None
        [IsString, MinLength 2, MaxLength 80] [],
      Field ''firstItemPriceXAF'' T_Number False None
        [IsInt, MinValue 100] [],
      Field ''extraItem1Name'' T_String True None
        [IsString, MinLength 2, MaxLength 80] [],
      Field ''extraItem1PriceXAF'' T_Number True None
        [IsInt, MinValue 100] [],
      Field ''extraItem2Name'' T_String True None
        [IsString, MinLength 2, MaxLength 80] [],
      Field ''extraItem2PriceXAF'' T_Number True None
        [IsInt, MinValue 100] [],
      Field ''rccmNumber'' T_String False (Some (''type'', ''RESTAURANT''))
        [IsString, MinLength 5, MaxLength 50] [],
      Field ''niuNumber'' T_String False (Some (''type'', ''RESTAURANT''))
        [IsString, MinLength 8, MaxLength 20] []]"

definition UpdateVendorProfileDto_fields :: "field list" where
  "UpdateVendorProfileDto_fields =
     [Field ''name'' T_String True None
        [IsString, MinLength 2, MaxLength 80] [],
      Field ''description'' T_String True None
        [IsString, MaxLength 500] [],
      Field ''momoPhone'' T_String True None
        [IsString, Matches Phone_Pattern] []]"

definition ValidateCouponDto_fields :: "field list" where
  "ValidateCouponDto_fields =
     [Field ''code'' T_String False None
        [IsString, MaxLength 32] [],
      Field ''subtotalXAF'' T_Number False None
        [IsInt, MinValue 0] [],
      Field ''deliveryFeeXAF'' T_Number False None
        [IsInt, MinValue 0] []]"

definition PushKeysDto_fields :: "field list" where
  "PushKeysDto_fields =
     [Field ''p256dh'' T_String False None
        [IsString, MinLength 10, MaxLength 256] [],
      Field ''auth'' T_String False None
        [IsString, MinLength 8, MaxLength 64] []]"

definition SubscribePushDto_fields :: "field list" where
  "SubscribePushDto_fields =
     [Field ''endpoint'' T_String False None
        [IsString, MaxLength 2048] [],
      Field ''keys'' T_Class False None
        [IsObject] PushKeysDto_fields,
      Field ''deviceFingerprint'' T_String False None
        [IsString, MinLength 8, MaxLength 128] []]"

definition UnsubscribePushDto_fields :: "field list" where
  "UnsubscribePushDto_fields =
     [Field ''endpoint'' T_String False None
        [IsString, MaxLength 2048] []]"

definition CartLineDto_fields :: "field list" where
  "CartLineDto_fields =
     [Field ''itemId'' T_String False None
        [IsUUID] [],
      Field ''quantity'' T_Number False None
        [IsInt, MinValue 1, MaxValue 50] []]"

definition CreateOrderDto_fields :: "field list" where
  "CreateOrderDto_fields =
     [Field ''vendorId'' T_String False None
        [IsUUID] [],
      Field ''items'' T_Class False None
        [IsArray, ArrayMinSize 1, ArrayMaxSize 30] CartLineDto_fields,
      Field ''paymentMethod'' T_String False None
        [IsEnum [''MTN_MOMO'', ''ORANGE_MONEY'']] [],
      Field ''noteForVendor'' T_String True None
        [IsString, MaxLength 120] [],
      Field ''deliveryLat'' T_Number False None
        [IsLatitude] [],
      Field ''deliveryLng'' T_Number False None
        [IsLongitude] [],
      Field ''deliveryQuartier'' T_String False None
        [IsString, MinLength 2, MaxLength 80] [],
      Field ''deliveryLandmark'' T_String True None
        [IsString, MaxLength 200] [],
      Field ''deliveryDescription'' T_String True None
        [IsString, MaxLength 200] [],
      Field ''deliveryPhone'' T_String False None
        [IsString, Matches Phone_Pattern] [],
      Field ''scheduledFor'' T_Date True None
        [IsDate] [],
      Field ''couponCode'' T_String True None
        [IsString, MaxLength 32] []]"

definition RateOrderDto_fields :: "field list" where
  "RateOrderDto_fields =
     [Field ''vendorScore'' T_Number False None
        [IsInt, MinValue 1, MaxValue 5] [],
      Field ''riderScore'' T_Number False None
        [IsInt, MinValue 1, MaxValue 5] [],
      Field ''comment'' T_String True None
        [IsString, MaxLength 200] []]"

definition SetItemPreparedDto_fields :: "field list" where
  "SetItemPreparedDto_fields =
     [Field ''prepared'' T_Boolean False None
        [IsBoolean] []]"

definition VendorCancelPreOrderDto_fields :: "field list" where
  "VendorCancelPreOrderDto_fields =
     [Field ''note'' T_String True None
        [IsString, MaxLength 200] []]"

definition RefuseOrderDto_fields :: "field list" where
  "RefuseOrderDto_fields =
     [Field ''reason'' T_String False None
        [IsEnum [''ITEM_OUT_OF_STOCK'', ''CLOSED'', ''TOO_MANY_ORDERS'', ''POWER_OUTAGE'', ''OTHER'']] [],
      Field ''note'' T_String True None
        [IsString, MaxLength 200] []]"

definition InitiateMomoPaymentDto_fields :: "field list" where
  "InitiateMomoPaymentDto_fields =
     [Field ''payerPhone'' T_String False None
        [IsString, Matches Phone_Pattern] []]"

definition ConfirmationCodeDto_fields :: "field list" where
  "ConfirmationCodeDto_fields =
     [Field ''code'' T_String False None
        [IsString, Matches (Digits_Pattern 4)] []]"

definition RiderAvailabilityDto_fields :: "field list" where
  "RiderAvailabilityDto_fields =
     [Field ''isOnline'' T_Boolean False None
        [IsBoolean] []]"

definition RiderHeartbeatDto_fields :: "field list" where
  "RiderHeartbeatDto_fields =
     [Field ''lat'' T_Number False None
        [IsLatitude] [],
      Field ''lng'' T_Number False None
        [IsLongitude] []]"

definition SubmitRiderDto_fields :: "field list" where
  "SubmitRiderDto_fields =
     [Field ''name'' T_String False None
        [IsString, MinLength 2, MaxLength 80] [],
      Field ''phone'' T_String False None
        [IsString, Matches Phone_Pattern] [],
      Field ''vehicleType'' T_String False None
        [IsEnum [''MOTO'', ''BICYCLE'', ''CAR'', ''ON_FOOT'']] [],
      Field ''preferredZone'' T_String True None
        [IsString, MaxLength 80] [],
      Field ''licensePlate'' T_String True None
        [IsString, Matches Plate_Pattern] [],
      Field ''momoPhone'' T_String False None
        [IsString, Matches Phone_Pattern] []]"

definition UpdateRiderProfileDto_fields :: "field list" where
  "UpdateRiderProfileDto_fields =
     [Field ''preferredZone'' T_String True None
        [IsString, MaxLength 80] [],
      Field ''momoPhone'' T_String True None
        [IsString, Matches Phone_Pattern] []]"

definition UpdateUserProfileDto_fields :: "field list" where
  "UpdateUserProfileDto_fields =
     [Field ''displayName'' T_String True None
        [IsString, MinLength 2, MaxLength 80] []]"

definition UpsertAddressDto_fields :: "field list" where
  "UpsertAddressDto_fields =
     [Field ''label'' T_String True None
        [IsString, MinLength 1, MaxLength 40] [],
      Field ''description'' T_String True None
        [IsString, MaxLength 200] [],
      Field ''quartier'' T_String True None
        [IsString, MaxLength 80] [],
      Field ''landmarkId'' T_String True None
        [IsUUID] [],
      Field ''lat'' T_Number False None
        [IsLatitude] [],
      Field ''lng'' T_Number False None
        [IsLongitude] [],
      Field ''phone'' T_String True None
        [IsString, Matches Phone_Pattern] [],
      Field ''isDefault'' T_Boolean True None
        [IsBoolean] []]"

section \<open>What a validated order is\<close>

text \<open>The instance of the class a handler of \<open>POST /orders\<close> receives.\<close>

definition str_value :: "plain \<Rightarrow> string option" where
  "str_value x = (case x of PStr s \<Rightarrow> Some s | _ \<Rightarrow> None)"

definition num_value :: "plain \<Rightarrow> rat option" where
  "num_value x = (case x of PNum r \<Rightarrow> Some r | _ \<Rightarrow> None)"

definition date_value :: "plain \<Rightarrow> int option" where
  "date_value x = (case x of PDate t \<Rightarrow> Some t | _ \<Rightarrow> None)"

text \<open>An optional property: \<open>None\<close> outside when the value is neither absent nor of the type.\<close>

definition optional_of :: "(plain \<Rightarrow> 'a option) \<Rightarrow> plain \<Rightarrow> 'a option option" where
  "optional_of f x = (if x = Undefined \<or> x = Null then Some None else map_option Some (f x))"

definition method_of :: "string \<Rightarrow> PaymentMethod option" where
  "method_of s = (if s = ''MTN_MOMO'' then Some MTN_MOMO
                  else if s = ''ORANGE_MONEY'' then Some ORANGE_MONEY else None)"

fun cart_line_of :: "pipe \<Rightarrow> plain \<Rightarrow> cart_line option" where
  "cart_line_of v (PObj kvs) =
     (case (str_value (convert v T_String (property ''itemId'' kvs)),
            num_value (convert v T_Number (property ''quantity'' kvs))) of
        (Some i, Some q) \<Rightarrow> Some \<lparr>cl_itemId = i, cl_quantity = \<lfloor>q\<rfloor>\<rparr>
      | _ \<Rightarrow> None)"
| "cart_line_of v _ = None"

fun cart_of :: "pipe \<Rightarrow> plain \<Rightarrow> cart_line list option" where
  "cart_of v (PList xs) = those (map (cart_line_of v) xs)"
| "cart_of v _ = None"

definition body_of_order :: "pipe \<Rightarrow> (string \<times> plain) list \<Rightarrow> CreateOrderDto option" where
  "body_of_order v kvs =
     (let s = (\<lambda>k. convert v T_String (property k kvs))
      in case (str_value (s ''vendorId''), cart_of v (property ''items'' kvs),
               Option.bind (str_value (s ''paymentMethod'')) method_of,
               optional_of str_value (s ''noteForVendor'')) of
           (Some vid, Some items, Some pm, Some remark) \<Rightarrow>
             (case (num_value (convert v T_Number (property ''deliveryLat'' kvs)),
                    num_value (convert v T_Number (property ''deliveryLng'' kvs)),
                    str_value (s ''deliveryQuartier''), str_value (s ''deliveryPhone'')) of
                (Some lat, Some lng, Some quartier, Some phone) \<Rightarrow>
                  (case (optional_of str_value (s ''deliveryLandmark''), optional_of str_value (s ''deliveryDescription''),
                         optional_of date_value (convert v T_Date (property ''scheduledFor'' kvs)),
                         optional_of str_value (s ''couponCode'')) of
                     (Some landmark, Some description, Some due, Some coupon) \<Rightarrow>
                       Some \<lparr>d_vendorId = vid, d_items = items, d_paymentMethod = pm, d_noteForVendor = remark,
                             d_delivery = \<lparr>da_lat = lat, da_lng = lng, da_quartier = quartier, da_landmark = landmark,
                                            da_description = description, da_phone = phone\<rparr>,
                             d_scheduledFor = due, d_couponCode = coupon\<rparr>
                   | _ \<Rightarrow> None)
              | _ \<Rightarrow> None)
         | _ \<Rightarrow> None)"


section \<open>Reading off an accepted body\<close>

lemma documentedD:
  assumes "documented v"
  shows "convert v ty Undefined = Undefined" "convert v ty Null = Null"
    and "convert v T_String (PStr s) = PStr s"
    and "x \<in> range PList \<or> convert v T_Number x \<in> {Undefined, Null, PNotFinite} \<union> range PNum"
    and "convert v T_Number (PNum r) = PNum r"
    and "convert v T_Boolean (PBool b) = PBool b" "convert v T_Boolean (PStr s) = PBool (s \<noteq> [])"
    and "convert v T_Class x = x"
    and "holds v IsString x \<longleftrightarrow> x \<in> range PStr" "holds v IsInt x \<longleftrightarrow> x \<in> range (\<lambda>i. PNum (of_int i))"
    and "holds v IsBoolean x \<longleftrightarrow> x \<in> range PBool" "holds v IsArray x \<longleftrightarrow> x \<in> range PList"
    and "holds v (IsEnum vs) x \<longleftrightarrow> x \<in> PStr ` set vs"
    and "convert v ty (PList xs) = PList (map (convert v ty) xs)"
    and "holds v (MinValue n) (PNum r) \<longleftrightarrow> n \<le> r" "holds v (MaxValue n) (PNum r) \<longleftrightarrow> r \<le> n"
    and "holds v (MinLength m) (PStr s) \<longleftrightarrow> m \<le> length s" "holds v (MaxLength m) (PStr s) \<longleftrightarrow> length s \<le> m"
    and "holds v (ArrayMinSize m) (PList xs) \<longleftrightarrow> m \<le> length xs"
    and "holds v (ArrayMaxSize m) (PList xs) \<longleftrightarrow> length xs \<le> m"
    and "holds v (Matches p) (PStr s) \<longleftrightarrow> pattern_ok p s"
  using assms by (simp_all only: documented_def)

lemma documented_range:
  assumes "documented v"
  shows "holds v IsDate x \<Longrightarrow> x \<in> range PDate" and "holds v IsUUID x \<Longrightarrow> x \<in> range PStr"
    and "holds v IsLatitude (PNum r) \<Longrightarrow> \<bar>r\<bar> \<le> 90" and "holds v IsLongitude (PNum r) \<Longrightarrow> \<bar>r\<bar> \<le> 180"
    and "holds v IsLatitude x \<Longrightarrow> x \<in> range PNum \<union> range PStr" and "holds v IsLongitude x \<Longrightarrow> x \<in> range PNum \<union> range PStr"
  using assms by (simp_all only: documented_def)

lemma required_field:
  assumes "list_all (field_ok v kvs) fs" and "Field n ty False None ds sub \<in> set fs" and "d \<in> set ds"
  shows "holds v d (convert v ty (property n kvs))"
  using assms(1) [unfolded list_all_iff, rule_format, OF assms(2)] assms(3)
  by (auto simp: ignored_def list_all_iff Let_def)

lemma optional_field:
  assumes "list_all (field_ok v kvs) fs" and "Field n ty True None ds sub \<in> set fs"
    and "convert v ty (property n kvs) \<noteq> Undefined" and "convert v ty (property n kvs) \<noteq> Null" and "d \<in> set ds"
  shows "holds v d (convert v ty (property n kvs))"
  using assms(1) [unfolded list_all_iff, rule_format, OF assms(2)] assms(3-5)
  by (auto simp: ignored_def list_all_iff Let_def)

lemma nested_field:
  assumes "list_all (field_ok v kvs) fs" and "Field n ty False None ds sub \<in> set fs" and "sub \<noteq> []"
  shows "each_object (\<lambda>o'. whitelisted sub o' \<and> list_all (field_ok v o') sub) (missing_element v) (convert v ty (property n kvs))"
  using assms(1) [unfolded list_all_iff, rule_format, OF assms(2)] assms(3)
  by (auto simp: ignored_def Let_def)

text \<open>A required text, an optional text, a required number.\<close>

lemma required_text_field:
  assumes v: "documented v" and f: "list_all (field_ok v kvs) fs" "Field n ty False None ds sub \<in> set fs"
    and d: "IsString \<in> set ds"
  obtains s where "convert v ty (property n kvs) = PStr s"
    and "\<And>m. MinLength m \<in> set ds \<Longrightarrow> m \<le> length s" and "\<And>m. MaxLength m \<in> set ds \<Longrightarrow> length s \<le> m"
    and "\<And>p. Matches p \<in> set ds \<Longrightarrow> pattern_ok p s"
proof -
  obtain s where s: "convert v ty (property n kvs) = PStr s"
    using required_field [OF f d] documentedD(9) [OF v] by auto
  note h = required_field [OF f, unfolded s]
  show thesis
    by (rule that [OF s]) (use h in \<open>auto simp: documentedD [OF v] dest!: h\<close>)
qed

lemma optional_text:
  assumes v: "documented v" and f: "list_all (field_ok v kvs) fs" "Field n ty True None [IsString, MaxLength m] [] \<in> set fs"
  shows "\<exists>t. optional_of str_value (convert v ty (property n kvs)) = Some t \<and> (\<forall>s. t = Some s \<longrightarrow> length s \<le> m)"
proof (cases "convert v ty (property n kvs) \<in> {Undefined, Null}")
  case True
  then show ?thesis by (auto simp: optional_of_def)
next
  case False
  then have k: "convert v ty (property n kvs) \<noteq> Undefined" "convert v ty (property n kvs) \<noteq> Null" by auto
  note h = optional_field [OF f k]
  obtain s where s: "convert v ty (property n kvs) = PStr s"
    using h [of IsString] documentedD(9) [OF v] by auto
  have "length s \<le> m" using h [of "MaxLength m"] unfolding s by (simp add: documentedD [OF v])
  then show ?thesis by (simp add: s optional_of_def str_value_def)
qed

lemma converted_number:
  assumes v: "documented v" and d: "\<And>x. holds v d x \<Longrightarrow> x \<in> range PNum \<union> range PStr"
    and h: "holds v d (convert v T_Number x)"
  obtains r where "convert v T_Number x = PNum r" and "holds v d (PNum r)"
proof -
  from d [OF h] have "x \<notin> range PList" by (auto simp: documentedD(14) [OF v])
  then have "convert v T_Number x \<in> {Undefined, Null, PNotFinite} \<union> range PNum" using documentedD(4) [OF v, of x] by blast
  with d [OF h] obtain r where "convert v T_Number x = PNum r" by auto
  with h that show thesis by simp
qed

text \<open>An integer within bounds.\<close>

lemma bounded_int:
  assumes v: "documented v" and "holds v IsInt x" and "holds v (MinValue (of_int a)) x"
  obtains i where "x = PNum (of_int i)" and "a \<le> i" and "\<And>b. holds v (MaxValue (of_int b)) x \<Longrightarrow> i \<le> b"
proof -
  obtain i where i: "x = PNum (of_int i)" using assms(2) documentedD(10) [OF v] by auto
  have "a \<le> i" using assms(3) by (simp add: i documentedD [OF v])
  moreover have "holds v (MaxValue (of_int b)) x \<Longrightarrow> i \<le> b" for b by (simp add: i documentedD [OF v])
  ultimately show thesis using that [OF i] by blast
qed

section \<open>The cart\<close>

lemma cart_line_accepted:
  assumes v: "documented v" and ok: "list_all (field_ok v kvs) CartLineDto_fields"
  shows "\<exists>l. cart_line_of v (PObj kvs) = Some l \<and> 1 \<le> cl_quantity l \<and> cl_quantity l \<le> 50"
proof -
  let ?q = "convert v T_Number (property ''quantity'' kvs)"
  have q: "Field ''quantity'' T_Number False None [IsInt, MinValue 1, MaxValue 50] [] \<in> set CartLineDto_fields"
    and i: "Field ''itemId'' T_String False None [IsUUID] [] \<in> set CartLineDto_fields"
    by (simp_all add: CartLineDto_fields_def)
  note hq = required_field [OF ok q]
  obtain n where n: "?q = PNum (of_int n)" "1 \<le> n" "\<And>b. holds v (MaxValue (of_int b)) ?q \<Longrightarrow> n \<le> b"
    using bounded_int [OF v, of ?q 1] hq [of IsInt] hq [of "MinValue 1"] by auto
  have "n \<le> 50" using n(3) [of 50] hq [of "MaxValue 50"] by simp
  moreover obtain s where "convert v T_String (property ''itemId'' kvs) = PStr s"
    using documented_range(2) [OF v] required_field [OF ok i, of IsUUID] by auto
  ultimately show ?thesis using n(1,2) by (simp add: str_value_def num_value_def)
qed

lemma those_map_ex: "(\<exists>ys. those (map f xs) = Some ys) \<longleftrightarrow> (\<forall>x \<in> set xs. f x \<noteq> None)"
proof (induction xs)
  case (Cons x xs)
  then show ?case by (cases "f x") auto
qed simp

lemma cart_accepted:
  assumes v: "documented v" and ok: "list_all (field_ok v kvs) CreateOrderDto_fields"
  obtains xs where "property ''items'' kvs = PList xs" and "1 \<le> length xs" and "length xs \<le> 30"
    and "(\<exists>ls. cart_of v (PList xs) = Some ls) \<longleftrightarrow> (\<forall>x \<in> set xs. x \<in> range PObj)"
    and "\<And>ls. cart_of v (PList xs) = Some ls \<Longrightarrow>
           length ls = length xs \<and> (\<forall>l \<in> set ls. 1 \<le> cl_quantity l \<and> cl_quantity l \<le> 50)"
proof -
  have f: "Field ''items'' T_Class False None [IsArray, ArrayMinSize 1, ArrayMaxSize 30] CartLineDto_fields
      \<in> set CreateOrderDto_fields"
    by (simp add: CreateOrderDto_fields_def)
  note h = required_field [OF ok f]
  obtain xs where xs: "property ''items'' kvs = PList xs"
    using h [of IsArray] documentedD(8,12) [OF v] by auto
  have len: "1 \<le> length xs" "length xs \<le> 30"
    using h [of "ArrayMinSize 1"] h [of "ArrayMaxSize 30"] by (simp_all add: xs documentedD [OF v])
  have "each_object (\<lambda>o'. whitelisted CartLineDto_fields o' \<and> list_all (field_ok v o') CartLineDto_fields)
      (missing_element v) (PList xs)"
    using nested_field [OF ok f] by (simp add: xs documentedD(8) [OF v] CartLineDto_fields_def)
  then have line: "\<exists>l. cart_line_of v (PObj o') = Some l \<and> 1 \<le> cl_quantity l \<and> cl_quantity l \<le> 50"
    if "PObj o' \<in> set xs" for o'
    using that cart_line_accepted [OF v, of o'] by (auto simp: list_all_iff)
  have obj: "cart_line_of v x \<noteq> None \<longleftrightarrow> x \<in> range PObj" if "x \<in> set xs" for x
    using line that by (cases x) auto
  have ex: "(\<exists>ls. cart_of v (PList xs) = Some ls) \<longleftrightarrow> (\<forall>x \<in> set xs. x \<in> range PObj)"
    using obj by (simp add: those_map_ex)
  have all: "length ls = length xs \<and> (\<forall>l \<in> set ls. 1 \<le> cl_quantity l \<and> cl_quantity l \<le> 50)"
    if "cart_of v (PList xs) = Some ls" for ls
  proof -
    have m: "length ls = length xs" "\<forall>i < length xs. cart_line_of v (xs ! i) = Some (ls ! i)"
      using that those_map_Some by auto
    have "1 \<le> cl_quantity (ls ! i) \<and> cl_quantity (ls ! i) \<le> 50" if "i < length ls" for i
    proof -
      have s: "cart_line_of v (xs ! i) = Some (ls ! i)" "xs ! i \<in> set xs" using m that by simp_all
      then obtain o' where "xs ! i = PObj o'" using obj [OF s(2)] by auto
      then show ?thesis using line [of o'] s by auto
    qed
    then show ?thesis using m(1) by (auto simp: in_set_conv_nth)
  qed
  show thesis by (rule that [OF xs len ex all])
qed

section \<open>The order\<close>

lemma optional_date:
  assumes v: "documented v" and f: "list_all (field_ok v kvs) fs" "Field n ty True None [IsDate] [] \<in> set fs"
  shows "\<exists>t. optional_of date_value (convert v ty (property n kvs)) = Some t"
proof (cases "convert v ty (property n kvs) \<in> {Undefined, Null}")
  case True
  then show ?thesis by (auto simp: optional_of_def)
next
  case False
  then have "holds v IsDate (convert v ty (property n kvs))" using optional_field [OF f, of IsDate] by auto
  then obtain t where "convert v ty (property n kvs) = PDate t" using documented_range(1) [OF v] by blast
  then show ?thesis by (simp add: optional_of_def date_value_def)
qed

text \<open>The place of delivery.\<close>

lemma place_accepted:
  assumes v: "documented v" and ok: "list_all (field_ok v kvs) CreateOrderDto_fields"
  obtains lat lng quartier phone
  where "convert v T_Number (property ''deliveryLat'' kvs) = PNum lat" and "\<bar>lat\<bar> \<le> 90"
    and "convert v T_Number (property ''deliveryLng'' kvs) = PNum lng" and "\<bar>lng\<bar> \<le> 180"
    and "convert v T_String (property ''deliveryQuartier'' kvs) = PStr quartier"
    and "2 \<le> length quartier" and "length quartier \<le> 80"
    and "convert v T_String (property ''deliveryPhone'' kvs) = PStr phone" and "PHONE_PATTERN phone"
proof -
  let ?F = "set CreateOrderDto_fields"
  have f: "Field ''deliveryLat'' T_Number False None [IsLatitude] [] \<in> ?F"
    "Field ''deliveryLng'' T_Number False None [IsLongitude] [] \<in> ?F"
    "Field ''deliveryQuartier'' T_String False None [IsString, MinLength 2, MaxLength 80] [] \<in> ?F"
    "Field ''deliveryPhone'' T_String False None [IsString, Matches Phone_Pattern] [] \<in> ?F"
    by (simp_all add: CreateOrderDto_fields_def)
  obtain lat where lat: "convert v T_Number (property ''deliveryLat'' kvs) = PNum lat" "holds v IsLatitude (PNum lat)"
    using converted_number [OF v documented_range(5) [OF v]] required_field [OF ok f(1), of IsLatitude] by auto
  obtain lng where lng: "convert v T_Number (property ''deliveryLng'' kvs) = PNum lng" "holds v IsLongitude (PNum lng)"
    using converted_number [OF v documented_range(6) [OF v]] required_field [OF ok f(2), of IsLongitude] by auto
  have b: "\<bar>lat\<bar> \<le> 90" "\<bar>lng\<bar> \<le> 180" using documented_range(3,4) [OF v] lat(2) lng(2) by blast+
  obtain quartier where quartier: "convert v T_String (property ''deliveryQuartier'' kvs) = PStr quartier"
      "2 \<le> length quartier" "length quartier \<le> 80"
    using required_text_field [OF v ok f(3)] by (metis list.set_intros)
  obtain phone where phone: "convert v T_String (property ''deliveryPhone'' kvs) = PStr phone" "PHONE_PATTERN phone"
    using required_text_field [OF v ok f(4)] by (metis list.set_intros pattern_ok.simps(1))
  show thesis by (rule that [OF lat(1) b(1) lng(1) b(2) quartier phone])
qed

text \<open>The instance, once the cart is one: its fields are the converted properties.\<close>

lemma body_accepted:
  assumes v: "documented v" and ok: "list_all (field_ok v kvs) CreateOrderDto_fields"
    and xs: "property ''items'' kvs = PList xs"
  obtains mk where "body_of_order v kvs = map_option mk (cart_of v (PList xs))"
    and "\<And>ls. d_items (mk ls) = ls"
    and "\<And>ls. \<bar>da_lat (d_delivery (mk ls))\<bar> \<le> 90 \<and> \<bar>da_lng (d_delivery (mk ls))\<bar> \<le> 180
           \<and> PHONE_PATTERN (da_phone (d_delivery (mk ls)))
           \<and> 2 \<le> length (da_quartier (d_delivery (mk ls))) \<and> length (da_quartier (d_delivery (mk ls))) \<le> 80"
    and "\<And>ls s. d_noteForVendor (mk ls) = Some s \<Longrightarrow> length s \<le> 120"
    and "\<And>ls s. da_landmark (d_delivery (mk ls)) = Some s \<Longrightarrow> length s \<le> 200"
    and "\<And>ls s. da_description (d_delivery (mk ls)) = Some s \<Longrightarrow> length s \<le> 200"
    and "\<And>ls s. d_couponCode (mk ls) = Some s \<Longrightarrow> length s \<le> 32"
proof -
  let ?F = "set CreateOrderDto_fields"
  have f: "Field ''vendorId'' T_String False None [IsUUID] [] \<in> ?F"
    "Field ''paymentMethod'' T_String False None [IsEnum [''MTN_MOMO'', ''ORANGE_MONEY'']] [] \<in> ?F"
    "Field ''scheduledFor'' T_Date True None [IsDate] [] \<in> ?F"
    "Field ''noteForVendor'' T_String True None [IsString, MaxLength 120] [] \<in> ?F"
    "Field ''deliveryLandmark'' T_String True None [IsString, MaxLength 200] [] \<in> ?F"
    "Field ''deliveryDescription'' T_String True None [IsString, MaxLength 200] [] \<in> ?F"
    "Field ''couponCode'' T_String True None [IsString, MaxLength 32] [] \<in> ?F"
    by (simp_all add: CreateOrderDto_fields_def)
  obtain vid where vid: "convert v T_String (property ''vendorId'' kvs) = PStr vid"
    using documented_range(2) [OF v] required_field [OF ok f(1), of IsUUID] by auto
  obtain pm where pm: "Option.bind (str_value (convert v T_String (property ''paymentMethod'' kvs))) method_of = Some pm"
    using required_field [OF ok f(2), of "IsEnum [''MTN_MOMO'', ''ORANGE_MONEY'']"]
    by (auto simp: documentedD(13) [OF v] str_value_def method_of_def)
  obtain lat lng quartier phone
    where place: "convert v T_Number (property ''deliveryLat'' kvs) = PNum lat"
      "convert v T_Number (property ''deliveryLng'' kvs) = PNum lng"
      "convert v T_String (property ''deliveryQuartier'' kvs) = PStr quartier"
      "convert v T_String (property ''deliveryPhone'' kvs) = PStr phone"
    and b: "\<bar>lat\<bar> \<le> 90" "\<bar>lng\<bar> \<le> 180" "PHONE_PATTERN phone" "2 \<le> length quartier" "length quartier \<le> 80"
    using place_accepted [OF v ok] by metis
  obtain t1 t2 t3 t4 t5 where t:
      "optional_of str_value (convert v T_String (property ''noteForVendor'' kvs)) = Some t1"
      "optional_of str_value (convert v T_String (property ''deliveryLandmark'' kvs)) = Some t2"
      "optional_of str_value (convert v T_String (property ''deliveryDescription'' kvs)) = Some t3"
      "optional_of str_value (convert v T_String (property ''couponCode'' kvs)) = Some t4"
      "optional_of date_value (convert v T_Date (property ''scheduledFor'' kvs)) = Some t5"
    and tb: "\<forall>s. t1 = Some s \<longrightarrow> length s \<le> 120" "\<forall>s. t2 = Some s \<longrightarrow> length s \<le> 200"
      "\<forall>s. t3 = Some s \<longrightarrow> length s \<le> 200" "\<forall>s. t4 = Some s \<longrightarrow> length s \<le> 32"
    using optional_text [OF v ok f(4)] optional_text [OF v ok f(5)] optional_text [OF v ok f(6)]
      optional_text [OF v ok f(7)] optional_date [OF v ok f(3)] by blast
  let ?mk = "\<lambda>items. \<lparr>d_vendorId = vid, d_items = items, d_paymentMethod = pm, d_noteForVendor = t1,
         d_delivery = \<lparr>da_lat = lat, da_lng = lng, da_quartier = quartier, da_landmark = t2,
                        da_description = t3, da_phone = phone\<rparr>,
         d_scheduledFor = t5, d_couponCode = t4\<rparr>"
  have body: "body_of_order v kvs = map_option ?mk (cart_of v (PList xs))"
    unfolding body_of_order_def Let_def xs vid place t pm
    by (simp add: str_value_def num_value_def split: option.split)
  show thesis by (rule that [of ?mk]) (use body b tb in simp_all)
qed

text \<open>The cart of the instance.\<close>

lemma validated_cart:
  assumes v: "documented v" and ok: "list_all (field_ok v kvs) CreateOrderDto_fields"
    and dto: "body_of_order v kvs = Some dto"
  shows "1 \<le> length (d_items dto) \<and> length (d_items dto) \<le> 30
    \<and> (\<forall>l \<in> set (d_items dto). 1 \<le> cl_quantity l \<and> cl_quantity l \<le> 50)"
proof (rule cart_accepted [OF v ok])
  fix xs
  assume xs: "property ''items'' kvs = PList xs" "1 \<le> length xs" "length xs \<le> 30"
    and ls: "\<And>ls. cart_of v (PList xs) = Some ls \<Longrightarrow>
           length ls = length xs \<and> (\<forall>l \<in> set ls. 1 \<le> cl_quantity l \<and> cl_quantity l \<le> 50)"
  obtain mk where body: "body_of_order v kvs = map_option mk (cart_of v (PList xs))"
    and it: "\<And>ls. d_items (mk ls) = ls"
    by (rule body_accepted [OF v ok xs(1)]) blast
  obtain ls' where "cart_of v (PList xs) = Some ls'" "dto = mk ls'" using dto body by auto
  then show ?thesis using ls [of ls'] it xs(2,3) by simp
qed

text \<open>
  C27.  The validation of \<open>POST /orders\<close> is enough for the handler, but for one hole.  For every body
  the pipe lets through, \<open>items\<close> is a list of 1 to 30 entries, and the instance the handler works on
  exists exactly when each entry is an object (a list inside the list passes, because
  \<open>@ValidateNested\<close> descends into lists of any depth); then every quantity is a whole number from 1 to
  50, the coordinates are on the globe, the phone fits the phone pattern, the quarter has 2 to 80
  characters, the remark at most 120, landmark and description at most 200, the coupon code at most 32.
\<close>

theorem validated_order_is_well_formed:
  assumes v: "documented v" and acc: "accepts v CreateOrderDto_fields (PObj kvs)"
  shows "\<exists>xs. property ''items'' kvs = PList xs \<and> 1 \<le> length xs \<and> length xs \<le> 30
    \<and> ((\<exists>dto. body_of_order v kvs = Some dto) \<longleftrightarrow> (\<forall>x \<in> set xs. x \<in> range PObj))
    \<and> (\<forall>dto. body_of_order v kvs = Some dto \<longrightarrow>
         length (d_items dto) = length xs
         \<and> (\<forall>l \<in> set (d_items dto). 1 \<le> cl_quantity l \<and> cl_quantity l \<le> 50)
         \<and> \<bar>da_lat (d_delivery dto)\<bar> \<le> 90 \<and> \<bar>da_lng (d_delivery dto)\<bar> \<le> 180
         \<and> PHONE_PATTERN (da_phone (d_delivery dto))
         \<and> 2 \<le> length (da_quartier (d_delivery dto)) \<and> length (da_quartier (d_delivery dto)) \<le> 80
         \<and> (\<forall>s. d_noteForVendor dto = Some s \<longrightarrow> length s \<le> 120)
         \<and> (\<forall>s. da_landmark (d_delivery dto) = Some s \<longrightarrow> length s \<le> 200)
         \<and> (\<forall>s. da_description (d_delivery dto) = Some s \<longrightarrow> length s \<le> 200)
         \<and> (\<forall>s. d_couponCode dto = Some s \<longrightarrow> length s \<le> 32))"
proof -
  have ok: "list_all (field_ok v kvs) CreateOrderDto_fields" using acc by simp
  show ?thesis
  proof (rule cart_accepted [OF v ok])
    fix xs
    assume xs: "property ''items'' kvs = PList xs" "1 \<le> length xs" "length xs \<le> 30"
      and ex: "(\<exists>ls. cart_of v (PList xs) = Some ls) \<longleftrightarrow> (\<forall>x \<in> set xs. x \<in> range PObj)"
      and ls: "\<And>ls. cart_of v (PList xs) = Some ls \<Longrightarrow>
           length ls = length xs \<and> (\<forall>l \<in> set ls. 1 \<le> cl_quantity l \<and> cl_quantity l \<le> 50)"
    obtain mk where body: "body_of_order v kvs = map_option mk (cart_of v (PList xs))"
      and it: "\<And>ls. d_items (mk ls) = ls"
      and mk: "\<And>ls. \<bar>da_lat (d_delivery (mk ls))\<bar> \<le> 90 \<and> \<bar>da_lng (d_delivery (mk ls))\<bar> \<le> 180
           \<and> PHONE_PATTERN (da_phone (d_delivery (mk ls)))
           \<and> 2 \<le> length (da_quartier (d_delivery (mk ls))) \<and> length (da_quartier (d_delivery (mk ls))) \<le> 80"
        "\<And>ls s. d_noteForVendor (mk ls) = Some s \<Longrightarrow> length s \<le> 120"
        "\<And>ls s. da_landmark (d_delivery (mk ls)) = Some s \<Longrightarrow> length s \<le> 200"
        "\<And>ls s. da_description (d_delivery (mk ls)) = Some s \<Longrightarrow> length s \<le> 200"
        "\<And>ls s. d_couponCode (mk ls) = Some s \<Longrightarrow> length s \<le> 32"
      by (rule body_accepted [OF v ok xs(1)]) blast
    have "(\<exists>dto. body_of_order v kvs = Some dto) \<longleftrightarrow> (\<exists>ls. cart_of v (PList xs) = Some ls)"
      unfolding body by auto
    then show ?thesis using xs ex ls it mk by (intro exI [of _ xs]) (auto simp: body)
  qed
qed

text \<open>An instance of the pipe: what the documentation says, on the values it speaks about.\<close>

definition is_hex :: "char \<Rightarrow> bool" where
  "is_hex c \<longleftrightarrow> is_digit c \<or> (65 \<le> (of_char c :: nat) \<and> (of_char c :: nat) \<le> 70)
               \<or> (97 \<le> (of_char c :: nat) \<and> (of_char c :: nat) \<le> 102)"

definition is_uuid :: "string \<Rightarrow> bool" where
  "is_uuid s \<longleftrightarrow> length s = 36
     \<and> list_all (\<lambda>(n, c). if n \<in> {8, 13, 18, 23} then c = CHR ''-'' else is_hex c) (enumerate 0 s)"

fun plain_convert :: "ts_type \<Rightarrow> plain \<Rightarrow> plain" where
  "plain_convert ty Undefined = Undefined"
| "plain_convert ty Null = Null"
| "plain_convert ty (PList xs) = PList (map (plain_convert ty) xs)"
| "plain_convert T_String x = x"
| "plain_convert T_Number (PNum r) = PNum r"
| "plain_convert T_Number (PBool b) = PNum (if b then 1 else 0)"
| "plain_convert T_Number (PStr s) =
     (if s \<noteq> [] \<and> list_all is_digit s then PNum (of_nat (read_nat s)) else PNotFinite)"
| "plain_convert T_Number _ = PNotFinite"
| "plain_convert T_Boolean (PBool b) = PBool b"
| "plain_convert T_Boolean (PNum r) = PBool (r \<noteq> 0)"
| "plain_convert T_Boolean (PStr s) = PBool (s \<noteq> [])"
| "plain_convert T_Boolean _ = PBool True"
| "plain_convert T_Date (PNum r) = PDate \<lfloor>r\<rfloor>"
| "plain_convert T_Date x = x"
| "plain_convert T_Class x = x"

fun plain_holds :: "decorator \<Rightarrow> plain \<Rightarrow> bool" where
  "plain_holds IsString x = (case x of PStr _ \<Rightarrow> True | _ \<Rightarrow> False)"
| "plain_holds IsInt x = (case x of PNum r \<Rightarrow> r = of_int \<lfloor>r\<rfloor> | _ \<Rightarrow> False)"
| "plain_holds IsNumber x = (case x of PNum _ \<Rightarrow> True | _ \<Rightarrow> False)"
| "plain_holds IsBoolean x = (case x of PBool _ \<Rightarrow> True | _ \<Rightarrow> False)"
| "plain_holds IsUUID x = (case x of PStr s \<Rightarrow> is_uuid s | _ \<Rightarrow> False)"
| "plain_holds IsEmail x = (case x of PStr s \<Rightarrow> CHR ''@'' \<in> set s | _ \<Rightarrow> False)"
| "plain_holds IsLatitude x = (case x of PNum r \<Rightarrow> - 90 \<le> r \<and> r \<le> 90 | _ \<Rightarrow> False)"
| "plain_holds IsLongitude x = (case x of PNum r \<Rightarrow> - 180 \<le> r \<and> r \<le> 180 | _ \<Rightarrow> False)"
| "plain_holds IsDate x = (case x of PDate _ \<Rightarrow> True | _ \<Rightarrow> False)"
| "plain_holds IsArray x = (case x of PList _ \<Rightarrow> True | _ \<Rightarrow> False)"
| "plain_holds IsObject x = (case x of PObj _ \<Rightarrow> True | _ \<Rightarrow> False)"
| "plain_holds (IsEnum vs) x = (case x of PStr s \<Rightarrow> s \<in> set vs | _ \<Rightarrow> False)"
| "plain_holds (MinValue n) x = (case x of PNum r \<Rightarrow> n \<le> r | _ \<Rightarrow> False)"
| "plain_holds (MaxValue n) x = (case x of PNum r \<Rightarrow> r \<le> n | _ \<Rightarrow> False)"
| "plain_holds (MinLength n) x = (case x of PStr s \<Rightarrow> n \<le> length s | _ \<Rightarrow> False)"
| "plain_holds (MaxLength n) x = (case x of PStr s \<Rightarrow> length s \<le> n | _ \<Rightarrow> False)"
| "plain_holds (ArrayMinSize n) x = (case x of PList xs \<Rightarrow> n \<le> length xs | _ \<Rightarrow> False)"
| "plain_holds (ArrayMaxSize n) x = (case x of PList xs \<Rightarrow> length xs \<le> n | _ \<Rightarrow> False)"
| "plain_holds (Matches p) x = (case x of PStr s \<Rightarrow> pattern_ok p s | _ \<Rightarrow> False)"

definition plain_pipe :: pipe where
  "plain_pipe = \<lparr>convert = plain_convert, holds = plain_holds, missing_element = False\<rparr>"

lemma plain_pipe_sel [simp]:
  "convert plain_pipe = plain_convert" "holds plain_pipe = plain_holds" "missing_element plain_pipe = False"
  by (simp_all add: plain_pipe_def)

lemma plain_convert_T_String [simp]: "plain_convert T_String x = x"
  by (induction x) (simp_all add: map_idI)

lemma plain_convert_T_Class [simp]: "plain_convert T_Class x = x"
  by (induction x) (simp_all add: map_idI)

lemma plain_convert_T_Number: "x \<in> range PList \<or> plain_convert T_Number x \<in> {Undefined, Null, PNotFinite} \<union> range PNum"
  by (cases x) auto

lemma plain_holds_place:
  "plain_holds IsLatitude x \<longrightarrow> x \<in> range PNum \<union> range PStr" "plain_holds IsLongitude x \<longrightarrow> x \<in> range PNum \<union> range PStr"
  by (cases x; simp)+

lemma plain_holds_range:
  "plain_holds IsString x \<longleftrightarrow> x \<in> range PStr" "plain_holds IsInt x \<longleftrightarrow> x \<in> range (\<lambda>i. PNum (of_int i))"
  "plain_holds IsBoolean x \<longleftrightarrow> x \<in> range PBool" "plain_holds IsArray x \<longleftrightarrow> x \<in> range PList"
  "plain_holds (IsEnum vs) x \<longleftrightarrow> x \<in> PStr ` set vs"
  "plain_holds IsDate x \<longrightarrow> x \<in> range PDate" "plain_holds IsUUID x \<longrightarrow> x \<in> range PStr"
  by (cases x; auto simp: image_iff)+

lemma plain_pipe_documented: "documented plain_pipe"
  unfolding documented_def plain_pipe_sel
  by (intro conjI allI) (rule plain_holds_range plain_holds_place plain_convert_T_Number | simp add: abs_le_iff)+

definition demo_uuid :: "char \<Rightarrow> string" where
  "demo_uuid c = replicate 8 c @ ''-'' @ replicate 4 c @ ''-'' @ replicate 4 c @ ''-'' @ replicate 4 c @ ''-'' @ replicate 12 c"

lemma demo_uuid_ok: "is_uuid (demo_uuid (CHR ''a''))" "is_uuid (demo_uuid (CHR ''b''))"
  by code_simp+

definition demo_cart_line :: plain where
  "demo_cart_line = PObj [(''itemId'', PStr (demo_uuid (CHR ''b''))), (''quantity'', PStr ''2'')]"

definition demo_body :: "plain \<Rightarrow> (string \<times> plain) list" where
  "demo_body items =
     [(''vendorId'', PStr (demo_uuid (CHR ''a''))), (''items'', items), (''paymentMethod'', PStr ''MTN_MOMO''),
      (''deliveryLat'', PNum (81 / 20)), (''deliveryLng'', PNum (97 / 10)), (''deliveryQuartier'', PStr ''Akwa''),
      (''deliveryPhone'', PStr ''670000099''), (''couponCode'', Null)]"

lemma demo_body_accepted:
  "accepts plain_pipe CreateOrderDto_fields (PObj (demo_body (PList [demo_cart_line])))"
  by (simp add: CreateOrderDto_fields_def CartLineDto_fields_def whitelisted_def demo_body_def demo_cart_line_def property_def
      ignored_def demo_uuid_ok PHONE_PATTERN_def cameroon_local_def is_digit_def read_nat_def)

lemma nested_list_accepted:
  "accepts plain_pipe CreateOrderDto_fields (PObj (demo_body (PList [PList [demo_cart_line]])))"
  by (simp add: CreateOrderDto_fields_def CartLineDto_fields_def whitelisted_def demo_body_def demo_cart_line_def property_def
      ignored_def demo_uuid_ok PHONE_PATTERN_def cameroon_local_def is_digit_def read_nat_def)

theorem validated_order_is_well_formed_witness:
  "(\<exists>dto. body_of_order plain_pipe (demo_body (PList [demo_cart_line])) = Some dto \<and> length (d_items dto) = 1)
   \<and> body_of_order plain_pipe (demo_body (PList [PList [demo_cart_line]])) = None"
proof -
  have i: "property ''items'' (demo_body x) = x" for x by (simp add: property_def demo_body_def)
  have one: "\<exists>dto. body_of_order plain_pipe (demo_body (PList [demo_cart_line])) = Some dto \<and> length (d_items dto) = 1"
  proof -
    from validated_order_is_well_formed [OF plain_pipe_documented demo_body_accepted, unfolded i]
    obtain xs where xs: "PList [demo_cart_line] = PList xs"
      and e: "(\<exists>dto. body_of_order plain_pipe (demo_body (PList [demo_cart_line])) = Some dto) \<longleftrightarrow> (\<forall>x \<in> set xs. x \<in> range PObj)"
      and l: "\<forall>dto. body_of_order plain_pipe (demo_body (PList [demo_cart_line])) = Some dto \<longrightarrow> length (d_items dto) = length xs"
      by blast
    have "xs = [demo_cart_line]" using xs by simp
    then show ?thesis using e l by (auto simp: demo_cart_line_def)
  qed
  from validated_order_is_well_formed [OF plain_pipe_documented nested_list_accepted, unfolded i]
  obtain xs where xs: "PList [PList [demo_cart_line]] = PList xs"
    and e: "(\<exists>dto. body_of_order plain_pipe (demo_body (PList [PList [demo_cart_line]])) = Some dto) \<longleftrightarrow> (\<forall>x \<in> set xs. x \<in> range PObj)"
    by blast
  have "xs = [PList [demo_cart_line]]" using xs by simp
  then have "body_of_order plain_pipe (demo_body (PList [PList [demo_cart_line]])) = None" using e by auto
  then show ?thesis using one by blast
qed

section \<open>The amounts of a validated order\<close>

lemma sum_list_bounds:
  fixes xs :: "int list"
  assumes "\<forall>x \<in> set xs. 0 \<le> x \<and> x \<le> b"
  shows "0 \<le> sum_list xs" and "sum_list xs \<le> int (length xs) * b"
proof -
  show "0 \<le> sum_list xs" using assms by (intro sum_list_nonneg) blast
  show "sum_list xs \<le> int (length xs) * b" using assms by (induction xs) (auto simp: algebra_simps)
qed

text \<open>The lines a cart is priced into, under the bounds of the cart and of the menu.\<close>

lemma priced_lines_bounds:
  assumes "price_cart vid ls w = Inr lines"
    and q: "\<forall>l \<in> set ls. 1 \<le> cl_quantity l \<and> cl_quantity l \<le> 50"
    and p: "\<forall>i \<in> set (w_items w). 100 \<le> i_priceXAF i \<and> i_priceXAF i \<le> 1000000"
  shows "\<forall>l \<in> set lines. 100 \<le> ln_lineXAF l \<and> ln_lineXAF l \<le> 50000000 \<and> ln_priceXAFSnapshot l \<le> 1000000
    \<and> ln_quantity l \<le> 50"
proof
  fix l assume "l \<in> set lines"
  then obtain n where n: "n < length ls" "l = lines ! n"
    using price_cart_Inr(1) [OF assms(1)] by (auto simp: in_set_conv_nth)
  obtain i where i: "i \<in> set (w_items w)"
    and l: "l = \<lparr>ln_itemId = i_id i, ln_nameSnapshot = i_name i, ln_priceXAFSnapshot = i_priceXAF i,
                 ln_quantity = cl_quantity (ls ! n), ln_lineXAF = i_priceXAF i * cl_quantity (ls ! n)\<rparr>"
    using price_cart_Inr(2) [OF assms(1) n(1)] n(2) by blast
  have b: "1 \<le> cl_quantity (ls ! n)" "cl_quantity (ls ! n) \<le> 50" "100 \<le> i_priceXAF i" "i_priceXAF i \<le> 1000000"
    using q p i n(1) by auto
  have "100 * 1 \<le> i_priceXAF i * cl_quantity (ls ! n)" using b by (intro mult_mono) auto
  moreover have "i_priceXAF i * cl_quantity (ls ! n) \<le> 1000000 * 50" using b by (intro mult_mono) auto
  ultimately show "100 \<le> ln_lineXAF l \<and> ln_lineXAF l \<le> 50000000 \<and> ln_priceXAFSnapshot l \<le> 1000000 \<and> ln_quantity l \<le> 50"
    using b by (simp add: l)
qed

text \<open>
  C40.  No amount of an order overflows its 32-bit column.  When the menu keeps the bounds its own
  validator sets (100 to 1 000 000 FCFA), an order created from an accepted body has 1 to 30 lines, each
  of at most 50 portions and 50 000 000 FCFA, a subtotal of at most 1 500 000 000 and amounts (gross,
  discount, total) between zero and 2^31 - 1.
\<close>

theorem validated_order_fits_its_columns:
  assumes v: "documented v" and acc: "accepts v CreateOrderDto_fields (PObj kvs)"
    and dto: "body_of_order v kvs = Some dto"
    and run: "createOrder env u dto key now w = (Inr r, w')" and none: "existing_order u key w = None"
    and new: "\<forall>x \<in> set (w_orders w). o_id x \<noteq> env_orderId env"
    and menu: "\<forall>i \<in> set (w_items w). 100 \<le> i_priceXAF i \<and> i_priceXAF i \<le> 1000000"
  shows "(\<exists>ls. w_orderItems w' = w_orderItems w @ new_items env ls \<and> 1 \<le> length ls \<and> length ls \<le> 30
           \<and> (\<forall>l \<in> set ls. 100 \<le> ln_lineXAF l \<and> ln_lineXAF l \<le> 50000000 \<and> ln_quantity l \<le> 50)
           \<and> o_subtotalXAF r = sum_list (map ln_lineXAF ls))
    \<and> 100 \<le> o_subtotalXAF r \<and> o_subtotalXAF r \<le> 1500000000
    \<and> 500 \<le> o_deliveryFeeXAF r \<and> o_deliveryFeeXAF r \<le> 1500
    \<and> 0 \<le> o_totalXAF r \<and> o_totalXAF r + o_discountXAF r < 2 ^ 31"
proof -
  have ok: "list_all (field_ok v kvs) CreateOrderDto_fields" using acc by simp
  have cart: "1 \<le> length (d_items dto) \<and> length (d_items dto) \<le> 30
      \<and> (\<forall>l \<in> set (d_items dto). 1 \<le> cl_quantity l \<and> cl_quantity l \<le> 50)"
    by (rule validated_cart [OF v ok dto])
  obtain vendor ls km where ls: "price_cart (v_id vendor) (d_items dto) w = Inr ls"
    and tx: "createOrder_tx env (new_order env u dto vendor (sum_list (map ln_lineXAF ls))
           (computeDeliveryFeeXAF km) key now) ls (d_couponCode dto) now w = (Inr r, w')"
    using createOrder_fresh [OF run none] by metis
  let ?o = "new_order env u dto vendor (sum_list (map ln_lineXAF ls)) (computeDeliveryFeeXAF km) key now"
  have b: "\<forall>l \<in> set ls. 100 \<le> ln_lineXAF l \<and> ln_lineXAF l \<le> 50000000 \<and> ln_priceXAFSnapshot l \<le> 1000000
      \<and> ln_quantity l \<le> 50"
    using priced_lines_bounds [OF ls] cart menu by blast
  have len: "1 \<le> length ls" "length ls \<le> 30" using cart price_cart_Inr(1) [OF ls] by simp_all
  have line: "\<forall>x \<in> set (map ln_lineXAF ls). 0 \<le> x \<and> x \<le> 50000000" using b by fastforce
  have "int (length ls) * 50000000 \<le> 30 * 50000000" using len(2) by simp
  then have sub: "sum_list (map ln_lineXAF ls) \<le> 1500000000"
    using sum_list_bounds(2) [OF line] by simp
  obtain x ys where xy: "ls = x # ys" using len(1) by (cases ls) auto
  have "0 \<le> sum_list (map ln_lineXAF ys)" using line xy by (intro sum_list_nonneg) auto
  then have low: "100 \<le> sum_list (map ln_lineXAF ls)" using b xy by auto
  have fee: "500 \<le> computeDeliveryFeeXAF km" "computeDeliveryFeeXAF km \<le> 1500"
    using delivery_fee_bounds by blast+
  note t = createOrder_tx_Inr [OF tx]
  have "\<exists>disc cc. r = ?o\<lparr>o_discountXAF := disc, o_couponCode := cc,
      o_totalXAF := o_subtotalXAF ?o + o_deliveryFeeXAF ?o - disc\<rparr>"
    by (rule t(4)) (use new low fee in \<open>simp_all add: new_order_def\<close>)
  then have r: "o_subtotalXAF r = sum_list (map ln_lineXAF ls)" "o_deliveryFeeXAF r = computeDeliveryFeeXAF km"
    "o_totalXAF r + o_discountXAF r = sum_list (map ln_lineXAF ls) + computeDeliveryFeeXAF km"
    by (auto simp: new_order_def)
  have w': "w_orderItems w' = w_orderItems w @ new_items env ls" "order_total_ok r"
    using t(3,5) new low fee by (simp_all add: new_order_def)
  have "\<forall>l \<in> set ls. 100 \<le> ln_lineXAF l \<and> ln_lineXAF l \<le> 50000000 \<and> ln_quantity l \<le> 50" using b by blast
  then show ?thesis using r w' len sub low fee by (auto simp: order_total_ok_def)
qed

definition uuid_shop :: world where
  "uuid_shop = (demo_world [] [])
     \<lparr>w_vendors := [demo_vendor\<lparr>v_id := demo_uuid (CHR ''a'')\<rparr>],
      w_items := [demo_item\<lparr>i_id := demo_uuid (CHR ''b''), i_vendorId := demo_uuid (CHR ''a'')\<rparr>]\<rparr>"

definition uuid_dto :: CreateOrderDto where
  "uuid_dto = \<lparr>d_vendorId = demo_uuid (CHR ''a''), d_items = [\<lparr>cl_itemId = demo_uuid (CHR ''b''), cl_quantity = 2\<rparr>],
     d_paymentMethod = MTN_MOMO, d_noteForVendor = None,
     d_delivery = \<lparr>da_lat = 81 / 20, da_lng = 97 / 10, da_quartier = ''Akwa'', da_landmark = None,
                    da_description = None, da_phone = ''670000099''\<rparr>,
     d_scheduledFor = None, d_couponCode = None\<rparr>"

lemma demo_body_dto: "body_of_order plain_pipe (demo_body (PList [demo_cart_line])) = Some uuid_dto"
  by (simp add: body_of_order_def demo_body_def demo_cart_line_def property_def str_value_def num_value_def optional_of_def
      method_of_def uuid_dto_def read_nat_def is_digit_def)

theorem validated_order_fits_its_columns_witness:
  "\<exists>r w'. createOrder Order_Creation.demo_env ''C'' uuid_dto None 7 uuid_shop = (Inr r, w') \<and> o_totalXAF r + o_discountXAF r < 2 ^ 31
     \<and> 1 \<le> length (w_orderItems w')"
proof -
  have "\<not> failed (createOrder Order_Creation.demo_env ''C'' uuid_dto None 7 uuid_shop)"
    by (simp add: createOrder_def existing_order_def uuid_shop_def uuid_dto_def vendor_by_id_def
      price_cart_def cart_items_def order_line_of_def demo_item_def Order_Creation.demo_env_def demo_fee createOrder_tx_def
      MIN_ORDER_XAF_def check_schedule_def Let_def new_order_def) (simp add: demo_vendor_def)
  then obtain r w' where run: "createOrder Order_Creation.demo_env ''C'' uuid_dto None 7 uuid_shop = (Inr r, w')"
    by (auto elim: not_failedE)
  have none: "existing_order ''C'' None uuid_shop = None" by (simp add: existing_order_def)
  have "(\<exists>ls. w_orderItems w' = w_orderItems uuid_shop @ new_items Order_Creation.demo_env ls \<and> 1 \<le> length ls)
      \<and> o_totalXAF r + o_discountXAF r < 2 ^ 31"
    using validated_order_fits_its_columns [OF plain_pipe_documented demo_body_accepted demo_body_dto run none]
    by (simp add: uuid_shop_def demo_item_def) blast
  then show ?thesis using run by (auto simp: new_items_def)
qed

section \<open>Codes and numbers across the boundary\<close>

lemma length_show_nat_6: "n < 1000000 \<Longrightarrow> length (show_nat n) \<le> 6"
proof -
  assume "n < 1000000"
  then have "n div 10 div 10 < 10000" by auto
  from length_show_nat [OF this] show ?thesis
    by (simp add: show_nat.simps [of n] show_nat.simps [of "n div 10"] del: div_mult2_eq)
qed

lemma generateCode_format:
  assumes "codeDraw rnd < 1000000"
  shows "length (generateCode env rnd) = 6 \<and> list_all is_digit (generateCode env rnd)"
proof -
  have "list_all is_digit (show_nat (codeDraw rnd))" using show_nat_digits by blast
  moreover have "is_digit CHR ''0''" by (simp add: is_digit_def)
  ultimately show ?thesis
    using length_show_nat_6 [OF assms] by (auto simp: generateCode_def padStart6_def list_all_iff)
qed

lemma recovery_alphabet_chars: "list_all recovery_char recovery_alphabet" by code_simp

lemma totp_or_recovery_groups:
  assumes "length a = 4" and "length b = 4" and "list_all recovery_char (a @ b)"
  shows "totp_or_recovery (a @ CHR ''-'' # b)"
  using assms nth_append_length [of a "CHR ''-''" b] by (simp add: totp_or_recovery_def)

lemma recovery_code_pattern:
  assumes "length (fst bs) = 5" and "length (snd bs) = 3"
  shows "totp_or_recovery (recovery_code_of bs)"
proof -
  let ?raw = "map (\<lambda>b. recovery_alphabet ! (b mod length recovery_alphabet)) (fst bs @ snd bs)"
  let ?a = "take 4 ?raw" and ?b = "take 4 (drop 4 ?raw)"
  have "length recovery_alphabet = 32" by (simp add: recovery_alphabet_def)
  then have "recovery_alphabet ! (b mod length recovery_alphabet) \<in> set recovery_alphabet" for b by (intro nth_mem) simp
  then have all: "\<forall>c \<in> set ?raw. recovery_char c" using recovery_alphabet_chars by (auto simp: list_all_iff)
  have "set ?a \<subseteq> set ?raw" by (rule set_take_subset)
  moreover have "set ?b \<subseteq> set ?raw" by (meson order_trans set_take_subset set_drop_subset)
  ultimately have ab: "list_all recovery_char (?a @ ?b)" using all unfolding list_all_iff set_append by blast
  have la: "length ?a = 4" "length ?b = 4" using assms by simp_all
  have code: "recovery_code_of bs = ?a @ CHR ''-'' # ?b" by (simp add: recovery_code_of_def Let_def)
  show ?thesis unfolding code by (rule totp_or_recovery_groups [OF la ab])
qed

text \<open>
  Every code the server issues can be typed back: a login code, a pickup or delivery code and a
  recovery code are accepted by the class of the request that redeems them, whatever was drawn.
\<close>

theorem issued_codes_accepted:
  assumes v: "documented v" and "codeDraw rnd < 1000000" and "PHONE_PATTERN phone"
    and "length (fst bs) = 5" and "length (snd bs) = 3" and "20 \<le> length challenge" and "length challenge \<le> 64"
  shows "accepts v VerifyOtpDto_fields (PObj [(''phone'', PStr phone), (''code'', PStr (generateCode env rnd))])
    \<and> accepts v ConfirmationCodeDto_fields (PObj [(''code'', PStr (generate4DigitCode n))])
    \<and> accepts v VerifyAdminTotpDto_fields
        (PObj [(''challenge'', PStr challenge), (''code'', PStr (recovery_code_of bs)), (''isRecoveryCode'', PBool True)])"
  using generateCode_format [OF assms(2), of env] generate4DigitCode_format [of n] recovery_code_pattern [OF assms(4,5)] assms(3,6,7)
  by (simp add: VerifyOtpDto_fields_def ConfirmationCodeDto_fields_def VerifyAdminTotpDto_fields_def whitelisted_def
      property_def ignored_def documentedD [OF v])

text \<open>
  The number the services store is again one the validators accept, at most 16 characters long.
\<close>

lemma normalized_phone_accepted:
  assumes "PHONE_PATTERN s"
  shows "PHONE_PATTERN (normalizePhone s) \<and> length (normalizePhone s) \<le> 16"
proof (cases "cameroon_local s")
  case True
  then have "length s = 9" "s ! 0 = CHR ''6''" "s ! 1 \<in> set ''56789''" "list_all is_digit (drop 2 s)"
    by (auto simp: cameroon_local_def)
  moreover from this obtain a b t where "s = a # b # t" by (cases s; cases "tl s") auto
  ultimately show ?thesis
    using normalizePhone_spellings(1) [OF True] by (auto simp: PHONE_PATTERN_def is_digit_def)
next
  case False
  then show ?thesis
    using assms by (cases s) (auto simp: PHONE_PATTERN_def normalizePhone_def Let_def split: if_splits)
qed

section \<open>What the tables let through\<close>

text \<open>A price that passes the item class: a whole number between 100 and 1 000 000.\<close>

lemma item_price_bounded:
  assumes v: "documented v" and acc: "accepts v UpsertItemDto_fields (PObj kvs)"
  shows "\<exists>p. convert v T_Number (property ''priceXAF'' kvs) = PNum (of_int p) \<and> 100 \<le> p \<and> p \<le> 1000000"
proof -
  have ok: "list_all (field_ok v kvs) UpsertItemDto_fields" using acc by simp
  have f: "Field ''priceXAF'' T_Number False None [IsInt, MinValue 100, MaxValue 1000000] [] \<in> set UpsertItemDto_fields"
    by (simp add: UpsertItemDto_fields_def)
  let ?x = "convert v T_Number (property ''priceXAF'' kvs)"
  note h = required_field [OF ok f]
  show ?thesis
    using bounded_int [OF v, of ?x 100] h [of IsInt] h [of "MinValue 100"] h [of "MaxValue 1000000"]
    by (metis list.set_intros of_int_numeral)
qed

text \<open>Both scores of an accepted rating are whole numbers from 1 to 5.\<close>

lemma scores_bounded:
  assumes v: "documented v" and acc: "accepts v RateOrderDto_fields (PObj kvs)" and k: "k \<in> {''vendorScore'', ''riderScore''}"
  shows "\<exists>p. convert v T_Number (property k kvs) = PNum (of_int p) \<and> 1 \<le> p \<and> p \<le> 5"
proof -
  have ok: "list_all (field_ok v kvs) RateOrderDto_fields" using acc by simp
  have f: "Field k T_Number False None [IsInt, MinValue 1, MaxValue 5] [] \<in> set RateOrderDto_fields"
    using k by (auto simp: RateOrderDto_fields_def)
  let ?x = "convert v T_Number (property k kvs)"
  note h = required_field [OF ok f]
  show ?thesis
    using bounded_int [OF v, of ?x 1] h [of IsInt] h [of "MinValue 1"] h [of "MaxValue 5"]
    by (metis list.set_intros of_int_numeral of_int_1)
qed

text \<open>
  The first prices of a vendor come through another class, which has no upper bound: 3 000 000 000 passes,
  more than the 32-bit column holds.
\<close>

definition demo_dossier :: "plain \<Rightarrow> (string \<times> plain) list" where
  "demo_dossier price =
     [(''name'', PStr ''Chez Ada''), (''ownerName'', PStr ''Ada''), (''quartier'', PStr ''Akwa''),
      (''whatsappPhone'', PStr ''670000001''), (''momoPhone'', PStr ''670000001''),
      (''declaredCapacity'', PStr ''LT_10''), (''firstItemName'', PStr ''Ndole''), (''firstItemPriceXAF'', price)]"

lemma onboarding_price_unbounded:
  "accepts plain_pipe SubmitVendorDto_fields (PObj (demo_dossier (PStr ''3000000000'')))
   \<and> \<not> accepts plain_pipe UpsertItemDto_fields (PObj [(''name'', PStr ''Ndole''), (''priceXAF'', PNum 3000000000)])
   \<and> (2 :: int) ^ 31 \<le> 3000000000"
  by (simp add: SubmitVendorDto_fields_def UpsertItemDto_fields_def demo_dossier_def whitelisted_def property_def
      ignored_def PHONE_PATTERN_def cameroon_local_def is_digit_def read_nat_def)

text \<open>\<open>@IsOptional\<close> lets null through to a handler that writes what it is given.\<close>

lemma null_name_accepted:
  assumes v: "documented v"
  shows "accepts v UpdateVendorProfileDto_fields (PObj [(''name'', Null)])"
  by (simp add: UpdateVendorProfileDto_fields_def whitelisted_def property_def ignored_def documentedD [OF v])

text \<open>With the implicit conversion, any text but the empty one is true, ''false'' among them.\<close>

lemma text_false_is_true:
  assumes v: "documented v"
  shows "accepts v UpdateAvailabilityDto_fields (PObj [(''isOpen'', PStr ''false'')])
    \<and> convert v T_Boolean (property ''isOpen'' [(''isOpen'', PStr ''false'')]) = PBool True"
  by (simp add: UpdateAvailabilityDto_fields_def whitelisted_def property_def ignored_def documentedD [OF v])

text \<open>
  A mistyped local number (second digit below 5) is not refused: without a plus, nine digits are also an
  international number, stored under another country's code.
\<close>

lemma mistyped_number_accepted:
  "PHONE_PATTERN ''612345678'' \<and> \<not> cameroon_local ''612345678'' \<and> normalizePhone ''612345678'' = ''+612345678''"
  by (simp add: PHONE_PATTERN_def cameroon_local_def is_digit_def normalizePhone_def)

text \<open>No body carries a property its class does not have: the role, the status and the ids stay the server's.\<close>

lemma unknown_property_refused:
  assumes "k \<notin> set (map field_name fs)" and "k \<in> fst ` set kvs"
  shows "\<not> accepts v fs (PObj kvs)"
  using assms by (auto simp: whitelisted_def list_all_iff)

lemma role_refused: "\<not> accepts v UpdateUserProfileDto_fields (PObj [(''displayName'', x), (''role'', y)])"
  by (rule unknown_property_refused [of "''role''"]) (simp_all add: UpdateUserProfileDto_fields_def)

end
