(* ===== verification/Seeds.thy ===== *)
theory Seeds
  imports Onboarding Request_Validation
begin

text \<open>
  The programs beside the server that fill a database: \<open>prisma/seed-pilot.ts\<close>, \<open>seed-smoke.ts\<close>,
  \<open>seed-coupons.ts\<close> and \<open>seed-admin.ts\<close>, on the tables the server works on.  What they draw or fetch is
  the record \<open>seed_env\<close>: the ids of new rows and, for a photo, the failure or the name of the stored
  object (download, re-encoding and upload together).
\<close>

definition PILOT_ZONE_name :: string where "PILOT_ZONE_name = ''Bonamoussadi''"
definition PILOT_ZONE_lat :: rat where "PILOT_ZONE_lat = 40962 / 10000"
definition PILOT_ZONE_lng :: rat where "PILOT_ZONE_lng = 97385 / 10000"

definition BADGE_FOR_TYPE :: "VendorType \<Rightarrow> string" where
  "BADGE_FOR_TYPE t =
     (case t of
        INFORMAL \<Rightarrow> ''Cuisine locale '' @ [CHR 0xF0, CHR 0x9F, CHR 0x8D, CHR 0xB2]
      | SEMI_FORMAL \<Rightarrow> ''Maquis '' @ [CHR 0xF0, CHR 0x9F, CHR 0x8D, CHR 0xBD, CHR 0xEF, CHR 0xB8, CHR 0x8F]
      | RESTAURANT \<Rightarrow> ''Restaurant '' @ [CHR 0xF0, CHR 0x9F, CHR 0x8D, CHR 0xBD, CHR 0xEF, CHR 0xB8, CHR 0x8F])"

record menu_seed =
  ms_name :: string
  ms_description :: string
  ms_priceXAF :: xaf
  ms_photoUrl :: "string option"

record vendor_seed =
  vs_ownerPhone :: string
  vs_ownerName :: string
  vs_restaurantName :: string
  vs_description :: string
  vs_type :: VendorType
  vs_latOffset :: rat
  vs_lngOffset :: rat
  vs_whatsappPhone :: string
  vs_momoPhone :: string
  vs_pointOfReference :: string
  vs_items :: "menu_seed list"

record rider_seed =
  rs_phone :: string
  rs_displayName :: string
  rs_vehicleType :: RiderVehicleType
  rs_licensePlate :: string
  rs_momoPhone :: string

definition DEMO_PHOTO :: "VendorType \<Rightarrow> string" where
  "DEMO_PHOTO t =
     (case t of
        INFORMAL \<Rightarrow> ''https://images.unsplash.com/photo-1556909114-f6e7ad7d3136?w=1280&q=80''
      | SEMI_FORMAL \<Rightarrow> ''https://images.unsplash.com/photo-1555939594-58d7cb561ad1?w=1280&q=80''
      | RESTAURANT \<Rightarrow> ''https://images.unsplash.com/photo-1552566626-52f8b828add9?w=1280&q=80'')"

definition vendor_seed_1 :: vendor_seed where
  "vendor_seed_1 =
     \<lparr>vs_ownerPhone = ''+237670000101'', vs_ownerName = (''Maman Mbou'' @ [CHR 0xC3, CHR 0xA9]),
      vs_restaurantName = (''Chez Maman Mbou'' @ [CHR 0xC3, CHR 0xA9] @ '' '' @ [CHR 0xE2, CHR 0x80, CHR 0x94] @ '' PLACEHOLDER''),
      vs_description = (''Cuisine maison camerounaise '' @ [CHR 0xE2, CHR 0x80, CHR 0x94] @ '' Ndol'' @ [CHR 0xC3, CHR 0xA8] @ '', Poulet DG, Soya''),
      vs_type = INFORMAL, vs_latOffset = 0, vs_lngOffset = 0, vs_whatsappPhone = ''670000101'', vs_momoPhone = ''670000101'',
      vs_pointOfReference = (''Bonamoussadi '' @ [CHR 0xE2, CHR 0x80, CHR 0x94] @ '' point de rep'' @ [CHR 0xC3, CHR 0xA8] @ ''re placeholder''),
      vs_items =
        [\<lparr>ms_name = ''Poulet DG'', ms_description = ''Poulet, plantains'', ms_priceXAF = 3000,
           ms_photoUrl = Some ''https://images.unsplash.com/photo-1598103442097-8b74394b95c6?w=1280&q=80''\<rparr>,
         \<lparr>ms_name = (''Ndol'' @ [CHR 0xC3, CHR 0xA8]), ms_description = ''Feuilles + viande'', ms_priceXAF = 2500,
           ms_photoUrl = Some ''https://images.unsplash.com/photo-1546069901-ba9599a7e63c?w=1280&q=80''\<rparr>,
         \<lparr>ms_name = ''Soya'', ms_description = (''Brochette grill'' @ [CHR 0xC3, CHR 0xA9] @ ''e''), ms_priceXAF = 1500,
           ms_photoUrl = Some ''https://images.unsplash.com/photo-1529692236671-f1f6cf9683ba?w=1280&q=80''\<rparr>]\<rparr>"

definition vendor_seed_2 :: vendor_seed where
  "vendor_seed_2 =
     \<lparr>vs_ownerPhone = ''+237670000102'', vs_ownerName = ''Jean Atangana'',
      vs_restaurantName = (''Maquis du Carrefour '' @ [CHR 0xE2, CHR 0x80, CHR 0x94] @ '' PLACEHOLDER''),
      vs_description = (''Maquis populaire '' @ [CHR 0xE2, CHR 0x80, CHR 0x94] @ '' sandwiches, riz saut'' @ [CHR 0xC3, CHR 0xA9] @ '', brochettes''),
      vs_type = SEMI_FORMAL, vs_latOffset = 18 / 10000, vs_lngOffset = 1 / 1000, vs_whatsappPhone = ''670000102'', vs_momoPhone = ''670000102'',
      vs_pointOfReference = ''Carrefour Total Bonamoussadi'',
      vs_items =
        [\<lparr>ms_name = ''Sandwich poulet'', ms_description = ''Baguette + poulet'', ms_priceXAF = 1500,
           ms_photoUrl = Some ''https://images.unsplash.com/photo-1528735602780-2552fd46c7af?w=1280&q=80''\<rparr>,
         \<lparr>ms_name = (''Riz saut'' @ [CHR 0xC3, CHR 0xA9]), ms_description = (''Riz + l'' @ [CHR 0xC3, CHR 0xA9] @ ''gumes + viande''), ms_priceXAF = 2000,
           ms_photoUrl = Some ''https://images.unsplash.com/photo-1603133872878-684f208fb84b?w=1280&q=80''\<rparr>]\<rparr>"

definition vendor_seed_3 :: vendor_seed where
  "vendor_seed_3 =
     \<lparr>vs_ownerPhone = ''+237670000103'', vs_ownerName = (''Restaurant Le Rep'' @ [CHR 0xC3, CHR 0xA8] @ ''re''),
      vs_restaurantName = (''Restaurant Le Rep'' @ [CHR 0xC3, CHR 0xA8] @ ''re '' @ [CHR 0xE2, CHR 0x80, CHR 0x94] @ '' PLACEHOLDER''),
      vs_description = (''Cuisine traditionnelle '' @ [CHR 0xE2, CHR 0x80, CHR 0x94] @ '' Eru, Koki, plats du jour''),
      vs_type = RESTAURANT, vs_latOffset = - 12 / 10000, vs_lngOffset = - 15 / 10000, vs_whatsappPhone = ''670000103'', vs_momoPhone = ''670000103'',
      vs_pointOfReference = (''Face '' @ [CHR 0xC3, CHR 0xA0] @ '' la pharmacie de Bonamoussadi''),
      vs_items =
        [\<lparr>ms_name = ''Eru'', ms_description = (''Feuilles d'' @ [CHR 0x27] @ ''eru + waterfufu''), ms_priceXAF = 2000,
           ms_photoUrl = Some ''https://images.unsplash.com/photo-1565299624946-b28f40a0ae38?w=1280&q=80''\<rparr>,
         \<lparr>ms_name = ''Koki'', ms_description = (''P'' @ [CHR 0xC3, CHR 0xA2] @ ''t'' @ [CHR 0xC3, CHR 0xA9] @ '' de haricots vapeur''), ms_priceXAF = 1200,
           ms_photoUrl = Some ''https://images.unsplash.com/photo-1543353071-10c8ba85a904?w=1280&q=80''\<rparr>]\<rparr>"
definition VENDORS :: "vendor_seed list" where "VENDORS = [vendor_seed_1, vendor_seed_2, vendor_seed_3]"

definition pilot_rider :: "char \<Rightarrow> rider_seed" where
  "pilot_rider n =
     \<lparr>rs_phone = ''+23767000020'' @ [n],
      rs_displayName = ''Livreur '' @ [n] @ '' '' @ [CHR 0xE2, CHR 0x80, CHR 0x94] @ '' PLACEHOLDER'',
      rs_vehicleType = MOTO, rs_licensePlate = ''LT000'' @ [n], rs_momoPhone = ''67000020'' @ [n]\<rparr>"

definition RIDERS :: "rider_seed list" where "RIDERS = map pilot_rider ''123''"

record seed_env =
  se_upload :: "string \<Rightarrow> string \<Rightarrow> string + string"
  se_user :: "string \<Rightarrow> uuid"
  se_vendor :: "string \<Rightarrow> uuid"
  se_item :: "uuid \<Rightarrow> string \<Rightarrow> uuid"
  se_rider :: "string \<Rightarrow> uuid"
  se_now :: time

section \<open>The steps of a seed\<close>

text \<open>\<open>makeR2Client\<close>: the four variables have to be there and not empty.\<close>

definition makeR2Client :: "string option \<Rightarrow> string option \<Rightarrow> string option \<Rightarrow> string option \<Rightarrow> http_error + unit" where
  "makeR2Client accountId accessKeyId secretAccessKey bucket =
     (if falsy accountId \<or> falsy accessKeyId \<or> falsy secretAccessKey \<or> falsy bucket
      then Inl (UpstreamError ''R2 env not configured'') else Inr ())"

definition downloadAndUploadPhoto :: "seed_env \<Rightarrow> string \<Rightarrow> string \<Rightarrow> http_error + string" where
  "downloadAndUploadPhoto env sourceUrl keyPrefix =
     (case se_upload env keyPrefix sourceUrl of
        Inl e \<Rightarrow> Inl (UpstreamError e)
      | Inr u \<Rightarrow> Inr (keyPrefix @ ''/seed-'' @ u @ ''.webp''))"

text \<open>\<open>user.upsert\<close> by phone; the smoke seed leaves the name of an existing user (\<open>rename\<close> false).\<close>

definition seeded_user :: "UserRole \<Rightarrow> string \<Rightarrow> bool \<Rightarrow> user \<Rightarrow> user" where
  "seeded_user role name rename u =
     (if rename then u\<lparr>us_role := role, us_isActive := True, us_displayName := Some name\<rparr>
      else u\<lparr>us_role := role, us_isActive := True\<rparr>)"

definition seed_user ::
  "seed_env \<Rightarrow> string \<Rightarrow> UserRole \<Rightarrow> string \<Rightarrow> bool \<Rightarrow> auth_world \<Rightarrow> uuid \<times> auth_world" where
  "seed_user env phone role name rename w =
     (case user_by_phone phone w of
        Some u \<Rightarrow> (us_id u, w\<lparr>a_users := upd_where (\<lambda>x. us_phone x = Some phone) (seeded_user role name rename) (a_users w)\<rparr>)
      | None \<Rightarrow> (se_user env phone, w\<lparr>a_users := a_users w @ [new_user (se_user env phone) phone (Some name) role]\<rparr>))"

text \<open>The row of a new vendor: columns the statement does not name keep the defaults of the schema.\<close>

definition default_vendor :: "uuid \<Rightarrow> uuid \<Rightarrow> time \<Rightarrow> vendor" where
  "default_vendor i userId now =
     \<lparr>v_id = i, v_userId = userId, v_name = [], v_type = INFORMAL, v_status = VS_PENDING_REVIEW, v_whatsappPhone = [],
      v_momoPhone = [], v_isOpen = False, v_commissionRate = 1 / 10, v_acceptsPreOrders = False, v_createdAt = now,
      v_ownerName = None, v_description = None, v_quartier = [], v_pointOfReference = None, v_location = (0, 0),
      v_badge = None, v_hours = None, v_declaredCapacity = None, v_profilePhotoUrl = None, v_coverPhotoUrl = None,
      v_rccmNumber = None, v_niuNumber = None, v_enseignePhotoUrl = None, v_submittedAt = now, v_validatedAt = None,
      v_rejectedAt = None, v_rejectionReason = None\<rparr>"

text \<open>The assignments the insert and the update of the pilot share.\<close>

definition pilot_columns :: "vendor_seed \<Rightarrow> string option \<Rightarrow> vendor \<Rightarrow> vendor" where
  "pilot_columns v photo x =
     x\<lparr>v_name := vs_restaurantName v, v_ownerName := Some (vs_ownerName v), v_description := Some (vs_description v),
       v_type := vs_type v, v_badge := Some (BADGE_FOR_TYPE (vs_type v)), v_profilePhotoUrl := photo, v_isOpen := True,
       v_status := VS_ACTIVE, v_quartier := PILOT_ZONE_name,
       v_location := (PILOT_ZONE_lat + vs_latOffset v, PILOT_ZONE_lng + vs_lngOffset v)\<rparr>"

definition pilot_vendor :: "seed_env \<Rightarrow> vendor_seed \<Rightarrow> uuid \<Rightarrow> string option \<Rightarrow> vendor" where
  "pilot_vendor env v userId photo =
     pilot_columns v photo
       ((default_vendor (se_vendor env (vs_ownerPhone v)) userId (se_now env))
          \<lparr>v_pointOfReference := Some (vs_pointOfReference v), v_whatsappPhone := vs_whatsappPhone v,
           v_momoPhone := vs_momoPhone v, v_declaredCapacity := Some 30\<rparr>)"

definition seed_item_row :: "seed_env \<Rightarrow> uuid \<Rightarrow> menu_seed \<Rightarrow> string option \<Rightarrow> item" where
  "seed_item_row env vendorId it photoUrl =
     \<lparr>i_id = se_item env vendorId (ms_name it), i_vendorId = vendorId, i_name = ms_name it, i_priceXAF = ms_priceXAF it,
      i_isAvailable = True, i_isInStock = True, i_categoryId = None, i_description = Some (ms_description it),
      i_photoUrl = photoUrl, i_stockLevel = IN_STOCK, i_kind = FOOD, i_preparationMinutes = None, i_sortOrder = 0,
      i_createdAt = se_now env\<rparr>"

definition item_named :: "uuid \<Rightarrow> string \<Rightarrow> world \<Rightarrow> item option" where
  "item_named vendorId name w = find_row (\<lambda>i. i_vendorId i = vendorId \<and> i_name i = name) (w_items w)"

text \<open>One dish: a failed upload is logged and leaves it without a photo.\<close>

definition item_photo :: "seed_env \<Rightarrow> menu_seed \<Rightarrow> item option \<Rightarrow> string option" where
  "item_photo env it existing =
     (let photoUrl = (case existing of Some i \<Rightarrow> i_photoUrl i | None \<Rightarrow> None)
      in if \<not> falsy (ms_photoUrl it) \<and> falsy photoUrl
         then (case downloadAndUploadPhoto env (the (ms_photoUrl it)) ''item-photo'' of Inl _ \<Rightarrow> None | Inr k \<Rightarrow> Some k)
         else photoUrl)"

definition seed_item :: "seed_env \<Rightarrow> uuid \<Rightarrow> menu_seed \<Rightarrow> world \<Rightarrow> world" where
  "seed_item env vendorId it w =
     (let existing = item_named vendorId (ms_name it) w; photoUrl = item_photo env it existing
      in case existing of
           None \<Rightarrow> w\<lparr>w_items := w_items w @ [seed_item_row env vendorId it photoUrl]\<rparr>
         | Some i \<Rightarrow>
             if \<not> falsy photoUrl \<and> falsy (i_photoUrl i)
             then w\<lparr>w_items := upd_where (\<lambda>x. i_id x = i_id i) (\<lambda>x. x\<lparr>i_photoUrl := photoUrl\<rparr>) (w_items w)\<rparr>
             else w)"

definition seed_items :: "seed_env \<Rightarrow> uuid \<Rightarrow> menu_seed list \<Rightarrow> world \<Rightarrow> world" where
  "seed_items env vendorId its w = foldl (\<lambda>w it. seed_item env vendorId it w) w its"

definition write_vendor :: "seed_env \<Rightarrow> vendor_seed \<Rightarrow> uuid \<Rightarrow> vendor option \<Rightarrow> string option \<Rightarrow> world \<Rightarrow> uuid \<times> world" where
  "write_vendor env v userId existing photo w =
     (case existing of
        None \<Rightarrow> (se_vendor env (vs_ownerPhone v), w\<lparr>w_vendors := w_vendors w @ [pilot_vendor env v userId photo]\<rparr>)
      | Some x \<Rightarrow> (v_id x, w\<lparr>w_vendors := upd_where (\<lambda>y. v_id y = v_id x) (pilot_columns v photo) (w_vendors w)\<rparr>))"

text \<open>One vendor of the pilot: a failed profile photo ends the run, with what was written before it.\<close>

definition seed_vendor :: "seed_env \<Rightarrow> vendor_seed \<Rightarrow> auth_world \<Rightarrow> (unit, auth_world) outcome" where
  "seed_vendor env v w =
     (let (userId, w1) = seed_user env (vs_ownerPhone v) VENDOR (vs_ownerName v) True w;
          existing = Onboarding.account_vendor userId w1;
          profilePhotoUrl = (case existing of Some x \<Rightarrow> v_profilePhotoUrl x | None \<Rightarrow> None)
      in case (if falsy profilePhotoUrl
               then map_sum id Some (downloadAndUploadPhoto env (DEMO_PHOTO (vs_type v)) ''vendor-profile'')
               else Inr profilePhotoUrl) of
           Inl e \<Rightarrow> (Inl e, w1)
         | Inr photo \<Rightarrow>
             (Inr (), on_world (\<lambda>x. let (vendorId, y) = write_vendor env v userId existing photo x
                                    in seed_items env vendorId (vs_items v) y) w1))"

definition pilot_rider_columns :: "rider \<Rightarrow> rider" where
  "pilot_rider_columns x = x\<lparr>r_preferredZone := Some PILOT_ZONE_name, r_status := RS_ACTIVE\<rparr>"

definition pilot_rider_row :: "seed_env \<Rightarrow> rider_seed \<Rightarrow> uuid \<Rightarrow> rider" where
  "pilot_rider_row env r userId =
     pilot_rider_columns
       ((blank_rider (se_rider env (rs_phone r)) userId (se_now env))
          \<lparr>r_vehicleType := rs_vehicleType r, r_licensePlate := Some (rs_licensePlate r), r_momoPhone := rs_momoPhone r,
           r_hasLocation := True, r_lastSeenAt := Some (se_now env)\<rparr>)"

text \<open>One rider; the plate is a unique column.\<close>

definition seed_rider :: "seed_env \<Rightarrow> rider_seed \<Rightarrow> auth_world \<Rightarrow> (unit, auth_world) outcome" where
  "seed_rider env r w =
     (let (userId, w1) = seed_user env (rs_phone r) RIDER (rs_displayName r) True w
      in case rider_of userId w1 of
           None \<Rightarrow>
             if clashes r_licensePlate (Some (rs_licensePlate r)) (\<lambda>_. True) (w_riders (a_world w1))
             then (Inl (PrismaError ''P2010''), w1)
             else (Inr (), on_world (\<lambda>x. x\<lparr>w_riders := w_riders x @ [pilot_rider_row env r userId]\<rparr>) w1)
         | Some x \<Rightarrow>
             (Inr (), on_world (\<lambda>y. y\<lparr>w_riders := upd_where (\<lambda>z. r_id z = r_id x) pilot_rider_columns (w_riders y)\<rparr>) w1))"

fun run_all :: "('a \<Rightarrow> 'w \<Rightarrow> (unit, 'w) outcome) \<Rightarrow> 'a list \<Rightarrow> 'w \<Rightarrow> (unit, 'w) outcome" where
  "run_all step [] w = (Inr (), w)"
| "run_all step (a # as) w = (case step a w of (Inl e, w') \<Rightarrow> (Inl e, w') | (Inr _, w') \<Rightarrow> run_all step as w')"

text \<open>Photo keys of an earlier run, under a prefix the media proxy refuses, are removed first.\<close>

definition stale_photo :: "item \<Rightarrow> bool" where
  "stale_photo i = (case i_photoUrl i of Some k \<Rightarrow> starts_with ''menu-items/'' k | None \<Rightarrow> False)"

definition clear_stale_photos :: "world \<Rightarrow> world" where
  "clear_stale_photos w = w\<lparr>w_items := upd_where stale_photo (\<lambda>i. i\<lparr>i_photoUrl := None\<rparr>) (w_items w)\<rparr>"

definition seed_pilot ::
  "seed_env \<Rightarrow> string option \<Rightarrow> string option \<Rightarrow> string option \<Rightarrow> string option \<Rightarrow> auth_world \<Rightarrow> (unit, auth_world) outcome" where
  "seed_pilot env accountId accessKeyId secretAccessKey bucket w =
     (case makeR2Client accountId accessKeyId secretAccessKey bucket of
        Inl e \<Rightarrow> (Inl e, w)
      | Inr _ \<Rightarrow>
          (case run_all (seed_vendor env) VENDORS (on_world clear_stale_photos w) of
             (Inl e, w1) \<Rightarrow> (Inl e, w1)
           | (Inr _, w1) \<Rightarrow> run_all (seed_rider env) RIDERS w1))"

section \<open>Users\<close>

lemma falsy_iff: "falsy x \<longleftrightarrow> x = None \<or> x = Some []" by (cases x) auto

definition user_settled :: "string \<Rightarrow> UserRole \<Rightarrow> string \<Rightarrow> bool \<Rightarrow> auth_world \<Rightarrow> bool" where
  "user_settled phone role name rename w \<longleftrightarrow>
     user_by_phone phone w \<noteq> None
     \<and> (\<forall>y \<in> set (a_users w). us_phone y = Some phone \<longrightarrow> seeded_user role name rename y = y)"

lemma seeded_user_sel [simp]:
  "us_phone (seeded_user role name rename u) = us_phone u" "us_id (seeded_user role name rename u) = us_id u"
  "seeded_user role name rename (seeded_user role name rename u) = seeded_user role name rename u"
  by (simp_all add: seeded_user_def)

lemma upd_where_fixed: "\<forall>x \<in> set xs. p x \<longrightarrow> f x = x \<Longrightarrow> upd_where p f xs = xs"
  by (induction xs) auto

lemma seed_user_rests:
  assumes "user_settled phone role name rename w" and "user_by_phone phone w = Some u"
  shows "seed_user env phone role name rename w = (us_id u, w)"
  using assms by (simp add: seed_user_def user_settled_def upd_where_fixed)

lemma seed_user_world [simp]: "a_world (snd (seed_user env phone role name rename w)) = a_world w"
  by (simp add: seed_user_def split: option.split)

lemma seed_user_settles:
  assumes "seed_user env phone role name rename w = (i, w1)"
  shows "user_settled phone role name rename w1" and "map_option us_id (user_by_phone phone w1) = Some i"
proof -
  have "user_settled phone role name rename w1 \<and> map_option us_id (user_by_phone phone w1) = Some i"
  proof (cases "user_by_phone phone w")
    case None
    then have "\<forall>y \<in> set (a_users w). us_phone y \<noteq> Some phone" by (auto simp: user_by_phone_def find_row_None)
    then show ?thesis using assms None
      by (auto simp: seed_user_def user_settled_def user_by_phone_def find_row_append new_user_def seeded_user_def)
  next
    case (Some u)
    have "find_row (\<lambda>u. us_phone u = Some phone)
          (upd_where (\<lambda>x. us_phone x = Some phone) (seeded_user role name rename) (a_users w)) =
        Some (seeded_user role name rename u)"
      using Some find_row_Some [of _ "a_users w" u] by (subst find_row_cong_upd) (auto simp: user_by_phone_def)
    then show ?thesis using assms Some
      by (auto simp: seed_user_def user_settled_def user_by_phone_def set_upd_where)
  qed
  then show "user_settled phone role name rename w1" "map_option us_id (user_by_phone phone w1) = Some i" by blast+
qed

lemma find_row_upd_other:
  assumes "\<And>r. q (f r) = q r" and "\<And>r. p r \<Longrightarrow> \<not> q r"
  shows "find_row q (upd_where p f rs) = find_row q rs"
  using assms by (induction rs) auto

text \<open>The rows of the other users, and the ids.\<close>

lemma seed_user_others:
  assumes "seed_user env phone role name rename w = (i, w1)" and "q \<noteq> phone"
  shows "user_by_phone q w1 = user_by_phone q w"
    and "user_settled q role' name' rename' w \<Longrightarrow> user_settled q role' name' rename' w1"
proof -
  have f: "find_row (\<lambda>u. us_phone u = Some q)
      (upd_where (\<lambda>x. us_phone x = Some phone) (seeded_user role name rename) (a_users w)) =
      find_row (\<lambda>u. us_phone u = Some q) (a_users w)"
    using assms(2) by (intro find_row_upd_other) auto
  show same: "user_by_phone q w1 = user_by_phone q w"
    using assms f by (auto simp: seed_user_def user_by_phone_def find_row_append new_user_def split: option.splits)
  have "\<forall>y \<in> set (a_users w1). us_phone y = Some q \<longrightarrow> y \<in> set (a_users w)"
    using assms by (auto simp: seed_user_def set_upd_where new_user_def split: option.splits if_splits)
  then show "user_settled q role' name' rename' w \<Longrightarrow> user_settled q role' name' rename' w1"
    using same by (auto simp: user_settled_def)
qed

lemma seed_user_ids:
  assumes "seed_user env phone role name rename w = (i, w1)" and "se_user env phone \<notin> us_id ` set (a_users w)"
    and "distinct (map us_id (a_users w))"
  shows "distinct (map us_id (a_users w1))" and "us_id ` set (a_users w1) \<subseteq> insert (se_user env phone) (us_id ` set (a_users w))"
    and "user_by_phone q w = Some u \<Longrightarrow> q \<noteq> phone \<Longrightarrow> us_id u \<noteq> i"
proof -
  have m: "map us_id (upd_where (\<lambda>x. us_phone x = Some phone) (seeded_user role name rename) (a_users w)) = map us_id (a_users w)"
    by (rule map_key_upd_where) simp
  show "distinct (map us_id (a_users w1))"
    using assms m by (auto simp: seed_user_def new_user_def split: option.splits)
  have "set (map us_id (a_users w1)) \<subseteq> insert (se_user env phone) (set (map us_id (a_users w)))"
    using assms m by (auto simp: seed_user_def new_user_def split: option.splits simp del: set_map)
  then show "us_id ` set (a_users w1) \<subseteq> insert (se_user env phone) (us_id ` set (a_users w))" by simp
  assume q: "user_by_phone q w = Some u" "q \<noteq> phone"
  then have u: "u \<in> set (a_users w)" "us_phone u = Some q" by (auto simp: user_by_phone_def dest: find_row_Some)
  show "us_id u \<noteq> i"
  proof (cases "user_by_phone phone w")
    case None
    then have "i = se_user env phone" using assms(1) by (simp add: seed_user_def)
    then show ?thesis using assms(2) u by (metis imageI)
  next
    case (Some x)
    then have "x \<in> set (a_users w)" "us_phone x = Some phone" by (auto simp: user_by_phone_def dest: find_row_Some)
    moreover have "inj_on us_id (set (a_users w))" using assms(3) by (simp add: distinct_map)
    ultimately have "us_id u \<noteq> us_id x" using u q(2) by (metis inj_onD option.inject)
    moreover have "i = us_id x" using assms(1) Some by (simp add: seed_user_def)
    ultimately show ?thesis by simp
  qed
qed

section \<open>What the pilot rows are worth\<close>

text \<open>The seed draws the badges of the onboarding form, and rows its validators accept.\<close>

lemma badges_agree: "BADGE_FOR_TYPE t = badgeForType t"
  by (cases t) (simp_all add: BADGE_FOR_TYPE_def badgeForType_def)

lemma pilot_menus_valid:
  "\<forall>v \<in> set VENDORS. 2 \<le> length (vs_restaurantName v) \<and> length (vs_restaurantName v) \<le> 80
     \<and> PHONE_PATTERN (vs_ownerPhone v) \<and> PHONE_PATTERN (vs_whatsappPhone v) \<and> PHONE_PATTERN (vs_momoPhone v)
     \<and> int (length (vs_items v)) \<le> 15 \<and> distinct (map ms_name (vs_items v))
     \<and> (\<forall>it \<in> set (vs_items v). 2 \<le> length (ms_name it) \<and> length (ms_name it) \<le> 80
          \<and> length (ms_description it) \<le> 500 \<and> 100 \<le> ms_priceXAF it \<and> ms_priceXAF it \<le> 1000000)"
  by (simp add: VENDORS_def vendor_seed_1_def vendor_seed_2_def vendor_seed_3_def PHONE_PATTERN_def cameroon_local_def is_digit_def)

lemma pilot_riders_valid:
  "\<forall>r \<in> set RIDERS. PHONE_PATTERN (rs_phone r) \<and> PHONE_PATTERN (rs_momoPhone r) \<and> PLATE_PATTERN (rs_licensePlate r)"
  by (simp add: RIDERS_def pilot_rider_def PHONE_PATTERN_def PLATE_PATTERN_def cameroon_local_def is_digit_def is_upper_def)

text \<open>
  Where the pilot rows differ from what the onboarding writes for the same dossier: the commission is the
  default of the column, not the rate of the type; the informal vendor takes no pre-orders; the phones
  stay as typed, so that the status check by phone does not find the vendor.
\<close>

lemma pilot_commission:
  "v_commissionRate (pilot_vendor env v u p) = 1 / 10"
  "COMMISSION_RATE_BY_TYPE (vs_type vendor_seed_1) = 6 / 100" "COMMISSION_RATE_BY_TYPE (vs_type vendor_seed_3) = 17 / 100"
  "\<not> v_acceptsPreOrders (pilot_vendor env v u p)"
  by (simp_all add: pilot_vendor_def pilot_columns_def default_vendor_def COMMISSION_RATE_BY_TYPE_def vendor_seed_1_def
      vendor_seed_3_def)

lemma pilot_phone_not_found:
  assumes "v \<in> set VENDORS"
  shows "getStatusByPhone (vs_whatsappPhone v) (w\<lparr>w_vendors := [pilot_vendor env v u p]\<rparr>) = Inl (NotFound ''vendor_not_found'')"
  using assms
  by (auto simp: VENDORS_def getStatusByPhone_def pilot_vendor_def pilot_columns_def default_vendor_def vendor_seed_1_def
      vendor_seed_2_def vendor_seed_3_def normalizePhone_def cameroon_local_def is_digit_def)

section \<open>The smoke seed\<close>

definition MAKEPE :: "rat \<times> rat" where "MAKEPE = (40744 / 10000, 97565 / 10000)"
definition VENDOR_PHONE :: string where "VENDOR_PHONE = ''+237670000091''"
definition RIDER_PHONE :: string where "RIDER_PHONE = ''+237670000092''"

definition smoke_items :: "menu_seed list" where
  "smoke_items =
     [\<lparr>ms_name = ''Poulet DG'', ms_description = (''Poulet r'' @ [CHR 0xC3, CHR 0xB4] @ ''ti, plantains, l'' @ [CHR 0xC3, CHR 0xA9] @ ''gumes''),
       ms_priceXAF = 3000, ms_photoUrl = None\<rparr>,
      \<lparr>ms_name = (''Ndol'' @ [CHR 0xC3, CHR 0xA8] @ '' + viande''),
       ms_description = (''Plat traditionnel '' @ [CHR 0xE2, CHR 0x80, CHR 0x94] @ '' feuilles + boeuf''),
       ms_priceXAF = 2500, ms_photoUrl = None\<rparr>,
      \<lparr>ms_name = ''Bobolo + sauce arachide'', ms_description = (''Manioc ferment'' @ [CHR 0xC3, CHR 0xA9] @ '', sauce maison''),
       ms_priceXAF = 1500, ms_photoUrl = None\<rparr>]"

definition smoke_vendor_columns :: "vendor \<Rightarrow> vendor" where
  "smoke_vendor_columns x = x\<lparr>v_isOpen := True, v_status := VS_ACTIVE, v_location := MAKEPE\<rparr>"

definition smoke_vendor :: "seed_env \<Rightarrow> uuid \<Rightarrow> vendor" where
  "smoke_vendor env userId =
     smoke_vendor_columns
       ((default_vendor (se_vendor env VENDOR_PHONE) userId (se_now env))
          \<lparr>v_name := ''Chez Maman Smoke'',
           v_description := Some (''Cuisine locale Camerounaise '' @ [CHR 0xE2, CHR 0x80, CHR 0x94] @ '' smoke-test seed.''),
           v_quartier := ''Makepe'', v_pointOfReference := Some ''En face de la pharmacie Ste-Marie'',
           v_whatsappPhone := ''670000091'', v_momoPhone := ''670000091'', v_declaredCapacity := Some 30\<rparr>)"

definition smoke_rider_columns :: "time \<Rightarrow> rider \<Rightarrow> rider" where
  "smoke_rider_columns now x =
     x\<lparr>r_status := RS_ACTIVE, r_isOnline := True, r_hasLocation := True, r_lastSeenAt := Some now\<rparr>"

definition smoke_rider :: "seed_env \<Rightarrow> uuid \<Rightarrow> rider" where
  "smoke_rider env userId =
     smoke_rider_columns (se_now env)
       ((blank_rider (se_rider env RIDER_PHONE) userId (se_now env))
          \<lparr>r_licensePlate := Some ''LT9999'', r_preferredZone := Some ''Makepe'', r_momoPhone := ''670000092''\<rparr>)"

definition smoke_vendor_step :: "seed_env \<Rightarrow> uuid \<Rightarrow> world \<Rightarrow> world" where
  "smoke_vendor_step env userId w =
     (let (vendorId, y) =
        (case find_row (\<lambda>x. v_userId x = userId) (w_vendors w) of
           None \<Rightarrow> (se_vendor env VENDOR_PHONE, w\<lparr>w_vendors := w_vendors w @ [smoke_vendor env userId]\<rparr>)
         | Some x \<Rightarrow> (v_id x, w\<lparr>w_vendors := upd_where (\<lambda>y. v_id y = v_id x) smoke_vendor_columns (w_vendors w)\<rparr>))
      in seed_items env vendorId smoke_items y)"

definition seed_smoke :: "seed_env \<Rightarrow> auth_world \<Rightarrow> (unit, auth_world) outcome" where
  "seed_smoke env w =
     (let (vendorUser, w1) = seed_user env VENDOR_PHONE VENDOR ''Maman Smoke'' False w;
          w2 = on_world (smoke_vendor_step env vendorUser) w1;
          (riderUser, w3) = seed_user env RIDER_PHONE RIDER ''Jean Smoke'' False w2
      in case rider_of riderUser w3 of
           None \<Rightarrow>
             if clashes r_licensePlate (Some ''LT9999'') (\<lambda>_. True) (w_riders (a_world w3)) then (Inl (PrismaError ''P2010''), w3)
             else (Inr (), on_world (\<lambda>x. x\<lparr>w_riders := w_riders x @ [smoke_rider env riderUser]\<rparr>) w3)
         | Some x \<Rightarrow>
             (Inr (), on_world (\<lambda>y. y\<lparr>w_riders := upd_where (\<lambda>z. r_id z = r_id x) (smoke_rider_columns (se_now env)) (w_riders y)\<rparr>) w3))"

text \<open>
  After the smoke seed the two phones sign in to an active, open vendor and to an active rider who is
  online, located and just seen, whatever the rows were before.
\<close>

lemma smoke_seed_rider_online:
  assumes "seed_smoke env w = (Inr (), w')"
  shows "\<exists>u x. user_by_phone RIDER_PHONE w' = Some u \<and> us_role u = RIDER \<and> us_isActive u \<and> rider_of (us_id u) w' = Some x
    \<and> r_status x = RS_ACTIVE \<and> r_isOnline x \<and> r_hasLocation x \<and> r_lastSeenAt x = Some (se_now env)"
proof -
  obtain i w1 where "seed_user env VENDOR_PHONE VENDOR ''Maman Smoke'' False w = (i, w1)" by force
  moreover obtain w2 where w2: "w2 = on_world (smoke_vendor_step env i) w1" by simp
  moreover obtain j w3 where u3: "seed_user env RIDER_PHONE RIDER ''Jean Smoke'' False w2 = (j, w3)" by force
  ultimately have w': "(Inr (), w') = (case rider_of j w3 of
           None \<Rightarrow>
             if clashes r_licensePlate (Some ''LT9999'') (\<lambda>_. True) (w_riders (a_world w3)) then (Inl (PrismaError ''P2010''), w3)
             else (Inr (), on_world (\<lambda>x. x\<lparr>w_riders := w_riders x @ [smoke_rider env j]\<rparr>) w3)
         | Some x \<Rightarrow>
             (Inr (), on_world (\<lambda>y. y\<lparr>w_riders := upd_where (\<lambda>z. r_id z = r_id x) (smoke_rider_columns (se_now env)) (w_riders y)\<rparr>) w3))"
    using assms by (simp add: seed_smoke_def)
  obtain u where u: "user_by_phone RIDER_PHONE w3 = Some u" "us_id u = j"
    using seed_user_settles(2) [OF u3] by auto
  have "us_phone u = Some RIDER_PHONE" "u \<in> set (a_users w3)"
    using u(1) by (auto simp: user_by_phone_def dest: find_row_Some)
  then have "seeded_user RIDER ''Jean Smoke'' False u = u" using seed_user_settles(1) [OF u3] by (simp add: user_settled_def)
  then have role: "us_role u = RIDER" "us_isActive u" unfolding seeded_user_def by (metis (full_types) user.select_convs user.surjective user.update_convs user.ext_inject)+
  have row: "\<exists>x. rider_of j w' = Some x \<and> r_status x = RS_ACTIVE \<and> r_isOnline x \<and> r_hasLocation x \<and> r_lastSeenAt x = Some (se_now env)"
  proof (cases "rider_of j w3")
    case None
    then show ?thesis using w'
      by (auto simp: rider_of_def find_row_append smoke_rider_def smoke_rider_columns_def blank_rider_def split: if_splits)
  next
    case (Some x)
    have "find_row (\<lambda>r. r_userId r = j) (upd_where (\<lambda>z. r_id z = r_id x) (smoke_rider_columns (se_now env)) (w_riders (a_world w3)))
        = Some (smoke_rider_columns (se_now env) x)"
      using Some by (subst find_row_cong_upd) (auto simp: rider_of_def smoke_rider_columns_def)
    then show ?thesis using w' Some by (auto simp: rider_of_def smoke_rider_columns_def)
  qed
  have "a_users w' = a_users w3" using w' by (auto split: option.splits if_splits)
  then show ?thesis using u role row by (auto simp: user_by_phone_def)
qed

section \<open>The coupons\<close>

record coupon_seed =
  cs_code :: string
  cs_type :: CouponType
  cs_valueXAF :: "xaf option"
  cs_validFrom :: "time option"
  cs_validUntil :: "time option"
  cs_minSubtotalXAF :: "xaf option"
  cs_firstOrderOnly :: "bool option"
  cs_maxRedemptions :: "int option"

definition BIENVENUE :: coupon_seed where
  "BIENVENUE = \<lparr>cs_code = ''BIENVENUE'', cs_type = FREE_DELIVERY, cs_valueXAF = None, cs_validFrom = None,
     cs_validUntil = None, cs_minSubtotalXAF = None, cs_firstOrderOnly = Some True, cs_maxRedemptions = None\<rparr>"

definition PILOT_COUPONS :: "coupon_seed list" where "PILOT_COUPONS = [BIENVENUE]"

definition or_else :: "'a option \<Rightarrow> 'a \<Rightarrow> 'a" where
  "or_else x d = (case x of Some y \<Rightarrow> y | None \<Rightarrow> d)"

definition coupon_columns :: "coupon_seed \<Rightarrow> coupon \<Rightarrow> coupon" where
  "coupon_columns s c =
     c\<lparr>c_type := cs_type s, c_valueXAF := or_else (cs_valueXAF s) 0, c_status := CS_ACTIVE, c_validFrom := cs_validFrom s,
       c_validUntil := cs_validUntil s, c_minSubtotalXAF := cs_minSubtotalXAF s,
       c_firstOrderOnly := or_else (cs_firstOrderOnly s) True, c_maxRedemptions := cs_maxRedemptions s\<rparr>"

definition coupon_row :: "uuid \<Rightarrow> coupon_seed \<Rightarrow> coupon" where
  "coupon_row i s =
     coupon_columns s
       \<lparr>c_id = i, c_code = cs_code s, c_type = cs_type s, c_valueXAF = 0, c_status = CS_ACTIVE, c_validFrom = None,
        c_validUntil = None, c_minSubtotalXAF = None, c_firstOrderOnly = True, c_maxRedemptions = None, c_redemptionCount = 0\<rparr>"

definition seed_coupon :: "(string \<Rightarrow> uuid) \<Rightarrow> coupon_seed \<Rightarrow> world \<Rightarrow> world" where
  "seed_coupon newId s w =
     (case coupon_by_code (cs_code s) w of
        None \<Rightarrow> w\<lparr>w_coupons := w_coupons w @ [coupon_row (newId (cs_code s)) s]\<rparr>
      | Some _ \<Rightarrow> w\<lparr>w_coupons := upd_where (\<lambda>c. c_code c = cs_code s) (coupon_columns s) (w_coupons w)\<rparr>)"

definition seed_coupons :: "(string \<Rightarrow> uuid) \<Rightarrow> world \<Rightarrow> world" where
  "seed_coupons newId w = foldl (\<lambda>w s. seed_coupon newId s w) w PILOT_COUPONS"

lemma coupon_columns_sel [simp]:
  "c_code (coupon_columns s c) = c_code c" "c_id (coupon_columns s c) = c_id c"
  "coupon_columns s (coupon_columns s c) = coupon_columns s c" "coupon_columns s (coupon_row i s) = coupon_row i s"
  "c_code (coupon_row i s) = cs_code s"
  by (simp_all add: coupon_columns_def coupon_row_def)

lemma seed_coupon_row:
  obtains c where "coupon_by_code (cs_code s) (seed_coupon newId s w) = Some (coupon_columns s c)"
proof (cases "coupon_by_code (cs_code s) w")
  case None
  then have "coupon_by_code (cs_code s) (seed_coupon newId s w) = Some (coupon_columns s (coupon_row (newId (cs_code s)) s))"
    by (simp add: seed_coupon_def coupon_by_code_def find_row_append)
  then show thesis by (rule that)
next
  case (Some c)
  have "find_row (\<lambda>x. c_code x = cs_code s) (upd_where (\<lambda>c. c_code c = cs_code s) (coupon_columns s) (w_coupons w)) =
      Some (coupon_columns s c)"
    using Some find_row_Some [of "\<lambda>x. c_code x = cs_code s" "w_coupons w" c]
    by (subst find_row_cong_upd) (auto simp: coupon_by_code_def)
  then have "coupon_by_code (cs_code s) (seed_coupon newId s w) = Some (coupon_columns s c)"
    using Some by (simp add: seed_coupon_def coupon_by_code_def)
  then show thesis by (rule that)
qed

text \<open>
  After the seed the welcome offer holds whatever its row was: the first paid order of a user gets its
  delivery for free, at any basket and any time, and a user with a paid order before is refused.
\<close>

theorem welcome_offer_holds:
  "(\<exists>r. validateRow (coupon_by_code ''BIENVENUE'' (seed_coupons newId w)) sub fee 0 now = Inr r \<and> cv_discountXAF r = fee)
   \<and> validateRow (coupon_by_code ''BIENVENUE'' (seed_coupons newId w)) sub fee (Suc n) now
       = Inl (BadRequest ''coupon_first_order_only'')"
proof -
  obtain c where c: "coupon_by_code (cs_code BIENVENUE) (seed_coupon newId BIENVENUE w) = Some (coupon_columns BIENVENUE c)"
    by (rule seed_coupon_row)
  have "cs_code BIENVENUE = ''BIENVENUE''" by (simp add: BIENVENUE_def)
  then have "coupon_by_code ''BIENVENUE'' (seed_coupons newId w) = Some (coupon_columns BIENVENUE c)"
    using c by (simp add: seed_coupons_def PILOT_COUPONS_def)
  then show ?thesis
    by (simp add: validateRow_def coupon_columns_def BIENVENUE_def or_else_def before_start_def after_end_def below_floor_def
        exhausted_def computeDiscount_def)
qed

lemma coupon_seed_idempotent: "seed_coupons newId' (seed_coupons newId w) = seed_coupons newId w"
proof -
  let ?w = "seed_coupon newId BIENVENUE w"
  obtain c where c: "coupon_by_code (cs_code BIENVENUE) ?w = Some (coupon_columns BIENVENUE c)" by (rule seed_coupon_row)
  have "\<forall>x \<in> set (w_coupons ?w). c_code x = cs_code BIENVENUE \<longrightarrow> coupon_columns BIENVENUE x = x"
    by (auto simp: seed_coupon_def coupon_by_code_def set_upd_where find_row_None split: option.splits)
  then have "upd_where (\<lambda>c. c_code c = cs_code BIENVENUE) (coupon_columns BIENVENUE) (w_coupons ?w) = w_coupons ?w"
    by (rule upd_where_fixed)
  then have "seed_coupon newId' BIENVENUE ?w = ?w" using c by (simp add: seed_coupon_def [of newId'])
  then show ?thesis by (simp add: seed_coupons_def PILOT_COUPONS_def)
qed

section \<open>The first administrator\<close>

definition PASSWORD_MIN_LENGTH :: nat where "PASSWORD_MIN_LENGTH = 12"

definition has_special :: "string \<Rightarrow> bool" where
  "has_special = list_ex (\<lambda>c. \<not> is_upper c \<and> \<not> is_lower c \<and> \<not> is_digit c)"

text \<open>\<open>assertStrongPassword\<close>: the classes that are missing, joined into the message.\<close>

definition missing_classes :: "string \<Rightarrow> string list" where
  "missing_classes p =
     (if length p < PASSWORD_MIN_LENGTH then [''min 12 characters''] else [])
     @ (if list_ex is_upper p then [] else [''at least one uppercase letter''])
     @ (if list_ex is_digit p then [] else [''at least one digit''])
     @ (if has_special p then [] else [''at least one special character''])"

fun join_with :: "string \<Rightarrow> string list \<Rightarrow> string" where
  "join_with sep [] = []"
| "join_with sep [x] = x"
| "join_with sep (x # xs) = x @ sep @ join_with sep xs"

definition assertStrongPassword :: "string \<Rightarrow> http_error + unit" where
  "assertStrongPassword p =
     (if missing_classes p \<noteq> []
      then Inl (UpstreamError (''SEED_ADMIN_PASSWORD too weak: missing '' @ join_with '', '' (missing_classes p)))
      else Inr ())"

definition super_admin :: "uuid \<Rightarrow> string \<Rightarrow> string \<Rightarrow> user" where
  "super_admin i email hash =
     \<lparr>us_id = i, us_phone = None, us_email = Some email, us_passwordHash = Some hash, us_displayName = Some ''Super Admin'',
      us_role = SUPER_ADMIN, us_isActive = True, us_isDeleted = False\<rparr>"

definition seed_admin ::
  "auth_env \<Rightarrow> string \<Rightarrow> uuid \<Rightarrow> string option \<Rightarrow> string option \<Rightarrow> auth_world \<Rightarrow> (unit, auth_world) outcome" where
  "seed_admin env salt newId SEED_ADMIN_EMAIL SEED_ADMIN_PASSWORD w =
     (let email = map_option (\<lambda>e. trim (to_lower e)) SEED_ADMIN_EMAIL
      in if falsy email then (Inl (UpstreamError ''SEED_ADMIN_EMAIL is required''), w)
         else if falsy SEED_ADMIN_PASSWORD then (Inl (UpstreamError ''SEED_ADMIN_PASSWORD is required''), w)
         else (case assertStrongPassword (the SEED_ADMIN_PASSWORD) of
                 Inl e \<Rightarrow> (Inl e, w)
               | Inr _ \<Rightarrow>
                   (let hash = argon2_hash env salt (the SEED_ADMIN_PASSWORD)
                    in (Inr (),
                        case find_row (\<lambda>u. us_email u = email) (a_users w) of
                          None \<Rightarrow> w\<lparr>a_users := a_users w @ [super_admin newId (the email) hash]\<rparr>
                        | Some _ \<Rightarrow> w\<lparr>a_users := upd_where (\<lambda>u. us_email u = email)
                            (\<lambda>u. u\<lparr>us_passwordHash := Some hash, us_role := SUPER_ADMIN, us_isActive := True,
                                   us_isDeleted := False\<rparr>) (a_users w)\<rparr>))))"

text \<open>
  The seed and the login form ask the same of a password, but for the length: the form refuses more than
  128 characters, the seed does not.
\<close>

lemma strong_password_accepted:
  assumes v: "documented v" and e: "holds v IsEmail (PStr email)" "length email \<le> 120"
  shows "accepts v AdminLoginDto_fields (PObj [(''email'', PStr email), (''password'', PStr p)])
    \<longleftrightarrow> assertStrongPassword p = Inr () \<and> length p \<le> 128"
  using e by (auto simp: AdminLoginDto_fields_def whitelisted_def property_def ignored_def documentedD [OF v]
      assertStrongPassword_def missing_classes_def has_special_def PASSWORD_MIN_LENGTH_def)

text \<open>
  The administrator of the seed gets in: unless the account is locked, the address and the password given
  to the seed, in whatever case the address is typed, reach the step after the password.
\<close>

theorem seeded_admin_signs_in:
  assumes "sound_env env" and "seed_admin env salt newId (Some email) (Some p) w = (Inr (), w')"
    and "to_lower typed = to_lower email" and "argon2_hash env salt p \<noteq> []"
  shows "\<exists>u. us_email u = Some (trim (to_lower email)) \<and> us_role u = SUPER_ADMIN \<and> us_isActive u \<and> \<not> us_isDeleted u
    \<and> (falsy (redis_get (lockedKey (us_id u)) now (a_world w')) \<longrightarrow>
        login env rnd challenge typed p m now w' = login_right_password env rnd challenge u (trim (to_lower email)) m now w')"
proof -
  let ?e = "trim (to_lower email)" and ?h = "argon2_hash env salt p"
  let ?up = "\<lambda>u. u\<lparr>us_passwordHash := Some ?h, us_role := SUPER_ADMIN, us_isActive := True, us_isDeleted := False\<rparr>"
  have w': "w' = (case find_row (\<lambda>u. us_email u = Some ?e) (a_users w) of
                    None \<Rightarrow> w\<lparr>a_users := a_users w @ [super_admin newId ?e ?h]\<rparr>
                  | Some _ \<Rightarrow> w\<lparr>a_users := upd_where (\<lambda>u. us_email u = Some ?e) ?up (a_users w)\<rparr>)"
    by (cases "find_row (\<lambda>u. us_email u = Some ?e) (a_users w)")
      (use assms(2) in \<open>auto simp: seed_admin_def Let_def split: if_splits sum.splits\<close>)
  have "\<exists>u. find_row (\<lambda>u. us_email u = Some ?e) (a_users w') = Some u \<and> us_email u = Some ?e \<and> us_role u = SUPER_ADMIN
      \<and> us_isActive u \<and> \<not> us_isDeleted u \<and> us_passwordHash u = Some ?h"
  proof (cases "find_row (\<lambda>u. us_email u = Some ?e) (a_users w)")
    case None
    then show ?thesis by (simp add: w' find_row_append super_admin_def)
  next
    case (Some u)
    have "find_row (\<lambda>u. us_email u = Some ?e) (upd_where (\<lambda>u. us_email u = Some ?e) ?up (a_users w)) = Some (?up u)"
      using Some find_row_Some [OF Some] by (subst find_row_cong_upd) auto
    then show ?thesis using Some find_row_Some [OF Some] by (simp add: w')
  qed
  then obtain u where u: "find_row (\<lambda>u. us_email u = Some ?e) (a_users w') = Some u" "us_email u = Some ?e"
    "us_role u = SUPER_ADMIN" "us_isActive u" "\<not> us_isDeleted u" "us_passwordHash u = Some ?h" by blast
  have "falsy (redis_get (lockedKey (us_id u)) now (a_world w')) \<longrightarrow>
      login env rnd challenge typed p m now w' = login_right_password env rnd challenge u ?e m now w'"
    using u assms(1,3,4) by (simp add: login_def Let_def ADMIN_ROLES_def falsy_iff)
  then show ?thesis using u by blast
qed

end
