(* ===== verification/Seed_Runs.thy ===== *)
theory Seed_Runs
  imports Seeds
begin

text \<open>
  Running \<open>prisma/seed-pilot.ts\<close> again: the locale \<open>seeding\<close> states what makes a list of steps safe to
  repeat, its two interpretations are the loops over the vendors and over the riders, and the last
  section puts them together.
\<close>

section \<open>Running a seed twice\<close>

text \<open>
  What makes a list of steps safe to run again: a step settles its own row, leaves the rows of the others
  settled, and rests on a settled row.
\<close>

locale seeding =
  fixes step :: "'a \<Rightarrow> 'w \<Rightarrow> (unit, 'w) outcome" and rerun :: "'a \<Rightarrow> 'w \<Rightarrow> (unit, 'w) outcome"
    and settled :: "'a \<Rightarrow> 'w \<Rightarrow> bool" and ready :: "'a \<Rightarrow> 'w \<Rightarrow> bool"
    and sound :: "'w \<Rightarrow> bool" and apart :: "'a \<Rightarrow> 'a \<Rightarrow> bool"
  assumes settles: "sound w \<Longrightarrow> ready a w \<Longrightarrow> step a w = (Inr (), w') \<Longrightarrow> settled a w' \<and> sound w'"
    and keeps: "sound w \<Longrightarrow> ready a w \<Longrightarrow> apart a b \<Longrightarrow> step a w = (Inr (), w') \<Longrightarrow>
                 (settled b w \<longrightarrow> settled b w') \<and> (ready b w \<longrightarrow> ready b w')"
    and apart_sym: "apart a b \<Longrightarrow> apart b a"
    and rests: "settled a w \<Longrightarrow> rerun a w = (Inr (), w)"
begin

lemma run_settles:
  "run_all step as w = (Inr (), w') \<Longrightarrow> sound w \<Longrightarrow> \<forall>a \<in> set as. ready a w \<Longrightarrow> sorted_wrt apart as \<Longrightarrow>
   sound w' \<and> (\<forall>a \<in> set as. settled a w') \<and> (\<forall>b. (\<forall>a \<in> set as. apart a b) \<longrightarrow> settled b w \<longrightarrow> settled b w')"
proof (induction as arbitrary: w)
  case (Cons a as)
  then obtain w1 where w1: "step a w = (Inr (), w1)" and run: "run_all step as w1 = (Inr (), w')"
    by (auto split: prod.splits sum.splits)
  have s: "settled a w1" "sound w1" using settles w1 Cons.prems(2,3) by auto
  have k: "\<And>b. apart a b \<Longrightarrow> (settled b w \<longrightarrow> settled b w1) \<and> (ready b w \<longrightarrow> ready b w1)"
    using keeps w1 Cons.prems(2,3) by auto
  have "\<forall>b \<in> set as. ready b w1" using k Cons.prems(3,4) by auto
  from Cons.IH [OF run s(2) this] Cons.prems(4)
  have ih: "sound w'" "\<forall>a \<in> set as. settled a w'" "\<forall>b. (\<forall>a \<in> set as. apart a b) \<longrightarrow> settled b w1 \<longrightarrow> settled b w'"
    by auto
  show ?case
  proof (intro conjI allI impI)
    show "sound w'" by (rule ih(1))
    show "\<forall>a \<in> set (a # as). settled a w'"
    proof (cases "a \<in> set as")
      case False
      have "settled a w'" if "\<forall>b \<in> set as. apart b a" using ih(3) s(1) that by blast
      then show ?thesis using ih(2) Cons.prems(4) apart_sym by auto
    qed (use ih(2) in auto)
    fix b assume "\<forall>x \<in> set (a # as). apart x b" "settled b w"
    then show "settled b w'" using k ih(3) by auto
  qed
qed simp

lemma run_rests: "\<forall>a \<in> set as. settled a w \<Longrightarrow> run_all rerun as w = (Inr (), w)"
  by (induction as) (auto simp: rests)

end

section \<open>Dishes\<close>

definition item_settled :: "uuid \<Rightarrow> string \<Rightarrow> world \<Rightarrow> bool" where
  "item_settled vendorId name w \<longleftrightarrow> (\<exists>i. item_named vendorId name w = Some i \<and> \<not> falsy (i_photoUrl i))"

definition uploads_work :: "seed_env \<Rightarrow> bool" where
  "uploads_work env \<longleftrightarrow> (\<forall>p u. \<exists>k. se_upload env p u = Inr k)"

definition no_stale_photo :: "world \<Rightarrow> bool" where
  "no_stale_photo w \<longleftrightarrow> (\<forall>i \<in> set (w_items w). \<not> stale_photo i)"

lemma uploaded_photo:
  assumes "uploads_work env" and "ms_photoUrl it \<noteq> None" and "ms_photoUrl it \<noteq> Some []"
  shows "\<not> falsy (item_photo env it existing)"
proof -
  obtain k where "se_upload env ''item-photo'' (the (ms_photoUrl it)) = Inr k"
    using assms(1) unfolding uploads_work_def by blast
  then show ?thesis
    using assms(2,3) by (simp add: item_photo_def Let_def falsy_iff downloadAndUploadPhoto_def)
qed

lemma seed_item_keeps:
  assumes "item_settled vid name w"
  shows "item_settled vid name (seed_item env vendorId it w)"
proof -
  obtain i where i: "item_named vid name w = Some i" "\<not> falsy (i_photoUrl i)"
    using assms by (auto simp: item_settled_def)
  have "find_row (\<lambda>i. i_vendorId i = vid \<and> i_name i = name) (upd_where p (\<lambda>x. x\<lparr>i_photoUrl := q\<rparr>) (w_items w)) =
      Some (if p i then i\<lparr>i_photoUrl := q\<rparr> else i)" for p q
    using i(1) by (subst find_row_cong_upd) (auto simp: item_named_def)
  then show ?thesis
    using i by (auto simp: seed_item_def Let_def item_settled_def item_named_def find_row_append split: option.split)
qed

lemma seed_item_settles:
  assumes "uploads_work env" and "ms_photoUrl it \<noteq> None" and "ms_photoUrl it \<noteq> Some []"
  shows "item_settled vendorId (ms_name it) (seed_item env vendorId it w)"
proof (cases "item_named vendorId (ms_name it) w")
  case None
  then show ?thesis using uploaded_photo [OF assms]
    by (auto simp: seed_item_def Let_def item_settled_def item_named_def find_row_append seed_item_row_def)
next
  case (Some i)
  have "find_row (\<lambda>i. i_vendorId i = vendorId \<and> i_name i = ms_name it)
        (upd_where (\<lambda>x. i_id x = i_id i) (\<lambda>x. x\<lparr>i_photoUrl := q\<rparr>) (w_items w)) = Some (i\<lparr>i_photoUrl := q\<rparr>)" for q
    using Some by (subst find_row_cong_upd) (auto simp: item_named_def)
  then show ?thesis using Some uploaded_photo [OF assms, of "Some i"]
    by (auto simp: seed_item_def Let_def item_settled_def item_named_def)
qed

lemma seed_item_rests:
  assumes "item_settled vendorId (ms_name it) w"
  shows "seed_item env vendorId it w = w"
  using assms by (auto simp: item_settled_def seed_item_def Let_def item_photo_def)

lemma seed_item_frame [simp]:
  "w_vendors (seed_item env vendorId it w) = w_vendors w" "w_riders (seed_item env vendorId it w) = w_riders w"
  by (simp_all add: seed_item_def Let_def split: option.split)

lemma seed_items_frame [simp]:
  "w_vendors (seed_items env vendorId its w) = w_vendors w" "w_riders (seed_items env vendorId its w) = w_riders w"
  by (induction its arbitrary: w) (simp_all add: seed_items_def)

lemma seed_items_keeps: "item_settled vid name w \<Longrightarrow> item_settled vid name (seed_items env vendorId its w)"
  by (induction its arbitrary: w) (simp_all add: seed_items_def seed_item_keeps)

lemma seed_items_settles:
  assumes "uploads_work env" and "\<forall>it \<in> set its. ms_photoUrl it \<noteq> None \<and> ms_photoUrl it \<noteq> Some []"
  shows "\<forall>it \<in> set its. item_settled vendorId (ms_name it) (seed_items env vendorId its w)"
  using assms(2)
proof (induction its arbitrary: w)
  case (Cons it its)
  have "item_settled vendorId (ms_name it) (seed_item env vendorId it w)"
    using seed_item_settles [OF assms(1)] Cons.prems by simp
  then have "item_settled vendorId (ms_name it) (seed_items env vendorId its (seed_item env vendorId it w))"
    by (rule seed_items_keeps)
  then show ?case using Cons by (simp add: seed_items_def)
qed simp

lemma seed_items_rests:
  "\<forall>it \<in> set its. item_settled vendorId (ms_name it) w \<Longrightarrow> seed_items env vendorId its w = w"
  by (induction its) (simp_all add: seed_items_def seed_item_rests)

text \<open>No step writes a photo key the migration would remove.\<close>

lemma item_photo_fresh: "item_photo env it existing = Some k \<Longrightarrow> existing = None \<or> i_photoUrl (the existing) \<noteq> Some k \<Longrightarrow>
    \<not> starts_with ''menu-items/'' k"
  by (auto simp: item_photo_def Let_def downloadAndUploadPhoto_def starts_with_def split: if_splits option.splits sum.splits)

lemma seed_item_no_stale:
  assumes "no_stale_photo w"
  shows "no_stale_photo (seed_item env vendorId it w)"
proof -
  let ?e = "item_named vendorId (ms_name it) w" and ?p = "item_photo env it (item_named vendorId (ms_name it) w)"
  show ?thesis
  proof (cases ?e)
    case None
    then have "\<not> stale_photo (seed_item_row env vendorId it ?p)"
      using item_photo_fresh [of env it ?e] by (auto simp: stale_photo_def seed_item_row_def split: option.split)
    then show ?thesis using assms None by (simp add: seed_item_def Let_def no_stale_photo_def)
  next
    case (Some i)
    have "\<not> stale_photo (x\<lparr>i_photoUrl := ?p\<rparr>)" if "\<not> falsy ?p" "falsy (i_photoUrl i)" for x
      using that item_photo_fresh [of env it ?e] Some by (auto simp: stale_photo_def falsy_iff split: option.split)
    then show ?thesis using assms Some by (auto simp: seed_item_def Let_def no_stale_photo_def set_upd_where)
  qed
qed

lemma seed_items_no_stale: "no_stale_photo w \<Longrightarrow> no_stale_photo (seed_items env vendorId its w)"
  by (induction its arbitrary: w) (simp_all add: seed_items_def seed_item_no_stale)

section \<open>Vendors\<close>

definition ids_sound :: "auth_world \<Rightarrow> bool" where
  "ids_sound w \<longleftrightarrow> distinct (map us_id (a_users w)) \<and> distinct (map v_id (w_vendors (a_world w)))
     \<and> distinct (map r_id (w_riders (a_world w))) \<and> no_stale_photo (a_world w)"

definition vendor_row_settled :: "vendor_seed \<Rightarrow> uuid \<Rightarrow> world \<Rightarrow> bool" where
  "vendor_row_settled v userId w \<longleftrightarrow>
     (\<exists>x. find_row (\<lambda>x. v_userId x = userId) (w_vendors w) = Some x \<and> \<not> falsy (v_profilePhotoUrl x)
        \<and> (\<forall>y \<in> set (w_vendors w). v_id y = v_id x \<longrightarrow> pilot_columns v (v_profilePhotoUrl x) y = y)
        \<and> (\<forall>it \<in> set (vs_items v). item_settled (v_id x) (ms_name it) w))"

definition vendor_settled :: "vendor_seed \<Rightarrow> auth_world \<Rightarrow> bool" where
  "vendor_settled v w \<longleftrightarrow>
     user_settled (vs_ownerPhone v) VENDOR (vs_ownerName v) True w
     \<and> (\<exists>u. user_by_phone (vs_ownerPhone v) w = Some u \<and> vendor_row_settled v (us_id u) (a_world w))"

definition vendor_ready :: "seed_env \<Rightarrow> vendor_seed \<Rightarrow> auth_world \<Rightarrow> bool" where
  "vendor_ready env v w \<longleftrightarrow>
     uploads_work env \<and> (\<forall>it \<in> set (vs_items v). ms_photoUrl it \<noteq> None \<and> ms_photoUrl it \<noteq> Some [])
     \<and> se_user env (vs_ownerPhone v) \<notin> us_id ` set (a_users w)
     \<and> se_vendor env (vs_ownerPhone v) \<notin> v_id ` set (w_vendors (a_world w))"

definition vendors_apart :: "seed_env \<Rightarrow> vendor_seed \<Rightarrow> vendor_seed \<Rightarrow> bool" where
  "vendors_apart env a b \<longleftrightarrow> vs_ownerPhone a \<noteq> vs_ownerPhone b
     \<and> se_user env (vs_ownerPhone a) \<noteq> se_user env (vs_ownerPhone b)
     \<and> se_vendor env (vs_ownerPhone a) \<noteq> se_vendor env (vs_ownerPhone b)"

lemma pilot_columns_sel [simp]:
  "v_id (pilot_columns v p x) = v_id x" "v_userId (pilot_columns v p x) = v_userId x"
  "v_profilePhotoUrl (pilot_columns v p x) = p" "pilot_columns v p (pilot_columns v p x) = pilot_columns v p x"
  by (simp_all add: pilot_columns_def)

lemma pilot_vendor_sel [simp]:
  "v_id (pilot_vendor env v u p) = se_vendor env (vs_ownerPhone v)" "v_userId (pilot_vendor env v u p) = u"
  "v_profilePhotoUrl (pilot_vendor env v u p) = p" "pilot_columns v p (pilot_vendor env v u p) = pilot_vendor env v u p"
  by (simp_all add: pilot_vendor_def default_vendor_def)

text \<open>Writing the row of one vendor.\<close>

lemma write_vendor_settles:
  assumes "write_vendor env v userId (find_row (\<lambda>x. v_userId x = userId) (w_vendors w)) photo w = (vid, w')"
    and "se_vendor env (vs_ownerPhone v) \<notin> v_id ` set (w_vendors w)" and "distinct (map v_id (w_vendors w))"
  shows "\<exists>x. find_row (\<lambda>x. v_userId x = userId) (w_vendors w') = Some x \<and> v_id x = vid \<and> v_profilePhotoUrl x = photo
      \<and> (\<forall>y \<in> set (w_vendors w'). v_id y = vid \<longrightarrow> pilot_columns v photo y = y)"
    and "distinct (map v_id (w_vendors w'))" and "w_items w' = w_items w" and "w_riders w' = w_riders w"
    and "v_id ` set (w_vendors w') \<subseteq> insert (se_vendor env (vs_ownerPhone v)) (v_id ` set (w_vendors w))"
proof -
  let ?e = "find_row (\<lambda>x. v_userId x = userId) (w_vendors w)"
  have m: "map v_id (upd_where q (pilot_columns v photo) (w_vendors w)) = map v_id (w_vendors w)" for q
    by (rule map_key_upd_where) simp
  show "w_items w' = w_items w" "w_riders w' = w_riders w"
    using assms(1) by (auto simp: write_vendor_def split: option.splits)
  have ids: "map v_id (w_vendors w') = map v_id (w_vendors w)
      \<or> map v_id (w_vendors w') = map v_id (w_vendors w) @ [se_vendor env (vs_ownerPhone v)]"
    using assms(1) m by (auto simp: write_vendor_def split: option.splits)
  then show "distinct (map v_id (w_vendors w'))" using assms(2,3) by auto
  have "set (map v_id (w_vendors w')) \<subseteq> insert (se_vendor env (vs_ownerPhone v)) (set (map v_id (w_vendors w)))"
    using ids by (elim disjE) (simp_all only: set_append list.set, blast+)
  then show "v_id ` set (w_vendors w') \<subseteq> insert (se_vendor env (vs_ownerPhone v)) (v_id ` set (w_vendors w))" by simp
  show "\<exists>x. find_row (\<lambda>x. v_userId x = userId) (w_vendors w') = Some x \<and> v_id x = vid \<and> v_profilePhotoUrl x = photo
      \<and> (\<forall>y \<in> set (w_vendors w'). v_id y = vid \<longrightarrow> pilot_columns v photo y = y)"
  proof (cases ?e)
    case None
    then have e: "vid = se_vendor env (vs_ownerPhone v)" "w_vendors w' = w_vendors w @ [pilot_vendor env v userId photo]"
      using assms(1) by (auto simp: write_vendor_def)
    have "v_id y \<noteq> vid" if "y \<in> set (w_vendors w)" for y using assms(2) that e(1) by (metis imageI)
    then show ?thesis using None by (auto simp: e find_row_append)
  next
    case (Some x)
    then have e: "vid = v_id x" "w_vendors w' = upd_where (\<lambda>y. v_id y = v_id x) (pilot_columns v photo) (w_vendors w)"
      using assms(1) by (auto simp: write_vendor_def)
    have "find_row (\<lambda>x. v_userId x = userId) (w_vendors w') = Some (pilot_columns v photo x)"
      unfolding e(2) using Some by (subst find_row_cong_upd) auto
    then show ?thesis by (auto simp: e set_upd_where)
  qed
qed

lemma write_vendor_others:
  assumes "write_vendor env v userId (find_row (\<lambda>x. v_userId x = userId) (w_vendors w)) photo w = (vid, w')"
    and "se_vendor env (vs_ownerPhone v) \<notin> v_id ` set (w_vendors w)" and "distinct (map v_id (w_vendors w))"
    and "other \<noteq> userId" and "vendor_row_settled b other w"
  shows "vendor_row_settled b other w'"
proof -
  obtain x where x: "find_row (\<lambda>x. v_userId x = other) (w_vendors w) = Some x" "\<not> falsy (v_profilePhotoUrl x)"
    "\<forall>y \<in> set (w_vendors w). v_id y = v_id x \<longrightarrow> pilot_columns b (v_profilePhotoUrl x) y = y"
    "\<forall>it \<in> set (vs_items b). item_settled (v_id x) (ms_name it) w"
    using assms(5) by (auto simp: vendor_row_settled_def)
  have mem: "x \<in> set (w_vendors w)" "v_userId x = other" using find_row_Some [OF x(1)] by auto
  have "find_row (\<lambda>x. v_userId x = other) (w_vendors w') = Some x
      \<and> (\<forall>y \<in> set (w_vendors w'). v_id y = v_id x \<longrightarrow> y \<in> set (w_vendors w))"
  proof (cases "find_row (\<lambda>x. v_userId x = userId) (w_vendors w)")
    case None
    then have "w_vendors w' = w_vendors w @ [pilot_vendor env v userId photo]"
      using assms(1) by (auto simp: write_vendor_def)
    moreover have "se_vendor env (vs_ownerPhone v) \<noteq> v_id x" using assms(2) mem(1) by auto
    ultimately show ?thesis using x(1) by (auto simp: find_row_append)
  next
    case (Some z)
    then have e: "w_vendors w' = upd_where (\<lambda>y. v_id y = v_id z) (pilot_columns v photo) (w_vendors w)"
      using assms(1) by (auto simp: write_vendor_def)
    have z: "z \<in> set (w_vendors w)" "v_userId z = userId" using find_row_Some [OF Some] by auto
    then have ne: "v_id z \<noteq> v_id x" using mem assms(3,4) by (metis distinct_map inj_onD)
    have "find_row (\<lambda>x. v_userId x = other) (w_vendors w') = Some x"
      unfolding e using x(1) ne by (subst find_row_cong_upd) auto
    then show ?thesis using ne by (auto simp: e set_upd_where)
  qed
  moreover have "w_items w' = w_items w" by (rule write_vendor_settles(3) [OF assms(1-3)])
  then have "item_settled i n w' = item_settled i n w" for i n by (simp add: item_settled_def item_named_def)
  ultimately show ?thesis using x by (auto simp: vendor_row_settled_def)
qed

text \<open>Dishes leave the rows of the vendors settled.\<close>

lemma seed_items_vendor: "vendor_row_settled b u w \<Longrightarrow> vendor_row_settled b u (seed_items env vid its w)"
  by (auto simp: vendor_row_settled_def intro: seed_items_keeps)

lemma vendor_of_user_row: "Onboarding.account_vendor u w = find_row (\<lambda>x. v_userId x = u) (w_vendors (a_world w))"
  by (simp add: Onboarding.account_vendor_def)

text \<open>A run of one step that did not fail, opened up.\<close>

lemma seed_vendor_Inr:
  assumes "seed_vendor env v w = (Inr (), w')"
  obtains u w1 photo vid y where "seed_user env (vs_ownerPhone v) VENDOR (vs_ownerName v) True w = (u, w1)"
    and "\<not> falsy photo"
    and "write_vendor env v u (find_row (\<lambda>x. v_userId x = u) (w_vendors (a_world w))) photo (a_world w) = (vid, y)"
    and "w' = w1\<lparr>a_world := seed_items env vid (vs_items v) y\<rparr>" and "a_world w1 = a_world w"
proof -
  obtain u w1 where uw: "seed_user env (vs_ownerPhone v) VENDOR (vs_ownerName v) True w = (u, w1)" by force
  have aw: "a_world w1 = a_world w" using seed_user_world [of env "vs_ownerPhone v" VENDOR "vs_ownerName v" True w] uw by simp
  let ?e = "find_row (\<lambda>x. v_userId x = u) (w_vendors (a_world w))"
  let ?p = "case ?e of Some x \<Rightarrow> v_profilePhotoUrl x | None \<Rightarrow> None"
  obtain photo where p: "(if falsy ?p then map_sum id Some (downloadAndUploadPhoto env (DEMO_PHOTO (vs_type v)) ''vendor-profile'')
      else Inr ?p) = Inr photo"
    and w': "w' = on_world (\<lambda>x. let (vendorId, y) = write_vendor env v u ?e photo x in seed_items env vendorId (vs_items v) y) w1"
    using assms unfolding seed_vendor_def uw Let_def prod.case vendor_of_user_row aw by (auto split: sum.splits)
  have np: "\<not> falsy photo"
    using p by (auto simp: downloadAndUploadPhoto_def falsy_iff split: if_splits sum.splits)
  obtain vid y where wv: "write_vendor env v u ?e photo (a_world w) = (vid, y)" by force
  have "w' = w1\<lparr>a_world := seed_items env vid (vs_items v) y\<rparr>" using w' wv aw by (simp add: on_world_def)
  then show thesis using that uw np wv aw by blast
qed

lemma seed_vendor_settles:
  assumes "ids_sound w" and "vendor_ready env v w" and "seed_vendor env v w = (Inr (), w')"
  shows "vendor_settled v w' \<and> ids_sound w'"
proof -
  obtain u w1 photo vid y where uw: "seed_user env (vs_ownerPhone v) VENDOR (vs_ownerName v) True w = (u, w1)"
    and np: "\<not> falsy photo"
    and wv: "write_vendor env v u (find_row (\<lambda>x. v_userId x = u) (w_vendors (a_world w))) photo (a_world w) = (vid, y)"
    and w': "w' = w1\<lparr>a_world := seed_items env vid (vs_items v) y\<rparr>"
    by (rule seed_vendor_Inr [OF assms(3)])
  have r: "uploads_work env" "\<forall>it \<in> set (vs_items v). ms_photoUrl it \<noteq> None \<and> ms_photoUrl it \<noteq> Some []"
    "se_user env (vs_ownerPhone v) \<notin> us_id ` set (a_users w)"
    "se_vendor env (vs_ownerPhone v) \<notin> v_id ` set (w_vendors (a_world w))"
    using assms(2) by (simp_all add: vendor_ready_def)
  have s: "distinct (map us_id (a_users w))" "distinct (map v_id (w_vendors (a_world w)))"
    "distinct (map r_id (w_riders (a_world w)))" "no_stale_photo (a_world w)"
    using assms(1) by (simp_all add: ids_sound_def)
  note v = write_vendor_settles [OF wv r(4) s(2)]
  have "no_stale_photo y" using s(4) v(3) by (simp add: no_stale_photo_def)
  then have sound: "ids_sound w'"
    using seed_user_ids(1) [OF uw r(3) s(1)] v(2,4) s(3) seed_items_no_stale by (simp add: ids_sound_def w')
  obtain x where x: "find_row (\<lambda>x. v_userId x = u) (w_vendors y) = Some x" "v_id x = vid" "v_profilePhotoUrl x = photo"
    "\<forall>z \<in> set (w_vendors y). v_id z = vid \<longrightarrow> pilot_columns v photo z = z"
    using v(1) by blast
  have "vendor_row_settled v u (seed_items env vid (vs_items v) y)"
    using x np seed_items_settles [OF r(1,2)] by (auto simp: vendor_row_settled_def)
  moreover have "user_settled (vs_ownerPhone v) VENDOR (vs_ownerName v) True w'"
    using seed_user_settles(1) [OF uw] by (simp add: w' user_settled_def user_by_phone_def)
  moreover obtain a where "user_by_phone (vs_ownerPhone v) w' = Some a" "us_id a = u"
    using seed_user_settles(2) [OF uw] by (auto simp: w' user_by_phone_def)
  ultimately show ?thesis using sound by (auto simp: vendor_settled_def w')
qed

text \<open>What a step writes leaves another settled vendor, and another ready one, as it is.\<close>

lemma vendor_settled_user:
  assumes "seed_user env phone role name rename w = (i, w1)" and "phone \<noteq> vs_ownerPhone b" and "vendor_settled b w"
    and "se_user env phone \<notin> us_id ` set (a_users w)" and "distinct (map us_id (a_users w))"
  obtains u where "user_settled (vs_ownerPhone b) VENDOR (vs_ownerName b) True w1"
    and "user_by_phone (vs_ownerPhone b) w1 = Some u" and "us_id u \<noteq> i" and "vendor_row_settled b (us_id u) (a_world w)"
proof -
  obtain u where u: "user_by_phone (vs_ownerPhone b) w = Some u" "vendor_row_settled b (us_id u) (a_world w)"
    and s: "user_settled (vs_ownerPhone b) VENDOR (vs_ownerName b) True w"
    using assms(3) by (auto simp: vendor_settled_def)
  have ne: "vs_ownerPhone b \<noteq> phone" using assms(2) by simp
  show thesis
    by (rule that [of u]) (use seed_user_others [OF assms(1) ne] seed_user_ids(3) [OF assms(1,4,5) u(1) ne] u s in auto)
qed

lemma seed_vendor_keeps:
  assumes "ids_sound w" and "vendor_ready env v w" and "vendors_apart env v b" and "seed_vendor env v w = (Inr (), w')"
  shows "(vendor_settled b w \<longrightarrow> vendor_settled b w') \<and> (vendor_ready env b w \<longrightarrow> vendor_ready env b w')"
proof -
  obtain u w1 photo vid y where uw: "seed_user env (vs_ownerPhone v) VENDOR (vs_ownerName v) True w = (u, w1)"
    and wv: "write_vendor env v u (find_row (\<lambda>x. v_userId x = u) (w_vendors (a_world w))) photo (a_world w) = (vid, y)"
    and w': "w' = w1\<lparr>a_world := seed_items env vid (vs_items v) y\<rparr>"
    by (rule seed_vendor_Inr [OF assms(4)])
  have r: "se_user env (vs_ownerPhone v) \<notin> us_id ` set (a_users w)"
    "se_vendor env (vs_ownerPhone v) \<notin> v_id ` set (w_vendors (a_world w))"
    using assms(2) by (simp_all add: vendor_ready_def)
  have s: "distinct (map us_id (a_users w))" "distinct (map v_id (w_vendors (a_world w)))"
    using assms(1) by (simp_all add: ids_sound_def)
  have ap: "vs_ownerPhone v \<noteq> vs_ownerPhone b" "se_user env (vs_ownerPhone v) \<noteq> se_user env (vs_ownerPhone b)"
    "se_vendor env (vs_ownerPhone v) \<noteq> se_vendor env (vs_ownerPhone b)"
    using assms(3) by (simp_all add: vendors_apart_def)
  have "vendor_settled b w'" if st: "vendor_settled b w"
  proof (rule vendor_settled_user [OF uw ap(1) st r(1) s(1)])
    fix a assume "user_settled (vs_ownerPhone b) VENDOR (vs_ownerName b) True w1"
      "user_by_phone (vs_ownerPhone b) w1 = Some a" "us_id a \<noteq> u" "vendor_row_settled b (us_id a) (a_world w)"
    then show ?thesis
      using write_vendor_others [OF wv r(2) s(2), of "us_id a" b] seed_items_vendor
      by (auto simp: vendor_settled_def w' user_settled_def user_by_phone_def)
  qed
  moreover have "vendor_ready env b w'" if "vendor_ready env b w"
  proof -
    have "se_user env (vs_ownerPhone b) \<notin> us_id ` set (a_users w1)"
      using seed_user_ids(2) [OF uw r(1) s(1)] that ap(2) by (auto simp: vendor_ready_def)
    moreover have "se_vendor env (vs_ownerPhone b) \<notin> v_id ` set (w_vendors y)"
      using write_vendor_settles(5) [OF wv r(2) s(2)] that ap(3) by (auto simp: vendor_ready_def)
    ultimately show ?thesis using that by (simp add: vendor_ready_def w')
  qed
  ultimately show ?thesis by blast
qed

lemma seed_vendor_rests:
  assumes "vendor_settled v w"
  shows "seed_vendor env v w = (Inr (), w)"
proof -
  obtain u x where u: "user_by_phone (vs_ownerPhone v) w = Some u" "user_settled (vs_ownerPhone v) VENDOR (vs_ownerName v) True w"
    and x: "find_row (\<lambda>x. v_userId x = us_id u) (w_vendors (a_world w)) = Some x" "\<not> falsy (v_profilePhotoUrl x)"
      "\<forall>y \<in> set (w_vendors (a_world w)). v_id y = v_id x \<longrightarrow> pilot_columns v (v_profilePhotoUrl x) y = y"
      "\<forall>it \<in> set (vs_items v). item_settled (v_id x) (ms_name it) (a_world w)"
    using assms by (auto simp: vendor_settled_def vendor_row_settled_def)
  have "upd_where (\<lambda>y. v_id y = v_id x) (pilot_columns v (v_profilePhotoUrl x)) (w_vendors (a_world w)) = w_vendors (a_world w)"
    by (rule upd_where_fixed) (rule x(3))
  then have wv: "write_vendor env v (us_id u) (Some x) (v_profilePhotoUrl x) (a_world w) = (v_id x, a_world w)"
    by (simp add: write_vendor_def)
  show ?thesis
    using x(2) seed_items_rests [OF x(4)]
    by (simp add: seed_vendor_def seed_user_rests [OF u(2,1)] vendor_of_user_row x(1) wv on_world_def)
qed

interpretation pilot_vendors: seeding "seed_vendor env" "seed_vendor env'" vendor_settled "vendor_ready env" ids_sound "vendors_apart env"
proof unfold_locales
  show "vendors_apart env a b \<Longrightarrow> vendors_apart env b a" for a b by (auto simp: vendors_apart_def)
qed (use seed_vendor_settles seed_vendor_keeps seed_vendor_rests in blast)+

section \<open>Riders, and the whole run\<close>

definition rider_settled :: "rider_seed \<Rightarrow> auth_world \<Rightarrow> bool" where
  "rider_settled r w \<longleftrightarrow>
     user_settled (rs_phone r) RIDER (rs_displayName r) True w
     \<and> (\<exists>u x. user_by_phone (rs_phone r) w = Some u \<and> rider_of (us_id u) w = Some x
          \<and> (\<forall>y \<in> set (w_riders (a_world w)). r_id y = r_id x \<longrightarrow> pilot_rider_columns y = y))"

definition rider_ready :: "seed_env \<Rightarrow> rider_seed \<Rightarrow> auth_world \<Rightarrow> bool" where
  "rider_ready env r w \<longleftrightarrow>
     se_user env (rs_phone r) \<notin> us_id ` set (a_users w) \<and> se_rider env (rs_phone r) \<notin> r_id ` set (w_riders (a_world w))
     \<and> rs_phone r \<notin> vs_ownerPhone ` set VENDORS"

definition riders_apart :: "seed_env \<Rightarrow> rider_seed \<Rightarrow> rider_seed \<Rightarrow> bool" where
  "riders_apart env a b \<longleftrightarrow> rs_phone a \<noteq> rs_phone b \<and> se_user env (rs_phone a) \<noteq> se_user env (rs_phone b)
     \<and> se_rider env (rs_phone a) \<noteq> se_rider env (rs_phone b)"

definition vendors_stand :: "auth_world \<Rightarrow> bool" where
  "vendors_stand w \<longleftrightarrow> ids_sound w \<and> (\<forall>v \<in> set VENDORS. vendor_settled v w)"

lemma pilot_rider_sel [simp]:
  "r_id (pilot_rider_columns x) = r_id x" "r_userId (pilot_rider_columns x) = r_userId x"
  "pilot_rider_columns (pilot_rider_columns x) = pilot_rider_columns x"
  "r_id (pilot_rider_row env r u) = se_rider env (rs_phone r)" "r_userId (pilot_rider_row env r u) = u"
  "pilot_rider_columns (pilot_rider_row env r u) = pilot_rider_row env r u"
  by (simp_all add: pilot_rider_columns_def pilot_rider_row_def blank_rider_def)

text \<open>A rider step that did not fail: the new table of riders.\<close>

lemma seed_rider_Inr:
  assumes "seed_rider env r w = (Inr (), w')"
  obtains u w1 where "seed_user env (rs_phone r) RIDER (rs_displayName r) True w = (u, w1)"
    and "a_users w' = a_users w1" and "w_vendors (a_world w') = w_vendors (a_world w)" and "w_items (a_world w') = w_items (a_world w)"
    and "w_riders (a_world w') = (case find_row (\<lambda>x. r_userId x = u) (w_riders (a_world w)) of
           None \<Rightarrow> w_riders (a_world w) @ [pilot_rider_row env r u]
         | Some x \<Rightarrow> upd_where (\<lambda>z. r_id z = r_id x) pilot_rider_columns (w_riders (a_world w)))"
proof -
  obtain u w1 where uw: "seed_user env (rs_phone r) RIDER (rs_displayName r) True w = (u, w1)" by force
  have aw: "a_world w1 = a_world w" using seed_user_world [of env "rs_phone r" RIDER "rs_displayName r" True w] uw by simp
  show thesis
    by (rule that [OF uw])
      (use assms in \<open>auto simp: seed_rider_def uw rider_of_def aw Let_def on_world_def split: option.splits if_splits\<close>)
qed

text \<open>The table of riders after a step: the row of the rider, and the rows of the others.\<close>

lemma rider_table:
  assumes "rs' = (case find_row (\<lambda>x. r_userId x = u) rs of
             None \<Rightarrow> rs @ [pilot_rider_row env r u]
           | Some x \<Rightarrow> upd_where (\<lambda>z. r_id z = r_id x) pilot_rider_columns rs)"
    and new: "se_rider env (rs_phone r) \<notin> r_id ` set rs" and dist: "distinct (map r_id rs)"
  shows "\<exists>x. find_row (\<lambda>x. r_userId x = u) rs' = Some x \<and> (\<forall>y \<in> set rs'. r_id y = r_id x \<longrightarrow> pilot_rider_columns y = y)"
    and "distinct (map r_id rs')" and "r_id ` set rs' \<subseteq> insert (se_rider env (rs_phone r)) (r_id ` set rs)"
    and "other \<noteq> u \<Longrightarrow> find_row (\<lambda>x. r_userId x = other) rs = Some x \<Longrightarrow>
           find_row (\<lambda>x. r_userId x = other) rs' = Some x \<and> (\<forall>y \<in> set rs'. r_id y = r_id x \<longrightarrow> y \<in> set rs)"
proof -
  have m: "map r_id (upd_where q pilot_rider_columns rs) = map r_id rs" for q by (rule map_key_upd_where) simp
  have ids: "map r_id rs' = map r_id rs \<or> map r_id rs' = map r_id rs @ [se_rider env (rs_phone r)]"
    using assms(1) m by (auto split: option.splits)
  then show "distinct (map r_id rs')" using new dist by auto
  have "set (map r_id rs') \<subseteq> insert (se_rider env (rs_phone r)) (set (map r_id rs))"
    using ids by (elim disjE) (simp_all only: set_append list.set, blast+)
  then show "r_id ` set rs' \<subseteq> insert (se_rider env (rs_phone r)) (r_id ` set rs)" by simp
  show "\<exists>x. find_row (\<lambda>x. r_userId x = u) rs' = Some x \<and> (\<forall>y \<in> set rs'. r_id y = r_id x \<longrightarrow> pilot_rider_columns y = y)"
  proof (cases "find_row (\<lambda>x. r_userId x = u) rs")
    case None
    have "r_id y \<noteq> se_rider env (rs_phone r)" if "y \<in> set rs" for y using new that by (metis imageI)
    then show ?thesis using None assms(1) by (auto simp: find_row_append)
  next
    case (Some x)
    then have e: "rs' = upd_where (\<lambda>z. r_id z = r_id x) pilot_rider_columns rs" using assms(1) by simp
    have "find_row (\<lambda>x. r_userId x = u) rs' = Some (pilot_rider_columns x)"
      unfolding e using Some by (subst find_row_cong_upd) auto
    then show ?thesis by (auto simp: e set_upd_where)
  qed
  assume other: "other \<noteq> u" "find_row (\<lambda>x. r_userId x = other) rs = Some x"
  have mem: "x \<in> set rs" "r_userId x = other" using find_row_Some [OF other(2)] by auto
  show "find_row (\<lambda>x. r_userId x = other) rs' = Some x \<and> (\<forall>y \<in> set rs'. r_id y = r_id x \<longrightarrow> y \<in> set rs)"
  proof (cases "find_row (\<lambda>x. r_userId x = u) rs")
    case None
    have "se_rider env (rs_phone r) \<noteq> r_id x" using new mem(1) by auto
    then show ?thesis using None assms(1) other(2) by (auto simp: find_row_append)
  next
    case (Some z)
    then have e: "rs' = upd_where (\<lambda>y. r_id y = r_id z) pilot_rider_columns rs" using assms(1) by simp
    have "z \<in> set rs" "r_userId z = u" using find_row_Some [OF Some] by auto
    then have ne: "r_id z \<noteq> r_id x" using mem dist other(1) by (metis distinct_map inj_onD)
    have "find_row (\<lambda>x. r_userId x = other) rs' = Some x"
      unfolding e using other(2) ne by (subst find_row_cong_upd) auto
    then show ?thesis using ne by (auto simp: e set_upd_where)
  qed
qed

lemma seed_rider_settles:
  assumes "vendors_stand w" and "rider_ready env r w" and "seed_rider env r w = (Inr (), w')"
  shows "rider_settled r w' \<and> vendors_stand w'"
proof -
  obtain u w1 where uw: "seed_user env (rs_phone r) RIDER (rs_displayName r) True w = (u, w1)"
    and w': "a_users w' = a_users w1" "w_vendors (a_world w') = w_vendors (a_world w)" "w_items (a_world w') = w_items (a_world w)"
    and rs: "w_riders (a_world w') = (case find_row (\<lambda>x. r_userId x = u) (w_riders (a_world w)) of
           None \<Rightarrow> w_riders (a_world w) @ [pilot_rider_row env r u]
         | Some x \<Rightarrow> upd_where (\<lambda>z. r_id z = r_id x) pilot_rider_columns (w_riders (a_world w)))"
    by (rule seed_rider_Inr [OF assms(3)])
  have rd: "se_user env (rs_phone r) \<notin> us_id ` set (a_users w)" "se_rider env (rs_phone r) \<notin> r_id ` set (w_riders (a_world w))"
    "rs_phone r \<notin> vs_ownerPhone ` set VENDORS"
    using assms(2) by (simp_all add: rider_ready_def)
  have s: "distinct (map us_id (a_users w))" "distinct (map v_id (w_vendors (a_world w)))"
    "distinct (map r_id (w_riders (a_world w)))" "no_stale_photo (a_world w)" "\<forall>v \<in> set VENDORS. vendor_settled v w"
    using assms(1) by (simp_all add: vendors_stand_def ids_sound_def)
  note t = rider_table [OF rs rd(2) s(3)]
  obtain a where a: "user_by_phone (rs_phone r) w1 = Some a" "us_id a = u" using seed_user_settles(2) [OF uw] by auto
  have "rider_settled r w'"
    using t(1) a seed_user_settles(1) [OF uw]
    by (auto simp: rider_settled_def rider_of_def user_settled_def user_by_phone_def w')
  moreover have "vendor_settled v w'" if "v \<in> set VENDORS" for v
  proof (rule vendor_settled_user [OF uw _ _ rd(1) s(1)])
    show "rs_phone r \<noteq> vs_ownerPhone v" "vendor_settled v w" using rd(3) s(5) that by auto
    fix b assume "user_settled (vs_ownerPhone v) VENDOR (vs_ownerName v) True w1"
      "user_by_phone (vs_ownerPhone v) w1 = Some b" "vendor_row_settled v (us_id b) (a_world w)"
    then show "vendor_settled v w'"
      by (auto simp: vendor_settled_def vendor_row_settled_def user_settled_def user_by_phone_def item_settled_def item_named_def w')
  qed
  moreover have "ids_sound w'"
    using seed_user_ids(1) [OF uw rd(1) s(1)] t(2) s by (simp add: ids_sound_def w' no_stale_photo_def)
  ultimately show ?thesis by (simp add: vendors_stand_def)
qed

lemma seed_rider_keeps:
  assumes "vendors_stand w" and "rider_ready env r w" and "riders_apart env r b" and "seed_rider env r w = (Inr (), w')"
  shows "(rider_settled b w \<longrightarrow> rider_settled b w') \<and> (rider_ready env b w \<longrightarrow> rider_ready env b w')"
proof -
  obtain u w1 where uw: "seed_user env (rs_phone r) RIDER (rs_displayName r) True w = (u, w1)"
    and w': "a_users w' = a_users w1"
    and rs: "w_riders (a_world w') = (case find_row (\<lambda>x. r_userId x = u) (w_riders (a_world w)) of
           None \<Rightarrow> w_riders (a_world w) @ [pilot_rider_row env r u]
         | Some x \<Rightarrow> upd_where (\<lambda>z. r_id z = r_id x) pilot_rider_columns (w_riders (a_world w)))"
    by (rule seed_rider_Inr [OF assms(4)])
  have rd: "se_user env (rs_phone r) \<notin> us_id ` set (a_users w)" "se_rider env (rs_phone r) \<notin> r_id ` set (w_riders (a_world w))"
    using assms(2) by (simp_all add: rider_ready_def)
  have s: "distinct (map us_id (a_users w))" "distinct (map r_id (w_riders (a_world w)))"
    using assms(1) by (simp_all add: vendors_stand_def ids_sound_def)
  have ne: "rs_phone b \<noteq> rs_phone r" using assms(3) by (auto simp: riders_apart_def)
  note t = rider_table [OF rs rd(2) s(2)]
  have "rider_settled b w'" if st: "rider_settled b w"
  proof -
    obtain a x where a: "user_by_phone (rs_phone b) w = Some a" "find_row (\<lambda>x. r_userId x = us_id a) (w_riders (a_world w)) = Some x"
      "\<forall>y \<in> set (w_riders (a_world w)). r_id y = r_id x \<longrightarrow> pilot_rider_columns y = y"
      and us: "user_settled (rs_phone b) RIDER (rs_displayName b) True w"
      using st by (auto simp: rider_settled_def rider_of_def)
    have i: "us_id a \<noteq> u" by (rule seed_user_ids(3) [OF uw rd(1) s(1) a(1) ne])
    have row: "find_row (\<lambda>x. r_userId x = us_id a) (w_riders (a_world w')) = Some x"
      "\<forall>y \<in> set (w_riders (a_world w')). r_id y = r_id x \<longrightarrow> pilot_rider_columns y = y"
      using t(4) [OF i a(2)] a(3) by auto
    have "user_settled (rs_phone b) RIDER (rs_displayName b) True w1" "user_by_phone (rs_phone b) w1 = Some a"
      using seed_user_others [OF uw ne] us a(1) by auto
    then have "user_settled (rs_phone b) RIDER (rs_displayName b) True w'" "user_by_phone (rs_phone b) w' = Some a"
      by (simp_all add: user_settled_def user_by_phone_def w')
    then show ?thesis using row unfolding rider_settled_def rider_of_def by blast
  qed
  moreover have "rider_ready env b w'" if "rider_ready env b w"
  proof -
    have "se_user env (rs_phone b) \<notin> us_id ` set (a_users w1)"
      using seed_user_ids(2) [OF uw rd(1) s(1)] that assms(3) by (auto simp: rider_ready_def riders_apart_def)
    moreover have "se_rider env (rs_phone b) \<notin> r_id ` set (w_riders (a_world w'))"
      using t(3) that assms(3) by (auto simp: rider_ready_def riders_apart_def)
    ultimately show ?thesis using that by (simp add: rider_ready_def w')
  qed
  ultimately show ?thesis by blast
qed

lemma seed_rider_rests:
  assumes "rider_settled r w"
  shows "seed_rider env r w = (Inr (), w)"
proof -
  obtain u x where u: "user_by_phone (rs_phone r) w = Some u" "user_settled (rs_phone r) RIDER (rs_displayName r) True w"
    and x: "rider_of (us_id u) w = Some x" "\<forall>y \<in> set (w_riders (a_world w)). r_id y = r_id x \<longrightarrow> pilot_rider_columns y = y"
    using assms by (auto simp: rider_settled_def)
  have "upd_where (\<lambda>y. r_id y = r_id x) pilot_rider_columns (w_riders (a_world w)) = w_riders (a_world w)"
    by (rule upd_where_fixed) (rule x(2))
  then show ?thesis by (simp add: seed_rider_def seed_user_rests [OF u(2,1)] x(1) on_world_def)
qed

interpretation pilot_riders: seeding "seed_rider env" "seed_rider env'" rider_settled "rider_ready env" vendors_stand "riders_apart env"
proof unfold_locales
  show "riders_apart env a b \<Longrightarrow> riders_apart env b a" for a b by (auto simp: riders_apart_def)
qed (use seed_rider_settles seed_rider_keeps seed_rider_rests in blast)+

definition pilot_phones :: "string list" where "pilot_phones = map vs_ownerPhone VENDORS @ map rs_phone RIDERS"

lemma pilot_phones_list:
  "pilot_phones = [''+237670000101'', ''+237670000102'', ''+237670000103'', ''+237670000201'', ''+237670000202'', ''+237670000203'']"
  by (simp add: pilot_phones_def VENDORS_def vendor_seed_1_def vendor_seed_2_def vendor_seed_3_def RIDERS_def pilot_rider_def)

lemma pilot_phones_distinct: "distinct pilot_phones" unfolding pilot_phones_list by simp

lemma seed_user_new_ids:
  assumes "seed_user env phone role name rename w = (i, w1)"
  shows "us_id ` set (a_users w1) \<subseteq> insert (se_user env phone) (us_id ` set (a_users w))"
  using assms by (auto simp: seed_user_def new_user_def set_upd_where split: option.splits)

lemma run_vendors_frame:
  "run_all (seed_vendor env) vs w = (Inr (), w') \<Longrightarrow>
     us_id ` set (a_users w') \<subseteq> us_id ` set (a_users w) \<union> (\<lambda>v. se_user env (vs_ownerPhone v)) ` set vs
     \<and> w_riders (a_world w') = w_riders (a_world w)"
proof (induction vs arbitrary: w)
  case (Cons v vs)
  then obtain w1 where w1: "seed_vendor env v w = (Inr (), w1)" and run: "run_all (seed_vendor env) vs w1 = (Inr (), w')"
    by (auto split: prod.splits sum.splits)
  obtain u w0 photo vid y where uw: "seed_user env (vs_ownerPhone v) VENDOR (vs_ownerName v) True w = (u, w0)"
    and wv: "write_vendor env v u (find_row (\<lambda>x. v_userId x = u) (w_vendors (a_world w))) photo (a_world w) = (vid, y)"
    and e: "w1 = w0\<lparr>a_world := seed_items env vid (vs_items v) y\<rparr>"
    by (rule seed_vendor_Inr [OF w1])
  have "w_riders y = w_riders (a_world w)" using wv by (auto simp: write_vendor_def split: option.splits)
  moreover have "us_id ` set (a_users w1) \<subseteq> insert (se_user env (vs_ownerPhone v)) (us_id ` set (a_users w))"
    using seed_user_new_ids [OF uw] by (simp add: e)
  ultimately show ?case using Cons.IH [OF run] e by simp blast
qed simp

lemma distinct_map_sorted_wrt: "distinct (map f xs) \<longleftrightarrow> sorted_wrt (\<lambda>a b. f a \<noteq> f b) xs"
  by (induction xs) auto

lemma clear_stale_frame [simp]:
  "w_vendors (clear_stale_photos x) = w_vendors x" "w_riders (clear_stale_photos x) = w_riders x"
  by (simp_all add: clear_stale_photos_def)

lemma pilot_pairs:
  assumes "inj_on (se_user env) (set pilot_phones)" and "inj_on (se_vendor env) (set pilot_phones)"
    and "inj_on (se_rider env) (set pilot_phones)"
  shows "sorted_wrt (vendors_apart env) VENDORS" and "sorted_wrt (riders_apart env) RIDERS"
proof -
  have d: "distinct (map vs_ownerPhone VENDORS)" "distinct (map rs_phone RIDERS)"
    using pilot_phones_distinct by (simp_all add: pilot_phones_def)
  have w: "sorted_wrt (\<lambda>a b. vs_ownerPhone a \<noteq> vs_ownerPhone b) VENDORS" "sorted_wrt (\<lambda>a b. rs_phone a \<noteq> rs_phone b) RIDERS"
    using d by (simp_all add: distinct_map_sorted_wrt)
  have p: "v \<in> set VENDORS \<Longrightarrow> vs_ownerPhone v \<in> set pilot_phones" "r \<in> set RIDERS \<Longrightarrow> rs_phone r \<in> set pilot_phones" for v r
    by (simp_all add: pilot_phones_def)
  note i = inj_on_eq_iff [OF assms(1)] inj_on_eq_iff [OF assms(2)] inj_on_eq_iff [OF assms(3)]
  show "sorted_wrt (vendors_apart env) VENDORS"
    by (rule sorted_wrt_mono_rel [OF _ w(1)]) (simp add: vendors_apart_def i p)
  show "sorted_wrt (riders_apart env) RIDERS"
    by (rule sorted_wrt_mono_rel [OF _ w(2)]) (simp add: riders_apart_def i p)
qed

text \<open>
  Running the pilot seed again changes nothing: after a run that ended well, on any database with unique
  keys and whatever rows it held, a second run (with other drawn ids and whatever the photo host answers
  then) leaves every table as it is.
\<close>

theorem pilot_seed_idempotent:
  assumes run: "seed_pilot env a k s b w = (Inr (), w')"
    and keys: "distinct (map us_id (a_users w))" "distinct (map v_id (w_vendors (a_world w)))"
      "distinct (map r_id (w_riders (a_world w)))"
    and up: "uploads_work env"
    and new: "\<forall>p \<in> set pilot_phones. se_user env p \<notin> us_id ` set (a_users w)
      \<and> se_vendor env p \<notin> v_id ` set (w_vendors (a_world w)) \<and> se_rider env p \<notin> r_id ` set (w_riders (a_world w))"
    and inj: "inj_on (se_user env) (set pilot_phones)" "inj_on (se_vendor env) (set pilot_phones)"
      "inj_on (se_rider env) (set pilot_phones)"
  shows "seed_pilot env' a k s b w' = (Inr (), w')"
proof -
  let ?w0 = "on_world clear_stale_photos w"
  obtain w1 where r2: "makeR2Client a k s b = Inr ()" and v: "run_all (seed_vendor env) VENDORS ?w0 = (Inr (), w1)"
    and r: "run_all (seed_rider env) RIDERS w1 = (Inr (), w')"
    using run by (auto simp: seed_pilot_def split: sum.splits prod.splits)
  have w0: "a_users ?w0 = a_users w" "w_vendors (a_world ?w0) = w_vendors (a_world w)" "w_riders (a_world ?w0) = w_riders (a_world w)"
    by simp_all
  have "no_stale_photo (a_world ?w0)"
    by (auto simp: clear_stale_photos_def no_stale_photo_def set_upd_where stale_photo_def)
  then have s0: "ids_sound ?w0" using keys by (simp add: ids_sound_def)
  note ap = pilot_pairs [OF inj]
  have photos: "\<forall>v \<in> set VENDORS. \<forall>it \<in> set (vs_items v). ms_photoUrl it \<noteq> None \<and> ms_photoUrl it \<noteq> Some []"
    by (simp add: VENDORS_def vendor_seed_1_def vendor_seed_2_def vendor_seed_3_def)
  have "\<forall>v \<in> set VENDORS. vendor_ready env v ?w0"
    using photos new up by (auto simp: vendor_ready_def w0 pilot_phones_def)
  from pilot_vendors.run_settles [OF v s0 this ap(1)]
  have st: "vendors_stand w1" by (simp add: vendors_stand_def)
  have "se_user env (rs_phone x) \<notin> us_id ` set (a_users w1)" if x: "x \<in> set RIDERS" for x
  proof -
    have "se_user env (rs_phone x) \<noteq> se_user env (vs_ownerPhone y)" if y: "y \<in> set VENDORS" for y
    proof -
      have "rs_phone x \<noteq> vs_ownerPhone y" using pilot_phones_distinct x y by (auto simp: pilot_phones_def)
      then show ?thesis using x y by (simp add: inj_on_eq_iff [OF inj(1)] pilot_phones_def)
    qed
    then have "se_user env (rs_phone x) \<notin> (\<lambda>v. se_user env (vs_ownerPhone v)) ` set VENDORS" by blast
    moreover have "se_user env (rs_phone x) \<notin> us_id ` set (a_users w)" using new x by (simp add: pilot_phones_def)
    ultimately show ?thesis using run_vendors_frame [OF v] w0(1) by auto
  qed
  moreover have "rs_phone x \<notin> vs_ownerPhone ` set VENDORS" if "x \<in> set RIDERS" for x
    using pilot_phones_distinct that by (auto simp: pilot_phones_def)
  moreover have "se_rider env (rs_phone x) \<notin> r_id ` set (w_riders (a_world w1))" if "x \<in> set RIDERS" for x
    using run_vendors_frame [OF v] new that by (auto simp: w0 pilot_phones_def)
  ultimately have "\<forall>x \<in> set RIDERS. rider_ready env x w1" by (simp add: rider_ready_def)
  from pilot_riders.run_settles [OF r st this ap(2)]
  have fin: "vendors_stand w'" "\<forall>x \<in> set RIDERS. rider_settled x w'" by auto
  have "no_stale_photo (a_world w')" using fin(1) by (simp add: vendors_stand_def ids_sound_def)
  then have "on_world clear_stale_photos w' = w'"
    using upd_where_fixed [of "w_items (a_world w')" stale_photo]
    by (simp add: on_world_def clear_stale_photos_def no_stale_photo_def)
  moreover have "run_all (seed_vendor env') VENDORS w' = (Inr (), w')"
    by (rule pilot_vendors.run_rests) (use fin(1) in \<open>simp add: vendors_stand_def\<close>)
  moreover have "run_all (seed_rider env') RIDERS w' = (Inr (), w')"
    by (rule pilot_riders.run_rests [OF fin(2)])
  ultimately show ?thesis by (simp add: seed_pilot_def r2)
qed

text \<open>A run ends well when the photo host answers and the plates of the three riders are free.\<close>

lemma run_vendors_succeed:
  assumes "uploads_work env"
  shows "\<exists>w'. run_all (seed_vendor env) vs w = (Inr (), w')"
proof (induction vs arbitrary: w)
  case (Cons v vs)
  have up: "\<exists>key. downloadAndUploadPhoto env u p = Inr key" for u p
  proof -
    obtain key where "se_upload env p u = Inr key" using assms unfolding uploads_work_def by blast
    then show ?thesis by (simp add: downloadAndUploadPhoto_def)
  qed
  have "\<exists>w1. seed_vendor env v w = (Inr (), w1)"
    using up [of "DEMO_PHOTO (vs_type v)" "''vendor-profile''"]
    by (auto simp: seed_vendor_def Let_def split: prod.split sum.split)
  then show ?case using Cons by auto
qed simp

lemma seed_rider_plates:
  assumes "seed_rider env r w = (Inr (), w')"
  shows "r_licensePlate ` set (w_riders (a_world w')) \<subseteq> insert (Some (rs_licensePlate r)) (r_licensePlate ` set (w_riders (a_world w)))"
proof -
  obtain u w1 where "w_riders (a_world w') = (case find_row (\<lambda>x. r_userId x = u) (w_riders (a_world w)) of
           None \<Rightarrow> w_riders (a_world w) @ [pilot_rider_row env r u]
         | Some x \<Rightarrow> upd_where (\<lambda>z. r_id z = r_id x) pilot_rider_columns (w_riders (a_world w)))"
    by (rule seed_rider_Inr [OF assms])
  then show ?thesis
    by (auto simp: set_upd_where pilot_rider_row_def pilot_rider_columns_def blank_rider_def split: option.splits)
qed

lemma run_riders_succeed:
  "\<forall>r \<in> set rs. Some (rs_licensePlate r) \<notin> r_licensePlate ` set (w_riders (a_world w)) \<Longrightarrow>
   distinct (map rs_licensePlate rs) \<Longrightarrow> \<exists>w'. run_all (seed_rider env) rs w = (Inr (), w')"
proof (induction rs arbitrary: w)
  case (Cons r rs)
  have "\<not> clashes r_licensePlate (Some (rs_licensePlate r)) (\<lambda>_. True) (w_riders (a_world w))"
    using Cons.prems(1) unfolding clashes_def by (metis imageI list.set_intros(1))
  then have "\<exists>w1. seed_rider env r w = (Inr (), w1)"
    using seed_user_world [of env "rs_phone r" RIDER "rs_displayName r" True w]
    by (cases "seed_user env (rs_phone r) RIDER (rs_displayName r) True w") (simp add: seed_rider_def split: option.split)
  then obtain w1 where w1: "seed_rider env r w = (Inr (), w1)" by blast
  have "Some (rs_licensePlate x) \<notin> r_licensePlate ` set (w_riders (a_world w1))" if x: "x \<in> set rs" for x
  proof -
    have "Some (rs_licensePlate x) \<noteq> Some (rs_licensePlate r)" using Cons.prems(2) x by (metis distinct.simps(2) list.simps(9) imageI set_map option.inject)
    moreover have "Some (rs_licensePlate x) \<notin> r_licensePlate ` set (w_riders (a_world w))" using Cons.prems(1) x by simp
    ultimately show ?thesis using seed_rider_plates [OF w1] by blast
  qed
  then show ?case using Cons.IH [of w1] Cons.prems(2) w1 by simp
qed simp

lemma pilot_seed_succeeds:
  assumes "makeR2Client a k s b = Inr ()" and "uploads_work env"
    and "\<forall>r \<in> set RIDERS. Some (rs_licensePlate r) \<notin> r_licensePlate ` set (w_riders (a_world w))"
  shows "\<exists>w'. seed_pilot env a k s b w = (Inr (), w')"
proof -
  obtain w1 where w1: "run_all (seed_vendor env) VENDORS (on_world clear_stale_photos w) = (Inr (), w1)"
    using run_vendors_succeed [OF assms(2)] by blast
  have "distinct (map rs_licensePlate RIDERS)" by (simp add: RIDERS_def pilot_rider_def)
  moreover have "w_riders (a_world w1) = w_riders (a_world w)" using run_vendors_frame [OF w1] by simp
  ultimately have "\<exists>w'. run_all (seed_rider env) RIDERS w1 = (Inr (), w')"
    using run_riders_succeed [of RIDERS w1 env] assms(3) by simp
  then show ?thesis using assms(1) w1 by (simp add: seed_pilot_def)
qed

end
