(* ===== verification/Operations.thy ===== *)
theory Operations
  imports Env_Config Campay Otp Request_Validation
begin

text \<open>
  What surrounds the handlers: the probes (\<open>health/health.controller.ts\<close>), the metrics endpoint and its
  bearer check, the duration histogram's labels, the log transports, Sentry's scrubbing
  (\<open>infra/observability\<close>), slow queries (\<open>infra/prisma\<close>), mail (\<open>infra/mail\<close>), the OpenAPI endpoint
  (\<open>infra/openapi\<close>), the URL check of \<open>shared/http/safe-fetch.ts\<close>, the captcha guard's request to
  Cloudflare and the script that tries the payment sandbox (\<open>scripts/campay-sandbox-smoke.ts\<close>).
\<close>

section \<open>Probes\<close>

text \<open>What \<open>SELECT 1\<close> and \<open>PING\<close> do is a parameter: an answer or a failure.\<close>

datatype dependency = Up | Down

definition checkDb :: "string + unit \<Rightarrow> dependency" where
  "checkDb query = (case query of Inr _ \<Rightarrow> Up | Inl _ \<Rightarrow> Down)"

definition checkRedis :: "string + string \<Rightarrow> dependency" where
  "checkRedis ping = (case ping of Inr result \<Rightarrow> if result = ''PONG'' then Up else Down | Inl _ \<Rightarrow> Down)"

record readiness =
  rd_http :: nat
  rd_status :: string
  rd_db :: dependency
  rd_redis :: dependency
  rd_campay :: CircuitState

definition ready :: "string + unit \<Rightarrow> string + string \<Rightarrow> CircuitState \<Rightarrow> readiness" where
  "ready query ping campay =
     (let db = checkDb query; cache = checkRedis ping; allHardOk = (db = Up \<and> cache = Up)
      in \<lparr>rd_http = (if allHardOk then 200 else 503), rd_status = (if allHardOk then ''ready'' else ''degraded''),
          rd_db = db, rd_redis = cache, rd_campay = campay\<rparr>)"

text \<open>
  The instance is taken out of rotation exactly when the database or Redis does not answer; the state of the
  payment provider is reported and changes nothing.
\<close>

lemma ready_iff:
  "rd_http (ready query ping campay) = 200 \<longleftrightarrow> (\<exists>u. query = Inr u) \<and> ping = Inr ''PONG''"
  "rd_http (ready query ping campay) = rd_http (ready query ping campay')"
  "rd_campay (ready query ping campay) = campay"
  by (auto simp: ready_def checkDb_def checkRedis_def Let_def split: sum.split)

section \<open>The metrics endpoint\<close>

text \<open>\<open>raw.replace(/^Bearer\s+/i, '')\<close>: the scheme in any case and the white space after it, when both are there.\<close>

definition strip_bearer :: "string \<Rightarrow> string" where
  "strip_bearer raw =
     (if to_lower (take 6 raw) = ''bearer'' \<and> js_space (hd (drop 6 raw @ [CHR ''x'']))
      then dropWhile js_space (drop 6 raw) else raw)"

text \<open>\<open>timingSafeEqual\<close> of two buffers of one length, and false on two lengths.\<close>

definition constantTimeEqual :: "string \<Rightarrow> string \<Rightarrow> bool" where
  "constantTimeEqual a b = (if length a \<noteq> length b then False else a = b)"

definition metrics_index :: "string option \<Rightarrow> string option \<Rightarrow> string \<Rightarrow> http_error + string" where
  "metrics_index METRICS_AUTH_TOKEN authorization metrics =
     (if \<not> falsy METRICS_AUTH_TOKEN
      then (let presented = strip_bearer (case authorization of Some a \<Rightarrow> a | None \<Rightarrow> [])
            in if presented = [] \<or> \<not> constantTimeEqual presented (the METRICS_AUTH_TOKEN)
               then Inl (Unauthorized ''metrics_unauthorized'') else Inr metrics)
      else Inr metrics)"

lemma metrics_guarded:
  assumes "\<not> falsy (Some token)"
  shows "metrics_index (Some token) authorization metrics = Inr metrics \<longleftrightarrow>
      (\<exists>a. authorization = Some a \<and> strip_bearer a = token)"
proof -
  have t: "token \<noteq> []" using assms by (cases token) simp_all
  have e: "strip_bearer [] = []" by (simp add: strip_bearer_def)
  have m: "metrics_index (Some token) authorization metrics =
      (let p = strip_bearer (case authorization of Some a \<Rightarrow> a | None \<Rightarrow> [])
       in if p = token then Inr metrics else Inl (Unauthorized ''metrics_unauthorized''))"
    using t assms unfolding metrics_index_def Let_def constantTimeEqual_def by auto
  show ?thesis
  proof (cases authorization)
    case None
    then show ?thesis using t m by (simp add: e Let_def)
  next
    case (Some a)
    then show ?thesis using m by (simp add: Let_def)
  qed
qed

text \<open>The scheme is optional: the bare token is let in as well.\<close>

lemma bare_token_accepted: "metrics_index (Some ''s3cret'') (Some ''s3cret'') m = Inr m"
  by (simp add: metrics_index_def strip_bearer_def to_lower_def Let_def constantTimeEqual_def)

section \<open>The duration histogram\<close>

record observation =
  ob_method :: string
  ob_route :: string
  ob_status :: nat

text \<open>What an interceptor sees: the handler's result with the status of the response, or what it threw.\<close>

datatype handled = Returned nat | Threw "nat option"

definition recorded_status :: "handled \<Rightarrow> nat" where
  "recorded_status h = (case h of Returned s \<Rightarrow> s | Threw (Some s) \<Rightarrow> s | Threw None \<Rightarrow> 500)"

definition recorded_route :: "string option \<Rightarrow> string option \<Rightarrow> string" where
  "recorded_route routePath url =
     (case routePath of Some p \<Rightarrow> p | None \<Rightarrow> (case url of Some u \<Rightarrow> u | None \<Rightarrow> ''unknown''))"

definition record_request :: "bool \<Rightarrow> string \<Rightarrow> string option \<Rightarrow> string option \<Rightarrow> handled \<Rightarrow> observation list" where
  "record_request is_http verb routePath url h =
     (if \<not> is_http then []
      else [\<lparr>ob_method = verb, ob_route = recorded_route routePath url, ob_status = recorded_status h\<rparr>])"

text \<open>Two requests of one route fall into the same series, whatever ids their URLs carry.\<close>

lemma one_series_per_route:
  "record_request True verb (Some route) url h = record_request True verb (Some route) url' h"
  by (simp add: record_request_def recorded_route_def)

text \<open>The process-wide registry: metrics registered once, however often the module is loaded.\<close>

record registry =
  rg_defaults :: bool
  rg_histogram :: "string option"
  rg_registered :: "string list"

definition HTTP_REQUEST_DURATION_SECONDS :: string where
  "HTTP_REQUEST_DURATION_SECONDS = ''http_request_duration_seconds''"

definition ensureDefaultMetrics :: "registry \<Rightarrow> registry" where
  "ensureDefaultMetrics g =
     (if rg_defaults g then g else g\<lparr>rg_defaults := True, rg_registered := rg_registered g @ [''default'']\<rparr>)"

definition ensureHttpHistogram :: "registry \<Rightarrow> registry" where
  "ensureHttpHistogram g =
     (if rg_histogram g \<noteq> None then g
      else if HTTP_REQUEST_DURATION_SECONDS \<in> set (rg_registered g)
      then g\<lparr>rg_histogram := Some HTTP_REQUEST_DURATION_SECONDS\<rparr>
      else g\<lparr>rg_histogram := Some HTTP_REQUEST_DURATION_SECONDS,
             rg_registered := rg_registered g @ [HTTP_REQUEST_DURATION_SECONDS]\<rparr>)"

lemma registered_once:
  assumes "distinct (rg_registered g)" and "rg_histogram g \<noteq> None \<longrightarrow> HTTP_REQUEST_DURATION_SECONDS \<in> set (rg_registered g)"
  shows "distinct (rg_registered (ensureHttpHistogram g))"
    and "ensureHttpHistogram (ensureHttpHistogram g) = ensureHttpHistogram g"
    and "ensureDefaultMetrics (ensureDefaultMetrics g) = ensureDefaultMetrics g"
  using assms by (auto simp: ensureHttpHistogram_def ensureDefaultMetrics_def)

section \<open>Logs and Sentry\<close>

datatype log_target = Pino_Pretty | Pino_Loki string string string string

definition buildPinoTransport :: "string option \<Rightarrow> string option \<Rightarrow> string option \<Rightarrow> string option \<Rightarrow> log_target list option" where
  "buildPinoTransport NODE_ENV LOKI_URL LOKI_USERNAME LOKI_TOKEN =
     (let or_empty = (\<lambda>x. case x of Some s \<Rightarrow> s | None \<Rightarrow> []);
          targets = (if NODE_ENV = Some ''production'' then [] else [Pino_Pretty])
            @ (if falsy LOKI_URL then []
               else [Pino_Loki (the LOKI_URL) (or_empty LOKI_USERNAME) (or_empty LOKI_TOKEN)
                       (case NODE_ENV of Some e \<Rightarrow> e | None \<Rightarrow> ''development'')])
      in if targets = [] then None else Some targets)"

text \<open>
  In production with Loki the only target is Loki: nothing is left for the standard output, to which pino
  writes by itself only when there is no transport.
\<close>

lemma production_loki_only:
  "buildPinoTransport (Some ''production'') (Some (c # cs)) u t =
     Some [Pino_Loki (c # cs) (case u of Some s \<Rightarrow> s | None \<Rightarrow> []) (case t of Some s \<Rightarrow> s | None \<Rightarrow> []) ''production'']"
  "buildPinoTransport (Some ''production'') None u t = None"
  by (simp_all add: buildPinoTransport_def Let_def)

text \<open>\<open>beforeSend\<close>: the headers of an event, without those that authenticate.\<close>

definition SCRUBBED :: "string list" where "SCRUBBED = [''authorization'', ''cookie'', ''set-cookie'']"

definition beforeSend :: "(string \<times> string) list option \<Rightarrow> (string \<times> string) list option" where
  "beforeSend headers = map_option (filter (\<lambda>h. fst h \<notin> set SCRUBBED)) headers"

definition initSentry :: "string option \<Rightarrow> bool" where "initSentry SENTRY_DSN = (\<not> falsy SENTRY_DSN)"

lemma nothing_secret_leaves:
  "beforeSend headers = Some hs \<Longrightarrow> h \<in> set hs \<Longrightarrow> fst h \<noteq> ''authorization'' \<and> fst h \<noteq> ''cookie'' \<and> fst h \<noteq> ''set-cookie''"
  by (auto simp: beforeSend_def SCRUBBED_def)

lemma other_headers_stay:
  "fst h \<notin> set SCRUBBED \<Longrightarrow> h \<in> set hs \<Longrightarrow> \<exists>hs'. beforeSend (Some hs) = Some hs' \<and> h \<in> set hs'"
  by (auto simp: beforeSend_def)

section \<open>Slow queries\<close>

definition DEFAULT_SLOW_QUERY_MS :: int where "DEFAULT_SLOW_QUERY_MS = 500"

text \<open>\<open>threshold\<close>: what \<open>parseInt\<close> makes of the variable.\<close>

definition slow_threshold :: "int option \<Rightarrow> int" where
  "slow_threshold threshold = (case threshold of Some n \<Rightarrow> if 0 < n then n else DEFAULT_SLOW_QUERY_MS | None \<Rightarrow> DEFAULT_SLOW_QUERY_MS)"

definition on_query :: "int \<Rightarrow> int \<Rightarrow> string \<Rightarrow> (int \<times> string) option" where
  "on_query slowMs duration query = (if duration < slowMs then None else Some (duration, take 200 query))"

lemma slow_query_line: "on_query (slow_threshold t) d q = Some (d', q') \<Longrightarrow> 0 < d' \<and> length q' \<le> 200 \<and> (\<exists>r. q = q' @ r)"
  by (auto simp: on_query_def slow_threshold_def DEFAULT_SLOW_QUERY_MS_def split: if_splits option.splits
      intro: exI [of _ "drop 200 q"])

section \<open>Mail\<close>

record mail_message =
  mm_to :: string
  mm_subject :: string
  mm_html :: string
  mm_text :: "string option"

text \<open>\<open>resend\<close>: an error message, or the id of the message when there is one.\<close>

definition mail_send ::
  "config \<Rightarrow> mail_message \<Rightarrow> string + string option \<Rightarrow> time \<Rightarrow> (http_error + string) \<times> (string option \<times> mail_message) list" where
  "mail_send cfg opts resend now =
     (case requireMail cfg of
        None \<Rightarrow> (Inr (''dev-'' @ show_int now), [])
      | Some (resendApiKey, sender) \<Rightarrow>
          (case resend of
             Inl e \<Rightarrow> (Inl (UpstreamError (''Resend send failed: '' @ e)), [(sender, opts)])
           | Inr i \<Rightarrow> if falsy i then (Inl (UpstreamError ''Resend send returned no message id''), [(sender, opts)])
                      else (Inr (the i), [(sender, opts)])))"

lemma mail_sent_once:
  "snd (mail_send cfg opts resend now) = (case requireMail cfg of None \<Rightarrow> [] | Some (_, sender) \<Rightarrow> [(sender, opts)])"
  "requireMail cfg = None \<Longrightarrow> fst (mail_send cfg opts resend now) = Inr (''dev-'' @ show_int now)"
  by (auto simp: mail_send_def split: option.split sum.split)

section \<open>The OpenAPI endpoint\<close>

text \<open>The document built at boot, or the build's failure; exporting it to a file needs it and ends the process.\<close>

datatype boot = Listening "string option" | Exported string | Boot_Failed

definition build_docs :: "bool \<Rightarrow> string option \<Rightarrow> boot" where
  "build_docs openApiExport document =
     (case document of
        Some d \<Rightarrow> if openApiExport then Exported d else Listening (Some d)
      | None \<Rightarrow> if openApiExport then Boot_Failed else Listening None)"

definition openapi_get :: "string option \<Rightarrow> (nat \<times> string) + string" where
  "openapi_get store = (case store of None \<Rightarrow> Inl (503, ''openapi_build_failed'') | Some doc \<Rightarrow> Inr doc)"

lemma docs_never_block: "build_docs False document = Listening document"
  by (simp add: build_docs_def split: option.split)

section \<open>The captcha\<close>

text \<open>\<open>extractToken\<close>: the camel-case property when it is there, otherwise the hyphenated one; a text that is not empty.\<close>

definition extractToken :: "(string \<times> plain) list \<Rightarrow> string option" where
  "extractToken body =
     (let camel = property ''cfTurnstileResponse'' body;
          raw = (if camel = Undefined \<or> camel = Null then property ''cf-turnstile-response'' body else camel)
      in case raw of PStr s \<Rightarrow> if s = [] then None else Some s | _ \<Rightarrow> None)"

text \<open>What comes back from Cloudflare: a network failure, a status, or the verdict.\<close>

datatype siteverify = Unreachable | Http_Error nat | Verdict bool

definition turnstile_verify :: "string option \<Rightarrow> siteverify \<Rightarrow> bool \<times> string list" where
  "turnstile_verify secret answer =
     (if falsy secret then (False, [''missing-secret''])
      else case answer of
             Unreachable \<Rightarrow> (False, [''siteverify-network-error''])
           | Http_Error n \<Rightarrow> (False, [''siteverify-http-'' @ show_nat n])
           | Verdict b \<Rightarrow> (b, []))"

definition turnstile_guard :: "bool \<Rightarrow> string option \<Rightarrow> (string \<times> plain) list \<Rightarrow> siteverify \<Rightarrow> http_error + bool" where
  "turnstile_guard enabled secret body answer =
     turnstile_canActivate enabled secret (extractToken body) (Some (fst (turnstile_verify secret answer)))"

text \<open>When the guard is on, only Cloudflare's yes to a token lets a request through: it fails closed.\<close>

lemma turnstile_fails_closed:
  assumes "\<not> falsy secret"
  shows "turnstile_guard True secret body answer = Inr True \<longleftrightarrow> extractToken body \<noteq> None \<and> answer = Verdict True"
proof -
  have "extractToken body \<noteq> Some []" by (auto simp: extractToken_def Let_def split: plain.split)
  then show ?thesis using assms
    by (cases "extractToken body" rule: option.exhaust; cases answer)
      (auto simp: turnstile_guard_def turnstile_canActivate_def turnstile_verify_def neq_Nil_conv)
qed

text \<open>
  The hyphenated property the guard accepts never reaches a handler: the class of the request does not have
  it and the validation refuses it.
\<close>

lemma hyphenated_token_refused:
  "extractToken [(''phone'', PStr p), (''cf-turnstile-response'', PStr (c # cs))] = Some (c # cs)
   \<and> \<not> accepts v RequestOtpDto_fields (PObj [(''phone'', PStr p), (''cf-turnstile-response'', PStr (c # cs))])"
  by (simp add: extractToken_def property_def RequestOtpDto_fields_def whitelisted_def)

section \<open>Fetching a URL of a user\<close>

text \<open>\<open>protocol\<close>: what the URL parser finds before the authority, \<open>None\<close> when it refuses.\<close>

datatype agent = Safe_Http | Safe_Https

definition getSafeAgent :: "string \<Rightarrow> agent" where
  "getSafeAgent protocol = (if protocol = ''https:'' then Safe_Https else Safe_Http)"

definition safeFetch :: "string option \<Rightarrow> http_error + agent" where
  "safeFetch protocol =
     (case protocol of
        None \<Rightarrow> Inl (UpstreamError ''invalid_url'')
      | Some p \<Rightarrow> if p \<noteq> ''http:'' \<and> p \<noteq> ''https:'' then Inl (UpstreamError ''protocol_not_allowed'')
                  else Inr (getSafeAgent p))"

lemma safeFetch_protocols: "safeFetch protocol = Inr a \<Longrightarrow> protocol = Some ''http:'' \<and> a = Safe_Http \<or> protocol = Some ''https:'' \<and> a = Safe_Https"
  by (auto simp: safeFetch_def getSafeAgent_def split: option.splits if_splits)

section \<open>Trying the payment sandbox\<close>

record sandbox_scenario =
  ss_msisdn :: string
  ss_operator :: string
  ss_expectedFinalStatus :: string
  ss_label :: string

definition SANDBOX_SCENARIOS :: "sandbox_scenario list" where
  "SANDBOX_SCENARIOS =
     [\<lparr>ss_msisdn = ''+237677777777'', ss_operator = ''MTN'', ss_expectedFinalStatus = ''SUCCESSFUL'', ss_label = ''MTN happy path''\<rparr>,
      \<lparr>ss_msisdn = ''+237677777770'', ss_operator = ''MTN'', ss_expectedFinalStatus = ''FAILED'', ss_label = ''MTN payer-side failure''\<rparr>,
      \<lparr>ss_msisdn = ''+237699999999'', ss_operator = ''Orange'', ss_expectedFinalStatus = ''SUCCESSFUL'', ss_label = ''Orange happy path''\<rparr>,
      \<lparr>ss_msisdn = ''+237699999990'', ss_operator = ''Orange'', ss_expectedFinalStatus = ''FAILED'', ss_label = ''Orange payer-side failure''\<rparr>]"

definition AMOUNT_XAF :: xaf where "AMOUNT_XAF = 25"
definition POLL_INTERVAL_MS :: int where "POLL_INTERVAL_MS = 3000"
definition POLL_TIMEOUT_MS :: int where "POLL_TIMEOUT_MS = 60000"

text \<open>\<open>readConfig\<close>: the script leaves with 2 when a variable is missing or the URL is not the sandbox's.\<close>

definition strip_slash :: "string \<Rightarrow> string" where
  "strip_slash s = (if s \<noteq> [] \<and> last s = CHR ''/'' then butlast s else s)"

definition readConfig :: "string option \<Rightarrow> string option \<Rightarrow> string option \<Rightarrow> nat + string \<times> string \<times> string" where
  "readConfig url user pass =
     (let or_empty = (\<lambda>x. case x of Some s \<Rightarrow> s | None \<Rightarrow> []);
          apiUrl = strip_slash (or_empty url); username = or_empty user; password = or_empty pass
      in if apiUrl = [] \<or> username = [] \<or> password = [] then Inl 2
         else if \<not> occurs ''demo.campay.net'' apiUrl then Inl 2
         else Inr (apiUrl, username, password))"

text \<open>\<open>getToken\<close> and \<open>initiateCollect\<close>, on the status of the reply and the fields they read from it.\<close>

definition is_ok :: "nat \<Rightarrow> bool" where "is_ok n \<longleftrightarrow> 200 \<le> n \<and> n \<le> 299"

definition sandbox_token :: "nat \<Rightarrow> string option \<Rightarrow> string + string" where
  "sandbox_token http_status token =
     (if \<not> is_ok http_status then Inl (''auth failed ('' @ show_nat http_status @ '')'')
      else if falsy token then Inl ''no token in response'' else Inr (the token))"

definition sandbox_collect :: "nat \<Rightarrow> string option \<Rightarrow> string option \<Rightarrow> string + string \<times> string" where
  "sandbox_collect http_status reference tx_status =
     (if \<not> is_ok http_status then Inl (''HTTP '' @ show_nat http_status)
      else if falsy reference then Inl ''missing reference in response''
      else Inr (the reference, case tx_status of Some s \<Rightarrow> s | None \<Rightarrow> ''PENDING''))"

text \<open>An answer of \<open>/transaction/\<close>: nothing usable, or a status (empty: none in the reply).\<close>

datatype poll_reply = No_Answer | Answered string

definition final_status :: "string \<Rightarrow> bool" where
  "final_status s \<longleftrightarrow> s = ''SUCCESSFUL'' \<or> s = ''FAILED'' \<or> s = ''CANCELLED''"

definition after_poll :: "poll_reply \<Rightarrow> string \<Rightarrow> string" where
  "after_poll reply earlier =
     (case reply of No_Answer \<Rightarrow> earlier | Answered s \<Rightarrow> if s = [] then earlier else s)"

text \<open>
  \<open>pollUntilTerminal\<close>: \<open>elapsed\<close> milliseconds after its start, before request \<open>n\<close>, which takes \<open>took n\<close>
  milliseconds after the sleep.  The result is the last status and the number of requests.
\<close>

function poll_from :: "(nat \<Rightarrow> poll_reply) \<Rightarrow> (nat \<Rightarrow> nat) \<Rightarrow> int \<Rightarrow> nat \<Rightarrow> string \<Rightarrow> string \<times> nat" where
  "poll_from reply took elapsed n earlier =
     (if \<not> elapsed < POLL_TIMEOUT_MS then (earlier, n)
      else (let current = after_poll (reply n) earlier
            in if reply n \<noteq> No_Answer \<and> final_status current then (current, Suc n)
               else poll_from reply took (elapsed + POLL_INTERVAL_MS + int (took n)) (Suc n) current))"
  by pat_completeness auto
termination
  by (relation "measure (\<lambda>(reply, took, elapsed, n, earlier). nat (POLL_TIMEOUT_MS - elapsed))")
    (auto simp: POLL_TIMEOUT_MS_def POLL_INTERVAL_MS_def)

declare poll_from.simps [simp del]

definition pollUntilTerminal :: "(nat \<Rightarrow> poll_reply) \<Rightarrow> (nat \<Rightarrow> nat) \<Rightarrow> string \<times> nat" where
  "pollUntilTerminal reply took = poll_from reply took 0 0 ''PENDING''"

lemma poll_from_bound:
  "0 \<le> elapsed \<Longrightarrow> int n * POLL_INTERVAL_MS \<le> elapsed \<Longrightarrow> n \<le> 20 \<Longrightarrow> snd (poll_from reply took elapsed n earlier) \<le> 20"
proof (induction reply took elapsed n earlier rule: poll_from.induct)
  case (1 reply took elapsed n earlier)
  show ?case
  proof (cases "elapsed < POLL_TIMEOUT_MS")
    case True
    then have "Suc n \<le> 20" using 1(3) by (simp add: POLL_INTERVAL_MS_def POLL_TIMEOUT_MS_def)
    moreover have "int (Suc n) * POLL_INTERVAL_MS \<le> elapsed + POLL_INTERVAL_MS + int (took n)"
      "0 \<le> elapsed + POLL_INTERVAL_MS + int (took n)"
      using 1(2,3) by (simp_all add: POLL_INTERVAL_MS_def)
    ultimately show ?thesis using 1(1) [OF _ refl] True by (subst poll_from.simps) (simp add: Let_def)
  next
    case False
    then show ?thesis using 1(4) by (subst poll_from.simps) simp
  qed
qed

text \<open>
  The poll asks at most 20 times, however slow the sandbox is, and reports a final status when the sandbox
  says one in time.
\<close>

lemma poll_bounded: "snd (pollUntilTerminal reply took) \<le> 20"
  by (simp add: pollUntilTerminal_def poll_from_bound)

record scenario_result =
  sr_collectAccepted :: bool
  sr_finalStatus :: "string option"
  sr_matches :: bool

text \<open>One scenario: \<open>collect\<close> is the reference or the error, the polls as above.\<close>

definition run_scenario ::
  "bool \<Rightarrow> string + string \<times> string \<Rightarrow> (nat \<Rightarrow> poll_reply) \<Rightarrow> (nat \<Rightarrow> nat) \<Rightarrow> sandbox_scenario \<Rightarrow> scenario_result" where
  "run_scenario skipPoll collect reply took s =
     (case collect of
        Inl _ \<Rightarrow> \<lparr>sr_collectAccepted = False, sr_finalStatus = None, sr_matches = False\<rparr>
      | Inr _ \<Rightarrow>
          if skipPoll then \<lparr>sr_collectAccepted = True, sr_finalStatus = None, sr_matches = False\<rparr>
          else (let final = fst (pollUntilTerminal reply took)
                in \<lparr>sr_collectAccepted = True, sr_finalStatus = Some final,
                    sr_matches = (final = ss_expectedFinalStatus s)\<rparr>))"

definition exit_code :: "bool \<Rightarrow> scenario_result list \<Rightarrow> nat" where
  "exit_code skipPoll results =
     (if list_all (\<lambda>r. if skipPoll then sr_collectAccepted r else sr_matches r) results then 0 else 1)"

definition sandbox_smoke ::
  "bool \<Rightarrow> (sandbox_scenario \<Rightarrow> string + string \<times> string) \<Rightarrow> (sandbox_scenario \<Rightarrow> nat \<Rightarrow> poll_reply) \<Rightarrow> (nat \<Rightarrow> nat) \<Rightarrow> nat" where
  "sandbox_smoke skipPoll collect reply took =
     exit_code skipPoll (map (\<lambda>s. run_scenario skipPoll (collect s) (reply s) took s) SANDBOX_SCENARIOS)"

definition smoke_main ::
  "nat + string \<times> string \<times> string \<Rightarrow> string + string \<Rightarrow> bool \<Rightarrow> (sandbox_scenario \<Rightarrow> string + string \<times> string)
   \<Rightarrow> (sandbox_scenario \<Rightarrow> nat \<Rightarrow> poll_reply) \<Rightarrow> (nat \<Rightarrow> nat) \<Rightarrow> nat" where
  "smoke_main cfg token skipPoll collect reply took =
     (case cfg of
        Inl code \<Rightarrow> code
      | Inr _ \<Rightarrow> (case token of Inl _ \<Rightarrow> 1 | Inr _ \<Rightarrow> sandbox_smoke skipPoll collect reply took))"

text \<open>The script succeeds exactly when each of the four numbers ends as the sandbox documents it.\<close>

lemma sandbox_smoke_ok:
  "sandbox_smoke False collect reply took = 0 \<longleftrightarrow>
     (\<forall>s \<in> set SANDBOX_SCENARIOS. (\<exists>r. collect s = Inr r) \<and> fst (pollUntilTerminal (reply s) took) = ss_expectedFinalStatus s)"
proof -
  have "sr_matches (run_scenario False c r took s) \<longleftrightarrow> (\<exists>x. c = Inr x) \<and> fst (pollUntilTerminal r took) = ss_expectedFinalStatus s"
    for c r s by (cases c) (simp_all add: run_scenario_def Let_def)
  then show ?thesis by (simp add: sandbox_smoke_def exit_code_def list_all_iff)
qed

lemma smoke_main_ok:
  "smoke_main (readConfig url user pass) token False collect reply took = 0 \<longleftrightarrow>
     (\<exists>cfg t. readConfig url user pass = Inr cfg \<and> token = Inr t)
     \<and> (\<forall>s \<in> set SANDBOX_SCENARIOS. (\<exists>r. collect s = Inr r) \<and> fst (pollUntilTerminal (reply s) took) = ss_expectedFinalStatus s)"
proof -
  have "readConfig url user pass \<noteq> Inl 0" by (simp add: readConfig_def Let_def)
  then show ?thesis
    by (cases "readConfig url user pass"; cases token) (auto simp: smoke_main_def sandbox_smoke_ok)
qed

lemma never_against_production:
  "readConfig url user pass = Inr (apiUrl, u, p) \<Longrightarrow> occurs ''demo.campay.net'' apiUrl \<and> u \<noteq> [] \<and> p \<noteq> []"
  by (auto simp: readConfig_def Let_def split: if_splits)

end
