(* ===== verification/Spec2Isabelle.thy ===== *)
theory Spec2Isabelle
  imports Order_Table Cron_Liveness Admin_Validation Web_Auth Routes Http_Errors Addresses Voice_Proxy Security_Alerts Reports Media Request_Validation Seed_Runs Operations
begin

text \<open>
  chopnow-api is the backend of a food-delivery service: NestJS handlers over PostgreSQL (Prisma),
  Redis, BullMQ queues and timers, with Campay for mobile money, Twilio for messages and calls, web
  push, Resend for mail and an R2 bucket for photos. This development models its services, crons,
  queue workers, webhooks, guards and seeding programs, and proves what makes them correct. Paths
  below are under \<open>src/src/\<close> unless they name \<open>prisma/\<close>, \<open>scripts/\<close> or \<open>main.ts\<close>.

  How the program works. A consumer creates an order (\<open>orders/order-creation.service.ts\<close>) and starts
  a payment (\<open>payments/\<close>); Campay's collect webhook emits an event whose handler confirms the order
  and books it into escrow. The vendor accepts or refuses within a window that a cron and a delayed
  job enforce; acceptance triggers dispatch, which assigns the nearest free rider, retries through a
  queue and gives up after a bound. Delivery splits the escrow into vendor, rider and platform
  accounts; a cancellation, refusal or expiry of a paid order leaves a refund to the refund worker.
  Payout crons turn balances into payout rows, a worker sends these to Campay and webhooks settle
  them. Around it stand sign-in (one-time codes for customers, password and second factor for the
  back office, rotating refresh tokens for both), menus and the catalogue, onboarding and its
  validation, addresses, masked calls, notifications, photos, configuration, and the pipes, guards
  and filters every request passes.

  How it is modelled. The database is one record \<open>world\<close> of tables, each a list of rows (\<open>Schema\<close>);
  the identity services work on \<open>auth_world\<close>, which adds their tables, and notifications and calls
  on \<open>notify_state\<close> and \<open>voice_state\<close> around that. A handler is a function from its arguments and
  the state to a result and the new state; every exception is the \<open>Inl\<close> branch of a sum over
  \<open>http_error\<close>. An update guarded in SQL (\<open>updateMany\<close> with a \<open>where\<close>) is one atomic step, and a
  handler that reads, decides and writes is split into its read and its commit where a property is
  about interleavings. Transactions are all-or-nothing. Money is whole francs as \<open>int\<close>, commission
  rates and averages are exact rationals, time is milliseconds, strings are char lists. JavaScript
  numbers are therefore exact; the bounds property C40 shows which amounts stay inside the 32-bit
  columns, and a lemma of \<open>Request_Validation\<close> shows where nothing bounds them.

  Foundations.
  \<^item> \<open>Prelude\<close>: scalar types, errors, results, the query shapes of Prisma and the locale
    \<open>repository\<close>.
  \<^item> \<open>Schema\<close>: enums, tables and events (\<open>prisma/schema.prisma\<close>, \<open>shared/events/domain-events.ts\<close>).
  \<^item> \<open>Guarded_Updates\<close>: the guarded write every handler shares, as locales \<open>guarded_transition\<close> and
    \<open>status_move\<close>. \<open>Evolution\<close>: what may happen to an order row (locale \<open>row_evolution\<close>, reachable
    statuses). \<open>Examples\<close>: the small database the witnesses run on.
  \<^item> \<open>Pricing\<close>, \<open>Ledger\<close> (\<open>finance/ledger.service.ts\<close>, locale \<open>books\<close>), \<open>Text_Utils\<close> (durations,
    phones), \<open>Text_Codecs\<close> (HTML escaping, the secret envelope).

  Orders and delivery.
  \<^item> \<open>Order_Creation\<close> and \<open>Coupons\<close>: pricing by the server, idempotency, codes, redemption once per
    user.
  \<^item> \<open>Order_Payment\<close>: the handler of a successful payment and the delayed-job scheduler.
  \<^item> \<open>Vendor_Actions\<close>, \<open>Consumer_Orders\<close>: every write of \<open>order-vendor-actions.service.ts\<close> and
    \<open>orders.service.ts\<close>, with the per-role redaction of the read paths.
  \<^item> \<open>Order_Timers\<close>, \<open>Cron_Liveness\<close>: expiry, pre-order promotion, stuck pickups, the race of the
    four writers of a vendor decision (locale \<open>contender\<close>) and the draining of a cron that takes
    fifty rows a tick (locale \<open>batch_cron\<close>).
  \<^item> \<open>Dispatch\<close>, \<open>Delivery\<close>: rider selection, assignment, retries; availability, pickup, delivery and
    the resolution of rider fraud.
  \<^item> \<open>Lifecycle\<close>, \<open>Order_Table\<close>: all of the above with payments, refunds and payouts as one step
    relation \<open>api_step\<close> and its runs, in which a handler is one step, and \<open>interleaved\<close> runs, in which
    the write of a handler is a step of its own that may come late; the invariants of every run.

  Money.
  \<^item> \<open>Campay\<close>: circuit breaker, token and balance caches, the three money calls. \<open>Payments\<close>: starting
    a payment, webhook signature, deduplication (locale \<open>dedup\<close>), the collect webhook.
  \<^item> \<open>Finance_Balance\<close>, \<open>Payouts\<close>, \<open>Payout_Transfers\<close>: balances, the payout crons and cashouts, the
    transfer worker, its webhook and the admin remediation; \<open>Payout_Machine\<close> is the abstract machine
    of one payout and the refinement lemma (locale \<open>payout_move\<close>), \<open>Payout_Safety\<close> the promises
    about money.
  \<^item> \<open>Refunds\<close>: the refund worker and its webhook.

  Accounts and sign-in.
  \<^item> \<open>Redis\<close> (locale \<open>kv_store\<close>): the key-value table and the services that keep state only there
    (token revocation, roles, idempotent responses). \<open>Accounts\<close>: the identity tables.
  \<^item> \<open>Sessions\<close>, \<open>Otp\<close>, \<open>Otp_Safety\<close>: refresh tokens and devices, one-time codes and the bounds on
    guessing.
  \<^item> \<open>Admin_Auth\<close>: password step, TOTP, recovery codes. \<open>Web_Auth\<close>: the cookies of both controllers.
  \<^item> \<open>Security_Alerts\<close>: the mails and pushes about a foreign device.

  Catalogue, onboarding and the rest of the surface.
  \<^item> \<open>Menu\<close>, \<open>Menu_Invariant\<close> (locale \<open>owned_rows\<close>), \<open>Catalogue\<close>: menus, opening hours, browsing.
  \<^item> \<open>Onboarding\<close>, \<open>Admin_Validation\<close>: vendor and rider dossiers and the decisions on them.
  \<^item> \<open>Addresses\<close>, \<open>Voice_Proxy\<close>, \<open>Notifications\<close>, \<open>Media\<close>, \<open>Reports\<close>.
  \<^item> \<open>Routes\<close>: every route with its decorators, the global guards in order, the throttler.
    \<open>Request_Validation\<close>: every class of \<open>modules/*/dto\<close> as a table of fields and the validation
    pipe of \<open>main.ts\<close>. \<open>Http_Errors\<close>, \<open>Admin_Audit\<close>: the exception filter and the audit trail.
  \<^item> \<open>Env_Config\<close>: the validated environment and its accessors. \<open>Operations\<close>: probes, metrics, log
    transports, scrubbing of error reports, slow queries, mail, OpenAPI documents, the captcha
    request, the URL check of \<open>safe-fetch.ts\<close> and \<open>scripts/campay-sandbox-smoke.ts\<close>.
  \<^item> \<open>Seeds\<close>, \<open>Seed_Runs\<close>: the four programs of \<open>prisma/\<close> that fill a database, and the locale
    \<open>seeding\<close> from which it follows that running the pilot seed again changes nothing it already
    settled.

  What the lemmas show.
  \<^item> Functional behaviour: C1, C5, C7, C8, C11, C12, C13, C24, C30, C32.
  \<^item> Invariants of every run: balanced append-only books (C3), the order table stays well formed
    (C15), menus (C29) and address books (C34); of interleaved runs, that orders keep their deal, and
    their life cycle where the four unguarded writes come in time (C4).
  \<^item> Races and duplicates: C2, C6, C9, C25, C28, C38, C39; the refinement of the payout machine
    (C10).
  \<^item> Sign-in: C14, C17, C18, C19, C20, C21, C36; access control and confidentiality: C22, C23, C31,
    C33. \<open>Routes\<close> states C22 against a policy of its own, a table of who each operation is for, written
    beside the decorators.
  \<^item> Progress and bounds: C16, C24, C26, C40; shapes of validated input: C27, C35; opening hours
    as intervals: C37. Beside them each theory proves the lemmas its properties rest on and, where
    the code does something other than a comment or its purpose says, a theorem that shows it.

  Interfaces. A locale states each contract that several operations share, and is interpreted on the
  model's own definitions where these are declared: \<open>repository\<close> on the eight tables of \<open>Schema\<close> and
  on the payouts of either kind; \<open>guarded_transition\<close>, \<open>status_move\<close> and \<open>guarded_sweep\<close> on the
  writes of vendors, consumers, riders, timers and refunds; \<open>row_evolution\<close> on three relations
  between worlds; \<open>contender\<close> on the four deciders; \<open>batch_cron\<close> on the expiry and promotion crons;
  \<open>books\<close> on the ledger; \<open>kv_store\<close> on the Redis table; \<open>dedup\<close> on the webhook table; \<open>payout_move\<close>
  on lock, settle, retry and manual mark; \<open>owned_rows\<close> on items and categories; \<open>seeding\<close> on the
  vendors and the riders of the pilot.

  Parameters. What is not under the repository is an argument of the definitions that use it: the
  PostGIS distance and ILIKE; drawn ids and random bytes; argon2, JWT signing and verification, TOTP
  arithmetic, AES-GCM and SHA-256; the answers of Campay, Twilio, Cloudflare, Resend, the push
  services and R2; whether Redis or BullMQ takes a job; the image library and the presigner; Joi's
  URL and number parsers; the date formatter; the photo host of the seeds. Where a property relies
  on what they do, the documented behaviour is a named hypothesis: password hashing (\<open>sound_env\<close> of
  \<open>Accounts\<close>), the cipher (\<open>Text_Codecs\<close>), the path matching of cookies (\<open>rfc6265_path\<close> of
  \<open>Web_Auth\<close>), what each decorator of class-validator accepts and how class-transformer converts
  (\<open>documented\<close> of \<open>Request_Validation\<close>), that a queue takes a job id once (\<open>queue_documented\<close> of
  \<open>Notifications\<close>), that Campay's references differ (\<open>references_differ\<close> of \<open>Payout_Safety\<close>); each has
  a concrete instance in the witnesses.

  Bounds and termination. Every definition is total. Loops over rows are recursions over lists. A
  dispatch that finds nobody queues the next numbered attempt below \<open>MAX_RETRIES\<close> = 10 and gives up
  there (C24). How often BullMQ runs a failed notification is its own affair: the options it is given
  are modelled, the retries are not. A cron takes fifty rows a tick; C16 counts the ticks that suffice from the overdue orders.
  The payout and refund workers take 25 rows a run. The only recursion that needs a measure of its
  own is the polling of the sandbox script, which a measure on the time left ends; with its interval
  and deadline it sends at most twenty requests.

  Not modelled. The registration of modules, providers and middleware with the framework
  (\<open>app.module.ts\<close>, the module files, the rest of \<open>main.ts\<close>: helmet, body limits, CORS, versioning)
  is configuration handed to libraries and keeps no state of the program; of it the guards in their
  order are in \<open>Routes\<close>, the pipe in \<open>Request_Validation\<close> and the documentation build in
  \<open>Operations\<close>. The helpers \<open>shared/crypto/webhook-signature.ts\<close> and \<open>shared/sanitize/html.ts\<close>
  have no caller. Log lines and telemetry after a commit, the console output of the scripts,
  display-only columns and the dates inside ledger descriptions are left out. Floating-point
  rounding, the isolation level of PostgreSQL below a single guarded statement or transaction, and
  the clocks of different hosts are outside the model; every handler takes the time it reads as an
  argument.
\<close>

end
